(* ===== verification/LS_Prelude.thy ===== *)
theory LS_Prelude
  imports Main "HOL-Library.Word" "HOL-Library.AList" "HOL-Library.Sublist"
begin

text \<open>
  Shared vocabulary of the development.

  \<^item> The state-and-error monad \<open>('s, 'e, 'a) sm\<close>: a Rust method that takes \<open>&self\<close>, mutates
    the component's state and returns \<open>Result<'a, 'e>\<close> is a function from the state to a
    sum (\<open>Inl\<close> is \<open>Err\<close>, \<open>Inr\<close> is \<open>Ok\<close>) and the state it leaves behind. An \<open>Err\<close> keeps
    the state changes made before it, as the source does.
  \<^item> \<open>preserves\<close>: the compositional invariant judgement over that monad; its rules are
    collected in \<open>pres\<close>.
  \<^item> List helpers used by every component: \<open>modify_first\<close> (the effect of a mutable borrow found
    by \<open>iter_mut().find(..)\<close>), saturating and wrapping machine arithmetic, substring tests.
\<close>

named_theorems pres \<open>invariant preservation rules\<close>
named_theorems sm_simps \<open>evaluation rules of the state-and-error monad\<close>

section \<open>The state-and-error monad\<close>

type_synonym ('s, 'e, 'a) sm = "'s \<Rightarrow> ('e + 'a) \<times> 's"

definition ok :: "'a \<Rightarrow> ('s, 'e, 'a) sm" where
  "ok x = (\<lambda>s. (Inr x, s))"

definition err :: "'e \<Rightarrow> ('s, 'e, 'a) sm" where
  "err e = (\<lambda>s. (Inl e, s))"

definition bindE :: "('s, 'e, 'a) sm \<Rightarrow> ('a \<Rightarrow> ('s, 'e, 'b) sm) \<Rightarrow> ('s, 'e, 'b) sm" where
  "bindE m f = (\<lambda>s. case m s of (Inl e, s') \<Rightarrow> (Inl e, s') | (Inr x, s') \<Rightarrow> f x s')"

text \<open>\<open>m?; k\<close> where the value is dropped.\<close>

abbreviation thenE :: "('s, 'e, 'a) sm \<Rightarrow> ('s, 'e, 'b) sm \<Rightarrow> ('s, 'e, 'b) sm" where
  "thenE m k \<equiv> bindE m (\<lambda>_. k)"

text \<open>Reading the state, and an infallible update of it.\<close>

definition gets :: "('s \<Rightarrow> 'a) \<Rightarrow> ('s, 'e, 'a) sm" where
  "gets f = (\<lambda>s. (Inr (f s), s))"

definition upd :: "('s \<Rightarrow> 's) \<Rightarrow> ('s, 'e, unit) sm" where
  "upd f = (\<lambda>s. (Inr (), f s))"

text \<open>\<open>if let Err(e) = m { log }\<close>: the error is swallowed, the state change kept.\<close>

definition attempt :: "('s, 'e, 'a) sm \<Rightarrow> ('s, 'e, 'e + 'a) sm" where
  "attempt m = (\<lambda>s. case m s of (r, s') \<Rightarrow> (Inr r, s'))"

text \<open>\<open>opt.ok_or_else(|| e)?\<close>\<close>

definition ok_or :: "'e \<Rightarrow> 'a option \<Rightarrow> ('s, 'e, 'a) sm" where
  "ok_or e x = (case x of None \<Rightarrow> err e | Some v \<Rightarrow> ok v)"

text \<open>A \<open>for\<close> loop with \<open>?\<close> in its body: it stops at the first error.\<close>

fun forE :: "'x list \<Rightarrow> ('x \<Rightarrow> ('s, 'e, unit) sm) \<Rightarrow> ('s, 'e, unit) sm" where
  "forE [] body = ok ()"
| "forE (x # xs) body = bindE (body x) (\<lambda>_. forE xs body)"

text \<open>Running a component's method inside a larger state, through a getter and a setter.\<close>

definition zoom :: "('s \<Rightarrow> 't) \<Rightarrow> (('t \<Rightarrow> 't) \<Rightarrow> 's \<Rightarrow> 's) \<Rightarrow> ('t, 'e, 'a) sm \<Rightarrow> ('s, 'e, 'a) sm" where
  "zoom rd wr m = (\<lambda>s. case m (rd s) of (r, t) \<Rightarrow> (r, wr (\<lambda>_. t) s))"

lemma ok_run [sm_simps]: "ok x s = (Inr x, s)" by (simp add: ok_def)
lemma err_run [sm_simps]: "err e s = (Inl e, s)" by (simp add: err_def)
lemma gets_run [sm_simps]: "gets f s = (Inr (f s), s)" by (simp add: gets_def)
lemma upd_run [sm_simps]: "upd f s = (Inr (), f s)" by (simp add: upd_def)
lemma attempt_run [sm_simps]: "attempt m s = (Inr (fst (m s)), snd (m s))"
  by (simp add: attempt_def split: prod.split)
lemma ok_or_run [sm_simps]:
  "ok_or e x s = (case x of None \<Rightarrow> (Inl e, s) | Some v \<Rightarrow> (Inr v, s))"
  by (simp add: ok_or_def sm_simps split: option.split)
lemma zoom_run [sm_simps]:
  "zoom rd wr m s = (fst (m (rd s)), wr (\<lambda>_. snd (m (rd s))) s)"
  by (simp add: zoom_def split: prod.split)

lemma bindE_run:
  "bindE m f s = (case fst (m s) of Inl e \<Rightarrow> (Inl e, snd (m s)) | Inr x \<Rightarrow> f x (snd (m s)))"
  by (cases "m s"; cases "fst (m s)") (auto simp: bindE_def)

lemma bindE_Inr [sm_simps]: "m s = (Inr x, s') \<Longrightarrow> bindE m f s = f x s'"
  by (simp add: bindE_def)

lemma bindE_Inl [sm_simps]: "m s = (Inl e, s') \<Longrightarrow> bindE m f s = (Inl e, s')"
  by (simp add: bindE_def)

lemma bindE_ok_left [simp]: "bindE (ok x) f = f x"
  by (rule ext) (simp add: bindE_def ok_def)

lemma bindE_err_left [simp]: "bindE (err e) f = err e"
  by (rule ext) (simp add: bindE_def err_def)

lemma bindE_assoc: "bindE (bindE m f) g = bindE m (\<lambda>x. bindE (f x) g)"
  by (rule ext) (simp add: bindE_run split: sum.split)

lemma bindE_gets [simp]: "bindE (gets f) k s = k (f s) s"
  by (simp add: bindE_def gets_def)

lemma bindE_upd [simp]: "bindE (upd f) k s = k () (f s)"
  by (simp add: bindE_def upd_def)

text \<open>Inversion of a successful sequence: the form in which refinement proofs use it.\<close>

lemma bindE_InrE:
  assumes "bindE m f s = (Inr y, s'')"
  obtains x s' where "m s = (Inr x, s')" and "f x s' = (Inr y, s'')"
  using assms by (cases "m s"; cases "fst (m s)") (auto simp: bindE_def)

section \<open>Invariants over the monad\<close>

definition preserves :: "('s \<Rightarrow> bool) \<Rightarrow> ('s, 'e, 'a) sm \<Rightarrow> bool" where
  "preserves I m \<longleftrightarrow> (\<forall>s. I s \<longrightarrow> I (snd (m s)))"

lemma preservesI: "(\<And>s. I s \<Longrightarrow> I (snd (m s))) \<Longrightarrow> preserves I m"
  by (simp add: preserves_def)

lemma preservesD: "preserves I m \<Longrightarrow> I s \<Longrightarrow> I (snd (m s))"
  by (simp add: preserves_def)

lemma preserves_ok [pres]: "preserves I (ok x)"
  by (simp add: preserves_def ok_def)

lemma preserves_err [pres]: "preserves I (err e)"
  by (simp add: preserves_def err_def)

lemma preserves_gets [pres]: "preserves I (gets f)"
  by (simp add: preserves_def gets_def)

lemma preserves_ok_or [pres]: "preserves I (ok_or e x)"
  by (simp add: preserves_def ok_or_run split: option.split)

lemma preserves_upd: "(\<And>s. I s \<Longrightarrow> I (f s)) \<Longrightarrow> preserves I (upd f)"
  by (simp add: preserves_def upd_def)

lemma preserves_bindE [pres]:
  assumes "preserves I m" and "\<And>x. preserves I (f x)"
  shows "preserves I (bindE m f)"
  using assms by (auto simp: preserves_def bindE_run split: sum.split)

lemma preserves_attempt [pres]: "preserves I m \<Longrightarrow> preserves I (attempt m)"
  by (simp add: preserves_def attempt_run)

lemma preserves_forE [pres]:
  assumes "\<And>x. preserves I (body x)"
  shows "preserves I (forE xs body)"
  by (induction xs) (simp_all add: preserves_ok preserves_bindE assms)

lemma preserves_if [pres]:
  "(b \<Longrightarrow> preserves I m) \<Longrightarrow> (\<not> b \<Longrightarrow> preserves I n) \<Longrightarrow> preserves I (if b then m else n)"
  by simp

lemma preserves_case_option [pres]:
  assumes "x = None \<Longrightarrow> preserves I m" and "\<And>v. x = Some v \<Longrightarrow> preserves I (f v)"
  shows "preserves I (case x of None \<Rightarrow> m | Some v \<Rightarrow> f v)"
  using assms by (simp split: option.split)

lemma preserves_case_sum [pres]:
  assumes "\<And>e. x = Inl e \<Longrightarrow> preserves I (f e)" and "\<And>v. x = Inr v \<Longrightarrow> preserves I (g v)"
  shows "preserves I (case x of Inl e \<Rightarrow> f e | Inr v \<Rightarrow> g v)"
  using assms by (simp split: sum.split)

lemma preserves_case_prod [pres]:
  assumes "\<And>a b. x = (a, b) \<Longrightarrow> preserves I (f a b)"
  shows "preserves I (case x of (a, b) \<Rightarrow> f a b)"
  using assms by (simp split: prod.split)

lemma preserves_zoom:
  assumes "\<And>s. I s \<Longrightarrow> J (rd s)" and "preserves J m"
    and "\<And>s t. I s \<Longrightarrow> J t \<Longrightarrow> I (wr (\<lambda>_. t) s)"
  shows "preserves I (zoom rd wr m)"
  using assms by (simp add: preserves_def zoom_run)

section \<open>Lists\<close>

text \<open>\<open>xs.iter_mut().find(|x| p(x))\<close> followed by a write through the borrow: the first match.\<close>

fun modify_first :: "('a \<Rightarrow> bool) \<Rightarrow> ('a \<Rightarrow> 'a) \<Rightarrow> 'a list \<Rightarrow> 'a list" where
  "modify_first p f [] = []"
| "modify_first p f (x # xs) = (if p x then f x # xs else x # modify_first p f xs)"

lemma length_modify_first [simp]: "length (modify_first p f xs) = length xs"
  by (induction xs) auto

lemma modify_first_append:
  "modify_first p f (xs @ ys) =
     (if \<exists>x\<in>set xs. p x then modify_first p f xs @ ys else xs @ modify_first p f ys)"
  by (induction xs) auto

lemma map_modify_first:
  "(\<And>x. h (f x) = h x) \<Longrightarrow> map h (modify_first p f xs) = map h xs"
  by (induction xs) auto

lemma find_modify_first:
  assumes "\<And>x. p (f x) = p x"
  shows "List.find p (modify_first p f xs) = map_option f (List.find p xs)"
  by (induction xs) (auto simp: assms)

lemma find_modify_first_other:
  assumes "\<And>x. p x \<Longrightarrow> \<not> q x" and "\<And>x. p x \<Longrightarrow> \<not> q (f x)"
  shows "List.find q (modify_first p f xs) = List.find q xs"
  using assms by (induction xs) auto

lemma modify_first_none: "List.find p xs = None \<Longrightarrow> modify_first p f xs = xs"
  by (induction xs) (auto split: if_splits)

lemma set_modify_first_subset: "set (modify_first p f xs) \<subseteq> set xs \<union> f ` {x \<in> set xs. p x}"
  by (induction xs) auto

text \<open>With distinct keys, changing the first match is changing every match.\<close>

lemma modify_first_distinct:
  assumes "distinct (map h xs)"
  shows "modify_first (\<lambda>x. h x = k) f xs = map (\<lambda>x. if h x = k then f x else x) xs"
  using assms
proof (induction xs)
  case Nil
  then show ?case by simp
next
  case (Cons x xs)
  have "h y \<noteq> h x" if "y \<in> set xs" for y
    using Cons.prems that by (auto simp: image_iff)
  then have "map (\<lambda>y. if h y = h x then f y else y) xs = xs"
    by (intro map_idI) simp
  with Cons show ?case by auto
qed

lemma find_Some_iff_first:
  "List.find p xs = Some x \<Longrightarrow> x \<in> set xs \<and> p x"
  by (induction xs) (auto split: if_splits)

text \<open>Text in single quotes, and the UTF-8 bytes of an em dash, as messages print them.\<close>

definition quoted :: "string \<Rightarrow> string" where
  "quoted s = [CHR 0x27] @ s @ [CHR 0x27]"

definition em_dash :: string where
  "em_dash = [CHR 0xE2, CHR 0x80, CHR 0x94]"

text \<open>\<open>s.contains(pat)\<close> on strings.\<close>

definition contains_str :: "'a list \<Rightarrow> 'a list \<Rightarrow> bool" where
  "contains_str pat s = sublist pat s"

lemma contains_str_single [simp]: "contains_str [c] s \<longleftrightarrow> c \<in> set s"
  by (auto simp: contains_str_def sublist_def in_set_conv_decomp)

section \<open>Machine arithmetic\<close>

text \<open>Rust's \<open>saturating_add(1)\<close>; \<open>wrapping_add(1)\<close> is the word addition itself.\<close>

definition sat_inc :: "'a::len word \<Rightarrow> 'a word" where
  "sat_inc w = (if w = - 1 then w else w + 1)"

lemma unat_sat_inc: "unat (sat_inc w) = min (Suc (unat w)) (2 ^ LENGTH('a) - 1)"
  for w :: "'a::len word"
proof (cases "w = - 1")
  case True
  then show ?thesis by (simp add: sat_inc_def unsigned_minus_1_eq_mask mask_eq_exp_minus_1)
next
  case False
  then have "1 + w \<noteq> 0"
    by (metis add.commute add_eq_0_iff)
  then have "unat (w + 1) = Suc (unat w)"
    by (metis add.commute unatSuc)
  moreover have "unat (w + 1) < 2 ^ LENGTH('a)" by (rule unsigned_less)
  ultimately show ?thesis using False by (simp add: sat_inc_def)
qed

lemma unat_le_sat_inc: "unat w \<le> unat (sat_inc w)" for w :: "'a::len word"
proof -
  have "unat w < 2 ^ LENGTH('a)" by (rule unsigned_less)
  then have "unat w \<le> 2 ^ LENGTH('a) - 1" by linarith
  then show ?thesis by (simp add: unat_sat_inc)
qed

lemma sat_inc_gt: "unat w < unat m \<Longrightarrow> unat w < unat (sat_inc w)"
  for w m :: "'a::len word"
proof -
  assume "unat w < unat m"
  moreover have "unat m < 2 ^ LENGTH('a)" by (rule unsigned_less)
  ultimately have "unat w < 2 ^ LENGTH('a) - 1" by linarith
  then show ?thesis by (simp add: unat_sat_inc)
qed

end
