(* ===== verification/Rust_Text.thy ===== *)
theory Rust_Text
  imports LS_Prelude
begin

text \<open>
  The operations of Rust's \<open>str\<close> that the components use. A \<open>String\<close> is its UTF-8 bytes, one \<open>char\<close>
  per byte; \<open>trim\<close> removes Unicode white space, \<open>split_ascii_whitespace\<close> splits on ASCII white space.
\<close>

section \<open>Prefixes and trimming\<close>

fun strip_prefix :: "'a list \<Rightarrow> 'a list \<Rightarrow> 'a list option" where
  "strip_prefix [] s = Some s"
| "strip_prefix (p # ps) [] = None"
| "strip_prefix (p # ps) (c # cs) = (if p = c then strip_prefix ps cs else None)"

lemma strip_prefix_Some_iff [simp]: "strip_prefix p s = Some r \<longleftrightarrow> s = p @ r"
  by (induction p s rule: strip_prefix.induct) auto

lemma strip_prefix_append [simp]: "strip_prefix p (p @ r) = Some r"
  by simp

text \<open>The first of the given non-empty prefixes that \<open>s\<close> has, removed.\<close>

fun strip_any :: "'a list list \<Rightarrow> 'a list \<Rightarrow> 'a list option" where
  "strip_any [] s = None"
| "strip_any (w # ws) s =
     (case strip_prefix w s of
        Some r \<Rightarrow> if w = [] then strip_any ws s else Some r
      | None \<Rightarrow> strip_any ws s)"

lemma strip_any_SomeD: "strip_any ws s = Some r \<Longrightarrow> \<exists>w\<in>set ws. w \<noteq> [] \<and> s = w @ r"
  by (induction ws) (auto split: option.splits if_splits)

function trim_by :: "'a list list \<Rightarrow> 'a list \<Rightarrow> 'a list" where
  "trim_by ws s = (case strip_any ws s of None \<Rightarrow> s | Some r \<Rightarrow> trim_by ws r)"
  by pat_completeness auto
termination
  by (relation "measure (length \<circ> snd)") (auto dest!: strip_any_SomeD)

declare trim_by.simps [simp del]

lemma trim_by_none: "strip_any ws s = None \<Longrightarrow> trim_by ws s = s"
  by (subst trim_by.simps) simp

lemma trim_by_some: "strip_any ws s = Some r \<Longrightarrow> trim_by ws s = trim_by ws r"
  by (subst trim_by.simps) simp

lemma strip_any_trim_by [simp]: "strip_any ws (trim_by ws s) = None"
  by (induction ws s rule: trim_by.induct)
     (metis not_None_eq trim_by_none trim_by_some)

lemma trim_by_idem [simp]: "trim_by ws (trim_by ws s) = trim_by ws s"
  by (rule trim_by_none) simp

text \<open>A string that consists of the given pieces only: it is trimmed to nothing.\<close>

definition blank_by :: "'a list list \<Rightarrow> 'a list \<Rightarrow> bool" where
  "blank_by ws s \<longleftrightarrow> trim_by ws s = []"

lemma blank_by_Nil [simp]: "blank_by ws []"
proof -
  have "strip_any ws [] = None"
    by (induction ws) (auto split: option.split)
  then show ?thesis by (simp add: blank_by_def trim_by_none)
qed

lemma strip_any_shorten:
  assumes "strip_any ws (w @ r @ u) = Some (r @ u)"
  shows "strip_any ws (w @ r) = Some r"
  using assms
proof (induction ws)
  case Nil
  then show ?case by simp
next
  case (Cons p ws)
  show ?case
  proof (cases "strip_prefix p (w @ r @ u)")
    case None
    then have "strip_prefix p (w @ r) = None"
      by (metis append.assoc not_None_eq strip_prefix_Some_iff)
    with None Cons show ?thesis by simp
  next
    case (Some q)
    show ?thesis
    proof (cases "p = []")
      case True
      with Cons show ?thesis by simp
    next
      case False
      with Some Cons.prems have "q = r @ u" by simp
      with Some have "p = w" by simp
      with False show ?thesis by simp
    qed
  qed
qed

lemma trim_by_split: "\<exists>w. s = w @ trim_by ws s \<and> blank_by ws w"
proof (induction ws s rule: trim_by.induct)
  case (1 ws s)
  show ?case
  proof (cases "strip_any ws s")
    case None
    then show ?thesis by (intro exI [of _ "[]"]) (simp add: trim_by_none)
  next
    case (Some r)
    then obtain v where v: "r = v @ trim_by ws r" "blank_by ws v" using 1 by blast
    from Some obtain p where p: "s = p @ r" using strip_any_SomeD by blast
    have "strip_any ws (p @ v @ trim_by ws r) = Some (v @ trim_by ws r)"
      using Some p v(1) by simp
    then have "strip_any ws (p @ v) = Some v" by (rule strip_any_shorten)
    then have "blank_by ws (p @ v)" using v(2) by (simp add: blank_by_def trim_by_some)
    moreover have "s = (p @ v) @ trim_by ws s" using p v(1) Some by (simp add: trim_by_some)
    ultimately show ?thesis by blast
  qed
qed

lemma suffix_trim_by: "suffix (trim_by ws s) s"
  using trim_by_split [of s ws] by (auto simp: suffix_def)


text \<open>The code points with the Unicode property \<open>White_Space\<close>, in UTF-8.\<close>

definition ascii_white :: "string list" where
  "ascii_white = [[CHR 0x09], [CHR 0x0A], [CHR 0x0B], [CHR 0x0C], [CHR 0x0D], [CHR '' '']]"

definition wide_white :: "string list" where
  "wide_white =
     [[CHR 0xC2, CHR 0x85], [CHR 0xC2, CHR 0xA0], [CHR 0xE1, CHR 0x9A, CHR 0x80],
      [CHR 0xE2, CHR 0x80, CHR 0x80], [CHR 0xE2, CHR 0x80, CHR 0x81], [CHR 0xE2, CHR 0x80, CHR 0x82],
      [CHR 0xE2, CHR 0x80, CHR 0x83], [CHR 0xE2, CHR 0x80, CHR 0x84], [CHR 0xE2, CHR 0x80, CHR 0x85],
      [CHR 0xE2, CHR 0x80, CHR 0x86], [CHR 0xE2, CHR 0x80, CHR 0x87], [CHR 0xE2, CHR 0x80, CHR 0x88],
      [CHR 0xE2, CHR 0x80, CHR 0x89], [CHR 0xE2, CHR 0x80, CHR 0x8A], [CHR 0xE2, CHR 0x80, CHR 0xA8],
      [CHR 0xE2, CHR 0x80, CHR 0xA9], [CHR 0xE2, CHR 0x80, CHR 0xAF], [CHR 0xE2, CHR 0x81, CHR 0x9F],
      [CHR 0xE3, CHR 0x80, CHR 0x80]]"

definition unicode_white :: "string list" where
  "unicode_white = ascii_white @ wide_white"

definition trim_start :: "string \<Rightarrow> string" where
  "trim_start s = trim_by unicode_white s"

definition trim_end :: "string \<Rightarrow> string" where
  "trim_end s = rev (trim_by (map rev unicode_white) (rev s))"

definition trim :: "string \<Rightarrow> string" where
  "trim s = trim_end (trim_start s)"

abbreviation blank :: "string \<Rightarrow> bool" where
  "blank \<equiv> blank_by unicode_white"

lemma trim_start_split: "\<exists>w. s = w @ trim_start s \<and> blank w"
  unfolding trim_start_def by (rule trim_by_split)

lemma strip_any_visible:
  assumes "\<forall>w\<in>set ws. w \<noteq> [] \<longrightarrow> hd w \<noteq> c"
  shows "strip_any ws (c # s) = None"
  using assms
proof (induction ws)
  case Nil
  show ?case by simp
next
  case (Cons w ws)
  then show ?case by (cases w) simp_all
qed

text \<open>A byte that starts no white space: what it starts is not trimmed.\<close>

definition visible :: "char \<Rightarrow> bool" where
  "visible c = (c \<notin> set (map hd unicode_white))"

lemma trim_start_visible [simp]: "visible c \<Longrightarrow> trim_start (c # s) = c # s"
  unfolding trim_start_def
  by (rule trim_by_none, rule strip_any_visible) (auto simp: visible_def)

lemma trim_start_Nil [simp]: "trim_start [] = []"
  using blank_by_Nil [of unicode_white] by (simp add: blank_by_def trim_start_def)

lemma trim_start_space [simp]: "trim_start (CHR '' '' # s) = trim_start s"
  unfolding trim_start_def
  by (rule trim_by_some) (simp add: unicode_white_def ascii_white_def)

section \<open>Searching and splitting\<close>

text \<open>\<open>s.find(c)\<close> as the text before the first \<open>c\<close> and the text after it.\<close>

fun split_at_char :: "'a \<Rightarrow> 'a list \<Rightarrow> ('a list \<times> 'a list) option" where
  "split_at_char c [] = None"
| "split_at_char c (x # xs) =
     (if x = c then Some ([], xs)
      else map_option (\<lambda>p. (x # fst p, snd p)) (split_at_char c xs))"

lemma split_at_char_Some:
  "split_at_char c s = Some (a, b) \<longleftrightarrow> s = a @ c # b \<and> c \<notin> set a"
proof (induction s arbitrary: a)
  case Nil
  show ?case by simp
next
  case (Cons x xs)
  note IH = Cons.IH
  show ?case
  proof (cases a)
    case Nil
    then show ?thesis by auto
  next
    case (Cons y ys)
    then show ?thesis
      using IH [of ys] by (auto simp: eq_commute [of _ c])
  qed
qed

lemma split_at_char_None: "split_at_char c s = None \<longleftrightarrow> c \<notin> set s"
  by (induction s) auto

text \<open>\<open>s.split(c)\<close>: at least one piece, one more than there are separators.\<close>

fun split_on :: "'a \<Rightarrow> 'a list \<Rightarrow> 'a list list" where
  "split_on c [] = [[]]"
| "split_on c (x # xs) =
     (if x = c then [] # split_on c xs
      else case split_on c xs of [] \<Rightarrow> [[x]] | y # ys \<Rightarrow> (x # y) # ys)"

lemma split_on_nonempty [simp]: "split_on c s \<noteq> []"
  by (induction s) (auto split: list.split)

fun join_with :: "'a \<Rightarrow> 'a list list \<Rightarrow> 'a list" where
  "join_with c [] = []"
| "join_with c [x] = x"
| "join_with c (x # y # ys) = x @ c # join_with c (y # ys)"

lemma join_with_Cons: "ys \<noteq> [] \<Longrightarrow> join_with c (x # ys) = x @ c # join_with c ys"
  by (cases ys) auto

lemma join_split_on: "join_with c (split_on c s) = s"
proof (induction s)
  case Nil
  show ?case by simp
next
  case (Cons x xs)
  show ?case
  proof (cases "split_on c xs")
    case Nil
    then show ?thesis by simp
  next
    case (Cons y ys)
    with Cons.IH show ?thesis by (cases ys) auto
  qed
qed

lemma split_on_pieces: "p \<in> set (split_on c s) \<Longrightarrow> c \<notin> set p"
  by (induction s arbitrary: p) (auto split: if_splits list.splits)

definition is_ascii_whitespace :: "char \<Rightarrow> bool" where
  "is_ascii_whitespace c = (c \<in> {CHR '' '', CHR 0x09, CHR 0x0A, CHR 0x0C, CHR 0x0D})"

text \<open>\<open>s.split_ascii_whitespace()\<close>: the maximal runs without white space.\<close>

definition split_ascii_whitespace :: "string \<Rightarrow> string list" where
  "split_ascii_whitespace s =
     filter (\<lambda>w. w \<noteq> []) (split_on (CHR '' '') (map (\<lambda>c. if is_ascii_whitespace c then CHR '' '' else c) s))"

text \<open>\<open>u8::to_ascii_lowercase\<close>.\<close>

definition ascii_lower :: "char \<Rightarrow> char" where
  "ascii_lower c =
     (let n = (of_char c :: nat) in if 65 \<le> n \<and> n \<le> 90 then char_of (n + 32) else c)"

section \<open>Numbers\<close>

text \<open>The \<open>Display\<close> of an unsigned integer.\<close>

fun decimal :: "nat \<Rightarrow> string" where
  "decimal n = (if n < 10 then [char_of (48 + n)] else decimal (n div 10) @ [char_of (48 + n mod 10)])"

declare decimal.simps [simp del]

end
