(* ===== verification/Tasklist.thy ===== *)
theory Tasklist
  imports Rust_Text
begin

text \<open>
  The tasklist data model, \<open>crates/ao-protocol/src/tasklist.rs\<close>: owners, statuses, tasks, groups and
  tasklists, the per-task output-file prefix, the owner resolution of the deserializer, and the
  look-ups over a tasklist's tasks that the store and the feeder share.

  Ids are strings. A Rust \<open>String\<close> is a \<open>string\<close> (a list of characters). An attachment is
  opaque to this code and is kept as a string. Timestamps (\<open>DateTime<Utc>\<close>) are integers counting
  nanoseconds.
\<close>

section \<open>Types\<close>

type_synonym agent_id = string
type_synonym team_id = string
type_synonym tasklist_id = string
type_synonym task_id = string
type_synonym time = int

datatype tasklist_owner = OwnerTeam team_id | OwnerAgent agent_id

datatype tasklist_scope = ScopeTeam team_id | ScopeAgent agent_id

datatype assignment_mode = Pinned | Classified

record task_assignment =
  ta_owner_agent_id :: agent_id
  ta_mode :: assignment_mode

datatype task_status = Pending | InProgress | Completed | Failed | Blocked | Skipped | Stopped

definition is_terminal :: "task_status \<Rightarrow> bool" where
  "is_terminal s = (s \<in> {Completed, Failed, Skipped})"

lemma is_terminal_simps [simp]:
  "is_terminal Completed" "is_terminal Failed" "is_terminal Skipped"
  "\<not> is_terminal Pending" "\<not> is_terminal InProgress" "\<not> is_terminal Blocked"
  "\<not> is_terminal Stopped"
  by (simp_all add: is_terminal_def)

datatype task_group_mode = Par | Seq

datatype tasklist_status = TlActive | TlPaused | TlCompleted | TlCancelled | TlFailed

datatype author_kind = AuthorUser | AuthorAgent

record task_comment =
  tc_id :: string
  tc_author_id :: string
  tc_author_kind :: author_kind
  tc_body :: string
  tc_created_at :: time

record task =
  t_id :: task_id
  t_owner_agent_id :: agent_id
  t_prompt :: string
  t_expected_outputs :: "string list"
  t_status :: task_status
  t_group_id :: string
  t_attempt_count :: "32 word"
  t_error_log :: "string list"
  t_comments :: "task_comment list"
  t_attachments :: "string list"
  t_remind_me :: "agent_id option"
  t_parse_failed :: bool
  t_notification_parse_retry_count :: "32 word"
  t_assignment :: "task_assignment option"
  t_classifier_token :: "64 word"
  t_dispatch_token :: "64 word"

record task_group =
  g_id :: string
  g_mode :: task_group_mode
  g_tasks :: "task list"

record tasklist =
  tl_id :: tasklist_id
  tl_owner :: tasklist_owner
  tl_team_id :: "team_id option"
  tl_title :: string
  tl_description :: string
  tl_status :: tasklist_status
  tl_groups :: "task_group list"
  tl_workspace_dir :: string
  tl_transcripts_dir :: string
  tl_created_at :: time
  tl_last_active_at :: "time option"
  tl_copilot_agent_id :: "agent_id option"
  tl_last_opened_at :: "time option"
  tl_project_id :: "string option"
  tl_thread_id :: "string option"

text \<open>
  The error type, \<open>crates/ao-protocol/src/error.rs\<close>: the variants these components return. The
  message of an \<open>InvalidTasklistTransition\<close> is kept structured: the pair of statuses it prints, or
  the refused operation with the id and the status it names.
\<close>

datatype transition_msg =
    StatusMove tasklist_status tasklist_status
  | TaskMove task_id task_status task_status
  | RefusedTasklist string tasklist_id tasklist_status
  | RefusedTask string task_id task_status

datatype ao_error =
    ValidationError string
  | TasklistAlreadyActive team_id tasklist_id
  | TasklistNotFound tasklist_id
  | TaskNotFound task_id
  | InvalidTasklistTransition transition_msg
  | InternalError string

section \<open>Per-task output names\<close>

definition output_filename_prefix_len :: nat where
  "output_filename_prefix_len = 8"

definition task_id_filename_prefix :: "task_id \<Rightarrow> string" where
  "task_id_filename_prefix tid = take output_filename_prefix_len tid"

definition prefix_expected_output :: "task_id \<Rightarrow> string \<Rightarrow> string" where
  "prefix_expected_output tid filename =
     (let marker = task_id_filename_prefix tid @ ''__'' in
      if prefix marker filename then filename else marker @ filename)"

definition prefix_expected_outputs :: "task_id \<Rightarrow> string list \<Rightarrow> string list" where
  "prefix_expected_outputs tid outs = map (prefix_expected_output tid) outs"

lemma prefix_expected_output_starts:
  "prefix (task_id_filename_prefix tid @ ''__'') (prefix_expected_output tid f)"
  by (simp add: prefix_expected_output_def Let_def)

lemma prefix_expected_output_idem [simp]:
  "prefix_expected_output tid (prefix_expected_output tid f) = prefix_expected_output tid f"
  using prefix_expected_output_starts [of tid f]
  by (simp add: prefix_expected_output_def [of tid "prefix_expected_output tid f"])

section \<open>Owner resolution when a tasklist is read from disk\<close>

text \<open>
  \<open>impl Deserialize for Tasklist\<close>: a file may carry an owner, or only the legacy team id, or neither
  (an error, here \<open>None\<close>).
\<close>

definition resolve_raw_owner :: "tasklist_owner option \<Rightarrow> team_id option \<Rightarrow> tasklist_owner option" where
  "resolve_raw_owner raw_owner raw_team =
     (case raw_owner of
        Some ow \<Rightarrow> Some ow
      | None \<Rightarrow> (case raw_team of Some tid \<Rightarrow> Some (OwnerTeam tid) | None \<Rightarrow> None))"

definition scope_id :: "tasklist \<Rightarrow> string" where
  "scope_id L = (case tl_owner L of OwnerTeam tid \<Rightarrow> tid | OwnerAgent aid \<Rightarrow> aid)"

section \<open>The tasks of a tasklist\<close>

definition all_tasks :: "tasklist \<Rightarrow> task list" where
  "all_tasks L = concat (map g_tasks (tl_groups L))"

definition find_task :: "tasklist \<Rightarrow> task_id \<Rightarrow> task option" where
  "find_task L tid = List.find (\<lambda>t. t_id t = tid) (all_tasks L)"

text \<open>
  \<open>find_task_mut\<close> (tasklist_store.rs) with the write through the borrow it returns: the first group
  that holds a task with this id, and in it the first such task.
\<close>

fun modify_groups :: "task_id \<Rightarrow> (task \<Rightarrow> task) \<Rightarrow> task_group list \<Rightarrow> task_group list" where
  "modify_groups tid f [] = []"
| "modify_groups tid f (g # gs) =
     (case List.find (\<lambda>t. t_id t = tid) (g_tasks g) of
        Some _ \<Rightarrow> g\<lparr>g_tasks := modify_first (\<lambda>t. t_id t = tid) f (g_tasks g)\<rparr> # gs
      | None \<Rightarrow> g # modify_groups tid f gs)"

definition modify_task :: "task_id \<Rightarrow> (task \<Rightarrow> task) \<Rightarrow> tasklist \<Rightarrow> tasklist" where
  "modify_task tid f L = L\<lparr>tl_groups := modify_groups tid f (tl_groups L)\<rparr>"

text \<open>The nested \<open>for group in &mut groups { for task in &mut group.tasks { .. } }\<close> loops.\<close>

definition map_tasks :: "(task \<Rightarrow> task) \<Rightarrow> tasklist \<Rightarrow> tasklist" where
  "map_tasks f L = L\<lparr>tl_groups := map (\<lambda>g. g\<lparr>g_tasks := map f (g_tasks g)\<rparr>) (tl_groups L)\<rparr>"

lemma all_tasks_map_tasks [simp]: "all_tasks (map_tasks f L) = map f (all_tasks L)"
  by (simp add: all_tasks_def map_tasks_def map_concat comp_def)

lemma find_concat_append:
  "List.find p (xs @ ys) = (case List.find p xs of Some x \<Rightarrow> Some x | None \<Rightarrow> List.find p ys)"
  by (induction xs) auto

lemma modify_groups_tasks:
  "concat (map g_tasks (modify_groups tid f gs)) =
     modify_first (\<lambda>t. t_id t = tid) f (concat (map g_tasks gs))"
proof (induction gs)
  case Nil
  then show ?case by simp
next
  case (Cons g gs)
  show ?case
  proof (cases "List.find (\<lambda>t. t_id t = tid) (g_tasks g)")
    case None
    then have "\<not> (\<exists>x\<in>set (g_tasks g). t_id x = tid)"
      by (auto simp: find_None_iff)
    with None Cons.IH show ?thesis by (simp add: modify_first_append)
  next
    case (Some t)
    then have "\<exists>x\<in>set (g_tasks g). t_id x = tid"
      using find_Some_iff_first [OF Some] by auto
    with Some show ?thesis by (simp add: modify_first_append)
  qed
qed

lemma all_tasks_modify_task [simp]:
  "all_tasks (modify_task tid f L) = modify_first (\<lambda>t. t_id t = tid) f (all_tasks L)"
  by (simp add: all_tasks_def modify_task_def modify_groups_tasks)

lemma modify_task_frame [simp]:
  "tl_id (modify_task tid f L) = tl_id L"
  "tl_owner (modify_task tid f L) = tl_owner L"
  "tl_status (modify_task tid f L) = tl_status L"
  "tl_created_at (modify_task tid f L) = tl_created_at L"
  "tl_project_id (modify_task tid f L) = tl_project_id L"
  "tl_workspace_dir (modify_task tid f L) = tl_workspace_dir L"
  by (simp_all add: modify_task_def)

lemma map_tasks_frame [simp]:
  "tl_id (map_tasks f L) = tl_id L"
  "tl_owner (map_tasks f L) = tl_owner L"
  "tl_status (map_tasks f L) = tl_status L"
  "tl_created_at (map_tasks f L) = tl_created_at L"
  "tl_project_id (map_tasks f L) = tl_project_id L"
  "tl_workspace_dir (map_tasks f L) = tl_workspace_dir L"
  by (simp_all add: map_tasks_def)

lemma find_task_modify_same:
  assumes "\<And>t. t_id (f t) = t_id t"
  shows "find_task (modify_task tid f L) tid = map_option f (find_task L tid)"
  by (simp add: find_task_def find_modify_first assms)

lemma find_task_modify_other:
  assumes "\<And>t. t_id (f t) = t_id t" and "tid' \<noteq> tid"
  shows "find_task (modify_task tid f L) tid' = find_task L tid'"
  unfolding find_task_def all_tasks_modify_task
  by (rule find_modify_first_other) (use assms in auto)

lemma find_task_map_tasks:
  assumes "\<And>t. t_id (f t) = t_id t"
  shows "find_task (map_tasks f L) tid = map_option f (find_task L tid)"
proof -
  have "List.find (\<lambda>t. t_id t = tid) (map f xs) = map_option f (List.find (\<lambda>t. t_id t = tid) xs)"
    for xs by (induction xs) (auto simp: assms)
  then show ?thesis by (simp add: find_task_def)
qed

lemma find_task_SomeD: "find_task L tid = Some t \<Longrightarrow> t \<in> set (all_tasks L) \<and> t_id t = tid"
  unfolding find_task_def by (auto dest: find_Some_iff_first)

lemma find_task_id: "find_task L tid = Some t \<Longrightarrow> t_id t = tid"
  by (simp add: find_task_SomeD)

text \<open>The ids of the tasks, in order; task ids are unique within a tasklist.\<close>

definition task_ids :: "tasklist \<Rightarrow> task_id list" where
  "task_ids L = map t_id (all_tasks L)"

definition distinct_tasks :: "tasklist \<Rightarrow> bool" where
  "distinct_tasks L = distinct (task_ids L)"

lemma task_ids_modify [simp]:
  "(\<And>t. t_id (f t) = t_id t) \<Longrightarrow> task_ids (modify_task tid f L) = task_ids L"
  by (simp add: task_ids_def map_modify_first)

lemma task_ids_map_tasks [simp]:
  "(\<And>t. t_id (f t) = t_id t) \<Longrightarrow> task_ids (map_tasks f L) = task_ids L"
  by (simp add: task_ids_def comp_def)

lemma find_task_distinct:
  assumes "distinct_tasks L" and "t \<in> set (all_tasks L)"
  shows "find_task L (t_id t) = Some t"
proof -
  have "List.find (\<lambda>u. t_id u = t_id t) xs = Some t"
    if "distinct (map t_id xs)" and "t \<in> set xs" for xs
    using that by (induction xs) (auto simp: image_iff)
  with assms show ?thesis by (simp add: distinct_tasks_def task_ids_def find_task_def)
qed

definition any_failed :: "tasklist \<Rightarrow> bool" where
  "any_failed L = list_ex (\<lambda>t. t_status t = Failed) (all_tasks L)"

end
