(* ===== verification/Keyed_Store.thy ===== *)
theory Keyed_Store
  imports LS_Prelude
begin

text \<open>
  The contract between a store of records addressed by a key and the components that use it.

  \<^item> \<open>keyed_store\<close>: reading back a written record, and the well-formedness of the store.
  \<^item> \<open>keyed_op\<close>: an operation on one key. It fails on a missing record without touching the store,
    and on a present record it performs one step of a per-record relation \<open>step\<close>. What its clients
    need follows: the other records are untouched, the keys stay, the store stays well-formed, and
    a property of records that \<open>step\<close> keeps holds of every record afterwards.
\<close>

locale keyed_store =
  fixes lookup :: "'s \<Rightarrow> 'k \<Rightarrow> 'v option"
    and put :: "'v \<Rightarrow> 's \<Rightarrow> 's"
    and wf :: "'s \<Rightarrow> bool"
    and key :: "'v \<Rightarrow> 'k"
  assumes lookup_put: "lookup (put v s) k = (if k = key v then Some v else lookup s k)"
    and wf_put: "wf s \<Longrightarrow> wf (put v s)"
    and lookup_key: "wf s \<Longrightarrow> lookup s k = Some v \<Longrightarrow> key v = k"
begin

definition holds_all :: "('v \<Rightarrow> bool) \<Rightarrow> 's \<Rightarrow> bool" where
  "holds_all P s \<longleftrightarrow> (\<forall>k v. lookup s k = Some v \<longrightarrow> P v)"

lemma holds_all_put: "holds_all P s \<Longrightarrow> P v \<Longrightarrow> holds_all P (put v s)"
  by (auto simp: holds_all_def lookup_put split: if_splits)

lemma holds_allD: "holds_all P s \<Longrightarrow> lookup s k = Some v \<Longrightarrow> P v"
  by (auto simp: holds_all_def)

lemma lookup_put_same: "lookup (put v s) (key v) = Some v"
  by (simp add: lookup_put)

lemma lookup_put_other: "k \<noteq> key v \<Longrightarrow> lookup (put v s) k = lookup s k"
  by (simp add: lookup_put)

end

locale keyed_op = keyed_store lookup put wf key
  for lookup :: "'s \<Rightarrow> 'k \<Rightarrow> 'v option"
    and put :: "'v \<Rightarrow> 's \<Rightarrow> 's"
    and wf :: "'s \<Rightarrow> bool"
    and key :: "'v \<Rightarrow> 'k" +
  fixes opn :: "'k \<Rightarrow> ('s, 'e, 'a) sm"
    and missing :: "'k \<Rightarrow> 'e"
    and step :: "'v \<Rightarrow> 'e + 'a \<Rightarrow> 'v \<Rightarrow> bool"
  assumes op_missing: "lookup s k = None \<Longrightarrow> opn k s = (Inl (missing k), s)"
    and op_found: "lookup s k = Some v \<Longrightarrow>
      \<exists>v'. step v (fst (opn k s)) v' \<and> (snd (opn k s) = s \<and> v' = v \<or> snd (opn k s) = put v' s)"
    and step_key: "step v r v' \<Longrightarrow> key v' = key v"
begin

lemma op_wf: "wf s \<Longrightarrow> wf (snd (opn k s))"
  by (cases "lookup s k") (auto simp: op_missing dest!: op_found intro: wf_put)

lemma op_lookup:
  assumes "wf s" and "lookup s k = Some v"
  shows "\<exists>v'. step v (fst (opn k s)) v' \<and> lookup (snd (opn k s)) k = Some v'"
proof -
  obtain v' where st: "step v (fst (opn k s)) v'"
    and eff: "snd (opn k s) = s \<and> v' = v \<or> snd (opn k s) = put v' s"
    using op_found [OF assms(2)] by blast
  have "key v' = k" using step_key [OF st] lookup_key [OF assms] by simp
  with eff have "lookup (snd (opn k s)) k = Some v'"
    using assms(2) by (auto simp: lookup_put)
  with st show ?thesis by blast
qed

lemma op_frame:
  assumes "wf s" and "j \<noteq> k"
  shows "lookup (snd (opn k s)) j = lookup s j"
proof (cases "lookup s k")
  case None
  then show ?thesis by (simp add: op_missing)
next
  case (Some v)
  obtain v' where st: "step v (fst (opn k s)) v'"
    and eff: "snd (opn k s) = s \<and> v' = v \<or> snd (opn k s) = put v' s"
    using op_found [OF Some] by blast
  have "key v' = k" using step_key [OF st] lookup_key [OF assms(1) Some] by simp
  with eff assms(2) show ?thesis by (auto simp: lookup_put)
qed

lemma op_keys:
  assumes "wf s"
  shows "lookup (snd (opn k s)) j = None \<longleftrightarrow> lookup s j = None"
proof (cases "j = k")
  case False
  then show ?thesis by (simp add: op_frame [OF assms])
next
  case True
  show ?thesis
  proof (cases "lookup s k")
    case None
    then show ?thesis by (simp add: True op_missing)
  next
    case (Some v)
    then show ?thesis using op_lookup [OF assms Some] True by auto
  qed
qed

lemma op_holds_all:
  assumes "\<And>v r v'. step v r v' \<Longrightarrow> P v \<Longrightarrow> P v'" and "holds_all P s"
  shows "holds_all P (snd (opn k s))"
proof (cases "lookup s k")
  case None
  with assms(2) show ?thesis by (simp add: op_missing)
next
  case (Some v)
  obtain v' where st: "step v (fst (opn k s)) v'"
    and eff: "snd (opn k s) = s \<and> v' = v \<or> snd (opn k s) = put v' s"
    using op_found [OF Some] by blast
  have "P v" using assms(2) Some by (rule holds_allD)
  with st have "P v'" by (rule assms(1))
  with eff assms(2) show ?thesis by (auto intro: holds_all_put)
qed

text \<open>If every step stays in a reflexive relation, so does the whole store, record by record.\<close>

lemma op_evolves:
  assumes "\<And>v r v'. step v r v' \<Longrightarrow> R v v'" and "\<And>v. R v v" and "wf s"
  shows "rel_option R (lookup s j) (lookup (snd (opn k s)) j)"
proof (cases "j = k")
  case False
  then have "lookup (snd (opn k s)) j = lookup s j" by (rule op_frame [OF assms(3)])
  then show ?thesis by (cases "lookup s j") (simp_all add: assms(2))
next
  case True
  show ?thesis
  proof (cases "lookup s k")
    case None
    then show ?thesis by (simp add: True op_missing)
  next
    case (Some v)
    obtain v' where "step v (fst (opn k s)) v'" and "lookup (snd (opn k s)) k = Some v'"
      using op_lookup [OF assms(3) Some] by blast
    then show ?thesis using True Some assms(1) by simp
  qed
qed

lemma op_preserves:
  assumes "\<And>v r v'. step v r v' \<Longrightarrow> P v \<Longrightarrow> P v'"
  shows "preserves (\<lambda>s. wf s \<and> holds_all P s) (opn k)"
  by (rule preservesI) (auto intro: op_wf op_holds_all assms)

end

end
