(* ===== verification/Tasklist_Store.thy ===== *)
theory Tasklist_Store
  imports Tasklist Keyed_Store
begin

text \<open>
  The on-disk tasklist store, \<open>crates/ao-persistence/src/tasklist_store.rs\<close>.

  A \<open>tasklist.json\<close> is addressed by its owner and its directory name, so the store is an association
  list from \<open>(owner, tasklist id)\<close> to the parsed tasklist, in directory order, and the list of the
  tasklist directories that exist. I/O errors and unparsable files are not modelled: a read of an
  existing file succeeds. A write goes to the path derived from the tasklist's own \<open>owner\<close> and
  \<open>id\<close> fields (\<open>write_meta_atomic\<close>), not to the path it was read from.

  Every method that takes the per-tasklist write lock is one atomic step of the store, which is what
  the lock gives. The one mutator that does not take it, \<open>bind_copilot_agent_id\<close>, is split into the
  read and the write that other steps can come between.
\<close>

section \<open>State\<close>

type_synonym store_key = "tasklist_owner \<times> tasklist_id"

record store =
  metas :: "(store_key \<times> tasklist) list"
  dirs :: "store_key list"

type_synonym 'a store_op = "(store, ao_error, 'a) sm"

definition tl_key :: "tasklist \<Rightarrow> store_key" where
  "tl_key L = (tl_owner L, tl_id L)"

definition put_meta :: "tasklist \<Rightarrow> store \<Rightarrow> store" where
  "put_meta L s =
     s\<lparr>metas := AList.update (tl_key L) L (metas s), dirs := List.insert (tl_key L) (dirs s)\<rparr>"

definition write_meta_atomic :: "tasklist \<Rightarrow> unit store_op" where
  "write_meta_atomic L = upd (put_meta L)"

section \<open>Identifiers\<close>

definition valid_id_char :: "char \<Rightarrow> bool" where
  "valid_id_char c =
     (let n = of_char c :: nat in
      (48 \<le> n \<and> n \<le> 57) \<or> (65 \<le> n \<and> n \<le> 90) \<or> (97 \<le> n \<and> n \<le> 122) \<or> c = CHR ''_'' \<or> c = CHR ''-'')"

definition validate_id :: "string \<Rightarrow> string \<Rightarrow> (ao_error + unit)" where
  "validate_id label i =
     (if i = [] then Inl (ValidationError (label @ '' cannot be empty''))
      else if \<not> list_all valid_id_char i
      then Inl (ValidationError (label @ '' '' @ quoted i @ '' contains invalid characters; only alphanumeric, ''
                                 @ quoted ''-'' @ '', '' @ quoted ''_'' @ '' allowed''))
      else Inr ())"

definition lift_res :: "('e + 'a) \<Rightarrow> ('s, 'e, 'a) sm" where
  "lift_res r = (\<lambda>s. (r, s))"

section \<open>Reads\<close>

definition get :: "store \<Rightarrow> team_id \<Rightarrow> tasklist_id \<Rightarrow> tasklist option" where
  "get s tid i = map_of (metas s) (OwnerTeam tid, i)"

definition get_for_agent :: "store \<Rightarrow> agent_id \<Rightarrow> tasklist_id \<Rightarrow> tasklist option" where
  "get_for_agent s aid i = map_of (metas s) (OwnerAgent aid, i)"

definition get_by_owner :: "store \<Rightarrow> tasklist_owner \<Rightarrow> tasklist_id \<Rightarrow> tasklist option" where
  "get_by_owner s ow i =
     (case ow of OwnerTeam tid \<Rightarrow> get s tid i | OwnerAgent aid \<Rightarrow> get_for_agent s aid i)"

lemma get_by_owner_eq: "get_by_owner s ow i = map_of (metas s) (ow, i)"
  by (simp add: get_by_owner_def get_def get_for_agent_def split: tasklist_owner.split)

definition newest_first :: "tasklist list \<Rightarrow> tasklist list" where
  "newest_first tls = sort_key (\<lambda>L. - tl_created_at L) tls"

definition list_team :: "store \<Rightarrow> team_id \<Rightarrow> tasklist list" where
  "list_team s tid =
     newest_first (map snd (filter (\<lambda>e. fst (fst e) = OwnerTeam tid) (metas s)))"

definition list_for_agent :: "store \<Rightarrow> agent_id \<Rightarrow> tasklist list" where
  "list_for_agent s aid =
     newest_first (map snd (filter (\<lambda>e. fst (fst e) = OwnerAgent aid) (metas s)))"

text \<open>The entries of \<open>teams/\<close> and of \<open>tasks/agents/\<close>, each once.\<close>

definition team_dirs :: "store \<Rightarrow> team_id list" where
  "team_dirs s = remdups (concat (map (\<lambda>e. case fst (fst e) of OwnerTeam tid \<Rightarrow> [tid] | OwnerAgent _ \<Rightarrow> [])
                                    (metas s)))"

definition agent_dirs :: "store \<Rightarrow> agent_id list" where
  "agent_dirs s = remdups (concat (map (\<lambda>e. case fst (fst e) of OwnerAgent aid \<Rightarrow> [aid] | OwnerTeam _ \<Rightarrow> [])
                                     (metas s)))"

definition list_active_across_teams :: "store \<Rightarrow> tasklist list" where
  "list_active_across_teams s =
     concat (map (\<lambda>tid. filter (\<lambda>L. tl_status L = TlActive) (list_team s tid)) (team_dirs s))"

definition occupies_slot :: "tasklist \<Rightarrow> bool" where
  "occupies_slot L = (tl_status L = TlActive \<or> tl_status L = TlPaused)"

definition list_active_across_agents :: "store \<Rightarrow> tasklist list" where
  "list_active_across_agents s =
     concat (map (\<lambda>aid. filter occupies_slot (list_for_agent s aid)) (agent_dirs s))"

definition list_all_across_teams :: "store \<Rightarrow> tasklist list" where
  "list_all_across_teams s = concat (map (list_team s) (team_dirs s))"

definition find_active :: "store \<Rightarrow> team_id \<Rightarrow> tasklist option" where
  "find_active s tid = List.find occupies_slot (list_team s tid)"

definition active_for_agent :: "store \<Rightarrow> agent_id \<Rightarrow> tasklist option" where
  "active_for_agent s aid = List.find occupies_slot (list_for_agent s aid)"

definition get_copilot_agent_id :: "store \<Rightarrow> team_id \<Rightarrow> tasklist_id \<Rightarrow> agent_id option" where
  "get_copilot_agent_id s tid i = Option.bind (get s tid i) tl_copilot_agent_id"

text \<open>Team-owned tasklists are walked first, then agent-owned ones.\<close>

definition find_by_copilot_agent_id :: "store \<Rightarrow> agent_id \<Rightarrow> tasklist option" where
  "find_by_copilot_agent_id s aid =
     (case List.find (\<lambda>L. tl_copilot_agent_id L = Some aid)
             (concat (map (list_team s) (team_dirs s))) of
        Some L \<Rightarrow> Some L
      | None \<Rightarrow> List.find (\<lambda>L. tl_copilot_agent_id L = Some aid)
                  (concat (map (list_for_agent s) (agent_dirs s))))"

section \<open>Transition tables\<close>

text \<open>\<open>set_status\<close> and the agent branch of \<open>set_status_by_owner\<close> each carry their own table.\<close>

definition team_status_move_allowed :: "tasklist_status \<Rightarrow> tasklist_status \<Rightarrow> bool" where
  "team_status_move_allowed cur nxt =
     ((cur, nxt) \<in> {(TlActive, TlCompleted), (TlActive, TlFailed), (TlActive, TlCancelled),
                    (TlActive, TlPaused), (TlPaused, TlActive), (TlPaused, TlCancelled),
                    (TlPaused, TlFailed), (TlFailed, TlActive), (TlFailed, TlCancelled),
                    (TlCompleted, TlPaused), (TlFailed, TlPaused), (TlCancelled, TlPaused)})"

definition agent_status_move_allowed :: "tasklist_status \<Rightarrow> tasklist_status \<Rightarrow> bool" where
  "agent_status_move_allowed cur nxt =
     ((cur, nxt) \<in> {(TlActive, TlCompleted), (TlActive, TlFailed), (TlActive, TlCancelled),
                    (TlActive, TlPaused), (TlPaused, TlActive), (TlPaused, TlCancelled),
                    (TlPaused, TlFailed), (TlFailed, TlActive), (TlFailed, TlCancelled),
                    (TlCompleted, TlPaused), (TlFailed, TlPaused), (TlCancelled, TlPaused)})"

definition is_valid_task_transition :: "task_status \<Rightarrow> task_status \<Rightarrow> bool" where
  "is_valid_task_transition prev nxt =
     (if prev = nxt then True
      else (prev, nxt) \<in>
        {(Pending, InProgress), (Pending, Blocked), (Pending, Failed), (Pending, Skipped),
         (InProgress, Completed), (InProgress, Failed), (InProgress, Blocked),
         (InProgress, Skipped), (InProgress, Stopped),
         (Blocked, Pending), (Blocked, InProgress), (Blocked, Failed), (Blocked, Skipped),
         (Failed, Pending), (Failed, Skipped),
         (Stopped, Pending), (Stopped, Completed), (Stopped, Failed)})"

section \<open>Mutators\<close>

text \<open>The read at the head of every mutator: the tasklist, or \<open>TasklistNotFound\<close>.\<close>

definition load :: "tasklist_owner \<Rightarrow> tasklist_id \<Rightarrow> tasklist store_op" where
  "load ow i = bindE (gets (\<lambda>s. get_by_owner s ow i)) (ok_or (TasklistNotFound i))"

text \<open>\<open>create\<close> (team-owned) and \<open>create_for_agent\<close>. The message of the directory that exists ends with its path
  under the data root, which is not modelled.\<close>

definition create :: "tasklist \<Rightarrow> unit store_op" where
  "create L =
     (case tl_owner L of
        OwnerAgent aid \<Rightarrow>
          err (ValidationError (''tasklist '' @ quoted (tl_id L) @ '' is owned by agent '' @ quoted aid
            @ ''; use create_for_agent (TasklistStore::create only handles team-owned tasklists)''))
      | OwnerTeam tid \<Rightarrow>
          thenE (lift_res (validate_id ''Team ID'' tid))
         (thenE (lift_res (validate_id ''Tasklist ID'' (tl_id L)))
         (bindE (gets (\<lambda>s. find_active s tid)) (\<lambda>existing.
            case existing of
              Some e \<Rightarrow> err (TasklistAlreadyActive tid (tl_id e))
            | None \<Rightarrow>
                bindE (gets (\<lambda>s. (OwnerTeam tid, tl_id L) \<in> set (dirs s))) (\<lambda>there.
                  if there then err (ValidationError ''Tasklist directory already exists'')
                  else thenE (upd (\<lambda>s. s\<lparr>dirs := List.insert (OwnerTeam tid, tl_id L) (dirs s)\<rparr>))
                             (write_meta_atomic L))))))"

definition create_for_agent :: "tasklist \<Rightarrow> unit store_op" where
  "create_for_agent L =
     (case tl_owner L of
        OwnerTeam _ \<Rightarrow> err (ValidationError ''create_for_agent requires an agent-owned tasklist'')
      | OwnerAgent aid \<Rightarrow>
          thenE (lift_res (validate_id ''Agent ID'' aid))
         (thenE (lift_res (validate_id ''Tasklist ID'' (tl_id L)))
         (bindE (gets (\<lambda>s. active_for_agent s aid)) (\<lambda>existing.
            case existing of
              Some e \<Rightarrow> err (TasklistAlreadyActive aid (tl_id e))
            | None \<Rightarrow>
                bindE (gets (\<lambda>s. (OwnerAgent aid, tl_id L) \<in> set (dirs s))) (\<lambda>there.
                  if there then err (ValidationError ''Tasklist directory already exists'')
                  else thenE (upd (\<lambda>s. s\<lparr>dirs := List.insert (OwnerAgent aid, tl_id L) (dirs s)\<rparr>))
                             (write_meta_atomic L))))))"

definition leave_active :: "time \<Rightarrow> tasklist_status \<Rightarrow> tasklist \<Rightarrow> tasklist" where
  "leave_active now nxt L =
     (let tl1 = (if tl_status L = TlActive then L\<lparr>tl_last_active_at := Some now\<rparr> else L)
      in tl1\<lparr>tl_status := nxt\<rparr>)"

definition set_status :: "time \<Rightarrow> team_id \<Rightarrow> tasklist_id \<Rightarrow> tasklist_status \<Rightarrow> tasklist store_op" where
  "set_status now tid i nxt =
     bindE (load (OwnerTeam tid) i) (\<lambda>L.
       if tl_status L = nxt then ok L
       else if \<not> team_status_move_allowed (tl_status L) nxt
       then err (InvalidTasklistTransition (StatusMove (tl_status L) nxt))
       else let L' = leave_active now nxt L in thenE (write_meta_atomic L') (ok L'))"

definition set_status_by_owner ::
    "time \<Rightarrow> tasklist_owner \<Rightarrow> tasklist_id \<Rightarrow> tasklist_status \<Rightarrow> tasklist store_op" where
  "set_status_by_owner now ow i nxt =
     (case ow of
        OwnerTeam tid \<Rightarrow> set_status now tid i nxt
      | OwnerAgent aid \<Rightarrow>
          bindE (load (OwnerAgent aid) i) (\<lambda>L.
            if tl_status L = nxt then ok L
            else if \<not> agent_status_move_allowed (tl_status L) nxt
            then err (InvalidTasklistTransition (StatusMove (tl_status L) nxt))
            else let L' = leave_active now nxt L in thenE (write_meta_atomic L') (ok L')))"

text \<open>
  \<open>mutate\<close>, \<open>mutate_for_agent\<close> and \<open>mutate_by_owner\<close>: read, apply the closure, write. The closure may
  also fill variables of its caller (the ids it touched); it returns them beside the tasklist.
\<close>

definition mutate_by_owner ::
    "tasklist_owner \<Rightarrow> tasklist_id \<Rightarrow> (tasklist \<Rightarrow> ao_error + 'b \<times> tasklist) \<Rightarrow> ('b \<times> tasklist) store_op" where
  "mutate_by_owner ow i f =
     bindE (load ow i) (\<lambda>L.
       case f L of
         Inl e \<Rightarrow> err e
       | Inr (b, L') \<Rightarrow> thenE (write_meta_atomic L') (ok (b, L')))"

definition mutate ::
    "team_id \<Rightarrow> tasklist_id \<Rightarrow> (tasklist \<Rightarrow> ao_error + 'b \<times> tasklist) \<Rightarrow> ('b \<times> tasklist) store_op" where
  "mutate tid i f = mutate_by_owner (OwnerTeam tid) i f"

definition mutate_for_agent ::
    "agent_id \<Rightarrow> tasklist_id \<Rightarrow> (tasklist \<Rightarrow> ao_error + 'b \<times> tasklist) \<Rightarrow> ('b \<times> tasklist) store_op" where
  "mutate_for_agent aid i f = mutate_by_owner (OwnerAgent aid) i f"

definition set_task_status ::
    "team_id \<Rightarrow> tasklist_id \<Rightarrow> task_id \<Rightarrow> task_status \<Rightarrow> tasklist store_op" where
  "set_task_status tid i k nxt =
     bindE (load (OwnerTeam tid) i) (\<lambda>L.
       bindE (ok_or (TaskNotFound k) (find_task L k)) (\<lambda>t.
         if \<not> is_valid_task_transition (t_status t) nxt
         then err (InvalidTasklistTransition (TaskMove k (t_status t) nxt))
         else let L' = modify_task k (\<lambda>t. t\<lparr>t_status := nxt\<rparr>) L
              in thenE (write_meta_atomic L') (ok L')))"

definition set_task_status_closure ::
    "task_id \<Rightarrow> task_status \<Rightarrow> tasklist \<Rightarrow> ao_error + unit \<times> tasklist" where
  "set_task_status_closure k nxt L =
     (case find_task L k of
        None \<Rightarrow> Inl (TaskNotFound k)
      | Some t \<Rightarrow>
          if \<not> is_valid_task_transition (t_status t) nxt
          then Inl (InvalidTasklistTransition (TaskMove k (t_status t) nxt))
          else Inr ((), modify_task k (\<lambda>t. t\<lparr>t_status := nxt\<rparr>) L))"

definition set_task_status_by_owner ::
    "tasklist_owner \<Rightarrow> tasklist_id \<Rightarrow> task_id \<Rightarrow> task_status \<Rightarrow> tasklist store_op" where
  "set_task_status_by_owner ow i k nxt =
     (case ow of
        OwnerTeam tid \<Rightarrow> set_task_status tid i k nxt
      | OwnerAgent aid \<Rightarrow>
          bindE (mutate_for_agent aid i (set_task_status_closure k nxt)) (\<lambda>r. ok (snd r)))"

text \<open>The claim of a dispatchable task: \<open>Pending | Blocked \<rightarrow> InProgress\<close>, or no claim.\<close>

definition try_begin_task_by_owner :: "tasklist_owner \<Rightarrow> tasklist_id \<Rightarrow> task_id \<Rightarrow> bool store_op" where
  "try_begin_task_by_owner ow i k =
     bindE (load ow i) (\<lambda>L.
       bindE (ok_or (TaskNotFound k) (find_task L k)) (\<lambda>t.
         if \<not> (t_status t = Pending \<or> t_status t = Blocked) then ok False
         else thenE (write_meta_atomic (modify_task k (\<lambda>t. t\<lparr>t_status := InProgress\<rparr>) L))
                    (ok True)))"

datatype reclaim_outcome =
    NotInProgress task_status
  | Stale
  | Exhausted "32 word"
  | Claimed "32 word" "64 word" task

text \<open>The bump of one reclaim: attempt count (saturating), error log, dispatch token (wrapping).\<close>

definition reclaim_bump :: "(32 word \<Rightarrow> string) \<Rightarrow> task \<Rightarrow> task" where
  "reclaim_bump error_msg t =
     (let new_count = sat_inc (t_attempt_count t) in
      t\<lparr>t_attempt_count := new_count,
        t_error_log := t_error_log t @ [error_msg new_count],
        t_dispatch_token := t_dispatch_token t + 1\<rparr>)"

definition try_reclaim_dispatch_by_owner ::
    "tasklist_owner \<Rightarrow> tasklist_id \<Rightarrow> task_id \<Rightarrow> 64 word \<Rightarrow> 32 word \<Rightarrow> (32 word \<Rightarrow> string)
       \<Rightarrow> reclaim_outcome store_op" where
  "try_reclaim_dispatch_by_owner ow i k expected_token max_attempts error_msg =
     bindE (load ow i) (\<lambda>L.
       bindE (ok_or (TaskNotFound k) (find_task L k)) (\<lambda>t.
         if t_status t \<noteq> InProgress then ok (NotInProgress (t_status t))
         else if t_dispatch_token t \<noteq> expected_token then ok Stale
         else
           let t1 = reclaim_bump error_msg t; new_count = t_attempt_count t1 in
           if new_count \<ge> max_attempts
           then thenE (write_meta_atomic
                         (modify_task k (\<lambda>t. (reclaim_bump error_msg t)\<lparr>t_status := Failed\<rparr>) L))
                      (ok (Exhausted new_count))
           else thenE (write_meta_atomic (modify_task k (reclaim_bump error_msg) L))
                      (ok (Claimed new_count (t_dispatch_token t1) t1))))"

text \<open>
  \<open>bind_copilot_agent_id\<close> takes no lock: the read, and the write of the snapshot it read.
\<close>

definition bind_copilot_read :: "team_id \<Rightarrow> tasklist_id \<Rightarrow> tasklist store_op" where
  "bind_copilot_read tid i = load (OwnerTeam tid) i"

definition bind_copilot_write :: "tasklist \<Rightarrow> agent_id \<Rightarrow> agent_id store_op" where
  "bind_copilot_write snapshot aid =
     (case tl_copilot_agent_id snapshot of
        Some existing \<Rightarrow> ok existing
      | None \<Rightarrow> thenE (write_meta_atomic (snapshot\<lparr>tl_copilot_agent_id := Some aid\<rparr>)) (ok aid))"

definition bind_copilot_agent_id :: "team_id \<Rightarrow> tasklist_id \<Rightarrow> agent_id \<Rightarrow> agent_id store_op" where
  "bind_copilot_agent_id tid i aid =
     bindE (bind_copilot_read tid i) (\<lambda>snapshot. bind_copilot_write snapshot aid)"

section \<open>The store keeps its contract\<close>

subsection \<open>Well-formedness\<close>

text \<open>
  Each file is filed once, under the owner and id it carries, in a directory that exists.
\<close>

definition store_wf :: "store \<Rightarrow> bool" where
  "store_wf s \<longleftrightarrow>
     distinct (map fst (metas s)) \<and>
     list_all (\<lambda>e. tl_key (snd e) = fst e \<and> fst e \<in> set (dirs s)) (metas s)"

definition store_lookup :: "store \<Rightarrow> store_key \<Rightarrow> tasklist option" where
  "store_lookup s k = get_by_owner s (fst k) (snd k)"

lemma store_lookup_eq: "store_lookup s k = map_of (metas s) k"
  by (simp add: store_lookup_def get_by_owner_eq)

lemma set_update_subset: "set (AList.update k v xs) \<subseteq> insert (k, v) (set xs)"
  by (induction xs) auto

lemma store_wf_put: "store_wf s \<Longrightarrow> store_wf (put_meta L s)"
  using set_update_subset [of "tl_key L" L "metas s"]
  by (auto simp: store_wf_def put_meta_def list_all_iff distinct_update dest!: subsetD)

lemma store_wf_empty [simp]: "store_wf \<lparr>metas = [], dirs = []\<rparr>"
  by (simp add: store_wf_def)

interpretation tasklists: keyed_store store_lookup put_meta store_wf tl_key
proof unfold_locales
  fix v s k
  show "store_lookup (put_meta v s) k = (if k = tl_key v then Some v else store_lookup s k)"
    by (simp add: store_lookup_eq put_meta_def update_conv')
next
  fix s v
  show "store_wf s \<Longrightarrow> store_wf (put_meta v s)" by (rule store_wf_put)
next
  fix s k v
  assume "store_wf s" and "store_lookup s k = Some v"
  then show "tl_key v = k"
    by (auto simp: store_lookup_eq store_wf_def list_all_iff dest!: map_of_SomeD)
qed

lemma load_run [sm_simps]:
  "load ow i s = (case store_lookup s (ow, i) of None \<Rightarrow> (Inl (TasklistNotFound i), s) | Some L \<Rightarrow> (Inr L, s))"
  by (simp add: load_def store_lookup_def ok_or_def err_def ok_def split: option.split)

lemma write_meta_run [sm_simps]: "write_meta_atomic L s = (Inr (), put_meta L s)"
  by (simp add: write_meta_atomic_def upd_def)

lemma load_bind:
  "bindE (load ow i) f s = (case store_lookup s (ow, i) of
      None \<Rightarrow> (Inl (TasklistNotFound i), s) | Some L \<Rightarrow> f L s)"
  by (simp add: bindE_run load_run split: option.split)

lemma write_bind: "bindE (write_meta_atomic L) f s = f () (put_meta L s)"
  by (simp add: bindE_run write_meta_run)

lemma ok_or_bind:
  "bindE (ok_or e x) f s = (case x of None \<Rightarrow> (Inl e, s) | Some v \<Rightarrow> f v s)"
  by (simp add: bindE_run ok_or_run split: option.split)

lemmas store_run = load_bind write_bind ok_or_bind ok_run err_run Let_def

subsection \<open>The step each mutator takes on one tasklist\<close>

lemma status_tables_agree: "agent_status_move_allowed = team_status_move_allowed"
  by (intro ext) (simp add: agent_status_move_allowed_def team_status_move_allowed_def)

text \<open>Both branches of \<open>set_status_by_owner\<close> run the same code once the tables agree.\<close>

lemma set_status_by_owner_eq:
  "set_status_by_owner now ow i nxt =
     bindE (load ow i) (\<lambda>L.
       if tl_status L = nxt then ok L
       else if \<not> team_status_move_allowed (tl_status L) nxt
       then err (InvalidTasklistTransition (StatusMove (tl_status L) nxt))
       else let L' = leave_active now nxt L in thenE (write_meta_atomic L') (ok L'))"
  unfolding set_status_by_owner_def set_status_def status_tables_agree
  by (cases ow) simp_all

text \<open>And the team and agent branches of \<open>set_task_status_by_owner\<close> are one closure.\<close>

lemma set_task_status_by_owner_eq:
  "set_task_status_by_owner ow i k nxt =
     bindE (mutate_by_owner ow i (set_task_status_closure k nxt)) (\<lambda>r. ok (snd r))"
proof (cases ow)
  case (OwnerTeam tid)
  have "set_task_status tid i k nxt s =
      bindE (mutate_by_owner (OwnerTeam tid) i (set_task_status_closure k nxt)) (\<lambda>r. ok (snd r)) s"
    for s
    by (auto simp: set_task_status_def mutate_by_owner_def set_task_status_closure_def store_run
        bindE_assoc bindE_run load_run write_meta_run ok_or_run split: option.split sum.split)
  with OwnerTeam show ?thesis by (auto simp: set_task_status_by_owner_def)
next
  case (OwnerAgent aid)
  then show ?thesis by (simp add: set_task_status_by_owner_def mutate_for_agent_def)
qed

definition status_step ::
    "time \<Rightarrow> tasklist_status \<Rightarrow> tasklist \<Rightarrow> ao_error + tasklist \<Rightarrow> tasklist \<Rightarrow> bool" where
  "status_step now nxt L r L' \<longleftrightarrow>
     (tl_status L = nxt \<and> r = Inr L \<and> L' = L \<or>
      tl_status L \<noteq> nxt \<and> \<not> team_status_move_allowed (tl_status L) nxt \<and> L' = L \<and>
        r = Inl (InvalidTasklistTransition (StatusMove (tl_status L) nxt)) \<or>
      tl_status L \<noteq> nxt \<and> team_status_move_allowed (tl_status L) nxt \<and>
        r = Inr L' \<and> L' = leave_active now nxt L)"

definition closure_step ::
    "(tasklist \<Rightarrow> ao_error + 'b \<times> tasklist) \<Rightarrow> tasklist \<Rightarrow> ao_error + 'b \<times> tasklist \<Rightarrow> tasklist \<Rightarrow> bool" where
  "closure_step f L r L' \<longleftrightarrow> r = f L \<and> (case r of Inl _ \<Rightarrow> L' = L | Inr (_, M) \<Rightarrow> L' = M)"

definition begin_step :: "task_id \<Rightarrow> tasklist \<Rightarrow> ao_error + bool \<Rightarrow> tasklist \<Rightarrow> bool" where
  "begin_step k L r L' \<longleftrightarrow>
     (case find_task L k of
        None \<Rightarrow> r = Inl (TaskNotFound k) \<and> L' = L
      | Some t \<Rightarrow>
          if t_status t = Pending \<or> t_status t = Blocked
          then r = Inr True \<and> L' = modify_task k (\<lambda>t. t\<lparr>t_status := InProgress\<rparr>) L
          else r = Inr False \<and> L' = L)"

definition reclaim_step ::
    "task_id \<Rightarrow> 64 word \<Rightarrow> 32 word \<Rightarrow> (32 word \<Rightarrow> string)
       \<Rightarrow> tasklist \<Rightarrow> ao_error + reclaim_outcome \<Rightarrow> tasklist \<Rightarrow> bool" where
  "reclaim_step k tok mx msg L r L' \<longleftrightarrow>
     (case find_task L k of
        None \<Rightarrow> r = Inl (TaskNotFound k) \<and> L' = L
      | Some t \<Rightarrow>
          if t_status t \<noteq> InProgress then r = Inr (NotInProgress (t_status t)) \<and> L' = L
          else if t_dispatch_token t \<noteq> tok then r = Inr Stale \<and> L' = L
          else if sat_inc (t_attempt_count t) \<ge> mx
          then r = Inr (Exhausted (sat_inc (t_attempt_count t))) \<and>
               L' = modify_task k (\<lambda>t. (reclaim_bump msg t)\<lparr>t_status := Failed\<rparr>) L
          else r = Inr (Claimed (sat_inc (t_attempt_count t)) (tok + 1) (reclaim_bump msg t)) \<and>
               L' = modify_task k (reclaim_bump msg) L)"

lemma reclaim_bump_simps [simp]:
  "t_id (reclaim_bump msg t) = t_id t"
  "t_status (reclaim_bump msg t) = t_status t"
  "t_attempt_count (reclaim_bump msg t) = sat_inc (t_attempt_count t)"
  "t_dispatch_token (reclaim_bump msg t) = t_dispatch_token t + 1"
  "t_owner_agent_id (reclaim_bump msg t) = t_owner_agent_id t"
  "t_assignment (reclaim_bump msg t) = t_assignment t"
  by (simp_all add: reclaim_bump_def Let_def)

lemma leave_active_frame [simp]:
  "tl_id (leave_active now nxt L) = tl_id L"
  "tl_owner (leave_active now nxt L) = tl_owner L"
  "tl_groups (leave_active now nxt L) = tl_groups L"
  "tl_status (leave_active now nxt L) = nxt"
  by (simp_all add: leave_active_def Let_def)

lemma all_tasks_leave_active [simp]: "all_tasks (leave_active now nxt L) = all_tasks L"
  by (simp add: all_tasks_def)

lemma tl_key_modify [simp]:
  "tl_key (modify_task k f L) = tl_key L" "tl_key (map_tasks f L) = tl_key L"
  "tl_key (leave_active now nxt L) = tl_key L"
  by (simp_all add: tl_key_def)

subsection \<open>Interpretations\<close>

interpretation set_status_op:
  keyed_op store_lookup put_meta store_wf tl_key
    "\<lambda>k. set_status_by_owner now (fst k) (snd k) nxt" "\<lambda>k. TasklistNotFound (snd k)"
    "status_step now nxt"
  for now nxt
  by unfold_locales
     (auto simp: set_status_by_owner_eq store_run status_step_def)

interpretation begin_op:
  keyed_op store_lookup put_meta store_wf tl_key
    "\<lambda>q. try_begin_task_by_owner (fst q) (snd q) k" "\<lambda>q. TasklistNotFound (snd q)" "begin_step k"
  for k
  by unfold_locales
     (auto simp: try_begin_task_by_owner_def store_run begin_step_def split: option.splits if_splits)

interpretation reclaim_op:
  keyed_op store_lookup put_meta store_wf tl_key
    "\<lambda>q. try_reclaim_dispatch_by_owner (fst q) (snd q) k tok mx msg" "\<lambda>q. TasklistNotFound (snd q)"
    "reclaim_step k tok mx msg"
  for k tok mx msg
  by unfold_locales
     (auto simp: try_reclaim_dispatch_by_owner_def store_run reclaim_step_def
        split: option.splits if_splits)

text \<open>
  The contract of a closure handed to \<open>mutate\<close>: it does not re-home the tasklist. Every such closure
  gives an operation of the store's contract.
\<close>

locale tasklist_closure =
  fixes f :: "tasklist \<Rightarrow> ao_error + 'b \<times> tasklist"
  assumes closure_key: "f L = Inr (b, M) \<Longrightarrow> tl_key M = tl_key L"

sublocale tasklist_closure \<subseteq> mutated:
  keyed_op store_lookup put_meta store_wf tl_key
    "\<lambda>q. mutate_by_owner (fst q) (snd q) f" "\<lambda>q. TasklistNotFound (snd q)" "closure_step f"
proof unfold_locales
  fix s k
  assume "store_lookup s k = None"
  then show "mutate_by_owner (fst k) (snd k) f s = (Inl (TasklistNotFound (snd k)), s)"
    by (simp add: mutate_by_owner_def store_run)
next
  fix s k v
  assume "store_lookup s k = Some v"
  then show "\<exists>v'. closure_step f v (fst (mutate_by_owner (fst k) (snd k) f s)) v' \<and>
      (snd (mutate_by_owner (fst k) (snd k) f s) = s \<and> v' = v \<or>
       snd (mutate_by_owner (fst k) (snd k) f s) = put_meta v' s)"
    by (auto simp: mutate_by_owner_def store_run closure_step_def split: sum.split prod.split)
next
  fix v r v'
  assume "closure_step f v r v'"
  then show "tl_key v' = tl_key v"
    by (auto simp: closure_step_def closure_key split: sum.splits prod.splits)
qed

interpretation task_status_closure: tasklist_closure "set_task_status_closure k nxt" for k nxt
  by unfold_locales (auto simp: set_task_status_closure_def split: option.splits if_splits)

end
