(* ===== verification/Tasklist_Lifecycle.thy ===== *)
theory Tasklist_Lifecycle
  imports Tasklist
begin

text \<open>
  The wake/sleep predicates of \<open>crates/ao-engine/src/tasklist_lifecycle.rs\<close>. They are pure: each takes
  the tasklist and an explicit \<open>now\<close>. Durations are nanoseconds, as timestamps are; the source's
  \<open>signed_duration_since\<close> is the integer difference (chrono's range is not modelled).
\<close>

definition secs :: "int \<Rightarrow> time" where "secs n = n * 1000000000"
definition minutes :: "int \<Rightarrow> time" where "minutes n = secs (n * 60)"
definition hours :: "int \<Rightarrow> time" where "hours n = minutes (n * 60)"

definition active_heartbeat_window_hours :: int where "active_heartbeat_window_hours = 24"
definition overlay_open_keepalive_secs :: int where "overlay_open_keepalive_secs = 60"
definition sleep_grace_window_minutes :: int where "sleep_grace_window_minutes = 5"

lemmas lifecycle_windows =
  secs_def minutes_def hours_def active_heartbeat_window_hours_def
  overlay_open_keepalive_secs_def sleep_grace_window_minutes_def

datatype wake_reason = TaskAdded | TaskRevived | OverlayOpened

fun wake_reason_as_str :: "wake_reason \<Rightarrow> string" where
  "wake_reason_as_str TaskAdded = ''task_added''"
| "wake_reason_as_str TaskRevived = ''task_revived''"
| "wake_reason_as_str OverlayOpened = ''overlay_opened''"

definition has_non_terminal_task :: "tasklist \<Rightarrow> bool" where
  "has_non_terminal_task L = list_ex (\<lambda>t. \<not> is_terminal (t_status t)) (all_tasks L)"

definition is_tasklist_active :: "tasklist \<Rightarrow> time \<Rightarrow> bool" where
  "is_tasklist_active L now =
     (if has_non_terminal_task L then True
      else case tl_last_opened_at L of
             Some opened \<Rightarrow> now - opened < hours active_heartbeat_window_hours
           | None \<Rightarrow> False)"

definition is_overlay_open :: "tasklist \<Rightarrow> time \<Rightarrow> bool" where
  "is_overlay_open L now =
     (case tl_last_opened_at L of
        Some t \<Rightarrow> now - t < secs overlay_open_keepalive_secs
      | None \<Rightarrow> False)"

definition last_activity :: "tasklist \<Rightarrow> time option" where
  "last_activity L =
     (case (tl_last_active_at L, tl_last_opened_at L) of
        (Some a, Some b) \<Rightarrow> Some (max a b)
      | (Some a, None) \<Rightarrow> Some a
      | (None, Some b) \<Rightarrow> Some b
      | (None, None) \<Rightarrow> None)"

definition should_sleep :: "tasklist \<Rightarrow> time \<Rightarrow> bool" where
  "should_sleep L now =
     (if has_non_terminal_task L then False
      else if is_overlay_open L now then False
      else case last_activity L of
             Some t \<Rightarrow> minutes sleep_grace_window_minutes \<le> now - t
           | None \<Rightarrow> True)"

text \<open>\<open>record_overlay_open\<close>: the closure given to the store's \<open>mutate\<close>.\<close>

definition stamp_overlay_open :: "time \<Rightarrow> tasklist \<Rightarrow> tasklist" where
  "stamp_overlay_open now L = L\<lparr>tl_last_opened_at := Some now\<rparr>"

subsection \<open>Facts\<close>

lemma terminal_iff: "\<not> has_non_terminal_task L \<longleftrightarrow> (\<forall>t\<in>set (all_tasks L). is_terminal (t_status t))"
  by (auto simp: has_non_terminal_task_def list_ex_iff)

lemma should_sleep_terminal: "should_sleep L now \<Longrightarrow> \<not> has_non_terminal_task L"
  by (simp add: should_sleep_def split: if_splits)

lemma should_sleep_stable_in_time:
  assumes "should_sleep L now" and "now \<le> later"
  shows "should_sleep L later"
  using assms
  by (auto simp: should_sleep_def is_overlay_open_def split: if_splits option.splits)

text \<open>Activity of either kind within the grace window keeps a tasklist awake.\<close>

lemma recent_activity_awake:
  assumes "last_activity L = Some t" and "now - t < minutes sleep_grace_window_minutes"
  shows "\<not> should_sleep L now"
  using assms by (simp add: should_sleep_def)

lemma overlay_open_implies_active:
  assumes "is_overlay_open L now"
  shows "is_tasklist_active L now"
  using assms
  by (auto simp: is_overlay_open_def is_tasklist_active_def lifecycle_windows split: option.splits)

end
