(* ===== verification/Feeder_State.thy ===== *)
theory Feeder_State
  imports Tasklist_Store Tasklist_Lifecycle
begin

text \<open>
  The task feeder's state and its outward effects: \<open>crates/ao-engine/src/task_feeder/mod.rs\<close> and
  \<open>task_feeder/events.rs\<close>.

  \<open>feeder\<close> is \<open>TaskFeeder\<close>: the store it shares, the in-memory registry (one slot per tasklist and
  agent), the dispatch timestamps, the set of observed runs, the tasklists already warned about, the
  registered terminal watchers (with whether their receiver is gone), the task metas on disk, and
  \<open>fs_trace\<close>, the outward calls in the order they are made. \<open>feeder_env\<close> is what the feeder asks
  of its surroundings: the clock, the settings, the optional collaborators, the agent profiles and
  workspace files on disk, the live runs of the instance registry, the outcome of the dispatcher.
  Logging is not modelled.
\<close>

section \<open>Messages and effects\<close>

text \<open>The prompt handed to an agent: the rendered task, or a reprompt template and what it interpolates.\<close>

datatype dispatch_prompt =
    TaskPrompt string
  | WatchdogReprompt task_id "string list" string
  | StaleRunReprompt task_id "string list" string
  | MissingOutputsReprompt string "string list" task_id string

record terminal_task_entry =
  te_id :: task_id
  te_title :: string
  te_status :: string
  te_summary :: "string option"
  te_details :: "string option"
  te_output_path :: string
  te_attempt_count :: "32 word"

record terminal_report =
  tr_status :: string
  tr_succeeded :: nat
  tr_failed :: nat
  tr_skipped :: nat
  tr_tasks :: "terminal_task_entry list"

record todo_complete_task =
  tct_task_id :: task_id
  tct_title :: string
  tct_status :: string
  tct_owner_agent_id :: "agent_id option"

text \<open>One line of the completion summary: title, status, summary, and the output path if shown.\<close>

record summary_item =
  si_title :: string
  si_status :: string
  si_summary :: string
  si_output :: "string option"

record completion_summary =
  cs_title :: string
  cs_succeeded :: nat
  cs_failed :: nat
  cs_skipped :: nat
  cs_items :: "summary_item list"
  cs_project_guidance :: bool
  cs_thread_id :: "string option"

record task_meta =
  tm_owner_agent_id :: "agent_id option"
  tm_assignment_mode :: "assignment_mode option"
  tm_title :: string
  tm_status :: task_status
  tm_created_at :: time
  tm_started_at :: "time option"
  tm_ended_at :: "time option"
  tm_summary :: "string option"

record progress_block =
  pb_task_id :: task_id
  pb_title :: "string option"
  pb_status :: string
  pb_summary :: "string option"
  pb_started_at :: "time option"
  pb_ended_at :: time
  pb_output_path :: string
  pb_attempt_count :: "32 word"

datatype payload =
    TasklistTaskUpdated team_id tasklist_id task tasklist_owner "string option"
  | TasklistCompleted team_id tasklist_id tasklist_owner "string option"
  | TasklistFailed team_id tasklist_id "string option" tasklist_owner "string option"
  | TasklistStatusChanged team_id tasklist_id string tasklist_owner "string option"
  | TaskDeferred team_id tasklist_id task_id string tasklist_owner
  | TodoListComplete tasklist_id string nat nat nat "todo_complete_task list"
  | TasklistWoke team_id tasklist_id string
  | TasklistCreated team_id tasklist_id

datatype effect =
    Emitted string payload
  | RoutingSubmitted agent_id tasklist_id task_id
  | DispatchCall agent_id dispatch_prompt tasklist_owner tasklist_id task_id
  | SummaryToAgent agent_id completion_summary
  | SummaryToProject string completion_summary
  | WatcherReport tasklist_id terminal_report
  | ActiveFlagCleared agent_id
  | ProgressAppended agent_id tasklist_id progress_block
  | TranscriptMarker string string nat nat nat

section \<open>State and surroundings\<close>

record feeder =
  fs_store :: store
  fs_registry :: "tasklist_id \<times> agent_id \<Rightarrow> task_id option"
  fs_dispatched_at :: "tasklist_id \<times> task_id \<Rightarrow> time option"
  fs_run_observed :: "(tasklist_id \<times> task_id) set"
  fs_routing_warned :: "tasklist_id set"
  fs_watchers :: "tasklist_id \<Rightarrow> bool option"
  fs_task_metas :: "agent_id \<times> tasklist_id \<times> task_id \<Rightarrow> task_meta option"
  fs_trace :: "effect list"

record feeder_env =
  fe_now :: time
  fe_max_attempts :: "32 word"
  fe_watchdog_grace :: time
  fe_event_bus :: bool
  fe_routing_queue :: bool
  fe_notification_dispatcher :: bool
  fe_project_dispatcher :: bool
  fe_instance_registry :: "(string \<Rightarrow> nat) option"
  fe_agent_profile_exists :: "agent_id \<Rightarrow> bool"
  fe_workspace_file_exists :: "string \<Rightarrow> string \<Rightarrow> bool"
  fe_dispatch_outcome :: "agent_id \<Rightarrow> tasklist_id \<Rightarrow> task_id \<Rightarrow> ao_error option"
  fe_output_path :: "agent_id \<Rightarrow> tasklist_id \<Rightarrow> task_id \<Rightarrow> string"
  fe_changelog :: "tasklist_owner \<Rightarrow> tasklist_id \<Rightarrow> task_id \<Rightarrow> (string \<times> string option) option"
  fe_thread_transcript :: "string \<Rightarrow> string option"
  fe_fresh_uuid :: "nat \<Rightarrow> string"

type_synonym 'a fop = "(feeder, ao_error, 'a) sm"

definition in_store :: "'a store_op \<Rightarrow> 'a fop" where
  "in_store m = zoom fs_store fs_store_update m"

definition emit :: "effect \<Rightarrow> unit fop" where
  "emit e = upd (\<lambda>s. s\<lparr>fs_trace := fs_trace s @ [e]\<rparr>)"

text \<open>\<open>tasklist_store.get_by_owner(..).await?\<close>, without and with \<open>ok_or_else(TasklistNotFound)\<close>.\<close>

definition read_tasklist :: "tasklist_owner \<Rightarrow> tasklist_id \<Rightarrow> tasklist option fop" where
  "read_tasklist ow i = gets (\<lambda>s. get_by_owner (fs_store s) ow i)"

definition fetch_tasklist :: "tasklist_owner \<Rightarrow> tasklist_id \<Rightarrow> tasklist fop" where
  "fetch_tasklist ow i = bindE (read_tasklist ow i) (ok_or (TasklistNotFound i))"

section \<open>Helpers of mod.rs\<close>

definition group_is_terminal :: "task_group \<Rightarrow> bool" where
  "group_is_terminal g = (g_tasks g = [] \<or> list_all (\<lambda>t. is_terminal (t_status t)) (g_tasks g))"

text \<open>\<open>Some(id).filter(|id| !id.is_empty())\<close>\<close>

definition non_empty :: "string \<Rightarrow> string option" where
  "non_empty x = (if x = [] then None else Some x)"

definition or_else :: "'a option \<Rightarrow> 'a option \<Rightarrow> 'a option" where
  "or_else x y = (case x of Some v \<Rightarrow> Some v | None \<Rightarrow> y)"

definition resolve_executor_agent_id :: "tasklist_owner \<Rightarrow> task \<Rightarrow> agent_id" where
  "resolve_executor_agent_id ow t =
     (case ow of
        OwnerAgent parent \<Rightarrow>
          (case or_else (Option.bind (map_option ta_owner_agent_id (t_assignment t)) non_empty)
                        (non_empty (t_owner_agent_id t)) of
             Some x \<Rightarrow> x
           | None \<Rightarrow> parent)
      | OwnerTeam _ \<Rightarrow> t_owner_agent_id t)"

definition author_kind_str :: "author_kind \<Rightarrow> string" where
  "author_kind_str k = (case k of AuthorUser \<Rightarrow> ''user'' | AuthorAgent \<Rightarrow> ''agent'')"

definition newline :: string where "newline = [CHR 0x0A]"

definition comment_line :: "task_comment \<Rightarrow> string" where
  "comment_line c =
     ''- ['' @ author_kind_str (tc_author_kind c) @ '': '' @ tc_author_id c @ ''] '' @ tc_body c @ newline"

definition build_dispatch_prompt :: "task \<Rightarrow> string" where
  "build_dispatch_prompt t =
     (if t_comments t = [] then t_prompt t
      else t_prompt t @ newline @ newline @ ''---'' @ newline
           @ ''Additional context (in chronological order):'' @ newline
           @ concat (map comment_line (t_comments t)))"

fun tasklist_status_to_str :: "tasklist_status \<Rightarrow> string" where
  "tasklist_status_to_str TlActive = ''active''"
| "tasklist_status_to_str TlPaused = ''paused''"
| "tasklist_status_to_str TlCompleted = ''completed''"
| "tasklist_status_to_str TlCancelled = ''cancelled''"
| "tasklist_status_to_str TlFailed = ''failed''"

definition owner_event_channel :: "tasklist_owner \<Rightarrow> string" where
  "owner_event_channel ow = (case ow of OwnerTeam tid \<Rightarrow> ''team:'' @ tid | OwnerAgent aid \<Rightarrow> aid)"

definition owner_team_id_str :: "tasklist_owner \<Rightarrow> string" where
  "owner_team_id_str ow = (case ow of OwnerTeam tid \<Rightarrow> tid | OwnerAgent _ \<Rightarrow> [])"

text \<open>\<open>prompt.lines().next()\<close>: up to the first newline, without a carriage return before it.\<close>

definition first_line :: "string \<Rightarrow> string" where
  "first_line s =
     (let l = takeWhile (\<lambda>c. c \<noteq> CHR 0x0A) s in
      if length l < length s \<and> l \<noteq> [] \<and> last l = CHR 0x0D then butlast l else l)"

fun join :: "string \<Rightarrow> string list \<Rightarrow> string" where
  "join sep [] = []"
| "join sep [x] = x"
| "join sep (x # y # ys) = x @ sep @ join sep (y # ys)"

fun report_status_str :: "tasklist_status \<Rightarrow> string" where
  "report_status_str TlCompleted = ''completed''"
| "report_status_str TlFailed = ''failed''"
| "report_status_str TlCancelled = ''cancelled''"
| "report_status_str _ = ''unknown''"

fun task_status_str :: "task_status \<Rightarrow> string" where
  "task_status_str Completed = ''completed''"
| "task_status_str Failed = ''failed''"
| "task_status_str Skipped = ''skipped''"
| "task_status_str Pending = ''pending''"
| "task_status_str InProgress = ''in_progress''"
| "task_status_str Blocked = ''blocked''"
| "task_status_str Stopped = ''stopped''"

definition count_status :: "task_status \<Rightarrow> task list \<Rightarrow> nat" where
  "count_status st ts = length (filter (\<lambda>t. t_status t = st) ts)"

definition report_entry :: "feeder_env \<Rightarrow> tasklist \<Rightarrow> task \<Rightarrow> terminal_task_entry" where
  "report_entry env L t =
     \<lparr>te_id = t_id t,
      te_title = first_line (t_prompt t),
      te_status = task_status_str (t_status t),
      te_summary = map_option fst (fe_changelog env (tl_owner L) (tl_id L) (t_id t)),
      te_details = Option.bind (fe_changelog env (tl_owner L) (tl_id L) (t_id t)) snd,
      te_output_path = (case tl_owner L of
                          OwnerAgent aid \<Rightarrow> fe_output_path env aid (tl_id L) (t_id t)
                        | OwnerTeam _ \<Rightarrow> []),
      te_attempt_count = t_attempt_count t\<rparr>"

text \<open>The single loop of \<open>build_terminal_report\<close>: three counters and the entries.\<close>

fun report_loop ::
    "feeder_env \<Rightarrow> tasklist \<Rightarrow> task list \<Rightarrow> nat \<times> nat \<times> nat \<times> terminal_task_entry list
       \<Rightarrow> nat \<times> nat \<times> nat \<times> terminal_task_entry list" where
  "report_loop env L [] acc = acc"
| "report_loop env L (t # ts) (su, fa, sk, es) =
     report_loop env L ts
       (case t_status t of
          Completed \<Rightarrow> (Suc su, fa, sk, es @ [report_entry env L t])
        | Failed \<Rightarrow> (su, Suc fa, sk, es @ [report_entry env L t])
        | Skipped \<Rightarrow> (su, fa, Suc sk, es @ [report_entry env L t])
        | _ \<Rightarrow> (su, fa, sk, es @ [report_entry env L t]))"

definition build_terminal_report :: "feeder_env \<Rightarrow> tasklist \<Rightarrow> terminal_report" where
  "build_terminal_report env L =
     (case report_loop env L (all_tasks L) (0, 0, 0, []) of
        (su, fa, sk, es) \<Rightarrow>
          \<lparr>tr_status = report_status_str (tl_status L), tr_succeeded = su, tr_failed = fa,
           tr_skipped = sk, tr_tasks = es\<rparr>)"

section \<open>Terminal watchers\<close>

definition register_terminal_watcher :: "tasklist_id \<Rightarrow> unit fop" where
  "register_terminal_watcher i = upd (\<lambda>s. s\<lparr>fs_watchers := (fs_watchers s)(i := Some False)\<rparr>)"

text \<open>The entry is removed either way; a report goes out only to a receiver that is still there.\<close>

definition fire_terminal_watcher :: "feeder_env \<Rightarrow> tasklist \<Rightarrow> bool fop" where
  "fire_terminal_watcher env L =
     bindE (gets (\<lambda>s. fs_watchers s (tl_id L))) (\<lambda>w.
       thenE (upd (\<lambda>s. s\<lparr>fs_watchers := (fs_watchers s)(tl_id L := None)\<rparr>))
         (case w of
            Some closed \<Rightarrow>
              if \<not> closed then thenE (emit (WatcherReport (tl_id L) (build_terminal_report env L))) (ok True)
              else ok False
          | None \<Rightarrow> ok False))"

section \<open>Events (events.rs)\<close>

definition project_id_for :: "tasklist_owner \<Rightarrow> tasklist_id \<Rightarrow> string option fop" where
  "project_id_for ow i =
     (case ow of
        OwnerTeam _ \<Rightarrow> ok None
      | OwnerAgent _ \<Rightarrow>
          bindE (read_tasklist ow i) (\<lambda>x. ok (Option.bind x tl_project_id)))"

text \<open>One event on the owner's channel, and the same on the project's channel if there is one.\<close>

definition dual_emit :: "string \<Rightarrow> string option \<Rightarrow> payload \<Rightarrow> unit fop" where
  "dual_emit channel pid p =
     thenE (emit (Emitted channel p))
       (case pid of Some x \<Rightarrow> emit (Emitted (''project:'' @ x) p) | None \<Rightarrow> ok ())"

definition emit_task_updated :: "feeder_env \<Rightarrow> tasklist_owner \<Rightarrow> tasklist_id \<Rightarrow> task_id \<Rightarrow> unit fop" where
  "emit_task_updated env ow i k =
     (if \<not> fe_event_bus env then ok ()
      else bindE (read_tasklist ow i) (\<lambda>x.
        case x of
          None \<Rightarrow> ok ()
        | Some L \<Rightarrow>
            (case find_task L k of
               None \<Rightarrow> ok ()
             | Some t \<Rightarrow>
                 dual_emit (owner_event_channel ow) (tl_project_id L)
                   (TasklistTaskUpdated (owner_team_id_str ow) i t ow (tl_project_id L)))))"

definition emit_tasklist_completed :: "feeder_env \<Rightarrow> tasklist_owner \<Rightarrow> tasklist_id \<Rightarrow> unit fop" where
  "emit_tasklist_completed env ow i =
     (if \<not> fe_event_bus env then ok ()
      else bindE (project_id_for ow i) (\<lambda>pid.
        dual_emit (owner_event_channel ow) pid (TasklistCompleted (owner_team_id_str ow) i ow pid)))"

definition emit_tasklist_failed ::
    "feeder_env \<Rightarrow> tasklist_owner \<Rightarrow> tasklist_id \<Rightarrow> string option \<Rightarrow> unit fop" where
  "emit_tasklist_failed env ow i reason =
     (if \<not> fe_event_bus env then ok ()
      else bindE (project_id_for ow i) (\<lambda>pid.
        dual_emit (owner_event_channel ow) pid (TasklistFailed (owner_team_id_str ow) i reason ow pid)))"

definition emit_tasklist_status_changed ::
    "feeder_env \<Rightarrow> tasklist_owner \<Rightarrow> tasklist_id \<Rightarrow> tasklist_status \<Rightarrow> unit fop" where
  "emit_tasklist_status_changed env ow i st =
     (if \<not> fe_event_bus env then ok ()
      else bindE (project_id_for ow i) (\<lambda>pid.
        dual_emit (owner_event_channel ow) pid
          (TasklistStatusChanged (owner_team_id_str ow) i (tasklist_status_to_str st) ow pid)))"

definition emit_task_deferred ::
    "feeder_env \<Rightarrow> tasklist_owner \<Rightarrow> tasklist_id \<Rightarrow> task_id \<Rightarrow> string \<Rightarrow> unit fop" where
  "emit_task_deferred env ow i k reason =
     (if \<not> fe_event_bus env then ok ()
      else emit (Emitted (''tasklist:'' @ i) (TaskDeferred (owner_team_id_str ow) i k reason ow)))"

definition emit_lifecycle_wake :: "feeder_env \<Rightarrow> team_id \<Rightarrow> tasklist_id \<Rightarrow> wake_reason \<Rightarrow> unit fop" where
  "emit_lifecycle_wake env tid i reason =
     (if \<not> fe_event_bus env then ok ()
      else emit (Emitted (''team:'' @ tid) (TasklistWoke tid i (wake_reason_as_str reason))))"

definition emit_tasklist_created :: "feeder_env \<Rightarrow> team_id \<Rightarrow> tasklist_id \<Rightarrow> unit fop" where
  "emit_tasklist_created env tid i =
     (if \<not> fe_event_bus env then ok ()
      else emit (Emitted (''team:'' @ tid) (TasklistCreated tid i)))"

text \<open>\<open>post_completion_summary\<close>: the project channel if the tasklist has a project and one is wired.\<close>

definition summary_item_for :: "feeder_env \<Rightarrow> agent_id \<Rightarrow> tasklist \<Rightarrow> task \<Rightarrow> summary_item" where
  "summary_item_for env aid L t =
     \<lparr>si_title = first_line (t_prompt t),
      si_status = task_status_str (t_status t),
      si_summary = (case fe_changelog env (tl_owner L) (tl_id L) (t_id t) of
                      Some e \<Rightarrow> fst e | None \<Rightarrow> ''(no summary reported)''),
      si_output = (if t_status t \<noteq> Completed
                   then Some (fe_output_path env aid (tl_id L) (t_id t)) else None)\<rparr>"

definition completion_summary_for ::
    "feeder_env \<Rightarrow> agent_id \<Rightarrow> tasklist \<Rightarrow> bool \<Rightarrow> completion_summary" where
  "completion_summary_for env aid L guidance =
     \<lparr>cs_title = tl_title L,
      cs_succeeded = count_status Completed (all_tasks L),
      cs_failed = count_status Failed (all_tasks L),
      cs_skipped = count_status Skipped (all_tasks L),
      cs_items = map (summary_item_for env aid L) (all_tasks L),
      cs_project_guidance = guidance,
      cs_thread_id = tl_thread_id L\<rparr>"

definition post_completion_summary_to_agent :: "feeder_env \<Rightarrow> agent_id \<Rightarrow> tasklist \<Rightarrow> unit fop" where
  "post_completion_summary_to_agent env aid L =
     (if fe_notification_dispatcher env
      then emit (SummaryToAgent aid (completion_summary_for env aid L False))
      else ok ())"

definition post_completion_summary :: "feeder_env \<Rightarrow> agent_id \<Rightarrow> tasklist \<Rightarrow> unit fop" where
  "post_completion_summary env aid L =
     (case tl_project_id L of
        Some pid \<Rightarrow>
          if fe_project_dispatcher env
          then emit (SummaryToProject pid (completion_summary_for env aid L True))
          else post_completion_summary_to_agent env aid L
      | None \<Rightarrow> post_completion_summary_to_agent env aid L)"

fun todo_status_str :: "task_status \<Rightarrow> string" where
  "todo_status_str Pending = ''not_started''"
| "todo_status_str st = task_status_str st"

definition todo_complete_entry :: "task \<Rightarrow> todo_complete_task" where
  "todo_complete_entry t =
     \<lparr>tct_task_id = t_id t, tct_title = first_line (t_prompt t),
      tct_status = todo_status_str (t_status t),
      tct_owner_agent_id = map_option ta_owner_agent_id (t_assignment t)\<rparr>"

definition completion_verb :: "string \<Rightarrow> string" where
  "completion_verb st =
     (if st = ''failed'' then ''ended with failures''
      else if st = ''cancelled'' then ''was cancelled'' else ''completed'')"

definition emit_todo_list_complete :: "feeder_env \<Rightarrow> agent_id \<Rightarrow> tasklist \<Rightarrow> unit fop" where
  "emit_todo_list_complete env aid L =
     (if \<not> fe_event_bus env then ok ()
      else
        let st = report_status_str (tl_status L);
            channel = (case tl_project_id L of Some pid \<Rightarrow> ''project:'' @ pid | None \<Rightarrow> aid);
            transcript_key = (case tl_project_id L of Some pid \<Rightarrow> ''project_'' @ pid | None \<Rightarrow> aid);
            path = (case Option.bind (tl_thread_id L) (fe_thread_transcript env) of
                      Some p \<Rightarrow> p | None \<Rightarrow> transcript_key)
        in thenE (emit (Emitted channel
                     (TodoListComplete (tl_id L) st
                        (count_status Completed (all_tasks L)) (count_status Failed (all_tasks L))
                        (count_status Skipped (all_tasks L)) (map todo_complete_entry (all_tasks L)))))
                 (emit (TranscriptMarker path (completion_verb st)
                     (count_status Completed (all_tasks L)) (count_status Failed (all_tasks L))
                     (count_status Skipped (all_tasks L)))))"

end
