(* ===== verification/Feeder_Dispatch.thy ===== *)
theory Feeder_Dispatch
  imports Feeder_State
begin

text \<open>
  Forward progress: \<open>crates/ao-engine/src/task_feeder/dispatch.rs\<close>. \<open>advance\<close> walks the groups to the
  first that is not terminal and dispatches it, or completes the tasklist; \<open>dispatch_group\<close> picks
  what may run under the group's mode; \<open>dispatch_one\<close> claims a task in the store and hands it out.
\<close>

section \<open>Routing of unowned tasks\<close>

definition note_team_routing_unsupported :: "tasklist_id \<Rightarrow> unit fop" where
  "note_team_routing_unsupported i =
     bindE (gets (\<lambda>s. i \<in> fs_routing_warned s)) (\<lambda>already_warned.
       if already_warned then ok ()
       else upd (\<lambda>s. s\<lparr>fs_routing_warned := insert i (fs_routing_warned s)\<rparr>))"

definition submit_routing_for :: "feeder_env \<Rightarrow> tasklist \<Rightarrow> task \<Rightarrow> unit fop" where
  "submit_routing_for env L t =
     (case tl_owner L of
        OwnerTeam _ \<Rightarrow> note_team_routing_unsupported (tl_id L)
      | OwnerAgent aid \<Rightarrow>
          if fe_routing_queue env then emit (RoutingSubmitted aid (tl_id L) (t_id t)) else ok ())"

section \<open>Dispatching one task\<close>

definition dispatch_executor :: "tasklist_owner \<Rightarrow> task \<Rightarrow> agent_id" where
  "dispatch_executor ow t =
     (case ow of
        OwnerAgent parent \<Rightarrow>
          (case map_option ta_owner_agent_id (t_assignment t) of Some x \<Rightarrow> x | None \<Rightarrow> parent)
      | OwnerTeam _ \<Rightarrow> t_owner_agent_id t)"

text \<open>The closure that fails a task whose executor is gone: every task with that id.\<close>

definition fail_missing_executor :: "task_id \<Rightarrow> string \<Rightarrow> tasklist \<Rightarrow> ao_error + unit \<times> tasklist" where
  "fail_missing_executor k reason L =
     Inr ((), map_tasks (\<lambda>t. if t_id t = k
                             then t\<lparr>t_status := Failed, t_error_log := t_error_log t @ [reason]\<rparr>
                             else t) L)"

definition executor_missing :: "feeder_env \<Rightarrow> tasklist_owner \<Rightarrow> agent_id \<Rightarrow> bool" where
  "executor_missing env ow executor =
     (case ow of
        OwnerAgent parent \<Rightarrow> executor \<noteq> parent \<and> \<not> fe_agent_profile_exists env executor
      | OwnerTeam _ \<Rightarrow> False)"

definition missing_reason :: "agent_id \<Rightarrow> string" where
  "missing_reason executor = ''owner_agent_missing: agent '' @ quoted executor @ '' no longer exists''"

definition start_meta :: "feeder_env \<Rightarrow> agent_id \<Rightarrow> task \<Rightarrow> task_meta" where
  "start_meta env executor t =
     \<lparr>tm_owner_agent_id = Some executor,
      tm_assignment_mode = map_option ta_mode (t_assignment t),
      tm_title = first_line (t_prompt t),
      tm_status = InProgress,
      tm_created_at = fe_now env,
      tm_started_at = Some (fe_now env),
      tm_ended_at = None,
      tm_summary = None\<rparr>"

definition write_start_meta :: "feeder_env \<Rightarrow> tasklist \<Rightarrow> agent_id \<Rightarrow> task \<Rightarrow> unit fop" where
  "write_start_meta env L executor t =
     (case tl_owner L of
        OwnerAgent parent \<Rightarrow>
          upd (\<lambda>s. s\<lparr>fs_task_metas :=
                 (fs_task_metas s)((parent, tl_id L, t_id t) := Some (start_meta env executor t))\<rparr>)
      | OwnerTeam _ \<Rightarrow> ok ())"

definition occupy_slot :: "feeder_env \<Rightarrow> tasklist_id \<Rightarrow> agent_id \<Rightarrow> task_id \<Rightarrow> unit fop" where
  "occupy_slot env i agent k =
     upd (\<lambda>s. s\<lparr>fs_registry := (fs_registry s)((i, agent) := Some k),
                 fs_dispatched_at := (fs_dispatched_at s)((i, k) := Some (fe_now env))\<rparr>)"

text \<open>Giving the slot back: only if it is still this task's; the timestamp and the observed flag go.\<close>

definition release_slot :: "tasklist_id \<Rightarrow> agent_id \<Rightarrow> task_id \<Rightarrow> unit fop" where
  "release_slot i agent k =
     upd (\<lambda>s. s\<lparr>fs_registry := (if fs_registry s (i, agent) = Some k
                                then (fs_registry s)((i, agent) := None) else fs_registry s),
                 fs_dispatched_at := (fs_dispatched_at s)((i, k) := None),
                 fs_run_observed := fs_run_observed s - {(i, k)}\<rparr>)"

definition call_dispatcher ::
    "feeder_env \<Rightarrow> agent_id \<Rightarrow> dispatch_prompt \<Rightarrow> tasklist_owner \<Rightarrow> tasklist_id \<Rightarrow> task_id \<Rightarrow> unit fop" where
  "call_dispatcher env agent p ow i k =
     thenE (emit (DispatchCall agent p ow i k))
       (case fe_dispatch_outcome env agent i k of None \<Rightarrow> ok () | Some e \<Rightarrow> err e)"

text \<open>From the claim on: the second half of \<open>dispatch_one\<close>.\<close>

definition claim_and_dispatch :: "feeder_env \<Rightarrow> tasklist \<Rightarrow> task \<Rightarrow> agent_id \<Rightarrow> unit fop" where
  "claim_and_dispatch env L t executor =
     bindE (in_store (try_begin_task_by_owner (tl_owner L) (tl_id L) (t_id t))) (\<lambda>claimed.
       if \<not> claimed then ok ()
       else
         thenE (emit_task_updated env (tl_owner L) (tl_id L) (t_id t))
        (thenE (write_start_meta env L executor t)
        (thenE (occupy_slot env (tl_id L) executor (t_id t))
        (bindE (attempt (call_dispatcher env executor (TaskPrompt (build_dispatch_prompt t))
                           (tl_owner L) (tl_id L) (t_id t))) (\<lambda>outcome.
           case outcome of
             Inr _ \<Rightarrow> ok ()
           | Inl e \<Rightarrow> thenE (release_slot (tl_id L) executor (t_id t)) (err e))))))"

definition dispatch_one :: "feeder_env \<Rightarrow> tasklist \<Rightarrow> task \<Rightarrow> unit fop" where
  "dispatch_one env L t =
     (let executor = dispatch_executor (tl_owner L) t in
      if executor_missing env (tl_owner L) executor
      then thenE (in_store (mutate_by_owner (tl_owner L) (tl_id L)
                     (fail_missing_executor (t_id t) (missing_reason executor))))
                 (emit_task_updated env (tl_owner L) (tl_id L) (t_id t))
      else claim_and_dispatch env L t executor)"

section \<open>Dispatching a group\<close>

text \<open>The executor a pending task would run under, or \<open>None\<close> when it must be routed first.\<close>

definition routed_executor :: "tasklist_owner \<Rightarrow> task \<Rightarrow> agent_id option" where
  "routed_executor ow t =
     (case ow of
        OwnerAgent _ \<Rightarrow> map_option ta_owner_agent_id (t_assignment t)
      | OwnerTeam _ \<Rightarrow> if t_owner_agent_id t = [] then None else Some (t_owner_agent_id t))"

definition defer_unowned :: "feeder_env \<Rightarrow> tasklist \<Rightarrow> task \<Rightarrow> unit fop" where
  "defer_unowned env L t =
     (case tl_owner L of
        OwnerAgent _ \<Rightarrow>
          thenE (emit_task_deferred env (tl_owner L) (tl_id L) (t_id t) ''awaiting_classification'')
                (submit_routing_for env L t)
      | OwnerTeam _ \<Rightarrow> submit_routing_for env L t)"

text \<open>PAR, first pass: one pending task per agent that has no slot and was not picked in this pass.\<close>

fun par_select ::
    "feeder_env \<Rightarrow> tasklist \<Rightarrow> (agent_id \<Rightarrow> bool) \<Rightarrow> agent_id list \<Rightarrow> task list \<Rightarrow> task list fop" where
  "par_select env L claimed this_pass [] = ok []"
| "par_select env L claimed this_pass (t # ts) =
     (if t_status t \<noteq> Pending then par_select env L claimed this_pass ts
      else case routed_executor (tl_owner L) t of
             None \<Rightarrow> thenE (defer_unowned env L t) (par_select env L claimed this_pass ts)
           | Some executor \<Rightarrow>
               if claimed executor \<or> executor \<in> set this_pass
               then par_select env L claimed this_pass ts
               else bindE (par_select env L claimed (executor # this_pass) ts) (\<lambda>picked. ok (t # picked)))"

text \<open>PAR, second pass: the live status is read again before each dispatch.\<close>

fun par_dispatch :: "feeder_env \<Rightarrow> tasklist \<Rightarrow> task list \<Rightarrow> unit fop" where
  "par_dispatch env L [] = ok ()"
| "par_dispatch env L (t # ts) =
     bindE (read_tasklist (tl_owner L) (tl_id L)) (\<lambda>live.
       if (case live of Some M \<Rightarrow> tl_status M \<noteq> TlActive | None \<Rightarrow> False) then ok ()
       else thenE (dispatch_one env L t) (par_dispatch env L ts))"

definition dispatch_group_par :: "feeder_env \<Rightarrow> tasklist \<Rightarrow> task_group \<Rightarrow> unit fop" where
  "dispatch_group_par env L g =
     bindE (gets (\<lambda>s executor. fs_registry s (tl_id L, executor) \<noteq> None)) (\<lambda>claimed_agents.
       bindE (par_select env L claimed_agents [] (g_tasks g)) (\<lambda>to_dispatch.
         par_dispatch env L to_dispatch))"

definition dispatch_group_seq :: "feeder_env \<Rightarrow> tasklist \<Rightarrow> task_group \<Rightarrow> unit fop" where
  "dispatch_group_seq env L g =
     (let in_progress = count_status InProgress (g_tasks g);
          stopped = count_status Stopped (g_tasks g) in
      if in_progress > 0 \<or> stopped > 0 then ok ()
      else case List.find (\<lambda>t. t_status t = Pending) (g_tasks g) of
             None \<Rightarrow> ok ()
           | Some nxt \<Rightarrow>
               (case routed_executor (tl_owner L) nxt of
                  None \<Rightarrow> defer_unowned env L nxt
                | Some _ \<Rightarrow> dispatch_one env L nxt))"

definition dispatch_group :: "feeder_env \<Rightarrow> tasklist \<Rightarrow> task_group \<Rightarrow> unit fop" where
  "dispatch_group env L g =
     (case g_mode g of Par \<Rightarrow> dispatch_group_par env L g | Seq \<Rightarrow> dispatch_group_seq env L g)"

section \<open>Advancing a tasklist\<close>

definition clear_active_flag :: "feeder_env \<Rightarrow> tasklist_owner \<Rightarrow> unit fop" where
  "clear_active_flag env ow =
     (case (ow, fe_instance_registry env) of
        (OwnerAgent aid, Some _) \<Rightarrow> emit (ActiveFlagCleared aid)
      | _ \<Rightarrow> ok ())"

text \<open>
  The tail shared by the two paths that make a tasklist terminal: fire the watcher; an agent-owned
  tasklist posts the summary when no synchronous waiter took the report, and always the pill.
\<close>

definition announce_terminal :: "feeder_env \<Rightarrow> tasklist_owner \<Rightarrow> tasklist \<Rightarrow> unit fop" where
  "announce_terminal env ow L =
     thenE (clear_active_flag env ow)
       (bindE (fire_terminal_watcher env L) (\<lambda>sync_waiter_caught.
          case ow of
            OwnerTeam _ \<Rightarrow> ok ()
          | OwnerAgent aid \<Rightarrow>
              thenE (if \<not> sync_waiter_caught then post_completion_summary env aid L else ok ())
                    (emit_todo_list_complete env aid L)))"

definition complete_tasklist :: "feeder_env \<Rightarrow> tasklist \<Rightarrow> unit fop" where
  "complete_tasklist env L =
     bindE (in_store (set_status_by_owner (fe_now env) (tl_owner L) (tl_id L) TlCompleted)) (\<lambda>completed.
       thenE (emit_tasklist_completed env (tl_owner L) (tl_id L))
             (announce_terminal env (tl_owner L) completed))"

definition advance :: "feeder_env \<Rightarrow> tasklist \<Rightarrow> unit fop" where
  "advance env L =
     (if tl_status L \<noteq> TlActive then ok ()
      else case List.find (\<lambda>g. \<not> group_is_terminal g) (tl_groups L) of
             Some g \<Rightarrow> dispatch_group env L g
           | None \<Rightarrow> if \<not> any_failed L then complete_tasklist env L else ok ())"

end
