(* ===== verification/Feeder_Terminal.thy ===== *)
theory Feeder_Terminal
  imports Feeder_Dispatch
begin

text \<open>
  What happens when a run ends: \<open>crates/ao-engine/src/task_feeder/terminal.rs\<close>. \<open>on_task_terminal\<close>
  frees the slot, halts the tasklist on a failure, records the outcome and advances;
  \<open>validate_and_complete\<close> checks a claimed completion; \<open>force_complete_and_advance\<close> is the operator's;
  \<open>on_run_ended\<close> handles a run that ended without a report. The recovery these share with the
  watchdog (\<open>recover_stuck_task\<close>, watchdog.rs) is here too, as \<open>kick_and_reconcile\<close> calls it.
\<close>

section \<open>on\_task\_terminal\<close>

definition slot_agent :: "tasklist_owner \<Rightarrow> task \<Rightarrow> agent_id" where
  "slot_agent ow t =
     (case ow of
        OwnerAgent parent \<Rightarrow>
          (case map_option ta_owner_agent_id (t_assignment t) of Some x \<Rightarrow> x | None \<Rightarrow> parent)
      | OwnerTeam _ \<Rightarrow> t_owner_agent_id t)"

text \<open>The timestamp and the observed flag go even when the task is gone from the tasklist.\<close>

definition free_task_slot :: "tasklist_owner \<Rightarrow> tasklist \<Rightarrow> tasklist_id \<Rightarrow> task_id \<Rightarrow> unit fop" where
  "free_task_slot ow L i k =
     thenE (case find_task L k of
              Some t \<Rightarrow>
                upd (\<lambda>s. s\<lparr>fs_registry :=
                       (if fs_registry s (i, slot_agent ow t) = Some k
                        then (fs_registry s)((i, slot_agent ow t) := None) else fs_registry s)\<rparr>)
            | None \<Rightarrow> ok ())
       (upd (\<lambda>s. s\<lparr>fs_dispatched_at := (fs_dispatched_at s)((i, k) := None),
                    fs_run_observed := fs_run_observed s - {(i, k)}\<rparr>))"

definition failure_reason :: "tasklist \<Rightarrow> task_id \<Rightarrow> string option" where
  "failure_reason L k =
     (case Option.bind (find_task L k)
             (\<lambda>t. if t_error_log t = [] then None else Some (last (t_error_log t))) of
        Some r \<Rightarrow> Some r
      | None \<Rightarrow> Some (''task '' @ k @ '' failed''))"

text \<open>Halt on failure: returns the tasklist the rest of the hook works on.\<close>

definition halt_on_failure ::
    "feeder_env \<Rightarrow> tasklist_owner \<Rightarrow> tasklist \<Rightarrow> tasklist_id \<Rightarrow> task_id \<Rightarrow> tasklist fop" where
  "halt_on_failure env ow L i k =
     (if map_option t_status (find_task L k) = Some Failed \<and> tl_status L = TlActive
      then bindE (in_store (set_status_by_owner (fe_now env) ow i TlFailed)) (\<lambda>M.
             thenE (emit_tasklist_failed env ow i (failure_reason M k))
            (thenE (announce_terminal env ow M) (ok M)))
      else ok L)"

definition meta_executor :: "task_meta option \<Rightarrow> task \<Rightarrow> agent_id option" where
  "meta_executor prior t =
     or_else (or_else (Option.bind (Option.bind prior tm_owner_agent_id) non_empty)
                      (Option.bind (map_option ta_owner_agent_id (t_assignment t)) non_empty))
             (non_empty (t_owner_agent_id t))"

definition progress_status_str :: "task_status \<Rightarrow> string" where
  "progress_status_str st =
     (case st of Completed \<Rightarrow> ''completed'' | Failed \<Rightarrow> ''failed'' | Skipped \<Rightarrow> ''skipped''
      | _ \<Rightarrow> ''unknown'')"

definition terminal_meta :: "feeder_env \<Rightarrow> task_meta option \<Rightarrow> string option \<Rightarrow> task \<Rightarrow> task_meta" where
  "terminal_meta env prior summary t =
     \<lparr>tm_owner_agent_id = meta_executor prior t,
      tm_assignment_mode = map_option ta_mode (t_assignment t),
      tm_title = first_line (t_prompt t),
      tm_status = t_status t,
      tm_created_at = (case prior of Some m \<Rightarrow> tm_created_at m | None \<Rightarrow> fe_now env),
      tm_started_at = Option.bind prior tm_started_at,
      tm_ended_at = Some (fe_now env),
      tm_summary = summary\<rparr>"

definition is_blank :: "string \<Rightarrow> bool" where
  "is_blank s = (trim s = [])"

definition append_comment_closure :: "task_id \<Rightarrow> task_comment \<Rightarrow> tasklist \<Rightarrow> ao_error + unit \<times> tasklist" where
  "append_comment_closure k c L =
     (case find_task L k of
        None \<Rightarrow> Inl (TaskNotFound k)
      | Some _ \<Rightarrow> Inr ((), modify_task k (\<lambda>t. t\<lparr>t_comments := t_comments t @ [c]\<rparr>) L))"

definition summary_comment :: "feeder_env \<Rightarrow> agent_id \<Rightarrow> string \<Rightarrow> task_meta \<Rightarrow> task_comment" where
  "summary_comment env parent body m =
     \<lparr>tc_id = fe_fresh_uuid env 0,
      tc_author_id = (case Option.bind (tm_owner_agent_id m) non_empty of Some x \<Rightarrow> x | None \<Rightarrow> parent),
      tc_author_kind = AuthorAgent,
      tc_body = body,
      tc_created_at = fe_now env\<rparr>"

text \<open>The progress block, the terminal meta and the summary comment of an agent-owned task.\<close>

definition record_progress ::
    "feeder_env \<Rightarrow> tasklist_owner \<Rightarrow> tasklist \<Rightarrow> tasklist_id \<Rightarrow> task_id \<Rightarrow> unit fop" where
  "record_progress env ow L i k =
     (case (ow, find_task L k) of
        (OwnerAgent aid, Some t) \<Rightarrow>
          (let summary = map_option fst (fe_changelog env (tl_owner L) (tl_id L) k) in
           bindE (gets (\<lambda>s. fs_task_metas s (aid, i, k))) (\<lambda>prior.
             let m = terminal_meta env prior summary t;
                 block = \<lparr>pb_task_id = k, pb_title = (if t_prompt t = [] then None else Some (first_line (t_prompt t))),
                          pb_status = progress_status_str (t_status t), pb_summary = summary,
                          pb_started_at = tm_started_at m, pb_ended_at = fe_now env,
                          pb_output_path = fe_output_path env aid i k,
                          pb_attempt_count = t_attempt_count t\<rparr>
             in thenE (emit (ProgressAppended aid i block))
               (thenE (upd (\<lambda>s. s\<lparr>fs_task_metas := (fs_task_metas s)((aid, i, k) := Some m)\<rparr>))
                  (case summary of
                     None \<Rightarrow> ok ()
                   | Some body \<Rightarrow>
                       if is_blank body then ok ()
                       else bindE (attempt (in_store (mutate_for_agent aid i
                                     (append_comment_closure k (summary_comment env aid body m))))) (\<lambda>r.
                              case r of
                                Inr _ \<Rightarrow> emit_task_updated env ow i k
                              | Inl _ \<Rightarrow> ok ())))))
      | _ \<Rightarrow> ok ())"

definition on_task_terminal :: "feeder_env \<Rightarrow> tasklist_owner \<Rightarrow> tasklist_id \<Rightarrow> task_id \<Rightarrow> unit fop" where
  "on_task_terminal env ow i k =
     bindE (fetch_tasklist ow i) (\<lambda>L.
       thenE (free_task_slot ow L i k)
         (bindE (halt_on_failure env ow L i k) (\<lambda>M.
            thenE (record_progress env ow M i k) (advance env M))))"

section \<open>A claimed completion\<close>

text \<open>What a lost, exhausted or won reclaim leads to; \<open>reprompt\<close> is what a winner does.\<close>

definition after_reclaim ::
    "feeder_env \<Rightarrow> tasklist_owner \<Rightarrow> tasklist_id \<Rightarrow> task_id \<Rightarrow> (task \<Rightarrow> unit fop)
       \<Rightarrow> reclaim_outcome \<Rightarrow> unit fop" where
  "after_reclaim env ow i k reprompt outcome =
     (case outcome of
        NotInProgress _ \<Rightarrow> ok ()
      | Stale \<Rightarrow> ok ()
      | Exhausted _ \<Rightarrow> thenE (emit_task_updated env ow i k) (on_task_terminal env ow i k)
      | Claimed _ _ t \<Rightarrow> reprompt t)"

definition missing_outputs :: "feeder_env \<Rightarrow> tasklist \<Rightarrow> task \<Rightarrow> string list" where
  "missing_outputs env L t =
     filter (\<lambda>f. \<not> fe_workspace_file_exists env (tl_workspace_dir L) f) (t_expected_outputs t)"

text \<open>The error-log line of a reclaim: its cause and the attempt number it was written with.\<close>

definition attempt_message :: "string \<Rightarrow> 32 word \<Rightarrow> string" where
  "attempt_message cause n = ''Attempt '' @ decimal (unat n) @ '': '' @ cause"

definition validate_and_complete ::
    "feeder_env \<Rightarrow> tasklist_owner \<Rightarrow> tasklist_id \<Rightarrow> task_id \<Rightarrow> unit fop" where
  "validate_and_complete env ow i k =
     bindE (fetch_tasklist ow i) (\<lambda>L.
       bindE (ok_or (TaskNotFound k) (find_task L k)) (\<lambda>t.
         let missing = missing_outputs env L t in
         if missing = [] then
           thenE (in_store (set_task_status_by_owner ow i k Completed))
          (thenE (emit_task_updated env ow i k)
                 (on_task_terminal env ow i k))
         else
           bindE (in_store (try_reclaim_dispatch_by_owner ow i k (t_dispatch_token t)
                    (fe_max_attempts env)
                    (attempt_message (''missing expected outputs: ['' @ join '', '' missing @ '']''))))
             (after_reclaim env ow i k (\<lambda>t'.
                call_dispatcher env (t_owner_agent_id t')
                  (MissingOutputsReprompt (tl_workspace_dir L) missing k (build_dispatch_prompt t'))
                  ow i k))))"

section \<open>A forced completion\<close>

definition force_complete_and_advance ::
    "feeder_env \<Rightarrow> tasklist_owner \<Rightarrow> tasklist_id \<Rightarrow> task_id \<Rightarrow> unit fop" where
  "force_complete_and_advance env ow i k =
     bindE (fetch_tasklist ow i) (\<lambda>L.
       bindE (ok_or (TaskNotFound k) (map_option t_status (find_task L k))) (\<lambda>current_status.
         thenE (if \<not> is_terminal current_status
                then thenE (in_store (set_task_status_by_owner ow i k Completed))
                           (emit_task_updated env ow i k)
                else ok ())
        (thenE (on_task_terminal env ow i k)
        (bindE (fetch_tasklist ow i) (\<lambda>after.
           if (case find_task after k of Some t \<Rightarrow> is_terminal (t_status t) | None \<Rightarrow> True)
           then ok ()
           else err (InternalError (''TodoComplete could not advance the queue: task '' @ quoted k
                                    @ '' did not reach a terminal state'')))))))"

section \<open>A run that ended without a report\<close>

definition current_task_for_agent :: "feeder \<Rightarrow> tasklist_id \<Rightarrow> agent_id \<Rightarrow> task_id option" where
  "current_task_for_agent s i agent = fs_registry s (i, agent)"

definition stale_run_cause :: string where
  "stale_run_cause =
     ''agent run ended without reporting task completion or failure. Possible causes include: the CLI ''
     @ ''accumulated too much internal context (context-window overflow '' @ em_dash
     @ '' each retry starts a fresh process), a tool prompted for permission with no live approver, ''
     @ ''a sandbox blocked a write, or an MCP server was unavailable. If retries keep failing, reduce ''
     @ ''the task scope or check the agent profile (e.g. `--dangerously-skip-permissions` for tasklist runs).''"

definition on_run_ended ::
    "feeder_env \<Rightarrow> tasklist_owner \<Rightarrow> tasklist_id \<Rightarrow> agent_id \<Rightarrow> unit fop" where
  "on_run_ended env ow i agent =
     bindE (gets (\<lambda>s. current_task_for_agent s i agent)) (\<lambda>slot.
       case slot of
         None \<Rightarrow> ok ()
       | Some k \<Rightarrow>
           bindE (fetch_tasklist ow i) (\<lambda>L.
             if tl_status L \<noteq> TlActive then ok ()
             else bindE (ok_or (TaskNotFound k) (find_task L k)) (\<lambda>t.
               if t_status t \<noteq> InProgress then ok ()
               else
                 bindE (in_store (try_reclaim_dispatch_by_owner ow i k (t_dispatch_token t)
                          (fe_max_attempts env)
                          (attempt_message stale_run_cause)))
                   (after_reclaim env ow i k (\<lambda>t'.
                      call_dispatcher env (t_owner_agent_id t')
                        (StaleRunReprompt k (t_expected_outputs t') (build_dispatch_prompt t'))
                        ow i k)))))"

end
