(* ===== verification/Feeder_Watchdog.thy ===== *)
theory Feeder_Watchdog
  imports Feeder_Terminal
begin

text \<open>
  Liveness tracking and recovery: \<open>crates/ao-engine/src/task_feeder/watchdog.rs\<close>, with the startup
  reconciliation of \<open>mod.rs\<close> and \<open>kick_and_reconcile\<close> of \<open>terminal.rs\<close>. The result of a sweep is the
  number of tasks it recovered.
\<close>

datatype task_liveness = Live | Starting | Stuck

definition registry_key :: "tasklist_id \<Rightarrow> agent_id \<Rightarrow> string" where
  "registry_key i agent = ''tasklist:'' @ i @ '':'' @ agent"

definition mark_run_observed :: "tasklist_id \<Rightarrow> task_id \<Rightarrow> unit fop" where
  "mark_run_observed i k = upd (\<lambda>s. s\<lparr>fs_run_observed := insert (i, k) (fs_run_observed s)\<rparr>)"

definition task_liveness_of ::
    "feeder_env \<Rightarrow> (string \<Rightarrow> nat) \<Rightarrow> feeder \<Rightarrow> tasklist_id \<Rightarrow> agent_id \<Rightarrow> task_id \<Rightarrow> task_liveness" where
  "task_liveness_of env running s i agent k =
     (if running (registry_key i agent) > 0 then Live
      else if (i, k) \<in> fs_run_observed s then Stuck
      else case fs_dispatched_at s (i, k) of
             Some at \<Rightarrow> if fe_now env - at < fe_watchdog_grace env then Starting else Stuck
           | None \<Rightarrow> Stuck)"

definition idle_cause :: "agent_id \<Rightarrow> string" where
  "idle_cause agent =
     ''dispatch watchdog detected agent '' @ agent @ '' idle while task was in progress (run ended without ''
     @ ''reporting completion or failure, or never started). Possible causes: context-window overflow ''
     @ ''(CLI accumulated internal context '' @ em_dash @ '' each retry starts a fresh process), a tool ''
     @ ''permission prompt with no live approver, a sandbox write block, or an unavailable MCP server. ''
     @ ''If retries keep failing, reduce the task scope or check the agent profile ''
     @ ''(e.g. `--dangerously-skip-permissions`).''"

definition recover_stuck_task ::
    "feeder_env \<Rightarrow> tasklist_owner \<Rightarrow> tasklist_id \<Rightarrow> agent_id \<Rightarrow> task_id \<Rightarrow> bool fop" where
  "recover_stuck_task env ow i agent k =
     bindE (fetch_tasklist ow i) (\<lambda>L.
       if tl_status L \<noteq> TlActive then ok False
       else case find_task L k of
              None \<Rightarrow> ok False
            | Some t \<Rightarrow>
                if t_status t \<noteq> InProgress then ok False
                else bindE (in_store (try_reclaim_dispatch_by_owner ow i k (t_dispatch_token t)
                              (fe_max_attempts env)
                              (attempt_message (idle_cause agent)))) (\<lambda>claim.
                  case claim of
                    NotInProgress _ \<Rightarrow> ok False
                  | Stale \<Rightarrow> ok False
                  | Exhausted _ \<Rightarrow>
                      thenE (emit_task_updated env ow i k)
                     (thenE (on_task_terminal env ow i k) (ok True))
                  | Claimed _ _ t' \<Rightarrow>
                      thenE (upd (\<lambda>s. s\<lparr>fs_registry := (fs_registry s)((i, agent) := Some k),
                                       fs_dispatched_at := (fs_dispatched_at s)((i, k) := Some (fe_now env)),
                                       fs_run_observed := fs_run_observed s - {(i, k)}\<rparr>))
                     (thenE (call_dispatcher env agent
                               (WatchdogReprompt k (t_expected_outputs t') (build_dispatch_prompt t'))
                               ow i k)
                            (ok True))))"

section \<open>Sweeps\<close>

text \<open>The snapshot of one tasklist's tasks that may be stuck, each with its executor.\<close>

definition candidates :: "tasklist \<Rightarrow> (agent_id \<times> task_id) list" where
  "candidates L = map (\<lambda>t. (resolve_executor_agent_id (tl_owner L) t, t_id t))
                      (filter (\<lambda>t. t_status t = InProgress) (all_tasks L))"

fun sweep_tasks ::
    "feeder_env \<Rightarrow> (feeder \<Rightarrow> agent_id \<Rightarrow> task_id \<Rightarrow> bool)
       \<Rightarrow> tasklist_owner \<Rightarrow> tasklist_id \<Rightarrow> (agent_id \<times> task_id) list \<Rightarrow> nat \<Rightarrow> nat fop" where
  "sweep_tasks env stuck ow i [] n = ok n"
| "sweep_tasks env stuck ow i ((agent, k) # cs) n =
     bindE (gets (\<lambda>s. stuck s agent k)) (\<lambda>b.
       if \<not> b then sweep_tasks env stuck ow i cs n
       else bindE (recover_stuck_task env ow i agent k) (\<lambda>recovered.
              sweep_tasks env stuck ow i cs (if recovered then Suc n else n)))"

fun sweep_tasklists ::
    "feeder_env \<Rightarrow> (feeder \<Rightarrow> tasklist_id \<Rightarrow> agent_id \<Rightarrow> task_id \<Rightarrow> bool)
       \<Rightarrow> tasklist list \<Rightarrow> nat \<Rightarrow> nat fop" where
  "sweep_tasklists env stuck [] n = ok n"
| "sweep_tasklists env stuck (L # Ls) n =
     bindE (sweep_tasks env (\<lambda>s. stuck s (tl_id L)) (tl_owner L) (tl_id L) (candidates L) n)
       (\<lambda>m. sweep_tasklists env stuck Ls m)"

definition active_tasklists :: "feeder \<Rightarrow> tasklist list" where
  "active_tasklists s = list_active_across_teams (fs_store s) @ list_active_across_agents (fs_store s)"

definition watchdog_tick :: "feeder_env \<Rightarrow> nat fop" where
  "watchdog_tick env =
     (case fe_instance_registry env of
        None \<Rightarrow> ok 0
      | Some running \<Rightarrow>
          bindE (gets active_tasklists) (\<lambda>active.
            sweep_tasklists env
              (\<lambda>s i agent k. task_liveness_of env running s i agent k = Stuck) active 0))"

definition reconcile_zombies_on_start :: "feeder_env \<Rightarrow> nat fop" where
  "reconcile_zombies_on_start env =
     (case fe_instance_registry env of
        None \<Rightarrow> ok 0
      | Some running \<Rightarrow>
          bindE (gets active_tasklists) (\<lambda>active.
            sweep_tasklists env
              (\<lambda>s i agent k. \<not> running (registry_key i agent) > 0) active 0))"

definition kick_and_reconcile ::
    "feeder_env \<Rightarrow> tasklist_owner \<Rightarrow> tasklist_id \<Rightarrow> nat fop" where
  "kick_and_reconcile env ow i =
     bindE (fetch_tasklist ow i) (\<lambda>L.
       if tl_status L \<noteq> TlActive then ok 0
       else
         bindE (case fe_instance_registry env of
                  None \<Rightarrow> ok 0
                | Some running \<Rightarrow>
                    sweep_tasks env
                      (\<lambda>s agent k. task_liveness_of env running s i agent k = Stuck)
                      ow i (candidates L) 0) (\<lambda>recovered.
         bindE (fetch_tasklist ow i) (\<lambda>fresh.
         thenE (advance env fresh) (ok recovered))))"

text \<open>Startup: every active tasklist is advanced; a failure of one is logged and skipped.\<close>

definition advance_all_active :: "feeder_env \<Rightarrow> unit fop" where
  "advance_all_active env =
     bindE (gets active_tasklists) (\<lambda>active.
       forE active (\<lambda>L. bindE (attempt (advance env L)) (\<lambda>_. ok ())))"

end
