(* ===== verification/Feeder_Lifecycle.thy ===== *)
theory Feeder_Lifecycle
  imports Feeder_Watchdog
begin

text \<open>
  The transitions an operator asks for: \<open>crates/ao-engine/src/task_feeder/lifecycle.rs\<close> - pause,
  continue, skip, discard, replay, resume, start. They act on team-owned tasklists.
\<close>

definition pause :: "feeder_env \<Rightarrow> team_id \<Rightarrow> tasklist_id \<Rightarrow> tasklist fop" where
  "pause env tid i =
     bindE (in_store (set_status (fe_now env) tid i TlPaused)) (\<lambda>updated.
       thenE (emit_tasklist_status_changed env (OwnerTeam tid) i TlPaused) (ok updated))"

section \<open>continue\<close>

definition reset_failed_task :: "task \<Rightarrow> task" where
  "reset_failed_task t =
     (if t_status t = Failed
      then t\<lparr>t_status := Pending, t_attempt_count := 0, t_error_log := []\<rparr> else t)"

definition failed_ids :: "tasklist \<Rightarrow> task_id list" where
  "failed_ids L = map t_id (filter (\<lambda>t. t_status t = Failed) (all_tasks L))"

definition continue_closure :: "tasklist \<Rightarrow> ao_error + task_id list \<times> tasklist" where
  "continue_closure L =
     (if tl_status L \<noteq> TlFailed
      then Inl (InvalidTasklistTransition (RefusedTasklist ''continue'' (tl_id L) (tl_status L)))
      else Inr (failed_ids L, map_tasks reset_failed_task (L\<lparr>tl_status := TlActive\<rparr>)))"

text \<open>The one-active-slot check: another active or paused tasklist of the team is an error.\<close>

definition check_slot_free :: "team_id \<Rightarrow> tasklist_id \<Rightarrow> unit fop" where
  "check_slot_free tid i =
     bindE (gets (\<lambda>s. find_active (fs_store s) tid)) (\<lambda>other.
       case other of
         Some x \<Rightarrow> if tl_id x \<noteq> i then err (TasklistAlreadyActive tid (tl_id x)) else ok ()
       | None \<Rightarrow> ok ())"

definition continue_tasklist :: "feeder_env \<Rightarrow> team_id \<Rightarrow> tasklist_id \<Rightarrow> tasklist fop" where
  "continue_tasklist env tid i =
     thenE (check_slot_free tid i)
       (bindE (in_store (mutate tid i continue_closure)) (\<lambda>r.
          case r of (reset_task_ids, updated) \<Rightarrow>
            thenE (emit_tasklist_status_changed env (OwnerTeam tid) i TlActive)
           (thenE (forE reset_task_ids (emit_task_updated env (OwnerTeam tid) i))
           (thenE (if reset_task_ids \<noteq> [] then emit_lifecycle_wake env tid i TaskRevived else ok ())
           (thenE (advance env updated) (ok updated))))))"

section \<open>skip\<close>

definition skip_closure :: "task_id \<Rightarrow> tasklist \<Rightarrow> ao_error + unit \<times> tasklist" where
  "skip_closure k L =
     (case find_task L k of
        None \<Rightarrow> Inl (TaskNotFound k)
      | Some t \<Rightarrow>
          if t_status t \<noteq> Failed
          then Inl (InvalidTasklistTransition (RefusedTask ''skip'' k (t_status t)))
          else let M = modify_task k (\<lambda>t. t\<lparr>t_status := Skipped\<rparr>) L in
               Inr ((), if \<not> any_failed M \<and> tl_status M = TlFailed then M\<lparr>tl_status := TlActive\<rparr> else M))"

definition skip_will_revive :: "tasklist \<Rightarrow> task_id \<Rightarrow> bool" where
  "skip_will_revive L k =
     (\<not> list_ex (\<lambda>t. t_id t \<noteq> k \<and> t_status t = Failed) (all_tasks L) \<and> tl_status L = TlFailed)"

definition skip_task :: "feeder_env \<Rightarrow> team_id \<Rightarrow> tasklist_id \<Rightarrow> task_id \<Rightarrow> tasklist fop" where
  "skip_task env tid i k =
     bindE (fetch_tasklist (OwnerTeam tid) i) (\<lambda>snapshot.
       bindE (ok_or (TaskNotFound k) (map_option t_status (find_task snapshot k))) (\<lambda>current_status.
         if current_status \<noteq> Failed
         then err (InvalidTasklistTransition (RefusedTask ''skip'' k current_status))
         else
           thenE (if skip_will_revive snapshot k then check_slot_free tid i else ok ())
          (bindE (in_store (mutate tid i (skip_closure k))) (\<lambda>r.
             let updated = snd r in
             thenE (emit_task_updated env (OwnerTeam tid) i k)
            (thenE (if tl_status updated = TlActive \<and> tl_status snapshot \<noteq> TlActive
                    then thenE (emit_tasklist_status_changed env (OwnerTeam tid) i TlActive)
                               (emit_lifecycle_wake env tid i TaskRevived)
                    else ok ())
            (thenE (if tl_status updated = TlActive then advance env updated else ok ())
                   (ok updated)))))))"

section \<open>discard\<close>

definition discard_task :: "task \<Rightarrow> task" where
  "discard_task t =
     (if t_status t = Pending \<or> t_status t = Blocked then t\<lparr>t_status := Skipped\<rparr> else t)"

definition discard_closure :: "tasklist \<Rightarrow> ao_error + task_id list \<times> tasklist" where
  "discard_closure L =
     (if \<not> (tl_status L = TlActive \<or> tl_status L = TlPaused \<or> tl_status L = TlFailed)
      then Inl (InvalidTasklistTransition (RefusedTasklist ''discard'' (tl_id L) (tl_status L)))
      else Inr (map t_id (filter (\<lambda>t. t_status t = Pending \<or> t_status t = Blocked) (all_tasks L)),
                map_tasks discard_task (L\<lparr>tl_status := TlCancelled\<rparr>)))"

definition discard_tasklist :: "feeder_env \<Rightarrow> team_id \<Rightarrow> tasklist_id \<Rightarrow> tasklist fop" where
  "discard_tasklist env tid i =
     bindE (in_store (mutate tid i discard_closure)) (\<lambda>r.
       case r of (skipped_task_ids, updated) \<Rightarrow>
         thenE (emit_tasklist_status_changed env (OwnerTeam tid) i TlCancelled)
        (thenE (forE skipped_task_ids (emit_task_updated env (OwnerTeam tid) i))
        (bindE (fire_terminal_watcher env updated) (\<lambda>_. ok updated))))"

section \<open>start, resume, replay\<close>

definition start :: "feeder_env \<Rightarrow> team_id \<Rightarrow> tasklist_id \<Rightarrow> unit fop" where
  "start env tid i =
     bindE (fetch_tasklist (OwnerTeam tid) i) (\<lambda>L.
       if tl_status L \<noteq> TlActive
       then err (InvalidTasklistTransition (RefusedTasklist ''start'' (tl_id L) (tl_status L)))
       else advance env L)"

definition resume :: "feeder_env \<Rightarrow> team_id \<Rightarrow> tasklist_id \<Rightarrow> tasklist fop" where
  "resume env tid i =
     bindE (in_store (set_status (fe_now env) tid i TlActive)) (\<lambda>updated.
       thenE (emit_tasklist_status_changed env (OwnerTeam tid) i TlActive)
      (thenE (advance env updated) (ok updated)))"

text \<open>
  \<open>replay_tasklist\<close> clones the plan. The uuids are drawn in order: the tasklist's id is number 0, then
  for each group its id followed by those of its tasks.
\<close>

definition replay_task :: "string \<Rightarrow> string \<Rightarrow> task \<Rightarrow> task" where
  "replay_task new_id new_group_id t =
     \<lparr>t_id = new_id, t_owner_agent_id = t_owner_agent_id t, t_prompt = t_prompt t,
      t_expected_outputs = t_expected_outputs t, t_status = Pending, t_group_id = new_group_id,
      t_attempt_count = 0, t_error_log = [], t_comments = [], t_attachments = t_attachments t,
      t_remind_me = t_remind_me t, t_parse_failed = False, t_notification_parse_retry_count = 0,
      t_assignment = None, t_classifier_token = 0, t_dispatch_token = 0\<rparr>"

fun replay_tasks :: "(nat \<Rightarrow> string) \<Rightarrow> nat \<Rightarrow> string \<Rightarrow> task list \<Rightarrow> task list" where
  "replay_tasks uuid n gid [] = []"
| "replay_tasks uuid n gid (t # ts) = replay_task (uuid n) gid t # replay_tasks uuid (Suc n) gid ts"

fun replay_groups :: "(nat \<Rightarrow> string) \<Rightarrow> nat \<Rightarrow> task_group list \<Rightarrow> task_group list" where
  "replay_groups uuid n [] = []"
| "replay_groups uuid n (g # gs) =
     \<lparr>g_id = uuid n, g_mode = g_mode g, g_tasks = replay_tasks uuid (Suc n) (uuid n) (g_tasks g)\<rparr>
     # replay_groups uuid (Suc n + length (g_tasks g)) gs"

definition replay_clone ::
    "feeder_env \<Rightarrow> (team_id \<Rightarrow> tasklist_id \<Rightarrow> string) \<Rightarrow> (team_id \<Rightarrow> tasklist_id \<Rightarrow> string)
       \<Rightarrow> team_id \<Rightarrow> tasklist \<Rightarrow> tasklist" where
  "replay_clone env workspace transcripts tid original =
     (let uuid = fe_fresh_uuid env; new_id = uuid 0 in
      \<lparr>tl_id = new_id, tl_owner = OwnerTeam tid, tl_team_id = Some tid,
       tl_title = tl_title original, tl_description = tl_description original,
       tl_status = TlActive, tl_groups = replay_groups uuid 1 (tl_groups original),
       tl_workspace_dir = workspace tid new_id, tl_transcripts_dir = transcripts tid new_id,
       tl_created_at = fe_now env, tl_last_active_at = None, tl_copilot_agent_id = None,
       tl_last_opened_at = None, tl_project_id = None, tl_thread_id = None\<rparr>)"

definition replay_tasklist ::
    "feeder_env \<Rightarrow> (team_id \<Rightarrow> tasklist_id \<Rightarrow> string) \<Rightarrow> (team_id \<Rightarrow> tasklist_id \<Rightarrow> string)
       \<Rightarrow> team_id \<Rightarrow> tasklist_id \<Rightarrow> tasklist fop" where
  "replay_tasklist env workspace transcripts tid i =
     bindE (fetch_tasklist (OwnerTeam tid) i) (\<lambda>original.
       if \<not> (tl_status original = TlCompleted \<or> tl_status original = TlFailed
              \<or> tl_status original = TlCancelled)
       then err (InvalidTasklistTransition (RefusedTasklist ''replay'' (tl_id original) (tl_status original)))
       else
         bindE (gets (\<lambda>s. find_active (fs_store s) tid)) (\<lambda>other.
           case other of
             Some x \<Rightarrow> err (TasklistAlreadyActive tid (tl_id x))
           | None \<Rightarrow>
               let new_tasklist = replay_clone env workspace transcripts tid original in
               thenE (in_store (create new_tasklist))
              (thenE (emit_tasklist_created env tid (tl_id new_tasklist))
              (thenE (start env tid (tl_id new_tasklist)) (ok new_tasklist)))))"

end
