(* ===== verification/Feeder_Moves.thy ===== *)
theory Feeder_Moves
  imports Feeder_Lifecycle
begin

text \<open>
  How the feeder's methods may change the stored tasklists.

  \<open>evolves R m\<close>: whatever the state, running \<open>m\<close> relates every stored tasklist to its successor by
  \<open>R\<close> and keeps the store well-formed. The locale \<open>evolution\<close> gives the composition rules for any
  reflexive and transitive \<open>R\<close>; it is interpreted below on \<open>feeder_move\<close>, what the feeder may do on
  its own, and on equality of the tasklists' plans.
\<close>

definition store_evolves :: "(tasklist \<Rightarrow> tasklist \<Rightarrow> bool) \<Rightarrow> store \<Rightarrow> store \<Rightarrow> bool" where
  "store_evolves R s s' \<longleftrightarrow> (\<forall>k. rel_option R (store_lookup s k) (store_lookup s' k))"

definition evolves :: "(tasklist \<Rightarrow> tasklist \<Rightarrow> bool) \<Rightarrow> 'a fop \<Rightarrow> bool" where
  "evolves R m \<longleftrightarrow>
     (\<forall>s. store_wf (fs_store s) \<longrightarrow>
        store_wf (fs_store (snd (m s))) \<and> store_evolves R (fs_store s) (fs_store (snd (m s))))"

text \<open>The dispatcher calls of a trace, in order, and the methods that touch neither them nor the store.\<close>

definition is_call :: "effect \<Rightarrow> bool" where
  "is_call e = (case e of DispatchCall _ _ _ _ _ \<Rightarrow> True | _ \<Rightarrow> False)"

lemma is_call_simps [simp]:
  "is_call (DispatchCall a p ow i k)" "\<not> is_call (Emitted c x)" "\<not> is_call (RoutingSubmitted a i k)"
  "\<not> is_call (SummaryToAgent a cs)" "\<not> is_call (SummaryToProject pid cs)"
  "\<not> is_call (WatcherReport i r)" "\<not> is_call (ActiveFlagCleared a)"
  "\<not> is_call (ProgressAppended a i b)" "\<not> is_call (TranscriptMarker pth c n1 n2 n3)"
  by (simp_all add: is_call_def)

definition calls :: "feeder \<Rightarrow> effect list" where
  "calls s = filter is_call (fs_trace s)"

definition silent :: "'a fop \<Rightarrow> bool" where
  "silent m \<longleftrightarrow> (\<forall>s. fs_store (snd (m s)) = fs_store s \<and> calls (snd (m s)) = calls s)"

lemma evolves_in_store:
  assumes "\<And>s. store_wf s \<Longrightarrow> store_wf (snd (m s))"
    and "\<And>s k. store_wf s \<Longrightarrow> rel_option R (store_lookup s k) (store_lookup (snd (m s)) k)"
  shows "evolves R (in_store m)"
  using assms by (simp add: evolves_def store_evolves_def in_store_def zoom_run)

locale evolution =
  fixes R :: "tasklist \<Rightarrow> tasklist \<Rightarrow> bool"
  assumes R_refl: "R L L"
    and R_trans: "R L M \<Longrightarrow> R M N \<Longrightarrow> R L N"
begin

lemma store_refl: "store_evolves R s s"
  by (simp add: store_evolves_def R_refl option.rel_refl)

lemma store_trans: "store_evolves R s t \<Longrightarrow> store_evolves R t u \<Longrightarrow> store_evolves R s u"
  unfolding store_evolves_def
  by (intro allI) (metis (full_types) R_trans option.rel_cases option.rel_inject(2) option.rel_sel)

lemma of_silent: "silent m \<Longrightarrow> evolves R m"
  by (simp add: silent_def evolves_def store_refl)

lemma ok: "evolves R (ok x)" by (rule of_silent) (simp add: silent_def ok_def)
lemma err: "evolves R (err e)" by (rule of_silent) (simp add: silent_def err_def)
lemma gets: "evolves R (gets f)" by (rule of_silent) (simp add: silent_def gets_def)
lemma ok_or: "evolves R (ok_or e x)"
  by (rule of_silent) (simp add: silent_def ok_or_run split: option.split)

lemma bindE:
  assumes m: "evolves R m" and f: "\<And>x. evolves R (f x)"
  shows "evolves R (bindE m f)"
  unfolding evolves_def
proof (intro allI impI)
  fix s :: feeder
  assume wf: "store_wf (fs_store s)"
  let ?t = "snd (m s)"
  have t: "store_wf (fs_store ?t)" "store_evolves R (fs_store s) (fs_store ?t)"
    using m wf by (auto simp: evolves_def)
  show "store_wf (fs_store (snd (bindE m f s))) \<and>
        store_evolves R (fs_store s) (fs_store (snd (bindE m f s)))"
  proof (cases "fst (m s)")
    case (Inl e)
    then show ?thesis using t by (simp add: bindE_run)
  next
    case (Inr x)
    then have "snd (bindE m f s) = snd (f x ?t)" by (simp add: bindE_run)
    moreover have "store_wf (fs_store (snd (f x ?t)))"
      and "store_evolves R (fs_store ?t) (fs_store (snd (f x ?t)))"
      using f [of x] t(1) by (auto simp: evolves_def)
    ultimately show ?thesis using t(2) by (auto intro: store_trans)
  qed
qed

lemma attempt: "evolves R m \<Longrightarrow> evolves R (attempt m)"
  by (simp add: evolves_def attempt_run)

lemma forE: "(\<And>x. evolves R (body x)) \<Longrightarrow> evolves R (forE xs body)"
  by (induction xs) (simp_all add: ok bindE)

lemma if_then: "(b \<Longrightarrow> evolves R m) \<Longrightarrow> (\<not> b \<Longrightarrow> evolves R n) \<Longrightarrow> evolves R (if b then m else n)"
  by simp

lemma case_opt:
  "(x = None \<Longrightarrow> evolves R m) \<Longrightarrow> (\<And>v. x = Some v \<Longrightarrow> evolves R (f v)) \<Longrightarrow>
     evolves R (case x of None \<Rightarrow> m | Some v \<Rightarrow> f v)"
  by (simp split: option.split)

lemma case_sum:
  "(\<And>e. evolves R (f e)) \<Longrightarrow> (\<And>v. evolves R (g v)) \<Longrightarrow>
     evolves R (case x of Inl e \<Rightarrow> f e | Inr v \<Rightarrow> g v)"
  by (simp split: sum.split)

lemma case_pair: "(\<And>a b. evolves R (f a b)) \<Longrightarrow> evolves R (case x of (a, b) \<Rightarrow> f a b)"
  by (simp split: prod.split)

lemma case_owner:
  "(\<And>t. evolves R (f t)) \<Longrightarrow> (\<And>a. evolves R (g a)) \<Longrightarrow>
     evolves R (case ow of OwnerTeam t \<Rightarrow> f t | OwnerAgent a \<Rightarrow> g a)"
  by (simp split: tasklist_owner.split)

lemma case_mode:
  "evolves R m \<Longrightarrow> evolves R n \<Longrightarrow> evolves R (case md of Par \<Rightarrow> m | Seq \<Rightarrow> n)"
  by (simp split: task_group_mode.split)

lemma case_reclaim:
  "(\<And>st. evolves R (a st)) \<Longrightarrow> evolves R b \<Longrightarrow> (\<And>n. evolves R (c n)) \<Longrightarrow>
     (\<And>n tok t. evolves R (d n tok t)) \<Longrightarrow>
     evolves R (case r of NotInProgress st \<Rightarrow> a st | Stale \<Rightarrow> b | Exhausted n \<Rightarrow> c n | Claimed n tok t \<Rightarrow> d n tok t)"
  by (simp split: reclaim_outcome.split)

lemmas rules = ok err gets ok_or bindE attempt forE if_then case_opt case_sum case_pair case_owner
  case_mode case_reclaim

end

subsection \<open>Methods that leave the store and the dispatcher alone\<close>

lemma silent_upd:
  "(\<And>s. fs_store (f s) = fs_store s) \<Longrightarrow> (\<And>s. fs_trace (f s) = fs_trace s) \<Longrightarrow> silent (upd f)"
  by (simp add: silent_def upd_def calls_def)

lemma silent_ok: "silent (ok x)" by (simp add: silent_def ok_def)
lemma silent_err: "silent (err x)" by (simp add: silent_def err_def)
lemma silent_gets: "silent (gets x)" by (simp add: silent_def gets_def)
lemma silent_ok_or: "silent (ok_or e x)"
  by (simp add: silent_def ok_or_run split: option.split)
lemma silent_bindE: "silent m \<Longrightarrow> (\<And>x. silent (f x)) \<Longrightarrow> silent (bindE m f)"
  by (simp add: silent_def bindE_run split: sum.split)
lemma silent_if: "silent m \<Longrightarrow> silent n \<Longrightarrow> silent (if b then m else n)" by simp
lemma silent_opt: "silent m \<Longrightarrow> (\<And>v. silent (f v)) \<Longrightarrow> silent (case x of None \<Rightarrow> m | Some v \<Rightarrow> f v)"
  by (simp split: option.split)
lemma silent_owner:
  "(\<And>t. silent (f t)) \<Longrightarrow> (\<And>a. silent (g a)) \<Longrightarrow>
     silent (case ow of OwnerTeam t \<Rightarrow> f t | OwnerAgent a \<Rightarrow> g a)"
  by (simp split: tasklist_owner.split)
lemma silent_emit: "\<not> is_call e \<Longrightarrow> silent (emit e)"
  by (simp add: silent_def emit_def upd_def calls_def)

lemmas silent_emits = is_call_simps(2-9) [THEN silent_emit]

lemmas silent_rules = silent_ok silent_err silent_gets silent_ok_or silent_bindE silent_if silent_opt
  silent_owner silent_emits

lemma silent_read: "silent (read_tasklist ow i)"
  unfolding read_tasklist_def by (intro silent_rules)
lemma silent_fetch: "silent (fetch_tasklist ow i)"
  unfolding fetch_tasklist_def by (intro silent_rules silent_read)
lemma silent_project_id: "silent (project_id_for ow i)"
  unfolding project_id_for_def by (intro silent_rules silent_read)
lemma silent_dual_emit: "silent (dual_emit c p x)"
  unfolding dual_emit_def by (intro silent_rules)

lemmas silent_more = silent_rules silent_read silent_fetch silent_project_id silent_dual_emit

lemma silent_emit_task_updated: "silent (emit_task_updated env ow i k)"
  unfolding emit_task_updated_def by (intro silent_more)
lemma silent_emit_completed: "silent (emit_tasklist_completed env ow i)"
  unfolding emit_tasklist_completed_def by (intro silent_more)
lemma silent_emit_failed: "silent (emit_tasklist_failed env ow i r)"
  unfolding emit_tasklist_failed_def by (intro silent_more)
lemma silent_emit_status: "silent (emit_tasklist_status_changed env ow i st)"
  unfolding emit_tasklist_status_changed_def by (intro silent_more)
lemma silent_fire: "silent (fire_terminal_watcher env L)"
  unfolding fire_terminal_watcher_def by (intro silent_more silent_upd) simp_all
lemma silent_summary: "silent (post_completion_summary env aid L)"
  unfolding post_completion_summary_def post_completion_summary_to_agent_def by (intro silent_more)
lemma silent_todo_complete: "silent (emit_todo_list_complete env aid L)"
  unfolding emit_todo_list_complete_def Let_def by (intro silent_more)
lemma silent_clear_flag: "silent (clear_active_flag env ow)"
  unfolding clear_active_flag_def by (simp add: silent_ok silent_emit split: tasklist_owner.split option.split)
lemma silent_announce: "silent (announce_terminal env ow L)"
  unfolding announce_terminal_def
  by (intro silent_more silent_clear_flag silent_fire silent_summary silent_todo_complete)
lemma silent_routing: "silent (submit_routing_for env L t)"
  unfolding submit_routing_for_def note_team_routing_unsupported_def
  by (intro silent_more silent_upd) simp_all
lemma silent_defer: "silent (defer_unowned env L t)"
  unfolding defer_unowned_def emit_task_deferred_def by (intro silent_more silent_routing)
lemma silent_occupy: "silent (occupy_slot env i a k)"
  unfolding occupy_slot_def by (intro silent_upd) simp_all
lemma silent_release: "silent (release_slot i a k)"
  unfolding release_slot_def by (intro silent_upd) simp_all
lemma silent_free: "silent (free_task_slot ow L i k)"
  unfolding free_task_slot_def by (intro silent_more silent_upd) simp_all
lemma silent_start_meta: "silent (write_start_meta env L a t)"
  unfolding write_start_meta_def by (intro silent_more silent_upd) simp_all
lemma silent_wake: "silent (emit_lifecycle_wake env tid i r)"
  unfolding emit_lifecycle_wake_def by (intro silent_more)

lemma silent_par_select: "silent (par_select env L c tp ts)"
  by (induction env L c tp ts rule: par_select.induct) (auto intro!: silent_more silent_defer split: option.split)

lemmas silent_methods = silent_read silent_fetch silent_emit_task_updated silent_emit_completed
  silent_emit_failed silent_emit_status silent_fire silent_summary silent_todo_complete silent_clear_flag
  silent_announce silent_routing silent_defer silent_occupy silent_release silent_free silent_start_meta
  silent_wake silent_par_select silent_emits

subsection \<open>What the feeder may do on its own\<close>

text \<open>
  A task keeps its identity and its plan; its status stays, or becomes \<open>Failed\<close>, or goes from
  dispatchable to \<open>InProgress\<close>; its attempt count never falls and its error log and comments only
  grow.
\<close>

definition task_move :: "task \<Rightarrow> task \<Rightarrow> bool" where
  "task_move t t' \<longleftrightarrow>
     t_id t' = t_id t \<and> t_owner_agent_id t' = t_owner_agent_id t \<and> t_prompt t' = t_prompt t \<and>
     t_expected_outputs t' = t_expected_outputs t \<and> t_assignment t' = t_assignment t \<and>
     t_attachments t' = t_attachments t \<and>
     (t_status t' = t_status t \<or> t_status t' = Failed \<or>
      (t_status t = Pending \<or> t_status t = Blocked) \<and> t_status t' = InProgress) \<and>
     unat (t_attempt_count t) \<le> unat (t_attempt_count t') \<and>
     prefix (t_error_log t) (t_error_log t') \<and> prefix (t_comments t) (t_comments t')"

definition feeder_move :: "tasklist \<Rightarrow> tasklist \<Rightarrow> bool" where
  "feeder_move L L' \<longleftrightarrow>
     tl_key L' = tl_key L \<and> map g_mode (tl_groups L') = map g_mode (tl_groups L) \<and>
     (tl_status L' = tl_status L \<or>
      (tl_status L = TlActive \<or> tl_status L = TlPaused) \<and>
      (tl_status L' = TlCompleted \<or> tl_status L' = TlFailed)) \<and>
     list_all2 task_move (all_tasks L) (all_tasks L')"

lemma task_move_refl [simp]: "task_move t t"
  by (simp add: task_move_def)

lemma task_move_trans: "task_move t u \<Longrightarrow> task_move u v \<Longrightarrow> task_move t v"
  unfolding task_move_def by (auto intro: prefix_order.trans)

interpretation moves: evolution feeder_move
proof unfold_locales
  show "feeder_move L L" for L
    by (simp add: feeder_move_def list.rel_refl)
next
  fix L M N
  assume LM: "feeder_move L M" and MN: "feeder_move M N"
  then have "list_all2 task_move (all_tasks L) (all_tasks N)"
    by (auto simp: feeder_move_def intro: list_all2_trans [OF task_move_trans])
  with LM MN show "feeder_move L N" by (auto simp: feeder_move_def)
qed

lemma list_all2_modify_first:
  assumes "\<And>x. P x x" and "\<And>x. x \<in> set xs \<Longrightarrow> p x \<Longrightarrow> List.find p xs = Some x \<Longrightarrow> P x (f x)"
  shows "list_all2 P xs (modify_first p f xs)"
  using assms by (induction xs) (auto simp: list.rel_refl)

lemma g_modes_modify [simp]: "map g_mode (tl_groups (modify_task k f L)) = map g_mode (tl_groups L)"
proof -
  have "map g_mode (modify_groups k f gs) = map g_mode gs" for gs
    by (induction gs) (auto split: option.split)
  then show ?thesis by (simp add: modify_task_def)
qed

lemma g_modes_map_tasks [simp]: "map g_mode (tl_groups (map_tasks f L)) = map g_mode (tl_groups L)"
  by (simp add: map_tasks_def)

lemma feeder_move_modify:
  assumes "\<And>t. find_task L k = Some t \<Longrightarrow> task_move t (f t)"
  shows "feeder_move L (modify_task k f L)"
  using assms
  by (auto simp: feeder_move_def find_task_def intro!: list_all2_modify_first)

lemma feeder_move_map_tasks:
  assumes "\<And>t. task_move t (f t)"
  shows "feeder_move L (map_tasks f L)"
  using assms by (auto simp: feeder_move_def list_all2_conv_all_nth)

lemma task_move_bump: "task_move t (reclaim_bump msg t)"
  by (simp add: task_move_def reclaim_bump_def Let_def unat_le_sat_inc)

lemma task_move_bump_fail: "task_move t ((reclaim_bump msg t)\<lparr>t_status := Failed\<rparr>)"
  by (simp add: task_move_def reclaim_bump_def Let_def unat_le_sat_inc)

subsection \<open>Every autonomous method stays within feeder\_move\<close>

text \<open>The store operations, through their contract.\<close>

lemma status_step_move:
  assumes "status_step now nxt L r L'" and "nxt = TlCompleted \<or> nxt = TlFailed"
  shows "feeder_move L L'"
proof (cases "L' = L")
  case True
  then show ?thesis by (simp add: moves.R_refl)
next
  case False
  with assms(1) have eq: "L' = leave_active now nxt L"
    and al: "team_status_move_allowed (tl_status L) nxt"
    by (simp_all add: status_step_def)
  from al assms(2) have "tl_status L = TlActive \<or> tl_status L = TlPaused"
    by (auto simp: team_status_move_allowed_def)
  with assms(2) show ?thesis by (simp add: eq feeder_move_def list.rel_refl)
qed

lemma begin_step_move: "begin_step k L r L' \<Longrightarrow> feeder_move L L'"
  by (auto simp: begin_step_def task_move_def moves.R_refl intro!: feeder_move_modify
      split: option.splits if_splits)

lemma reclaim_step_move: "reclaim_step k tok mx msg L r L' \<Longrightarrow> feeder_move L L'"
  by (auto simp: reclaim_step_def moves.R_refl task_move_bump task_move_bump_fail
      intro!: feeder_move_modify split: option.splits if_splits)

interpretation fail_missing: tasklist_closure "fail_missing_executor k reason" for k reason
  by unfold_locales (auto simp: fail_missing_executor_def)

interpretation append_comment: tasklist_closure "append_comment_closure k c" for k c
  by unfold_locales (auto simp: append_comment_closure_def split: option.splits)

lemma fail_missing_move:
  "closure_step (fail_missing_executor k reason) L r L' \<Longrightarrow> feeder_move L L'"
  by (auto simp: closure_step_def fail_missing_executor_def task_move_def
      intro!: feeder_move_map_tasks)

lemma append_comment_move:
  "closure_step (append_comment_closure k c) L r L' \<Longrightarrow> feeder_move L L'"
  by (auto simp: closure_step_def append_comment_closure_def task_move_def moves.R_refl
      intro!: feeder_move_modify split: option.splits sum.splits)

lemma evolves_set_status:
  assumes "nxt = TlCompleted \<or> nxt = TlFailed"
  shows "evolves feeder_move (in_store (set_status_by_owner now ow i nxt))"
proof (rule evolves_in_store)
  fix s assume wf: "store_wf s"
  show "store_wf (snd (set_status_by_owner now ow i nxt s))"
    using set_status_op.op_wf [OF wf, of now "(ow, i)" nxt] by simp
  fix j
  show "rel_option feeder_move (store_lookup s j) (store_lookup (snd (set_status_by_owner now ow i nxt s)) j)"
    using set_status_op.op_evolves [where R = feeder_move and now = now and nxt = nxt and k = "(ow, i)",
        OF status_step_move [OF _ assms] moves.R_refl wf] by simp
qed

lemma evolves_begin: "evolves feeder_move (in_store (try_begin_task_by_owner ow i k))"
proof (rule evolves_in_store)
  fix s assume wf: "store_wf s"
  show "store_wf (snd (try_begin_task_by_owner ow i k s))"
    using begin_op.op_wf [OF wf, of "(ow, i)" k] by simp
  fix j
  show "rel_option feeder_move (store_lookup s j) (store_lookup (snd (try_begin_task_by_owner ow i k s)) j)"
    using begin_op.op_evolves [where R = feeder_move and k = "(ow, i)" and ka = k,
        OF begin_step_move moves.R_refl wf] by simp
qed

lemma evolves_reclaim:
  "evolves feeder_move (in_store (try_reclaim_dispatch_by_owner ow i k tok mx msg))"
proof (rule evolves_in_store)
  fix s assume wf: "store_wf s"
  show "store_wf (snd (try_reclaim_dispatch_by_owner ow i k tok mx msg s))"
    using reclaim_op.op_wf [OF wf, of "(ow, i)" k] by simp
  fix j
  show "rel_option feeder_move (store_lookup s j)
      (store_lookup (snd (try_reclaim_dispatch_by_owner ow i k tok mx msg s)) j)"
    using reclaim_op.op_evolves [where R = feeder_move and k = "(ow, i)" and ka = k,
        OF reclaim_step_move moves.R_refl wf] by simp
qed

context tasklist_closure
begin

lemma evolves_mutated:
  assumes st: "\<And>L r L'. closure_step f L r L' \<Longrightarrow> feeder_move L L'"
  shows "evolves feeder_move (in_store (mutate_by_owner ow i f))"
proof (rule evolves_in_store)
  fix s assume wf: "store_wf s"
  show "store_wf (snd (mutate_by_owner ow i f s))"
    using mutated.op_wf [OF wf, of "(ow, i)"] by simp
  fix j
  show "rel_option feeder_move (store_lookup s j) (store_lookup (snd (mutate_by_owner ow i f s)) j)"
    using mutated.op_evolves [where R = feeder_move and k = "(ow, i)", OF st moves.R_refl wf] by simp
qed

end

lemmas store_moves = evolves_set_status evolves_begin evolves_reclaim
  fail_missing.evolves_mutated [OF fail_missing_move]
  append_comment.evolves_mutated [OF append_comment_move]

lemma moves_call: "evolves feeder_move (call_dispatcher env a p ow i k)"
proof -
  have "fs_store (snd (call_dispatcher env a p ow i k s)) = fs_store s" for s
    by (simp add: call_dispatcher_def emit_def ok_def err_def split: option.split)
  then show ?thesis by (simp add: evolves_def moves.store_refl)
qed

lemmas feeder_rules = moves.rules silent_methods [THEN moves.of_silent] store_moves moves_call

lemma moves_upd: "(\<And>s. fs_store (f s) = fs_store s) \<Longrightarrow> evolves feeder_move (upd f)"
  by (simp add: evolves_def upd_def moves.store_refl)

lemma moves_dispatch_one: "evolves feeder_move (dispatch_one env L t)"
  unfolding dispatch_one_def claim_and_dispatch_def Let_def by (intro feeder_rules)

lemma moves_par_dispatch: "evolves feeder_move (par_dispatch env L ts)"
  by (induction ts) (auto intro!: feeder_rules moves_dispatch_one)

lemma moves_dispatch_group: "evolves feeder_move (dispatch_group env L g)"
  unfolding dispatch_group_def dispatch_group_par_def dispatch_group_seq_def Let_def
  by (intro feeder_rules moves_par_dispatch moves_dispatch_one)

lemma moves_advance: "evolves feeder_move (advance env L)"
  unfolding advance_def complete_tasklist_def
  by (intro feeder_rules moves_dispatch_group) simp

lemma moves_halt: "evolves feeder_move (halt_on_failure env ow L i k)"
  unfolding halt_on_failure_def by (intro feeder_rules) simp

lemma moves_record: "evolves feeder_move (record_progress env ow L i k)"
proof (cases "find_task L k")
  case None
  then show ?thesis
    unfolding record_progress_def by (auto intro!: feeder_rules split: tasklist_owner.split)
next
  case (Some t)
  then show ?thesis
    unfolding record_progress_def mutate_for_agent_def Let_def
    by (auto intro!: feeder_rules moves_upd split: tasklist_owner.split)
qed

lemma moves_on_task_terminal: "evolves feeder_move (on_task_terminal env ow i k)"
  unfolding on_task_terminal_def
  by (intro feeder_rules moves_halt moves_record moves_advance)

lemma moves_on_run_ended: "evolves feeder_move (on_run_ended env ow i agent)"
  unfolding on_run_ended_def after_reclaim_def
  by (intro feeder_rules moves_on_task_terminal)

lemma moves_recover: "evolves feeder_move (recover_stuck_task env ow i agent k)"
  unfolding recover_stuck_task_def
  by (intro feeder_rules moves_on_task_terminal moves_upd) simp_all

lemma moves_sweep_tasks: "evolves feeder_move (sweep_tasks env stuck ow i cs n)"
proof (induction cs arbitrary: n)
  case Nil
  show ?case by (simp add: moves.ok)
next
  case (Cons c cs)
  show ?case
    by (cases c) (simp only: sweep_tasks.simps, intro feeder_rules moves_recover Cons.IH)
qed

lemma moves_sweep: "evolves feeder_move (sweep_tasklists env stuck Ls n)"
proof (induction Ls arbitrary: n)
  case Nil
  show ?case by (simp add: moves.ok)
next
  case (Cons L Ls)
  show ?case by (simp only: sweep_tasklists.simps, intro feeder_rules moves_sweep_tasks Cons.IH)
qed

lemma moves_watchdog_tick: "evolves feeder_move (watchdog_tick env)"
  unfolding watchdog_tick_def by (intro feeder_rules moves_sweep)

lemma moves_reconcile: "evolves feeder_move (reconcile_zombies_on_start env)"
  unfolding reconcile_zombies_on_start_def by (intro feeder_rules moves_sweep)

lemma moves_kick: "evolves feeder_move (kick_and_reconcile env ow i)"
  unfolding kick_and_reconcile_def by (intro feeder_rules moves_sweep_tasks moves_advance)

lemma moves_advance_all: "evolves feeder_move (advance_all_active env)"
  unfolding advance_all_active_def by (intro feeder_rules moves_advance)

end
