(* ===== verification/Samples.thy ===== *)
theory Samples
  imports Feeder_Moves
begin

text \<open>
  Concrete tasks, tasklists, stores and surroundings on which the witnesses evaluate the model.
\<close>

definition sample_task :: "task_id \<Rightarrow> agent_id \<Rightarrow> task_status \<Rightarrow> task" where
  "sample_task k owner st =
     \<lparr>t_id = k, t_owner_agent_id = owner, t_prompt = ''do '' @ k, t_expected_outputs = [], t_status = st,
      t_group_id = ''g'', t_attempt_count = 0, t_error_log = [], t_comments = [], t_attachments = [],
      t_remind_me = None, t_parse_failed = False, t_notification_parse_retry_count = 0,
      t_assignment = None, t_classifier_token = 0, t_dispatch_token = 0\<rparr>"

definition sample_list :: "tasklist_owner \<Rightarrow> tasklist_id \<Rightarrow> tasklist_status \<Rightarrow> task_group list \<Rightarrow> tasklist" where
  "sample_list ow i st gs =
     \<lparr>tl_id = i, tl_owner = ow, tl_team_id = None, tl_title = ''plan'', tl_description = [],
      tl_status = st, tl_groups = gs, tl_workspace_dir = ''w'', tl_transcripts_dir = ''tr'',
      tl_created_at = 0, tl_last_active_at = None, tl_copilot_agent_id = None,
      tl_last_opened_at = None, tl_project_id = None, tl_thread_id = None\<rparr>"

definition sample_group :: "task_group_mode \<Rightarrow> task list \<Rightarrow> task_group" where
  "sample_group md ts = \<lparr>g_id = ''g'', g_mode = md, g_tasks = ts\<rparr>"

definition sample_store :: "tasklist list \<Rightarrow> store" where
  "sample_store Ls = \<lparr>metas = map (\<lambda>L. (tl_key L, L)) Ls, dirs = map tl_key Ls\<rparr>"

definition sample_feeder :: "tasklist list \<Rightarrow> feeder" where
  "sample_feeder Ls =
     \<lparr>fs_store = sample_store Ls, fs_registry = (\<lambda>_. None), fs_dispatched_at = (\<lambda>_. None),
      fs_run_observed = {}, fs_routing_warned = {}, fs_watchers = (\<lambda>_. None),
      fs_task_metas = (\<lambda>_. None), fs_trace = []\<rparr>"

definition sample_env :: feeder_env where
  "sample_env =
     \<lparr>fe_now = 100, fe_max_attempts = 3, fe_watchdog_grace = 30, fe_event_bus = False,
      fe_routing_queue = True, fe_notification_dispatcher = True, fe_project_dispatcher = False,
      fe_instance_registry = Some (\<lambda>_. 0), fe_agent_profile_exists = (\<lambda>_. False),
      fe_workspace_file_exists = (\<lambda>_ _. True), fe_dispatch_outcome = (\<lambda>_ _ _. None),
      fe_output_path = (\<lambda>_ _ _. ''out''), fe_changelog = (\<lambda>_ _ _. None),
      fe_thread_transcript = (\<lambda>_. None), fe_fresh_uuid = (\<lambda>n. replicate (Suc n) CHR ''u'')\<rparr>"

lemmas sample_defs = sample_task_def sample_list_def sample_group_def sample_store_def
  sample_feeder_def sample_env_def

lemma sample_task_sel [simp]:
  "t_id (sample_task k ow st) = k" "t_owner_agent_id (sample_task k ow st) = ow"
  "t_status (sample_task k ow st) = st" "t_assignment (sample_task k ow st) = None"
  "t_attempt_count (sample_task k ow st) = 0" "t_dispatch_token (sample_task k ow st) = 0"
  "t_comments (sample_task k ow st) = []" "t_error_log (sample_task k ow st) = []"
  "t_expected_outputs (sample_task k ow st) = []"
  by (simp_all add: sample_task_def)

lemma sample_list_sel [simp]:
  "tl_id (sample_list ow i st gs) = i" "tl_owner (sample_list ow i st gs) = ow"
  "tl_status (sample_list ow i st gs) = st" "tl_groups (sample_list ow i st gs) = gs"
  "tl_key (sample_list ow i st gs) = (ow, i)" "tl_created_at (sample_list ow i st gs) = 0"
  "tl_copilot_agent_id (sample_list ow i st gs) = None"
  "tl_last_active_at (sample_list ow i st gs) = None"
  "tl_last_opened_at (sample_list ow i st gs) = None"
  "tl_project_id (sample_list ow i st gs) = None"
  by (simp_all add: sample_list_def tl_key_def)

lemma sample_group_sel [simp]:
  "g_mode (sample_group md ts) = md" "g_tasks (sample_group md ts) = ts" "g_id (sample_group md ts) = ''g''"
  by (simp_all add: sample_group_def)

lemma all_tasks_sample [simp]: "all_tasks (sample_list ow i st gs) = concat (map g_tasks gs)"
  by (simp add: all_tasks_def)

lemma sample_lookup [simp]:
  "store_lookup (sample_store Ls) q = map_of (map (\<lambda>L. (tl_key L, L)) Ls) q"
  by (simp add: store_lookup_eq sample_store_def)

lemma sample_store_wf: "distinct (map tl_key Ls) \<Longrightarrow> store_wf (sample_store Ls)"
  by (simp add: store_wf_def sample_store_def list_all_iff comp_def)

lemma sample_feeder_sel [simp]:
  "fs_store (sample_feeder Ls) = sample_store Ls" "fs_trace (sample_feeder Ls) = []"
  "fs_registry (sample_feeder Ls) = (\<lambda>_. None)" "fs_dispatched_at (sample_feeder Ls) = (\<lambda>_. None)"
  "fs_run_observed (sample_feeder Ls) = {}" "fs_watchers (sample_feeder Ls) = (\<lambda>_. None)"
  "calls (sample_feeder Ls) = []"
  by (simp_all add: sample_feeder_def calls_def)

lemma sample_env_sel [simp]:
  "fe_now sample_env = 100" "fe_max_attempts sample_env = 3" "fe_watchdog_grace sample_env = 30"
  "fe_event_bus sample_env = False" "fe_instance_registry sample_env = Some (\<lambda>_. 0)"
  "fe_dispatch_outcome sample_env = (\<lambda>_ _ _. None)" "fe_agent_profile_exists sample_env = (\<lambda>_. False)"
  "fe_fresh_uuid sample_env = (\<lambda>n. replicate (Suc n) CHR ''u'')"
  by (simp_all add: sample_env_def)

end
