(* ===== verification/Store_Properties.thy ===== *)
theory Store_Properties
  imports Samples
begin

text \<open>
  What the tasklist store promises: status changes, task transitions, creation, the one active slot,
  the queries.
\<close>

lemma store_lookup_put [simp]: "store_lookup (put_meta L s) q = (if q = tl_key L then Some L else store_lookup s q)"
  by (rule tasklists.lookup_put)

lemma store_lookup_keyD: "store_wf s \<Longrightarrow> store_lookup s q = Some L \<Longrightarrow> tl_key L = q"
  by (rule tasklists.lookup_key)

section \<open>Status changes\<close>

text \<open>\<open>set_status_by_owner\<close> is total on the three cases the API documents. A missing tasklist is
  \<open>TasklistNotFound\<close>; asking for the status it has returns it unchanged; a move the table refuses is
  \<open>InvalidTasklistTransition\<close>, and in these cases the store is untouched. An allowed move writes
  exactly the new status, and stamps \<open>last_active_at\<close> with the current time iff the tasklist
  leaves \<open>Active\<close>; every other tasklist and every other field stays.\<close>

theorem set_status_effect:
  "set_status_by_owner now ow i nxt s =
     (case store_lookup s (ow, i) of
        None \<Rightarrow> (Inl (TasklistNotFound i), s)
      | Some L \<Rightarrow>
          if tl_status L = nxt then (Inr L, s)
          else if \<not> team_status_move_allowed (tl_status L) nxt
          then (Inl (InvalidTasklistTransition (StatusMove (tl_status L) nxt)), s)
          else let L' = L\<lparr>tl_last_active_at := (if tl_status L = TlActive then Some now
                                                else tl_last_active_at L),
                          tl_status := nxt\<rparr>
               in (Inr L', put_meta L' s))"
  by (cases "store_lookup s (ow, i)")
     (auto simp: set_status_by_owner_eq store_run leave_active_def)

text \<open>The moves of a status: any non-active status but \<open>Paused\<close> and \<open>Failed\<close> only goes to \<open>Paused\<close>.\<close>

lemma allowed_from_done:
  "cur = TlCompleted \<or> cur = TlCancelled \<Longrightarrow> team_status_move_allowed cur nxt \<longleftrightarrow> nxt = TlPaused"
  by (auto simp: team_status_move_allowed_def)

lemma allowed_to_active:
  "team_status_move_allowed cur TlActive \<longleftrightarrow> cur = TlPaused \<or> cur = TlFailed"
  by (auto simp: team_status_move_allowed_def)

section \<open>Task transitions\<close>

text \<open>\<open>set_task_status_by_owner\<close>, for either kind of owner: a missing tasklist
  or task is its own error; a transition outside the table is \<open>InvalidTasklistTransition\<close>; in these
  cases nothing is written. Otherwise the first task with that id takes the new status, and the
  returned tasklist is the stored one, in which no other task changed.\<close>

theorem set_task_status_effect:
  "set_task_status_by_owner ow i k nxt s =
     (case store_lookup s (ow, i) of
        None \<Rightarrow> (Inl (TasklistNotFound i), s)
      | Some L \<Rightarrow>
          (case find_task L k of
             None \<Rightarrow> (Inl (TaskNotFound k), s)
           | Some t \<Rightarrow>
               if \<not> is_valid_task_transition (t_status t) nxt
               then (Inl (InvalidTasklistTransition (TaskMove k (t_status t) nxt)), s)
               else let L' = modify_task k (\<lambda>t. t\<lparr>t_status := nxt\<rparr>) L in (Inr L', put_meta L' s)))"
  by (auto simp: set_task_status_by_owner_eq mutate_by_owner_def bindE_assoc store_run
      set_task_status_closure_def split: option.split)

text \<open>The task table has two absorbing statuses: whatever sequence of accepted transitions is taken
  from \<open>Completed\<close> or from \<open>Skipped\<close>, the status stays what it was. \<open>Failed\<close> is terminal but not
  absorbing: it reaches every status.\<close>

theorem completed_and_skipped_absorb:
  "rtranclp is_valid_task_transition st st' \<longleftrightarrow>
     (if st = Completed \<or> st = Skipped then st' = st else True)"
proof (cases "st = Completed \<or> st = Skipped")
  case True
  have step: "is_valid_task_transition st u \<longleftrightarrow> u = st" for u
    using True by (auto simp: is_valid_task_transition_def)
  have "st' = st" if "rtranclp is_valid_task_transition st st'"
    using that by (induction) (use step in auto)
  with True show ?thesis by auto
next
  case False
  have e: "is_valid_task_transition Pending InProgress" "is_valid_task_transition Pending Blocked"
    "is_valid_task_transition Pending Failed" "is_valid_task_transition Pending Skipped"
    "is_valid_task_transition InProgress Completed" "is_valid_task_transition InProgress Stopped"
    "is_valid_task_transition InProgress Failed" "is_valid_task_transition Failed Pending"
    "is_valid_task_transition Blocked Pending" "is_valid_task_transition Stopped Pending"
    by (simp_all add: is_valid_task_transition_def)
  have "rtranclp is_valid_task_transition st Pending"
    using False e by (cases st) (auto intro: rtranclp.rtrancl_into_rtrancl)
  moreover have "rtranclp is_valid_task_transition Pending st'"
  proof -
    have ip: "rtranclp is_valid_task_transition Pending InProgress" using e by blast
    show ?thesis
      using ip e by (cases st') (auto intro: rtranclp.rtrancl_into_rtrancl)
  qed
  ultimately show ?thesis using False by auto
qed

section \<open>Identifiers\<close>

text \<open>An identifier that \<open>validate_id\<close> accepts is a plain file name: it is not empty and holds
  neither a path separator, a dot, a drive colon, a space nor a NUL, so joining it to the data root
  cannot leave the directory. And every string of letters, digits, \<open>-\<close> and \<open>_\<close> is accepted.\<close>

theorem validate_id_accepts:
  "validate_id label i = Inr () \<longleftrightarrow>
     i \<noteq> [] \<and> list_all (\<lambda>c. valid_id_char c \<and>
        c \<notin> {CHR ''/'', CHR 0x5C, CHR ''.'', CHR '':'', CHR '' '', CHR 0x00, CHR ''~''}) i"
proof -
  have "\<not> valid_id_char c" if "c \<in> {CHR ''/'', CHR 0x5C, CHR ''.'', CHR '':'', CHR '' '', CHR 0x00, CHR ''~''}" for c
    using that by (auto simp: valid_id_char_def Let_def)
  then have "list_all (\<lambda>c. valid_id_char c \<and> c \<notin> {CHR ''/'', CHR 0x5C, CHR ''.'', CHR '':'', CHR '' '', CHR 0x00, CHR ''~''}) i
      = list_all valid_id_char i"
    by (intro list.pred_cong) auto
  then show ?thesis by (simp add: validate_id_def)
qed

section \<open>Queries\<close>

text \<open>The tasklists of an owner that hold its one slot, in directory order.\<close>

definition owned :: "store \<Rightarrow> tasklist_owner \<Rightarrow> tasklist list" where
  "owned s ow = map snd (filter (\<lambda>e. fst (fst e) = ow) (metas s))"

definition slot_holders :: "store \<Rightarrow> tasklist_owner \<Rightarrow> tasklist list" where
  "slot_holders s ow = filter occupies_slot (owned s ow)"

definition find_slot :: "store \<Rightarrow> tasklist_owner \<Rightarrow> tasklist option" where
  "find_slot s ow = (case ow of OwnerTeam tid \<Rightarrow> find_active s tid | OwnerAgent aid \<Rightarrow> active_for_agent s aid)"

lemma find_slot_eq: "find_slot s ow = List.find occupies_slot (newest_first (owned s ow))"
  by (simp add: find_slot_def find_active_def active_for_agent_def list_team_def list_for_agent_def
      owned_def split: tasklist_owner.split)

lemma set_newest_first [simp]: "set (newest_first Ls) = set Ls"
  by (simp add: newest_first_def)

lemma find_sorted_least:
  assumes "sorted (map f xs)" and "List.find p xs = Some x" and "y \<in> set xs" and "p y"
  shows "f x \<le> f y"
  using assms by (induction xs) (auto split: if_splits)

text \<open>\<open>find_active\<close> and \<open>active_for_agent\<close> answer with the newest tasklist of the owner that is
  active or paused, and with nothing exactly when there is none.\<close>

theorem find_slot_newest:
  "(find_slot s ow = None) = (slot_holders s ow = []) \<and>
   (case find_slot s ow of
      None \<Rightarrow> True
    | Some L \<Rightarrow> L \<in> set (slot_holders s ow) \<and>
        list_all (\<lambda>M. tl_created_at M \<le> tl_created_at L) (slot_holders s ow))"
proof (cases "find_slot s ow")
  case None
  then have "\<not> (\<exists>L \<in> set (owned s ow). occupies_slot L)"
    by (simp add: find_slot_eq find_None_iff)
  then show ?thesis using None by (auto simp: slot_holders_def filter_empty_conv)
next
  case (Some L)
  then have L: "L \<in> set (owned s ow)" "occupies_slot L"
    by (auto simp: find_slot_eq dest!: find_Some_iff_first)
  moreover have "tl_created_at M \<le> tl_created_at L" if "M \<in> set (owned s ow)" "occupies_slot M" for M
  proof -
    have "sorted (map (\<lambda>L. - tl_created_at L) (newest_first (owned s ow)))"
      by (simp add: newest_first_def)
    from find_sorted_least [OF this, of occupies_slot L M] Some that show ?thesis
      by (simp add: find_slot_eq)
  qed
  ultimately show ?thesis using Some by (auto simp: slot_holders_def list_all_iff filter_empty_conv)
qed

text \<open>The stored tasklists of team owners, and of agent owners.\<close>

definition team_files :: "store \<Rightarrow> tasklist list" where
  "team_files s = concat (map (\<lambda>e. case fst (fst e) of OwnerTeam _ \<Rightarrow> [snd e] | OwnerAgent _ \<Rightarrow> []) (metas s))"

definition agent_files :: "store \<Rightarrow> tasklist list" where
  "agent_files s = concat (map (\<lambda>e. case fst (fst e) of OwnerTeam _ \<Rightarrow> [] | OwnerAgent _ \<Rightarrow> [snd e]) (metas s))"

lemma set_lists:
  "set (concat (map (list_team s) (team_dirs s))) = set (team_files s)"
  "set (concat (map (list_for_agent s) (agent_dirs s))) = set (agent_files s)"
  by (force simp: list_team_def list_for_agent_def team_dirs_def agent_dirs_def team_files_def
      agent_files_def split: tasklist_owner.splits)+

lemma find_split:
  assumes "set xs = set ys"
  shows "case List.find p xs of None \<Rightarrow> filter p ys = [] | Some x \<Rightarrow> p x \<and> x \<in> set ys"
proof (cases "List.find p xs")
  case None
  then have "\<forall>x\<in>set xs. \<not> p x" by (auto simp: find_None_iff)
  with None assms show ?thesis by (simp add: filter_empty_conv)
next
  case (Some x)
  with assms show ?thesis by (auto dest: find_Some_iff_first)
qed

text \<open>\<open>find_by_copilot_agent_id\<close> is a correct search of the whole store. It answers with a stored
  tasklist bound to that agent, an agent-owned one only when no team-owned one is bound to it, and
  with nothing exactly when no stored tasklist is bound to it.\<close>

theorem find_by_copilot_correct:
  "case find_by_copilot_agent_id s aid of
     None \<Rightarrow> filter (\<lambda>L. tl_copilot_agent_id L = Some aid) (team_files s @ agent_files s) = []
   | Some L \<Rightarrow> tl_copilot_agent_id L = Some aid \<and>
       (if filter (\<lambda>M. tl_copilot_agent_id M = Some aid) (team_files s) = []
        then L \<in> set (agent_files s) else L \<in> set (team_files s))"
  using find_split [OF set_lists(1), of "\<lambda>L. tl_copilot_agent_id L = Some aid" s]
    find_split [OF set_lists(2), of "\<lambda>L. tl_copilot_agent_id L = Some aid" s]
  by (auto simp: find_by_copilot_agent_id_def filter_empty_conv split: option.splits)

section \<open>Creation and the one slot\<close>

text \<open>\<open>create\<close> and \<open>create_for_agent\<close>, by the kind of owner.\<close>

definition create_owned :: "tasklist \<Rightarrow> unit store_op" where
  "create_owned L = (case tl_owner L of OwnerTeam _ \<Rightarrow> create L | OwnerAgent _ \<Rightarrow> create_for_agent L)"

definition owner_label :: "tasklist_owner \<Rightarrow> string" where
  "owner_label ow = (case ow of OwnerTeam _ \<Rightarrow> ''Team ID'' | OwnerAgent _ \<Rightarrow> ''Agent ID'')"

lemma update_fresh: "k \<notin> fst ` set xs \<Longrightarrow> AList.update k v xs = xs @ [(k, v)]"
  by (induction xs) auto

lemma lift_res_bind: "bindE (lift_res r) f s = (case r of Inl e \<Rightarrow> (Inl e, s) | Inr x \<Rightarrow> f x s)"
  by (simp add: bindE_run lift_res_def split: sum.split)

lemma create_owned_run:
  "create_owned L s =
     (case validate_id (owner_label (tl_owner L)) (scope_id L) of Inl e \<Rightarrow> (Inl e, s) | Inr _ \<Rightarrow>
      case validate_id ''Tasklist ID'' (tl_id L) of Inl e \<Rightarrow> (Inl e, s) | Inr _ \<Rightarrow>
      case find_slot s (tl_owner L) of
        Some M \<Rightarrow> (Inl (TasklistAlreadyActive (scope_id L) (tl_id M)), s)
      | None \<Rightarrow> if tl_key L \<in> set (dirs s)
                then (Inl (ValidationError ''Tasklist directory already exists''), s)
                else (Inr (), put_meta L (s\<lparr>dirs := List.insert (tl_key L) (dirs s)\<rparr>)))"
  by (cases "tl_owner L")
     (simp_all add: create_owned_def create_def create_for_agent_def lift_res_bind owner_label_def
        scope_id_def find_slot_def tl_key_def write_meta_run err_run split: sum.split option.split)

text \<open>creating a tasklist (\<open>create\<close>, \<open>create_for_agent\<close>). When it succeeds, its ids are valid, its
  directory did not exist and the owner's slot was free; afterwards it reads back as it was
  given, every other tasklist reads as before, the store is well-formed, and it is the only tasklist
  of its owner that can hold the slot. When it fails nothing is written, and it fails with
  \<open>TasklistAlreadyActive\<close> exactly when the ids are valid and the owner's slot is taken.\<close>

theorem create_effect:
  assumes "store_wf s"
  shows "case create_owned L s of
      (Inr _, s') \<Rightarrow>
        list_all valid_id_char (tl_id L) \<and> list_all valid_id_char (scope_id L) \<and>
        tl_key L \<notin> set (dirs s) \<and> slot_holders s (tl_owner L) = [] \<and> store_wf s' \<and>
        store_lookup s' = (store_lookup s)(tl_key L := Some L) \<and>
        slot_holders s' (tl_owner L) = (if occupies_slot L then [L] else [])
    | (Inl e, s') \<Rightarrow> s' = s \<and>
        (case e of TasklistAlreadyActive _ _ \<Rightarrow> True | _ \<Rightarrow> False) =
          (validate_id (owner_label (tl_owner L)) (scope_id L) = Inr () \<and>
           validate_id ''Tasklist ID'' (tl_id L) = Inr () \<and> slot_holders s (tl_owner L) \<noteq> [])"
proof -
  let ?u = "s\<lparr>dirs := List.insert (tl_key L) (dirs s)\<rparr>"
  have v: "list_all valid_id_char i" if "validate_id l i = Inr x" for l i x
    using that by (simp add: validate_id_def split: if_splits)
  have e: "\<not> (case x of TasklistAlreadyActive _ _ \<Rightarrow> True | _ \<Rightarrow> False)" if "validate_id l i = Inl x" for l i x
    using that by (auto simp: validate_id_def split: if_splits)
  have nf: "(find_slot s (tl_owner L) = None) = (slot_holders s (tl_owner L) = [])"
    using find_slot_newest by simp
  have wf: "store_wf (put_meta L ?u)"
    by (rule store_wf_put) (use assms in \<open>auto simp: store_wf_def list_all_iff\<close>)
  have look: "store_lookup (put_meta L ?u) = (store_lookup s)(tl_key L := Some L)"
    by (rule ext) (simp add: store_lookup_eq put_meta_def update_conv')
  have hold: "slot_holders (put_meta L ?u) (tl_owner L) = slot_holders s (tl_owner L) @ (if occupies_slot L then [L] else [])"
    if "tl_key L \<notin> set (dirs s)"
  proof -
    have "tl_key L \<notin> fst ` set (metas s)" using assms that by (auto simp: store_wf_def list_all_iff)
    then show ?thesis
      by (simp add: slot_holders_def owned_def put_meta_def update_fresh) (simp add: tl_key_def)
  qed
  show ?thesis
    using v e nf wf look hold
    by (auto simp: create_owned_run split: sum.split option.split)
qed

lemma create_effect_witness:
  "tl_key (sample_list (OwnerTeam ''T'') ''L'' TlActive []) \<notin> set (dirs (sample_store [])) \<and>
   fst (create_owned (sample_list (OwnerTeam ''T'') ''L'' TlActive []) (sample_store [])) = Inr ()"
  using create_effect [of "sample_store []" "sample_list (OwnerTeam ''T'') ''L'' TlActive []"]
  by (simp add: sample_store_wf create_owned_run validate_id_def valid_id_char_def scope_id_def
      find_slot_def find_active_def list_team_def newest_first_def sample_store_def)

text \<open>the slot is not an invariant of the whole store, only of creation: reviving a terminal
  tasklist through \<open>Paused\<close> while another tasklist of the team is active succeeds, and
  \<open>set_status Active\<close> on it succeeds next, which leaves the team with two active tasklists.\<close>

theorem revival_doubles_the_slot:
  assumes "store_wf s" and "store_lookup s (OwnerTeam tid, i) = Some L" and "i \<noteq> j"
    and "store_lookup s (OwnerTeam tid, j) = Some M" and "tl_status M = TlActive"
    and "tl_status L \<in> {TlCompleted, TlFailed, TlCancelled}"
  shows "case thenE (set_status t1 tid i TlPaused) (set_status t2 tid i TlActive) s of
     (r, s') \<Rightarrow> (case r of Inr _ \<Rightarrow> True | Inl _ \<Rightarrow> False) \<and>
       map_option tl_status (store_lookup s' (OwnerTeam tid, i)) = Some TlActive \<and>
       map_option tl_status (store_lookup s' (OwnerTeam tid, j)) = Some TlActive"
proof -
  have key: "tl_key L = (OwnerTeam tid, i)" using store_lookup_keyD assms by blast
  have "tl_status L \<noteq> TlPaused \<and> team_status_move_allowed (tl_status L) TlPaused"
    using assms(6) by (auto simp: team_status_move_allowed_def)
  moreover have "team_status_move_allowed TlPaused TlActive"
    by (simp add: team_status_move_allowed_def)
  ultimately show ?thesis
    using assms key by (simp add: set_status_def bindE_assoc store_run)
qed

lemma revival_doubles_the_slot_witness:
  "let s = sample_store [sample_list (OwnerTeam ''T'') ''a'' TlCompleted [], sample_list (OwnerTeam ''T'') ''b'' TlActive []]
   in case thenE (set_status 1 ''T'' ''a'' TlPaused) (set_status 2 ''T'' ''a'' TlActive) s of
     (r, s') \<Rightarrow> (case r of Inr _ \<Rightarrow> True | Inl _ \<Rightarrow> False) \<and>
       map_option tl_status (store_lookup s' (OwnerTeam ''T'', ''a'')) = Some TlActive \<and>
       map_option tl_status (store_lookup s' (OwnerTeam ''T'', ''b'')) = Some TlActive"
  unfolding Let_def
  by (rule revival_doubles_the_slot [of _ _ _ "sample_list (OwnerTeam ''T'') ''a'' TlCompleted []" _
        "sample_list (OwnerTeam ''T'') ''b'' TlActive []"]) (simp_all add: sample_store_wf)

end
