(* ===== verification/Store_Concurrency.thy ===== *)
theory Store_Concurrency
  imports Store_Properties
begin

text \<open>
  Interleavings on the store. Every mutator that holds the per-tasklist lock is one atomic step, so
  concurrent dispatchers, watchdogs and reporting agents are a sequence of such steps in some order:
  \<open>shared_run\<close> is an arbitrary one, with the result each caller saw. \<open>bind_copilot_agent_id\<close> takes no
  lock: its read and its write are two steps.
\<close>

section \<open>The steps concurrent actors take\<close>

datatype store_event =
    Begin store_key task_id "ao_error + bool"
  | Reclaim store_key task_id "64 word" "ao_error + reclaim_outcome"
  | Report store_key task_id task_status
  | Close store_key tasklist_status
  | Touch store_key

text \<open>
  The attempt limit \<open>mx\<close> is the feeder's setting. \<open>Report\<close> is an agent's or an operator's report of an
  outcome, \<open>Close\<close> a feeder completing or failing the tasklist, \<open>Touch\<close> the two closures that an
  autonomous feeder passes to \<open>mutate\<close>.
\<close>

inductive shared_step :: "32 word \<Rightarrow> store \<Rightarrow> store_event \<Rightarrow> store \<Rightarrow> bool" for mx where
  step_begin: "try_begin_task_by_owner (fst q) (snd q) k s = (r, s') \<Longrightarrow> shared_step mx s (Begin q k r) s'"
| step_reclaim: "try_reclaim_dispatch_by_owner (fst q) (snd q) k tok mx msg s = (r, s') \<Longrightarrow>
     shared_step mx s (Reclaim q k tok r) s'"
| step_report: "st = Completed \<or> st = Failed \<Longrightarrow> set_task_status_by_owner (fst q) (snd q) k st s = (r, s') \<Longrightarrow>
     shared_step mx s (Report q k st) s'"
| step_close: "st = TlCompleted \<or> st = TlFailed \<Longrightarrow> set_status_by_owner now (fst q) (snd q) st s = (r, s') \<Longrightarrow>
     shared_step mx s (Close q st) s'"
| step_missing: "mutate_by_owner (fst q) (snd q) (fail_missing_executor k reason) s = (r, s') \<Longrightarrow>
     shared_step mx s (Touch q) s'"
| step_comment: "mutate_by_owner (fst q) (snd q) (append_comment_closure k c) s = (r, s') \<Longrightarrow>
     shared_step mx s (Touch q) s'"

inductive shared_run :: "32 word \<Rightarrow> store \<Rightarrow> store_event list \<Rightarrow> store \<Rightarrow> bool" for mx where
  run_nil: "shared_run mx s [] s"
| run_cons: "shared_step mx s e t \<Longrightarrow> shared_run mx t es u \<Longrightarrow> shared_run mx s (e # es) u"

inductive_cases shared_run_ConsE: "shared_run mx s (e # es) u"

definition task_at :: "store \<Rightarrow> store_key \<Rightarrow> task_id \<Rightarrow> task option" where
  "task_at s q k = Option.bind (store_lookup s q) (\<lambda>L. find_task L k)"

text \<open>How far a task is: dispatchable, running, over. No step of a run takes it back.\<close>

definition phase :: "task \<Rightarrow> nat" where
  "phase t = (case t_status t of Pending \<Rightarrow> 0 | Blocked \<Rightarrow> 0 | InProgress \<Rightarrow> 1 | _ \<Rightarrow> 2)"

definition onward :: "task \<Rightarrow> task \<Rightarrow> bool" where
  "onward t t' \<longleftrightarrow> phase t \<le> phase t' \<and> t_attempt_count t' = t_attempt_count t \<and>
     t_dispatch_token t' = t_dispatch_token t"

lemma onward_refl [simp]: "onward t t" by (simp add: onward_def)

lemma rel_onward_refl [simp]: "rel_option onward x x" by (cases x) simp_all

text \<open>What an event means for one task: nothing but \<open>onward\<close>, unless it is this task's claim or reclaim.\<close>

definition task_event :: "32 word \<Rightarrow> store_event \<Rightarrow> store_key \<Rightarrow> task_id \<Rightarrow> task option \<Rightarrow> task option \<Rightarrow> bool" where
  "task_event mx e q k x x' \<longleftrightarrow>
     (case e of
        Begin q' k' (Inr True) \<Rightarrow>
          if q' = q \<and> k' = k
          then \<exists>t t'. x = Some t \<and> x' = Some t' \<and> phase t = 0 \<and> phase t' = 1 \<and> onward t t'
          else rel_option onward x x'
      | Reclaim q' k' tok (Inr (Claimed n tok' t0)) \<Rightarrow>
          if q' = q \<and> k' = k
          then \<exists>t t'. x = Some t \<and> x' = Some t' \<and> phase t = 1 \<and> phase t' = 1 \<and> t_dispatch_token t = tok \<and>
                 t_dispatch_token t' = tok + 1 \<and> sat_inc (t_attempt_count t) < mx \<and>
                 t_attempt_count t' = sat_inc (t_attempt_count t)
          else rel_option onward x x'
      | Reclaim q' k' tok (Inr (Exhausted n)) \<Rightarrow>
          if q' = q \<and> k' = k
          then \<exists>t t'. x = Some t \<and> x' = Some t' \<and> phase t = 1 \<and> phase t' = 2 \<and>
                 t_dispatch_token t' = t_dispatch_token t + 1 \<and> t_attempt_count t' = sat_inc (t_attempt_count t)
          else rel_option onward x x'
      | _ \<Rightarrow> rel_option onward x x')"

lemma find_task_modify_rel:
  assumes "\<And>t. t_id (f t) = t_id t" and "\<And>t. find_task L j = Some t \<Longrightarrow> onward t (f t)"
  shows "rel_option onward (find_task L k) (find_task (modify_task j f L) k)"
proof (cases "k = j")
  case True
  then show ?thesis
    using find_task_modify_same [of f j L, OF assms(1)] assms(2)
    by (cases "find_task L j") auto
next
  case False
  then show ?thesis by (simp add: find_task_modify_other [OF assms(1)])
qed

lemma find_task_map_rel:
  assumes "\<And>t. t_id (f t) = t_id t" and "\<And>t. onward t (f t)"
  shows "rel_option onward (find_task L k) (find_task (map_tasks f L) k)"
  by (cases "find_task L k") (simp_all add: find_task_map_tasks [OF assms(1)] assms(2))

text \<open>Each per-tasklist step, seen from one task of that tasklist.\<close>

lemma begin_event:
  assumes "begin_step j L r L'"
  shows "task_event mx (Begin q j r) q k (find_task L k) (find_task L' k)"
proof (cases "find_task L j")
  case None
  with assms show ?thesis by (simp add: begin_step_def task_event_def)
next
  case (Some t)
  show ?thesis
  proof (cases "t_status t = Pending \<or> t_status t = Blocked")
    case False
    with assms Some show ?thesis by (simp add: begin_step_def task_event_def)
  next
    case True
    then have r: "r = Inr True" "L' = modify_task j (\<lambda>t. t\<lparr>t_status := InProgress\<rparr>) L"
      using assms Some by (auto simp: begin_step_def)
    have ph: "phase t = 0" "phase (t\<lparr>t_status := InProgress\<rparr>) = 1"
      using True by (auto simp: phase_def)
    show ?thesis
    proof (cases "k = j")
      case True
      then show ?thesis using ph Some r
        by (simp add: task_event_def find_task_modify_same onward_def)
    next
      case False
      then show ?thesis using r by (simp add: task_event_def find_task_modify_other)
    qed
  qed
qed

lemma reclaim_event:
  assumes "reclaim_step j tok mx msg L r L'"
  shows "task_event mx (Reclaim q j tok r) q k (find_task L k) (find_task L' k)"
proof (cases "find_task L j")
  case None
  with assms show ?thesis by (simp add: reclaim_step_def task_event_def)
next
  case (Some t)
  show ?thesis
  proof (cases "t_status t = InProgress \<and> t_dispatch_token t = tok")
    case False
    with assms Some show ?thesis by (auto simp: reclaim_step_def task_event_def split: if_splits)
  next
    case True
    show ?thesis
    proof (cases "k = j")
      case True
      have "phase t = 1" "phase (reclaim_bump msg t) = 1"
        "phase ((reclaim_bump msg t)\<lparr>t_status := Failed\<rparr>) = 2"
        using \<open>t_status t = InProgress \<and> _\<close> by (simp_all add: phase_def)
      then show ?thesis
        using assms Some True \<open>t_status t = InProgress \<and> _\<close>
        by (auto simp: reclaim_step_def task_event_def find_task_modify_same split: if_splits)
    next
      case False
      then show ?thesis
        using assms Some by (auto simp: reclaim_step_def task_event_def find_task_modify_other split: if_splits)
    qed
  qed
qed

lemma report_rel:
  assumes "closure_step (set_task_status_closure j st) L r L'" and "st = Completed \<or> st = Failed"
  shows "rel_option onward (find_task L k) (find_task L' k)"
  using assms
  by (auto simp: closure_step_def set_task_status_closure_def onward_def phase_def
      intro!: find_task_modify_rel split: option.splits if_splits task_status.splits)

lemma close_rel:
  "status_step now nxt L r L' \<Longrightarrow> rel_option onward (find_task L k) (find_task L' k)"
  by (auto simp: status_step_def find_task_def)

lemma missing_rel:
  "closure_step (fail_missing_executor j reason) L r L' \<Longrightarrow> rel_option onward (find_task L k) (find_task L' k)"
  by (auto simp: closure_step_def fail_missing_executor_def onward_def phase_def
      intro!: find_task_map_rel split: task_status.splits)

lemma comment_rel:
  "closure_step (append_comment_closure j c) L r L' \<Longrightarrow> rel_option onward (find_task L k) (find_task L' k)"
  by (auto simp: closure_step_def append_comment_closure_def onward_def phase_def
      intro!: find_task_modify_rel split: option.splits sum.splits)

section \<open>One step of a run, seen from one task\<close>

definition event_key :: "store_event \<Rightarrow> store_key" where
  "event_key e = (case e of Begin q _ _ \<Rightarrow> q | Reclaim q _ _ _ \<Rightarrow> q | Report q _ _ \<Rightarrow> q
                            | Close q _ \<Rightarrow> q | Touch q \<Rightarrow> q)"

lemma event_key_simps [simp]:
  "event_key (Begin q k b) = q" "event_key (Reclaim q k tok r) = q" "event_key (Report q k st) = q"
  "event_key (Close q tst) = q" "event_key (Touch q) = q"
  by (simp_all add: event_key_def)

lemma task_event_elsewhere:
  "event_key e \<noteq> q \<Longrightarrow> task_event mx e q k x x"
  by (cases e) (auto simp: task_event_def split: sum.split bool.split reclaim_outcome.split)

lemma task_event_plain [simp]:
  "task_event mx (Report q' j st) q k x x' = rel_option onward x x'"
  "task_event mx (Close q' tst) q k x x' = rel_option onward x x'"
  "task_event mx (Touch q') q k x x' = rel_option onward x x'"
  "task_event mx (Begin q' j (Inl e)) q k x x' = rel_option onward x x'"
  "task_event mx (Reclaim q' j tok (Inl e)) q k x x' = rel_option onward x x'"
  by (simp_all add: task_event_def)

context keyed_op
begin

text \<open>An event of an operation on one record: true of that record's step, and of the others' rest.\<close>

lemma op_event:
  assumes wf: "wf s"
    and miss: "lookup s k = None \<Longrightarrow> P (Inl (missing k)) None None"
    and step: "\<And>v v'. lookup s k = Some v \<Longrightarrow> step v (fst (opn k s)) v' \<Longrightarrow>
        P (fst (opn k s)) (Some v) (Some v')"
  shows "P (fst (opn k s)) (lookup s k) (lookup (snd (opn k s)) k)"
proof (cases "lookup s k")
  case None
  then show ?thesis using miss by (simp add: op_missing)
next
  case (Some v)
  then show ?thesis using op_lookup [OF wf Some] step by auto
qed

end

lemma shared_begin:
  assumes wf: "store_wf s" and run: "try_begin_task_by_owner (fst q) (snd q) j s = (r, s')"
  shows "store_wf s' \<and> task_event mx (Begin q j r) p k (task_at s p k) (task_at s' p k)"
proof -
  have s': "s' = snd (try_begin_task_by_owner (fst q) (snd q) j s)"
    and r: "r = fst (try_begin_task_by_owner (fst q) (snd q) j s)" using run by simp_all
  have "task_event mx (Begin q j r) q k (task_at s q k) (task_at s' q k)"
    unfolding task_at_def s' r
    by (rule begin_op.op_event [where P = "\<lambda>r x x'. task_event mx (Begin q j r) q k
          (Option.bind x (\<lambda>L. find_task L k)) (Option.bind x' (\<lambda>L. find_task L k))", OF wf])
       (use begin_event in simp_all)
  then show ?thesis
    using begin_op.op_wf [OF wf] begin_op.op_frame [OF wf, of p q j]
    by (cases "p = q") (auto simp: s' task_at_def task_event_elsewhere)
qed

lemma shared_reclaim:
  assumes wf: "store_wf s" and run: "try_reclaim_dispatch_by_owner (fst q) (snd q) j tok mx msg s = (r, s')"
  shows "store_wf s' \<and> task_event mx (Reclaim q j tok r) p k (task_at s p k) (task_at s' p k)"
proof -
  have s': "s' = snd (try_reclaim_dispatch_by_owner (fst q) (snd q) j tok mx msg s)"
    and r: "r = fst (try_reclaim_dispatch_by_owner (fst q) (snd q) j tok mx msg s)" using run by simp_all
  have "task_event mx (Reclaim q j tok r) q k (task_at s q k) (task_at s' q k)"
    unfolding task_at_def s' r
    by (rule reclaim_op.op_event [where P = "\<lambda>r x x'. task_event mx (Reclaim q j tok r) q k
          (Option.bind x (\<lambda>L. find_task L k)) (Option.bind x' (\<lambda>L. find_task L k))", OF wf])
       (use reclaim_event in simp_all)
  then show ?thesis
    using reclaim_op.op_wf [OF wf] reclaim_op.op_frame [OF wf, of p q j]
    by (cases "p = q") (auto simp: s' task_at_def task_event_elsewhere)
qed

lemma shared_close:
  assumes wf: "store_wf s" and run: "set_status_by_owner now (fst q) (snd q) st s = (r, s')"
  shows "store_wf s' \<and> rel_option onward (task_at s p k) (task_at s' p k)"
proof -
  have s': "s' = snd (set_status_by_owner now (fst q) (snd q) st s)" using run by simp
  have "rel_option onward (task_at s q k) (task_at s' q k)"
    unfolding task_at_def s'
    by (rule set_status_op.op_event [where P = "\<lambda>r x x'. rel_option onward
          (Option.bind x (\<lambda>L. find_task L k)) (Option.bind x' (\<lambda>L. find_task L k))", OF wf])
       (use close_rel in simp_all)
  then show ?thesis
    using set_status_op.op_wf [OF wf] set_status_op.op_frame [OF wf, of p q now]
    by (cases "p = q") (auto simp: s' task_at_def)
qed

context tasklist_closure
begin

lemma mutated_onward:
  assumes wf: "store_wf s" and run: "mutate_by_owner (fst q) (snd q) f s = (r, s')"
    and step: "\<And>L r L'. closure_step f L r L' \<Longrightarrow> rel_option onward (find_task L k) (find_task L' k)"
  shows "store_wf s' \<and> rel_option onward (task_at s p k) (task_at s' p k)"
proof -
  have s': "s' = snd (mutate_by_owner (fst q) (snd q) f s)" using run by simp
  have "rel_option onward (task_at s q k) (task_at s' q k)"
    unfolding task_at_def s'
    by (rule mutated.op_event [where P = "\<lambda>r x x'. rel_option onward
          (Option.bind x (\<lambda>L. find_task L k)) (Option.bind x' (\<lambda>L. find_task L k))", OF wf])
       (use step in simp_all)
  then show ?thesis
    using mutated.op_wf [OF wf] mutated.op_frame [OF wf, of p q]
    by (cases "p = q") (auto simp: s' task_at_def)
qed

end

lemma shared_report:
  assumes wf: "store_wf s" and st: "st = Completed \<or> st = Failed"
    and run: "set_task_status_by_owner (fst q) (snd q) j st s = (r, s')"
  shows "store_wf s' \<and> rel_option onward (task_at s p k) (task_at s' p k)"
proof -
  have "mutate_by_owner (fst q) (snd q) (set_task_status_closure j st) s =
      (fst (mutate_by_owner (fst q) (snd q) (set_task_status_closure j st) s), s')"
    using run by (auto simp: set_task_status_by_owner_eq bindE_run ok_run prod_eq_iff split: sum.splits)
  then show ?thesis
    by (rule task_status_closure.mutated_onward [OF wf]) (rule report_rel [OF _ st])
qed

lemma shared_step_event:
  assumes "shared_step mx s e s'" and wf: "store_wf s"
  shows "store_wf s' \<and> task_event mx e p k (task_at s p k) (task_at s' p k)"
  using assms(1)
proof (cases rule: shared_step.cases)
  case (step_begin q j r)
  show ?thesis unfolding step_begin(1) by (rule shared_begin [OF wf step_begin(2)])
next
  case (step_reclaim q j tok msg r)
  show ?thesis unfolding step_reclaim(1) by (rule shared_reclaim [OF wf step_reclaim(2)])
next
  case (step_report st q j r)
  show ?thesis unfolding step_report(1) task_event_plain
    by (rule shared_report [OF wf step_report(2,3)])
next
  case (step_close st now q r)
  show ?thesis unfolding step_close(1) task_event_plain by (rule shared_close [OF wf step_close(3)])
next
  case (step_missing q j reason r)
  show ?thesis unfolding step_missing(1) task_event_plain
    by (rule fail_missing.mutated_onward [OF wf step_missing(2)]) (rule missing_rel)
next
  case (step_comment q j c r)
  show ?thesis unfolding step_comment(1) task_event_plain
    by (rule append_comment.mutated_onward [OF wf step_comment(2)]) (rule comment_rel)
qed

section \<open>Mutual exclusion of dispatch\<close>

definition wins :: "store_key \<Rightarrow> task_id \<Rightarrow> store_event \<Rightarrow> bool" where
  "wins q k e = (case e of Begin q' k' (Inr b) \<Rightarrow> b \<and> q' = q \<and> k' = k | _ \<Rightarrow> False)"

definition at_phase :: "nat \<Rightarrow> task option \<Rightarrow> bool" where
  "at_phase n x = (case x of None \<Rightarrow> True | Some t \<Rightarrow> n \<le> phase t)"

text \<open>The tokens with which reclaims of a task were won.\<close>

definition claimed_token :: "store_key \<Rightarrow> task_id \<Rightarrow> store_event \<Rightarrow> 64 word list" where
  "claimed_token q k e =
     (case e of Reclaim q' k' tok (Inr (Claimed _ _ _)) \<Rightarrow> if q' = q \<and> k' = k then [tok] else [] | _ \<Rightarrow> [])"

lemma task_event_cases:
  assumes "task_event mx e q k x x'"
  obtains (quiet) "\<not> wins q k e" "claimed_token q k e = []" "rel_option onward x x'"
  | (won) t t' where "claimed_token q k e = []" "x = Some t" "x' = Some t'" "phase t = 0" "phase t' = 1" "onward t t'"
  | (exhausted) t t' where "\<not> wins q k e" "claimed_token q k e = []" "x = Some t" "x' = Some t'"
      "phase t = 1" "phase t' = 2" "t_dispatch_token t' = t_dispatch_token t + 1"
      "t_attempt_count t' = sat_inc (t_attempt_count t)"
  | (claimed) t t' where "\<not> wins q k e" "claimed_token q k e = [t_dispatch_token t]"
      "x = Some t" "x' = Some t'" "phase t = 1" "phase t' = 1" "t_dispatch_token t' = t_dispatch_token t + 1"
      "sat_inc (t_attempt_count t) < mx" "t_attempt_count t' = sat_inc (t_attempt_count t)"
proof (cases e)
  case (Begin q' k' r)
  show ?thesis
  proof (cases "q' = q \<and> k' = k \<and> r = Inr True")
    case True
    then show ?thesis using assms won by (auto simp: Begin task_event_def claimed_token_def)
  next
    case False
    then have "rel_option onward x x'" "\<not> wins q k e"
      using assms by (auto simp: Begin task_event_def wins_def split: sum.splits bool.splits)
    then show ?thesis using quiet by (simp add: Begin claimed_token_def)
  qed
next
  case (Reclaim q' k' tok r)
  have w: "\<not> wins q k e" by (simp add: Reclaim wins_def)
  show ?thesis
  proof (cases "q' = q \<and> k' = k")
    case True
    show ?thesis
    proof (cases r)
      case (Inl x)
      then show ?thesis using assms w quiet by (simp add: Reclaim claimed_token_def)
    next
      case (Inr out)
      show ?thesis
      proof (cases out)
        case (Claimed n tok' t0)
        then show ?thesis using assms w claimed True Inr
          by (auto simp: Reclaim task_event_def claimed_token_def)
      next
        case (Exhausted n)
        then show ?thesis using assms w exhausted True Inr
          by (auto simp: Reclaim task_event_def claimed_token_def)
      qed (use assms w quiet True Inr in \<open>simp_all add: Reclaim task_event_def claimed_token_def\<close>)
    qed
  next
    case False
    then have "rel_option onward x x'" "claimed_token q k e = []"
      using assms by (auto simp: Reclaim task_event_def claimed_token_def split: sum.splits reclaim_outcome.splits)
    then show ?thesis using w quiet by blast
  qed
qed (use assms quiet in \<open>simp_all add: wins_def claimed_token_def\<close>)

lemma at_phase_onward: "rel_option onward x x' \<Longrightarrow> at_phase n x \<Longrightarrow> at_phase n x'"
  by (cases x; cases x') (auto simp: at_phase_def onward_def)

lemma at_phase_step:
  assumes "task_event mx e q k x x'" and "at_phase n x"
  shows "at_phase n x'"
  using assms(1)
  by (cases rule: task_event_cases) (use assms(2) at_phase_onward in \<open>auto simp: at_phase_def\<close>)

lemma win_phases:
  assumes "task_event mx e q k x x'" and "wins q k e"
  shows "\<not> at_phase 1 x \<and> at_phase 1 x'"
  using assms(1) by (cases rule: task_event_cases) (use assms(2) in \<open>simp_all add: at_phase_def\<close>)

lemma no_win_later:
  assumes "shared_run mx s es s'" and "store_wf s" and "at_phase 1 (task_at s q k)"
  shows "filter (wins q k) es = []"
  using assms
proof induction
  case (run_nil s)
  show ?case by simp
next
  case (run_cons s e t es u)
  note ev = shared_step_event [OF run_cons.hyps(1) run_cons.prems(1), of q k]
  then have "at_phase 1 (task_at t q k)" using run_cons.prems(2) at_phase_step by blast
  moreover have "\<not> wins q k e" using ev run_cons.prems(2) win_phases by blast
  ultimately show ?case using run_cons.IH ev by simp
qed

text \<open>C1: however the claims of any number of concurrent dispatchers are interleaved with each other,
  with watchdog reclaims, outcome reports and tasklist completions, at most one claim of a given
  task succeeds: a task is handed to a first run once, until somebody puts it back to \<open>Pending\<close> or
  \<open>Blocked\<close>.\<close>

theorem dispatch_claim_exclusive:
  assumes "shared_run mx s es s'" and "store_wf s"
  shows "length (filter (wins q k) es) \<le> 1"
  using assms
proof induction
  case (run_nil s)
  show ?case by simp
next
  case (run_cons s e t es u)
  note ev = shared_step_event [OF run_cons.hyps(1) run_cons.prems, of q k]
  show ?case
  proof (cases "wins q k e")
    case True
    then have "at_phase 1 (task_at t q k)" using ev win_phases by blast
    then have "filter (wins q k) es = []" using no_win_later run_cons.hyps(2) ev by blast
    then show ?thesis by simp
  next
    case False
    then show ?thesis using run_cons.IH ev by simp
  qed
qed

definition race_list :: tasklist where
  "race_list = sample_list (OwnerTeam ''T'') ''L'' TlActive [sample_group Seq [sample_task ''a'' ''x'' Pending]]"

lemma race_begin:
  "\<exists>s'. shared_run 3 (sample_store [race_list])
     [Begin (OwnerTeam ''T'', ''L'') ''a'' (Inr True), Begin (OwnerTeam ''T'', ''L'') ''a'' (Inr False)] s'"
  by (intro exI, rule run_cons [OF step_begin run_cons [OF step_begin run_nil]])
     (simp add: try_begin_task_by_owner_def store_run race_list_def find_task_def)+

lemma dispatch_claim_exclusive_witness:
  "\<exists>s' es. shared_run 3 (sample_store [race_list]) es s' \<and> length es = 2 \<and>
     length (filter (wins (OwnerTeam ''T'', ''L'') ''a'') es) \<le> 1"
proof -
  obtain s' where run: "shared_run 3 (sample_store [race_list])
     [Begin (OwnerTeam ''T'', ''L'') ''a'' (Inr True), Begin (OwnerTeam ''T'', ''L'') ''a'' (Inr False)] s'"
    using race_begin by blast
  from dispatch_claim_exclusive [OF run sample_store_wf, of "(OwnerTeam ''T'', ''L'')" "''a''"] run
  show ?thesis by (auto intro!: exI [of _ s'])
qed

definition stuck_list :: tasklist where
  "stuck_list = sample_list (OwnerTeam ''T'') ''L'' TlActive [sample_group Seq [sample_task ''a'' ''x'' InProgress]]"

lemma race_reclaim:
  "\<exists>t s'. shared_run 3 (sample_store [stuck_list])
     [Reclaim (OwnerTeam ''T'', ''L'') ''a'' 0 (Inr (Claimed 1 1 t)), Reclaim (OwnerTeam ''T'', ''L'') ''a'' 0 (Inr Stale)] s'"
  by (intro exI, rule run_cons [OF step_reclaim [where msg = "\<lambda>_. []"] run_cons [OF step_reclaim [where msg = "\<lambda>_. []"] run_nil]])
     (simp add: try_reclaim_dispatch_by_owner_def store_run stuck_list_def find_task_def sat_inc_def word_le_nat_alt)+

section \<open>The mutator without a lock\<close>

text \<open>The documentation says parallel binders of a co-pilot are race-safe, the first writer owning the
  binding for life. Two binders that both read before either writes: both succeed, the first is
  told it owns the binding, and the stored binding is the second's.\<close>

theorem bind_copilot_race:
  assumes "store_wf s" and "store_lookup s (OwnerTeam tid, i) = Some L" and "tl_copilot_agent_id L = None"
  shows "bind_copilot_read tid i s = (Inr L, s) \<and>
     fst (bind_copilot_write L a s) = Inr a \<and>
     fst (bind_copilot_write L b (snd (bind_copilot_write L a s))) = Inr b \<and>
     get_copilot_agent_id (snd (bind_copilot_write L b (snd (bind_copilot_write L a s)))) tid i = Some b"
proof -
  have "tl_key L = (OwnerTeam tid, i)" using store_lookup_keyD assms by blast
  then have key: "tl_key (L\<lparr>tl_copilot_agent_id := x\<rparr>) = (OwnerTeam tid, i)" for x
    by (simp add: tl_key_def)
  have look: "get_copilot_agent_id s' tid i = Option.bind (store_lookup s' (OwnerTeam tid, i)) tl_copilot_agent_id" for s'
    by (simp add: get_copilot_agent_id_def store_lookup_def get_by_owner_def)
  show ?thesis
    using assms by (simp add: bind_copilot_read_def bind_copilot_write_def load_run write_bind ok_run look key)
qed

lemma bind_copilot_race_witness:
  "bind_copilot_read ''T'' ''L'' (sample_store [race_list]) = (Inr race_list, sample_store [race_list]) \<and>
   get_copilot_agent_id (snd (bind_copilot_write race_list ''b''
      (snd (bind_copilot_write race_list ''a'' (sample_store [race_list]))))) ''T'' ''L'' = Some ''b''"
  using bind_copilot_race [of "sample_store [race_list]" "''T''" "''L''" race_list "''a''" "''b''"]
  by (simp add: sample_store_wf race_list_def)

text \<open>the unlocked write also loses other writers' updates. A status change that lands between the
  read and the write of \<open>bind_copilot_agent_id\<close> succeeds and is then undone: the tasklist has the
  status it had when it was read, and its tasks are those of the snapshot.\<close>

theorem bind_copilot_lost_update:
  assumes "store_wf s" and "store_lookup s (OwnerTeam tid, i) = Some L" and "tl_copilot_agent_id L = None"
    and "team_status_move_allowed (tl_status L) nxt" and "tl_status L \<noteq> nxt"
  shows "case set_status now tid i nxt s of (r, s') \<Rightarrow>
     (case r of Inr M \<Rightarrow> tl_status M = nxt \<and> store_lookup s' (OwnerTeam tid, i) = Some M | Inl _ \<Rightarrow> False) \<and>
     store_lookup (snd (bind_copilot_write L a s')) (OwnerTeam tid, i) = Some (L\<lparr>tl_copilot_agent_id := Some a\<rparr>)"
proof -
  have key: "tl_key L = (OwnerTeam tid, i)" using store_lookup_keyD assms by blast
  then have "tl_key (L\<lparr>tl_copilot_agent_id := x\<rparr>) = (OwnerTeam tid, i)" for x
    by (simp add: tl_key_def)
  with key assms show ?thesis
    by (simp add: set_status_def store_run bind_copilot_write_def)
qed

lemma bind_copilot_lost_update_witness:
  "case set_status 5 ''T'' ''L'' TlPaused (sample_store [race_list]) of (r, s') \<Rightarrow>
     (case r of Inr M \<Rightarrow> tl_status M = TlPaused \<and> store_lookup s' (OwnerTeam ''T'', ''L'') = Some M | Inl _ \<Rightarrow> False) \<and>
     store_lookup (snd (bind_copilot_write race_list ''a'' s')) (OwnerTeam ''T'', ''L'')
       = Some (race_list\<lparr>tl_copilot_agent_id := Some ''a''\<rparr>)"
  by (rule bind_copilot_lost_update)
     (simp_all add: sample_store_wf race_list_def team_status_move_allowed_def)

section \<open>Everything the store's methods can reach\<close>

inductive reached :: "store \<Rightarrow> bool" where
  fresh: "reached \<lparr>metas = [], dirs = []\<rparr>"
| created: "reached s \<Longrightarrow> create_owned L s = (r, s') \<Longrightarrow> reached s'"
| status_set: "reached s \<Longrightarrow> set_status_by_owner now ow i st s = (r, s') \<Longrightarrow> reached s'"
| task_set: "reached s \<Longrightarrow> set_task_status_by_owner ow i k tst s = (r, s') \<Longrightarrow> reached s'"
| begun: "reached s \<Longrightarrow> try_begin_task_by_owner ow i k s = (r, s') \<Longrightarrow> reached s'"
| reclaimed: "reached s \<Longrightarrow> try_reclaim_dispatch_by_owner ow i k tok mx msg s = (r, s') \<Longrightarrow> reached s'"
| mutated: "reached s \<Longrightarrow> tasklist_closure (f :: tasklist \<Rightarrow> ao_error + task_id list \<times> tasklist) \<Longrightarrow>
     mutate_by_owner ow i f s = (r, s') \<Longrightarrow> reached s'"
| bound: "reached s \<Longrightarrow> store_lookup s (tl_key snapshot) \<noteq> None \<Longrightarrow>
     bind_copilot_write snapshot aid s = (r, s') \<Longrightarrow> reached s'"

definition plain_key :: "store_key \<Rightarrow> bool" where
  "plain_key q = (list_all valid_id_char (snd q) \<and> snd q \<noteq> [] \<and>
     (case fst q of OwnerTeam x \<Rightarrow> x \<noteq> [] \<and> list_all valid_id_char x
                  | OwnerAgent x \<Rightarrow> x \<noteq> [] \<and> list_all valid_id_char x))"

definition store_safe :: "store \<Rightarrow> bool" where
  "store_safe s \<longleftrightarrow> store_wf s \<and> list_all (\<lambda>e. plain_key (fst e)) (metas s)"

lemma store_safe_alt: "store_safe s \<longleftrightarrow> store_wf s \<and> (\<forall>q. store_lookup s q \<noteq> None \<longrightarrow> plain_key q)"
proof -
  have "list_all (\<lambda>e. plain_key (fst e)) (metas s) \<longleftrightarrow> (\<forall>q. store_lookup s q \<noteq> None \<longrightarrow> plain_key q)"
    by (auto simp: store_lookup_eq list_all_iff map_of_eq_None_iff) (metis fst_conv image_eqI)
  then show ?thesis by (simp add: store_safe_def)
qed

context tasklist_closure
begin

lemmas closure_wf = mutated.op_wf
lemmas closure_keys = mutated.op_keys

end

lemma keys_kept_safe:
  assumes "store_safe s" and "store_wf s'" and "\<And>j. store_lookup s' j = None \<longleftrightarrow> store_lookup s j = None"
  shows "store_safe s'"
  using assms by (simp add: store_safe_alt)

lemma create_safe:
  assumes "store_safe s" and "create_owned L s = (r, s')"
  shows "store_safe s'"
proof (cases r)
  case (Inl e)
  with create_effect [of s L] assms show ?thesis by (simp add: store_safe_def)
next
  case (Inr u)
  then have v: "validate_id (owner_label (tl_owner L)) (scope_id L) = Inr ()"
    "validate_id ''Tasklist ID'' (tl_id L) = Inr ()"
    using assms(2) by (auto simp: create_owned_run split: sum.splits option.splits if_splits)
  then have "plain_key (tl_key L)"
    by (auto simp: plain_key_def tl_key_def validate_id_def scope_id_def split: if_splits tasklist_owner.split)
  moreover have "store_wf s'" "store_lookup s' = (store_lookup s)(tl_key L := Some L)"
    using create_effect [of s L] assms Inr by (simp_all add: store_safe_def)
  ultimately show ?thesis using assms(1) by (simp add: store_safe_alt)
qed

lemma closure_safe:
  assumes "tasklist_closure f" and "store_safe s" and "mutate_by_owner ow i f s = (r, s')"
  shows "store_safe s'"
  using tasklist_closure.closure_wf [OF assms(1), of s "(ow, i)"]
    tasklist_closure.closure_keys [OF assms(1), of s "(ow, i)"] assms(2,3)
  by (intro keys_kept_safe [of s s']) (auto simp: store_safe_def)

text \<open>C32: whatever sequence of store methods runs, from the empty store, with any arguments, any closure
  that does not re-home its tasklist and any stale snapshot, the store stays well-formed - each
  tasklist filed once, under the owner and id it carries, in a directory made for it - and every
  path it writes consists of validated names.\<close>

theorem reached_store_safe:
  assumes "reached s"
  shows "store_safe s"
  using assms
proof induction
  case fresh
  show ?case by (simp add: store_safe_def)
next
  case (created s L r s')
  then show ?case by (blast intro: create_safe)
next
  case (status_set s now ow i st r s')
  then show ?case
    using set_status_op.op_wf [of s now "(ow, i)" st] set_status_op.op_keys [of s now "(ow, i)" st]
    by (intro keys_kept_safe [of s s']) (auto simp: store_safe_def)
next
  case (begun s ow i k r s')
  then show ?case
    using begin_op.op_wf [of s "(ow, i)" k] begin_op.op_keys [of s "(ow, i)" k]
    by (intro keys_kept_safe [of s s']) (auto simp: store_safe_def)
next
  case (reclaimed s ow i k tok mx msg r s')
  then show ?case
    using reclaim_op.op_wf [of s "(ow, i)" k tok mx msg] reclaim_op.op_keys [of s "(ow, i)" k tok mx msg]
    by (intro keys_kept_safe [of s s']) (auto simp: store_safe_def)
next
  case (mutated s f ow i r s')
  then show ?case by (auto intro: closure_safe)
next
  case (bound s snapshot aid r s')
  then show ?case
    by (auto simp: bind_copilot_write_def write_bind ok_run store_safe_alt store_wf_put tl_key_def
        split: option.splits if_splits)
next
  case (task_set s ow i k tst r s')
  have "mutate_by_owner ow i (set_task_status_closure k tst) s =
      (fst (mutate_by_owner ow i (set_task_status_closure k tst) s), s')"
    using task_set.hyps(2)
    by (auto simp: set_task_status_by_owner_eq bindE_run ok_run prod_eq_iff split: sum.splits)
  with task_set.IH show ?case
    by (rule closure_safe [OF task_status_closure.tasklist_closure_axioms])
qed

lemma reached_store_safe_witness:
  "store_safe (snd (create_owned race_list \<lparr>metas = [], dirs = []\<rparr>))"
  by (rule reached_store_safe) (rule reached.created [OF reached.fresh surjective_pairing])

end
