(* ===== verification/Tasklist_Service.thy ===== *)
theory Tasklist_Service
  imports Feeder_Lifecycle
begin

text \<open>
  The changes that the tasklist service (\<open>ao-engine/src/tasklist_service/mod.rs\<close>) makes to a plan in the store,
  for tasklists of one agent: the closures it gives to the store's \<open>mutate_by_owner\<close> and \<open>mutate_for_agent\<close>. What
  surrounds them - a check of a
  snapshot, a call of \<open>advance\<close>, the cancel of a run - is not modelled.
\<close>

definition on_task :: "(task \<Rightarrow> task) \<Rightarrow> task_id \<Rightarrow> tasklist \<Rightarrow> ao_error + unit \<times> tasklist" where
  "on_task f k L =
     (case find_task L k of None \<Rightarrow> Inl (TaskNotFound k) | Some _ \<Rightarrow> Inr ((), modify_task k f L))"

definition skip_pending_closure :: "task_id \<Rightarrow> tasklist \<Rightarrow> ao_error + unit \<times> tasklist" where
  "skip_pending_closure = on_task (\<lambda>t. t\<lparr>t_status := Skipped\<rparr>)"

definition stop_task_closure :: "task_id \<Rightarrow> tasklist \<Rightarrow> ao_error + unit \<times> tasklist" where
  "stop_task_closure =
     on_task (\<lambda>t. t\<lparr>t_status := Stopped, t_assignment := None, t_classifier_token := t_classifier_token t + 1\<rparr>)"

text \<open>\<open>resume_task\<close> and \<open>requeue_task_for_agent\<close>.\<close>

definition requeue_task_closure :: "task_id \<Rightarrow> tasklist \<Rightarrow> ao_error + unit \<times> tasklist" where
  "requeue_task_closure =
     on_task (\<lambda>t. t\<lparr>t_status := Pending, t_assignment := None, t_classifier_token := t_classifier_token t + 1\<rparr>)"

definition cancel_task :: "task \<Rightarrow> task" where
  "cancel_task t =
     (if t_status t \<in> {Pending, Blocked, InProgress} then t\<lparr>t_status := Skipped\<rparr> else t)"

definition cancel_agent_closure :: "tasklist \<Rightarrow> ao_error + task_id list \<times> tasklist" where
  "cancel_agent_closure L =
     (if \<not> (tl_status L = TlActive \<or> tl_status L = TlPaused \<or> tl_status L = TlFailed)
      then Inl (InvalidTasklistTransition (RefusedTasklist ''stop'' (tl_id L) (tl_status L)))
      else Inr (map t_id (filter (\<lambda>t. t_status t = InProgress) (all_tasks L)),
                map_tasks cancel_task (L\<lparr>tl_status := TlCancelled\<rparr>)))"

text \<open>\<open>resume_for_agent\<close> resets the failed tasks like \<open>continue\<close>, without a look at the status it finds.\<close>

definition resume_agent_closure :: "tasklist \<Rightarrow> ao_error + nat \<times> tasklist" where
  "resume_agent_closure L =
     Inr (length (failed_ids L), map_tasks reset_failed_task (L\<lparr>tl_status := TlActive\<rparr>))"

text \<open>\<open>add_tasks\<close> puts a task into the last group where that has the mode asked for, else into a new one.\<close>

definition add_task_closure :: "string \<Rightarrow> task_group_mode \<Rightarrow> task \<Rightarrow> tasklist \<Rightarrow> ao_error + unit \<times> tasklist" where
  "add_task_closure new_group_id mode new_task L =
     Inr ((),
       if tl_groups L \<noteq> [] \<and> g_mode (last (tl_groups L)) = mode
       then let g = last (tl_groups L)
            in L\<lparr>tl_groups := butlast (tl_groups L) @
                 [g\<lparr>g_tasks := g_tasks g @ [new_task\<lparr>t_group_id := g_id g\<rparr>]\<rparr>]\<rparr>
       else L\<lparr>tl_groups := tl_groups L @
              [\<lparr>g_id = new_group_id, g_mode = mode, g_tasks = [new_task\<lparr>t_group_id := new_group_id\<rparr>]\<rparr>]\<rparr>)"

definition append_group_closure :: "task_group \<Rightarrow> tasklist \<Rightarrow> ao_error + unit \<times> tasklist" where
  "append_group_closure new_group L = Inr ((), L\<lparr>tl_groups := tl_groups L @ [new_group]\<rparr>)"

definition edit_task_closure ::
    "string option \<Rightarrow> agent_id option \<Rightarrow> string list option \<Rightarrow> task_id \<Rightarrow> tasklist \<Rightarrow> ao_error + unit \<times> tasklist" where
  "edit_task_closure prompt owner_agent_id expected_outputs =
     on_task (\<lambda>t.
       let t1 = (case prompt of None \<Rightarrow> t | Some v \<Rightarrow> t\<lparr>t_prompt := v\<rparr>);
           t2 = (case owner_agent_id of None \<Rightarrow> t1 | Some v \<Rightarrow> t1\<lparr>t_owner_agent_id := v\<rparr>)
       in case expected_outputs of None \<Rightarrow> t2 | Some v \<Rightarrow> t2\<lparr>t_expected_outputs := v\<rparr>)"

definition add_comment_closure :: "task_comment \<Rightarrow> task_id \<Rightarrow> tasklist \<Rightarrow> ao_error + unit \<times> tasklist" where
  "add_comment_closure stored = on_task (\<lambda>t. t\<lparr>t_comments := t_comments t @ [stored]\<rparr>)"

definition start_closure :: "tasklist \<Rightarrow> ao_error + unit \<times> tasklist" where
  "start_closure L =
     (if \<not> (tl_status L = TlPaused \<or> tl_status L = TlActive)
      then Inl (InvalidTasklistTransition (RefusedTasklist ''start'' (tl_id L) (tl_status L)))
      else Inr ((), L\<lparr>tl_status := TlActive\<rparr>))"

text \<open>The stamp of a new tasklist with its project and thread (\<open>create_for_agent_with_project\<close>).\<close>

definition stamp_closure :: "string option \<Rightarrow> string option \<Rightarrow> tasklist \<Rightarrow> ao_error + unit \<times> tasklist" where
  "stamp_closure project_id thread_id L =
     (let L1 = (case project_id of None \<Rightarrow> L | Some p \<Rightarrow> L\<lparr>tl_project_id := Some p\<rparr>)
      in Inr ((), case thread_id of None \<Rightarrow> L1 | Some h \<Rightarrow> L1\<lparr>tl_thread_id := Some h\<rparr>))"

text \<open>The classifier's answer lands only while the task has the classifier token it was asked under.\<close>

definition set_assignment_closure ::
    "64 word \<Rightarrow> task_assignment option \<Rightarrow> task_id \<Rightarrow> tasklist \<Rightarrow> ao_error + unit \<times> tasklist" where
  "set_assignment_closure expected_token assignment k L =
     Inr ((), modify_task k
       (\<lambda>t. if t_classifier_token t \<noteq> expected_token then t
            else t\<lparr>t_assignment := assignment, t_classifier_token := t_classifier_token t + 1\<rparr>) L)"

end
