(* ===== verification/Store_Recoveries.thy ===== *)
theory Store_Recoveries
  imports Store_Concurrency Tasklist_Service
begin

text \<open>
  Recoveries of a task over its whole life: the steps of \<open>Store_Concurrency\<close> interleaved with the status changes
  and with every locked rewriting of a plan by the operator or the service - among them \<open>continue\<close> and
  \<open>resume_for_agent\<close>, which reset the attempt count of failed tasks.
\<close>

section \<open>What a rewriting of the plan keeps\<close>

text \<open>A task stays, keeps its dispatch token, and unless the writer resets, its attempt count does not fall; new tasks may
  be added.\<close>

definition keeps_task :: "bool \<Rightarrow> task \<Rightarrow> task \<Rightarrow> bool" where
  "keeps_task resets t t' \<longleftrightarrow> t_dispatch_token t' = t_dispatch_token t \<and>
     (resets \<or> t_attempt_count t \<le> t_attempt_count t')"

locale plan_writer = tasklist_closure f for f :: "tasklist \<Rightarrow> ao_error + 'b \<times> tasklist" +
  fixes resets :: bool
  assumes keeps: "f L = Inr (b, M) \<Longrightarrow> find_task L k = Some t \<Longrightarrow>
    \<exists>t'. find_task M k = Some t' \<and> keeps_task resets t t'"

lemma keeps_task_refl: "keeps_task resets t t"
  by (simp add: keeps_task_def)

lemma modify_keeps:
  assumes "find_task L k = Some t" and "\<And>t. t_id (g t) = t_id t" and "\<And>t. keeps_task resets t (g t)"
  shows "\<exists>t'. find_task (modify_task j g L) k = Some t' \<and> keeps_task resets t t'"
  using assms(1,3) keeps_task_refl
  by (cases "k = j") (auto simp: find_task_modify_same [OF assms(2)] find_task_modify_other [OF assms(2)])

lemma map_keeps:
  assumes "find_task L k = Some t" and "\<And>t. t_id (g t) = t_id t" and "\<And>t. keeps_task resets t (g t)"
  shows "\<exists>t'. find_task (map_tasks g L) k = Some t' \<and> keeps_task resets t t'"
  using assms(1,3) by (auto simp: find_task_map_tasks [OF assms(2)])

lemma find_Some_append: "List.find P xs = Some x \<Longrightarrow> List.find P (xs @ ys) = Some x"
  by (induction xs) (auto split: if_splits)

lemma added_keeps:
  assumes "find_task L k = Some t" and "all_tasks M = all_tasks L @ ts"
  shows "\<exists>t'. find_task M k = Some t' \<and> keeps_task resets t t'"
  using find_Some_append [OF assms(1) [unfolded find_task_def], of ts] keeps_task_refl [of resets t]
  by (simp add: find_task_def assms(2))

lemma status_change [simp]:
  "find_task (L\<lparr>tl_status := st\<rparr>) k = find_task L k" "tl_key (L\<lparr>tl_status := st\<rparr>) = tl_key L"
  by (simp_all add: find_task_def all_tasks_def tl_key_def)

lemma keeps_tasks [simp]:
  "keeps_task True t (reset_failed_task t)" "keeps_task r t (discard_task t)" "keeps_task r t (cancel_task t)"
  "keeps_task r t (t\<lparr>t_status := st\<rparr>)" "keeps_task r t t"
  "keeps_task r t (t\<lparr>t_assignment := a, t_classifier_token := n\<rparr>)"
  "t_id (reset_failed_task t) = t_id t" "t_id (discard_task t) = t_id t" "t_id (cancel_task t) = t_id t"
  by (simp_all add: keeps_task_def reset_failed_task_def discard_task_def cancel_task_def)

text \<open>The writers of \<open>lifecycle.rs\<close> and of the service.\<close>

interpretation continue_writer: plan_writer continue_closure True
  by unfold_locales (auto simp: continue_closure_def split: if_splits intro!: map_keeps)

interpretation skip_writer: plan_writer "skip_closure k" False for k
  by unfold_locales (auto simp: skip_closure_def Let_def split: option.splits if_splits intro!: modify_keeps)

interpretation discard_writer: plan_writer discard_closure False
  by unfold_locales (auto simp: discard_closure_def split: if_splits intro!: map_keeps)

lemma on_task_writer:
  assumes "\<And>t. t_id (g t) = t_id t" and "\<And>t. keeps_task False t (g t)"
  shows "plan_writer (on_task g k) False"
  by unfold_locales (use assms in \<open>auto simp: on_task_def split: option.splits intro!: modify_keeps\<close>)

interpretation skip_pending_writer: plan_writer "skip_pending_closure k" False for k
  unfolding skip_pending_closure_def by (rule on_task_writer) (simp_all add: keeps_task_def)

interpretation stop_writer: plan_writer "stop_task_closure k" False for k
  unfolding stop_task_closure_def by (rule on_task_writer) (simp_all add: keeps_task_def)

interpretation requeue_writer: plan_writer "requeue_task_closure k" False for k
  unfolding requeue_task_closure_def by (rule on_task_writer) (simp_all add: keeps_task_def)

interpretation edit_writer: plan_writer "edit_task_closure prompt owner outputs k" False for prompt owner outputs k
  unfolding edit_task_closure_def
  by (rule on_task_writer) (simp_all add: keeps_task_def Let_def split: option.split)

interpretation comment_writer: plan_writer "add_comment_closure c k" False for c k
  unfolding add_comment_closure_def by (rule on_task_writer) (simp_all add: keeps_task_def)

interpretation cancel_writer: plan_writer cancel_agent_closure False
  by unfold_locales (auto simp: cancel_agent_closure_def split: if_splits intro!: map_keeps)

interpretation resume_writer: plan_writer resume_agent_closure True
  by unfold_locales (auto simp: resume_agent_closure_def intro!: map_keeps)

interpretation start_writer: plan_writer start_closure False
  by unfold_locales (auto simp: start_closure_def keeps_task_def split: if_splits)

interpretation stamp_writer: plan_writer "stamp_closure p h" False for p h
  by unfold_locales
    (auto simp: stamp_closure_def keeps_task_def Let_def tl_key_def find_task_def all_tasks_def split: option.splits)

interpretation assignment_writer: plan_writer "set_assignment_closure token a k" False for token a k
  by unfold_locales
    (auto simp: set_assignment_closure_def intro!: modify_keeps)

lemma add_task_shape:
  assumes "add_task_closure gid mode t L = Inr (b, M)"
  shows "tl_key M = tl_key L" and "\<exists>ts. all_tasks M = all_tasks L @ ts"
proof -
  have last: "concat (map g_tasks (butlast gs)) @ g_tasks (last gs) @ ts = concat (map g_tasks gs) @ ts"
    if "gs \<noteq> []" for gs :: "task_group list" and ts
    using that by (induction gs) auto
  show "tl_key M = tl_key L" using assms by (auto simp: add_task_closure_def Let_def tl_key_def split: if_splits)
  show "\<exists>ts. all_tasks M = all_tasks L @ ts"
  proof (cases "tl_groups L \<noteq> [] \<and> g_mode (last (tl_groups L)) = mode")
    case True
    then have "all_tasks M = all_tasks L @ [t\<lparr>t_group_id := g_id (last (tl_groups L))\<rparr>]"
      using assms by (auto simp: add_task_closure_def Let_def all_tasks_def last)
    then show ?thesis ..
  next
    case False
    then have "all_tasks M = all_tasks L @ [t\<lparr>t_group_id := gid\<rparr>]"
      using assms by (auto simp: add_task_closure_def all_tasks_def)
    then show ?thesis ..
  qed
qed

interpretation add_task_writer: plan_writer "add_task_closure gid mode t" False for gid mode t
proof unfold_locales
  fix L b M k u
  assume M: "add_task_closure gid mode t L = Inr (b, M)"
  show "tl_key M = tl_key L" by (rule add_task_shape [OF M])
  show "\<exists>u'. find_task M k = Some u' \<and> keeps_task False u u'" if "find_task L k = Some u"
    using add_task_shape(2) [OF M] added_keeps [OF that] by blast
qed

interpretation append_group_writer: plan_writer "append_group_closure g" False for g
  by unfold_locales
    (auto simp: append_group_closure_def tl_key_def all_tasks_def intro!: added_keeps [where ts = "g_tasks g"])

section \<open>Runs with rewritings\<close>

datatype plan_event = Shared store_event | Restatus store_key | Rewritten store_key bool

inductive plan_step :: "32 word \<Rightarrow> store \<Rightarrow> plan_event \<Rightarrow> store \<Rightarrow> bool" for mx where
  step_shared: "shared_step mx s e s' \<Longrightarrow> plan_step mx s (Shared e) s'"
| step_status: "set_status_by_owner now (fst q) (snd q) st s = (r, s') \<Longrightarrow> plan_step mx s (Restatus q) s'"
| step_rewritten: "plan_writer (f :: tasklist \<Rightarrow> ao_error + task_id list \<times> tasklist) resets \<Longrightarrow>
     mutate_by_owner (fst q) (snd q) f s = (r, s') \<Longrightarrow>
     plan_step mx s (Rewritten q resets) s'"
| step_rewritten_unit: "plan_writer (g :: tasklist \<Rightarrow> ao_error + unit \<times> tasklist) resets \<Longrightarrow>
     mutate_by_owner (fst q) (snd q) g s = (r', s') \<Longrightarrow>
     plan_step mx s (Rewritten q resets) s'"
| step_rewritten_count: "plan_writer (h :: tasklist \<Rightarrow> ao_error + nat \<times> tasklist) resets \<Longrightarrow>
     mutate_by_owner (fst q) (snd q) h s = (r'', s') \<Longrightarrow>
     plan_step mx s (Rewritten q resets) s'"

inductive plan_run :: "32 word \<Rightarrow> store \<Rightarrow> plan_event list \<Rightarrow> store \<Rightarrow> bool" for mx where
  plan_nil: "plan_run mx s [] s"
| plan_cons: "plan_step mx s e t \<Longrightarrow> plan_run mx t es u \<Longrightarrow> plan_run mx s (e # es) u"

inductive_cases plan_run_ConsE: "plan_run mx s (e # es) u"

definition recovery_token :: "store_key \<Rightarrow> task_id \<Rightarrow> plan_event \<Rightarrow> 64 word list" where
  "recovery_token q k e = (case e of Shared e' \<Rightarrow> claimed_token q k e' | _ \<Rightarrow> [])"

definition recovery_tokens :: "store_key \<Rightarrow> task_id \<Rightarrow> plan_event list \<Rightarrow> 64 word list" where
  "recovery_tokens q k es = concat (map (recovery_token q k) es)"

text \<open>A step for one task: it may appear, but not vanish; its token moves by at most one, the count does not fall, and a
  reclaim moves both.\<close>

definition counted :: "32 word \<Rightarrow> bool \<Rightarrow> 64 word list \<Rightarrow> task option \<Rightarrow> task option \<Rightarrow> bool" where
  "counted mx resets toks x x' \<longleftrightarrow>
     (case x of
        None \<Rightarrow> toks = []
      | Some t \<Rightarrow> (\<exists>t'. x' = Some t' \<and>
          (toks = [] \<and> t_dispatch_token t' \<in> {t_dispatch_token t, t_dispatch_token t + 1} \<and>
             (resets \<or> t_attempt_count t \<le> t_attempt_count t')
           \<or> toks = [t_dispatch_token t] \<and> t_dispatch_token t' = t_dispatch_token t + 1 \<and>
             unat (t_attempt_count t') = Suc (unat (t_attempt_count t)) \<and> t_attempt_count t' < mx)))"

lemma counted_onward: "rel_option onward x x' \<Longrightarrow> counted mx resets [] x x'"
  by (cases x; cases x') (auto simp: counted_def onward_def)

lemma unat_sat_inc_below: "sat_inc w < m \<Longrightarrow> unat (sat_inc w) = Suc (unat w)"
  for w m :: "'a::len word"
proof -
  assume "sat_inc w < m"
  then have "unat (sat_inc w) < unat m" by (simp add: word_less_nat_alt)
  moreover have "unat m < 2 ^ LENGTH('a)" by (rule unsigned_less)
  then have "unat m \<le> 2 ^ LENGTH('a) - 1" by linarith
  ultimately show ?thesis by (auto simp: unat_sat_inc min_def split: if_splits)
qed

lemma sat_inc_grows: "w \<le> sat_inc w" for w :: "'a::len word"
  using unat_le_sat_inc [of w] by (simp add: word_le_nat_alt)

lemma counted_shared:
  assumes "task_event mx e q k x x'"
  shows "counted mx resets (claimed_token q k e) x x'"
  using assms
proof (cases rule: task_event_cases)
  case quiet
  then show ?thesis by (simp add: counted_onward)
next
  case (won t t')
  then show ?thesis by (simp add: counted_def onward_def)
next
  case (exhausted t t')
  then show ?thesis by (simp add: counted_def sat_inc_grows)
next
  case (claimed t t')
  then show ?thesis using unat_sat_inc_below [of "t_attempt_count t" mx] by (simp add: counted_def)
qed

context plan_writer
begin

lemma rewritten_counted:
  assumes wf: "store_wf s" and run: "mutate_by_owner (fst p) (snd p) f s = (r, s')"
  shows "store_wf s' \<and> counted mx (p = q \<and> resets) [] (task_at s q k) (task_at s' q k)"
proof -
  have s': "s' = snd (mutate_by_owner (fst p) (snd p) f s)" using run by simp
  have own: "counted mx resets [] (find_task L k) (find_task M k)" if "closure_step f L r M" for L r M
  proof (cases "f L")
    case (Inl e)
    with that have "M = L" by (auto simp: closure_step_def)
    then show ?thesis by (simp add: counted_onward)
  next
    case (Inr bM)
    then have "f L = Inr (fst bM, M)" using that by (cases bM) (auto simp: closure_step_def)
    from keeps [OF this, of k] show ?thesis by (auto simp: counted_def keeps_task_def split: option.split)
  qed
  have "counted mx resets [] (task_at s p k) (task_at s' p k)"
    unfolding task_at_def s'
    by (rule mutated.op_event [where P = "\<lambda>r x x'. counted mx resets []
          (Option.bind x (\<lambda>L. find_task L k)) (Option.bind x' (\<lambda>L. find_task L k))", OF wf])
       (use own in \<open>simp_all add: counted_onward\<close>)
  then show ?thesis
    using mutated.op_wf [OF wf, of p] mutated.op_frame [OF wf, of q p]
    by (cases "p = q") (auto simp: s' task_at_def counted_onward)
qed

end

definition event_resets :: "store_key \<Rightarrow> plan_event \<Rightarrow> bool" where
  "event_resets q e \<longleftrightarrow> e = Rewritten q True"

lemma counted_step:
  assumes "plan_step mx s e s'" and wf: "store_wf s"
  shows "store_wf s' \<and> counted mx (event_resets q e) (recovery_token q k e) (task_at s q k) (task_at s' q k)"
  using assms(1)
proof (cases rule: plan_step.cases)
  case (step_shared e')
  from shared_step_event [OF step_shared(2) wf, of q k] show ?thesis
    using counted_shared by (simp add: step_shared(1) recovery_token_def)
next
  case (step_status now p st r)
  from shared_close [OF wf step_status(2), of q k]
  show ?thesis by (simp add: step_status(1) recovery_token_def counted_onward)
next
  case (step_rewritten f resets p r)
  from plan_writer.rewritten_counted [OF step_rewritten(2) wf step_rewritten(3), of mx q k]
  show ?thesis by (cases resets) (simp_all add: step_rewritten(1) recovery_token_def event_resets_def)
next
  case (step_rewritten_unit g resets p r)
  from plan_writer.rewritten_counted [OF step_rewritten_unit(2) wf step_rewritten_unit(3), of mx q k]
  show ?thesis by (cases resets) (simp_all add: step_rewritten_unit(1) recovery_token_def event_resets_def)
next
  case (step_rewritten_count h resets p r)
  from plan_writer.rewritten_counted [OF step_rewritten_count(2) wf step_rewritten_count(3), of mx q k]
  show ?thesis by (cases resets) (simp_all add: step_rewritten_count(1) recovery_token_def event_resets_def)
qed

lemma recovery_tokens_simps [simp]:
  "recovery_tokens q k [] = []" "recovery_tokens q k (e # es) = recovery_token q k e @ recovery_tokens q k es"
  by (simp_all add: recovery_tokens_def)

text \<open>The tokens are those of the file - from where the task appears - moved by growing distances.\<close>

definition distances :: "64 word \<Rightarrow> nat \<Rightarrow> 64 word list \<Rightarrow> bool" where
  "distances tok m toks \<longleftrightarrow>
     (\<exists>ns. sorted_wrt (<) ns \<and> (\<forall>n\<in>set ns. n < m) \<and> toks = map (\<lambda>n. tok + of_nat n) ns)"

lemma distancesI:
  "sorted_wrt (<) ns \<Longrightarrow> \<forall>n\<in>set ns. n < m \<Longrightarrow> toks = map (\<lambda>n. tok + of_nat n) ns \<Longrightarrow> distances tok m toks"
  unfolding distances_def by blast

lemma distances_later: "distances tok m toks \<Longrightarrow> distances tok (Suc m) toks"
  by (auto simp: distances_def[of tok m] intro: less_SucI intro!: distancesI)

lemma distances_on:
  assumes "distances (tok + 1) m toks"
  shows "distances tok (Suc m) toks" and "distances tok (Suc m) (tok # toks)"
proof -
  from assms obtain ns where ns: "sorted_wrt (<) ns" "\<forall>n\<in>set ns. n < m" "toks = map (\<lambda>n. tok + 1 + of_nat n) ns"
    unfolding distances_def by blast
  then have toks: "toks = map (\<lambda>n. tok + of_nat n) (map Suc ns)" by (simp add: add.assoc)
  show "distances tok (Suc m) toks"
    by (rule distancesI [OF _ _ toks]) (use ns in \<open>auto simp: sorted_wrt_map\<close>)
  show "distances tok (Suc m) (tok # toks)"
    by (rule distancesI [of "0 # map Suc ns"]) (use ns toks in \<open>auto simp: sorted_wrt_map\<close>)
qed

lemma tokens_grow:
  assumes "plan_run mx s es s'" and "store_wf s"
  shows "\<exists>tok. (\<forall>t. task_at s q k = Some t \<longrightarrow> tok = t_dispatch_token t) \<and>
    distances tok (length es) (recovery_tokens q k es)"
  using assms
proof (induction rule: plan_run.induct)
  case (plan_nil s)
  show ?case by (cases "task_at s q k") (auto simp: distances_def)
next
  case (plan_cons s e m es u)
  note c = counted_step [OF plan_cons.hyps(1) plan_cons.prems(1), of q k]
  with plan_cons.IH obtain tok where IH: "\<forall>t. task_at m q k = Some t \<longrightarrow> tok = t_dispatch_token t"
    "distances tok (length es) (recovery_tokens q k es)" by blast
  show ?case
  proof (cases "task_at s q k")
    case None
    with c have "recovery_token q k e = []" by (simp add: counted_def)
    with None distances_later [OF IH(2)] show ?thesis by auto
  next
    case (Some t)
    with c IH(1) consider "recovery_token q k e = []" "tok = t_dispatch_token t"
      | "recovery_token q k e = []" "tok = t_dispatch_token t + 1"
      | "recovery_token q k e = [t_dispatch_token t]" "tok = t_dispatch_token t + 1"
      by (auto simp: counted_def)
    then show ?thesis
      using Some distances_later [of tok] distances_on [of "t_dispatch_token t"] IH(2) by cases auto
  qed
qed

definition attempts :: "task option \<Rightarrow> nat" where
  "attempts x = (case x of None \<Rightarrow> 0 | Some t \<Rightarrow> unat (t_attempt_count t))"

lemma count_grows:
  assumes "plan_run mx s es s'" and "store_wf s" and "\<forall>e\<in>set es. \<not> event_resets q e"
  shows "recovery_tokens q k es = [] \<or> attempts (task_at s q k) + length (recovery_tokens q k es) < unat mx"
  using assms
proof (induction rule: plan_run.induct)
  case (plan_cons s e m es u)
  note c = counted_step [OF plan_cons.hyps(1) plan_cons.prems(1), of q k]
  from plan_cons.IH c plan_cons.prems(2) have IH: "recovery_tokens q k es = [] \<or>
      attempts (task_at m q k) + length (recovery_tokens q k es) < unat mx" by simp
  have "recovery_token q k e = [] \<and> attempts (task_at s q k) \<le> attempts (task_at m q k) \<or>
    length (recovery_token q k e) = 1 \<and> attempts (task_at m q k) = Suc (attempts (task_at s q k)) \<and>
      attempts (task_at m q k) < unat mx"
    using c plan_cons.prems(2)
    by (auto simp: counted_def attempts_def word_le_nat_alt word_less_nat_alt split: option.splits)
  with IH show ?case by auto
qed simp

lemma plan_run_split:
  assumes "plan_run mx s (xs @ ys) u" and "store_wf s"
  obtains t where "plan_run mx t ys u" "store_wf t" "plan_run mx s xs t"
  using assms
proof (induction xs arbitrary: s thesis)
  case Nil
  then show ?case using plan_nil by auto
next
  case (Cons e xs)
  from Cons.prems(2) have "plan_run mx s (e # (xs @ ys)) u" by simp
  then obtain m where m: "plan_step mx s e m" "plan_run mx m (xs @ ys) u" by (rule plan_run_ConsE)
  have "store_wf m" using counted_step [OF m(1) Cons.prems(3)] by blast
  show ?case
  proof (rule Cons.IH [OF _ m(2) \<open>store_wf m\<close>])
    fix t assume "plan_run mx t ys u" "store_wf t" "plan_run mx m xs t"
    then show thesis using Cons.prems(1) plan_cons [OF m(1)] by blast
  qed
qed

lemma distinct_tokens:
  assumes "distances tok m toks" and "m \<le> 2 ^ 64"
  shows "distinct toks"
proof -
  from assms(1) obtain ns where ns: "sorted_wrt (<) ns" "\<forall>n\<in>set ns. n < m" "toks = map (\<lambda>n. tok + of_nat n) ns"
    unfolding distances_def by blast
  have "inj_on (\<lambda>n. tok + of_nat n) (set ns)"
  proof (rule inj_onI)
    fix i j assume ij: "i \<in> set ns" "j \<in> set ns" and "tok + of_nat i = tok + of_nat j"
    then have "(of_nat i :: 64 word) = of_nat j" by simp
    moreover have "i < 2 ^ 64" "j < 2 ^ 64" using ij ns(2) assms(2) by auto
    ultimately show "i = j" by (simp add: word_of_nat_eq_iff take_bit_nat_eq_self)
  qed
  then show ?thesis using ns(1,3) by (simp add: distinct_map strict_sorted_iff)
qed

text \<open>C4: However claims, reclaims, reports, completions, status changes and locked rewritings of a
  plan - the operator's \<open>continue\<close> and the service's \<open>resume_for_agent\<close> with their resets among them - are interleaved, no two
  recoveries of a task are won with the same dispatch token, in a run of up to \<open>2 ^ 64\<close> steps; and as long as
  nobody resets the failed tasks of its plan, fewer recoveries of a task are won than the attempt limit, none when
  the limit is 0.\<close>

theorem recoveries_unique_and_bounded:
  assumes "plan_run mx s es s'" and "store_wf s"
  shows "(length es \<le> 2 ^ 64 \<longrightarrow> distinct (recovery_tokens q k es)) \<and>
    (\<forall>xs ys zs. es = xs @ ys @ zs \<and> (\<forall>e\<in>set ys. \<not> event_resets q e) \<longrightarrow>
       length (recovery_tokens q k ys) \<le> unat mx - 1)"
proof (intro conjI impI allI)
  assume "length es \<le> 2 ^ 64"
  with tokens_grow [OF assms] distinct_tokens show "distinct (recovery_tokens q k es)" by blast
next
  fix xs ys zs assume es: "es = xs @ ys @ zs \<and> (\<forall>e\<in>set ys. \<not> event_resets q e)"
  from assms es obtain t where t: "plan_run mx t (ys @ zs) s'" "store_wf t" by (blast elim: plan_run_split)
  from plan_run_split [OF this] obtain u where "plan_run mx t ys u" .
  from count_grows [OF this t(2), of q k] es show "length (recovery_tokens q k ys) \<le> unat mx - 1"
    by (cases "recovery_tokens q k ys = []") auto
qed

lemma recovery_after_continue:
  "\<exists>t t' u. plan_run 3 (sample_store [stuck_list])
     [Shared (Reclaim (OwnerTeam ''T'', ''L'') ''a'' 0 (Inr (Claimed 1 1 t))),
      Rewritten (OwnerTeam ''T'', ''L'') True,
      Shared (Reclaim (OwnerTeam ''T'', ''L'') ''a'' 1 (Inr (Claimed 2 2 t')))] u"
  by (intro exI, rule plan_cons [OF step_shared [OF step_reclaim [where msg = "\<lambda>_. []"]]
        plan_cons [OF step_rewritten [OF continue_writer.plan_writer_axioms]
        plan_cons [OF step_shared [OF step_reclaim [where msg = "\<lambda>_. []"]] plan_nil]]])
     (simp add: try_reclaim_dispatch_by_owner_def mutate_by_owner_def continue_closure_def store_run stuck_list_def
       find_task_def sat_inc_def word_le_nat_alt)+

theorem recoveries_unique_and_bounded_witness:
  "\<exists>es u. plan_run 3 (sample_store [stuck_list]) es u \<and> length es = 3 \<and>
     distinct (recovery_tokens (OwnerTeam ''T'', ''L'') ''a'' es) \<and>
     length (recovery_tokens (OwnerTeam ''T'', ''L'') ''a'' (take 1 es)) \<le> 2"
proof -
  obtain t t' u where run: "plan_run 3 (sample_store [stuck_list])
     [Shared (Reclaim (OwnerTeam ''T'', ''L'') ''a'' 0 (Inr (Claimed 1 1 t))),
      Rewritten (OwnerTeam ''T'', ''L'') True,
      Shared (Reclaim (OwnerTeam ''T'', ''L'') ''a'' 1 (Inr (Claimed 2 2 t')))] u" (is "plan_run _ _ ?es _")
    using recovery_after_continue by blast
  note r = recoveries_unique_and_bounded [OF run sample_store_wf, of "(OwnerTeam ''T'', ''L'')" "''a''"]
  have wf: "distinct (map tl_key [stuck_list])" by simp
  have split: "?es = [] @ take 1 ?es @ drop 1 ?es \<and> (\<forall>e\<in>set (take 1 ?es). \<not> event_resets (OwnerTeam ''T'', ''L'') e)"
    by (simp add: event_resets_def)
  have "length (recovery_tokens (OwnerTeam ''T'', ''L'') ''a'' (take 1 ?es)) \<le> unat (3 :: 32 word) - 1"
    using r [OF wf, THEN conjunct2] split by blast
  with r [OF wf] run show ?thesis by (intro exI [of _ ?es] exI [of _ u]) simp
qed

end
