(* ===== verification/Feeder_Calls.thy ===== *)
theory Feeder_Calls
  imports Store_Concurrency
begin

text \<open>
  What a feeder method hands to the dispatcher, and the exact effect of dispatching one task.

  \<open>emits m\<close>: \<open>m\<close> succeeds and only appends to the trace, and nothing it appends is a dispatcher call -
  the event and notification methods. With it the run of a method is rewritten past its events.
\<close>

definition emits :: "unit fop \<Rightarrow> bool" where
  "emits m \<longleftrightarrow> (\<forall>s. \<exists>es. m s = (Inr (), s\<lparr>fs_trace := fs_trace s @ es\<rparr>) \<and> filter is_call es = [])"

lemma emits_ok: "emits (ok ())"
proof -
  have "ok () s = (Inr (), s\<lparr>fs_trace := fs_trace s @ []\<rparr>)" for s :: feeder by (simp add: ok_def)
  then show ?thesis unfolding emits_def by (metis filter.simps(1))
qed

lemma emits_emit: "\<not> is_call e \<Longrightarrow> emits (emit e)"
  by (auto simp: emits_def emit_def upd_def)

lemma emits_then:
  assumes "emits m" and "emits n"
  shows "emits (thenE m n)"
  unfolding emits_def
proof
  fix s
  obtain es where m: "m s = (Inr (), s\<lparr>fs_trace := fs_trace s @ es\<rparr>)" "filter is_call es = []"
    using assms(1) by (auto simp: emits_def)
  let ?t = "s\<lparr>fs_trace := fs_trace s @ es\<rparr>"
  obtain fs where n: "n ?t = (Inr (), ?t\<lparr>fs_trace := fs_trace ?t @ fs\<rparr>)" "filter is_call fs = []"
    using assms(2) unfolding emits_def by blast
  show "\<exists>es. thenE m n s = (Inr (), s\<lparr>fs_trace := fs_trace s @ es\<rparr>) \<and> filter is_call es = []"
    by (rule exI [of _ "es @ fs"]) (use n m in \<open>simp add: bindE_run\<close>)
qed

lemma emits_if: "emits m \<Longrightarrow> emits n \<Longrightarrow> emits (if b then m else n)" by simp

lemma emits_gets: "(\<And>x. emits (f x)) \<Longrightarrow> emits (bindE (gets g) f)"
  by (simp add: emits_def)

lemma emits_option: "emits m \<Longrightarrow> (\<And>v. emits (f v)) \<Longrightarrow> emits (case x of None \<Rightarrow> m | Some v \<Rightarrow> f v)"
  by (simp split: option.split)

lemma emits_owner:
  "(\<And>t. emits (f t)) \<Longrightarrow> (\<And>a. emits (g a)) \<Longrightarrow>
     emits (case ow of OwnerTeam t \<Rightarrow> f t | OwnerAgent a \<Rightarrow> g a)"
  by (simp split: tasklist_owner.split)

lemmas emits_rules = emits_ok emits_then emits_if emits_option emits_owner emits_gets
  is_call_simps(2-9) [THEN emits_emit]

lemma emits_dual: "emits (dual_emit c p x)"
  unfolding dual_emit_def by (intro emits_rules)

lemma emits_task_updated: "emits (emit_task_updated env ow i k)"
  unfolding emit_task_updated_def read_tasklist_def by (intro emits_rules emits_dual)

lemma emits_project_id: "(\<And>x. emits (f x)) \<Longrightarrow> emits (bindE (project_id_for ow i) f)"
  by (cases ow) (simp_all add: project_id_for_def read_tasklist_def bindE_assoc emits_gets)

lemma emits_completed: "emits (emit_tasklist_completed env ow i)"
  unfolding emit_tasklist_completed_def by (intro emits_rules emits_dual emits_project_id)

lemma emits_failed: "emits (emit_tasklist_failed env ow i r)"
  unfolding emit_tasklist_failed_def by (intro emits_rules emits_dual emits_project_id)

lemma emits_status_changed: "emits (emit_tasklist_status_changed env ow i st)"
  unfolding emit_tasklist_status_changed_def by (intro emits_rules emits_dual emits_project_id)

lemma emits_deferred: "emits (emit_task_deferred env ow i k r)"
  unfolding emit_task_deferred_def by (intro emits_rules)

lemma emits_summary: "emits (post_completion_summary env aid L)"
  unfolding post_completion_summary_def post_completion_summary_to_agent_def by (intro emits_rules)

lemma emits_todo: "emits (emit_todo_list_complete env aid L)"
  unfolding emit_todo_list_complete_def Let_def by (intro emits_rules)

lemma emits_clear_flag: "emits (clear_active_flag env ow)"
  unfolding clear_active_flag_def
  by (simp add: emits_ok emits_rules split: tasklist_owner.split option.split)

lemma emits_wake: "emits (emit_lifecycle_wake env tid i r)"
  unfolding emit_lifecycle_wake_def by (intro emits_rules)

lemma emits_created: "emits (emit_tasklist_created env tid i)"
  unfolding emit_tasklist_created_def by (intro emits_rules)

lemmas emits_methods = emits_task_updated emits_completed emits_failed emits_status_changed emits_deferred
  emits_summary emits_todo emits_clear_flag emits_wake emits_created

text \<open>Running past an event.\<close>

lemma emits_run:
  assumes "emits m"
  obtains es where "filter is_call es = []" and "bindE m f s = f () (s\<lparr>fs_trace := fs_trace s @ es\<rparr>)"
    and "m s = (Inr (), s\<lparr>fs_trace := fs_trace s @ es\<rparr>)"
proof -
  obtain es where "m s = (Inr (), s\<lparr>fs_trace := fs_trace s @ es\<rparr>)" "filter is_call es = []"
    using assms by (auto simp: emits_def)
  then show ?thesis using that by (simp add: bindE_run)
qed

lemma in_store_run:
  "in_store m s = (fst (m (fs_store s)), s\<lparr>fs_store := snd (m (fs_store s))\<rparr>)"
  by (simp add: in_store_def zoom_run)

lemma in_store_bind:
  "bindE (in_store m) f s =
     (case fst (m (fs_store s)) of
        Inl e \<Rightarrow> (Inl e, s\<lparr>fs_store := snd (m (fs_store s))\<rparr>)
      | Inr x \<Rightarrow> f x (s\<lparr>fs_store := snd (m (fs_store s))\<rparr>))"
  by (simp add: bindE_run in_store_run split: sum.split)

lemma fetch_run:
  "fetch_tasklist ow i s =
     (case store_lookup (fs_store s) (ow, i) of None \<Rightarrow> (Inl (TasklistNotFound i), s) | Some L \<Rightarrow> (Inr L, s))"
  by (simp add: fetch_tasklist_def read_tasklist_def store_lookup_def ok_or_run)

lemma fetch_bind:
  "bindE (fetch_tasklist ow i) f s =
     (case store_lookup (fs_store s) (ow, i) of None \<Rightarrow> (Inl (TasklistNotFound i), s) | Some L \<Rightarrow> f L s)"
  by (simp add: bindE_run fetch_run split: option.split)

lemma read_bind:
  "bindE (read_tasklist ow i) f s = f (store_lookup (fs_store s) (ow, i)) s"
  by (simp add: read_tasklist_def store_lookup_def)

lemma calls_update [simp]:
  "calls (s\<lparr>fs_store := st\<rparr>) = calls s" "calls (s\<lparr>fs_registry := rg\<rparr>) = calls s"
  "calls (s\<lparr>fs_dispatched_at := d\<rparr>) = calls s" "calls (s\<lparr>fs_run_observed := ob\<rparr>) = calls s"
  "calls (s\<lparr>fs_watchers := w\<rparr>) = calls s" "calls (s\<lparr>fs_task_metas := tm\<rparr>) = calls s"
  "calls (s\<lparr>fs_routing_warned := rw\<rparr>) = calls s"
  by (simp_all add: calls_def)

lemma calls_trace: "filter is_call es = [] \<Longrightarrow> calls (s\<lparr>fs_trace := fs_trace s @ es\<rparr>) = calls s"
  by (simp add: calls_def)

section \<open>Dispatching one task\<close>

definition call_of :: "tasklist \<Rightarrow> task \<Rightarrow> effect" where
  "call_of L t = DispatchCall (dispatch_executor (tl_owner L) t) (TaskPrompt (build_dispatch_prompt t))
                   (tl_owner L) (tl_id L) (t_id t)"

text \<open>The store's own record of the task, at the moment of the dispatch, can be claimed.\<close>

definition claimable :: "feeder \<Rightarrow> tasklist \<Rightarrow> task \<Rightarrow> bool" where
  "claimable s L t =
     (case task_at (fs_store s) (tl_key L) (t_id t) of
        Some u \<Rightarrow> t_status u = Pending \<or> t_status u = Blocked | None \<Rightarrow> False)"

definition begun_list :: "feeder \<Rightarrow> tasklist \<Rightarrow> task \<Rightarrow> tasklist" where
  "begun_list s L t = modify_task (t_id t) (\<lambda>t. t\<lparr>t_status := InProgress\<rparr>) (the (store_lookup (fs_store s) (tl_key L)))"

lemma begin_run:
  "try_begin_task_by_owner (tl_owner L) (tl_id L) (t_id t) (fs_store s) =
     (if claimable s L t then (Inr True, put_meta (begun_list s L t) (fs_store s))
      else (case store_lookup (fs_store s) (tl_key L) of
              None \<Rightarrow> Inl (TasklistNotFound (tl_id L))
            | Some M \<Rightarrow> (case find_task M (t_id t) of None \<Rightarrow> Inl (TaskNotFound (t_id t)) | Some _ \<Rightarrow> Inr False),
            fs_store s))"
  by (auto simp: try_begin_task_by_owner_def store_run claimable_def task_at_def tl_key_def begun_list_def
      split: option.split)

lemma write_start_meta_run:
  "\<exists>tm. write_start_meta env L a t s = (Inr (), s\<lparr>fs_task_metas := tm\<rparr>)"
proof (cases "tl_owner L")
  case (OwnerTeam tid)
  then have "write_start_meta env L a t s = (Inr (), s\<lparr>fs_task_metas := fs_task_metas s\<rparr>)"
    by (simp add: write_start_meta_def ok_run)
  then show ?thesis by blast
qed (auto simp: write_start_meta_def upd_run)

text \<open>
  The state after a successful claim: the slot is taken, the store has the task in progress, and
  what was emitted since holds no call.
\<close>

definition occupied :: "feeder_env \<Rightarrow> tasklist \<Rightarrow> task \<Rightarrow> feeder \<Rightarrow> feeder \<Rightarrow> bool" where
  "occupied env L t s u \<longleftrightarrow>
     fs_store u = put_meta (begun_list s L t) (fs_store s) \<and> calls u = calls s \<and>
     fs_registry u = (fs_registry s)((tl_id L, dispatch_executor (tl_owner L) t) := Some (t_id t)) \<and>
     fs_dispatched_at u = (fs_dispatched_at s)((tl_id L, t_id t) := Some (fe_now env)) \<and>
     fs_run_observed u = fs_run_observed s \<and> fs_watchers u = fs_watchers s"

text \<open>The dispatcher call, and giving the slot back when it fails.\<close>

definition hand_over :: "feeder_env \<Rightarrow> tasklist \<Rightarrow> task \<Rightarrow> agent_id \<Rightarrow> unit fop" where
  "hand_over env L t executor =
     bindE (attempt (call_dispatcher env executor (TaskPrompt (build_dispatch_prompt t))
                       (tl_owner L) (tl_id L) (t_id t))) (\<lambda>outcome.
       case outcome of
         Inr _ \<Rightarrow> ok ()
       | Inl e \<Rightarrow> thenE (release_slot (tl_id L) executor (t_id t)) (err e))"

lemma claim_and_dispatch_alt:
  "claim_and_dispatch env L t executor =
     bindE (in_store (try_begin_task_by_owner (tl_owner L) (tl_id L) (t_id t))) (\<lambda>claimed.
       if \<not> claimed then ok ()
       else
         thenE (emit_task_updated env (tl_owner L) (tl_id L) (t_id t))
        (thenE (write_start_meta env L executor t)
        (thenE (occupy_slot env (tl_id L) executor (t_id t)) (hand_over env L t executor))))"
  by (simp only: claim_and_dispatch_def hand_over_def)

lemma dispatch_one_claimed:
  assumes "\<not> executor_missing env (tl_owner L) (dispatch_executor (tl_owner L) t)" and "claimable s L t"
  obtains u where "occupied env L t s u"
    and "dispatch_one env L t s = hand_over env L t (dispatch_executor (tl_owner L) t) u"
proof -
  let ?s1 = "s\<lparr>fs_store := put_meta (begun_list s L t) (fs_store s)\<rparr>"
  obtain es where es: "filter is_call es = []"
    "emit_task_updated env (tl_owner L) (tl_id L) (t_id t) ?s1 = (Inr (), ?s1\<lparr>fs_trace := fs_trace ?s1 @ es\<rparr>)"
    using emits_run [OF emits_task_updated] by blast
  obtain tm where tm: "write_start_meta env L (dispatch_executor (tl_owner L) t) t (?s1\<lparr>fs_trace := fs_trace ?s1 @ es\<rparr>)
      = (Inr (), ?s1\<lparr>fs_trace := fs_trace ?s1 @ es, fs_task_metas := tm\<rparr>)"
    using write_start_meta_run by blast
  let ?u = "?s1\<lparr>fs_trace := fs_trace ?s1 @ es, fs_task_metas := tm,
      fs_registry := (fs_registry s)((tl_id L, dispatch_executor (tl_owner L) t) := Some (t_id t)),
      fs_dispatched_at := (fs_dispatched_at s)((tl_id L, t_id t) := Some (fe_now env))\<rparr>"
  have "occupied env L t s ?u" using es(1) by (simp add: occupied_def calls_def)
  moreover have "claim_and_dispatch env L t (dispatch_executor (tl_owner L) t) s = hand_over env L t (dispatch_executor (tl_owner L) t) ?u"
    using es(2) tm
    by (simp add: claim_and_dispatch_alt in_store_bind begin_run assms(2) bindE_Inr occupy_slot_def)
  ultimately show ?thesis using that assms(1) by (simp add: dispatch_one_def Let_def)
qed

lemma hand_over_run:
  assumes "occupied env L t s u"
  shows "hand_over env L t (dispatch_executor (tl_owner L) t) u =
     (case fe_dispatch_outcome env (dispatch_executor (tl_owner L) t) (tl_id L) (t_id t) of
        None \<Rightarrow> (Inr (), u\<lparr>fs_trace := fs_trace u @ [call_of L t]\<rparr>)
      | Some e \<Rightarrow> (Inl e, u\<lparr>fs_trace := fs_trace u @ [call_of L t],
            fs_registry := (fs_registry s)((tl_id L, dispatch_executor (tl_owner L) t) := None),
            fs_dispatched_at := (fs_dispatched_at s)((tl_id L, t_id t) := None),
            fs_run_observed := fs_run_observed s - {(tl_id L, t_id t)}\<rparr>))"
  using assms
  by (cases "fe_dispatch_outcome env (dispatch_executor (tl_owner L) t) (tl_id L) (t_id t)")
     (simp_all add: hand_over_def bindE_run attempt_run call_dispatcher_def emit_def upd_run ok_run err_run
        release_slot_def occupied_def call_of_def)

lemma not_claimed_run:
  assumes "\<not> executor_missing env (tl_owner L) (dispatch_executor (tl_owner L) t)" and "\<not> claimable s L t"
  shows "dispatch_one env L t s =
     ((case task_at (fs_store s) (tl_key L) (t_id t) of
         Some _ \<Rightarrow> Inr ()
       | None \<Rightarrow> Inl (if store_lookup (fs_store s) (tl_key L) = None then TasklistNotFound (tl_id L)
                       else TaskNotFound (t_id t))), s)"
  using assms
  by (auto simp: dispatch_one_def Let_def claim_and_dispatch_def in_store_bind begin_run task_at_def ok_run
      split: option.split)

text \<open>dispatching a task that the store says is pending or blocked. The store has the task in
  progress and the dispatcher was called once, with the executor and the rendered prompt. If the
  call succeeded the executor's slot holds the task, stamped with the current time; if it failed the
  error is returned and slot, stamp and observed mark are free again, while the task stays in
  progress for the watchdog.\<close>

theorem dispatch_one_effect:
  assumes "\<not> executor_missing env (tl_owner L) (dispatch_executor (tl_owner L) t)" and "claimable s L t"
  shows "case dispatch_one env L t s of (r, s') \<Rightarrow>
     fs_store s' = put_meta (begun_list s L t) (fs_store s) \<and> calls s' = calls s @ [call_of L t] \<and>
     (case fe_dispatch_outcome env (dispatch_executor (tl_owner L) t) (tl_id L) (t_id t) of
        None \<Rightarrow> r = Inr () \<and>
          fs_registry s' = (fs_registry s)((tl_id L, dispatch_executor (tl_owner L) t) := Some (t_id t)) \<and>
          fs_dispatched_at s' = (fs_dispatched_at s)((tl_id L, t_id t) := Some (fe_now env))
      | Some e \<Rightarrow> r = Inl e \<and>
          fs_registry s' = (fs_registry s)((tl_id L, dispatch_executor (tl_owner L) t) := None) \<and>
          fs_dispatched_at s' = (fs_dispatched_at s)((tl_id L, t_id t) := None) \<and>
          (tl_id L, t_id t) \<notin> fs_run_observed s')"
proof -
  from dispatch_one_claimed [OF assms] obtain u where u: "occupied env L t s u" and
    eq: "dispatch_one env L t s = hand_over env L t (dispatch_executor (tl_owner L) t) u" by blast
  from u show ?thesis
    unfolding eq hand_over_run [OF u]
    by (simp add: occupied_def calls_def call_of_def split: option.split)
qed

lemma dispatch_one_effect_witness:
  "case dispatch_one sample_env race_list (sample_task ''a'' ''x'' Pending) (sample_feeder [race_list]) of (r, s') \<Rightarrow>
     r = Inr () \<and> calls s' = [call_of race_list (sample_task ''a'' ''x'' Pending)] \<and>
     fs_registry s' (''L'', ''x'') = Some ''a''"
  using dispatch_one_effect [of sample_env race_list "sample_task ''a'' ''x'' Pending" "sample_feeder [race_list]"]
  by (auto simp: race_list_def executor_missing_def dispatch_executor_def claimable_def task_at_def find_task_def
      split: prod.split)

text \<open>a stale dispatch is harmless. Whatever the caller's snapshot says, if the store's record of the
  task is no longer pending or blocked and the executor exists, \<open>dispatch_one\<close> changes nothing at all:
  no call, no event, no slot; it succeeds, unless the task or the tasklist is gone.\<close>

theorem dispatch_one_stale:
  assumes "\<not> executor_missing env (tl_owner L) (dispatch_executor (tl_owner L) t)" and "\<not> claimable s L t"
  shows "dispatch_one env L t s =
     ((case task_at (fs_store s) (tl_key L) (t_id t) of
         Some _ \<Rightarrow> Inr ()
       | None \<Rightarrow> Inl (if store_lookup (fs_store s) (tl_key L) = None then TasklistNotFound (tl_id L)
                       else TaskNotFound (t_id t))), s)"
  by (rule not_claimed_run [OF assms])

lemma dispatch_one_stale_witness:
  "dispatch_one sample_env race_list (sample_task ''a'' ''x'' Pending) (sample_feeder [stuck_list])
     = (Inr (), sample_feeder [stuck_list])"
  using dispatch_one_stale [of sample_env race_list "sample_task ''a'' ''x'' Pending" "sample_feeder [stuck_list]"]
  by (simp add: race_list_def stuck_list_def executor_missing_def dispatch_executor_def claimable_def
      task_at_def find_task_def)

section \<open>What a dispatch decision may hand out\<close>

lemma silent_run: "silent m \<Longrightarrow> fs_store (snd (m s)) = fs_store s \<and> calls (snd (m s)) = calls s"
  by (simp add: silent_def)

lemma calls_silent [simp]:
  "calls (snd (emit_task_updated env ow i k s)) = calls s" "calls (snd (announce_terminal env ow L s)) = calls s"
  "calls (snd (emit_tasklist_completed env ow i s)) = calls s" "calls (snd (defer_unowned env L t s)) = calls s"
  "calls (snd (par_select env L c tp ts s)) = calls s" "calls (snd (read_tasklist ow i s)) = calls s"
  by (simp_all only: silent_run [OF silent_emit_task_updated] silent_run [OF silent_announce]
      silent_run [OF silent_emit_completed] silent_run [OF silent_defer] silent_run [OF silent_par_select]
      silent_run [OF silent_read])

lemma dispatch_one_calls:
  "calls (snd (dispatch_one env L t s)) = calls s @
     (if \<not> executor_missing env (tl_owner L) (dispatch_executor (tl_owner L) t) \<and> claimable s L t
      then [call_of L t] else [])"
proof (cases "executor_missing env (tl_owner L) (dispatch_executor (tl_owner L) t)")
  case True
  then show ?thesis by (simp add: dispatch_one_def Let_def in_store_bind split: sum.split)
next
  case False
  show ?thesis
  proof (cases "claimable s L t")
    case True
    from dispatch_one_claimed [OF False True] obtain u where u: "occupied env L t s u" and
      eq: "dispatch_one env L t s = hand_over env L t (dispatch_executor (tl_owner L) t) u" by blast
    from u True False show ?thesis
      unfolding eq hand_over_run [OF u]
      by (simp add: occupied_def calls_def call_of_def split: option.split)
  qed (use False in \<open>simp add: not_claimed_run\<close>)
qed

lemma par_dispatch_calls:
  "\<exists>us. subseq us ts \<and> calls (snd (par_dispatch env L ts s)) = calls s @ map (call_of L) us"
proof (induction ts arbitrary: s)
  case Nil
  show ?case by (simp add: ok_run)
next
  case (Cons t ts)
  let ?paused = "case store_lookup (fs_store s) (tl_owner L, tl_id L) of Some M \<Rightarrow> tl_status M \<noteq> TlActive | None \<Rightarrow> False"
  have run: "par_dispatch env L (t # ts) s =
      (if ?paused then ok () s else thenE (dispatch_one env L t) (par_dispatch env L ts) s)"
    by (simp add: read_bind)
  let ?one = "dispatch_one env L t s"
  obtain vs where vs: "vs = [] \<or> vs = [t]" "calls (snd ?one) = calls s @ map (call_of L) vs"
    by (rule that [of "if \<not> executor_missing env (tl_owner L) (dispatch_executor (tl_owner L) t) \<and> claimable s L t
          then [t] else []"]) (simp_all add: dispatch_one_calls)
  obtain us where us: "subseq us ts" "calls (snd (par_dispatch env L ts (snd ?one))) = calls (snd ?one) @ map (call_of L) us"
    using Cons.IH by blast
  show ?case
  proof (cases "?paused \<or> (\<exists>e. fst ?one = Inl e)")
    case True
    show ?thesis
    proof (cases ?paused)
      case True
      then have "par_dispatch env L (t # ts) s = (Inr (), s)" unfolding run by (simp add: ok_run)
      then show ?thesis by (intro exI [of _ "[]"]) simp
    next
      case False
      with True obtain e where "fst ?one = Inl e" by blast
      with False have "snd (par_dispatch env L (t # ts) s) = snd ?one"
        unfolding run by (simp add: bindE_run)
      moreover have "subseq vs (t # ts)" using vs(1) by auto
      ultimately show ?thesis using vs(2) by auto
    qed
  next
    case False
    then obtain x where "fst ?one = Inr x" by (cases "fst ?one") auto
    with False have "snd (par_dispatch env L (t # ts) s) = snd (par_dispatch env L ts (snd ?one))"
      unfolding run by (simp add: bindE_run)
    moreover have "subseq (vs @ us) (t # ts)" using vs(1) us(1) by auto
    ultimately show ?thesis using vs(2) us(2) by (intro exI [of _ "vs @ us"]) simp
  qed
qed

text \<open>What the first pass of a parallel group picks.\<close>

lemma routed_executor_dispatch:
  "routed_executor ow t = Some a \<Longrightarrow> dispatch_executor ow t = a"
  by (auto simp: routed_executor_def dispatch_executor_def split: tasklist_owner.splits if_splits)

lemma defer_ok: "fst (defer_unowned env L t s) = Inr ()"
  by (auto simp: defer_unowned_def emit_task_deferred_def submit_routing_for_def
      note_team_routing_unsupported_def emit_def bindE_run ok_run upd_run gets_run split: tasklist_owner.split)

lemma defer_registry: "fs_registry (snd (defer_unowned env L t s)) = fs_registry s"
  by (auto simp: defer_unowned_def emit_task_deferred_def submit_routing_for_def
      note_team_routing_unsupported_def emit_def bindE_run ok_run upd_run gets_run split: tasklist_owner.split)

lemma par_select_picks:
  "\<exists>picked. fst (par_select env L c tp ts s) = Inr picked \<and>
     subseq picked (filter (\<lambda>t. t_status t = Pending) ts) \<and>
     distinct (map (dispatch_executor (tl_owner L)) picked) \<and>
     (\<forall>t\<in>set picked. \<not> c (dispatch_executor (tl_owner L) t) \<and> dispatch_executor (tl_owner L) t \<notin> set tp)"
proof (induction env L c tp ts arbitrary: s rule: par_select.induct)
  case (1 env L c tp)
  show ?case by (simp add: ok_run)
next
  case (2 env L c tp t ts)
  show ?case
  proof (cases "t_status t = Pending")
    case False
    then show ?thesis using 2(1) by simp
  next
    case pending: True
    show ?thesis
    proof (cases "routed_executor (tl_owner L) t")
      case None
      obtain picked where "fst (par_select env L c tp ts (snd (defer_unowned env L t s))) = Inr picked \<and>
         subseq picked (filter (\<lambda>t. t_status t = Pending) ts) \<and>
         distinct (map (dispatch_executor (tl_owner L)) picked) \<and>
         (\<forall>t\<in>set picked. \<not> c (dispatch_executor (tl_owner L) t) \<and> dispatch_executor (tl_owner L) t \<notin> set tp)"
        using 2(2) pending None by blast
      then show ?thesis using pending None by (auto simp: bindE_run defer_ok)
    next
      case (Some a)
      show ?thesis
      proof (cases "c a \<or> a \<in> set tp")
        case True
        obtain picked where "fst (par_select env L c tp ts s) = Inr picked \<and>
           subseq picked (filter (\<lambda>t. t_status t = Pending) ts) \<and>
           distinct (map (dispatch_executor (tl_owner L)) picked) \<and>
           (\<forall>t\<in>set picked. \<not> c (dispatch_executor (tl_owner L) t) \<and> dispatch_executor (tl_owner L) t \<notin> set tp)"
          using 2(3) pending Some True by blast
        then show ?thesis using pending Some True by auto
      next
        case False
        obtain picked where "fst (par_select env L c (a # tp) ts s) = Inr picked \<and>
           subseq picked (filter (\<lambda>t. t_status t = Pending) ts) \<and>
           distinct (map (dispatch_executor (tl_owner L)) picked) \<and>
           (\<forall>t\<in>set picked. \<not> c (dispatch_executor (tl_owner L) t) \<and> dispatch_executor (tl_owner L) t \<notin> set (a # tp))"
          using 2(4) pending Some False by blast
        then show ?thesis using pending Some False routed_executor_dispatch [OF Some]
          by (auto simp: bindE_run ok_run)
      qed
    qed
  qed
qed

text \<open>
  What \<open>advance\<close> may hand out in a state: nothing, or tasks of the first group that is not terminal,
  pending in the snapshot. A sequential group yields its first pending task, and only when no task
  of it is in progress or stopped; a parallel group yields one task per executor, for executors
  that hold no slot of the tasklist.
\<close>

definition may_hand_out :: "feeder \<Rightarrow> tasklist \<Rightarrow> task list \<Rightarrow> bool" where
  "may_hand_out s L us \<longleftrightarrow>
     us = [] \<or>
     tl_status L = TlActive \<and>
     (case List.find (\<lambda>g. \<not> group_is_terminal g) (tl_groups L) of
        None \<Rightarrow> False
      | Some g \<Rightarrow>
          (case g_mode g of
             Seq \<Rightarrow> us = take 1 (filter (\<lambda>t. t_status t = Pending) (g_tasks g)) \<and>
                    count_status InProgress (g_tasks g) = 0 \<and> count_status Stopped (g_tasks g) = 0
           | Par \<Rightarrow> subseq us (filter (\<lambda>t. t_status t = Pending) (g_tasks g)) \<and>
                    distinct (map (dispatch_executor (tl_owner L)) us) \<and>
                    list_all (\<lambda>t. fs_registry s (tl_id L, dispatch_executor (tl_owner L) t) = None) us))"

lemma find_take_filter: "List.find p xs = Some x \<Longrightarrow> take 1 (filter p xs) = [x]"
  by (induction xs) (auto split: if_splits)

lemma subseq_set: "subseq us ts \<Longrightarrow> set us \<subseteq> set ts"
  by (induction rule: list_emb.induct) auto

lemma subseq_distinct_map:
  assumes "subseq us ts" and "distinct (map f ts)"
  shows "distinct (map f us)"
  using assms
proof (induction rule: list_emb.induct)
  case (list_emb_Cons2 x y xs ys)
  then have "set xs \<subseteq> set ys" by (intro subseq_set)
  with list_emb_Cons2 show ?case by auto
qed simp_all

lemma dispatch_group_calls:
  "\<exists>us. calls (snd (dispatch_group env L g s)) = calls s @ map (call_of L) us \<and>
     (us = [] \<or> (case g_mode g of
        Seq \<Rightarrow> us = take 1 (filter (\<lambda>t. t_status t = Pending) (g_tasks g)) \<and>
               count_status InProgress (g_tasks g) = 0 \<and> count_status Stopped (g_tasks g) = 0
      | Par \<Rightarrow> subseq us (filter (\<lambda>t. t_status t = Pending) (g_tasks g)) \<and>
               distinct (map (dispatch_executor (tl_owner L)) us) \<and>
               list_all (\<lambda>t. fs_registry s (tl_id L, dispatch_executor (tl_owner L) t) = None) us))"
proof (cases "g_mode g")
  case Par
  let ?c = "\<lambda>executor. fs_registry s (tl_id L, executor) \<noteq> None"
  obtain picked where p: "fst (par_select env L ?c [] (g_tasks g) s) = Inr picked"
    "subseq picked (filter (\<lambda>t. t_status t = Pending) (g_tasks g))"
    "distinct (map (dispatch_executor (tl_owner L)) picked)"
    "\<forall>t\<in>set picked. \<not> ?c (dispatch_executor (tl_owner L) t)"
    using par_select_picks [of env L ?c "[]" "g_tasks g" s] by auto
  let ?t = "snd (par_select env L ?c [] (g_tasks g) s)"
  obtain us where us: "subseq us picked" "calls (snd (par_dispatch env L picked ?t)) = calls ?t @ map (call_of L) us"
    using par_dispatch_calls by blast
  have "snd (dispatch_group env L g s) = snd (par_dispatch env L picked ?t)"
    by (simp add: dispatch_group_def Par dispatch_group_par_def bindE_run [of "par_select _ _ _ _ _"] p(1) del: not_None_eq)
  moreover have "set us \<subseteq> set picked" using us(1) by (rule subseq_set)
  ultimately show ?thesis
    using us p Par
    by (intro exI [of _ us]) (auto simp: list_all_iff intro: subseq_order.trans subseq_distinct_map)
next
  case Seq
  show ?thesis
  proof (cases "count_status InProgress (g_tasks g) > 0 \<or> count_status Stopped (g_tasks g) > 0
      \<or> List.find (\<lambda>t. t_status t = Pending) (g_tasks g) = None")
    case True
    then have "snd (dispatch_group env L g s) = s"
      by (auto simp: dispatch_group_def Seq dispatch_group_seq_def ok_run)
    then show ?thesis by (intro exI [of _ "[]"]) simp
  next
    case False
    then obtain t where t: "List.find (\<lambda>t. t_status t = Pending) (g_tasks g) = Some t" by auto
    have run: "dispatch_group env L g s =
        (case routed_executor (tl_owner L) t of None \<Rightarrow> defer_unowned env L t s | Some _ \<Rightarrow> dispatch_one env L t s)"
      using False t by (simp add: dispatch_group_def Seq dispatch_group_seq_def split: option.split)
    show ?thesis
    proof (cases "routed_executor (tl_owner L) t")
      case None
      then show ?thesis unfolding run by (intro exI [of _ "[]"]) simp
    next
      case (Some a)
      then show ?thesis unfolding run
        using dispatch_one_calls [of env L t s] find_take_filter [OF t] False Seq
        by (cases "\<not> executor_missing env (tl_owner L) (dispatch_executor (tl_owner L) t) \<and> claimable s L t")
           (auto intro: exI [of _ "[t]"] exI [of _ "[]"])
    qed
  qed
qed

text \<open>C2: the dispatch discipline. From any state, \<open>advance\<close> hands out only what \<open>may_hand_out\<close> allows -
  nothing unless the tasklist is active, only pending tasks of the first group that is not terminal,
  one at a time in a sequential group, one per free executor in a parallel group - each once, in
  plan order, with its own executor and rendered prompt, and hands out nothing else.\<close>

theorem advance_hands_out:
  "\<exists>us. calls (snd (advance env L s)) = calls s @ map (call_of L) us \<and> may_hand_out s L us"
proof (cases "tl_status L = TlActive")
  case False
  then show ?thesis by (intro exI [of _ "[]"]) (simp add: advance_def ok_run may_hand_out_def)
next
  case True
  show ?thesis
  proof (cases "List.find (\<lambda>g. \<not> group_is_terminal g) (tl_groups L)")
    case None
    have "calls (snd (complete_tasklist env L s)) = calls s"
      by (simp add: complete_tasklist_def in_store_bind bindE_run [of "emit_tasklist_completed _ _ _"]
          split: sum.split)
    then have "calls (snd (advance env L s)) = calls s" using True None by (simp add: advance_def ok_run)
    then show ?thesis by (intro exI [of _ "[]"]) (simp add: may_hand_out_def)
  next
    case (Some g)
    then show ?thesis
      using dispatch_group_calls [of env L g s] True by (auto simp: advance_def may_hand_out_def)
  qed
qed

end
