(* ===== verification/Feeder_Progress.thy ===== *)
theory Feeder_Progress
  imports Feeder_Calls
begin

text \<open>
  What the feeder does when a task ends, and when everything has: halting on a failure, completing the
  tasklist, the places where a tasklist is left without a next step.
\<close>

section \<open>Frames of the shared tails\<close>

lemma emitsE:
  assumes "emits m"
  obtains es where "filter is_call es = []" and "m s = (Inr (), s\<lparr>fs_trace := fs_trace s @ es\<rparr>)"
  using assms unfolding emits_def by blast

lemma fire_run:
  "\<exists>b es. fire_terminal_watcher env L s =
     (Inr b, s\<lparr>fs_watchers := (fs_watchers s)(tl_id L := None), fs_trace := fs_trace s @ es\<rparr>) \<and>
     filter is_call es = []"
proof (cases "fs_watchers s (tl_id L) = Some False")
  case True
  then show ?thesis
    by (intro exI [of _ True] exI [of _ "[WatcherReport (tl_id L) (build_terminal_report env L)]"])
       (simp add: fire_terminal_watcher_def emit_def bindE_run gets_run upd_run ok_run)
next
  case False
  then have "fire_terminal_watcher env L s =
      (Inr False, s\<lparr>fs_watchers := (fs_watchers s)(tl_id L := None), fs_trace := fs_trace s @ []\<rparr>)"
    by (auto simp: fire_terminal_watcher_def ok_run split: option.split)
  then show ?thesis by (intro exI [of _ False] exI [of _ "[]"]) simp
qed

lemma announce_run:
  "\<exists>es. announce_terminal env ow L s =
     (Inr (), s\<lparr>fs_watchers := (fs_watchers s)(tl_id L := None), fs_trace := fs_trace s @ es\<rparr>) \<and>
     filter is_call es = []"
proof -
  obtain e1 where e1: "filter is_call e1 = []"
    "clear_active_flag env ow s = (Inr (), s\<lparr>fs_trace := fs_trace s @ e1\<rparr>)"
    by (rule emitsE [OF emits_clear_flag])
  let ?s1 = "s\<lparr>fs_trace := fs_trace s @ e1\<rparr>"
  obtain b e2 where e2: "filter is_call e2 = []" "fire_terminal_watcher env L ?s1 =
     (Inr b, ?s1\<lparr>fs_watchers := (fs_watchers ?s1)(tl_id L := None), fs_trace := fs_trace ?s1 @ e2\<rparr>)"
    using fire_run by blast
  let ?s2 = "?s1\<lparr>fs_watchers := (fs_watchers ?s1)(tl_id L := None), fs_trace := fs_trace ?s1 @ e2\<rparr>"
  let ?rest = "case ow of OwnerTeam _ \<Rightarrow> ok ()
     | OwnerAgent aid \<Rightarrow> thenE (if \<not> b then post_completion_summary env aid L else ok ()) (emit_todo_list_complete env aid L)"
  have "emits ?rest" by (intro emits_rules emits_methods)
  then obtain e3 where e3: "filter is_call e3 = []" "?rest ?s2 = (Inr (), ?s2\<lparr>fs_trace := fs_trace ?s2 @ e3\<rparr>)"
    by (rule emitsE)
  have "announce_terminal env ow L s = ?rest ?s2"
    by (simp only: announce_terminal_def bindE_run e1(2) e2(2) fst_conv snd_conv sum.case)
  then show ?thesis using e1(1) e2(1) e3 by (intro exI [of _ "e1 @ e2 @ e3"]) simp
qed

lemma status_write_run:
  "in_store (set_status_by_owner now ow i nxt) s =
     (case store_lookup (fs_store s) (ow, i) of
        None \<Rightarrow> (Inl (TasklistNotFound i), s)
      | Some L \<Rightarrow>
          if tl_status L = nxt then (Inr L, s)
          else if \<not> team_status_move_allowed (tl_status L) nxt
          then (Inl (InvalidTasklistTransition (StatusMove (tl_status L) nxt)), s)
          else (Inr (leave_active now nxt L), s\<lparr>fs_store := put_meta (leave_active now nxt L) (fs_store s)\<rparr>))"
  by (auto simp: in_store_run set_status_by_owner_eq store_run split: option.split)

text \<open>\<open>free_task_slot\<close> and \<open>record_progress\<close> touch neither the calls nor any tasklist's status.\<close>

lemma free_run:
  "\<exists>rg. free_task_slot ow L i k s =
     (Inr (), s\<lparr>fs_registry := rg, fs_dispatched_at := (fs_dispatched_at s)((i, k) := None),
               fs_run_observed := fs_run_observed s - {(i, k)}\<rparr>) \<and>
     rg = (case find_task L k of
             None \<Rightarrow> fs_registry s
           | Some t \<Rightarrow> if fs_registry s (i, slot_agent ow t) = Some k
                      then (fs_registry s)((i, slot_agent ow t) := None) else fs_registry s)"
  by (auto simp: free_task_slot_def ok_run upd_run split: option.split)

definition same_status :: "tasklist \<Rightarrow> tasklist \<Rightarrow> bool" where
  "same_status L M \<longleftrightarrow> tl_status M = tl_status L \<and> map t_status (all_tasks M) = map t_status (all_tasks L)
     \<and> task_ids M = task_ids L"

interpretation statuses: evolution same_status
  by unfold_locales (simp_all add: same_status_def)

lemma append_comment_same: "closure_step (append_comment_closure k c) L r L' \<Longrightarrow> same_status L L'"
  by (auto simp: closure_step_def append_comment_closure_def same_status_def map_modify_first
      split: option.splits sum.splits)

context tasklist_closure
begin

lemma evolves_closure:
  assumes st: "\<And>L r L'. closure_step f L r L' \<Longrightarrow> R L L'" and refl: "\<And>L. R L L"
  shows "evolves R (in_store (mutate_by_owner ow i f))"
proof (rule evolves_in_store)
  fix s assume wf: "store_wf s"
  show "store_wf (snd (mutate_by_owner ow i f s))"
    using mutated.op_wf [OF wf, of "(ow, i)"] by simp
  fix j
  show "rel_option R (store_lookup s j) (store_lookup (snd (mutate_by_owner ow i f s)) j)"
    using mutated.op_evolves [where R = R and k = "(ow, i)", OF st refl wf] by simp
qed

end

lemma statuses_append: "evolves same_status (in_store (mutate_by_owner ow i (append_comment_closure k c)))"
  by (rule append_comment.evolves_closure) (erule append_comment_same, rule statuses.R_refl)

lemma statuses_record: "evolves same_status (record_progress env ow L i k)"
proof -
  have upd: "evolves same_status (upd f)" if "\<And>s. fs_store (f s) = fs_store s" for f
    using that by (simp add: evolves_def upd_def statuses.store_refl)
  show ?thesis
  proof (cases "find_task L k")
    case None
    then show ?thesis
      unfolding record_progress_def by (auto intro!: statuses.rules split: tasklist_owner.split)
  next
    case (Some t)
    then show ?thesis
      unfolding record_progress_def mutate_for_agent_def Let_def
      by (auto intro!: statuses.rules upd statuses_append silent_methods [THEN statuses.of_silent]
          split: tasklist_owner.split)
  qed
qed

text \<open>Methods that hand nothing to the dispatcher, keep the slots and the watchers, and never fail.\<close>

definition quiet :: "'a fop \<Rightarrow> bool" where
  "quiet m \<longleftrightarrow> (\<forall>s. calls (snd (m s)) = calls s \<and> fs_registry (snd (m s)) = fs_registry s \<and>
     fs_dispatched_at (snd (m s)) = fs_dispatched_at s \<and> fs_run_observed (snd (m s)) = fs_run_observed s \<and>
     fs_watchers (snd (m s)) = fs_watchers s \<and> (case fst (m s) of Inl _ \<Rightarrow> False | Inr _ \<Rightarrow> True))"

lemma quiet_emits:
  assumes "emits m"
  shows "quiet m"
  unfolding quiet_def
proof
  fix s
  obtain es where "filter is_call es = []" "m s = (Inr (), s\<lparr>fs_trace := fs_trace s @ es\<rparr>)"
    using assms by (rule emitsE)
  then show "calls (snd (m s)) = calls s \<and> fs_registry (snd (m s)) = fs_registry s \<and>
     fs_dispatched_at (snd (m s)) = fs_dispatched_at s \<and> fs_run_observed (snd (m s)) = fs_run_observed s \<and>
     fs_watchers (snd (m s)) = fs_watchers s \<and> (case fst (m s) of Inl _ \<Rightarrow> False | Inr _ \<Rightarrow> True)"
    by (simp add: calls_trace)
qed

lemma quiet_bind:
  assumes "quiet m" and "\<And>x. quiet (f x)"
  shows "quiet (bindE m f)"
  unfolding quiet_def
proof
  fix s
  from assms(1) obtain x where x: "fst (m s) = Inr x"
    by (cases "fst (m s)") (auto simp: quiet_def dest: spec [of _ s])
  with assms(2) [of x] assms(1)
  show "calls (snd (bindE m f s)) = calls s \<and> fs_registry (snd (bindE m f s)) = fs_registry s \<and>
     fs_dispatched_at (snd (bindE m f s)) = fs_dispatched_at s \<and>
     fs_run_observed (snd (bindE m f s)) = fs_run_observed s \<and>
     fs_watchers (snd (bindE m f s)) = fs_watchers s \<and>
     (case fst (bindE m f s) of Inl _ \<Rightarrow> False | Inr _ \<Rightarrow> True)"
    by (simp add: bindE_run quiet_def)
qed

lemma quiet_ok: "quiet (ok x)" by (simp add: quiet_def ok_run)
lemma quiet_gets: "quiet (gets x)" by (simp add: quiet_def gets_run)
lemma quiet_attempt_store: "quiet (attempt (in_store m))"
  by (simp add: quiet_def attempt_run in_store_run)
lemma quiet_metas: "quiet (upd (\<lambda>s. s\<lparr>fs_task_metas := f s\<rparr>))"
  by (simp add: quiet_def upd_run)
lemma quiet_sum: "(\<And>x. quiet (f x)) \<Longrightarrow> (\<And>x. quiet (g x)) \<Longrightarrow> quiet (case r of Inl x \<Rightarrow> f x | Inr x \<Rightarrow> g x)"
  by (simp split: sum.split)
lemma quiet_if: "quiet m \<Longrightarrow> quiet n \<Longrightarrow> quiet (if b then m else n)" by simp
lemma quiet_option: "quiet m \<Longrightarrow> (\<And>v. quiet (f v)) \<Longrightarrow> quiet (case x of None \<Rightarrow> m | Some v \<Rightarrow> f v)"
  by (simp split: option.split)

lemmas quiet_rules = quiet_ok quiet_gets quiet_attempt_store quiet_metas quiet_sum quiet_if quiet_option
  quiet_bind is_call_simps(2-9) [THEN emits_emit, THEN quiet_emits] emits_methods [THEN quiet_emits]

lemma quiet_record: "quiet (record_progress env ow L i k)"
  unfolding record_progress_def Let_def mutate_for_agent_def
  by (cases ow; cases "find_task L k") (simp_all only: prod.case tasklist_owner.case option.case, (intro quiet_rules)+)

section \<open>Halt on failure\<close>

lemma quietE:
  assumes "quiet m"
  obtains x where "fst (m s) = Inr x" and "calls (snd (m s)) = calls s"
    and "fs_registry (snd (m s)) = fs_registry s" and "fs_dispatched_at (snd (m s)) = fs_dispatched_at s"
    and "fs_watchers (snd (m s)) = fs_watchers s"
  using assms unfolding quiet_def by (cases "fst (m s)") (auto dest: spec [of _ s])

lemma halt_run:
  assumes "store_lookup (fs_store s) (ow, i) = Some L" and "find_task L k = Some t"
    and "t_status t = Failed" and "tl_status L = TlActive"
  shows "\<exists>es. filter is_call es = [] \<and> halt_on_failure env ow L i k s =
     (Inr (leave_active (fe_now env) TlFailed L),
      s\<lparr>fs_store := put_meta (leave_active (fe_now env) TlFailed L) (fs_store s),
        fs_watchers := (fs_watchers s)(tl_id L := None), fs_trace := fs_trace s @ es\<rparr>)"
proof -
  let ?M = "leave_active (fe_now env) TlFailed L"
  let ?s0 = "s\<lparr>fs_store := put_meta ?M (fs_store s)\<rparr>"
  have w: "in_store (set_status_by_owner (fe_now env) ow i TlFailed) s = (Inr ?M, ?s0)"
    using assms by (simp add: status_write_run team_status_move_allowed_def)
  obtain e1 where e1: "filter is_call e1 = []"
    "emit_tasklist_failed env ow i (failure_reason ?M k) ?s0 = (Inr (), ?s0\<lparr>fs_trace := fs_trace ?s0 @ e1\<rparr>)"
    by (rule emitsE [OF emits_failed])
  obtain e2 where e2: "filter is_call e2 = []" "announce_terminal env ow ?M (?s0\<lparr>fs_trace := fs_trace ?s0 @ e1\<rparr>) =
     (Inr (), ?s0\<lparr>fs_trace := fs_trace ?s0 @ e1, fs_watchers := (fs_watchers s)(tl_id ?M := None),
        fs_trace := (fs_trace ?s0 @ e1) @ e2\<rparr>)"
    using announce_run [of env ow ?M "?s0\<lparr>fs_trace := fs_trace ?s0 @ e1\<rparr>"] by auto
  have "halt_on_failure env ow L i k s =
      thenE (emit_tasklist_failed env ow i (failure_reason ?M k)) (thenE (announce_terminal env ow ?M) (ok ?M)) ?s0"
    using assms w by (simp add: halt_on_failure_def bindE_run)
  also have "\<dots> = (Inr ?M, ?s0\<lparr>fs_trace := fs_trace ?s0 @ e1, fs_watchers := (fs_watchers s)(tl_id ?M := None),
        fs_trace := (fs_trace ?s0 @ e1) @ e2\<rparr>)"
    by (simp only: bindE_run e1(2) e2(2) fst_conv snd_conv sum.case ok_run)
  finally show ?thesis using e1(1) e2(1) by (intro exI [of _ "e1 @ e2"]) simp
qed

lemma no_halt_run:
  "map_option t_status (find_task L k) \<noteq> Some Failed \<or> tl_status L \<noteq> TlActive \<Longrightarrow>
     halt_on_failure env ow L i k s = (Inr L, s)"
  by (auto simp: halt_on_failure_def ok_run)

lemma inactive_advance: "tl_status L \<noteq> TlActive \<Longrightarrow> advance env L s = (Inr (), s)"
  by (simp add: advance_def ok_run)

lemma evolves_lookup:
  assumes "evolves R m" and "store_wf (fs_store s)"
  shows "store_wf (fs_store (snd (m s)))"
    and "rel_option R (store_lookup (fs_store s) q) (store_lookup (fs_store (snd (m s))) q)"
  using assms unfolding evolves_def store_evolves_def by blast+

lemma same_status_lookup:
  assumes "evolves same_status m" and "store_wf (fs_store s)"
  shows "map_option tl_status (store_lookup (fs_store (snd (m s))) q) = map_option tl_status (store_lookup (fs_store s) q)"
  using evolves_lookup(2) [OF assms, of q]
  by (cases "store_lookup (fs_store s) q"; cases "store_lookup (fs_store (snd (m s))) q") (auto simp: same_status_def)

lemma halted_terminal_run:
  assumes wf: "store_wf (fs_store s)" and L: "store_lookup (fs_store s) (ow, i) = Some L"
    and t: "find_task L k = Some t" and failed: "t_status t = Failed" and active: "tl_status L = TlActive"
  shows "case on_task_terminal env ow i k s of (r, s') \<Rightarrow>
     r = Inr () \<and> calls s' = calls s \<and>
     map_option tl_status (store_lookup (fs_store s') (ow, i)) = Some TlFailed \<and>
     fs_registry s' (i, slot_agent ow t) \<noteq> Some k \<and> fs_dispatched_at s' (i, k) = None \<and>
     fs_watchers s' i = None"
proof -
  let ?M = "leave_active (fe_now env) TlFailed L"
  have key: "tl_key L = (ow, i)" using store_lookup_keyD [OF wf L] .
  obtain rg where free: "free_task_slot ow L i k s =
     (Inr (), s\<lparr>fs_registry := rg, fs_dispatched_at := (fs_dispatched_at s)((i, k) := None),
               fs_run_observed := fs_run_observed s - {(i, k)}\<rparr>)"
    and rg: "rg (i, slot_agent ow t) \<noteq> Some k"
    using free_run [of ow L i k s] t by (auto split: if_splits)
  let ?s1 = "s\<lparr>fs_registry := rg, fs_dispatched_at := (fs_dispatched_at s)((i, k) := None),
               fs_run_observed := fs_run_observed s - {(i, k)}\<rparr>"
  obtain es where es: "filter is_call es = []" "halt_on_failure env ow L i k ?s1 =
     (Inr ?M, ?s1\<lparr>fs_store := put_meta ?M (fs_store ?s1), fs_watchers := (fs_watchers ?s1)(tl_id L := None),
        fs_trace := fs_trace ?s1 @ es\<rparr>)"
    using halt_run [of ?s1 ow i L k t env] L t failed active by auto
  let ?s2 = "?s1\<lparr>fs_store := put_meta ?M (fs_store ?s1), fs_watchers := (fs_watchers ?s1)(tl_id L := None),
        fs_trace := fs_trace ?s1 @ es\<rparr>"
  have wf2: "store_wf (fs_store ?s2)" using wf by (simp add: store_wf_put)
  obtain x where x: "fst (record_progress env ow ?M i k ?s2) = Inr x"
    "calls (snd (record_progress env ow ?M i k ?s2)) = calls ?s2"
    "fs_registry (snd (record_progress env ow ?M i k ?s2)) = fs_registry ?s2"
    "fs_dispatched_at (snd (record_progress env ow ?M i k ?s2)) = fs_dispatched_at ?s2"
    "fs_watchers (snd (record_progress env ow ?M i k ?s2)) = fs_watchers ?s2"
    by (rule quietE [OF quiet_record])
  have "on_task_terminal env ow i k s = (Inr (), snd (record_progress env ow ?M i k ?s2))"
  proof -
    have "on_task_terminal env ow i k s = advance env ?M (snd (record_progress env ow ?M i k ?s2))"
      unfolding on_task_terminal_def fetch_bind L option.case
      by (simp only: bindE_run free es(2) x(1) fst_conv snd_conv sum.case)
    then show ?thesis by (simp add: inactive_advance)
  qed
  moreover have "tl_id L = i" using key by (simp add: tl_key_def)
  ultimately show ?thesis
    using x rg es(1) key same_status_lookup [OF statuses_record wf2, of env ow ?M i k "(ow, i)"]
    by (simp add: calls_def)
qed

text \<open>halt on failure. When a task of an active tasklist has ended \<open>Failed\<close>, the terminal hook
  succeeds, makes the tasklist \<open>Failed\<close>, dispatches nothing - not the next task, not the next group -
  frees the executor's slot and the dispatch stamp, and consumes the terminal watcher.\<close>

theorem failure_halts:
  assumes "store_wf (fs_store s)" and "store_lookup (fs_store s) (ow, i) = Some L"
    and "find_task L k = Some t" and "t_status t = Failed" and "tl_status L = TlActive"
  shows "case on_task_terminal env ow i k s of (r, s') \<Rightarrow>
     r = Inr () \<and> calls s' = calls s \<and>
     map_option tl_status (store_lookup (fs_store s') (ow, i)) = Some TlFailed \<and>
     fs_registry s' (i, slot_agent ow t) \<noteq> Some k \<and> fs_dispatched_at s' (i, k) = None \<and>
     fs_watchers s' i = None"
  by (rule halted_terminal_run [OF assms])

definition failed_list :: tasklist where
  "failed_list = sample_list (OwnerTeam ''T'') ''L'' TlActive
     [sample_group Seq [sample_task ''a'' ''x'' Failed, sample_task ''b'' ''x'' Pending]]"

lemma failure_halts_witness:
  "case on_task_terminal sample_env (OwnerTeam ''T'') ''L'' ''a'' (sample_feeder [failed_list]) of (r, s') \<Rightarrow>
     r = Inr () \<and> calls s' = [] \<and> map_option tl_status (store_lookup (fs_store s') (OwnerTeam ''T'', ''L'')) = Some TlFailed"
  using failure_halts [of "sample_feeder [failed_list]" "OwnerTeam ''T''" "''L''" failed_list "''a''"
      "sample_task ''a'' ''x'' Failed" sample_env]
  by (auto simp: failed_list_def sample_store_wf find_task_def split: prod.split)

section \<open>Completion\<close>

definition all_done :: "tasklist \<Rightarrow> bool" where
  "all_done L = (List.find (\<lambda>g. \<not> group_is_terminal g) (tl_groups L) = None)"

lemma all_done_iff: "all_done L \<longleftrightarrow> \<not> has_non_terminal_task L"
  by (auto simp: all_done_def find_None_iff group_is_terminal_def has_non_terminal_task_def all_tasks_def
      list_ex_iff list_all_iff)

lemma complete_run:
  assumes "store_lookup (fs_store s) (tl_key L) = Some M" and "tl_status M = TlActive"
  shows "\<exists>es. filter is_call es = [] \<and> complete_tasklist env L s =
     (Inr (), s\<lparr>fs_store := put_meta (leave_active (fe_now env) TlCompleted M) (fs_store s),
        fs_watchers := (fs_watchers s)(tl_id M := None), fs_trace := fs_trace s @ es\<rparr>)"
proof -
  let ?M = "leave_active (fe_now env) TlCompleted M"
  let ?s0 = "s\<lparr>fs_store := put_meta ?M (fs_store s)\<rparr>"
  have w: "in_store (set_status_by_owner (fe_now env) (tl_owner L) (tl_id L) TlCompleted) s = (Inr ?M, ?s0)"
    using assms by (simp add: status_write_run team_status_move_allowed_def tl_key_def)
  obtain e1 where e1: "filter is_call e1 = []"
    "emit_tasklist_completed env (tl_owner L) (tl_id L) ?s0 = (Inr (), ?s0\<lparr>fs_trace := fs_trace ?s0 @ e1\<rparr>)"
    by (rule emitsE [OF emits_completed])
  obtain e2 where e2: "filter is_call e2 = []" "announce_terminal env (tl_owner L) ?M (?s0\<lparr>fs_trace := fs_trace ?s0 @ e1\<rparr>) =
     (Inr (), ?s0\<lparr>fs_trace := fs_trace ?s0 @ e1, fs_watchers := (fs_watchers s)(tl_id ?M := None),
        fs_trace := (fs_trace ?s0 @ e1) @ e2\<rparr>)"
    using announce_run [of env "tl_owner L" ?M "?s0\<lparr>fs_trace := fs_trace ?s0 @ e1\<rparr>"] by auto
  have "complete_tasklist env L s =
     (Inr (), ?s0\<lparr>fs_trace := fs_trace ?s0 @ e1, fs_watchers := (fs_watchers s)(tl_id ?M := None),
        fs_trace := (fs_trace ?s0 @ e1) @ e2\<rparr>)"
    by (simp only: complete_tasklist_def bindE_run w e1(2) e2(2) fst_conv snd_conv sum.case)
  then show ?thesis using e1(1) e2(1) by (intro exI [of _ "e1 @ e2"]) simp
qed

text \<open>when every task of an active tasklist is terminal, \<open>advance\<close> decides its end, and never by a
  dispatch. If none failed, the stored tasklist becomes \<open>Completed\<close> with the time stamped, and the
  watcher is consumed. If one failed, \<open>advance\<close> does nothing at all: it relies on the terminal hook to
  have halted the tasklist.\<close>

theorem advance_at_the_end:
  assumes "tl_status L = TlActive" and "\<not> has_non_terminal_task L"
    and "store_lookup (fs_store s) (tl_key L) = Some M" and "tl_status M = TlActive"
  shows "if any_failed L then advance env L s = (Inr (), s)
     else (case advance env L s of (r, s') \<Rightarrow> r = Inr () \<and> calls s' = calls s \<and>
             fs_store s' = put_meta (M\<lparr>tl_last_active_at := Some (fe_now env), tl_status := TlCompleted\<rparr>) (fs_store s) \<and>
             fs_watchers s' = (fs_watchers s)(tl_id M := None))"
proof -
  have end_: "List.find (\<lambda>g. \<not> group_is_terminal g) (tl_groups L) = None"
    using assms(2) by (simp add: all_done_iff [symmetric] all_done_def)
  have eq: "leave_active now TlCompleted M = M\<lparr>tl_last_active_at := Some now, tl_status := TlCompleted\<rparr>" for now
    using assms(4) by (simp add: leave_active_def)
  show ?thesis
    using complete_run [OF assms(3,4), of env] assms(1) end_
    by (auto simp: advance_def ok_run eq calls_def)
qed

definition done_list :: tasklist where
  "done_list = sample_list (OwnerTeam ''T'') ''L'' TlActive [sample_group Seq [sample_task ''a'' ''x'' Completed]]"

lemma advance_at_the_end_witness:
  "case advance sample_env done_list (sample_feeder [done_list]) of (r, s') \<Rightarrow>
     r = Inr () \<and> map_option tl_status (store_lookup (fs_store s') (OwnerTeam ''T'', ''L'')) = Some TlCompleted"
  using advance_at_the_end [of done_list "sample_feeder [done_list]" done_list sample_env]
  by (auto simp: done_list_def has_non_terminal_task_def any_failed_def tl_key_def split: prod.splits)

end
