(* ===== verification/Feeder_Stall.thy ===== *)
theory Feeder_Stall
  imports Feeder_Progress
begin

text \<open>
  A task whose executor's profile is gone: what \<open>dispatch_one\<close> does with it, and where that leaves the
  tasklist.
\<close>

definition failed_for_missing :: "tasklist \<Rightarrow> task \<Rightarrow> tasklist \<Rightarrow> tasklist" where
  "failed_for_missing L t M =
     map_tasks (\<lambda>u. if t_id u = t_id t
                    then u\<lparr>t_status := Failed,
                           t_error_log := t_error_log u @ [missing_reason (dispatch_executor (tl_owner L) t)]\<rparr>
                    else u) M"

lemma missing_run:
  assumes "executor_missing env (tl_owner L) (dispatch_executor (tl_owner L) t)"
    and "store_lookup (fs_store s) (tl_key L) = Some M"
  shows "\<exists>es. filter is_call es = [] \<and> dispatch_one env L t s =
     (Inr (), s\<lparr>fs_store := put_meta (failed_for_missing L t M) (fs_store s), fs_trace := fs_trace s @ es\<rparr>)"
proof -
  let ?s0 = "s\<lparr>fs_store := put_meta (failed_for_missing L t M) (fs_store s)\<rparr>"
  obtain es where es: "filter is_call es = []"
    "emit_task_updated env (tl_owner L) (tl_id L) (t_id t) ?s0 = (Inr (), ?s0\<lparr>fs_trace := fs_trace ?s0 @ es\<rparr>)"
    by (rule emitsE [OF emits_task_updated])
  have "in_store (mutate_by_owner (tl_owner L) (tl_id L)
          (fail_missing_executor (t_id t) (missing_reason (dispatch_executor (tl_owner L) t)))) s
      = (Inr ((), failed_for_missing L t M), ?s0)"
    using assms(2) by (simp add: in_store_run mutate_by_owner_def store_run fail_missing_executor_def
        failed_for_missing_def tl_key_def)
  then have "dispatch_one env L t s = (Inr (), ?s0\<lparr>fs_trace := fs_trace ?s0 @ es\<rparr>)"
    using assms(1) by (simp add: dispatch_one_def Let_def bindE_run es(2))
  then show ?thesis using es(1) by auto
qed

lemma idle_kick:
  assumes "store_lookup (fs_store u) (ow, i) = Some M" and "tl_status M = TlActive" and "candidates M = []"
    and "\<And>v. advance env M v = (Inr (), v)"
  shows "kick_and_reconcile env ow i u = (Inr 0, u)"
  using assms
  by (cases "fe_instance_registry env")
     (simp_all add: kick_and_reconcile_def fetch_bind bindE_run [of "advance _ _"] ok_run)

text \<open>a tasklist can be stranded. When the last task that is not terminal has an executor whose
  profile is gone, \<open>dispatch_one\<close> fails the task and returns success, and its comment leaves the rest
  to the next \<open>advance\<close> or watchdog tick. But the tasklist then stays \<open>Active\<close> with every task
  terminal: \<open>advance\<close> does nothing, the watchdog has no candidate, \<open>kick_and_reconcile\<close> does nothing;
  nobody makes it \<open>Failed\<close>, and a waiter on it is never told.\<close>

theorem missing_executor_strands:
  assumes "store_wf (fs_store s)" and "store_lookup (fs_store s) (tl_key L) = Some L"
    and "tl_status L = TlActive" and "t \<in> set (all_tasks L)"
    and "list_all (\<lambda>u. t_id u = t_id t \<or> is_terminal (t_status u)) (all_tasks L)"
    and "executor_missing env (tl_owner L) (dispatch_executor (tl_owner L) t)"
  shows "case dispatch_one env L t s of (r, s') \<Rightarrow> r = Inr () \<and> calls s' = calls s \<and> fs_watchers s' = fs_watchers s \<and>
     (\<exists>M. store_lookup (fs_store s') (tl_key L) = Some M \<and> tl_status M = TlActive \<and> any_failed M \<and>
        \<not> has_non_terminal_task M \<and> candidates M = [] \<and> advance env M s' = (Inr (), s') \<and>
        kick_and_reconcile env (tl_owner L) (tl_id L) s' = (Inr 0, s'))"
proof -
  let ?M = "failed_for_missing L t L"
  obtain es where es: "filter is_call es = []" "dispatch_one env L t s =
     (Inr (), s\<lparr>fs_store := put_meta ?M (fs_store s), fs_trace := fs_trace s @ es\<rparr>)"
    using missing_run [OF assms(6,2)] by blast
  let ?s' = "s\<lparr>fs_store := put_meta ?M (fs_store s), fs_trace := fs_trace s @ es\<rparr>"
  have M: "tl_key ?M = tl_key L" "tl_status ?M = TlActive" using assms(3) by (simp_all add: failed_for_missing_def)
  have term_all: "\<forall>u\<in>set (all_tasks ?M). is_terminal (t_status u)"
    using assms(5) by (auto simp: failed_for_missing_def list_all_iff)
  have "\<exists>u\<in>set (all_tasks ?M). t_status u = Failed"
    using assms(4) unfolding failed_for_missing_def all_tasks_map_tasks set_map by (intro bexI [OF _ imageI]) simp_all
  then have failed: "any_failed ?M" by (simp add: any_failed_def list_ex_iff)
  have nt: "\<not> has_non_terminal_task ?M" using term_all by (simp add: terminal_iff)
  have "u \<in> set (all_tasks ?M) \<Longrightarrow> t_status u \<noteq> InProgress" for u
    using term_all by (metis is_terminal_simps(5))
  then have cand: "candidates ?M = []" by (simp add: candidates_def filter_empty_conv)
  have adv: "advance env ?M u = (Inr (), u)" for u
    using nt M failed by (simp add: advance_def all_done_iff [symmetric] all_done_def ok_run)
  have look: "store_lookup (fs_store ?s') (tl_owner L, tl_id L) = Some ?M"
    using M(1) by (simp add: tl_key_def)
  have "kick_and_reconcile env (tl_owner L) (tl_id L) ?s' = (Inr 0, ?s')"
    by (rule idle_kick [OF look M(2) cand adv])
  then show ?thesis
    using es M look failed nt cand adv by (simp add: calls_def tl_key_def)
qed

definition orphan_task :: task where
  "orphan_task = (sample_task ''a'' [] Pending)
     \<lparr>t_assignment := Some \<lparr>ta_owner_agent_id = ''gone'', ta_mode = Pinned\<rparr>\<rparr>"

definition orphan_list :: tasklist where
  "orphan_list = sample_list (OwnerAgent ''P'') ''L'' TlActive [sample_group Seq [orphan_task]]"

lemma orphan_missing:
  "executor_missing sample_env (tl_owner orphan_list) (dispatch_executor (tl_owner orphan_list) orphan_task)"
  by (simp add: executor_missing_def dispatch_executor_def orphan_list_def orphan_task_def)

lemma missing_executor_strands_witness:
  "case dispatch_one sample_env orphan_list orphan_task (sample_feeder [orphan_list]) of (r, s') \<Rightarrow>
     \<exists>M. store_lookup (fs_store s') (OwnerAgent ''P'', ''L'') = Some M \<and> tl_status M = TlActive \<and>
       any_failed M \<and> advance sample_env M s' = (Inr (), s')"
  using missing_executor_strands [OF _ _ _ _ _ orphan_missing, of "sample_feeder [orphan_list]"]
  by (auto simp: orphan_list_def sample_store_wf orphan_task_def tl_key_def split: prod.splits)

text \<open>the same branch writes without looking at the stored status. Whatever the store says - the
  task may have been reported \<open>Completed\<close> since the caller's snapshot was taken - every task with that
  id is \<open>Failed\<close> afterwards, a move the task table forbids.\<close>

theorem missing_executor_overwrites:
  assumes "executor_missing env (tl_owner L) (dispatch_executor (tl_owner L) t)"
    and "store_lookup (fs_store s) (tl_key L) = Some M" and "tl_key M = tl_key L"
    and "find_task M (t_id t) = Some u" and "t_status u = Completed"
  shows "map_option t_status (task_at (fs_store (snd (dispatch_one env L t s))) (tl_key L) (t_id t)) = Some Failed \<and>
     \<not> is_valid_task_transition (t_status u) Failed"
proof -
  obtain es where "dispatch_one env L t s =
     (Inr (), s\<lparr>fs_store := put_meta (failed_for_missing L t M) (fs_store s), fs_trace := fs_trace s @ es\<rparr>)"
    using missing_run [OF assms(1,2)] by blast
  moreover have "tl_key (failed_for_missing L t M) = tl_key L"
    using assms(3) by (simp add: failed_for_missing_def)
  moreover have "map_option t_status (find_task (failed_for_missing L t M) (t_id t)) = Some Failed"
    using assms(4) find_task_id [OF assms(4)] by (simp add: failed_for_missing_def find_task_map_tasks)
  ultimately show ?thesis using assms(5) by (simp add: task_at_def is_valid_task_transition_def)
qed

lemma missing_executor_overwrites_witness:
  "map_option t_status (task_at (fs_store (snd (dispatch_one sample_env orphan_list orphan_task
      (sample_feeder [map_tasks (\<lambda>t. t\<lparr>t_status := Completed\<rparr>) orphan_list])))) (OwnerAgent ''P'', ''L'') ''a'') = Some Failed"
  using missing_executor_overwrites [OF orphan_missing,
      of "sample_feeder [map_tasks (\<lambda>t. t\<lparr>t_status := Completed\<rparr>) orphan_list]"
         "map_tasks (\<lambda>t. t\<lparr>t_status := Completed\<rparr>) orphan_list" "orphan_task\<lparr>t_status := Completed\<rparr>"]
  by (simp add: orphan_list_def orphan_task_def find_task_def)

end
