(* ===== verification/Feeder_Recovery.thy ===== *)
theory Feeder_Recovery
  imports Feeder_Stall
begin

text \<open>
  Recovery: the watchdog's classification and its sweep, one recovery of a stuck task, a run that ended
  without a report, a completion claimed without its outputs, a forced completion.
\<close>

section \<open>One reclaim\<close>

definition exhausted_list :: "(32 word \<Rightarrow> string) \<Rightarrow> task_id \<Rightarrow> tasklist \<Rightarrow> tasklist" where
  "exhausted_list msg k L = modify_task k (\<lambda>t. (reclaim_bump msg t)\<lparr>t_status := Failed\<rparr>) L"

lemma reclaim_run:
  assumes "store_lookup (fs_store s) (ow, i) = Some L" and "find_task L k = Some t" and "t_status t = InProgress"
  shows "in_store (try_reclaim_dispatch_by_owner ow i k (t_dispatch_token t) mx msg) s =
     (if mx \<le> sat_inc (t_attempt_count t)
      then (Inr (Exhausted (sat_inc (t_attempt_count t))), s\<lparr>fs_store := put_meta (exhausted_list msg k L) (fs_store s)\<rparr>)
      else (Inr (Claimed (sat_inc (t_attempt_count t)) (t_dispatch_token t + 1) (reclaim_bump msg t)),
            s\<lparr>fs_store := put_meta (modify_task k (reclaim_bump msg) L) (fs_store s)\<rparr>))"
  using assms by (simp add: in_store_run try_reclaim_dispatch_by_owner_def store_run exhausted_list_def)

text \<open>After an exhausted reclaim, the event and the terminal hook fail the tasklist.\<close>

lemma exhausted_run:
  assumes wf: "store_wf (fs_store s)" and L: "store_lookup (fs_store s) (ow, i) = Some L"
    and t: "find_task L k = Some t" and active: "tl_status L = TlActive"
  shows "case thenE (emit_task_updated env ow i k) (on_task_terminal env ow i k)
             (s\<lparr>fs_store := put_meta (exhausted_list msg k L) (fs_store s)\<rparr>) of (r, s') \<Rightarrow>
     r = Inr () \<and> calls s' = calls s \<and>
     map_option tl_status (store_lookup (fs_store s') (ow, i)) = Some TlFailed \<and>
     fs_registry s' (i, slot_agent ow t) \<noteq> Some k \<and> fs_dispatched_at s' (i, k) = None"
proof -
  let ?s0 = "s\<lparr>fs_store := put_meta (exhausted_list msg k L) (fs_store s)\<rparr>"
  obtain es where es: "filter is_call es = []"
    "emit_task_updated env ow i k ?s0 = (Inr (), ?s0\<lparr>fs_trace := fs_trace ?s0 @ es\<rparr>)"
    by (rule emitsE [OF emits_task_updated])
  let ?s1 = "?s0\<lparr>fs_trace := fs_trace ?s0 @ es\<rparr>"
  let ?t = "(reclaim_bump msg t)\<lparr>t_status := Failed\<rparr>"
  have key: "tl_key L = (ow, i)" using store_lookup_keyD [OF wf L] .
  have "store_wf (fs_store ?s1)" using wf by (simp add: store_wf_put)
  moreover have "store_lookup (fs_store ?s1) (ow, i) = Some (exhausted_list msg k L)"
    using key by (simp add: exhausted_list_def)
  moreover have "find_task (exhausted_list msg k L) k = Some ?t"
    using t by (simp add: exhausted_list_def find_task_modify_same)
  moreover have "tl_status (exhausted_list msg k L) = TlActive" using active by (simp add: exhausted_list_def)
  moreover have "slot_agent ow ?t = slot_agent ow t"
    by (simp add: slot_agent_def split: tasklist_owner.split)
  ultimately have "case on_task_terminal env ow i k ?s1 of (r, s') \<Rightarrow>
     r = Inr () \<and> calls s' = calls ?s1 \<and>
     map_option tl_status (store_lookup (fs_store s') (ow, i)) = Some TlFailed \<and>
     fs_registry s' (i, slot_agent ow t) \<noteq> Some k \<and> fs_dispatched_at s' (i, k) = None"
    using halted_terminal_run [of ?s1 ow i "exhausted_list msg k L" k ?t env] by (simp add: case_prod_beta)
  moreover have "calls ?s1 = calls s" using es(1) by (simp add: calls_def)
  ultimately show ?thesis by (simp add: bindE_run es(2))
qed

lemma call_run:
  "call_dispatcher env a p ow i k s =
     (case fe_dispatch_outcome env a i k of None \<Rightarrow> Inr () | Some e \<Rightarrow> Inl e,
      s\<lparr>fs_trace := fs_trace s @ [DispatchCall a p ow i k]\<rparr>)"
  by (simp add: call_dispatcher_def emit_def ok_run err_run split: option.split)

section \<open>The watchdog recovers one task\<close>

text \<open>The line the watchdog leaves in the task's error log.\<close>

definition idle_message :: "agent_id \<Rightarrow> 32 word \<Rightarrow> string" where
  "idle_message agent =
     attempt_message (idle_cause agent)"

text \<open>one recovery of a stuck task, in a consistent store. While attempts are left, the task stays in
  progress with its attempt counted, its token advanced and the reason logged, the agent's slot holds
  it with a fresh stamp and the observed mark gone, and the dispatcher is called exactly once, with the
  agent the watchdog was given and a reprompt around the rendered prompt. At the limit nothing is
  dispatched: the tasklist is \<open>Failed\<close> and the slot is free. So a task is reprompted fewer times than
  the limit, and a hung agent cannot loop for ever.\<close>

theorem recover_stuck_task_effect:
  assumes "store_wf (fs_store s)" and "store_lookup (fs_store s) (ow, i) = Some L" and "tl_status L = TlActive"
    and "find_task L k = Some t" and "t_status t = InProgress"
  shows "case recover_stuck_task env ow i agent k s of (r, s') \<Rightarrow>
     if fe_max_attempts env \<le> sat_inc (t_attempt_count t)
     then r = Inr True \<and> calls s' = calls s \<and>
          map_option tl_status (store_lookup (fs_store s') (ow, i)) = Some TlFailed \<and>
          fs_registry s' (i, slot_agent ow t) \<noteq> Some k \<and> fs_dispatched_at s' (i, k) = None
     else r = (case fe_dispatch_outcome env agent i k of None \<Rightarrow> Inr True | Some e \<Rightarrow> Inl e) \<and>
          task_at (fs_store s') (ow, i) k = Some (reclaim_bump (idle_message agent) t) \<and>
          calls s' = calls s @
            [DispatchCall agent (WatchdogReprompt k (t_expected_outputs t) (build_dispatch_prompt t)) ow i k] \<and>
          fs_registry s' (i, agent) = Some k \<and> fs_dispatched_at s' (i, k) = Some (fe_now env) \<and>
          (i, k) \<notin> fs_run_observed s'"
proof (cases "fe_max_attempts env \<le> sat_inc (t_attempt_count t)")
  case True
  let ?s0 = "s\<lparr>fs_store := put_meta (exhausted_list (idle_message agent) k L) (fs_store s)\<rparr>"
  have "recover_stuck_task env ow i agent k s =
      thenE (emit_task_updated env ow i k) (thenE (on_task_terminal env ow i k) (ok True)) ?s0"
    using assms True reclaim_run [OF assms(2,4,5)]
    by (simp add: recover_stuck_task_def fetch_bind bindE_run [of "in_store _"] idle_message_def)
  then have "recover_stuck_task env ow i agent k s =
      thenE (thenE (emit_task_updated env ow i k) (on_task_terminal env ow i k)) (ok True) ?s0"
    by (simp add: bindE_assoc)
  then show ?thesis
    using exhausted_run [OF assms(1,2,4,3), of env "idle_message agent"] True
    by (auto simp: bindE_run [of "thenE _ _"] ok_run case_prod_beta)
next
  case False
  have key: "tl_key L = (ow, i)" using store_lookup_keyD [OF assms(1,2)] .
  have "build_dispatch_prompt (reclaim_bump msg t) = build_dispatch_prompt t"
    "t_expected_outputs (reclaim_bump msg t) = t_expected_outputs t" for msg
    by (simp_all add: build_dispatch_prompt_def reclaim_bump_def Let_def)
  note same = this
  let ?bump = "reclaim_bump (idle_message agent)"
  let ?s1 = "s\<lparr>fs_store := put_meta (modify_task k ?bump L) (fs_store s)\<rparr>"
  have "recover_stuck_task env ow i agent k s =
      thenE (upd (\<lambda>s. s\<lparr>fs_registry := (fs_registry s)((i, agent) := Some k),
                         fs_dispatched_at := (fs_dispatched_at s)((i, k) := Some (fe_now env)),
                         fs_run_observed := fs_run_observed s - {(i, k)}\<rparr>))
       (thenE (call_dispatcher env agent
                 (WatchdogReprompt k (t_expected_outputs (?bump t)) (build_dispatch_prompt (?bump t))) ow i k)
              (ok True)) ?s1"
    using assms False reclaim_run [OF assms(2,4,5)]
    by (simp add: recover_stuck_task_def fetch_bind bindE_run [of "in_store _"] idle_message_def)
  also have "\<dots> = (case fe_dispatch_outcome env agent i k of None \<Rightarrow> Inr True | Some e \<Rightarrow> Inl e,
      ?s1\<lparr>fs_registry := (fs_registry s)((i, agent) := Some k),
          fs_dispatched_at := (fs_dispatched_at s)((i, k) := Some (fe_now env)),
          fs_run_observed := fs_run_observed s - {(i, k)},
          fs_trace := fs_trace s @
            [DispatchCall agent (WatchdogReprompt k (t_expected_outputs t) (build_dispatch_prompt t)) ow i k]\<rparr>)"
    by (simp add: bindE_run [of "call_dispatcher _ _ _ _ _ _"] call_run same ok_run split: option.split)
  finally show ?thesis
    using assms(4) key False by (simp add: calls_def task_at_def find_task_modify_same)
qed

definition exhausted_task_list :: tasklist where
  "exhausted_task_list = sample_list (OwnerTeam ''T'') ''L'' TlActive
     [sample_group Seq [(sample_task ''a'' ''x'' InProgress)\<lparr>t_attempt_count := 2\<rparr>]]"

lemma recover_stuck_task_effect_witness:
  "(case recover_stuck_task sample_env (OwnerTeam ''T'') ''L'' ''x'' ''a'' (sample_feeder [stuck_list]) of (r, s') \<Rightarrow>
      r = Inr True \<and> length (calls s') = 1) \<and>
   (case recover_stuck_task sample_env (OwnerTeam ''T'') ''L'' ''x'' ''a'' (sample_feeder [exhausted_task_list]) of (r, s') \<Rightarrow>
      r = Inr True \<and> calls s' = [] \<and> map_option tl_status (store_lookup (fs_store s') (OwnerTeam ''T'', ''L'')) = Some TlFailed)"
proof
  show "case recover_stuck_task sample_env (OwnerTeam ''T'') ''L'' ''x'' ''a'' (sample_feeder [stuck_list]) of (r, s') \<Rightarrow>
      r = Inr True \<and> length (calls s') = 1"
    using recover_stuck_task_effect [of "sample_feeder [stuck_list]" "OwnerTeam ''T''" "''L''" stuck_list "''a''"
        "sample_task ''a'' ''x'' InProgress" sample_env "''x''"]
    by (auto simp: stuck_list_def sample_store_wf find_task_def sat_inc_def word_le_nat_alt split: prod.splits)
  show "case recover_stuck_task sample_env (OwnerTeam ''T'') ''L'' ''x'' ''a'' (sample_feeder [exhausted_task_list]) of (r, s') \<Rightarrow>
      r = Inr True \<and> calls s' = [] \<and> map_option tl_status (store_lookup (fs_store s') (OwnerTeam ''T'', ''L'')) = Some TlFailed"
    using recover_stuck_task_effect [of "sample_feeder [exhausted_task_list]" "OwnerTeam ''T''" "''L''" exhausted_task_list "''a''"
        "(sample_task ''a'' ''x'' InProgress)\<lparr>t_attempt_count := 2\<rparr>" sample_env "''x''"]
    by (auto simp: exhausted_task_list_def sample_store_wf find_task_def sat_inc_def word_le_nat_alt split: prod.splits)
qed

section \<open>The watchdog leaves the healthy alone\<close>

lemma sweep_healthy:
  assumes "list_all (\<lambda>(agent, k). \<not> stuck s agent k) cs"
  shows "sweep_tasks env stuck ow i cs n s = (Inr n, s)"
  using assms by (induction cs) (auto simp: ok_run)

lemma sweeps_healthy:
  assumes "list_all (\<lambda>L. list_all (\<lambda>(agent, k). \<not> stuck s (tl_id L) agent k) (candidates L)) Ls"
  shows "sweep_tasklists env stuck Ls n s = (Inr n, s)"
  using assms by (induction Ls) (simp_all add: ok_run bindE_run sweep_healthy)

text \<open>a healthy system is left alone. If every in-progress task of every listed tasklist has a live
  run of its executor, or was dispatched less than the grace period ago and no run of it was ever
  observed, a watchdog tick recovers nothing and changes nothing: no store write, no event, no call.\<close>

theorem watchdog_leaves_healthy:
  assumes "fe_instance_registry env = Some running"
    and "list_all (\<lambda>L. list_all (\<lambda>(agent, k).
           running (registry_key (tl_id L) agent) > 0 \<or>
           (tl_id L, k) \<notin> fs_run_observed s \<and>
           (case fs_dispatched_at s (tl_id L, k) of
              Some at \<Rightarrow> fe_now env - at < fe_watchdog_grace env | None \<Rightarrow> False)) (candidates L))
         (active_tasklists s)"
  shows "watchdog_tick env s = (Inr 0, s)"
proof -
  have "list_all (\<lambda>L. list_all (\<lambda>(agent, k).
          \<not> task_liveness_of env running s (tl_id L) agent k = Stuck) (candidates L)) (active_tasklists s)"
    using assms(2) by (rule list.pred_mono_strong)
      (auto simp: list_all_iff task_liveness_of_def split: option.splits if_splits)
  from sweeps_healthy [of "\<lambda>s i agent k. task_liveness_of env running s i agent k = Stuck" s, OF this]
  show ?thesis using assms(1) by (simp add: watchdog_tick_def)
qed

lemma sample_active:
  "active_tasklists (sample_feeder [sample_list (OwnerTeam tid) i TlActive gs]) = [sample_list (OwnerTeam tid) i TlActive gs]"
  by (simp add: active_tasklists_def list_active_across_teams_def list_active_across_agents_def team_dirs_def
      agent_dirs_def list_team_def newest_first_def sample_store_def)

lemma active_update: "active_tasklists (s\<lparr>fs_dispatched_at := d\<rparr>) = active_tasklists s"
  by (simp add: active_tasklists_def)

lemma watchdog_leaves_healthy_witness:
  "watchdog_tick sample_env ((sample_feeder [stuck_list])\<lparr>fs_dispatched_at := (\<lambda>_. Some 90)\<rparr>)
     = (Inr 0, (sample_feeder [stuck_list])\<lparr>fs_dispatched_at := (\<lambda>_. Some 90)\<rparr>)"
  by (rule watchdog_leaves_healthy [of _ "\<lambda>_. 0"])
     (simp_all add: active_update stuck_list_def sample_active candidates_def)

section \<open>A run that ended without a report, and a completion without its outputs\<close>

lemma bump_prompt:
  "build_dispatch_prompt (reclaim_bump msg t) = build_dispatch_prompt t"
  "t_expected_outputs (reclaim_bump msg t) = t_expected_outputs t"
  by (simp_all add: build_dispatch_prompt_def reclaim_bump_def Let_def)

lemma after_claim_run:
  assumes "store_wf (fs_store s)" and "store_lookup (fs_store s) (ow, i) = Some L" and "tl_status L = TlActive"
    and "find_task L k = Some t" and "t_status t = InProgress"
    and "\<And>u. reprompt (reclaim_bump msg t) u = call_dispatcher env a p ow i k u"
  shows "case bindE (in_store (try_reclaim_dispatch_by_owner ow i k (t_dispatch_token t) (fe_max_attempts env) msg))
             (after_reclaim env ow i k reprompt) s of (r, s') \<Rightarrow>
     if fe_max_attempts env \<le> sat_inc (t_attempt_count t)
     then r = Inr () \<and> calls s' = calls s \<and>
          map_option tl_status (store_lookup (fs_store s') (ow, i)) = Some TlFailed \<and>
          fs_registry s' (i, slot_agent ow t) \<noteq> Some k \<and> fs_dispatched_at s' (i, k) = None
     else r = (case fe_dispatch_outcome env a i k of None \<Rightarrow> Inr () | Some e \<Rightarrow> Inl e) \<and>
          task_at (fs_store s') (ow, i) k = Some (reclaim_bump msg t) \<and>
          calls s' = calls s @ [DispatchCall a p ow i k] \<and>
          fs_dispatched_at s' = fs_dispatched_at s"
proof (cases "fe_max_attempts env \<le> sat_inc (t_attempt_count t)")
  case True
  then show ?thesis
    using exhausted_run [OF assms(1,2,4,3), of env msg] reclaim_run [OF assms(2,4,5)]
    by (simp add: bindE_run [of "in_store _"] after_reclaim_def)
next
  case False
  have "tl_key L = (ow, i)" using store_lookup_keyD [OF assms(1,2)] .
  then show ?thesis
    using False reclaim_run [OF assms(2,4,5)] assms(4)
    by (simp add: bindE_run [of "in_store _"] after_reclaim_def assms(6) call_run calls_def task_at_def
        find_task_modify_same)
qed

text \<open>a run that ended without reporting its task, found through the agent's slot. Below the limit the
  attempt is counted and the task is reprompted once; at the limit the tasklist fails. But the
  reprompt goes to the task's \<open>owner_agent_id\<close>, not to the executor whose slot named the task: for a
  task of an agent-owned tasklist that a classifier assigned, which has an assignment and no
  \<open>owner_agent_id\<close>, it is handed to the agent with the empty name. \<open>recover_stuck_task\<close> reprompts
  the executor.\<close>

theorem on_run_ended_effect:
  assumes "fs_registry s (i, agent) = Some k"
    and "store_wf (fs_store s)" and "store_lookup (fs_store s) (ow, i) = Some L" and "tl_status L = TlActive"
    and "find_task L k = Some t" and "t_status t = InProgress"
  shows "case on_run_ended env ow i agent s of (r, s') \<Rightarrow>
     if fe_max_attempts env \<le> sat_inc (t_attempt_count t)
     then r = Inr () \<and> calls s' = calls s \<and>
          map_option tl_status (store_lookup (fs_store s') (ow, i)) = Some TlFailed \<and>
          fs_registry s' (i, slot_agent ow t) \<noteq> Some k \<and> fs_dispatched_at s' (i, k) = None
     else r = (case fe_dispatch_outcome env (t_owner_agent_id t) i k of None \<Rightarrow> Inr () | Some e \<Rightarrow> Inl e) \<and>
          map_option t_attempt_count (task_at (fs_store s') (ow, i) k) = Some (sat_inc (t_attempt_count t)) \<and>
          calls s' = calls s @
            [DispatchCall (t_owner_agent_id t)
               (StaleRunReprompt k (t_expected_outputs t) (build_dispatch_prompt t)) ow i k]"
proof -
  let ?msg = "attempt_message stale_run_cause"
  let ?re = "\<lambda>t'. call_dispatcher env (t_owner_agent_id t')
                    (StaleRunReprompt k (t_expected_outputs t') (build_dispatch_prompt t')) ow i k"
  have "on_run_ended env ow i agent s =
      bindE (in_store (try_reclaim_dispatch_by_owner ow i k (t_dispatch_token t) (fe_max_attempts env) ?msg))
             (after_reclaim env ow i k ?re) s"
    using assms by (simp add: on_run_ended_def current_task_for_agent_def fetch_bind ok_or_def)
  then show ?thesis
    using after_claim_run [OF assms(2-6), of ?re ?msg env "t_owner_agent_id t"
        "StaleRunReprompt k (t_expected_outputs t) (build_dispatch_prompt t)"]
    by (auto simp: bump_prompt case_prod_beta)
qed

definition classified_task :: task where
  "classified_task = (sample_task ''a'' [] InProgress)
     \<lparr>t_assignment := Some \<lparr>ta_owner_agent_id = ''x'', ta_mode = Classified\<rparr>\<rparr>"

definition classified_list :: tasklist where
  "classified_list = sample_list (OwnerAgent ''P'') ''L'' TlActive [sample_group Seq [classified_task]]"

lemma on_run_ended_effect_witness:
  "case on_run_ended sample_env (OwnerAgent ''P'') ''L'' ''x''
      ((sample_feeder [classified_list])\<lparr>fs_registry := (\<lambda>_. Some ''a'')\<rparr>) of (r, s') \<Rightarrow>
     r = Inr () \<and> (\<exists>p. calls s' = [DispatchCall [] p (OwnerAgent ''P'') ''L'' ''a''])"
  using on_run_ended_effect [of "(sample_feeder [classified_list])\<lparr>fs_registry := (\<lambda>_. Some ''a'')\<rparr>" "''L''" "''x''" "''a''"
      "OwnerAgent ''P''" classified_list classified_task sample_env]
  by (auto simp: classified_list_def classified_task_def sample_store_wf find_task_def sat_inc_def word_le_nat_alt
      split: prod.splits)

text \<open>a completion claimed without its declared outputs is not accepted. With an output missing from
  the workspace and attempts left, the task stays in progress with the attempt counted and the agent is
  asked again, once, for the missing files; at the limit the tasklist fails. Nothing is dispatched
  otherwise.\<close>

theorem missing_outputs_not_completed:
  assumes "missing_outputs env L t \<noteq> []"
    and "store_wf (fs_store s)" and "store_lookup (fs_store s) (ow, i) = Some L" and "tl_status L = TlActive"
    and "find_task L k = Some t" and "t_status t = InProgress"
  shows "case validate_and_complete env ow i k s of (r, s') \<Rightarrow>
     if fe_max_attempts env \<le> sat_inc (t_attempt_count t)
     then r = Inr () \<and> calls s' = calls s \<and>
          map_option tl_status (store_lookup (fs_store s') (ow, i)) = Some TlFailed \<and>
          fs_registry s' (i, slot_agent ow t) \<noteq> Some k \<and> fs_dispatched_at s' (i, k) = None
     else r = (case fe_dispatch_outcome env (t_owner_agent_id t) i k of None \<Rightarrow> Inr () | Some e \<Rightarrow> Inl e) \<and>
          map_option t_status (task_at (fs_store s') (ow, i) k) = Some InProgress \<and>
          map_option t_attempt_count (task_at (fs_store s') (ow, i) k) = Some (sat_inc (t_attempt_count t)) \<and>
          calls s' = calls s @
            [DispatchCall (t_owner_agent_id t)
               (MissingOutputsReprompt (tl_workspace_dir L) (missing_outputs env L t) k (build_dispatch_prompt t)) ow i k]"
proof -
  let ?msg = "attempt_message (''missing expected outputs: ['' @ join '', '' (missing_outputs env L t) @ '']'')"
  let ?re = "\<lambda>t'. call_dispatcher env (t_owner_agent_id t')
      (MissingOutputsReprompt (tl_workspace_dir L) (missing_outputs env L t) k (build_dispatch_prompt t')) ow i k"
  have "validate_and_complete env ow i k s =
      bindE (in_store (try_reclaim_dispatch_by_owner ow i k (t_dispatch_token t) (fe_max_attempts env) ?msg))
             (after_reclaim env ow i k ?re) s"
    using assms by (simp add: validate_and_complete_def fetch_bind ok_or_def Let_def)
  then show ?thesis
    using after_claim_run [OF assms(2-6), of ?re ?msg env "t_owner_agent_id t"
        "MissingOutputsReprompt (tl_workspace_dir L) (missing_outputs env L t) k (build_dispatch_prompt t)"] assms(6)
    by (auto simp: bump_prompt case_prod_beta)
qed

lemma missing_outputs_not_completed_witness:
  "case validate_and_complete (sample_env\<lparr>fe_workspace_file_exists := (\<lambda>_ _. False)\<rparr>) (OwnerTeam ''T'') ''L'' ''a''
      (sample_feeder [map_tasks (\<lambda>t. t\<lparr>t_expected_outputs := [''f'']\<rparr>) stuck_list]) of (r, s') \<Rightarrow>
     r = Inr () \<and> map_option t_status (task_at (fs_store s') (OwnerTeam ''T'', ''L'') ''a'') = Some InProgress"
  using missing_outputs_not_completed [of "sample_env\<lparr>fe_workspace_file_exists := (\<lambda>_ _. False)\<rparr>"
      "map_tasks (\<lambda>t. t\<lparr>t_expected_outputs := [''f'']\<rparr>) stuck_list"
      "(sample_task ''a'' ''x'' InProgress)\<lparr>t_expected_outputs := [''f'']\<rparr>"
      "sample_feeder [map_tasks (\<lambda>t. t\<lparr>t_expected_outputs := [''f'']\<rparr>) stuck_list]" "OwnerTeam ''T''" "''L''" "''a''"]
  by (auto simp: stuck_list_def sample_store_wf find_task_def sat_inc_def word_le_nat_alt missing_outputs_def
      split: prod.splits)

section \<open>A forced completion\<close>

text \<open>The operator's forced completion writes \<open>Completed\<close> up front \<open>for any non-terminal status\<close>, says
  its comment. For a pending or blocked task it does not: the write goes through the task table,
  which refuses the move, so the call fails with \<open>InvalidTasklistTransition\<close> before the hook runs, and
  nothing has changed.\<close>

theorem force_complete_refuses_undispatched:
  assumes "store_lookup (fs_store s) (ow, i) = Some L" and "find_task L k = Some t"
    and "t_status t = Pending \<or> t_status t = Blocked"
  shows "force_complete_and_advance env ow i k s =
     (Inl (InvalidTasklistTransition (TaskMove k (t_status t) Completed)), s)"
proof -
  have "\<not> is_terminal (t_status t)" and "\<not> is_valid_task_transition (t_status t) Completed"
    using assms(3) by (auto simp: is_valid_task_transition_def)
  moreover have "in_store (set_task_status_by_owner ow i k Completed) s =
      (Inl (InvalidTasklistTransition (TaskMove k (t_status t) Completed)), s)"
    using assms(1,2) calculation(2)
    by (simp add: in_store_run set_task_status_by_owner_eq mutate_by_owner_def bindE_assoc store_run
        set_task_status_closure_def)
  ultimately show ?thesis
    using assms(1,2) by (simp add: force_complete_and_advance_def fetch_bind ok_or_def bindE_run [of "in_store _"] bindE_assoc
        bindE_run [of "thenE (in_store _) _"] bindE_Inl)
qed

lemma force_complete_refuses_undispatched_witness:
  "force_complete_and_advance sample_env (OwnerTeam ''T'') ''L'' ''a'' (sample_feeder [race_list]) =
     (Inl (InvalidTasklistTransition (TaskMove ''a'' Pending Completed)), sample_feeder [race_list])"
  using force_complete_refuses_undispatched [of "sample_feeder [race_list]" "OwnerTeam ''T''" "''L''" race_list "''a''"
      "sample_task ''a'' ''x'' Pending" sample_env]
  by (simp add: race_list_def find_task_def)

section \<open>A completion that is accepted\<close>

lemma find_status_cong:
  assumes "map t_id xs = map t_id ys" and "map t_status xs = map t_status ys"
  shows "map_option t_status (List.find (\<lambda>t. t_id t = k) xs) = map_option t_status (List.find (\<lambda>t. t_id t = k) ys)"
proof -
  have "length xs = length ys" using assms(1) by (rule map_eq_imp_length_eq)
  then show ?thesis using assms by (induction rule: list_induct2) auto
qed

lemma same_status_task:
  "same_status L M \<Longrightarrow> map_option t_status (find_task M k) = map_option t_status (find_task L k)"
  unfolding find_task_def same_status_def task_ids_def by (intro find_status_cong) auto

text \<open>The terminal hook of a task that did not fail, once every task is terminal and none failed.\<close>

lemma last_terminal_run:
  assumes wf: "store_wf (fs_store s)" and L: "store_lookup (fs_store s) (ow, i) = Some L"
    and t: "find_task L k = Some t" and fin: "\<not> has_non_terminal_task L" "\<not> any_failed L"
    and active: "tl_status L = TlActive"
  shows "case on_task_terminal env ow i k s of (r, s') \<Rightarrow>
     r = Inr () \<and> calls s' = calls s \<and>
     map_option tl_status (store_lookup (fs_store s') (ow, i)) = Some TlCompleted \<and>
     map_option t_status (task_at (fs_store s') (ow, i) k) = Some (t_status t)"
proof -
  have key: "tl_key L = (ow, i)" using store_lookup_keyD [OF wf L] .
  have nf: "t_status t \<noteq> Failed"
    using find_task_SomeD [OF t] fin(2) by (auto simp: any_failed_def list_ex_iff)
  obtain rg where free: "free_task_slot ow L i k s =
     (Inr (), s\<lparr>fs_registry := rg, fs_dispatched_at := (fs_dispatched_at s)((i, k) := None),
               fs_run_observed := fs_run_observed s - {(i, k)}\<rparr>)"
    using free_run [of ow L i k s] by blast
  let ?s1 = "s\<lparr>fs_registry := rg, fs_dispatched_at := (fs_dispatched_at s)((i, k) := None),
               fs_run_observed := fs_run_observed s - {(i, k)}\<rparr>"
  have halt: "halt_on_failure env ow L i k ?s1 = (Inr L, ?s1)"
    using t nf by (intro no_halt_run) simp
  let ?s2 = "snd (record_progress env ow L i k ?s1)"
  obtain x where x: "fst (record_progress env ow L i k ?s1) = Inr x" "calls ?s2 = calls ?s1"
    by (rule quietE [OF quiet_record])
  have run: "on_task_terminal env ow i k s = advance env L ?s2"
    unfolding on_task_terminal_def fetch_bind L option.case
    by (simp only: bindE_run free halt x(1) fst_conv snd_conv sum.case)
  have wf1: "store_wf (fs_store ?s1)" using wf by simp
  obtain M where M: "store_lookup (fs_store ?s2) (ow, i) = Some M" "same_status L M"
    using evolves_lookup(2) [OF statuses_record wf1, of "(ow, i)" env ow L i k] L
    by (auto simp: option_rel_Some1)
  have wf2: "store_wf (fs_store ?s2)" using evolves_lookup(1) [OF statuses_record wf1] .
  have keyM: "tl_key M = (ow, i)" using store_lookup_keyD [OF wf2 M(1)] .
  obtain es where es: "filter is_call es = []" "complete_tasklist env L ?s2 =
     (Inr (), ?s2\<lparr>fs_store := put_meta (leave_active (fe_now env) TlCompleted M) (fs_store ?s2),
        fs_watchers := (fs_watchers ?s2)(tl_id M := None), fs_trace := fs_trace ?s2 @ es\<rparr>)"
    using complete_run [of ?s2 L M env] M key active by (auto simp: same_status_def)
  have "advance env L ?s2 = complete_tasklist env L ?s2"
    using active fin by (simp add: advance_def all_done_iff [symmetric] all_done_def)
  then show ?thesis
    using es x(2) keyM same_status_task [OF M(2), of k] t
    by (simp add: run calls_def task_at_def find_task_def)
qed

text \<open>the last completion completes the tasklist. When an in-progress task reports completion with
  its outputs in place, and every other task is completed or skipped, the call succeeds, the stored
  task is \<open>Completed\<close>, the stored tasklist is \<open>Completed\<close>, and nothing is dispatched.\<close>

theorem last_completion_completes:
  assumes "missing_outputs env L t = []"
    and "store_wf (fs_store s)" and "store_lookup (fs_store s) (ow, i) = Some L" and "tl_status L = TlActive"
    and "find_task L k = Some t" and "t_status t = InProgress" and "distinct_tasks L"
    and "list_all (\<lambda>u. t_id u = k \<or> t_status u = Completed \<or> t_status u = Skipped) (all_tasks L)"
  shows "case validate_and_complete env ow i k s of (r, s') \<Rightarrow>
     r = Inr () \<and> calls s' = calls s \<and>
     map_option tl_status (store_lookup (fs_store s') (ow, i)) = Some TlCompleted \<and>
     map_option t_status (task_at (fs_store s') (ow, i) k) = Some Completed"
proof -
  let ?M = "modify_task k (\<lambda>t. t\<lparr>t_status := Completed\<rparr>) L"
  have key: "tl_key L = (ow, i)" using store_lookup_keyD [OF assms(2,3)] .
  let ?s0 = "s\<lparr>fs_store := put_meta ?M (fs_store s)\<rparr>"
  have w: "in_store (set_task_status_by_owner ow i k Completed) s = (Inr ?M, ?s0)"
    using assms(3,5,6)
    by (simp add: in_store_run set_task_status_by_owner_eq mutate_by_owner_def bindE_assoc store_run
        set_task_status_closure_def is_valid_task_transition_def)
  obtain es where es: "filter is_call es = []"
    "emit_task_updated env ow i k ?s0 = (Inr (), ?s0\<lparr>fs_trace := fs_trace ?s0 @ es\<rparr>)"
    by (rule emitsE [OF emits_task_updated])
  let ?s1 = "?s0\<lparr>fs_trace := fs_trace ?s0 @ es\<rparr>"
  have run: "validate_and_complete env ow i k s = on_task_terminal env ow i k ?s1"
    unfolding validate_and_complete_def fetch_bind assms(3) option.case assms(5) ok_or_def bindE_ok_left Let_def assms(1)
    by (simp only: simp_thms if_True bindE_run w es(2) fst_conv snd_conv sum.case)
  have tasks: "all_tasks ?M = map (\<lambda>u. if t_id u = k then u\<lparr>t_status := Completed\<rparr> else u) (all_tasks L)"
    using assms(7) by (simp add: modify_first_distinct distinct_tasks_def task_ids_def)
  have "\<forall>u\<in>set (all_tasks ?M). t_status u = Completed \<or> t_status u = Skipped"
    unfolding tasks using assms(8) by (auto simp: list_all_iff)
  then have "\<not> has_non_terminal_task ?M" "\<not> any_failed ?M"
    by (auto simp: terminal_iff any_failed_def list_ex_iff)
  moreover have "store_wf (fs_store ?s1)" using assms(2) by (simp add: store_wf_put)
  moreover have "store_lookup (fs_store ?s1) (ow, i) = Some ?M" using key by simp
  moreover have "find_task ?M k = Some (t\<lparr>t_status := Completed\<rparr>)"
    using assms(5) by (simp add: find_task_modify_same)
  ultimately show ?thesis
    using last_terminal_run [of ?s1 ow i ?M k "t\<lparr>t_status := Completed\<rparr>" env] assms(4) es(1)
    by (simp add: run calls_def case_prod_beta)
qed

lemma last_completion_completes_witness:
  "case validate_and_complete sample_env (OwnerTeam ''T'') ''L'' ''a'' (sample_feeder [stuck_list]) of (r, s') \<Rightarrow>
     r = Inr () \<and> map_option tl_status (store_lookup (fs_store s') (OwnerTeam ''T'', ''L'')) = Some TlCompleted"
  using last_completion_completes [of sample_env stuck_list "sample_task ''a'' ''x'' InProgress" "sample_feeder [stuck_list]"
      "OwnerTeam ''T''" "''L''" "''a''"]
  by (auto simp: stuck_list_def sample_store_wf find_task_def missing_outputs_def distinct_tasks_def task_ids_def
      split: prod.splits)

section \<open>Everything the feeder does by itself\<close>

text \<open>C5: what the feeder may do on its own, from any state with a well-formed store: \<open>advance\<close>, the two run
  hooks, the watchdog, the startup reconciliation, the kick and the startup advance keep the store
  well-formed, and take every stored tasklist through a \<open>feeder_move\<close> - no task is added, dropped,
  re-planned or returned to \<open>Pending\<close>, none is marked \<open>Completed\<close>, attempt counts never fall, logs and
  comments only grow, and a tasklist only ever goes from active or paused to completed or failed.\<close>

theorem autonomous_feeder_moves:
  "evolves feeder_move (advance env L) \<and> evolves feeder_move (on_task_terminal env ow i k) \<and>
   evolves feeder_move (on_run_ended env ow i agent) \<and>
   evolves feeder_move (watchdog_tick env) \<and>
   evolves feeder_move (reconcile_zombies_on_start env) \<and>
   evolves feeder_move (kick_and_reconcile env ow i) \<and>
   evolves feeder_move (advance_all_active env)"
  by (intro conjI moves_advance moves_on_task_terminal moves_on_run_ended moves_watchdog_tick moves_reconcile
      moves_kick moves_advance_all)

end
