(* ===== verification/Feeder_Control.thy ===== *)
theory Feeder_Control
  imports Feeder_Recovery
begin

text \<open>
  The operator's transitions - continue, skip, discard, replay - and what the feeder reports: the
  terminal report, the terminal watcher.
\<close>

section \<open>Shared runs\<close>

lemma emits_forE: "(\<And>x. emits (body x)) \<Longrightarrow> emits (forE xs body)"
  by (induction xs) (simp_all add: emits_ok emits_then)

lemma mutate_run:
  "in_store (mutate tid i f) s =
     (case store_lookup (fs_store s) (OwnerTeam tid, i) of
        None \<Rightarrow> (Inl (TasklistNotFound i), s)
      | Some L \<Rightarrow> (case f L of
            Inl e \<Rightarrow> (Inl e, s)
          | Inr (b, M) \<Rightarrow> (Inr (b, M), s\<lparr>fs_store := put_meta M (fs_store s)\<rparr>)))"
  by (auto simp: in_store_run mutate_def mutate_by_owner_def store_run split: option.split sum.split prod.split)

text \<open>Another tasklist of the team holds the slot.\<close>

definition slot_taken :: "store \<Rightarrow> team_id \<Rightarrow> tasklist_id \<Rightarrow> tasklist option" where
  "slot_taken s tid i = (case find_active s tid of Some x \<Rightarrow> if tl_id x \<noteq> i then Some x else None | None \<Rightarrow> None)"

lemma check_slot_run:
  "check_slot_free tid i s =
     (case slot_taken (fs_store s) tid i of
        Some x \<Rightarrow> Inl (TasklistAlreadyActive tid (tl_id x)) | None \<Rightarrow> Inr (), s)"
  by (simp add: check_slot_free_def slot_taken_def err_run ok_run split: option.split)

lemma all_tasks_status [simp]: "all_tasks (L\<lparr>tl_status := st\<rparr>) = all_tasks L"
  by (simp add: all_tasks_def)

section \<open>continue\<close>

definition continued :: "tasklist \<Rightarrow> tasklist" where
  "continued L = map_tasks reset_failed_task (L\<lparr>tl_status := TlActive\<rparr>)"

text \<open>\<open>continue_tasklist\<close>. It refuses, changing nothing, when another tasklist of the team holds the slot
  or when the tasklist is not \<open>Failed\<close>. Otherwise the stored tasklist becomes active and exactly its
  failed tasks are reset - pending, no attempts, empty log - while every other task is untouched; and
  what remains is to advance it: nothing was dispatched on the way.\<close>

theorem continue_effect:
  "case store_lookup (fs_store s) (OwnerTeam tid, i) of
     None \<Rightarrow> True
   | Some L \<Rightarrow>
       (case slot_taken (fs_store s) tid i of
          Some x \<Rightarrow> continue_tasklist env tid i s = (Inl (TasklistAlreadyActive tid (tl_id x)), s)
        | None \<Rightarrow>
            if tl_status L \<noteq> TlFailed
            then continue_tasklist env tid i s =
                   (Inl (InvalidTasklistTransition (RefusedTasklist ''continue'' (tl_id L) (tl_status L))), s)
            else \<exists>es. filter is_call es = [] \<and>
                   all_tasks (continued L) = map reset_failed_task (all_tasks L) \<and>
                   tl_status (continued L) = TlActive \<and>
                   continue_tasklist env tid i s =
                     thenE (advance env (continued L)) (ok (continued L))
                       (s\<lparr>fs_store := put_meta (continued L) (fs_store s), fs_trace := fs_trace s @ es\<rparr>))"
proof (cases "store_lookup (fs_store s) (OwnerTeam tid, i)")
  case None
  then show ?thesis by simp
next
  case (Some L)
  show ?thesis
  proof (cases "slot_taken (fs_store s) tid i")
    case taken: (Some x)
    then show ?thesis using Some by (simp add: continue_tasklist_def bindE_run [of "check_slot_free _ _"] check_slot_run)
  next
    case free: None
    show ?thesis
    proof (cases "tl_status L = TlFailed")
      case False
      then show ?thesis using Some free
        by (simp add: continue_tasklist_def bindE_run [of "check_slot_free _ _"] check_slot_run
            bindE_run [of "in_store _"] mutate_run continue_closure_def)
    next
      case True
      let ?ids = "failed_ids L"
      let ?s0 = "s\<lparr>fs_store := put_meta (continued L) (fs_store s)\<rparr>"
      let ?ev = "thenE (emit_tasklist_status_changed env (OwnerTeam tid) i TlActive)
        (thenE (forE ?ids (emit_task_updated env (OwnerTeam tid) i))
               (if ?ids \<noteq> [] then emit_lifecycle_wake env tid i TaskRevived else ok ()))"
      have "emits ?ev" by (intro emits_rules emits_forE emits_methods)
      then obtain es where es: "filter is_call es = []" "?ev ?s0 = (Inr (), ?s0\<lparr>fs_trace := fs_trace ?s0 @ es\<rparr>)"
        by (rule emitsE)
      have "continue_tasklist env tid i s = thenE ?ev (thenE (advance env (continued L)) (ok (continued L))) ?s0"
        using Some free True
        by (simp add: continue_tasklist_def bindE_run [of "check_slot_free _ _"] check_slot_run
            bindE_run [of "in_store _"] mutate_run continue_closure_def continued_def bindE_assoc)
      also have "\<dots> = thenE (advance env (continued L)) (ok (continued L)) (?s0\<lparr>fs_trace := fs_trace ?s0 @ es\<rparr>)"
        by (simp only: bindE_run [of ?ev] es(2) fst_conv snd_conv sum.case)
      finally show ?thesis using Some free True es(1)
        by (auto simp: continued_def)
    qed
  qed
qed

section \<open>skip\<close>

definition skipped :: "task_id \<Rightarrow> tasklist \<Rightarrow> tasklist" where
  "skipped k L = (let M = modify_task k (\<lambda>t. t\<lparr>t_status := Skipped\<rparr>) L in
     if \<not> any_failed M \<and> tl_status M = TlFailed then M\<lparr>tl_status := TlActive\<rparr> else M)"

text \<open>\<open>skip_task\<close> on a failed task of a stored tasklist whose task ids are distinct. The task becomes
  \<open>Skipped\<close> and no other task changes. A failed tasklist comes back to life exactly when this was
  its last failed task; then the team's slot must be free, else the call is refused and nothing
  changes. Only a live tasklist is advanced, and nothing is dispatched before that.\<close>

theorem skip_effect:
  assumes "store_lookup (fs_store s) (OwnerTeam tid, i) = Some L" and "find_task L k = Some t"
    and "t_status t = Failed" and "distinct_tasks L"
  shows "all_tasks (skipped k L) = map (\<lambda>u. if t_id u = k then u\<lparr>t_status := Skipped\<rparr> else u) (all_tasks L) \<and>
    tl_status (skipped k L) = (if tl_status L = TlFailed \<and>
        filter (\<lambda>u. t_id u \<noteq> k \<and> t_status u = Failed) (all_tasks L) = [] then TlActive else tl_status L) \<and>
    (case if skip_will_revive L k then slot_taken (fs_store s) tid i else None of
       Some x \<Rightarrow> skip_task env tid i k s = (Inl (TasklistAlreadyActive tid (tl_id x)), s)
     | None \<Rightarrow> \<exists>es. filter is_call es = [] \<and>
         skip_task env tid i k s =
           thenE (if tl_status (skipped k L) = TlActive then advance env (skipped k L) else ok ()) (ok (skipped k L))
             (s\<lparr>fs_store := put_meta (skipped k L) (fs_store s), fs_trace := fs_trace s @ es\<rparr>))"
proof (intro conjI)
  let ?M = "modify_task k (\<lambda>t. t\<lparr>t_status := Skipped\<rparr>) L"
  have all: "all_tasks ?M = map (\<lambda>u. if t_id u = k then u\<lparr>t_status := Skipped\<rparr> else u) (all_tasks L)"
    using assms(4) by (simp add: modify_first_distinct distinct_tasks_def task_ids_def)
  then show "all_tasks (skipped k L) = map (\<lambda>u. if t_id u = k then u\<lparr>t_status := Skipped\<rparr> else u) (all_tasks L)"
    by (simp add: skipped_def Let_def)
  have "\<not> any_failed ?M \<longleftrightarrow> filter (\<lambda>u. t_id u \<noteq> k \<and> t_status u = Failed) (all_tasks L) = []"
    unfolding any_failed_def all by (auto simp: list_ex_iff filter_empty_conv)
  then show "tl_status (skipped k L) = (if tl_status L = TlFailed \<and>
        filter (\<lambda>u. t_id u \<noteq> k \<and> t_status u = Failed) (all_tasks L) = [] then TlActive else tl_status L)"
    by (auto simp: skipped_def Let_def)
  have closure: "skip_closure k L = Inr ((), skipped k L)"
    using assms(2,3) by (simp add: skip_closure_def skipped_def Let_def)
  show "case if skip_will_revive L k then slot_taken (fs_store s) tid i else None of
       Some x \<Rightarrow> skip_task env tid i k s = (Inl (TasklistAlreadyActive tid (tl_id x)), s)
     | None \<Rightarrow> \<exists>es. filter is_call es = [] \<and>
         skip_task env tid i k s =
           thenE (if tl_status (skipped k L) = TlActive then advance env (skipped k L) else ok ()) (ok (skipped k L))
             (s\<lparr>fs_store := put_meta (skipped k L) (fs_store s), fs_trace := fs_trace s @ es\<rparr>)"
  proof (cases "if skip_will_revive L k then slot_taken (fs_store s) tid i else None")
    case (Some x)
    then have "skip_will_revive L k" "slot_taken (fs_store s) tid i = Some x" by (auto split: if_splits)
    then show ?thesis using assms
      by (simp add: skip_task_def fetch_bind ok_or_def bindE_run [of "check_slot_free _ _"] check_slot_run)
  next
    case None
    let ?s0 = "s\<lparr>fs_store := put_meta (skipped k L) (fs_store s)\<rparr>"
    let ?ev = "thenE (emit_task_updated env (OwnerTeam tid) i k)
       (if tl_status (skipped k L) = TlActive \<and> tl_status L \<noteq> TlActive
        then thenE (emit_tasklist_status_changed env (OwnerTeam tid) i TlActive)
                   (emit_lifecycle_wake env tid i TaskRevived)
        else ok ())"
    let ?tail = "thenE (if tl_status (skipped k L) = TlActive then advance env (skipped k L) else ok ()) (ok (skipped k L))"
    have "emits ?ev" by (intro emits_rules emits_methods)
    then obtain es where es: "filter is_call es = []" "?ev ?s0 = (Inr (), ?s0\<lparr>fs_trace := fs_trace ?s0 @ es\<rparr>)"
      by (rule emitsE)
    have w: "in_store (mutate tid i (skip_closure k)) s = (Inr ((), skipped k L), ?s0)"
      using assms(1) closure by (simp add: mutate_run)
    have chk: "(if skip_will_revive L k then check_slot_free tid i else ok ()) s = (Inr (), s)"
      using None by (auto simp: check_slot_run ok_run)
    have "skip_task env tid i k s = thenE ?ev ?tail ?s0"
      using assms(1-3)
      by (simp add: skip_task_def fetch_bind ok_or_def Let_def bindE_run [of "if skip_will_revive _ _ then _ else _"] chk
          bindE_run [of "in_store _"] w bindE_assoc)
    also have "\<dots> = ?tail (?s0\<lparr>fs_trace := fs_trace ?s0 @ es\<rparr>)"
      by (simp only: bindE_run [of ?ev] es(2) fst_conv snd_conv sum.case)
    finally show ?thesis using None es(1) by auto
  qed
qed

lemma skip_effect_witness:
  "tl_status (skipped ''a'' (failed_list\<lparr>tl_status := TlFailed\<rparr>)) = TlActive"
  using skip_effect [of "sample_feeder [failed_list\<lparr>tl_status := TlFailed\<rparr>]" "''T''" "''L''"
      "failed_list\<lparr>tl_status := TlFailed\<rparr>" "''a''" "sample_task ''a'' ''x'' Failed"]
  by (simp add: failed_list_def find_task_def distinct_tasks_def task_ids_def all_tasks_def tl_key_def)

section \<open>discard\<close>

definition discarded :: "tasklist \<Rightarrow> tasklist" where
  "discarded L = map_tasks discard_task (L\<lparr>tl_status := TlCancelled\<rparr>)"

text \<open>\<open>discard_tasklist\<close>. A completed or cancelled tasklist refuses it, unchanged. Otherwise the call
  succeeds: the stored tasklist is \<open>Cancelled\<close>, its pending and blocked tasks are \<open>Skipped\<close>, every other
  task - a running one too - keeps its state and its slot, nothing is dispatched, and the terminal
  watcher is consumed.\<close>

theorem discard_effect:
  "case store_lookup (fs_store s) (OwnerTeam tid, i) of
     None \<Rightarrow> discard_tasklist env tid i s = (Inl (TasklistNotFound i), s)
   | Some L \<Rightarrow>
       if tl_status L = TlCompleted \<or> tl_status L = TlCancelled
       then discard_tasklist env tid i s =
              (Inl (InvalidTasklistTransition (RefusedTasklist ''discard'' (tl_id L) (tl_status L))), s)
       else case discard_tasklist env tid i s of (r, s') \<Rightarrow>
              r = Inr (discarded L) \<and> fs_store s' = put_meta (discarded L) (fs_store s) \<and>
              tl_status (discarded L) = TlCancelled \<and>
              all_tasks (discarded L) = map (\<lambda>t. if t_status t = Pending \<or> t_status t = Blocked
                                               then t\<lparr>t_status := Skipped\<rparr> else t) (all_tasks L) \<and>
              calls s' = calls s \<and> fs_registry s' = fs_registry s \<and> fs_watchers s' (tl_id L) = None"
proof (cases "store_lookup (fs_store s) (OwnerTeam tid, i)")
  case None
  then show ?thesis by (simp add: discard_tasklist_def bindE_run mutate_run)
next
  case (Some L)
  show ?thesis
  proof (cases "tl_status L = TlCompleted \<or> tl_status L = TlCancelled")
    case True
    then show ?thesis using Some by (auto simp: discard_tasklist_def bindE_run mutate_run discard_closure_def)
  next
    case False
    let ?ids = "map t_id (filter (\<lambda>t. t_status t = Pending \<or> t_status t = Blocked) (all_tasks L))"
    let ?s0 = "s\<lparr>fs_store := put_meta (discarded L) (fs_store s)\<rparr>"
    let ?ev = "thenE (emit_tasklist_status_changed env (OwnerTeam tid) i TlCancelled)
        (forE ?ids (emit_task_updated env (OwnerTeam tid) i))"
    have "emits ?ev" by (intro emits_rules emits_forE emits_methods)
    then obtain es where es: "filter is_call es = []" "?ev ?s0 = (Inr (), ?s0\<lparr>fs_trace := fs_trace ?s0 @ es\<rparr>)"
      by (rule emitsE)
    let ?s1 = "?s0\<lparr>fs_trace := fs_trace ?s0 @ es\<rparr>"
    obtain b fs where fire: "fire_terminal_watcher env (discarded L) ?s1 =
       (Inr b, ?s1\<lparr>fs_watchers := (fs_watchers ?s1)(tl_id (discarded L) := None), fs_trace := fs_trace ?s1 @ fs\<rparr>)"
      "filter is_call fs = []"
      using fire_run by blast
    have "tl_status L = TlActive \<or> tl_status L = TlPaused \<or> tl_status L = TlFailed"
      using False by (cases "tl_status L") auto
    then have w: "in_store (mutate tid i discard_closure) s = (Inr (?ids, discarded L), ?s0)"
      using Some by (simp add: mutate_run discard_closure_def discarded_def)
    have "discard_tasklist env tid i s =
        thenE ?ev (bindE (fire_terminal_watcher env (discarded L)) (\<lambda>_. ok (discarded L))) ?s0"
      by (simp add: discard_tasklist_def bindE_run [of "in_store _"] w bindE_assoc)
    also have "\<dots> = (Inr (discarded L), ?s1\<lparr>fs_watchers := (fs_watchers ?s1)(tl_id (discarded L) := None),
                       fs_trace := fs_trace ?s1 @ fs\<rparr>)"
      by (simp only: bindE_run [of ?ev] bindE_run [of "fire_terminal_watcher _ _"] es(2) fire(1) ok_run fst_conv snd_conv sum.case)
    finally show ?thesis using Some False es(1) fire(2)
      by (simp add: discarded_def discard_task_def calls_def)
  qed
qed

section \<open>replay\<close>

text \<open>The plan of a task: what a replay carries over.\<close>

definition task_plan :: "task \<Rightarrow> agent_id \<times> string \<times> string list \<times> string list \<times> agent_id option" where
  "task_plan t = (t_owner_agent_id t, t_prompt t, t_expected_outputs t, t_attachments t, t_remind_me t)"

definition tasklist_plan :: "tasklist \<Rightarrow> (task_group_mode \<times> (agent_id \<times> string \<times> string list \<times> string list \<times> agent_id option) list) list" where
  "tasklist_plan L = map (\<lambda>g. (g_mode g, map task_plan (g_tasks g))) (tl_groups L)"

lemma replay_tasks_facts:
  "map task_plan (replay_tasks uuid n gid ts) = map task_plan ts"
  "map t_id (replay_tasks uuid n gid ts) = map uuid [n ..< n + length ts]"
  "list_all (\<lambda>t. t_status t = Pending \<and> t_attempt_count t = 0 \<and> t_error_log t = [] \<and> t_comments t = [] \<and>
       t_dispatch_token t = 0) (replay_tasks uuid n gid ts)"
  by (induction ts arbitrary: n) (simp_all add: task_plan_def replay_task_def upt_conv_Cons del: upt_Suc)

lemma replay_groups_plan:
  "map (\<lambda>g. (g_mode g, map task_plan (g_tasks g))) (replay_groups uuid n gs)
     = map (\<lambda>g. (g_mode g, map task_plan (g_tasks g))) gs"
  by (induction gs arbitrary: n) (simp_all add: replay_tasks_facts)

lemma replay_groups_fresh:
  "list_all (\<lambda>t. t_status t = Pending \<and> t_attempt_count t = 0 \<and> t_error_log t = [] \<and> t_comments t = [] \<and>
       t_dispatch_token t = 0) (concat (map g_tasks (replay_groups uuid n gs)))"
  by (induction gs arbitrary: n) (simp_all add: replay_tasks_facts list_all_append)

lemma replay_groups_ids:
  assumes "inj uuid"
  shows "distinct (map t_id (concat (map g_tasks (replay_groups uuid n gs)))) \<and>
     set (map t_id (concat (map g_tasks (replay_groups uuid n gs)))) \<subseteq> uuid ` {n..}"
proof (induction gs arbitrary: n)
  case Nil
  show ?case by simp
next
  case (Cons g gs)
  let ?m = "Suc n + length (g_tasks g)"
  have ids: "map t_id (replay_tasks uuid (Suc n) (uuid n) (g_tasks g)) = map uuid [Suc n ..< ?m]"
    by (rule replay_tasks_facts)
  have "distinct (map uuid [Suc n ..< ?m])"
    using assms by (simp add: distinct_map inj_on_subset)
  moreover have "set (map uuid [Suc n ..< ?m]) \<inter> uuid ` {?m..} = {}"
    by (auto simp: inj_eq [OF assms])
  moreover have "set (map uuid [Suc n ..< ?m]) \<subseteq> uuid ` {n..}" "uuid ` {?m..} \<subseteq> uuid ` {n..}"
    by auto
  ultimately show ?case
    using Cons [of ?m] ids by (auto simp del: set_map upt_Suc)
qed

text \<open>what \<open>replay_tasklist\<close> creates, when the drawn uuids never repeat: an active tasklist of the team with
  a fresh id and the original's plan - the same groups in the same modes, holding the same prompts,
  owners, outputs, attachments and reminders in the same order - in which every task is pending with
  no attempts, log, comments or dispatches, and all task ids are distinct.\<close>

theorem replay_clone_faithful:
  assumes "inj (fe_fresh_uuid env)"
  shows "let L' = replay_clone env workspace transcripts tid L in
     tl_key L' = (OwnerTeam tid, fe_fresh_uuid env 0) \<and> tl_status L' = TlActive \<and>
     tasklist_plan L' = tasklist_plan L \<and> distinct_tasks L' \<and>
     list_all (\<lambda>t. t_status t = Pending \<and> t_attempt_count t = 0 \<and> t_error_log t = [] \<and> t_comments t = [] \<and>
       t_dispatch_token t = 0) (all_tasks L')"
  using replay_groups_ids [OF assms, of 1 "tl_groups L"]
  by (simp add: replay_clone_def Let_def tl_key_def tasklist_plan_def replay_groups_plan replay_groups_fresh
      all_tasks_def distinct_tasks_def task_ids_def)

lemma replay_clone_faithful_witness:
  "tasklist_plan (replay_clone sample_env (\<lambda>_ _. ''w'') (\<lambda>_ _. ''t'') ''T'' failed_list) = tasklist_plan failed_list \<and>
   distinct_tasks (replay_clone sample_env (\<lambda>_ _. ''w'') (\<lambda>_ _. ''t'') ''T'' failed_list)"
proof -
  have "inj (fe_fresh_uuid sample_env)" by (rule injI) (auto dest: arg_cong [of _ _ length])
  from replay_clone_faithful [OF this, of "\<lambda>_ _. ''w''" "\<lambda>_ _. ''t''" "''T''" failed_list]
  show ?thesis by (simp add: Let_def)
qed

section \<open>A pause that lands between the snapshot and the dispatch\<close>

lemma par_dispatch_paused:
  assumes "store_lookup (fs_store s) (tl_owner L, tl_id L) = Some M" and "tl_status M \<noteq> TlActive"
  shows "par_dispatch env L ts s = (Inr (), s)"
  using assms by (cases ts) (simp_all add: read_bind ok_run)

text \<open>\<open>advance\<close> works on a snapshot; meanwhile the stored tasklist has been paused. A parallel group
  reads the live status before each dispatch and hands out nothing. A sequential group does not:
  its next pending task, still pending in the store, is claimed and handed to the dispatcher although
  the tasklist is paused.\<close>

theorem pause_between_snapshot_and_dispatch:
  assumes "tl_status L = TlActive" and "List.find (\<lambda>g. \<not> group_is_terminal g) (tl_groups L) = Some g"
    and "store_lookup (fs_store s) (tl_key L) = Some M" and "tl_status M = TlPaused"
    and "List.find (\<lambda>t. t_status t = Pending) (g_tasks g) = Some t" and "routed_executor (tl_owner L) t = Some a"
    and "\<not> executor_missing env (tl_owner L) a" and "claimable s L t"
    and "count_status InProgress (g_tasks g) = 0" and "count_status Stopped (g_tasks g) = 0"
  shows "calls (snd (advance env L s)) = calls s @ (case g_mode g of Par \<Rightarrow> [] | Seq \<Rightarrow> [call_of L t])"
proof (cases "g_mode g")
  case Par
  let ?c = "\<lambda>executor. fs_registry s (tl_id L, executor) \<noteq> None"
  let ?p = "par_select env L ?c [] (g_tasks g) s"
  obtain picked where p: "fst ?p = Inr picked"
    using par_select_picks [of env L ?c "[]" "g_tasks g" s] by auto
  have "store_lookup (fs_store (snd ?p)) (tl_owner L, tl_id L) = Some M"
    using assms(3) silent_run [OF silent_par_select] by (simp add: tl_key_def)
  then have run: "par_dispatch env L picked (snd ?p) = (Inr (), snd ?p)"
    by (rule par_dispatch_paused) (simp add: assms(4))
  have "snd (advance env L s) = snd ?p"
    using assms(1,2) Par p run
    by (simp add: advance_def dispatch_group_def dispatch_group_par_def bindE_run [of "par_select _ _ _ _ _"]
        del: not_None_eq)
  then show ?thesis using Par by simp
next
  case Seq
  then have "advance env L s = dispatch_one env L t s"
    using assms by (simp add: advance_def dispatch_group_def dispatch_group_seq_def)
  moreover have "dispatch_executor (tl_owner L) t = a" using routed_executor_dispatch [OF assms(6)] .
  ultimately show ?thesis using Seq assms(7,8) by (simp add: dispatch_one_calls)
qed

lemma pause_between_snapshot_and_dispatch_witness:
  "calls (snd (advance sample_env race_list (sample_feeder [race_list\<lparr>tl_status := TlPaused\<rparr>])))
     = [call_of race_list (sample_task ''a'' ''x'' Pending)]"
  using pause_between_snapshot_and_dispatch [of race_list "sample_group Seq [sample_task ''a'' ''x'' Pending]"
      "sample_feeder [race_list\<lparr>tl_status := TlPaused\<rparr>]" "race_list\<lparr>tl_status := TlPaused\<rparr>"
      "sample_task ''a'' ''x'' Pending" "''x''" sample_env]
  by (simp add: race_list_def group_is_terminal_def routed_executor_def executor_missing_def claimable_def
      task_at_def find_task_def count_status_def tl_key_def)

end
