(* ===== verification/Tasklist_Wake.thy ===== *)
theory Tasklist_Wake
  imports Feeder_Control
begin

text \<open>
  The wake and sleep events of \<open>crates/ao-engine/src/tasklist_lifecycle.rs\<close> over the store, and how the two
  predicates of that file relate. An event is what is handed to the event bus: run id, agent id,
  payload.
\<close>

datatype wake_payload =
    Woke team_id tasklist_id string
  | Slept team_id tasklist_id

record bus_event =
  be_run_id :: string
  be_agent_id :: string
  be_payload :: wake_payload

definition synthetic_run_id :: "tasklist_id \<Rightarrow> string" where
  "synthetic_run_id i = ''tasklist:'' @ i"

definition synthetic_agent_id :: "team_id \<Rightarrow> string" where
  "synthetic_agent_id tid = ''team:'' @ tid"

definition emit_wake :: "team_id \<Rightarrow> tasklist_id \<Rightarrow> wake_reason \<Rightarrow> bus_event" where
  "emit_wake tid i reason =
     \<lparr>be_run_id = synthetic_run_id i, be_agent_id = synthetic_agent_id tid,
      be_payload = Woke tid i (wake_reason_as_str reason)\<rparr>"

definition emit_sleep :: "team_id \<Rightarrow> tasklist_id \<Rightarrow> bus_event" where
  "emit_sleep tid i =
     \<lparr>be_run_id = synthetic_run_id i, be_agent_id = synthetic_agent_id tid, be_payload = Slept tid i\<rparr>"

text \<open>\<open>maybe_emit_sleep\<close>: whether an event was emitted, and the events.\<close>

definition maybe_emit_sleep :: "tasklist \<Rightarrow> time \<Rightarrow> bool \<times> bus_event list" where
  "maybe_emit_sleep L now =
     (if should_sleep L now
      then (True, [emit_sleep (case tl_team_id L of Some tid \<Rightarrow> tid | None \<Rightarrow> []) (tl_id L)])
      else (False, []))"

definition record_overlay_open :: "time \<Rightarrow> team_id \<Rightarrow> tasklist_id \<Rightarrow> bus_event list store_op" where
  "record_overlay_open now tid i =
     bindE (mutate tid i (\<lambda>L. Inr ((), stamp_overlay_open now L))) (\<lambda>_.
       ok [emit_wake tid i OverlayOpened])"

text \<open>an overlay ping keeps a tasklist awake for exactly the grace window. After \<open>record_overlay_open\<close> at
  time \<open>now\<close> - it succeeds, stores the stamp and emits one wake - the stored tasklist, if it was last
  active no later than that, may sleep at a later moment exactly when its tasks are all terminal and
  the five minutes are over; and the ping alone counts it as active for 24 hours.\<close>

theorem overlay_ping_keeps_awake:
  assumes "store_lookup s (OwnerTeam tid, i) = Some L" and "store_wf s"
    and "case tl_last_active_at L of Some a \<Rightarrow> a \<le> now | None \<Rightarrow> True" and "now \<le> later"
  shows "case record_overlay_open now tid i s of (r, s') \<Rightarrow>
     r = Inr [emit_wake tid i OverlayOpened] \<and>
     (case store_lookup s' (OwnerTeam tid, i) of None \<Rightarrow> False
      | Some M \<Rightarrow> (should_sleep M later = (\<not> has_non_terminal_task L \<and> now + minutes 5 \<le> later)) \<and>
          (is_tasklist_active M later = (has_non_terminal_task L \<or> later < now + hours 24)))"
proof -
  have key: "tl_key L = (OwnerTeam tid, i)" using store_lookup_keyD assms by blast
  let ?M = "stamp_overlay_open now L"
  have keyM: "tl_key ?M = (OwnerTeam tid, i)" using key by (simp add: stamp_overlay_open_def tl_key_def)
  have run: "record_overlay_open now tid i s = (Inr [emit_wake tid i OverlayOpened], put_meta ?M s)"
    using assms(1) by (simp add: record_overlay_open_def mutate_def mutate_by_owner_def bindE_assoc store_run)
  have nt: "has_non_terminal_task ?M = has_non_terminal_task L"
    by (simp add: has_non_terminal_task_def all_tasks_def stamp_overlay_open_def)
  have sel: "tl_last_opened_at ?M = Some now" "tl_last_active_at ?M = tl_last_active_at L"
    by (simp_all add: stamp_overlay_open_def)
  have la: "last_activity ?M = Some now"
    using assms(3) by (auto simp: last_activity_def sel split: option.splits)
  have "should_sleep ?M later = (\<not> has_non_terminal_task L \<and> now + minutes 5 \<le> later)"
    by (auto simp: should_sleep_def nt la is_overlay_open_def sel lifecycle_windows)
  moreover have "is_tasklist_active ?M later = (has_non_terminal_task L \<or> later < now + hours 24)"
    by (auto simp: is_tasklist_active_def nt sel lifecycle_windows)
  ultimately show ?thesis by (simp add: run keyM)
qed

lemma overlay_ping_keeps_awake_witness:
  "case record_overlay_open 10 ''T'' ''L'' (sample_store [done_list]) of (r, s') \<Rightarrow>
     r = Inr [emit_wake ''T'' ''L'' OverlayOpened] \<and>
     (case store_lookup s' (OwnerTeam ''T'', ''L'') of None \<Rightarrow> False | Some M \<Rightarrow> \<not> should_sleep M 20)"
  using overlay_ping_keeps_awake [of "sample_store [done_list]" "''T''" "''L''" done_list 10 20]
  by (auto simp: done_list_def sample_store_wf has_non_terminal_task_def lifecycle_windows split: prod.splits option.splits)

text \<open>\<open>maybe_emit_sleep\<close> never announces the sleep of a tasklist with work left, of one whose overlay is
  open, nor of one active within the grace window; and once it announces, it announces at every later
  moment until something is stamped. The overlay test is subsumed by the grace window: dropping it
  would not change the predicate.\<close>

theorem sleep_announcement_sound:
  "(fst (maybe_emit_sleep L now)) = (\<not> has_non_terminal_task L \<and>
     (case last_activity L of Some t \<Rightarrow> minutes sleep_grace_window_minutes \<le> now - t | None \<Rightarrow> True)) \<and>
   (fst (maybe_emit_sleep L now) \<and> is_overlay_open L now) = False \<and>
   (fst (maybe_emit_sleep L now) \<and> \<not> fst (maybe_emit_sleep L (now + int d))) = False"
proof (intro conjI)
  have open_recent: "\<exists>t. last_activity L = Some t \<and> now - t < secs overlay_open_keepalive_secs"
    if "is_overlay_open L now" for now
    using that by (auto simp: is_overlay_open_def last_activity_def max_def split: option.splits)
  show "fst (maybe_emit_sleep L now) = (\<not> has_non_terminal_task L \<and>
     (case last_activity L of Some t \<Rightarrow> minutes sleep_grace_window_minutes \<le> now - t | None \<Rightarrow> True))"
  proof (cases "is_overlay_open L now")
    case True
    with open_recent obtain t where "last_activity L = Some t" "now - t < secs overlay_open_keepalive_secs" by blast
    with True show ?thesis by (auto simp: maybe_emit_sleep_def should_sleep_def lifecycle_windows)
  next
    case False
    then show ?thesis by (simp add: maybe_emit_sleep_def should_sleep_def split: option.split)
  qed
  show "(fst (maybe_emit_sleep L now) \<and> is_overlay_open L now) = False"
    by (auto simp: maybe_emit_sleep_def should_sleep_def split: if_splits)
  show "(fst (maybe_emit_sleep L now) \<and> \<not> fst (maybe_emit_sleep L (now + int d))) = False"
    using should_sleep_stable_in_time [of L now "now + int d"]
    by (auto simp: maybe_emit_sleep_def split: if_splits)
qed

section \<open>Expected outputs\<close>

text \<open>Prefixing the expected outputs of a task with its id is idempotent, keeps their number and order,
  every result starts with the id's first eight characters and two underscores, and the original name
  is a suffix of the result.\<close>

theorem prefix_expected_outputs_correct:
  "prefix_expected_outputs tid (prefix_expected_outputs tid outs) = prefix_expected_outputs tid outs \<and>
   list_all2 (\<lambda>f g. suffix f g \<and> prefix (take 8 tid @ ''__'') g) outs (prefix_expected_outputs tid outs)"
proof
  show "prefix_expected_outputs tid (prefix_expected_outputs tid outs) = prefix_expected_outputs tid outs"
    by (simp add: prefix_expected_outputs_def)
  have "suffix f (prefix_expected_output tid f)" for f
    by (simp add: prefix_expected_output_def Let_def suffix_def)
  moreover have "prefix (take 8 tid @ ''__'') (prefix_expected_output tid f)" for f
    using prefix_expected_output_starts [of tid f]
    by (simp add: task_id_filename_prefix_def output_filename_prefix_len_def)
  ultimately show "list_all2 (\<lambda>f g. suffix f g \<and> prefix (take 8 tid @ ''__'') g) outs (prefix_expected_outputs tid outs)"
    by (simp add: prefix_expected_outputs_def list_all2_conv_all_nth)
qed

section \<open>Reports\<close>

lemma report_loop_eq:
  "report_loop env L ts (su, fa, sk, es) =
     (su + count_status Completed ts, fa + count_status Failed ts, sk + count_status Skipped ts,
      es @ map (report_entry env L) ts)"
  by (induction ts arbitrary: su fa sk es) (simp_all add: count_status_def split: task_status.split)

text \<open>the terminal report is accurate. Its three counters are the numbers of completed, failed and
  skipped tasks, its entries are the tasks of the plan in order, one each, and for a tasklist whose
  tasks are all terminal the counters add up to the number of entries.\<close>

theorem terminal_report_accurate:
  "let r = build_terminal_report env L in
     tr_succeeded r = count_status Completed (all_tasks L) \<and>
     tr_failed r = count_status Failed (all_tasks L) \<and>
     tr_skipped r = count_status Skipped (all_tasks L) \<and>
     map te_id (tr_tasks r) = task_ids L \<and>
     map te_status (tr_tasks r) = map (\<lambda>t. task_status_str (t_status t)) (all_tasks L) \<and>
     (has_non_terminal_task L \<or>
      tr_succeeded r + tr_failed r + tr_skipped r = length (tr_tasks r))"
proof -
  have sum: "count_status Completed ts + count_status Failed ts + count_status Skipped ts = length ts"
    if "\<forall>t\<in>set ts. is_terminal (t_status t)" for ts
    using that by (induction ts) (auto simp: count_status_def is_terminal_def)
  show ?thesis
    using sum [of "all_tasks L"] terminal_iff [of L]
    by (auto simp: build_terminal_report_def report_loop_eq Let_def task_ids_def report_entry_def)
qed

definition is_notice :: "effect \<Rightarrow> bool" where
  "is_notice e = (case e of WatcherReport _ _ \<Rightarrow> True | SummaryToAgent _ _ \<Rightarrow> True
                          | SummaryToProject _ _ \<Rightarrow> True | _ \<Rightarrow> False)"

definition notices :: "feeder \<Rightarrow> nat" where
  "notices s = length (filter is_notice (fs_trace s))"

lemma notices_emit: "notices (snd (emit e s)) = notices s + (if is_notice e then 1 else 0)"
  by (simp add: notices_def emit_def upd_run)

lemma emit_result: "fst (emit e s) = Inr ()" "fs_watchers (snd (emit e s)) = fs_watchers s"
  by (simp_all add: emit_def upd_run)

lemma notices_flag:
  "notices (snd (clear_active_flag env ow s)) = notices s" "fst (clear_active_flag env ow s) = Inr ()"
  "fs_watchers (snd (clear_active_flag env ow s)) = fs_watchers s"
  by (auto simp: clear_active_flag_def ok_run notices_emit emit_result is_notice_def
      split: tasklist_owner.split option.split)

lemma notices_summary:
  "fe_notification_dispatcher env \<Longrightarrow> notices (snd (post_completion_summary env aid L s)) = Suc (notices s)"
  "fst (post_completion_summary env aid L s) = Inr ()"
  "fs_watchers (snd (post_completion_summary env aid L s)) = fs_watchers s"
  by (auto simp: post_completion_summary_def post_completion_summary_to_agent_def ok_run notices_emit emit_result
      is_notice_def split: option.split)

lemma notices_todo:
  "notices (snd (emit_todo_list_complete env aid L s)) = notices s"
  "fst (emit_todo_list_complete env aid L s) = Inr ()"
  "fs_watchers (snd (emit_todo_list_complete env aid L s)) = fs_watchers s"
  by (auto simp: emit_todo_list_complete_def Let_def bindE_run ok_run notices_emit emit_result is_notice_def)

lemma notices_fire:
  "fst (fire_terminal_watcher env L s) = Inr (fs_watchers s (tl_id L) = Some False)"
  "notices (snd (fire_terminal_watcher env L s)) = notices s + (if fs_watchers s (tl_id L) = Some False then 1 else 0)"
  "fs_watchers (snd (fire_terminal_watcher env L s)) = (fs_watchers s)(tl_id L := None)"
  by (cases "fs_watchers s (tl_id L)";
      auto simp: fire_terminal_watcher_def bindE_run gets_run ok_run upd_run emit_def notices_def is_notice_def)+

text \<open>the owner of an agent-owned tasklist is told of its end exactly once. When a notification
  dispatcher is wired, the announcement puts exactly one notice into the trace: the report to the
  waiting caller if one still waits, otherwise one summary message; and the watcher is consumed. (The
  comment on \<open>emit_todo_list_complete\<close> says the summary is never posted for an agent-owned tasklist; it
  is, when nobody waits.)\<close>

theorem owner_notified_once:
  assumes "fe_notification_dispatcher env"
  shows "case announce_terminal env (OwnerAgent aid) L s of (r, s') \<Rightarrow>
     r = Inr () \<and> notices s' = Suc (notices s) \<and> fs_watchers s' = (fs_watchers s)(tl_id L := None)"
  using assms
  by (simp add: announce_terminal_def bindE_run notices_flag notices_fire notices_summary notices_todo ok_run
      case_prod_beta)

lemma owner_notified_once_witness:
  "notices (snd (announce_terminal sample_env (OwnerAgent ''P'') orphan_list (sample_feeder [orphan_list]))) = 1"
  using owner_notified_once [where env = sample_env and s = "sample_feeder [orphan_list]" and aid = "''P''" and L = orphan_list]
  by (simp add: sample_env_def notices_def case_prod_beta)

end
