(* ===== verification/Queue_Manager.thy ===== *)
theory Queue_Manager
  imports Feeder_Calls
begin

text \<open>
  The queue manager of a tasklist (\<open>ao-engine/src/tasklist_queue_manager.rs\<close>) with the sleep guard it
  holds (\<open>sleep_guard.rs\<close>), the registry of managers and the dispatcher that the feeder calls.

  \<open>tqm\<close> is one manager and what it shares with the others: the feeder. \<open>qm_chan\<close> is its message channel,
  the senders that wait for room in their order at its end; \<open>qm_running\<close> the tasks that wait for a run's
  end; \<open>qm_trace\<close> the outward calls. A method that waits for ever - a send of the manager to its own full
  channel, whose only reader it is - is the error \<open>Loop_Blocked\<close>. Surroundings, in \<open>tq_env\<close>: the agent store, the
  outcome of starting a run, the preferences, the operating system's answer to a sleep assertion.
\<close>

section \<open>The sleep guard\<close>

text \<open>\<open>sg_handle\<close>: the kind of assertion held, whether it keeps the display on; \<open>sg_tries\<close> counts requests.\<close>

record sleep_guard =
  sg_disabled :: bool
  sg_keep_display_awake :: bool
  sg_handle :: "bool option"
  sg_tries :: nat

definition sleep_guard_new :: sleep_guard where
  "sleep_guard_new = \<lparr> sg_disabled = False, sg_keep_display_awake = False, sg_handle = None, sg_tries = 0 \<rparr>"

definition guard_acquire :: "(nat \<Rightarrow> bool) \<Rightarrow> sleep_guard \<Rightarrow> sleep_guard" where
  "guard_acquire grants g =
     (let g' = g\<lparr>sg_tries := Suc (sg_tries g)\<rparr> in
      if grants (sg_tries g) then g'\<lparr>sg_handle := Some (sg_keep_display_awake g)\<rparr> else g')"

definition guard_release :: "sleep_guard \<Rightarrow> sleep_guard" where
  "guard_release g = g\<lparr>sg_handle := None\<rparr>"

definition set_disabled :: "bool \<Rightarrow> sleep_guard \<Rightarrow> sleep_guard" where
  "set_disabled b g = (let g' = g\<lparr>sg_disabled := b\<rparr> in if b then guard_release g' else g')"

definition set_keep_display_awake :: "(nat \<Rightarrow> bool) \<Rightarrow> bool \<Rightarrow> sleep_guard \<Rightarrow> sleep_guard" where
  "set_keep_display_awake grants b g =
     (if sg_keep_display_awake g = b then g
      else let g' = g\<lparr>sg_keep_display_awake := b\<rparr> in
        if sg_handle g' \<noteq> None then guard_acquire grants (guard_release g') else g')"

definition update_active :: "(nat \<Rightarrow> bool) \<Rightarrow> bool \<Rightarrow> sleep_guard \<Rightarrow> sleep_guard" where
  "update_active grants active g =
     (let should_hold = active \<and> \<not> sg_disabled g in
      if should_hold \<and> sg_handle g = None then guard_acquire grants g
      else if \<not> should_hold \<and> sg_handle g \<noteq> None then guard_release g
      else g)"

section \<open>Messages and state\<close>

text \<open>What a run is started with: the feeder's prompt or a follow-up's context.\<close>

datatype run_prompt = Dispatched_Prompt dispatch_prompt | Followup_Context string

datatype tq_message =
    TqDispatch task_id agent_id dispatch_prompt "string option" "string list"
  | TqFollowup task_id agent_id string "string option" "string list"
  | TqCancel task_id

record workflow_followup =
  wf_context :: string
  wf_system_transcript :: "string option"

type_synonym run_id = string

record started_run =
  rn_run_id :: run_id
  rn_task_id :: task_id
  rn_owner_agent_id :: agent_id
  rn_workspace_dir :: "string option"
  rn_attachments :: "string list"

text \<open>\<open>RunFinished\<close>: the run and the follow-ups of its \<open>RunComplete\<close>, if one came.\<close>

type_synonym run_finished = "started_run \<times> workflow_followup list option"

text \<open>The transcript files of \<open>DataRoot\<close>: one per agent in the team's tree, one per task in the agent's.\<close>

datatype transcript_file =
    TasklistAgentTranscript team_id tasklist_id agent_id
  | TaskTranscript agent_id tasklist_id task_id

datatype tq_effect =
    ErrorEvent string string
  | SystemMessage string string
  | TranscriptAppended transcript_file string
  | RunStarted run_id tasklist_scope tasklist_id task_id agent_id run_prompt "string option" "string list"
  | RunCancelled run_id
  | MessageSent tq_message

datatype blocked = Loop_Blocked

record tqm =
  qm_scope :: tasklist_scope
  qm_tasklist_id :: tasklist_id
  qm_queue :: "tq_message list"
  qm_chan :: "tq_message list"
  qm_finished :: "run_finished list"
  qm_running :: "started_run list"
  qm_in_flight :: "task_id \<Rightarrow> run_id option"
  qm_guard :: sleep_guard
  qm_feeder :: feeder
  qm_trace :: "tq_effect list"

text \<open>The agent store answers with an error or whether the profile exists; a start with an error or the
  run's id; the preferences are \<open>prevent_sleep_during_tasklists\<close> and \<open>keep_display_awake\<close>.\<close>

record tq_env =
  qe_feeder :: feeder_env
  qe_feeder_wired :: bool
  qe_agent :: "agent_id \<Rightarrow> string + bool"
  qe_start :: "nat \<Rightarrow> string + run_id"
  qe_prefs :: "(bool \<times> bool) option"
  qe_grants :: "nat \<Rightarrow> bool"

type_synonym 'a mop = "(tqm, blocked, 'a) sm"

definition new_manager :: "tasklist_scope \<Rightarrow> tasklist_id \<Rightarrow> feeder \<Rightarrow> tqm" where
  "new_manager sc i f =
     \<lparr> qm_scope = sc, qm_tasklist_id = i, qm_queue = [], qm_chan = [], qm_finished = [], qm_running = [],
       qm_in_flight = Map.empty, qm_guard = sleep_guard_new, qm_feeder = f, qm_trace = [] \<rparr>"

definition tq_emit :: "tq_effect \<Rightarrow> unit mop" where
  "tq_emit e = upd (\<lambda>s. s\<lparr>qm_trace := qm_trace s @ [e]\<rparr>)"

text \<open>\<open>mpsc::channel(128)\<close>: a send to the own channel when 128 messages are in it or in line for it.\<close>

definition channel_capacity :: nat where
  "channel_capacity = 128"

definition self_send :: "tq_message \<Rightarrow> unit mop" where
  "self_send m = (\<lambda>s.
     if length (qm_chan s) < channel_capacity
     then (Inr (), s\<lparr>qm_chan := qm_chan s @ [m], qm_trace := qm_trace s @ [MessageSent m]\<rparr>)
     else (Inl Loop_Blocked, s))"

section \<open>Scope\<close>

definition event_channel_for_scope :: "tasklist_scope \<Rightarrow> string" where
  "event_channel_for_scope sc = (case sc of ScopeTeam t \<Rightarrow> ''team:'' @ t | ScopeAgent a \<Rightarrow> a)"

definition followup_transcript_path ::
    "tasklist_scope \<Rightarrow> tasklist_id \<Rightarrow> agent_id \<Rightarrow> task_id \<Rightarrow> transcript_file" where
  "followup_transcript_path sc i owner k =
     (case sc of
        ScopeTeam t \<Rightarrow> TasklistAgentTranscript t i owner
      | ScopeAgent a \<Rightarrow> TaskTranscript a i k)"

definition scope_owner :: "tasklist_scope \<Rightarrow> tasklist_owner" where
  "scope_owner sc = (case sc of ScopeTeam t \<Rightarrow> OwnerTeam t | ScopeAgent a \<Rightarrow> OwnerAgent a)"

definition owner_scope :: "tasklist_owner \<Rightarrow> tasklist_scope" where
  "owner_scope ow = (case ow of OwnerTeam t \<Rightarrow> ScopeTeam t | OwnerAgent a \<Rightarrow> ScopeAgent a)"

section \<open>The dispatcher\<close>

text \<open>\<open>dispatch_task\<close>: the message that a call of the feeder becomes, with the tasklist's workspace and the
  task's attachments as the store has them.\<close>

definition dispatch_message ::
    "store \<Rightarrow> agent_id \<Rightarrow> dispatch_prompt \<Rightarrow> tasklist_owner \<Rightarrow> tasklist_id \<Rightarrow> task_id \<Rightarrow> tq_message" where
  "dispatch_message st a p ow i k =
     (case get_by_owner st ow i of
        None \<Rightarrow> TqDispatch k a p None []
      | Some L \<Rightarrow>
          TqDispatch k a p (Some (tl_workspace_dir L))
            (case List.find (\<lambda>t. t_id t = k) (concat (map g_tasks (tl_groups L))) of
               Some t \<Rightarrow> t_attachments t
             | None \<Rightarrow> []))"

text \<open>The calls of the dispatcher that a method of the feeder made arrive in this manager's channel: the feeder
  dispatches only tasks of the tasklist it was called for, and the dispatcher never fails while the
  manager lives.\<close>

definition new_calls :: "feeder \<Rightarrow> feeder \<Rightarrow> effect list" where
  "new_calls f f' = drop (length (calls f)) (calls f')"

definition deliver :: "effect \<Rightarrow> unit mop" where
  "deliver e =
     (case e of
        DispatchCall a p ow i k \<Rightarrow> (\<lambda>s. self_send (dispatch_message (fs_store (qm_feeder s)) a p ow i k) s)
      | _ \<Rightarrow> ok ())"

definition quiet_env :: "feeder_env \<Rightarrow> feeder_env" where
  "quiet_env fe = fe\<lparr>fe_dispatch_outcome := \<lambda>_ _ _. None\<rparr>"

definition in_feeder :: "'a fop \<Rightarrow> unit mop" where
  "in_feeder m = (\<lambda>s.
     let f' = snd (m (qm_feeder s)) in
     forE (new_calls (qm_feeder s) f') deliver (s\<lparr>qm_feeder := f'\<rparr>))"

section \<open>Runs and their ends\<close>

definition mark_task_failed :: "tq_env \<Rightarrow> task_id \<Rightarrow> unit mop" where
  "mark_task_failed env k = (\<lambda>s.
     let ow = scope_owner (qm_scope s); i = qm_tasklist_id s in
     thenE (in_feeder (in_store (set_task_status_by_owner ow i k Failed)))
       (if qe_feeder_wired env then in_feeder (on_task_terminal (quiet_env (qe_feeder env)) ow i k) else ok ()) s)"

definition has_active_tasklist_work :: "tqm \<Rightarrow> bool" where
  "has_active_tasklist_work s \<longleftrightarrow> qm_queue s \<noteq> [] \<or> (\<exists>k. qm_in_flight s k \<noteq> None)"

definition refreshed_guard :: "tq_env \<Rightarrow> bool \<Rightarrow> sleep_guard \<Rightarrow> sleep_guard" where
  "refreshed_guard env active g =
     (let enabled = (case qe_prefs env of Some p \<Rightarrow> fst p | None \<Rightarrow> True);
          keep = (case qe_prefs env of Some p \<Rightarrow> snd p | None \<Rightarrow> False) in
      update_active (qe_grants env) active
        (set_keep_display_awake (qe_grants env) keep (set_disabled (\<not> enabled) g)))"

definition refresh_sleep_guard :: "tq_env \<Rightarrow> unit mop" where
  "refresh_sleep_guard env =
     upd (\<lambda>s. s\<lparr>qm_guard := refreshed_guard env (has_active_tasklist_work s) (qm_guard s)\<rparr>)"

definition emit_task_error :: "string \<Rightarrow> unit mop" where
  "emit_task_error message = (\<lambda>s. tq_emit (ErrorEvent (event_channel_for_scope (qm_scope s)) message) s)"

definition fail_start :: "tq_env \<Rightarrow> task_id \<Rightarrow> string \<Rightarrow> unit mop" where
  "fail_start env k message = thenE (emit_task_error message) (mark_task_failed env k)"

definition spawn_run ::
    "tq_env \<Rightarrow> task_id \<Rightarrow> agent_id \<Rightarrow> run_prompt \<Rightarrow> string option \<Rightarrow> string list \<Rightarrow> unit mop" where
  "spawn_run env k owner p ws atts =
     (case qe_agent env owner of
        Inr False \<Rightarrow>
          fail_start env k (''Tasklist task '' @ k @ '' failed: owner agent '' @ owner @ '' not found'')
      | Inl e \<Rightarrow>
          fail_start env k (''Tasklist task '' @ k @ '' failed: could not load owner agent '' @ owner @ '': '' @ e)
      | Inr True \<Rightarrow> (\<lambda>s.
          case qe_start env (length (qm_trace s)) of
            Inr r \<Rightarrow>
              (Inr (), s\<lparr>qm_trace := qm_trace s @ [RunStarted r (qm_scope s) (qm_tasklist_id s) k owner p ws atts],
                 qm_in_flight := (qm_in_flight s)(k \<mapsto> r),
                 qm_running := qm_running s @
                   [\<lparr> rn_run_id = r, rn_task_id = k, rn_owner_agent_id = owner, rn_workspace_dir = ws,
                      rn_attachments = atts \<rparr>]\<rparr>)
          | Inl e \<Rightarrow> fail_start env k (''Tasklist task '' @ k @ '' failed to start: '' @ e) s))"

definition concerns :: "task_id \<Rightarrow> tq_message \<Rightarrow> bool" where
  "concerns k m =
     (case m of
        TqDispatch t _ _ _ _ \<Rightarrow> t = k
      | TqFollowup t _ _ _ _ \<Rightarrow> t = k
      | TqCancel _ \<Rightarrow> False)"

definition handle_cancel :: "task_id \<Rightarrow> unit mop" where
  "handle_cancel k = (\<lambda>s.
     case qm_in_flight s k of
       Some r \<Rightarrow> tq_emit (RunCancelled r) (s\<lparr>qm_in_flight := (qm_in_flight s)(k := None)\<rparr>)
     | None \<Rightarrow> (Inr (), s\<lparr>qm_queue := filter (\<lambda>m. \<not> concerns k m) (qm_queue s)\<rparr>))"

definition handle_message :: "tq_env \<Rightarrow> tq_message \<Rightarrow> unit mop" where
  "handle_message env m =
     (case m of
        TqDispatch k owner p ws atts \<Rightarrow> spawn_run env k owner (Dispatched_Prompt p) ws atts
      | TqFollowup k owner c ws atts \<Rightarrow> spawn_run env k owner (Followup_Context c) ws atts
      | TqCancel k \<Rightarrow> handle_cancel k)"

text \<open>What a message leaves of the queue.\<close>

lemma deliver_queue: "qm_queue (snd (deliver e s)) = qm_queue s"
  by (simp add: deliver_def self_send_def ok_def split: effect.split)

lemma deliver_all_queue: "qm_queue (snd (forE es deliver s)) = qm_queue s"
proof (induction es arbitrary: s)
  case Nil
  show ?case by (simp add: ok_def)
next
  case (Cons e es)
  then show ?case by (simp add: bindE_run deliver_queue split: sum.split)
qed

lemma in_feeder_queue: "qm_queue (snd (in_feeder m s)) = qm_queue s"
  by (simp add: in_feeder_def Let_def deliver_all_queue)

lemma mark_task_failed_queue: "qm_queue (snd (mark_task_failed env k s)) = qm_queue s"
  by (simp add: mark_task_failed_def Let_def bindE_run in_feeder_queue ok_def split: sum.split)

lemma fail_start_queue: "qm_queue (snd (fail_start env k msg s)) = qm_queue s"
  by (simp add: fail_start_def bindE_run emit_task_error_def tq_emit_def upd_def mark_task_failed_queue)

lemma spawn_run_queue: "qm_queue (snd (spawn_run env k owner p ws atts s)) = qm_queue s"
  by (simp add: spawn_run_def fail_start_queue split: sum.split bool.split)

lemma handle_message_queue: "length (qm_queue (snd (handle_message env m s))) \<le> length (qm_queue s)"
  by (simp add: handle_message_def handle_cancel_def spawn_run_queue tq_emit_def upd_def
      split: tq_message.split option.split)

text \<open>\<open>pump\<close>: the queue is drained, then the sleep guard refreshed.\<close>

function drain_queue :: "tq_env \<Rightarrow> tqm \<Rightarrow> (blocked + unit) \<times> tqm" where
  "drain_queue env s =
     (case qm_queue s of
        [] \<Rightarrow> (Inr (), s)
      | m # q \<Rightarrow>
          (case fst (handle_message env m (s\<lparr>qm_queue := q\<rparr>)) of
             Inl b \<Rightarrow> (Inl b, snd (handle_message env m (s\<lparr>qm_queue := q\<rparr>)))
           | Inr _ \<Rightarrow> drain_queue env (snd (handle_message env m (s\<lparr>qm_queue := q\<rparr>)))))"
  by auto

termination
proof (relation "measure (\<lambda>(env, s). length (qm_queue s))", goal_cases)
  case 1
  show ?case by simp
next
  case (2 env s m q u)
  then show ?case using handle_message_queue [of env m "s\<lparr>qm_queue := q\<rparr>"] by simp
qed

declare drain_queue.simps [simp del]

definition pump :: "tq_env \<Rightarrow> unit mop" where
  "pump env = thenE (drain_queue env) (refresh_sleep_guard env)"

section \<open>The loop\<close>

definition requeue_followup :: "started_run \<Rightarrow> workflow_followup \<Rightarrow> unit mop" where
  "requeue_followup r f = (\<lambda>s.
     thenE (case wf_system_transcript f of
              None \<Rightarrow> ok ()
            | Some t \<Rightarrow>
                thenE (tq_emit (TranscriptAppended
                         (followup_transcript_path (qm_scope s) (qm_tasklist_id s) (rn_owner_agent_id r) (rn_task_id r)) t))
                  (tq_emit (SystemMessage (event_channel_for_scope (qm_scope s)) t)))
       (self_send (TqFollowup (rn_task_id r) (rn_owner_agent_id r) (wf_context f) (rn_workspace_dir r)
          (rn_attachments r))) s)"

definition clear_in_flight :: "started_run \<Rightarrow> tqm \<Rightarrow> tqm" where
  "clear_in_flight r s =
     (if qm_in_flight s (rn_task_id r) = Some (rn_run_id r)
      then s\<lparr>qm_in_flight := (qm_in_flight s)(rn_task_id r := None)\<rparr> else s)"

definition on_run_finished :: "tq_env \<Rightarrow> run_finished \<Rightarrow> unit mop" where
  "on_run_finished env fin =
     thenE (upd (clear_in_flight (fst fin)))
       (case snd fin of
          None \<Rightarrow> mark_task_failed env (rn_task_id (fst fin))
        | Some fs \<Rightarrow> thenE (forE fs (requeue_followup (fst fin))) (refresh_sleep_guard env))"

text \<open>The two branches of the \<open>select!\<close>: a message of the channel, the end of a run. Either waits while there is
  nothing to take. The channel never closes, since the manager holds a sender of its own.\<close>

definition take_message :: "tq_env \<Rightarrow> unit mop" where
  "take_message env = (\<lambda>s.
     case qm_chan s of
       [] \<Rightarrow> (Inr (), s)
     | m # ms \<Rightarrow> pump env (s\<lparr>qm_chan := ms, qm_queue := qm_queue s @ [m]\<rparr>))"

definition take_finished :: "tq_env \<Rightarrow> unit mop" where
  "take_finished env = (\<lambda>s.
     case qm_finished s of
       [] \<Rightarrow> (Inr (), s)
     | fin # fins \<Rightarrow> thenE (on_run_finished env fin) (pump env) (s\<lparr>qm_finished := fins\<rparr>))"

section \<open>The manager among its surroundings\<close>

text \<open>What happens: a message is sent from outside, the \<open>n\<close>-th of the waiting runs ends, the feeder's state
  is changed by others, or the loop takes a message or an end.\<close>

datatype tq_event =
    Message_Sent tq_message
  | Run_Ends nat "workflow_followup list option"
  | Feeder_Changes feeder
  | Takes_Message
  | Takes_Finished

definition tq_step :: "tq_env \<Rightarrow> tq_event \<Rightarrow> unit mop" where
  "tq_step env ev =
     (case ev of
        Message_Sent m \<Rightarrow> upd (\<lambda>s. s\<lparr>qm_chan := qm_chan s @ [m], qm_trace := qm_trace s @ [MessageSent m]\<rparr>)
      | Run_Ends n out \<Rightarrow> upd (\<lambda>s.
          if n < length (qm_running s)
          then s\<lparr>qm_finished := qm_finished s @ [(qm_running s ! n, out)],
                 qm_running := take n (qm_running s) @ drop (Suc n) (qm_running s)\<rparr>
          else s)
      | Feeder_Changes f \<Rightarrow> upd (qm_feeder_update (\<lambda>_. f))
      | Takes_Message \<Rightarrow> take_message env
      | Takes_Finished \<Rightarrow> take_finished env)"

definition is_loop_event :: "tq_event \<Rightarrow> bool" where
  "is_loop_event ev \<longleftrightarrow> ev = Takes_Message \<or> ev = Takes_Finished"

text \<open>A run of the manager: once its loop is blocked, only the others go on.\<close>

fun tq_run :: "(tq_env \<times> tq_event) list \<Rightarrow> bool \<times> tqm \<Rightarrow> bool \<times> tqm" where
  "tq_run [] st = st"
| "tq_run ((env, ev) # evs) (stuck, s) =
     tq_run evs
       (if stuck \<and> is_loop_event ev then (stuck, s)
        else (stuck \<or> isl (fst (tq_step env ev s)), snd (tq_step env ev s)))"

section \<open>The registry of managers\<close>

type_synonym tq_registry = "tasklist_id \<Rightarrow> tqm option"

definition get_or_create :: "feeder \<Rightarrow> tasklist_id \<Rightarrow> tasklist_scope \<Rightarrow> tq_registry \<Rightarrow> tqm" where
  "get_or_create f i sc reg = (case reg i of Some s \<Rightarrow> s | None \<Rightarrow> new_manager sc i f)"

definition registry_submit :: "tq_env \<Rightarrow> feeder \<Rightarrow> tasklist_id \<Rightarrow> tasklist_scope \<Rightarrow> tq_message \<Rightarrow> tq_registry \<Rightarrow> tq_registry" where
  "registry_submit env f i sc m reg = reg(i \<mapsto> snd (tq_step env (Message_Sent m) (get_or_create f i sc reg)))"

definition cancel_task_if_running :: "tq_env \<Rightarrow> tasklist_id \<Rightarrow> task_id \<Rightarrow> tq_registry \<Rightarrow> tq_registry" where
  "cancel_task_if_running env i k reg =
     (case reg i of
        None \<Rightarrow> reg
      | Some s \<Rightarrow> reg(i \<mapsto> snd (tq_step env (Message_Sent (TqCancel k)) s)))"

definition dispatch_task ::
    "tq_env \<Rightarrow> feeder \<Rightarrow> agent_id \<Rightarrow> dispatch_prompt \<Rightarrow> tasklist_owner \<Rightarrow> tasklist_id \<Rightarrow> task_id \<Rightarrow>
     tq_registry \<Rightarrow> tq_registry" where
  "dispatch_task env f a p ow i k =
     registry_submit env f i (owner_scope ow) (dispatch_message (fs_store f) a p ow i k)"

end
