(* ===== verification/Queue_Properties.thy ===== *)
theory Queue_Properties
  imports Queue_Manager Feeder_Progress Samples
begin

text \<open>
  Properties of the queue manager of a tasklist: which runs its messages start, what becomes of a task whose
  run cannot start or breaks off, when the machine is kept awake, what a cancel and a stale report do, and
  when the loop blocks itself.
\<close>

section \<open>A task is marked failed\<close>

lemma find_related:
  assumes "list_all2 R xs ys" and "\<And>x y. R x y \<Longrightarrow> p y = p x" and "List.find p xs = Some x"
  shows "\<exists>y. List.find p ys = Some y \<and> R x y"
  using assms by (induction rule: list_all2_induct) (auto split: if_splits)

lemma failed_stays_failed:
  assumes "feeder_move L L'" and "find_task L k = Some t" and "t_status t = Failed"
  shows "map_option t_status (find_task L' k) = Some Failed"
proof -
  have "list_all2 task_move (all_tasks L) (all_tasks L')" using assms(1) by (simp add: feeder_move_def)
  from find_related [OF this, of "\<lambda>t. t_id t = k" t] assms(2) obtain t'
    where "find_task L' k = Some t'" "task_move t t'" by (auto simp: task_move_def find_task_def)
  with assms(3) show ?thesis by (auto simp: task_move_def)
qed

lemma deliver_nothing [simp]: "calls f' = calls f \<Longrightarrow> forE (new_calls f f') deliver s = (Inr (), s)"
  by (simp add: new_calls_def ok_def)

lemma in_feeder_silent:
  "calls (snd (m (qm_feeder s))) = calls (qm_feeder s) \<Longrightarrow>
     in_feeder m s = (Inr (), s\<lparr>qm_feeder := snd (m (qm_feeder s))\<rparr>)"
  by (simp add: in_feeder_def Let_def)

text \<open>A task that was at work in an active tasklist: it fails, the tasklist fails with it, and nothing is
  dispatched.\<close>

lemma mark_failed_run:
  assumes wf: "store_wf (fs_store (qm_feeder s))"
    and L: "store_lookup (fs_store (qm_feeder s)) (scope_owner (qm_scope s), qm_tasklist_id s) = Some L"
    and t: "find_task L k = Some t" "is_valid_task_transition (t_status t) Failed" and active: "tl_status L = TlActive"
    and wired: "qe_feeder_wired env"
  shows "\<exists>f' L'. mark_task_failed env k s = (Inr (), s\<lparr>qm_feeder := f'\<rparr>) \<and> calls f' = calls (qm_feeder s) \<and>
     store_lookup (fs_store f') (scope_owner (qm_scope s), qm_tasklist_id s) = Some L' \<and>
     tl_status L' = TlFailed \<and> map_option t_status (find_task L' k) = Some Failed"
proof -
  define ow i f where "ow = scope_owner (qm_scope s)" and "i = qm_tasklist_id s" and "f = qm_feeder s"
  define M where "M = modify_task k (\<lambda>t. t\<lparr>t_status := Failed\<rparr>) L"
  define f1 where "f1 = f\<lparr>fs_store := put_meta M (fs_store f)\<rparr>"
  have key: "tl_key L = (ow, i)" using store_lookup_keyD [OF wf] L by (simp add: ow_def i_def)
  then have keyM: "tl_key M = (ow, i)" by (simp add: M_def tl_key_def)
  have set: "in_store (set_task_status_by_owner ow i k Failed) f = (Inr M, f1)"
    using L t by (simp add: in_store_run set_task_status_effect f1_def M_def ow_def i_def f_def Let_def)
  have wf1: "store_wf (fs_store f1)" using wf by (simp add: f1_def f_def store_wf_put)
  have look1: "store_lookup (fs_store f1) (ow, i) = Some M" by (simp add: f1_def keyM)
  have t1: "find_task M k = Some (t\<lparr>t_status := Failed\<rparr>)" using t by (simp add: M_def find_task_modify_same)
  define f2 where "f2 = snd (on_task_terminal (quiet_env (qe_feeder env)) ow i k f1)"
  have actM: "tl_status M = TlActive" using active by (simp add: M_def)
  have "calls f2 = calls f1 \<and> map_option tl_status (store_lookup (fs_store f2) (ow, i)) = Some TlFailed"
    using halted_terminal_run [OF wf1 look1 t1 _ actM, of "quiet_env (qe_feeder env)"] by (simp add: f2_def split: prod.splits)
  moreover have "rel_option feeder_move (Some M) (store_lookup (fs_store f2) (ow, i))"
    using moves_on_task_terminal wf1 look1 unfolding evolves_def store_evolves_def f2_def by metis
  ultimately obtain L' where L': "store_lookup (fs_store f2) (ow, i) = Some L'" "tl_status L' = TlFailed" "feeder_move M L'"
    and c: "calls f2 = calls f1" by (auto simp: option_rel_Some1)
  have c1: "calls f1 = calls f" by (simp add: f1_def)
  have "mark_task_failed env k s = (Inr (), s\<lparr>qm_feeder := f2\<rparr>)"
    using wired set c c1
    by (simp add: mark_task_failed_def Let_def bindE_run in_feeder_silent flip: ow_def i_def f_def add: f2_def)
  then show ?thesis
    using L' c c1 failed_stays_failed [OF L'(3) t1] by (auto simp: ow_def i_def f_def)
qed

section \<open>What a method sends\<close>

definition messages_sent :: "tq_effect list \<Rightarrow> tq_message list" where
  "messages_sent tr = List.map_filter (\<lambda>e. case e of MessageSent m \<Rightarrow> Some m | _ \<Rightarrow> None) tr"

text \<open>What a message asks to be run, and what the runs were started with.\<close>

definition request :: "tq_message \<Rightarrow> (task_id \<times> agent_id \<times> run_prompt \<times> string option \<times> string list) option" where
  "request m =
     (case m of
        TqDispatch k a p ws atts \<Rightarrow> Some (k, a, Dispatched_Prompt p, ws, atts)
      | TqFollowup k a c ws atts \<Rightarrow> Some (k, a, Followup_Context c, ws, atts)
      | TqCancel k \<Rightarrow> None)"

definition runs_started :: "tq_effect list \<Rightarrow> (task_id \<times> agent_id \<times> run_prompt \<times> string option \<times> string list) list" where
  "runs_started tr = List.map_filter (\<lambda>e. case e of RunStarted r sc i k a p ws atts \<Rightarrow> Some (k, a, p, ws, atts) | _ \<Rightarrow> None) tr"

abbreviation requests :: "tq_message list \<Rightarrow> (task_id \<times> agent_id \<times> run_prompt \<times> string option \<times> string list) list" where
  "requests ms \<equiv> List.map_filter request ms"

lemma messages_sent_simps [simp]:
  "messages_sent [] = []" "messages_sent (es @ es') = messages_sent es @ messages_sent es'" "messages_sent (MessageSent m # es) = m # messages_sent es"
  "messages_sent (ErrorEvent c x # es) = messages_sent es" "messages_sent (SystemMessage c x # es) = messages_sent es" "messages_sent (RunCancelled r # es) = messages_sent es"
  "messages_sent (TranscriptAppended tf x # es) = messages_sent es" "messages_sent (RunStarted r sc i k a p ws atts # es) = messages_sent es"
  by (simp_all add: messages_sent_def List.map_filter_def)

lemma runs_started_simps [simp]:
  "runs_started [] = []" "runs_started (es @ es') = runs_started es @ runs_started es'" "runs_started (MessageSent m # es) = runs_started es"
  "runs_started (ErrorEvent c x # es) = runs_started es" "runs_started (SystemMessage c x # es) = runs_started es"
  "runs_started (RunCancelled r # es) = runs_started es" "runs_started (TranscriptAppended tf x # es) = runs_started es"
  "runs_started (RunStarted r sc i k a p ws atts # es) = (k, a, p, ws, atts) # runs_started es"
  by (simp_all add: runs_started_def List.map_filter_def)

lemma requests_simps [simp]:
  "requests [] = []" "requests (ms @ ms') = requests ms @ requests ms'"
  "requests (TqDispatch k a p ws atts # ms) = (k, a, Dispatched_Prompt p, ws, atts) # requests ms"
  "requests (TqFollowup k a c ws atts # ms) = (k, a, Followup_Context c, ws, atts) # requests ms"
  "requests (TqCancel k # ms) = requests ms"
  by (simp_all add: request_def List.map_filter_def)

text \<open>\<open>sends s s'\<close>: nothing but the feeder's state changed, messages joined the channel and calls that start no
  run were made.\<close>

definition sends :: "tqm \<Rightarrow> tqm \<Rightarrow> bool" where
  "sends s s' \<longleftrightarrow>
     (\<exists>f es. s' = s\<lparr>qm_feeder := f, qm_chan := qm_chan s @ messages_sent es, qm_trace := qm_trace s @ es\<rparr> \<and> runs_started es = [])"

lemma sendsE:
  assumes "sends s s'"
  obtains f es where "s' = s\<lparr>qm_feeder := f, qm_chan := qm_chan s @ messages_sent es, qm_trace := qm_trace s @ es\<rparr>" "runs_started es = []"
  using assms by (auto simp: sends_def)

lemma sends_refl [simp]: "sends s s"
proof -
  have "s = s\<lparr>qm_feeder := qm_feeder s, qm_chan := qm_chan s @ messages_sent [], qm_trace := qm_trace s @ []\<rparr>" by simp
  then show ?thesis unfolding sends_def by (metis runs_started_simps(1))
qed

lemma sends_trans [trans]: "sends s t \<Longrightarrow> sends t u \<Longrightarrow> sends s u"
  by (elim sendsE, simp only: sends_def, rule exI, rule exI [of _ "_ @ _"]) (auto simp: sends_def)

lemma sends_feeder: "sends s (s\<lparr>qm_feeder := f\<rparr>)"
proof -
  have "s\<lparr>qm_feeder := f\<rparr> = s\<lparr>qm_feeder := f, qm_chan := qm_chan s @ messages_sent [], qm_trace := qm_trace s @ []\<rparr>" by simp
  then show ?thesis unfolding sends_def by (metis runs_started_simps(1))
qed

lemma sends_emit: "runs_started [e] = [] \<Longrightarrow> messages_sent [e] = [] \<Longrightarrow> sends s (snd (tq_emit e s))"
  unfolding sends_def tq_emit_def upd_def
  by (rule exI [of _ "qm_feeder s"], rule exI [of _ "[e]"]) simp

lemma sends_self: "sends s (snd (self_send m s))"
proof (cases "length (qm_chan s) < channel_capacity")
  case True
  then have "snd (self_send m s) = s\<lparr>qm_feeder := qm_feeder s, qm_chan := qm_chan s @ messages_sent [MessageSent m],
      qm_trace := qm_trace s @ [MessageSent m]\<rparr>" by (simp add: self_send_def)
  then show ?thesis unfolding sends_def by (intro exI conjI) (assumption, simp)
next
  case False
  then show ?thesis by (simp add: self_send_def)
qed

lemma sends_bind:
  assumes "\<And>s. sends s (snd (m s))" and "\<And>x s. sends s (snd (g x s))"
  shows "sends s (snd (bindE m g s))"
  by (cases "fst (m s)") (simp_all add: bindE_run assms sends_trans [OF assms(1) assms(2)])

lemma sends_ok [simp]: "sends s (snd (ok x s))"
  by (simp add: ok_def)

lemma sends_for: "(\<And>x s. sends s (snd (g x s))) \<Longrightarrow> sends s (snd (forE xs g s))"
  by (induction xs arbitrary: s) (simp_all add: sends_bind)

lemma sends_deliver: "sends s (snd (deliver e s))"
  by (simp add: deliver_def sends_self split: effect.split)

lemma sends_in_feeder: "sends s (snd (in_feeder m s))"
  using sends_trans [OF sends_feeder sends_for [OF sends_deliver]] by (simp add: in_feeder_def Let_def)

lemma sends_mark_failed: "sends s (snd (mark_task_failed env k s))"
  by (simp add: mark_task_failed_def Let_def sends_bind sends_in_feeder)

lemma sends_fail_start: "sends s (snd (fail_start env k msg s))"
  unfolding fail_start_def
  by (rule sends_bind) (simp_all add: emit_task_error_def sends_emit sends_mark_failed)

lemma sends_requeue: "sends s (snd (requeue_followup r f s))"
  by (auto simp: requeue_followup_def sends_self intro!: sends_bind sends_emit split: option.split)


lemma sends_fields:
  assumes "sends s s'"
  shows "qm_queue s' = qm_queue s" "qm_in_flight s' = qm_in_flight s" "qm_running s' = qm_running s"
    "qm_finished s' = qm_finished s" "qm_guard s' = qm_guard s" "qm_scope s' = qm_scope s"
    "qm_tasklist_id s' = qm_tasklist_id s" "runs_started (qm_trace s') = runs_started (qm_trace s)"
  using assms by (auto elim!: sendsE)

section \<open>One turn of the loop\<close>

lemma pump_one:
  assumes "qm_queue s = [m]"
  shows "pump env s = thenE (handle_message env m) (refresh_sleep_guard env) (s\<lparr>qm_queue := []\<rparr>)"
proof -
  let ?h = "handle_message env m (s\<lparr>qm_queue := []\<rparr>)"
  have "qm_queue (snd ?h) = []" using handle_message_queue [of env m "s\<lparr>qm_queue := []\<rparr>"] by simp
  then have "drain_queue env (snd ?h) = (Inr (), snd ?h)" by (simp add: drain_queue.simps)
  then show ?thesis
    using assms by (simp add: pump_def drain_queue.simps [of env s] bindE_run split: sum.split)
qed

lemma pump_none: "qm_queue s = [] \<Longrightarrow> pump env s = refresh_sleep_guard env s"
  by (simp add: pump_def drain_queue.simps bindE_run)

lemma queue_empty_update: "qm_queue s = [] \<Longrightarrow> s\<lparr>qm_chan := c, qm_queue := []\<rparr> = s\<lparr>qm_chan := c\<rparr>"
  by (cases s) simp

lemma take_message_one:
  assumes "qm_queue s = []" and "qm_chan s = m # ms"
  shows "take_message env s = thenE (handle_message env m) (refresh_sleep_guard env) (s\<lparr>qm_chan := ms\<rparr>)"
  using assms pump_one [of "s\<lparr>qm_chan := ms, qm_queue := [m]\<rparr>" m env]
  by (simp add: take_message_def queue_empty_update)

text \<open>What a message does: it starts its run, fails its task, kills the run in flight, or nothing.\<close>

definition starts :: "tq_env \<Rightarrow> tqm \<Rightarrow> task_id \<Rightarrow> agent_id \<Rightarrow> run_prompt \<Rightarrow> string option \<Rightarrow> string list \<Rightarrow> run_id \<Rightarrow> tqm" where
  "starts env s k owner p ws atts r =
     s\<lparr>qm_trace := qm_trace s @ [RunStarted r (qm_scope s) (qm_tasklist_id s) k owner p ws atts],
       qm_in_flight := (qm_in_flight s)(k \<mapsto> r),
       qm_running := qm_running s @
         [\<lparr> rn_run_id = r, rn_task_id = k, rn_owner_agent_id = owner, rn_workspace_dir = ws, rn_attachments = atts \<rparr>]\<rparr>"

lemma spawn_run_cases:
  obtains (runs_started) r where "spawn_run env k owner p ws atts s = (Inr (), starts env s k owner p ws atts r)"
    | (failed) msg where "spawn_run env k owner p ws atts s = fail_start env k msg s"
proof (cases "qe_agent env owner")
  case (Inl e)
  then show ?thesis by (intro failed) (simp add: spawn_run_def)
next
  case (Inr b)
  show ?thesis
  proof (cases b)
    case True
    with Inr show ?thesis
      by (cases "qe_start env (length (qm_trace s))") (auto simp: spawn_run_def starts_def intro: runs_started failed)
  next
    case False
    with Inr show ?thesis by (intro failed) (simp add: spawn_run_def)
  qed
qed

lemma spawn_run_sound:
  assumes "qe_agent env owner = Inr True" and "qe_start env (length (qm_trace s)) = Inr r"
  shows "spawn_run env k owner p ws atts s = (Inr (), starts env s k owner p ws atts r)"
  using assms by (simp add: spawn_run_def starts_def)

lemma handle_cancel_empty:
  assumes "qm_queue s = []"
  shows "handle_cancel k s =
     (Inr (), case qm_in_flight s k of
        Some r \<Rightarrow> s\<lparr>qm_in_flight := (qm_in_flight s)(k := None), qm_trace := qm_trace s @ [RunCancelled r]\<rparr>
      | None \<Rightarrow> s)"
  using assms by (simp add: handle_cancel_def tq_emit_def upd_def split: option.split)

section \<open>The invariant of a manager\<close>

text \<open>Between two events the queue is empty, every run recorded as in flight has yet to report, and an assertion held
  is of the kind the preferences asked for last.\<close>

definition awaited :: "tqm \<Rightarrow> task_id \<Rightarrow> run_id \<Rightarrow> bool" where
  "awaited s k r \<longleftrightarrow>
     (\<exists>x \<in> set (qm_running s) \<union> fst ` set (qm_finished s). rn_task_id x = k \<and> rn_run_id x = r)"

definition guard_kind :: "sleep_guard \<Rightarrow> bool" where
  "guard_kind g \<longleftrightarrow> (\<forall>b. sg_handle g = Some b \<longrightarrow> b = sg_keep_display_awake g)"

definition tq_inv :: "tqm \<Rightarrow> bool" where
  "tq_inv s \<longleftrightarrow>
     qm_queue s = [] \<and> (\<forall>k r. qm_in_flight s k = Some r \<longrightarrow> awaited s k r) \<and> guard_kind (qm_guard s)"

abbreviation sleep_prevented :: "tq_env \<Rightarrow> bool" where
  "sleep_prevented env \<equiv> (case qe_prefs env of Some p \<Rightarrow> fst p | None \<Rightarrow> True)"

abbreviation display_kept :: "tq_env \<Rightarrow> bool" where
  "display_kept env \<equiv> (case qe_prefs env of Some p \<Rightarrow> snd p | None \<Rightarrow> False)"

lemmas guard_defs = refreshed_guard_def Let_def update_active_def set_keep_display_awake_def set_disabled_def
  guard_acquire_def guard_release_def

lemma refreshed_kind: "guard_kind g \<Longrightarrow> guard_kind (refreshed_guard env active g)"
  by (auto simp: guard_kind_def guard_defs)

lemma refreshed_keep: "sg_keep_display_awake (refreshed_guard env active g) = display_kept env"
  by (simp add: guard_defs)

lemma refreshed_only_work:
  "sg_handle (refreshed_guard env active g) \<noteq> None \<Longrightarrow> sleep_prevented env \<and> active"
  by (simp add: guard_defs split: if_splits)

lemma refreshed_all_work:
  "sleep_prevented env \<Longrightarrow> active \<Longrightarrow> \<forall>n. qe_grants env n \<Longrightarrow> sg_handle (refreshed_guard env active g) \<noteq> None"
  by (simp add: guard_defs)

lemma sends_awaited: "sends s s' \<Longrightarrow> awaited s' k r = awaited s k r"
  by (simp add: awaited_def sends_fields)

lemma sends_inv: "sends s s' \<Longrightarrow> tq_inv s \<Longrightarrow> tq_inv s'"
  by (simp add: tq_inv_def sends_fields sends_awaited)

lemma starts_inv: "tq_inv s \<Longrightarrow> tq_inv (starts env s k owner p ws atts r)"
  by (auto simp: tq_inv_def starts_def awaited_def)

lemma spawn_run_inv: "tq_inv s \<Longrightarrow> tq_inv (snd (spawn_run env k owner p ws atts s))"
  by (cases rule: spawn_run_cases [of env k owner p ws atts s])
     (simp_all add: starts_inv sends_inv [OF sends_fail_start])

lemma handle_message_inv:
  assumes "tq_inv s"
  shows "tq_inv (snd (handle_message env m s))"
proof (cases m)
  case (TqCancel k)
  have "qm_queue s = []" using assms by (simp add: tq_inv_def)
  with TqCancel assms show ?thesis
    by (auto simp: handle_message_def handle_cancel_empty tq_inv_def awaited_def split: option.split)
qed (use assms in \<open>simp_all add: handle_message_def spawn_run_inv\<close>)

lemma refresh_inv: "tq_inv s \<Longrightarrow> tq_inv (snd (refresh_sleep_guard env s))"
  by (simp add: refresh_sleep_guard_def upd_def tq_inv_def awaited_def refreshed_kind)

lemma snd_bind: "(\<And>s. I s \<Longrightarrow> I (snd (m s))) \<Longrightarrow> (\<And>x s. I s \<Longrightarrow> I (snd (g x s))) \<Longrightarrow> I s \<Longrightarrow> I (snd (bindE m g s))"
  by (simp add: bindE_run split: sum.split)

lemma clear_inv:
  assumes "tq_inv s" and "qm_finished s = fin # fins"
  shows "tq_inv (clear_in_flight (fst fin) (s\<lparr>qm_finished := fins\<rparr>))"
  using assms by (auto simp: tq_inv_def clear_in_flight_def awaited_def)

lemma on_run_finished_inv:
  assumes "tq_inv s" and "qm_finished s = fin # fins"
  shows "tq_inv (snd (on_run_finished env fin (s\<lparr>qm_finished := fins\<rparr>)))"
proof -
  note c = clear_inv [OF assms]
  show ?thesis
  proof (cases "snd fin")
    case None
    then show ?thesis using sends_inv [OF sends_mark_failed c] by (simp add: on_run_finished_def)
  next
    case (Some fs)
    have "tq_inv (snd (forE fs (requeue_followup (fst fin)) s))" if "tq_inv s" for s
      by (rule sends_inv [OF sends_for [OF sends_requeue] that])
    with Some c show ?thesis
      by (simp add: on_run_finished_def snd_bind [where I = tq_inv] refresh_inv)
  qed
qed

lemma tq_step_inv:
  assumes "tq_inv s"
  shows "tq_inv (snd (tq_step env ev s))"
proof (cases ev)
  case Takes_Message
  show ?thesis
  proof (cases "qm_chan s")
    case Nil
    with Takes_Message assms show ?thesis by (simp add: tq_step_def take_message_def)
  next
    case (Cons m ms)
    have "tq_inv (s\<lparr>qm_chan := ms\<rparr>)" using assms by (simp add: tq_inv_def awaited_def)
    moreover have "qm_queue s = []" using assms by (simp add: tq_inv_def)
    ultimately show ?thesis using Takes_Message Cons
      by (simp add: tq_step_def take_message_one snd_bind [where I = tq_inv] handle_message_inv refresh_inv)
  qed
next
  case Takes_Finished
  show ?thesis
  proof (cases "qm_finished s")
    case Nil
    with Takes_Finished assms show ?thesis by (simp add: tq_step_def take_finished_def)
  next
    case (Cons fin fins)
    have f: "tq_inv (snd (on_run_finished env fin (s\<lparr>qm_finished := fins\<rparr>)))" by (rule on_run_finished_inv [OF assms Cons])
    have "tq_inv (snd (pump env s))" if "tq_inv s" for s
      using that by (simp add: pump_none refresh_inv tq_inv_def [of s])
    with f Takes_Finished Cons show ?thesis by (simp add: tq_step_def take_finished_def bindE_run split: sum.split)
  qed
next
  case (Run_Ends n out)
  have "set (qm_running s) = insert (qm_running s ! n) (set (take n (qm_running s)) \<union> set (drop (Suc n) (qm_running s)))"
    if "n < length (qm_running s)"
    using that by (subst id_take_nth_drop [OF that]) auto
  with Run_Ends assms show ?thesis by (auto simp: tq_step_def upd_def tq_inv_def awaited_def) blast+
qed (use assms in \<open>simp_all add: tq_step_def upd_def tq_inv_def awaited_def\<close>)

lemma tq_run_inv: "tq_inv (snd st) \<Longrightarrow> tq_inv (snd (tq_run evs st))"
  by (induction evs st rule: tq_run.induct) (simp_all add: tq_step_inv)

lemma new_manager_inv: "tq_inv (new_manager sc i f)"
  by (simp add: tq_inv_def new_manager_def guard_kind_def sleep_guard_new_def)

section \<open>Every message starts its run\<close>

text \<open>An environment in which every agent's profile loads and every run starts.\<close>

definition starts_always :: "tq_env \<Rightarrow> bool" where
  "starts_always env \<longleftrightarrow> (\<forall>a. qe_agent env a = Inr True) \<and> (\<forall>n. \<not> isl (qe_start env n))"

definition fifo :: "tqm \<Rightarrow> bool" where
  "fifo s \<longleftrightarrow> runs_started (qm_trace s) @ requests (qm_chan s) = requests (messages_sent (qm_trace s))"

lemma sends_fifo: "sends s s' \<Longrightarrow> fifo s \<Longrightarrow> fifo s'"
  by (elim sendsE) (simp add: fifo_def flip: append_assoc)

lemma guard_fifo: "fifo (snd (refresh_sleep_guard env s)) = fifo s"
  by (simp add: fifo_def refresh_sleep_guard_def upd_def)

lemma handle_message_starts:
  assumes "starts_always env" and "request m = Some (k, a, p, ws, atts)"
  obtains r where "handle_message env m s = (Inr (), starts env s k a p ws atts r)"
proof -
  obtain r where "qe_start env (length (qm_trace s)) = Inr r"
    using assms(1) by (auto simp: starts_always_def isl_def) (metis sum.exhaust)
  with assms that [of r] show ?thesis
    by (auto simp: handle_message_def request_def spawn_run_sound starts_always_def split: tq_message.splits)
qed

lemma handle_message_fifo:
  assumes "starts_always env" and "qm_queue s = []" and "fifo s" and "qm_chan s = m # ms"
  shows "fifo (snd (handle_message env m (s\<lparr>qm_chan := ms\<rparr>)))"
proof (cases "request m")
  case None
  then obtain k where "m = TqCancel k" by (auto simp: request_def split: tq_message.splits)
  with assms show ?thesis
    by (auto simp: handle_message_def handle_cancel_empty fifo_def request_def split: option.split)
next
  case (Some q)
  then obtain k a p ws atts where q: "request m = Some (k, a, p, ws, atts)" by (cases q) auto
  from handle_message_starts [OF assms(1) this] obtain r
    where "handle_message env m (s\<lparr>qm_chan := ms\<rparr>) = (Inr (), starts env (s\<lparr>qm_chan := ms\<rparr>) k a p ws atts r)" .
  with assms(3,4) q show ?thesis by (simp add: fifo_def starts_def List.map_filter_def)
qed

lemma clear_fields [simp]:
  "qm_chan (clear_in_flight r s) = qm_chan s" "qm_trace (clear_in_flight r s) = qm_trace s"
  "qm_queue (clear_in_flight r s) = qm_queue s" "qm_feeder (clear_in_flight r s) = qm_feeder s"
  "qm_scope (clear_in_flight r s) = qm_scope s" "qm_tasklist_id (clear_in_flight r s) = qm_tasklist_id s"
  by (simp_all add: clear_in_flight_def)

lemma on_run_finished_fifo:
  assumes "fifo s"
  shows "fifo (snd (on_run_finished env fin s))"
proof -
  have c: "fifo (clear_in_flight (fst fin) s)" using assms by (simp add: fifo_def)
  have f: "fifo (snd (forE fs (requeue_followup (fst fin)) s))" if "fifo s" for fs s
    by (rule sends_fifo [OF sends_for [OF sends_requeue] that])
  show ?thesis
    using c f by (simp add: on_run_finished_def sends_fifo [OF sends_mark_failed] snd_bind [where I = fifo] guard_fifo
        split: option.split)
qed

lemma tq_step_fifo:
  assumes "starts_always env" and "tq_inv s" and "fifo s"
  shows "fifo (snd (tq_step env ev s))"
proof (cases ev)
  case Takes_Message
  have q: "qm_queue s = []" using assms(2) by (simp add: tq_inv_def)
  show ?thesis
  proof (cases "qm_chan s")
    case Nil
    with Takes_Message assms show ?thesis by (simp add: tq_step_def take_message_def)
  next
    case (Cons m ms)
    then show ?thesis using handle_message_fifo [OF assms(1) q assms(3) Cons] Takes_Message
      by (simp add: tq_step_def take_message_one [OF q] bindE_run guard_fifo split: sum.split)
  qed
next
  case Takes_Finished
  show ?thesis
  proof (cases "qm_finished s")
    case Nil
    with Takes_Finished assms show ?thesis by (simp add: tq_step_def take_finished_def)
  next
    case (Cons fin fins)
    have "fifo (s\<lparr>qm_finished := fins\<rparr>)" using assms(3) by (simp add: fifo_def)
    then have "fifo (snd (on_run_finished env fin (s\<lparr>qm_finished := fins\<rparr>)))" by (rule on_run_finished_fifo)
    moreover have "qm_queue (snd (on_run_finished env fin (s\<lparr>qm_finished := fins\<rparr>))) = []"
      using on_run_finished_inv [OF assms(2) Cons] by (simp add: tq_inv_def)
    ultimately show ?thesis using Takes_Finished Cons
      by (simp add: tq_step_def take_finished_def bindE_run pump_none guard_fifo split: sum.split)
  qed
qed (use assms(3) in \<open>simp_all add: tq_step_def upd_def fifo_def flip: append_assoc\<close>)

lemma tq_run_fifo:
  "list_all (\<lambda>(env, ev). starts_always env) evs \<Longrightarrow> tq_inv (snd st) \<Longrightarrow> fifo (snd st) \<Longrightarrow> fifo (snd (tq_run evs st))"
  by (induction evs st rule: tq_run.induct) (simp_all add: tq_step_inv tq_step_fifo)

text \<open>While every profile loads and every start succeeds, each dispatch and each follow-up that entered the
  channel has started exactly one run, in the order they came, or is still in the channel - whatever cancels
  came in between: the branch of a cancel that takes pending messages out of the queue finds none.\<close>

theorem every_message_starts_once:
  assumes "list_all (\<lambda>(env, ev). starts_always env) evs" and "tq_run evs (False, new_manager sc i f) = (stuck, s)"
  shows "runs_started (qm_trace s) @ requests (qm_chan s) = requests (messages_sent (qm_trace s))"
proof -
  have "fifo (new_manager sc i f)" by (simp add: fifo_def new_manager_def)
  from tq_run_fifo [OF assms(1), of "(False, new_manager sc i f)"] this new_manager_inv assms(2)
  show ?thesis by (simp add: fifo_def)
qed

definition ready_env :: tq_env where
  "ready_env =
     \<lparr> qe_feeder = sample_env, qe_feeder_wired = True, qe_agent = (\<lambda>_. Inr True), qe_start = (\<lambda>n. Inr (replicate n CHR ''r'')),
       qe_prefs = None, qe_grants = (\<lambda>_. True) \<rparr>"

text \<open>A task is sent, cancelled, and sent again before the manager looks.\<close>

definition sample_events :: "(tq_env \<times> tq_event) list" where
  "sample_events =
     map (Pair ready_env)
       [Message_Sent (TqDispatch ''a'' ''x'' (TaskPrompt ''do'') None []), Message_Sent (TqCancel ''a''),
        Message_Sent (TqFollowup ''a'' ''x'' ''more'' None []), Takes_Message, Takes_Message]"

theorem every_message_starts_once_witness:
  "\<exists>stuck s. tq_run sample_events (False, new_manager (ScopeTeam ''T'') ''L'' (sample_feeder [])) = (stuck, s) \<and>
     runs_started (qm_trace s) @ requests (qm_chan s) = requests (messages_sent (qm_trace s))"
proof -
  have "list_all (\<lambda>(env, ev). starts_always env) sample_events"
    by (simp add: sample_events_def starts_always_def ready_env_def)
  with every_message_starts_once [of sample_events] show ?thesis by (meson surj_pair)
qed

end
