(* ===== verification/Queue_Hazards.thy ===== *)
theory Queue_Hazards
  imports Queue_Properties
begin

text \<open>
  What a turn of the manager's loop does to the sleep guard, to a task whose run cannot start, to a cancelled
  task, to a task that a stale report names, and to the loop itself when its channel is full.
\<close>

section \<open>The sleep guard\<close>

lemma refresh_run:
  "refresh_sleep_guard env s =
     (Inr (), s\<lparr>qm_guard := refreshed_guard env (has_active_tasklist_work s) (qm_guard s)\<rparr>)"
  by (simp add: refresh_sleep_guard_def upd_def)

lemma loop_turn_refreshes:
  assumes inv: "tq_inv s" and step: "tq_step env ev s = (Inr (), s')"
    and takes: "ev = Takes_Message \<and> qm_chan s \<noteq> [] \<or> ev = Takes_Finished \<and> qm_finished s \<noteq> []"
  obtains t where "tq_inv t" "s' = snd (refresh_sleep_guard env t)"
  using takes
proof
  assume a: "ev = Takes_Message \<and> qm_chan s \<noteq> []"
  then obtain m ms where c: "qm_chan s = m # ms" by (cases "qm_chan s") auto
  have q: "qm_queue s = []" using inv by (simp add: tq_inv_def)
  let ?t = "snd (handle_message env m (s\<lparr>qm_chan := ms\<rparr>))"
  have "tq_inv (s\<lparr>qm_chan := ms\<rparr>)" using inv by (simp add: tq_inv_def awaited_def)
  then have "tq_inv ?t" by (rule handle_message_inv)
  moreover have "s' = snd (refresh_sleep_guard env ?t)"
    using step a by (simp add: tq_step_def take_message_one [OF q c] bindE_run split: sum.splits)
  ultimately show thesis by (rule that)
next
  assume a: "ev = Takes_Finished \<and> qm_finished s \<noteq> []"
  then obtain fin fins where c: "qm_finished s = fin # fins" by (cases "qm_finished s") auto
  let ?t = "snd (on_run_finished env fin (s\<lparr>qm_finished := fins\<rparr>))"
  have t: "tq_inv ?t" by (rule on_run_finished_inv [OF inv c])
  then have "qm_queue ?t = []" by (simp add: tq_inv_def)
  then have "s' = snd (refresh_sleep_guard env ?t)"
    using step a c by (simp add: tq_step_def take_finished_def bindE_run pump_none split: sum.splits)
  with t show thesis by (rule that)
qed

text \<open>After every turn of a manager's loop that returns, the machine is kept awake only if the preferences ask
  for it and some run in flight has yet to report; and if so, and the operating system grants what it is
  asked, it is kept awake, with the display as the preferences say.\<close>

theorem sleep_guard_follows_runs:
  assumes "tq_run evs (False, new_manager sc i f) = (stuck, s)" and "tq_step env ev s = (Inr (), s')"
    and "ev = Takes_Message \<and> qm_chan s \<noteq> [] \<or> ev = Takes_Finished \<and> qm_finished s \<noteq> []"
  shows "(sg_handle (qm_guard s') \<noteq> None \<longrightarrow>
            sleep_prevented env \<and> (\<exists>k r. qm_in_flight s' k = Some r \<and> awaited s' k r)) \<and>
         (sleep_prevented env \<and> (\<exists>k. qm_in_flight s' k \<noteq> None) \<and> (\<forall>n. qe_grants env n) \<longrightarrow>
            sg_handle (qm_guard s') = Some (display_kept env))"
proof -
  have "tq_inv s" using tq_run_inv [of "(False, new_manager sc i f)" evs] assms(1) new_manager_inv by simp
  from loop_turn_refreshes [OF this assms(2,3)] obtain t
    where t: "tq_inv t" and s': "s' = snd (refresh_sleep_guard env t)" .
  have inv': "tq_inv s'" unfolding s' by (rule refresh_inv [OF t])
  have g: "qm_guard s' = refreshed_guard env (has_active_tasklist_work s') (qm_guard t)"
    by (simp add: s' refresh_run has_active_tasklist_work_def)
  have work: "has_active_tasklist_work s' \<longleftrightarrow> (\<exists>k. qm_in_flight s' k \<noteq> None)"
    using inv' by (simp add: has_active_tasklist_work_def tq_inv_def)
  have kind: "guard_kind (qm_guard s')" using inv' by (simp add: tq_inv_def)
  have keep: "sg_keep_display_awake (qm_guard s') = display_kept env" by (simp only: g refreshed_keep)
  show ?thesis
  proof (intro conjI impI)
    assume "sg_handle (qm_guard s') \<noteq> None"
    then have p: "sleep_prevented env \<and> has_active_tasklist_work s'" unfolding g by (rule refreshed_only_work)
    then show "sleep_prevented env" by (rule conjunct1)
    from p work obtain k r where "qm_in_flight s' k = Some r" by blast
    moreover from this inv' have "awaited s' k r" by (simp add: tq_inv_def)
    ultimately show "\<exists>k r. qm_in_flight s' k = Some r \<and> awaited s' k r" by blast
  next
    assume a: "sleep_prevented env \<and> (\<exists>k. qm_in_flight s' k \<noteq> None) \<and> (\<forall>n. qe_grants env n)"
    then have "sg_handle (qm_guard s') \<noteq> None"
      unfolding g using refreshed_all_work [of env "has_active_tasklist_work s'"] work by blast
    then obtain b where "sg_handle (qm_guard s') = Some b" by blast
    with kind keep show "sg_handle (qm_guard s') = Some (display_kept env)" unfolding guard_kind_def by metis
  qed
qed

section \<open>A run that cannot start\<close>

lemma request_handled:
  assumes "request m = Some (k, a, p, ws, atts)"
  shows "handle_message env m = spawn_run env k a p ws atts"
  using assms by (auto simp: handle_message_def request_def split: tq_message.splits)

text \<open>C7: With a feeder wired, a message for a task of an active tasklist, in a status from which it may fail, whose agent
  is missing or whose run cannot start: the task fails with one error event on its owner's channel and the
  tasklist fails with it. No run is started, the runs in flight stay as they were, nothing further is dispatched,
  and the loop goes on.\<close>

theorem failed_start_halts_tasklist:
  assumes "qm_queue s = []" and "qm_chan s = m # ms" and "request m = Some (k, a, p, ws, atts)"
    and "qe_agent env a \<noteq> Inr True \<or> (\<forall>n. isl (qe_start env n))" and "qe_feeder_wired env"
    and "store_wf (fs_store (qm_feeder s))"
    and "store_lookup (fs_store (qm_feeder s)) (scope_owner (qm_scope s), qm_tasklist_id s) = Some L"
    and "tl_status L = TlActive" and "find_task L k = Some t" and "is_valid_task_transition (t_status t) Failed"
  shows "\<exists>s' msg L'. tq_step env Takes_Message s = (Inr (), s') \<and>
     qm_trace s' = qm_trace s @ [ErrorEvent (event_channel_for_scope (qm_scope s)) msg] \<and>
     qm_chan s' = ms \<and> qm_in_flight s' = qm_in_flight s \<and> qm_running s' = qm_running s \<and>
     calls (qm_feeder s') = calls (qm_feeder s) \<and>
     store_lookup (fs_store (qm_feeder s')) (scope_owner (qm_scope s), qm_tasklist_id s) = Some L' \<and>
     tl_status L' = TlFailed \<and> map_option t_status (find_task L' k) = Some Failed"
proof -
  let ?s = "s\<lparr>qm_chan := ms\<rparr>"
  obtain msg where "spawn_run env k a p ws atts ?s = fail_start env k msg ?s"
  proof (cases "qe_agent env a = Inr True")
    case True
    with assms(4) obtain e where "qe_start env (length (qm_trace ?s)) = Inl e" by (auto simp: isl_def)
    with True that show thesis by (simp add: spawn_run_def)
  next
    case False
    show thesis
    proof (cases "qe_agent env a")
      case (Inl e)
      with that show thesis by (simp add: spawn_run_def)
    next
      case (Inr b)
      with False that show thesis by (cases b) (simp_all add: spawn_run_def)
    qed
  qed
  moreover let ?t = "?s\<lparr>qm_trace := qm_trace s @ [ErrorEvent (event_channel_for_scope (qm_scope s)) msg]\<rparr>"
  obtain f' L' where "mark_task_failed env k ?t = (Inr (), ?t\<lparr>qm_feeder := f'\<rparr>)"
    "calls f' = calls (qm_feeder s)"
    "store_lookup (fs_store f') (scope_owner (qm_scope s), qm_tasklist_id s) = Some L'"
    "tl_status L' = TlFailed" "map_option t_status (find_task L' k) = Some Failed"
    using mark_failed_run [of ?t L k t env] assms(5-10) by auto
  ultimately show ?thesis
    using assms(1-3)
    by (simp add: tq_step_def take_message_one request_handled bindE_run fail_start_def emit_task_error_def
        tq_emit_def upd_def refresh_run)
qed

definition working_list :: tasklist where
  "working_list = sample_list (OwnerTeam ''T'') ''L'' TlActive
     [sample_group Seq [sample_task ''a'' ''x'' InProgress, sample_task ''b'' ''x'' Pending]]"

definition sample_manager :: "tq_message list \<Rightarrow> run_finished list \<Rightarrow> (task_id \<Rightarrow> run_id option) \<Rightarrow> tqm" where
  "sample_manager chan fins flight =
     (new_manager (ScopeTeam ''T'') ''L'' (sample_feeder [working_list]))
       \<lparr>qm_chan := chan, qm_finished := fins, qm_in_flight := flight\<rparr>"

lemma sample_manager_sel [simp]:
  "qm_queue (sample_manager ch fi fl) = []" "qm_chan (sample_manager ch fi fl) = ch"
  "qm_finished (sample_manager ch fi fl) = fi" "qm_in_flight (sample_manager ch fi fl) = fl"
  "qm_scope (sample_manager ch fi fl) = ScopeTeam ''T''" "qm_tasklist_id (sample_manager ch fi fl) = ''L''"
  "qm_feeder (sample_manager ch fi fl) = sample_feeder [working_list]" "qm_trace (sample_manager ch fi fl) = []"
  by (simp_all add: sample_manager_def new_manager_def)

lemma working_list_facts [simp]:
  "store_wf (sample_store [working_list])"
  "store_lookup (sample_store [working_list]) (OwnerTeam ''T'', ''L'') = Some working_list" "tl_key working_list = (OwnerTeam ''T'', ''L'')"
  "tl_status working_list = TlActive" "find_task working_list ''a'' = Some (sample_task ''a'' ''x'' InProgress)"
  by (simp_all add: working_list_def sample_store_wf find_task_def)

lemma scope_owner_team [simp]: "scope_owner (ScopeTeam x) = OwnerTeam x"
  by (simp add: scope_owner_def)

lemma in_progress_may_fail [simp]: "is_valid_task_transition InProgress Failed"
  by (simp add: is_valid_task_transition_def)

text \<open>An agent without a profile.\<close>

theorem failed_start_halts_tasklist_witness:
  "\<exists>s' msg L'. tq_step (ready_env\<lparr>qe_agent := \<lambda>_. Inr False\<rparr>) Takes_Message
       (sample_manager [TqDispatch ''a'' ''x'' (TaskPrompt ''do'') None []] [] Map.empty) = (Inr (), s') \<and>
     qm_trace s' = [ErrorEvent ''team:T'' msg] \<and>
     store_lookup (fs_store (qm_feeder s')) (OwnerTeam ''T'', ''L'') = Some L' \<and>
     tl_status L' = TlFailed \<and> map_option t_status (find_task L' ''a'') = Some Failed"
  using failed_start_halts_tasklist [of "sample_manager [TqDispatch ''a'' ''x'' (TaskPrompt ''do'') None []] [] Map.empty"
      "TqDispatch ''a'' ''x'' (TaskPrompt ''do'') None []" "[]" "''a''" "''x''" "Dispatched_Prompt (TaskPrompt ''do'')" None "[]"
      "ready_env\<lparr>qe_agent := \<lambda>_. Inr False\<rparr>" working_list "sample_task ''a'' ''x'' InProgress"]
  by (auto simp: request_def ready_env_def event_channel_for_scope_def)

section \<open>A stale report\<close>

lemma clear_other_run:
  "qm_in_flight s (rn_task_id x) \<noteq> Some (rn_run_id x) \<Longrightarrow> clear_in_flight x s = s"
  by (simp add: clear_in_flight_def)

text \<open>The guard that protects the record of a newer run protects only the record: a run that breaks off fails
  its task also when a newer run of the task is in flight, and the tasklist fails with it, while the
  newer run works on.\<close>

theorem stale_report_fails_live_task:
  assumes "qm_queue s = []" and "qm_finished s = (x, None) # fins"
    and "qm_in_flight s (rn_task_id x) = Some r" and "r \<noteq> rn_run_id x" and "qe_feeder_wired env"
    and "store_wf (fs_store (qm_feeder s))"
    and "store_lookup (fs_store (qm_feeder s)) (scope_owner (qm_scope s), qm_tasklist_id s) = Some L"
    and "tl_status L = TlActive" and "find_task L (rn_task_id x) = Some t" and "t_status t = InProgress"
  shows "\<exists>s' L'. tq_step env Takes_Finished s = (Inr (), s') \<and>
     qm_in_flight s' (rn_task_id x) = Some r \<and> qm_running s' = qm_running s \<and> qm_trace s' = qm_trace s \<and>
     store_lookup (fs_store (qm_feeder s')) (scope_owner (qm_scope s), qm_tasklist_id s) = Some L' \<and>
     tl_status L' = TlFailed \<and> map_option t_status (find_task L' (rn_task_id x)) = Some Failed"
proof -
  let ?s = "s\<lparr>qm_finished := fins\<rparr>"
  have c: "clear_in_flight x ?s = ?s" using assms(3,4) by (intro clear_other_run) simp
  obtain f' L' where "mark_task_failed env (rn_task_id x) ?s = (Inr (), ?s\<lparr>qm_feeder := f'\<rparr>)"
    "store_lookup (fs_store f') (scope_owner (qm_scope s), qm_tasklist_id s) = Some L'"
    "tl_status L' = TlFailed" "map_option t_status (find_task L' (rn_task_id x)) = Some Failed"
    using mark_failed_run [of ?s L "rn_task_id x" t env] assms(5-10) by auto
  with c show ?thesis
    using assms(1-3) by (simp add: tq_step_def take_finished_def on_run_finished_def bindE_run upd_run pump_none refresh_run)
qed

definition sample_started :: "run_id \<Rightarrow> started_run" where
  "sample_started r = \<lparr> rn_run_id = r, rn_task_id = ''a'', rn_owner_agent_id = ''x'', rn_workspace_dir = None, rn_attachments = [] \<rparr>"

lemma sample_started_sel [simp]:
  "rn_run_id (sample_started r) = r" "rn_task_id (sample_started r) = ''a''" "rn_owner_agent_id (sample_started r) = ''x''"
  "rn_workspace_dir (sample_started r) = None" "rn_attachments (sample_started r) = []"
  by (simp_all add: sample_started_def)

theorem stale_report_fails_live_task_witness:
  "\<exists>s' L'. tq_step ready_env Takes_Finished (sample_manager [] [(sample_started ''old'', None)] [''a'' \<mapsto> ''new'']) = (Inr (), s') \<and>
     qm_in_flight s' ''a'' = Some ''new'' \<and>
     store_lookup (fs_store (qm_feeder s')) (OwnerTeam ''T'', ''L'') = Some L' \<and>
     tl_status L' = TlFailed \<and> map_option t_status (find_task L' ''a'') = Some Failed"
  using stale_report_fails_live_task [of "sample_manager [] [(sample_started ''old'', None)] [''a'' \<mapsto> ''new'']"
      "sample_started ''old''" "[]" "''new''" ready_env working_list "sample_task ''a'' ''x'' InProgress"]
  by (auto simp: ready_env_def)

section \<open>Follow-ups and the manager's own channel\<close>

definition followup_message :: "started_run \<Rightarrow> workflow_followup \<Rightarrow> tq_message" where
  "followup_message x f =
     TqFollowup (rn_task_id x) (rn_owner_agent_id x) (wf_context f) (rn_workspace_dir x) (rn_attachments x)"

lemma sends_requeue_all: "sends s (snd (forE fs (requeue_followup x) s))"
  by (rule sends_for) (rule sends_requeue)

lemma requeue_room:
  assumes "length (qm_chan s) < channel_capacity"
  shows "\<exists>es. requeue_followup x f s =
     (Inr (), s\<lparr>qm_chan := qm_chan s @ [followup_message x f], qm_trace := qm_trace s @ es\<rparr>) \<and> runs_started es = []"
proof (cases "wf_system_transcript f")
  case None
  with assms show ?thesis
    by (intro exI [of _ "[MessageSent (followup_message x f)]"])
       (simp add: requeue_followup_def self_send_def followup_message_def)
next
  case (Some t)
  with assms show ?thesis
    by (intro exI [of _ "[TranscriptAppended (followup_transcript_path (qm_scope s) (qm_tasklist_id s)
          (rn_owner_agent_id x) (rn_task_id x)) t,
        SystemMessage (event_channel_for_scope (qm_scope s)) t, MessageSent (followup_message x f)]"])
       (simp add: requeue_followup_def self_send_def followup_message_def tq_emit_def bindE_run upd_run)
qed

lemma requeue_full: "\<not> length (qm_chan s) < channel_capacity \<Longrightarrow> fst (requeue_followup x f s) = Inl Loop_Blocked"
  by (cases "wf_system_transcript f") (auto simp: requeue_followup_def self_send_def tq_emit_def bindE_run upd_run)

lemma requeue_all:
  "length (qm_chan s) + length fs \<le> channel_capacity \<Longrightarrow>
     \<exists>es. forE fs (requeue_followup x) s =
       (Inr (), s\<lparr>qm_chan := qm_chan s @ map (followup_message x) fs, qm_trace := qm_trace s @ es\<rparr>) \<and> runs_started es = []"
proof (induction fs arbitrary: s)
  case Nil
  show ?case by (rule exI [of _ "[]"]) (simp add: ok_def)
next
  case (Cons f fs)
  then obtain es where es: "requeue_followup x f s =
      (Inr (), s\<lparr>qm_chan := qm_chan s @ [followup_message x f], qm_trace := qm_trace s @ es\<rparr>)" "runs_started es = []"
    using requeue_room [of s x f] by auto
  with Cons.IH [of "snd (requeue_followup x f s)"] Cons.prems obtain es'
    where "forE fs (requeue_followup x) (snd (requeue_followup x f s)) =
        (Inr (), s\<lparr>qm_chan := qm_chan s @ map (followup_message x) (f # fs), qm_trace := qm_trace s @ es @ es'\<rparr>)"
      "runs_started es' = []" by auto
  with es show ?case by (intro exI [of _ "es @ es'"]) (simp add: bindE_run)
qed

lemma requeue_overfull:
  "fs \<noteq> [] \<Longrightarrow> channel_capacity < length (qm_chan s) + length fs \<Longrightarrow> fst (forE fs (requeue_followup x) s) = Inl Loop_Blocked"
proof (induction fs arbitrary: s)
  case (Cons f fs)
  show ?case
  proof (cases "length (qm_chan s) < channel_capacity")
    case True
    then obtain es where es: "requeue_followup x f s =
        (Inr (), s\<lparr>qm_chan := qm_chan s @ [followup_message x f], qm_trace := qm_trace s @ es\<rparr>)"
      using requeue_room [of s x f] by auto
    with Cons True have "fst (forE fs (requeue_followup x) (snd (requeue_followup x f s))) = Inl Loop_Blocked"
      by (intro Cons.IH) (cases fs, auto)
    with es show ?thesis by (simp add: bindE_run)
  qed (simp add: bindE_run requeue_full)
qed simp

lemma take_finished_blocks_iff:
  assumes "qm_queue s = []" and "qm_finished s = (x, Some fs) # fins"
  shows "isl (fst (take_finished env s)) \<longleftrightarrow> fs \<noteq> [] \<and> channel_capacity < length (qm_chan s) + length fs"
proof -
  let ?s = "clear_in_flight x (s\<lparr>qm_finished := fins\<rparr>)"
  let ?r = "forE fs (requeue_followup x) ?s"
  have q: "qm_queue (snd ?r) = []"
    using assms(1) sends_fields(1) [OF sends_requeue_all, of fs x ?s] by simp
  have "isl (fst (take_finished env s)) \<longleftrightarrow> isl (fst ?r)"
    using assms q
    by (simp add: take_finished_def on_run_finished_def bindE_run upd_run refresh_run pump_none split: sum.split)
  moreover have "isl (fst ?r) \<longleftrightarrow> fs \<noteq> [] \<and> channel_capacity < length (qm_chan s) + length fs"
  proof (cases "fs \<noteq> [] \<and> channel_capacity < length (qm_chan s) + length fs")
    case True
    then show ?thesis using requeue_overfull [of fs ?s x] by simp
  next
    case False
    then have "fs = [] \<or> length (qm_chan ?s) + length fs \<le> channel_capacity" by auto
    then have "\<not> isl (fst ?r)" using requeue_all [of ?s fs x] by (auto simp: ok_def)
    with False show ?thesis by blast
  qed
  ultimately show ?thesis by simp
qed

lemma stuck_starts_nothing:
  "fst (tq_run evs (True, s)) \<and> runs_started (qm_trace (snd (tq_run evs (True, s)))) = runs_started (qm_trace s)"
proof (induction evs arbitrary: s)
  case (Cons e evs)
  obtain env ev where e: "e = (env, ev)" by (cases e)
  show ?case
  proof (cases "is_loop_event ev")
    case True
    then show ?thesis using Cons e by simp
  next
    case False
    then have "runs_started (qm_trace (snd (tq_step env ev s))) = runs_started (qm_trace s)"
      by (auto simp: tq_step_def is_loop_event_def upd_def split: tq_event.split)
    with False show ?thesis using Cons [of "snd (tq_step env ev s)"] e by simp
  qed
qed simp

text \<open>The loop that takes the report of a run with follow-ups sends them to its own channel, whose only reader it
  is: it blocks exactly when they and the messages in line, from whoever, are more than 128, and then it starts
  no run again, whatever happens.\<close>

theorem followups_block_own_loop:
  assumes "qm_queue s = []" and "qm_finished s = (x, Some fs) # fins"
  shows "(isl (fst (tq_step env Takes_Finished s)) \<longleftrightarrow> fs \<noteq> [] \<and> 128 < length (qm_chan s) + length fs) \<and>
     (fs \<noteq> [] \<and> 128 < length (qm_chan s) + length fs \<longrightarrow>
        (case tq_run ((env, Takes_Finished) # evs) (False, s) of (stuck, s') \<Rightarrow>
           stuck \<and> runs_started (qm_trace s') = runs_started (qm_trace s)))"
proof -
  have b: "isl (fst (tq_step env Takes_Finished s)) \<longleftrightarrow> fs \<noteq> [] \<and> 128 < length (qm_chan s) + length fs"
    using take_finished_blocks_iff [OF assms, of env] by (simp add: tq_step_def channel_capacity_def)
  have "runs_started (qm_trace (snd (tq_step env Takes_Finished s))) = runs_started (qm_trace s)"
    if "isl (fst (tq_step env Takes_Finished s))"
  proof -
    let ?r = "forE fs (requeue_followup x) (clear_in_flight x (s\<lparr>qm_finished := fins\<rparr>))"
    have "snd (tq_step env Takes_Finished s) = snd ?r"
      using that assms sends_fields(1) [OF sends_requeue_all, of fs x "clear_in_flight x (s\<lparr>qm_finished := fins\<rparr>)"]
      by (simp add: tq_step_def take_finished_def on_run_finished_def bindE_run upd_run refresh_run pump_none
          split: sum.splits)
    then show ?thesis
      using sends_fields(8) [OF sends_requeue_all, of fs x "clear_in_flight x (s\<lparr>qm_finished := fins\<rparr>)"] by simp
  qed
  with b stuck_starts_nothing [of evs "snd (tq_step env Takes_Finished s)"] show ?thesis
    by (simp add: split_beta)
qed

text \<open>A run with one follow-up ends while 128 messages wait.\<close>

theorem followups_block_own_loop_witness:
  "case tq_run [(ready_env, Takes_Finished), (ready_env, Takes_Message)]
     (False, sample_manager (replicate 128 (TqCancel ''b''))
        [(sample_started ''r'', Some [\<lparr> wf_context = ''more'', wf_system_transcript = None \<rparr>])] [''a'' \<mapsto> ''r'']) of (stuck, s') \<Rightarrow>
     stuck \<and> runs_started (qm_trace s') = []"
  using followups_block_own_loop [of "sample_manager (replicate 128 (TqCancel ''b''))
        [(sample_started ''r'', Some [\<lparr> wf_context = ''more'', wf_system_transcript = None \<rparr>])] [''a'' \<mapsto> ''r'']"
      "sample_started ''r''" "[\<lparr> wf_context = ''more'', wf_system_transcript = None \<rparr>]" "[]" ready_env
      "[(ready_env, Takes_Message)]"]
  by (simp del: tq_run.simps)

section \<open>A cancelled task with a follow-up\<close>

lemma take_report:
  assumes "qm_queue s = []" and "qm_finished s = [(x, Some [fu])]" and "length (qm_chan s) < channel_capacity"
  shows "\<exists>s'. tq_step env Takes_Finished s = (Inr (), s') \<and> qm_queue s' = [] \<and>
     qm_chan s' = qm_chan s @ [followup_message x fu] \<and> runs_started (qm_trace s') = runs_started (qm_trace s) \<and>
     qm_in_flight s' = qm_in_flight (clear_in_flight x s)"
proof -
  let ?s = "clear_in_flight x (s\<lparr>qm_finished := []\<rparr>)"
  have "length (qm_chan ?s) < channel_capacity" using assms by simp
  from requeue_room [OF this, of x fu] obtain es where es: "requeue_followup x fu ?s =
      (Inr (), ?s\<lparr>qm_chan := qm_chan s @ [followup_message x fu], qm_trace := qm_trace s @ es\<rparr>)" "runs_started es = []"
    by auto
  have "qm_in_flight ?s = qm_in_flight (clear_in_flight x s)" by (simp add: clear_in_flight_def)
  with es assms(1,2) show ?thesis
    by (simp add: tq_step_def take_finished_def on_run_finished_def bindE_run upd_run ok_run refresh_run pump_none)
qed

lemma take_cancel:
  assumes "qm_queue s = []" and "qm_chan s = TqCancel k # ms"
  shows "\<exists>s'. tq_step env Takes_Message s = (Inr (), s') \<and> qm_queue s' = [] \<and> qm_chan s' = ms \<and>
     qm_finished s' = qm_finished s \<and> runs_started (qm_trace s') = runs_started (qm_trace s) \<and>
     qm_in_flight s' = (qm_in_flight s)(k := None)"
  using assms
  by (cases "qm_in_flight s k")
     (auto simp: tq_step_def take_message_one handle_message_def bindE_run handle_cancel_empty refresh_run)

lemma take_request:
  assumes "qm_queue s = []" and "qm_chan s = [m]" and "starts_always env" and "request m = Some (k, a, p, ws, atts)"
  shows "\<exists>s'. tq_step env Takes_Message s = (Inr (), s') \<and>
     runs_started (qm_trace s') = runs_started (qm_trace s) @ [(k, a, p, ws, atts)] \<and> qm_in_flight s' k \<noteq> None"
proof -
  obtain r where "handle_message env m (s\<lparr>qm_chan := []\<rparr>) = (Inr (), starts env (s\<lparr>qm_chan := []\<rparr>) k a p ws atts r)"
    using handle_message_starts [OF assms(3,4)] by blast
  with assms(1,2) show ?thesis
    by (simp add: tq_step_def take_message_one bindE_run refresh_run starts_def)
qed

text \<open>A cancel does not end a task whose run has a follow-up to come: whether the loop takes the cancel before or
  after the report of the run, it starts the follow-up's run, and the task is in flight again.\<close>

theorem cancel_misses_followup:
  assumes "qm_queue s = []" and "qm_chan s = [TqCancel k]" and "qm_finished s = [(x, Some [fu])]"
    and "rn_task_id x = k" and "starts_always env"
    and "evs = [Takes_Message, Takes_Finished, Takes_Message] \<or> evs = [Takes_Finished, Takes_Message, Takes_Message]"
  shows "case tq_run (map (Pair env) evs) (False, s) of (stuck, s') \<Rightarrow>
     \<not> stuck \<and> qm_in_flight s' k \<noteq> None \<and>
     runs_started (qm_trace s') = runs_started (qm_trace s) @
       [(k, rn_owner_agent_id x, Followup_Context (wf_context fu), rn_workspace_dir x, rn_attachments x)]"
proof -
  have m: "request (followup_message x fu) =
      Some (k, rn_owner_agent_id x, Followup_Context (wf_context fu), rn_workspace_dir x, rn_attachments x)"
    using assms(4) by (simp add: followup_message_def request_def)
  from assms(6) show ?thesis
  proof
    assume evs: "evs = [Takes_Message, Takes_Finished, Takes_Message]"
    obtain s1 where s1: "tq_step env Takes_Message s = (Inr (), s1)" "qm_queue s1 = []" "qm_chan s1 = []"
      "qm_finished s1 = [(x, Some [fu])]" "runs_started (qm_trace s1) = runs_started (qm_trace s)"
      using take_cancel [OF assms(1,2), of env] assms(3) by auto
    obtain s2 where s2: "tq_step env Takes_Finished s1 = (Inr (), s2)" "qm_queue s2 = []"
      "qm_chan s2 = [followup_message x fu]" "runs_started (qm_trace s2) = runs_started (qm_trace s)"
      using take_report [OF s1(2,4), of env] s1(3,5) by (auto simp: channel_capacity_def)
    show ?thesis using take_request [OF s2(2,3) assms(5) m] s1(1) s2(1,4) evs by auto
  next
    assume evs: "evs = [Takes_Finished, Takes_Message, Takes_Message]"
    obtain s1 where s1: "tq_step env Takes_Finished s = (Inr (), s1)" "qm_queue s1 = []"
      "qm_chan s1 = [TqCancel k, followup_message x fu]" "runs_started (qm_trace s1) = runs_started (qm_trace s)"
      using take_report [OF assms(1,3), of env] assms(2) by (auto simp: channel_capacity_def)
    obtain s2 where s2: "tq_step env Takes_Message s1 = (Inr (), s2)" "qm_queue s2 = []"
      "qm_chan s2 = [followup_message x fu]" "runs_started (qm_trace s2) = runs_started (qm_trace s)"
      using take_cancel [OF s1(2,3), of env] s1(4) by auto
    show ?thesis using take_request [OF s2(2,3) assms(5) m] s1(1) s2(1,4) evs by auto
  qed
qed

theorem cancel_misses_followup_witness:
  "case tq_run (map (Pair ready_env) [Takes_Message, Takes_Finished, Takes_Message])
     (False, sample_manager [TqCancel ''a'']
        [(sample_started ''r'', Some [\<lparr> wf_context = ''more'', wf_system_transcript = None \<rparr>])] [''a'' \<mapsto> ''r'']) of (stuck, s') \<Rightarrow>
     \<not> stuck \<and> qm_in_flight s' ''a'' \<noteq> None \<and>
     runs_started (qm_trace s') = [(''a'', ''x'', Followup_Context ''more'', None, [])]"
  using cancel_misses_followup [of "sample_manager [TqCancel ''a'']
        [(sample_started ''r'', Some [\<lparr> wf_context = ''more'', wf_system_transcript = None \<rparr>])] [''a'' \<mapsto> ''r'']"
      "''a''" "sample_started ''r''" "\<lparr> wf_context = ''more'', wf_system_transcript = None \<rparr>" ready_env
      "[Takes_Message, Takes_Finished, Takes_Message]"]
  by (simp add: starts_always_def ready_env_def)

text \<open>The report of a cancelled run whose cancel found it: the guard is let go.\<close>

theorem sleep_guard_follows_runs_witness:
  "\<exists>s'. tq_step ready_env Takes_Message
       (snd (tq_run [(ready_env, Message_Sent (TqCancel ''a''))] (False, new_manager (ScopeTeam ''T'') ''L'' (sample_feeder [])))) =
       (Inr (), s') \<and> sg_handle (qm_guard s') = None"
proof -
  let ?s = "snd (tq_run [(ready_env, Message_Sent (TqCancel ''a''))] (False, new_manager (ScopeTeam ''T'') ''L'' (sample_feeder [])))"
  have r: "tq_run [(ready_env, Message_Sent (TqCancel ''a''))] (False, new_manager (ScopeTeam ''T'') ''L'' (sample_feeder [])) =
      (False, ?s)" by (simp add: is_loop_event_def tq_step_def upd_def)
  have s: "qm_queue ?s = []" "qm_chan ?s = [TqCancel ''a'']" "qm_in_flight ?s = Map.empty"
    by (simp_all add: is_loop_event_def tq_step_def upd_def new_manager_def)
  obtain s' where s': "tq_step ready_env Takes_Message ?s = (Inr (), s')" "qm_in_flight s' = Map.empty"
    using take_cancel [OF s(1,2), of ready_env] s(3) by auto
  with sleep_guard_follows_runs [OF r s'(1)] s(2) have "sg_handle (qm_guard s') = None" by auto
  with s'(1) show ?thesis by blast
qed

end
