(* ===== verification/Message_Chunks.thy ===== *)
theory Message_Chunks
  imports LS_Prelude
begin

text \<open>
  The message chunker of \<open>channels/relay/chunker.rs\<close> and the two senders that use it: \<open>relay_reply\<close>
  of \<open>channels/discord/outbound.rs\<close> and of \<open>telegram/outbound.rs\<close>.

  A text is the list of its code points: the source counts \<open>char\<close>s and cuts at character
  boundaries, so a byte offset of the source is the encoded length of a prefix of this list. The
  loop of \<open>chunk_text\<close> is a \<open>partial_function\<close>: \<open>None\<close> is a loop that does not end. A channel's
  API is a parameter: \<open>accepts h m\<close> says whether message \<open>m\<close> gets through after the attempts \<open>h\<close>.
\<close>

section \<open>Texts\<close>

type_synonym utext = "nat list"

text \<open>The text of an ASCII string.\<close>

definition text_of :: "string \<Rightarrow> utext" where
  "text_of s = map of_char s"

definition newline :: nat where
  "newline = 10"

text \<open>\<open>char::is_whitespace\<close>, the Unicode property \<open>White_Space\<close>, and \<open>s.trim().is_empty()\<close>.\<close>

definition is_whitespace :: "nat \<Rightarrow> bool" where
  "is_whitespace c \<longleftrightarrow>
     9 \<le> c \<and> c \<le> 13 \<or> c \<in> {32, 133, 160, 5760} \<or> 8192 \<le> c \<and> c \<le> 8202 \<or>
     c \<in> {8232, 8233, 8239, 8287, 12288}"

definition blank_text :: "utext \<Rightarrow> bool" where
  "blank_text t \<longleftrightarrow> list_all is_whitespace t"

text \<open>\<open>rfind(c)\<close>: the position of the last occurrence.\<close>

fun rfind :: "'a \<Rightarrow> 'a list \<Rightarrow> nat option" where
  "rfind c [] = None"
| "rfind c (x # xs) =
     (case rfind c xs of
        Some i \<Rightarrow> Some (Suc i)
      | None \<Rightarrow> if x = c then Some 0 else None)"

lemma rfind_None_iff [simp]: "rfind c xs = None \<longleftrightarrow> c \<notin> set xs"
  by (induction xs) (auto split: option.splits if_splits)

lemma rfind_SomeD:
  "rfind c xs = Some i \<Longrightarrow> i < length xs \<and> xs ! i = c \<and> c \<notin> set (drop (Suc i) xs)"
  by (induction xs arbitrary: i) (auto split: option.splits if_splits)

lemma rfind_append_last: "c \<notin> set ys \<Longrightarrow> rfind c (xs @ [c] @ ys) = Some (length xs)"
  by (induction xs) (auto simp del: rfind_None_iff simp: rfind_None_iff [THEN iffD2])

section \<open>The chunker\<close>

definition split_point :: "utext \<Rightarrow> nat \<Rightarrow> nat" where
  "split_point rest limit =
     (let hard_boundary = (if limit < length rest then limit else length rest) in
      case rfind newline (take hard_boundary rest) of
        None \<Rightarrow> hard_boundary
      | Some 0 \<Rightarrow> hard_boundary
      | Some i \<Rightarrow> i + 1)"

partial_function (option) chunk_loop :: "nat \<Rightarrow> utext list \<Rightarrow> utext \<Rightarrow> utext list option" where
  "chunk_loop limit chunks rest =
     (if rest = [] then Some chunks
      else if length rest \<le> limit then Some (chunks @ [rest])
      else chunk_loop limit (chunks @ [take (split_point rest limit) rest])
             (drop (split_point rest limit) rest))"

declare chunk_loop.simps [code]

definition chunk_text :: "utext \<Rightarrow> nat \<Rightarrow> utext list option" where
  "chunk_text text limit = chunk_loop limit [] text"

lemma chunk_loop_Nil [simp]: "chunk_loop limit chunks [] = Some chunks"
  by (subst chunk_loop.simps) simp

lemma chunk_loop_last [simp]:
  "rest \<noteq> [] \<Longrightarrow> length rest \<le> limit \<Longrightarrow> chunk_loop limit chunks rest = Some (chunks @ [rest])"
  by (subst chunk_loop.simps) simp

lemma chunk_loop_cut:
  "limit < length rest \<Longrightarrow>
   chunk_loop limit chunks rest =
     chunk_loop limit (chunks @ [take (split_point rest limit) rest]) (drop (split_point rest limit) rest)"
  by (subst chunk_loop.simps) (auto simp: split_point_def)

lemma split_point_bounds:
  assumes "limit < length rest"
  shows "split_point rest limit \<le> limit" and "0 < limit \<Longrightarrow> 0 < split_point rest limit"
  using assms
  by (auto simp: split_point_def Let_def split: option.splits nat.splits dest!: rfind_SomeD)

text \<open>
  Where the cut falls: after the last newline of the first \<open>limit\<close> characters, or, when those have
  none but perhaps the very first, hard at \<open>limit\<close>.
\<close>

definition good_cut :: "nat \<Rightarrow> utext \<Rightarrow> utext \<Rightarrow> bool" where
  "good_cut limit c rest \<longleftrightarrow>
     (last c = newline \<and> newline \<notin> set (take (limit - length c) rest)) \<or>
     (length c = limit \<and> newline \<notin> set (tl c))"

lemma split_point_good_cut:
  assumes "limit < length rest" and "0 < limit"
  shows "good_cut limit (take (split_point rest limit) rest) (drop (split_point rest limit) rest)"
proof -
  define w where "w = take limit rest"
  have len: "length w = limit" using assms by (simp add: w_def)
  show ?thesis
  proof (cases "rfind newline w")
    case None
    then have "newline \<notin> set w" by simp
    then have "newline \<notin> set (tl w)" by (cases w) auto
    moreover have "split_point rest limit = limit"
      using None assms by (simp add: split_point_def w_def del: rfind_None_iff)
    ultimately show ?thesis using assms by (simp add: good_cut_def w_def)
  next
    case (Some i)
    note d = rfind_SomeD [OF Some]
    show ?thesis
    proof (cases i)
      case 0
      with d have "newline \<notin> set (tl w)" by (simp add: drop_Suc)
      moreover have "split_point rest limit = limit"
        using Some 0 assms by (simp add: split_point_def w_def)
      ultimately show ?thesis using assms by (simp add: good_cut_def w_def)
    next
      case (Suc j)
      then have sp: "split_point rest limit = Suc i"
        using Some assms by (simp add: split_point_def w_def)
      have lt: "i < limit" using d len by simp
      have "last (take (Suc i) rest) = rest ! i"
        using lt assms by (simp add: take_Suc_conv_app_nth)
      also have "\<dots> = newline" using d lt by (simp add: w_def)
      finally have l: "last (take (Suc i) rest) = newline" .
      have "take (limit - Suc i) (drop (Suc i) rest) = drop (Suc i) w"
        by (simp add: w_def drop_take)
      with l sp d lt assms show ?thesis by (simp add: good_cut_def)
    qed
  qed
qed

text \<open>The chunks of a text, characterised without the loop: every piece but the last is followed by
  a good cut and the rest does not fit.\<close>

fun chunked :: "nat \<Rightarrow> utext list \<Rightarrow> bool" where
  "chunked limit [] \<longleftrightarrow> True"
| "chunked limit [c] \<longleftrightarrow> c \<noteq> [] \<and> length c \<le> limit"
| "chunked limit (c # d # cs) \<longleftrightarrow>
     c \<noteq> [] \<and> length c \<le> limit \<and> limit < length (concat (c # d # cs)) \<and>
     good_cut limit c (concat (d # cs)) \<and> chunked limit (d # cs)"

lemma chunked_nonempty: "chunked limit cs \<Longrightarrow> \<forall>c\<in>set cs. c \<noteq> [] \<and> length c \<le> limit"
  by (induction limit cs rule: chunked.induct) auto

lemma chunk_loop_spec:
  assumes "0 < limit"
  shows "\<exists>cs. chunk_loop limit acc rest = Some (acc @ cs) \<and> concat cs = rest \<and> chunked limit cs"
proof (induction rest arbitrary: acc rule: length_induct)
  case (1 rest)
  consider "rest = []" | "rest \<noteq> []" "length rest \<le> limit" | "limit < length rest" by linarith
  then show ?case
  proof cases
    case 1
    then show ?thesis by (intro exI [of _ "[]"]) simp
  next
    case 2
    then show ?thesis by (intro exI [of _ "[rest]"]) simp
  next
    case 3
    define p where "p = split_point rest limit"
    have p: "0 < p" "p \<le> limit" using split_point_bounds [OF 3] assms by (auto simp: p_def)
    then have "length (drop p rest) < length rest" using 3 by simp
    with 1 obtain cs where cs:
      "chunk_loop limit (acc @ [take p rest]) (drop p rest) = Some ((acc @ [take p rest]) @ cs)"
      "concat cs = drop p rest" "chunked limit cs"
      by blast
    then obtain d ds where ds: "cs = d # ds" using p 3 by (cases cs) auto
    have "good_cut limit (take p rest) (concat cs)"
      using split_point_good_cut [OF 3 assms] cs(2) by (simp add: p_def)
    moreover have "concat (take p rest # cs) = rest" by (simp add: cs(2))
    moreover have "take p rest \<noteq> []" "length (take p rest) \<le> limit" using p 3 by auto
    ultimately have "chunked limit (take p rest # cs)" using cs(3) ds 3 by simp
    then show ?thesis
      using cs chunk_loop_cut [OF 3, of acc]
      by (intro exI [of _ "take p rest # cs"]) (simp add: p_def)
  qed
qed

text \<open>With a limit of zero the loop pushes empty pieces forever.\<close>

lemma chunk_loop_SomeD: "chunk_loop limit chunks rest = Some cs \<Longrightarrow> 0 < limit \<or> rest = []"
proof (erule chunk_loop.raw_induct [where P = "\<lambda>l c r _. 0 < l \<or> r = []", rotated])
  fix f limit chunks rest y
  assume ih: "\<And>limit chunks rest y. f limit chunks rest = Some y \<Longrightarrow> 0 < limit \<or> rest = []"
    and run: "(if rest = [] then Some chunks else if length rest \<le> limit then Some (chunks @ [rest])
      else f limit (chunks @ [take (split_point rest limit) rest]) (drop (split_point rest limit) rest)) = Some y"
  have "split_point rest 0 = 0" by (simp add: split_point_def Let_def)
  with run ih show "0 < limit \<or> rest = []" by (cases "limit = 0") (auto split: if_splits)
qed

section \<open>Discord: \<open>relay_reply\<close>\<close>

definition discord_chunk_threshold_chars :: nat where
  "discord_chunk_threshold_chars = 1900"

definition discord_hard_max_message_chars :: nat where
  "discord_hard_max_message_chars = 2000"

definition chunk_for_discord :: "utext \<Rightarrow> utext list option" where
  "chunk_for_discord text = chunk_text text discord_chunk_threshold_chars"

record discord_payload =
  dp_content :: utext
  dp_allowed_mentions :: "string list"

definition allowed_mentions_payload :: "string list" where
  "allowed_mentions_payload = [''users'']"

definition build_message_payload :: "utext \<Rightarrow> discord_payload" where
  "build_message_payload content =
     \<lparr> dp_content = content, dp_allowed_mentions = allowed_mentions_payload \<rparr>"

text \<open>
  The sending loop: \<open>accepts h p\<close> is the answer of \<open>seam.send\<close> after the sends \<open>h\<close>. The result
  lists every message handed to the API with its answer.
\<close>

fun discord_send :: "(discord_payload list \<Rightarrow> discord_payload \<Rightarrow> bool) \<Rightarrow> (discord_payload \<times> bool) list \<Rightarrow>
    utext list \<Rightarrow> (discord_payload \<times> bool) list" where
  "discord_send accepts sent [] = sent"
| "discord_send accepts sent (c # cs) =
     (if blank_text c then discord_send accepts sent cs
      else let p = build_message_payload c; a = accepts (map fst sent) p in
        if a then discord_send accepts (sent @ [(p, True)]) cs
        else sent @ [(p, False)])"

definition discord_relay_reply :: "string option \<Rightarrow> (string \<Rightarrow> discord_payload list \<Rightarrow> discord_payload \<Rightarrow> bool) \<Rightarrow>
    utext \<Rightarrow> (discord_payload \<times> bool) list option" where
  "discord_relay_reply resolved_token accepts text =
     (case resolved_token of
        None \<Rightarrow> Some []
      | Some token \<Rightarrow> map_option (discord_send (accepts token) []) (chunk_for_discord text))"

section \<open>Telegram: \<open>relay_reply\<close>\<close>

definition telegram_max_message_chars :: nat where
  "telegram_max_message_chars = 4096"

definition chunk_for_telegram :: "utext \<Rightarrow> utext list option" where
  "chunk_for_telegram text = chunk_text text telegram_max_message_chars"

text \<open>A message of \<open>sendMessage\<close>: with \<open>parse_mode: HTML\<close>, or plain.\<close>

datatype telegram_message = Html_Message utext | Plain_Message utext

text \<open>
  \<open>html\<close> is \<open>markdown_to_telegram_html\<close>. A chunk whose HTML is refused is sent once more as plain
  text; when that fails too the loop stops.
\<close>

fun telegram_send :: "(utext \<Rightarrow> utext) \<Rightarrow> (telegram_message list \<Rightarrow> telegram_message \<Rightarrow> bool) \<Rightarrow>
    (telegram_message \<times> bool) list \<Rightarrow> utext list \<Rightarrow> (telegram_message \<times> bool) list" where
  "telegram_send html accepts sent [] = sent"
| "telegram_send html accepts sent (c # cs) =
     (let h = Html_Message (html c) in
      if accepts (map fst sent) h then telegram_send html accepts (sent @ [(h, True)]) cs
      else let sent' = sent @ [(h, False)]; p = Plain_Message c in
        if accepts (map fst sent') p then telegram_send html accepts (sent' @ [(p, True)]) cs
        else sent' @ [(p, False)])"

text \<open>The token: the store may not open, the read may fail, there may be none.\<close>

definition telegram_relay_reply :: "('e + ('e + string option)) \<Rightarrow> (utext \<Rightarrow> utext) \<Rightarrow>
    (string \<Rightarrow> telegram_message list \<Rightarrow> telegram_message \<Rightarrow> bool) \<Rightarrow> utext \<Rightarrow>
    (telegram_message \<times> bool) list option" where
  "telegram_relay_reply token_store html accepts text =
     (case token_store of
        Inr (Inr (Some token)) \<Rightarrow> map_option (telegram_send html (accepts token) []) (chunk_for_telegram text)
      | Inr (Inr None) \<Rightarrow> Some []
      | Inr (Inl _) \<Rightarrow> Some []
      | Inl _ \<Rightarrow> Some [])"

text \<open>What reached the chat.\<close>

definition delivered :: "('m \<times> bool) list \<Rightarrow> 'm list" where
  "delivered sent = map fst (filter snd sent)"

lemma delivered_simps [simp]:
  "delivered [] = []"
  "delivered (xs @ ys) = delivered xs @ delivered ys"
  "delivered [(m, b)] = (if b then [m] else [])"
  by (auto simp: delivered_def)

section \<open>What the senders deliver\<close>

lemma discord_send_acc:
  "\<exists>new. discord_send accepts sent cs = sent @ new \<and>
     map fst new = take (length new) (map build_message_payload (filter (\<lambda>c. \<not> blank_text c) cs)) \<and>
     list_all snd (butlast new) \<and>
     (list_all snd new \<longrightarrow> length new = length (filter (\<lambda>c. \<not> blank_text c) cs))"
proof (induction accepts sent cs rule: discord_send.induct)
  case (1 accepts sent)
  then show ?case by simp
next
  case (2 accepts sent c cs)
  define p where "p = build_message_payload c"
  consider "blank_text c" | "\<not> blank_text c" "accepts (map fst sent) p" | "\<not> blank_text c" "\<not> accepts (map fst sent) p"
    by blast
  then show ?case
  proof cases
    case 1
    with 2(1) show ?thesis by simp
  next
    case 2
    with \<open>\<lbrakk>\<not> blank_text c; _ = _; _ = _; _\<rbrakk> \<Longrightarrow> _\<close> obtain new where
      "discord_send accepts (sent @ [(p, True)]) cs = (sent @ [(p, True)]) @ new"
      "map fst new = take (length new) (map build_message_payload (filter (\<lambda>c. \<not> blank_text c) cs))"
      "list_all snd (butlast new)"
      "list_all snd new \<longrightarrow> length new = length (filter (\<lambda>c. \<not> blank_text c) cs)"
      by (auto simp: p_def)
    with 2 show ?thesis
      by (intro exI [of _ "(p, True) # new"]) (simp add: p_def Let_def)
  next
    case 3
    then show ?thesis
      by (intro exI [of _ "[(p, False)]"]) (simp add: p_def Let_def)
  qed
qed

lemma blank_filter: "blank_text c \<longleftrightarrow> filter (\<lambda>x. \<not> is_whitespace x) c = []"
  by (auto simp: blank_text_def list_all_iff filter_empty_conv)

lemma visible_concat:
  "filter (\<lambda>x. \<not> is_whitespace x) (concat (filter (\<lambda>c. \<not> blank_text c) cs)) =
   filter (\<lambda>x. \<not> is_whitespace x) (concat cs)"
  by (induction cs) (auto simp: blank_filter)

lemma dp_content_build [simp]: "dp_content (build_message_payload c) = c"
  and dp_mentions_build [simp]: "dp_allowed_mentions (build_message_payload c) = [''users'']"
  by (simp_all add: build_message_payload_def allowed_mentions_payload_def)
end
