(* ===== verification/File_Text.thy ===== *)
theory File_Text
  imports Message_Chunks "HOL-Library.Sublist"
begin

text \<open>
  Rust's text operations that the file tools use. A file is a list of bytes, a \<open>String\<close> the list of its
  Unicode scalar values: a substring search on UTF-8 bytes finds what a search on scalar values finds.
  \<open>as_bytes\<close> is \<open>utf8_encode\<close>, \<open>String::from_utf8_lossy\<close> is \<open>utf8_lossy\<close>, \<open>String::from_utf16_lossy\<close> is
  \<open>utf16_lossy\<close>.
\<close>

section \<open>UTF-8\<close>

definition scalar :: "nat \<Rightarrow> bool" where
  "scalar c \<longleftrightarrow> c < 0xD800 \<or> 0xE000 \<le> c \<and> c < 0x110000"

definition scalars :: "utext \<Rightarrow> bool" where
  "scalars s \<longleftrightarrow> list_all scalar s"

definition bytes :: "nat list \<Rightarrow> bool" where
  "bytes bs \<longleftrightarrow> list_all (\<lambda>b. b < 256) bs"

definition replacement_char :: nat where
  "replacement_char = 0xFFFD"

definition encode_scalar :: "nat \<Rightarrow> nat list" where
  "encode_scalar c =
     (if c < 0x80 then [c]
      else if c < 0x800 then [0xC0 + c div 64, 0x80 + c mod 64]
      else if c < 0x10000 then [0xE0 + c div 4096, 0x80 + c div 64 mod 64, 0x80 + c mod 64]
      else [0xF0 + c div 262144, 0x80 + c div 4096 mod 64, 0x80 + c div 64 mod 64, 0x80 + c mod 64])"

definition utf8_encode :: "utext \<Rightarrow> nat list" where
  "utf8_encode s = concat (map encode_scalar s)"

definition cont :: "nat \<Rightarrow> bool" where
  "cont b \<longleftrightarrow> 0x80 \<le> b \<and> b < 0xC0"

text \<open>Which second byte may follow a lead byte of a sequence of three or four.\<close>

definition second3 :: "nat \<Rightarrow> nat \<Rightarrow> bool" where
  "second3 a b \<longleftrightarrow>
     a = 0xE0 \<and> 0xA0 \<le> b \<and> b < 0xC0 \<or> a = 0xED \<and> 0x80 \<le> b \<and> b < 0xA0 \<or> a \<noteq> 0xE0 \<and> a \<noteq> 0xED \<and> cont b"

definition second4 :: "nat \<Rightarrow> nat \<Rightarrow> bool" where
  "second4 a b \<longleftrightarrow>
     a = 0xF0 \<and> 0x90 \<le> b \<and> b < 0xC0 \<or> a = 0xF4 \<and> 0x80 \<le> b \<and> b < 0x90 \<or> a \<noteq> 0xF0 \<and> a \<noteq> 0xF4 \<and> cont b"

text \<open>One step of the decoder: a scalar value, or the replacement of a maximal invalid piece.\<close>

fun decode_step :: "nat \<Rightarrow> nat list \<Rightarrow> nat \<times> nat list" where
  "decode_step a rest =
     (if a < 0x80 then (a, rest)
      else if 0xC2 \<le> a \<and> a < 0xE0 then
        (case rest of
           b # r1 \<Rightarrow> if cont b then ((a - 0xC0) * 64 + (b - 0x80), r1) else (replacement_char, rest)
         | [] \<Rightarrow> (replacement_char, rest))
      else if 0xE0 \<le> a \<and> a < 0xF0 then
        (case rest of
           b # r1 \<Rightarrow>
             if second3 a b
             then (case r1 of
                 c # r2 \<Rightarrow> if cont c then ((a - 0xE0) * 4096 + (b - 0x80) * 64 + (c - 0x80), r2) else (replacement_char, r1)
               | [] \<Rightarrow> (replacement_char, r1))
             else (replacement_char, rest)
         | [] \<Rightarrow> (replacement_char, rest))
      else if 0xF0 \<le> a \<and> a < 0xF5 then
        (case rest of
           b # r1 \<Rightarrow>
             if second4 a b
             then (case r1 of
                 c # r2 \<Rightarrow>
                   if cont c
                   then (case r2 of
                       d # r3 \<Rightarrow>
                         if cont d
                         then ((a - 0xF0) * 262144 + (b - 0x80) * 4096 + (c - 0x80) * 64 + (d - 0x80), r3)
                         else (replacement_char, r2)
                     | [] \<Rightarrow> (replacement_char, r2))
                   else (replacement_char, r1)
               | [] \<Rightarrow> (replacement_char, r1))
             else (replacement_char, rest)
         | [] \<Rightarrow> (replacement_char, rest))
      else (replacement_char, rest))"

declare decode_step.simps [simp del]

lemma decode_step_shorter: "length (snd (decode_step a rest)) \<le> length rest"
  by (auto simp: decode_step.simps split: list.splits)

function utf8_lossy :: "nat list \<Rightarrow> utext" where
  "utf8_lossy [] = []"
| "utf8_lossy (a # rest) = (case decode_step a rest of (c, r) \<Rightarrow> c # utf8_lossy r)"
  by pat_completeness auto
termination
proof (relation "measure length", simp)
  fix a :: nat and rest c r
  assume "(c, r) = decode_step a rest"
  then have "length r \<le> length rest" using decode_step_shorter [of a rest] by (metis snd_conv)
  then show "(r, a # rest) \<in> measure length" by simp
qed

lemma split_three: "(c::nat) = c div 4096 * 4096 + c div 64 mod 64 * 64 + c mod 64"
proof -
  have "c div 64 = c div 4096 * 64 + c div 64 mod 64"
    using div_mult_mod_eq [of "c div 64" 64] by (simp add: div_mult2_eq [of c 64 64, simplified])
  then show ?thesis using div_mult_mod_eq [of c 64] by linarith
qed

lemma split_four: "(c::nat) = c div 262144 * 262144 + c div 4096 mod 64 * 4096 + c div 64 mod 64 * 64 + c mod 64"
proof -
  have "c div 4096 = c div 262144 * 64 + c div 4096 mod 64"
    using div_mult_mod_eq [of "c div 4096" 64] by (simp add: div_mult2_eq [of c 4096 64, simplified])
  then show ?thesis using split_three [of c] by linarith
qed

lemma decode_encode: "scalar c \<Longrightarrow> \<exists>a bs. encode_scalar c = a # bs \<and> decode_step a (bs @ rest) = (c, rest)"
proof -
  assume s: "scalar c"
  consider (one) "c < 0x80" | (two) "0x80 \<le> c" "c < 0x800" | (three) "0x800 \<le> c" "c < 0x10000" | (four) "0x10000 \<le> c"
    by linarith
  then show ?thesis
  proof cases
    case one
    then show ?thesis by (simp add: encode_scalar_def decode_step.simps)
  next
    case two
    then have "2 \<le> c div 64" "c div 64 < 32" by auto
    with two show ?thesis by (simp add: encode_scalar_def decode_step.simps cont_def)
  next
    case three
    define p q r where "p = c div 4096" and "q = c div 64 mod 64" and "r = c mod 64"
    have c: "c = p * 4096 + q * 64 + r"
      unfolding p_def q_def r_def by (rule split_three)
    have b: "p < 16" "q < 64" "r < 64" using three by (auto simp: p_def q_def r_def)
    have "second3 (0xE0 + p) (0x80 + q)"
      using three s b unfolding scalar_def c second3_def cont_def by auto
    with three b show ?thesis
      by (simp add: encode_scalar_def decode_step.simps cont_def flip: p_def q_def r_def) (simp add: c)
  next
    case four
    define p q r t where "p = c div 262144" and "q = c div 4096 mod 64" and "r = c div 64 mod 64" and "t = c mod 64"
    have c: "c = p * 262144 + q * 4096 + r * 64 + t"
      unfolding p_def q_def r_def t_def by (rule split_four)
    have b: "q < 64" "r < 64" "t < 64" "p \<le> 4" using four s by (auto simp: p_def q_def r_def t_def scalar_def)
    have "second4 (0xF0 + p) (0x80 + q)"
      using four s b unfolding scalar_def c second4_def cont_def by auto
    with four b show ?thesis
      by (simp add: encode_scalar_def decode_step.simps cont_def flip: p_def q_def r_def t_def) (simp add: c)
  qed
qed

lemma utf8_lossy_encode: "scalars s \<Longrightarrow> utf8_lossy (utf8_encode s) = s"
proof (induction s)
  case Nil
  then show ?case by (simp add: utf8_encode_def)
next
  case (Cons c s)
  then have c: "scalar c" and IH: "utf8_lossy (utf8_encode s) = s" by (simp_all add: scalars_def)
  from decode_encode [OF c] obtain a bs where "encode_scalar c = a # bs" "decode_step a (bs @ utf8_encode s) = (c, utf8_encode s)"
    by blast
  with IH show ?case by (simp add: utf8_encode_def)
qed

lemma scalar_replacement [simp]: "scalar replacement_char"
  by (simp add: scalar_def replacement_char_def)

lemma scalar_two: "0xC2 \<le> a \<Longrightarrow> a < 0xE0 \<Longrightarrow> cont b \<Longrightarrow> scalar ((a - 0xC0) * 64 + (b - 0x80))"
  unfolding scalar_def cont_def by linarith

lemma scalar_three:
  assumes "0xE0 \<le> a" "a < 0xF0" "second3 a b" "cont c"
  shows "scalar ((a - 0xE0) * 4096 + (b - 0x80) * 64 + (c - 0x80))"
proof -
  obtain p where p: "a = 0xE0 + p" using assms(1) by (auto simp: le_iff_add)
  from assms(3) have "0x80 \<le> b" "b < 0xC0" by (auto simp: second3_def cont_def)
  then obtain q where q: "b = 0x80 + q" "q < 64" by (auto simp: le_iff_add)
  obtain r where r: "c = 0x80 + r" "r < 64" using assms(4) by (auto simp: cont_def le_iff_add)
  have "p \<le> 12 \<or> p = 13 \<and> q < 32 \<or> 14 \<le> p \<and> p < 16"
    using assms(2,3) p q(1) by (auto simp: second3_def)
  then have "scalar (p * 4096 + q * 64 + r)" using q(2) r(2) unfolding scalar_def by auto
  then show ?thesis by (simp add: p q r)
qed

lemma scalar_four:
  assumes "0xF0 \<le> a" "a < 0xF5" "second4 a b" "cont c" "cont d"
  shows "scalar ((a - 0xF0) * 262144 + (b - 0x80) * 4096 + (c - 0x80) * 64 + (d - 0x80))"
proof -
  obtain p where p: "a = 0xF0 + p" using assms(1) by (auto simp: le_iff_add)
  from assms(3) have "0x80 \<le> b" "b < 0xC0" by (auto simp: second4_def cont_def)
  then obtain q where q: "b = 0x80 + q" "q < 64" by (auto simp: le_iff_add)
  obtain r where r: "c = 0x80 + r" "r < 64" using assms(4) by (auto simp: cont_def le_iff_add)
  obtain t where t: "d = 0x80 + t" "t < 64" using assms(5) by (auto simp: cont_def le_iff_add)
  have "p = 0 \<and> 16 \<le> q \<or> 1 \<le> p \<and> p \<le> 3 \<or> p = 4 \<and> q < 16"
    using assms(2,3) p q(1) by (auto simp: second4_def)
  then have "scalar (p * 262144 + q * 4096 + r * 64 + t)" using q(2) r(2) t(2) unfolding scalar_def by auto
  then show ?thesis by (simp add: p q r t)
qed

lemma decode_step_scalar: "scalar (fst (decode_step a rest))"
proof -
  have "a < 0x80 \<Longrightarrow> scalar a" by (simp add: scalar_def)
  then show ?thesis
    unfolding decode_step.simps [of a rest]
    by (simp split: list.split add: scalar_two scalar_three scalar_four)
qed

lemma utf8_lossy_scalars: "scalars (utf8_lossy bs)"
proof (induction bs rule: utf8_lossy.induct)
  case 1
  then show ?case by (simp add: scalars_def)
next
  case (2 a rest)
  then show ?case using decode_step_scalar [of a rest]
    by (auto simp: scalars_def split: prod.splits)
qed

lemma encode_bytes: "scalars s \<Longrightarrow> bytes (utf8_encode s)"
  by (induction s) (auto simp: scalars_def bytes_def utf8_encode_def encode_scalar_def scalar_def)

section \<open>UTF-16\<close>

text \<open>\<open>chunks_exact(2)\<close> read as little-endian; an odd byte at the end is dropped.\<close>

fun le_units :: "nat list \<Rightarrow> nat list" where
  "le_units (a # b # bs) = (a + 256 * b) # le_units bs"
| "le_units _ = []"

fun utf16_lossy :: "nat list \<Rightarrow> utext" where
  "utf16_lossy [] = []"
| "utf16_lossy [u] = [if 0xD800 \<le> u \<and> u < 0xE000 then replacement_char else u]"
| "utf16_lossy (u # v # us) =
     (if u < 0xD800 \<or> 0xE000 \<le> u then u # utf16_lossy (v # us)
      else if u < 0xDC00 \<and> 0xDC00 \<le> v \<and> v < 0xE000
        then (0x10000 + (u - 0xD800) * 1024 + (v - 0xDC00)) # utf16_lossy us
      else replacement_char # utf16_lossy (v # us))"

lemma le_units_bound: "bytes bs \<Longrightarrow> list_all (\<lambda>u. u < 0x10000) (le_units bs)"
  by (induction bs rule: le_units.induct) (auto simp: bytes_def)

lemma utf16_scalars: "list_all (\<lambda>u. u < 0x10000) us \<Longrightarrow> scalars (utf16_lossy us)"
  by (induction us rule: utf16_lossy.induct) (auto simp: scalars_def scalar_def replacement_char_def)

section \<open>Searching\<close>

text \<open>\<open>s.find(p)\<close>.\<close>

fun find_sub :: "'a list \<Rightarrow> 'a list \<Rightarrow> nat option" where
  "find_sub p s =
     (if prefix p s then Some 0
      else case s of [] \<Rightarrow> None | _ # s' \<Rightarrow> map_option Suc (find_sub p s'))"

declare find_sub.simps [simp del]

text \<open>\<open>s.splitn(2, p)\<close>, when it has two parts.\<close>

definition split_first :: "'a list \<Rightarrow> 'a list \<Rightarrow> ('a list \<times> 'a list) option" where
  "split_first p s = map_option (\<lambda>i. (take i s, drop (i + length p) s)) (find_sub p s)"

text \<open>\<open>s.matches(p).count()\<close> and \<open>s.replace(p, r)\<close> for a non-empty \<open>p\<close>.\<close>

function count_matches :: "'a list \<Rightarrow> 'a list \<Rightarrow> nat" where
  "count_matches p s =
     (if p = [] \<or> s = [] then 0
      else if prefix p s then Suc (count_matches p (drop (length p) s))
      else count_matches p (tl s))"
  by pat_completeness auto
termination by (relation "measure (length \<circ> snd)") auto

function replace_matches :: "'a list \<Rightarrow> 'a list \<Rightarrow> 'a list \<Rightarrow> 'a list" where
  "replace_matches p r s =
     (if p = [] \<or> s = [] then s
      else if prefix p s then r @ replace_matches p r (drop (length p) s)
      else hd s # replace_matches p r (tl s))"
  by pat_completeness auto
termination by (relation "measure (\<lambda>(p, r, s). length s)") auto

declare count_matches.simps [simp del] replace_matches.simps [simp del]

lemma find_sub_Some:
  "find_sub p s = Some i \<longleftrightarrow>
     i \<le> length s \<and> prefix p (drop i s) \<and> (\<forall>j<i. \<not> prefix p (drop j s))"
proof (induction s arbitrary: i)
  case Nil
  then show ?case by (auto simp: find_sub.simps [of p])
next
  case (Cons x s)
  show ?case
  proof (cases "prefix p (x # s)")
    case True
    then show ?thesis by (auto simp: find_sub.simps [of p "x # s"])
  next
    case False
    then have "find_sub p (x # s) = map_option Suc (find_sub p s)" by (simp add: find_sub.simps [of p "x # s"])
    with False Cons.IH show ?thesis
      by (cases i) (auto simp: All_less_Suc2)
  qed
qed

lemma find_sub_None: "find_sub p s = None \<longleftrightarrow> \<not> sublist p s"
proof (induction s)
  case Nil
  then show ?case by (auto simp: find_sub.simps [of p])
next
  case (Cons x s)
  then show ?case by (auto simp: find_sub.simps [of p "x # s"] sublist_Cons_right)
qed

lemma split_first_Some: "split_first p s = Some (a, b) \<Longrightarrow> s = a @ p @ b"
proof -
  assume "split_first p s = Some (a, b)"
  then obtain i where i: "find_sub p s = Some i" "a = take i s" "b = drop (i + length p) s"
    by (auto simp: split_first_def)
  then have "prefix p (drop i s)" by (simp add: find_sub_Some)
  then obtain r where r: "drop i s = p @ r" by (auto simp: prefix_def)
  then have "b = r" using i by (metis add.commute append_eq_conv_conj drop_drop)
  with r i show ?thesis by (metis append_take_drop_id)
qed

lemma count_matches_pos: "p \<noteq> [] \<Longrightarrow> 0 < count_matches p s \<longleftrightarrow> sublist p s"
proof (induction p s rule: count_matches.induct)
  case (1 p s)
  show ?case
  proof (cases "prefix p s")
    case True
    then have "s \<noteq> []" using 1 by auto
    with True 1 show ?thesis by (auto simp: count_matches.simps [of p s])
  next
    case False
    show ?thesis
    proof (cases s)
      case Nil
      with 1 show ?thesis by (simp add: count_matches.simps [of p "[]"])
    next
      case (Cons x t)
      with False 1 show ?thesis by (simp add: count_matches.simps [of p "x # t"] sublist_Cons_right)
    qed
  qed
qed

lemma replace_none: "\<not> sublist p s \<Longrightarrow> replace_matches p r s = s"
proof (induction p r s rule: replace_matches.induct)
  case (1 p r s)
  show ?case
  proof (cases s)
    case Nil
    then show ?thesis by (simp add: replace_matches.simps [of p r "[]"])
  next
    case (Cons x t)
    with 1 show ?thesis by (auto simp: replace_matches.simps [of p r "x # t"] sublist_Cons_right)
  qed
qed

end
