(* ===== verification/File_Edit.thy ===== *)
theory File_Edit
  imports File_Text
begin

text \<open>
  The text of one edit (\<open>ao-engine-tools-io/src/edit/mod.rs\<close>, \<open>quote.rs\<close>, \<open>sanitize.rs\<close>): finding the string
  to replace, its replacement, the guard against several matches, and line endings.
\<close>

definition contains_text :: "'a list \<Rightarrow> 'a list \<Rightarrow> bool" where
  "contains_text p s \<longleftrightarrow> find_sub p s \<noteq> None"

section \<open>\<open>quote.rs\<close>\<close>

definition normalize_quote :: "nat \<Rightarrow> nat" where
  "normalize_quote ch =
     (if ch \<in> {0x2018, 0x2019} then 0x27 else if ch \<in> {0x201C, 0x201D} then 0x22 else ch)"

definition normalize_quotes :: "utext \<Rightarrow> utext" where
  "normalize_quotes s = map normalize_quote s"

definition find_actual_string :: "utext \<Rightarrow> utext \<Rightarrow> utext option" where
  "find_actual_string haystack needle =
     (if contains_text needle haystack then Some needle
      else case find_sub (normalize_quotes needle) (normalize_quotes haystack) of
          None \<Rightarrow> None
        | Some char_offset \<Rightarrow>
            (let actual = take (length needle) (drop char_offset haystack) in
             if length actual = length needle then Some actual else None))"

definition quote_map :: "utext \<Rightarrow> utext \<Rightarrow> nat \<rightharpoonup> nat" where
  "quote_map original_old actual_old =
     fold (\<lambda>(orig_ch, actual_ch) m. if orig_ch \<noteq> actual_ch then m(orig_ch \<mapsto> actual_ch) else m)
       (zip original_old actual_old) Map.empty"

definition preserve_quote_style :: "utext \<Rightarrow> utext \<Rightarrow> utext \<Rightarrow> utext" where
  "preserve_quote_style original_old actual_old new_str =
     (if original_old = actual_old then new_str
      else map (\<lambda>ch. case quote_map original_old actual_old ch of Some c \<Rightarrow> c | None \<Rightarrow> ch) new_str)"

section \<open>\<open>sanitize.rs\<close>\<close>

definition expansions :: "(utext \<times> utext) list" where
  "expansions =
     map (\<lambda>(a, b). (text_of a, text_of b))
       [(''<fnr>'', ''<function_results>''), (''<n>'', ''<name>''), (''</n>'', ''</name>''), (''<o>'', ''<output>''),
        (''</o>'', ''</output>''), (''<e>'', ''<error>''), (''</e>'', ''</error>''), (''<s>'', ''<system>''),
        (''</s>'', ''</system>''), (''<r>'', ''<result>''), (''</r>'', ''</result>''),
        (''< META_START >'', ''<META_START>''), (''< META_END >'', ''<META_END>''), (''< EOT >'', ''<EOT>''),
        (''< META >'', ''<META>''), (''< SOS >'', ''<SOS>''),
        ([CHR 0x0A, CHR 0x0A] @ ''H:'', [CHR 0x0A, CHR 0x0A] @ ''Human:''),
        ([CHR 0x0A, CHR 0x0A] @ ''A:'', [CHR 0x0A, CHR 0x0A] @ ''Assistant:'')]"

definition expand_sanitized_tokens :: "utext \<Rightarrow> utext" where
  "expand_sanitized_tokens s =
     fold (\<lambda>(a, b) result. if contains_text a result then replace_matches a b result else result) expansions s"

section \<open>Lines\<close>

definition carriage_return :: nat where
  "carriage_return = 13"

text \<open>The pieces of a text after each newline, the newline kept; and \<open>str::lines\<close>.\<close>

fun split_inclusive :: "nat list \<Rightarrow> nat list list" where
  "split_inclusive [] = []"
| "split_inclusive (c # s) =
     (if c = newline then [c] # split_inclusive s
      else case split_inclusive s of [] \<Rightarrow> [[c]] | l # ls \<Rightarrow> (c # l) # ls)"

definition strip_line_end :: "nat list \<Rightarrow> nat list" where
  "strip_line_end l =
     (if suffix [carriage_return, newline] l then take (length l - 2) l
      else if suffix [newline] l then take (length l - 1) l
      else l)"

definition str_lines :: "utext \<Rightarrow> utext list" where
  "str_lines s = map strip_line_end (split_inclusive s)"

definition trim_end_text :: "utext \<Rightarrow> utext" where
  "trim_end_text s = rev (dropWhile is_whitespace (rev s))"

fun join_lines :: "utext list \<Rightarrow> utext" where
  "join_lines [] = []"
| "join_lines [l] = l"
| "join_lines (l # ls) = l @ newline # join_lines ls"

definition strip_trailing_whitespace :: "utext \<Rightarrow> utext" where
  "strip_trailing_whitespace s =
     (if s = [] then s
      else join_lines (map trim_end_text (str_lines s)) @ (if suffix [newline] s then [newline] else []))"

definition crlf_to_lf :: "utext \<Rightarrow> utext" where
  "crlf_to_lf s = replace_matches [carriage_return, newline] [newline] s"

definition lf_to_crlf :: "utext \<Rightarrow> utext" where
  "lf_to_crlf s = replace_matches [newline] [carriage_return, newline] s"

definition decode_content :: "nat list \<Rightarrow> utext" where
  "decode_content bs =
     (if prefix [0xFF, 0xFE] bs then utf16_lossy (le_units (drop 2 bs)) else utf8_lossy bs)"

section \<open>The edit\<close>

text \<open>\<open>actual\<close>, \<open>effective_old\<close> and \<open>effective_new\<close>.\<close>

definition find_target :: "utext \<Rightarrow> utext \<Rightarrow> utext \<Rightarrow> (utext \<times> utext \<times> utext) option" where
  "find_target content old_string new_string =
     (case find_actual_string content old_string of
        Some a \<Rightarrow> Some (a, old_string, new_string)
      | None \<Rightarrow>
          (let expanded_old = expand_sanitized_tokens old_string in
           if expanded_old \<noteq> old_string
           then map_option (\<lambda>a. (a, expanded_old, expand_sanitized_tokens new_string))
                  (find_actual_string content expanded_old)
           else None))"

text \<open>\<open>match_target\<close> and \<open>replacement\<close>.\<close>

definition plan_edit :: "bool \<Rightarrow> utext \<Rightarrow> utext \<Rightarrow> utext \<Rightarrow> (utext \<times> utext) option" where
  "plan_edit is_markdown content old_string new_string =
     map_option (\<lambda>(actual, effective_old, effective_new).
        let styled = preserve_quote_style effective_old actual effective_new;
            styled_new = (if is_markdown then styled else strip_trailing_whitespace styled) in
        if new_string = [] then
          (if contains_text (actual @ [newline]) content then (actual @ [newline], []) else (actual, []))
        else (actual, styled_new)) (find_target content old_string new_string)"

datatype edit_failure = String_Not_Found | Several_Matches nat | Unreachable

definition edit_text :: "bool \<Rightarrow> utext \<Rightarrow> utext \<Rightarrow> utext \<Rightarrow> bool \<Rightarrow> edit_failure + utext" where
  "edit_text is_markdown content old_string new_string replace_all =
     (case plan_edit is_markdown content old_string new_string of
        None \<Rightarrow> Inl String_Not_Found
      | Some (match_target, replacement) \<Rightarrow>
          (let count = count_matches match_target content in
           if 1 < count \<and> \<not> replace_all then Inl (Several_Matches count)
           else if replace_all then Inr (replace_matches match_target replacement content)
           else case split_first match_target content of
               Some (before, after) \<Rightarrow> Inr (before @ replacement @ after)
             | None \<Rightarrow> Inl Unreachable))"

section \<open>Finding the string\<close>

lemma contains_text_iff [simp]: "contains_text p s \<longleftrightarrow> sublist p s"
  using find_sub_None [of p s] by (auto simp: contains_text_def)

lemma find_actual_SomeD:
  assumes "find_actual_string h n = Some a"
  shows "sublist a h" "normalize_quotes a = normalize_quotes n" "length a = length n"
proof -
  have "sublist a h \<and> normalize_quotes a = normalize_quotes n \<and> length a = length n"
  proof (cases "sublist n h")
    case True
    with assms show ?thesis by (simp add: find_actual_string_def)
  next
    case False
    with assms obtain i where i: "find_sub (normalize_quotes n) (normalize_quotes h) = Some i"
      and a: "a = take (length n) (drop i h)" "length a = length n"
      by (auto simp: find_actual_string_def Let_def split: option.splits if_splits)
    then have p: "prefix (map normalize_quote n) (map normalize_quote (drop i h))"
      by (simp add: find_sub_Some normalize_quotes_def drop_map)
    then obtain z where "map normalize_quote (drop i h) = map normalize_quote n @ z" by (auto simp: prefix_def)
    then have "map normalize_quote a = map normalize_quote n"
      unfolding a(1) by (metis append_eq_conv_conj length_map take_map)
    moreover have "sublist a h"
    proof -
      have "h = take i h @ a @ drop (length n) (drop i h)"
        unfolding a(1) by (simp only: append_take_drop_id)
      then show ?thesis by (metis sublist_appendI)
    qed
    ultimately show ?thesis using a(2) by (simp add: normalize_quotes_def)
  qed
  then show "sublist a h" "normalize_quotes a = normalize_quotes n" "length a = length n" by auto
qed

lemma find_actual_None_iff:
  "find_actual_string h n = None \<longleftrightarrow> \<not> sublist (normalize_quotes n) (normalize_quotes h)"
proof
  assume n: "find_actual_string h n = None"
  show "\<not> sublist (normalize_quotes n) (normalize_quotes h)"
  proof
    assume "sublist (normalize_quotes n) (normalize_quotes h)"
    then obtain i where i: "find_sub (normalize_quotes n) (normalize_quotes h) = Some i"
      using find_sub_None [of "normalize_quotes n" "normalize_quotes h"] by (cases "find_sub (normalize_quotes n) (normalize_quotes h)") auto
    then have "prefix (normalize_quotes n) (drop i (normalize_quotes h))" by (simp add: find_sub_Some)
    then have "length n \<le> length (drop i h)"
      using prefix_length_le by (fastforce simp: normalize_quotes_def)
    with n i show False by (auto simp: find_actual_string_def Let_def split: if_splits)
  qed
next
  assume n: "\<not> sublist (normalize_quotes n) (normalize_quotes h)"
  show "find_actual_string h n = None"
  proof (cases "find_actual_string h n")
    case (Some a)
    from find_actual_SomeD [OF Some] obtain u v where "h = u @ a @ v" by (auto simp: sublist_def)
    then have "sublist (normalize_quotes a) (normalize_quotes h)" by (simp add: normalize_quotes_def sublist_appendI)
    with find_actual_SomeD(2) [OF Some] n show ?thesis by simp
  qed
qed

end
