(* ===== verification/Predicates.thy ===== *)
theory Predicates
  imports File_Edit Rust_Text "HOL-Library.Finite_Map"
begin

text \<open>
  JSON values with the two path languages (\<open>ao-protocol/src/predicate/mod.rs\<close>, \<open>webhook_filter.rs\<close>), the
  predicate language of watches with its printer (\<open>predicate/mod.rs\<close>) and the parser of the string grammar
  it replaced (\<open>watch_contract/legacy_expr.rs\<close>).

  A text is the list of its scalar values. Numbers are of an arbitrary type, floats of another; what
  \<open>serde_json\<close> and the Unicode tables say of them is \<open>json_ops\<close> and the parameter \<open>alnum\<close>, the scalars
  for which \<open>char::is_alphanumeric\<close> holds.
\<close>

section \<open>Values and paths\<close>

datatype 'n json =
    J_Null
  | J_Bool bool
  | J_Number 'n
  | J_String utext
  | J_Array "'n json list"
  | J_Object "(utext, 'n json) fmap"

datatype path_segment = Seg_Key utext | Seg_Index nat

definition dot :: nat where "dot = 0x2E"
definition left_bracket :: nat where "left_bracket = 0x5B"
definition right_bracket :: nat where "right_bracket = 0x5D"

text \<open>\<open>str::parse::<usize>\<close>: digits, with an optional plus sign, of a value of 64 bits.\<close>

definition is_digit :: "nat \<Rightarrow> bool" where
  "is_digit c \<longleftrightarrow> 0x30 \<le> c \<and> c \<le> 0x39"

definition digits_value :: "utext \<Rightarrow> nat" where
  "digits_value ds = foldl (\<lambda>n d. 10 * n + (d - 0x30)) 0 ds"

definition parse_usize :: "utext \<Rightarrow> nat option" where
  "parse_usize s =
     (let ds = (case s of c # cs \<Rightarrow> if c = 0x2B then cs else s | [] \<Rightarrow> s) in
      if ds \<noteq> [] \<and> list_all is_digit ds \<and> digits_value ds < 2 ^ 64 then Some (digits_value ds) else None)"

definition find_char :: "nat \<Rightarrow> utext \<Rightarrow> nat option" where
  "find_char c s = (let n = length (takeWhile (\<lambda>x. x \<noteq> c) s) in if n < length s then Some n else None)"

lemma find_char_bound: "find_char c s = Some n \<Longrightarrow> n < length s"
  by (simp add: find_char_def Let_def split: if_splits)

definition key_end :: "utext \<Rightarrow> nat" where
  "key_end rest = length (takeWhile (\<lambda>c. c \<noteq> dot \<and> c \<noteq> left_bracket) rest)"

function parse_path_segments :: "utext \<Rightarrow> path_segment list option" where
  "parse_path_segments [] = Some []"
| "parse_path_segments (c # stripped) =
     (if c = dot then
        (if stripped = [] \<or> hd stripped = dot then None else parse_path_segments stripped)
      else if c = left_bracket then
        (case find_char right_bracket stripped of
           None \<Rightarrow> None
         | Some e \<Rightarrow>
             (case parse_usize (take e stripped) of
                None \<Rightarrow> None
              | Some index \<Rightarrow> map_option ((#) (Seg_Index index)) (parse_path_segments (drop (Suc e) stripped))))
      else map_option ((#) (Seg_Key (take (key_end (c # stripped)) (c # stripped))))
             (parse_path_segments (drop (key_end (c # stripped)) (c # stripped))))"
  by pat_completeness auto

termination
  by (relation "measure length") (auto simp: key_end_def)

fun step_into :: "'n json \<Rightarrow> path_segment \<Rightarrow> 'n json option" where
  "step_into (J_Object m) (Seg_Key k) = fmlookup m k"
| "step_into (J_Array vs) (Seg_Index i) = (if i < length vs then Some (vs ! i) else None)"
| "step_into _ _ = None"

fun walk :: "'n json \<Rightarrow> path_segment list \<Rightarrow> 'n json option" where
  "walk v [] = Some v"
| "walk v (s # ss) = (case step_into v s of None \<Rightarrow> None | Some v' \<Rightarrow> walk v' ss)"

definition resolve_json_path :: "'n json \<Rightarrow> utext \<Rightarrow> 'n json option" where
  "resolve_json_path root path =
     (if path = [] then Some root
      else case parse_path_segments path of None \<Rightarrow> None | Some segments \<Rightarrow> walk root segments)"

text \<open>The paths of the webhook filters: parts between dots, the empty ones dropped; a part that is a number
  indexes an array.\<close>

fun dot_step :: "'n json \<Rightarrow> utext \<Rightarrow> 'n json option" where
  "dot_step (J_Object m) segment = fmlookup m segment"
| "dot_step (J_Array vs) segment =
     (case parse_usize segment of
        None \<Rightarrow> None
      | Some i \<Rightarrow> if i < length vs then Some (vs ! i) else None)"
| "dot_step _ _ = None"

fun dot_walk :: "'n json \<Rightarrow> utext list \<Rightarrow> 'n json option" where
  "dot_walk v [] = Some v"
| "dot_walk v (s # ss) = (case dot_step v s of None \<Rightarrow> None | Some v' \<Rightarrow> dot_walk v' ss)"

definition get_dot_path :: "'n json \<Rightarrow> utext \<Rightarrow> 'n json option" where
  "get_dot_path value path =
     (let segments = filter (\<lambda>s. s \<noteq> []) (split_on dot path) in
      if segments = [] then None else dot_walk value segments)"

section \<open>Predicates\<close>

datatype ('n, 'f) predicate =
    P_Exists utext
  | P_Equals utext "'n json"
  | P_NotEquals utext "'n json"
  | P_Contains utext utext
  | P_GreaterThan utext 'f
  | P_LessThan utext 'f
  | P_Changed utext
  | P_And "('n, 'f) predicate list"
  | P_Or "('n, 'f) predicate list"
  | P_Not "('n, 'f) predicate"
  | P_NotEmpty utext
  | P_ContainsCi utext utext
  | P_EqualsCi utext utext

text \<open>\<open>as_f64\<close> and the order of floats, \<open>to_string\<close> and \<open>to_lowercase\<close>.\<close>

record ('n, 'f) json_ops =
  jo_as_f64 :: "'n \<Rightarrow> 'f option"
  jo_less :: "'f \<Rightarrow> 'f \<Rightarrow> bool"
  jo_display :: "'n json \<Rightarrow> utext"
  jo_lower :: "utext \<Rightarrow> utext"

definition field_as_text :: "('n, 'f) json_ops \<Rightarrow> 'n json \<Rightarrow> utext \<Rightarrow> utext option" where
  "field_as_text ops value path =
     (case resolve_json_path value path of
        Some (J_String s) \<Rightarrow> Some s
      | Some J_Null \<Rightarrow> None
      | None \<Rightarrow> None
      | Some other \<Rightarrow> Some (jo_display ops other))"

definition number_at :: "('n, 'f) json_ops \<Rightarrow> 'n json \<Rightarrow> utext \<Rightarrow> 'f option" where
  "number_at ops value path =
     (case resolve_json_path value path of Some (J_Number n) \<Rightarrow> jo_as_f64 ops n | _ \<Rightarrow> None)"

fun evaluate_predicate ::
    "('n, 'f) json_ops \<Rightarrow> ('n, 'f) predicate \<Rightarrow> 'n json \<Rightarrow> 'n json option \<Rightarrow> bool" where
  "evaluate_predicate ops (P_Exists path) v prev \<longleftrightarrow>
     (case resolve_json_path v path of None \<Rightarrow> False | Some x \<Rightarrow> x \<noteq> J_Null)"
| "evaluate_predicate ops (P_Equals path x) v prev \<longleftrightarrow> resolve_json_path v path = Some x"
| "evaluate_predicate ops (P_NotEquals path x) v prev \<longleftrightarrow> resolve_json_path v path \<noteq> Some x"
| "evaluate_predicate ops (P_Contains path sub) v prev \<longleftrightarrow>
     (case resolve_json_path v path of Some (J_String s) \<Rightarrow> contains_text sub s | _ \<Rightarrow> False)"
| "evaluate_predicate ops (P_GreaterThan path x) v prev \<longleftrightarrow>
     (case number_at ops v path of None \<Rightarrow> False | Some n \<Rightarrow> jo_less ops x n)"
| "evaluate_predicate ops (P_LessThan path x) v prev \<longleftrightarrow>
     (case number_at ops v path of None \<Rightarrow> False | Some n \<Rightarrow> jo_less ops n x)"
| "evaluate_predicate ops (P_Changed path) v prev \<longleftrightarrow>
     resolve_json_path v path \<noteq> Option.bind prev (\<lambda>p. resolve_json_path p path)"
| "evaluate_predicate ops (P_And ps) v prev \<longleftrightarrow> list_all (\<lambda>p. evaluate_predicate ops p v prev) ps"
| "evaluate_predicate ops (P_Or ps) v prev \<longleftrightarrow> list_ex (\<lambda>p. evaluate_predicate ops p v prev) ps"
| "evaluate_predicate ops (P_Not p) v prev \<longleftrightarrow> \<not> evaluate_predicate ops p v prev"
| "evaluate_predicate ops (P_NotEmpty path) v prev \<longleftrightarrow>
     (case resolve_json_path v path of
        None \<Rightarrow> False
      | Some J_Null \<Rightarrow> False
      | Some (J_String s) \<Rightarrow> \<not> blank_text s
      | Some (J_Array a) \<Rightarrow> a \<noteq> []
      | Some (J_Object m) \<Rightarrow> m \<noteq> fmempty
      | Some _ \<Rightarrow> True)"
| "evaluate_predicate ops (P_ContainsCi path lit) v prev \<longleftrightarrow>
     (case field_as_text ops v path of
        None \<Rightarrow> False | Some s \<Rightarrow> contains_text (jo_lower ops lit) (jo_lower ops s))"
| "evaluate_predicate ops (P_EqualsCi path lit) v prev \<longleftrightarrow>
     (case field_as_text ops v path of None \<Rightarrow> False | Some s \<Rightarrow> jo_lower ops s = jo_lower ops lit)"

section \<open>The printer\<close>

definition ident_char :: "(nat \<Rightarrow> bool) \<Rightarrow> nat \<Rightarrow> bool" where
  "ident_char alnum c \<longleftrightarrow> alnum c \<or> c = 0x5F"

definition grammar_ident :: "(nat \<Rightarrow> bool) \<Rightarrow> utext \<Rightarrow> utext option" where
  "grammar_ident alnum path = (if path \<noteq> [] \<and> list_all (ident_char alnum) path then Some path else None)"

definition quote :: nat where "quote = 0x27"
definition backslash :: nat where "backslash = 0x5C"

definition escape_literal :: "utext \<Rightarrow> utext" where
  "escape_literal literal =
     replace_matches [quote] [backslash, quote] (replace_matches [backslash] [backslash, backslash] literal)"

text \<open>\<open>format!("name(a, b)")\<close> and the three forms of leaves.\<close>

definition call1 :: "string \<Rightarrow> utext \<Rightarrow> utext" where
  "call1 name a = text_of name @ text_of ''('' @ a @ text_of '')''"

definition call2 :: "string \<Rightarrow> utext \<Rightarrow> utext \<Rightarrow> utext" where
  "call2 name a b = text_of name @ text_of ''('' @ a @ text_of '', '' @ b @ text_of '')''"

definition quoted_literal :: "utext \<Rightarrow> utext" where
  "quoted_literal literal = [quote] @ escape_literal literal @ [quote]"

fun to_expr :: "(nat \<Rightarrow> bool) \<Rightarrow> ('n, 'f) predicate \<Rightarrow> utext option"
  and fold_binary :: "(nat \<Rightarrow> bool) \<Rightarrow> string \<Rightarrow> ('n, 'f) predicate list \<Rightarrow> utext option" where
  "to_expr alnum (P_NotEmpty path) = map_option (call1 ''not_empty'') (grammar_ident alnum path)"
| "to_expr alnum (P_ContainsCi path lit) = map_option (\<lambda>i. call2 ''contains'' i (quoted_literal lit)) (grammar_ident alnum path)"
| "to_expr alnum (P_EqualsCi path lit) = map_option (\<lambda>i. call2 ''equals'' i (quoted_literal lit)) (grammar_ident alnum path)"
| "to_expr alnum (P_Not inner) = map_option (call1 ''not'') (to_expr alnum inner)"
| "to_expr alnum (P_And operands) = fold_binary alnum ''and'' operands"
| "to_expr alnum (P_Or operands) = fold_binary alnum ''or'' operands"
| "to_expr alnum _ = None"
| "fold_binary alnum name [] = None"
| "fold_binary alnum name (first # rest) =
     (if rest = [] then to_expr alnum first
      else Option.bind (to_expr alnum first)
             (\<lambda>a. map_option (call2 name a) (fold_binary alnum name rest)))"

section \<open>The fields a predicate names\<close>

fun leaf_path :: "('n, 'f) predicate \<Rightarrow> utext option" where
  "leaf_path (P_Exists path) = Some path"
| "leaf_path (P_Equals path _) = Some path"
| "leaf_path (P_NotEquals path _) = Some path"
| "leaf_path (P_Contains path _) = Some path"
| "leaf_path (P_GreaterThan path _) = Some path"
| "leaf_path (P_LessThan path _) = Some path"
| "leaf_path (P_Changed path) = Some path"
| "leaf_path (P_NotEmpty path) = Some path"
| "leaf_path (P_ContainsCi path _) = Some path"
| "leaf_path (P_EqualsCi path _) = Some path"
| "leaf_path _ = None"

fun paths_matching :: "(('n, 'f) predicate \<Rightarrow> bool) \<Rightarrow> ('n, 'f) predicate \<Rightarrow> utext list" where
  "paths_matching f (P_And ps) = concat (map (paths_matching f) ps)"
| "paths_matching f (P_Or ps) = concat (map (paths_matching f) ps)"
| "paths_matching f (P_Not p) = paths_matching f p"
| "paths_matching f leaf = (if f leaf then (case leaf_path leaf of None \<Rightarrow> [] | Some p \<Rightarrow> [p]) else [])"

end
