(* ===== verification/Legacy_Expr.thy ===== *)
theory Legacy_Expr
  imports Predicates
begin

text \<open>
  The parser of the string grammar (\<open>ao-protocol/src/watch_contract/legacy_expr.rs\<close>): a recursive descent
  over the characters with a position. Whether it returns is the value \<open>Some\<close> of \<open>parse_predicate\<close>.
\<close>

datatype legacy_predicate =
    L_Contains utext utext
  | L_Equals utext utext
  | L_NotEmpty utext
  | L_And legacy_predicate legacy_predicate
  | L_Or legacy_predicate legacy_predicate
  | L_Not legacy_predicate

text \<open>The message of an \<open>InvalidPredicate\<close>, by its form.\<close>

datatype contract_error =
    Expected_Char nat nat
  | Expected_Ident nat
  | Unterminated_Literal
  | Unknown_Function utext
  | Trailing_Input nat

text \<open>A parse: an error, or what was read and the position after it.\<close>

type_synonym 'a parsed = "contract_error + 'a \<times> nat"

definition peek :: "utext \<Rightarrow> nat \<Rightarrow> nat option" where
  "peek cs pos = (if pos < length cs then Some (cs ! pos) else None)"

function skip_while :: "(nat \<Rightarrow> bool) \<Rightarrow> utext \<Rightarrow> nat \<Rightarrow> nat" where
  "skip_while p cs pos =
     (case peek cs pos of
        Some c \<Rightarrow> if p c then skip_while p cs (Suc pos) else pos
      | None \<Rightarrow> pos)"
  by pat_completeness auto

termination
  by (relation "measure (\<lambda>(p, cs, pos). length cs - pos)") (auto simp: peek_def split: if_splits)

declare skip_while.simps [simp del]

definition skip_ws :: "utext \<Rightarrow> nat \<Rightarrow> nat" where
  "skip_ws cs pos = skip_while is_whitespace cs pos"

definition expect_char :: "utext \<Rightarrow> nat \<Rightarrow> nat \<Rightarrow> unit parsed" where
  "expect_char cs expected pos =
     (let pos' = skip_ws cs pos in
      if peek cs pos' = Some expected then Inr ((), Suc pos') else Inl (Expected_Char expected pos'))"

definition parse_ident :: "(nat \<Rightarrow> bool) \<Rightarrow> utext \<Rightarrow> nat \<Rightarrow> utext parsed" where
  "parse_ident alnum cs pos =
     (let start = skip_ws cs pos; end_pos = skip_while (ident_char alnum) cs start in
      if end_pos = start then Inl (Expected_Ident start)
      else Inr (take (end_pos - start) (drop start cs), end_pos))"

function literal_loop :: "utext \<Rightarrow> nat \<Rightarrow> utext \<Rightarrow> utext parsed" where
  "literal_loop cs pos out =
     (case peek cs pos of
        None \<Rightarrow> Inl Unterminated_Literal
      | Some c \<Rightarrow>
          if c = backslash then
            (case peek cs (Suc pos) of
               None \<Rightarrow> Inl Unterminated_Literal
             | Some c' \<Rightarrow>
                 literal_loop cs (Suc (Suc pos))
                   (if c' = quote then out @ [quote] else if c' = backslash then out @ [backslash]
                    else out @ [backslash, c']))
          else if c = quote then Inr (out, Suc pos)
          else literal_loop cs (Suc pos) (out @ [c]))"
  by pat_completeness auto

termination
  by (relation "measure (\<lambda>(cs, pos, out). length cs - pos)") (auto simp: peek_def split: if_splits)

declare literal_loop.simps [simp del]

definition parse_string_literal :: "utext \<Rightarrow> nat \<Rightarrow> utext parsed" where
  "parse_string_literal cs pos =
     (case expect_char cs quote (skip_ws cs pos) of
        Inl e \<Rightarrow> Inl e
      | Inr (_, pos') \<Rightarrow> literal_loop cs pos' [])"

text \<open>The field and the literal of \<open>contains\<close> and \<open>equals\<close>.\<close>

definition parse_field_literal :: "(nat \<Rightarrow> bool) \<Rightarrow> utext \<Rightarrow> nat \<Rightarrow> (utext \<times> utext) parsed" where
  "parse_field_literal alnum cs pos =
     (case parse_ident alnum cs pos of
        Inl e \<Rightarrow> Inl e
      | Inr (field, pos1) \<Rightarrow>
          (case expect_char cs 0x2C pos1 of
             Inl e \<Rightarrow> Inl e
           | Inr (_, pos2) \<Rightarrow>
               (case parse_string_literal cs pos2 of
                  Inl e \<Rightarrow> Inl e
                | Inr (literal, pos3) \<Rightarrow> Inr ((field, literal), pos3))))"

definition close_call :: "utext \<Rightarrow> 'a parsed \<Rightarrow> 'a parsed" where
  "close_call cs r =
     (case r of
        Inl e \<Rightarrow> Inl e
      | Inr (x, pos) \<Rightarrow> (case expect_char cs 0x29 pos of Inl e \<Rightarrow> Inl e | Inr (_, pos') \<Rightarrow> Inr (x, pos')))"

definition map_parsed :: "('a \<Rightarrow> 'b) \<Rightarrow> 'a parsed \<Rightarrow> 'b parsed" where
  "map_parsed f r = (case r of Inl e \<Rightarrow> Inl e | Inr (x, pos) \<Rightarrow> Inr (f x, pos))"

partial_function (option) parse_predicate ::
    "(nat \<Rightarrow> bool) \<Rightarrow> utext \<Rightarrow> nat \<Rightarrow> legacy_predicate parsed option" where
  "parse_predicate alnum cs pos =
     (case parse_ident alnum cs pos of
        Inl e \<Rightarrow> Some (Inl e)
      | Inr (name, pos1) \<Rightarrow>
          (case expect_char cs 0x28 pos1 of
             Inl e \<Rightarrow> Some (Inl e)
           | Inr (_, pos2) \<Rightarrow>
               if name = text_of ''contains'' then
                 Some (close_call cs (map_parsed (\<lambda>(f, l). L_Contains f l) (parse_field_literal alnum cs pos2)))
               else if name = text_of ''equals'' then
                 Some (close_call cs (map_parsed (\<lambda>(f, l). L_Equals f l) (parse_field_literal alnum cs pos2)))
               else if name = text_of ''not_empty'' then
                 Some (close_call cs (map_parsed L_NotEmpty (parse_ident alnum cs pos2)))
               else if name = text_of ''not'' then
                 Option.bind (parse_predicate alnum cs pos2) (\<lambda>r. Some (close_call cs (map_parsed L_Not r)))
               else if name = text_of ''and'' \<or> name = text_of ''or'' then
                 Option.bind (parse_predicate alnum cs pos2) (\<lambda>r1.
                   case r1 of
                     Inl e \<Rightarrow> Some (Inl e)
                   | Inr (left, pos3) \<Rightarrow>
                       (case expect_char cs 0x2C pos3 of
                          Inl e \<Rightarrow> Some (Inl e)
                        | Inr (_, pos4) \<Rightarrow>
                            Option.bind (parse_predicate alnum cs pos4) (\<lambda>r2.
                              Some (close_call cs
                                (map_parsed (if name = text_of ''and'' then L_And left else L_Or left) r2)))))
               else Some (Inl (Unknown_Function name))))"

fun to_typed :: "legacy_predicate \<Rightarrow> ('n, 'f) predicate" where
  "to_typed (L_Contains field literal) = P_ContainsCi field literal"
| "to_typed (L_Equals field literal) = P_EqualsCi field literal"
| "to_typed (L_NotEmpty field) = P_NotEmpty field"
| "to_typed (L_And a b) = P_And [to_typed a, to_typed b]"
| "to_typed (L_Or a b) = P_Or [to_typed a, to_typed b]"
| "to_typed (L_Not a) = P_Not (to_typed a)"

definition parse_expr :: "(nat \<Rightarrow> bool) \<Rightarrow> utext \<Rightarrow> (contract_error + ('n, 'f) predicate) option" where
  "parse_expr alnum cs =
     Option.bind (parse_predicate alnum cs 0) (\<lambda>r.
       case r of
         Inl e \<Rightarrow> Some (Inl e)
       | Inr (predicate, pos) \<Rightarrow>
           (let pos' = skip_ws cs pos in
            if pos' \<noteq> length cs then Some (Inl (Trailing_Input pos')) else Some (Inr (to_typed predicate))))"

end
