(* ===== verification/Predicate_Properties.thy ===== *)
theory Predicate_Properties
  imports Legacy_Expr
begin

text \<open>
  What the parser makes of what the printer prints, that it always returns, and what a path finds.
\<close>

section \<open>Reading\<close>

text \<open>What the Unicode table says of the characters the grammar uses: no white space and none of the grammar's
  punctuation is alphanumeric, the small letters of ASCII are.\<close>

definition alnum_table :: "(nat \<Rightarrow> bool) \<Rightarrow> bool" where
  "alnum_table alnum \<longleftrightarrow>
     (\<forall>c. is_whitespace c \<longrightarrow> \<not> alnum c) \<and> \<not> alnum 0x28 \<and> \<not> alnum 0x29 \<and> \<not> alnum 0x2C \<and>
     (\<forall>c. 0x61 \<le> c \<and> c \<le> 0x7A \<longrightarrow> alnum c)"

lemma peek_drop: "peek cs pos = (case drop pos cs of [] \<Rightarrow> None | c # _ \<Rightarrow> Some c)"
  by (auto simp: peek_def Cons_nth_drop_Suc [symmetric] split: list.split)

lemma drop_later: "drop pos cs = xs @ ys \<Longrightarrow> drop (pos + length xs) cs = ys"
  by (metis append_eq_conv_conj drop_drop add.commute)

lemma drop_next: "drop pos cs = x # ys \<Longrightarrow> drop (Suc pos) cs = ys"
  by (metis drop_Suc list.sel(3) tl_drop)

lemma skip_while_eq: "skip_while p cs pos = pos + length (takeWhile p (drop pos cs))"
proof (induction p cs pos rule: skip_while.induct)
  case (1 p cs pos)
  show ?case
  proof (cases "drop pos cs")
    case Nil
    then show ?thesis by (subst skip_while.simps) (simp add: peek_drop)
  next
    case (Cons c ys)
    then have d: "drop (Suc pos) cs = ys" by (rule drop_next)
    show ?thesis
      using 1 [of c] Cons d by (subst skip_while.simps) (auto simp: peek_drop)
  qed
qed

lemma skip_while_span:
  assumes "drop pos cs = xs @ ys" and "list_all p xs" and "ys = [] \<or> \<not> p (hd ys)"
  shows "skip_while p cs pos = pos + length xs"
proof -
  have "takeWhile p (xs @ ys) = xs"
    using assms(2,3) by (cases ys) (auto simp: list_all_iff takeWhile_append2)
  with assms(1) show ?thesis by (simp add: skip_while_eq)
qed

lemma expect_read:
  assumes "drop pos cs = w @ c # ys" and "list_all is_whitespace w" and "\<not> is_whitespace c"
  shows "expect_char cs c pos = Inr ((), pos + Suc (length w))"
proof -
  have s: "skip_ws cs pos = pos + length w"
    using assms by (simp add: skip_ws_def skip_while_span)
  moreover have "drop (pos + length w) cs = c # ys" by (rule drop_later [OF assms(1)])
  ultimately show ?thesis by (simp add: expect_char_def peek_drop)
qed

lemma ident_not_white:
  assumes "alnum_table alnum" and "ident_char alnum c"
  shows "\<not> is_whitespace c"
proof -
  have "\<not> is_whitespace 0x5F" by (simp add: is_whitespace_def)
  with assms show ?thesis unfolding alnum_table_def ident_char_def by metis
qed

lemma ident_read:
  assumes "alnum_table alnum" and "drop pos cs = w @ name @ c # ys" and "list_all is_whitespace w"
    and "name \<noteq> []" and "list_all (ident_char alnum) name" and "\<not> ident_char alnum c"
  shows "parse_ident alnum cs pos = Inr (name, pos + length w + length name)"
proof -
  have hd: "\<not> is_whitespace (hd name)"
    using assms(4,5) ident_not_white [OF assms(1)] by (cases name) auto
  then have s: "skip_ws cs pos = pos + length w"
    using assms(2-4) by (simp add: skip_ws_def skip_while_span)
  have d: "drop (pos + length w) cs = name @ c # ys" by (rule drop_later [OF assms(2)])
  with assms(5,6) have e: "skip_while (ident_char alnum) cs (pos + length w) = pos + length w + length name"
    by (simp add: skip_while_span)
  with s d assms(4) show ?thesis by (simp add: parse_ident_def Let_def)
qed

lemma replace_one: "replace_matches [c] r s = concat (map (\<lambda>x. if x = c then r else [x]) s)"
proof (induction s)
  case Nil
  show ?case by (subst replace_matches.simps) simp
next
  case (Cons x s)
  then show ?case by (subst replace_matches.simps) auto
qed

definition escaped :: "nat \<Rightarrow> utext" where
  "escaped c = (if c = backslash \<or> c = quote then [backslash, c] else [c])"

lemma escaped_cases:
  "c = backslash \<or> c = quote \<Longrightarrow> escaped c = [backslash, c]"
  "\<not> (c = backslash \<or> c = quote) \<Longrightarrow> escaped c = [c]"
  by (auto simp: escaped_def)

lemma escape_literal_eq: "escape_literal s = concat (map escaped s)"
  by (induction s) (auto simp: escape_literal_def replace_one escaped_def quote_def backslash_def)

lemma literal_read:
  "drop pos cs = concat (map escaped lit) @ quote # ys \<Longrightarrow>
     literal_loop cs pos out = Inr (out @ lit, pos + Suc (length (concat (map escaped lit))))"
proof (induction lit arbitrary: pos out)
  case Nil
  then show ?case by (subst literal_loop.simps) (simp add: peek_drop quote_def backslash_def)
next
  case (Cons c lit)
  show ?case
  proof (cases "c = backslash \<or> c = quote")
    case True
    with Cons.prems have d: "drop pos cs = backslash # c # concat (map escaped lit) @ quote # ys"
      by (simp add: escaped_cases)
    then have d1: "drop (Suc pos) cs = c # concat (map escaped lit) @ quote # ys" by (rule drop_next)
    then have d2: "drop (Suc (Suc pos)) cs = concat (map escaped lit) @ quote # ys" by (rule drop_next)
    from True d d1 Cons.IH [OF d2] show ?thesis
      by (subst literal_loop.simps) (auto simp: peek_drop escaped_cases)
  next
    case False
    with Cons.prems have d: "drop pos cs = c # concat (map escaped lit) @ quote # ys"
      by (simp add: escaped_cases)
    then have d1: "drop (Suc pos) cs = concat (map escaped lit) @ quote # ys" by (rule drop_next)
    from False d Cons.IH [OF d1] show ?thesis
      by (subst literal_loop.simps) (simp add: peek_drop escaped_cases)
  qed
qed

lemma string_literal_read:
  assumes "drop pos cs = w @ quoted_literal lit @ ys" and "list_all is_whitespace w"
  shows "parse_string_literal cs pos = Inr (lit, pos + length w + length (quoted_literal lit))"
proof -
  have q: "\<not> is_whitespace quote" by (simp add: is_whitespace_def quote_def)
  have d: "drop pos cs = w @ quote # concat (map escaped lit) @ quote # ys"
    using assms(1) by (simp add: quoted_literal_def escape_literal_eq)
  have s: "skip_ws cs pos = pos + length w"
    using d assms(2) q by (simp add: skip_ws_def skip_while_span)
  have d1: "drop (pos + length w) cs = [] @ quote # concat (map escaped lit) @ quote # ys"
    using drop_later [OF d] by simp
  have x: "expect_char cs quote (pos + length w) = Inr ((), Suc (pos + length w))"
    using expect_read [OF d1 _ q] by simp
  have d2: "drop (Suc (pos + length w)) cs = concat (map escaped lit) @ quote # ys"
    using d1 by (auto dest: drop_next)
  show ?thesis
    using literal_read [OF d2, of "[]"] by (simp add: parse_string_literal_def s x quoted_literal_def escape_literal_eq)
qed

section \<open>The printed form of a parsed predicate\<close>

fun show_legacy :: "legacy_predicate \<Rightarrow> utext" where
  "show_legacy (L_Contains f l) = call2 ''contains'' f (quoted_literal l)"
| "show_legacy (L_Equals f l) = call2 ''equals'' f (quoted_literal l)"
| "show_legacy (L_NotEmpty f) = call1 ''not_empty'' f"
| "show_legacy (L_And a b) = call2 ''and'' (show_legacy a) (show_legacy b)"
| "show_legacy (L_Or a b) = call2 ''or'' (show_legacy a) (show_legacy b)"
| "show_legacy (L_Not a) = call1 ''not'' (show_legacy a)"

definition is_ident :: "(nat \<Rightarrow> bool) \<Rightarrow> utext \<Rightarrow> bool" where
  "is_ident alnum s \<longleftrightarrow> s \<noteq> [] \<and> list_all (ident_char alnum) s"

fun well_named :: "(nat \<Rightarrow> bool) \<Rightarrow> legacy_predicate \<Rightarrow> bool" where
  "well_named alnum (L_Contains f l) \<longleftrightarrow> is_ident alnum f"
| "well_named alnum (L_Equals f l) \<longleftrightarrow> is_ident alnum f"
| "well_named alnum (L_NotEmpty f) \<longleftrightarrow> is_ident alnum f"
| "well_named alnum (L_And a b) \<longleftrightarrow> well_named alnum a \<and> well_named alnum b"
| "well_named alnum (L_Or a b) \<longleftrightarrow> well_named alnum a \<and> well_named alnum b"
| "well_named alnum (L_Not a) \<longleftrightarrow> well_named alnum a"

lemma to_expr_typed: "well_named alnum l \<Longrightarrow> to_expr alnum (to_typed l) = Some (show_legacy l)"
  by (induction l) (simp_all add: grammar_ident_def is_ident_def)

section \<open>The parser reads what the printer prints\<close>

lemma keyword_ident:
  assumes "alnum_table alnum" and "name \<in> {''contains'', ''equals'', ''not_empty'', ''and'', ''or'', ''not''}"
  shows "is_ident alnum (text_of name)"
  using assms by (auto simp: is_ident_def ident_char_def text_of_def alnum_table_def)

lemma keywords_differ:
  "text_of ''equals'' \<noteq> text_of ''contains''" "text_of ''not_empty'' \<noteq> text_of ''contains''"
  "text_of ''not_empty'' \<noteq> text_of ''equals''" "text_of ''not'' \<noteq> text_of ''contains''"
  "text_of ''not'' \<noteq> text_of ''equals''" "text_of ''not'' \<noteq> text_of ''not_empty''"
  "text_of ''and'' \<noteq> text_of ''contains''" "text_of ''and'' \<noteq> text_of ''equals''"
  "text_of ''and'' \<noteq> text_of ''not_empty''" "text_of ''and'' \<noteq> text_of ''not''"
  "text_of ''or'' \<noteq> text_of ''contains''" "text_of ''or'' \<noteq> text_of ''equals''"
  "text_of ''or'' \<noteq> text_of ''not_empty''" "text_of ''or'' \<noteq> text_of ''not''" "text_of ''or'' \<noteq> text_of ''and''"
  by (simp_all add: text_of_def)

lemma punctuation:
  "text_of ''('' = [0x28]" "text_of '')'' = [0x29]" "text_of '', '' = [0x2C, 0x20]"
  by (simp_all add: text_of_def)

lemma punctuation_not_white: "\<not> is_whitespace 0x28" "\<not> is_whitespace 0x29" "\<not> is_whitespace 0x2C"
  by (simp_all add: is_whitespace_def)

lemma space_white: "is_whitespace 0x20"
  by (simp add: is_whitespace_def)

lemma punctuation_not_ident:
  "alnum_table alnum \<Longrightarrow> \<not> ident_char alnum 0x28" "alnum_table alnum \<Longrightarrow> \<not> ident_char alnum 0x29"
  "alnum_table alnum \<Longrightarrow> \<not> ident_char alnum 0x2C"
  by (simp_all add: alnum_table_def ident_char_def)

text \<open>The name of a call and its opening parenthesis.\<close>

lemma head_read:
  assumes "alnum_table alnum" and "drop pos cs = w @ text_of name @ 0x28 # ys" and "list_all is_whitespace w"
    and "name \<in> {''contains'', ''equals'', ''not_empty'', ''and'', ''or'', ''not''}"
  defines "p \<equiv> pos + length w + length (text_of name)"
  shows "parse_ident alnum cs pos = Inr (text_of name, p)" and "expect_char cs 0x28 p = Inr ((), Suc p)"
    and "drop (Suc p) cs = ys"
proof -
  have "is_ident alnum (text_of name)" by (rule keyword_ident [OF assms(1,4)])
  then show "parse_ident alnum cs pos = Inr (text_of name, p)"
    using ident_read [OF assms(1,2,3)] punctuation_not_ident(1) [OF assms(1)] by (simp add: is_ident_def p_def)
  have d: "drop p cs = [] @ 0x28 # ys"
    using drop_later [of pos cs "w @ text_of name"] assms(2) by (simp add: p_def add.assoc)
  then show "expect_char cs 0x28 p = Inr ((), Suc p)" using expect_read [OF d _ punctuation_not_white(1)] by simp
  from d show "drop (Suc p) cs = ys" by (auto dest: drop_next)
qed

lemma close_read:
  assumes "drop pos cs = 0x29 # ys"
  shows "close_call cs (Inr (x, pos)) = Inr (x, Suc pos)"
  using expect_read [of pos cs "[]" "0x29" ys] assms punctuation_not_white(2) by (simp add: close_call_def)

lemma comma_read:
  assumes "drop pos cs = 0x2C # 0x20 # ys"
  shows "expect_char cs 0x2C pos = Inr ((), Suc pos)" and "drop (Suc pos) cs = [0x20] @ ys"
  using expect_read [of pos cs "[]" "0x2C" "0x20 # ys"] assms punctuation_not_white(3) by (auto dest: drop_next)

lemma field_literal_read:
  assumes "alnum_table alnum" and "drop pos cs = f @ [0x2C, 0x20] @ quoted_literal l @ ys" and "is_ident alnum f"
  shows "parse_field_literal alnum cs pos = Inr ((f, l), pos + length f + 2 + length (quoted_literal l))"
    and "drop (pos + length f + 2 + length (quoted_literal l)) cs = ys"
proof -
  have i: "parse_ident alnum cs pos = Inr (f, pos + length f)"
    using ident_read [OF assms(1), of pos cs "[]" f "0x2C"] assms(2,3) punctuation_not_ident(3) [OF assms(1)]
    by (simp add: is_ident_def)
  have d: "drop (pos + length f) cs = 0x2C # 0x20 # quoted_literal l @ ys" using drop_later [OF assms(2)] by simp
  note c = comma_read [OF d]
  have "list_all is_whitespace [0x20]" by (simp add: space_white)
  from string_literal_read [OF c(2) this] c(1) i
  show "parse_field_literal alnum cs pos = Inr ((f, l), pos + length f + 2 + length (quoted_literal l))"
    by (simp add: parse_field_literal_def)
  show "drop (pos + length f + 2 + length (quoted_literal l)) cs = ys"
    using drop_later [of pos cs "f @ [0x2C, 0x20] @ quoted_literal l"] assms(2) by (simp add: add.assoc)
qed

text \<open>The six calls, once the name and the parenthesis are read.\<close>

lemma parse_call:
  assumes "expect_char cs 0x28 p = Inr ((), q)"
  shows "parse_ident alnum cs pos = Inr (text_of ''contains'', p) \<Longrightarrow>
      parse_predicate alnum cs pos =
      Some (close_call cs (map_parsed (\<lambda>(f, l). L_Contains f l) (parse_field_literal alnum cs q)))"
    and "parse_ident alnum cs pos = Inr (text_of ''equals'', p) \<Longrightarrow>
      parse_predicate alnum cs pos =
      Some (close_call cs (map_parsed (\<lambda>(f, l). L_Equals f l) (parse_field_literal alnum cs q)))"
    and "parse_ident alnum cs pos = Inr (text_of ''not_empty'', p) \<Longrightarrow>
      parse_predicate alnum cs pos = Some (close_call cs (map_parsed L_NotEmpty (parse_ident alnum cs q)))"
    and "parse_ident alnum cs pos = Inr (text_of ''not'', p) \<Longrightarrow> parse_predicate alnum cs q = Some r \<Longrightarrow>
      parse_predicate alnum cs pos = Some (close_call cs (map_parsed L_Not r))"
    and "parse_ident alnum cs pos = Inr (text_of ''and'', p) \<Longrightarrow> parse_predicate alnum cs q = Some (Inr (a, q1)) \<Longrightarrow>
      expect_char cs 0x2C q1 = Inr ((), q2) \<Longrightarrow> parse_predicate alnum cs q2 = Some r \<Longrightarrow>
      parse_predicate alnum cs pos = Some (close_call cs (map_parsed (L_And a) r))"
    and "parse_ident alnum cs pos = Inr (text_of ''or'', p) \<Longrightarrow> parse_predicate alnum cs q = Some (Inr (a, q1)) \<Longrightarrow>
      expect_char cs 0x2C q1 = Inr ((), q2) \<Longrightarrow> parse_predicate alnum cs q2 = Some r \<Longrightarrow>
      parse_predicate alnum cs pos = Some (close_call cs (map_parsed (L_Or a) r))"
  by (subst parse_predicate.simps, simp add: assms keywords_differ)+

lemma map_parsed_Inr [simp]: "map_parsed f (Inr (x, p)) = Inr (f x, p)"
  by (simp add: map_parsed_def)

lemma parse_leaf:
  assumes t: "alnum_table alnum" and d: "drop pos cs = w @ call2 name f (quoted_literal l) @ ys" and w: "list_all is_whitespace w"
    and f: "is_ident alnum f" and name: "name = ''contains'' \<and> c = L_Contains \<or> name = ''equals'' \<and> c = L_Equals"
  shows "parse_predicate alnum cs pos = Some (Inr (c f l, pos + length w + length (call2 name f (quoted_literal l))))"
proof -
  let ?p = "pos + length w + length (text_of name)"
  have d': "drop pos cs = w @ text_of name @ 0x28 # f @ [0x2C, 0x20] @ quoted_literal l @ 0x29 # ys"
    using d by (simp add: call2_def punctuation)
  have "name \<in> {''contains'', ''equals'', ''not_empty'', ''and'', ''or'', ''not''}" using name by auto
  note h = head_read [OF t d' w this]
  note fl = field_literal_read [OF t h(3) f]
  have "parse_predicate alnum cs pos = Some (close_call cs (map_parsed (\<lambda>(f, l). c f l) (parse_field_literal alnum cs (Suc ?p))))"
    using name h(1) parse_call(1,2) [OF h(2)] by blast
  also have "\<dots> = Some (Inr (c f l, Suc (Suc ?p + length f + 2 + length (quoted_literal l))))"
    by (simp only: fl(1) map_parsed_Inr prod.case close_read [OF fl(2)])
  also have "Suc (Suc ?p + length f + 2 + length (quoted_literal l)) = pos + length w + length (call2 name f (quoted_literal l))"
    by (simp add: call2_def punctuation)
  finally show ?thesis .
qed

lemma parse_both:
  assumes t: "alnum_table alnum" and d: "drop pos cs = w @ call2 name (show_legacy a) (show_legacy b) @ ys"
    and w: "list_all is_whitespace w"
    and name: "name = ''and'' \<and> c = L_And \<or> name = ''or'' \<and> c = L_Or"
    and a: "\<And>pos w ys. drop pos cs = w @ show_legacy a @ ys \<Longrightarrow> list_all is_whitespace w \<Longrightarrow>
      parse_predicate alnum cs pos = Some (Inr (a, pos + length w + length (show_legacy a)))"
    and b: "\<And>pos w ys. drop pos cs = w @ show_legacy b @ ys \<Longrightarrow> list_all is_whitespace w \<Longrightarrow>
      parse_predicate alnum cs pos = Some (Inr (b, pos + length w + length (show_legacy b)))"
  shows "parse_predicate alnum cs pos =
     Some (Inr (c a b, pos + length w + length (call2 name (show_legacy a) (show_legacy b))))"
proof -
  let ?p = "pos + length w + length (text_of name)"
  let ?q = "Suc ?p + length (show_legacy a)"
  have d': "drop pos cs = w @ text_of name @ 0x28 # show_legacy a @ 0x2C # 0x20 # show_legacy b @ 0x29 # ys"
    using d by (simp add: call2_def punctuation)
  have "name \<in> {''contains'', ''equals'', ''not_empty'', ''and'', ''or'', ''not''}" using name by auto
  note h = head_read [OF t d' w this]
  have pa: "parse_predicate alnum cs (Suc ?p) = Some (Inr (a, ?q))"
    using a [of "Suc ?p" "[]"] h(3) by simp
  have dq: "drop ?q cs = 0x2C # 0x20 # show_legacy b @ 0x29 # ys" by (rule drop_later) (simp add: h(3))
  note comma = comma_read [OF dq]
  have "list_all is_whitespace [0x20]" by (simp add: space_white)
  from b [OF comma(2) this] have pb: "parse_predicate alnum cs (Suc ?q) =
      Some (Inr (b, Suc (Suc ?q) + length (show_legacy b)))" by simp
  have close: "drop (Suc (Suc ?q) + length (show_legacy b)) cs = 0x29 # ys"
    using drop_later [of "Suc ?q" cs "[0x20] @ show_legacy b"] comma(2) by simp
  have "parse_predicate alnum cs pos =
      Some (close_call cs (map_parsed (c a) (Inr (b, Suc (Suc ?q) + length (show_legacy b)))))"
    using name h(1) parse_call(5,6) [OF h(2) _ pa comma(1) pb] by blast
  also have "\<dots> = Some (Inr (c a b, Suc (Suc (Suc ?q) + length (show_legacy b))))"
    by (simp only: map_parsed_Inr close_read [OF close])
  also have "Suc (Suc (Suc ?q) + length (show_legacy b)) =
      pos + length w + length (call2 name (show_legacy a) (show_legacy b))"
    by (simp add: call2_def punctuation)
  finally show ?thesis .
qed

lemma parse_show:
  assumes t: "alnum_table alnum"
  shows "well_named alnum l \<Longrightarrow> drop pos cs = w @ show_legacy l @ ys \<Longrightarrow> list_all is_whitespace w \<Longrightarrow>
     parse_predicate alnum cs pos = Some (Inr (l, pos + length w + length (show_legacy l)))"
proof (induction l arbitrary: pos w ys)
  case (L_Contains f x)
  then show ?case using parse_leaf [OF t, of pos cs w "''contains''" f x ys L_Contains] by simp
next
  case (L_Equals f x)
  then show ?case using parse_leaf [OF t, of pos cs w "''equals''" f x ys L_Equals] by simp
next
  case (L_NotEmpty f)
  then have d: "drop pos cs = w @ text_of ''not_empty'' @ 0x28 # f @ 0x29 # ys" and f: "is_ident alnum f"
    by (simp_all add: call1_def punctuation)
  let ?p = "pos + length w + length (text_of ''not_empty'')"
  note h = head_read [OF t d L_NotEmpty.prems(3)]
  have i: "parse_ident alnum cs (Suc ?p) = Inr (f, Suc ?p + length f)"
    using ident_read [OF t, of "Suc ?p" cs "[]" f "0x29" ys] h(3) f punctuation_not_ident(2) [OF t]
    by (simp add: is_ident_def)
  have c: "drop (Suc ?p + length f) cs = 0x29 # ys" by (rule drop_later) (simp add: h(3))
  have "parse_predicate alnum cs pos = Some (close_call cs (map_parsed L_NotEmpty (parse_ident alnum cs (Suc ?p))))"
    by (rule parse_call(3) [OF h(2)]) (simp_all add: h(1))
  also have "\<dots> = Some (Inr (L_NotEmpty f, Suc (Suc ?p + length f)))"
    by (simp only: i map_parsed_Inr close_read [OF c])
  finally show ?case by (simp add: call1_def punctuation)
next
  case (L_Not a)
  then have d: "drop pos cs = w @ text_of ''not'' @ 0x28 # show_legacy a @ 0x29 # ys"
    by (simp add: call1_def punctuation)
  let ?p = "pos + length w + length (text_of ''not'')"
  note h = head_read [OF t d L_Not.prems(3)]
  have a: "parse_predicate alnum cs (Suc ?p) = Some (Inr (a, Suc ?p + length (show_legacy a)))"
    using L_Not.IH [of "Suc ?p" "[]"] L_Not.prems(1) h(3) by simp
  have c: "drop (Suc ?p + length (show_legacy a)) cs = 0x29 # ys" by (rule drop_later) (simp add: h(3))
  have "parse_predicate alnum cs pos = Some (close_call cs (map_parsed L_Not (Inr (a, Suc ?p + length (show_legacy a)))))"
    by (rule parse_call(4) [OF h(2) _ a]) (simp_all add: h(1))
  also have "\<dots> = Some (Inr (L_Not a, Suc (Suc ?p + length (show_legacy a))))"
    by (simp only: map_parsed_Inr close_read [OF c])
  finally show ?case by (simp add: call1_def punctuation)
next
  case (L_And a b)
  then show ?case using parse_both [OF t, of pos cs w "''and''" a b ys L_And] by simp
next
  case (L_Or a b)
  then show ?case using parse_both [OF t, of pos cs w "''or''" a b ys L_Or] by simp
qed


lemma parse_expr_show:
  assumes "alnum_table alnum" and "well_named alnum l"
  shows "parse_expr alnum (show_legacy l) = Some (Inr (to_typed l))"
proof -
  have "parse_predicate alnum (show_legacy l) 0 = Some (Inr (l, length (show_legacy l)))"
    using parse_show [OF assms, of 0 "show_legacy l" "[]" "[]"] by simp
  then show ?thesis by (simp add: parse_expr_def skip_ws_def skip_while_eq)
qed

section \<open>What is printed\<close>

fun binary :: "('n, 'f) predicate \<Rightarrow> bool" where
  "binary (P_And ps) \<longleftrightarrow> length ps = 2 \<and> list_all binary ps"
| "binary (P_Or ps) \<longleftrightarrow> length ps = 2 \<and> list_all binary ps"
| "binary (P_Not p) \<longleftrightarrow> binary p"
| "binary _ \<longleftrightarrow> True"

definition same_meaning :: "('n, 'f) predicate \<Rightarrow> ('n, 'f) predicate \<Rightarrow> bool" where
  "same_meaning p q \<longleftrightarrow> (\<forall>ops v prev. evaluate_predicate ops p v prev = evaluate_predicate ops q v prev)"

text \<open>A printed predicate is the printed form of a parsed one of the same meaning, and of itself when its
  combinators have two operands.\<close>

lemma printed_form:
  fixes p :: "('n, 'f) predicate" and ps :: "('n, 'f) predicate list"
  shows "to_expr alnum p = Some s \<Longrightarrow>
      \<exists>l. s = show_legacy l \<and> well_named alnum l \<and> same_meaning (to_typed l) p \<and> (binary p \<longrightarrow> to_typed l = p)"
    and "fold_binary alnum name ps = Some s \<Longrightarrow> name = ''and'' \<or> name = ''or'' \<Longrightarrow>
      \<exists>l. s = show_legacy l \<and> well_named alnum l \<and>
        same_meaning (to_typed l) ((if name = ''and'' then P_And else P_Or) ps) \<and>
        (length ps = 2 \<longrightarrow> list_all binary ps \<longrightarrow> to_typed l = (if name = ''and'' then P_And else P_Or) ps) \<and>
        (\<forall>q. ps = [q] \<longrightarrow> binary q \<longrightarrow> to_typed l = q)"
proof (induction alnum p and alnum name ps arbitrary: s and s rule: to_expr_fold_binary.induct)
  case (1 alnum path)
  then show ?case
    by (intro exI [of _ "L_NotEmpty path"]) (auto simp: grammar_ident_def is_ident_def same_meaning_def split: if_splits)
next
  case (2 alnum path lit)
  then show ?case
    by (intro exI [of _ "L_Contains path lit"]) (auto simp: grammar_ident_def is_ident_def same_meaning_def split: if_splits)
next
  case (3 alnum path lit)
  then show ?case
    by (intro exI [of _ "L_Equals path lit"]) (auto simp: grammar_ident_def is_ident_def same_meaning_def split: if_splits)
next
  case (4 alnum inner)
  then obtain s' where s': "to_expr alnum inner = Some s'" "s = call1 ''not'' s'" by auto
  from 4(1) [OF s'(1)] obtain l where "s' = show_legacy l" "well_named alnum l" "same_meaning (to_typed l) inner"
    "binary inner \<longrightarrow> to_typed l = inner" by blast
  with s'(2) show ?case by (intro exI [of _ "L_Not l"]) (simp add: same_meaning_def)
next
  case (5 alnum operands)
  then show ?case by auto
next
  case (6 alnum operands)
  then show ?case by auto
next
  case (9 alnum name first rest)
  let ?C = "if name = ''and'' then P_And else P_Or"
  show ?case
  proof (cases "rest = []")
    case True
    with 9 obtain l where "s = show_legacy l" "well_named alnum l" "same_meaning (to_typed l) first"
      "binary first \<longrightarrow> to_typed l = first" by auto
    with True show ?thesis by (intro exI [of _ l]) (auto simp: same_meaning_def)
  next
    case False
    with 9(4) obtain a b where ab: "to_expr alnum first = Some a" "fold_binary alnum name rest = Some b" "s = call2 name a b"
      by (auto simp: bind_eq_Some_conv)
    from 9(2) [OF False ab(1)] obtain la where la: "a = show_legacy la" "well_named alnum la"
      "same_meaning (to_typed la) first" "binary first \<longrightarrow> to_typed la = first" by blast
    from 9(3) [OF False ab(1,2) 9(5)] obtain lb where lb: "b = show_legacy lb" "well_named alnum lb"
      "same_meaning (to_typed lb) (?C rest)" "\<forall>q. rest = [q] \<longrightarrow> binary q \<longrightarrow> to_typed lb = q" by blast
    let ?l = "(if name = ''and'' then L_And else L_Or) la lb"
    have "s = show_legacy ?l" "well_named alnum ?l" using la lb ab(3) 9(5) by auto
    moreover have "same_meaning (to_typed ?l) (?C (first # rest))"
      using la(3) lb(3) 9(5) by (auto simp: same_meaning_def)
    moreover have "to_typed ?l = ?C (first # rest)" if "length (first # rest) = 2" "list_all binary (first # rest)"
    proof -
      from that(1) obtain q where "rest = [q]" by (cases rest) auto
      with that(2) la(4) lb(4) show ?thesis by auto
    qed
    ultimately show ?thesis using False by (intro exI [of _ ?l]) auto
  qed
qed auto

section \<open>The parser returns\<close>

lemma skip_while_bounds: "pos \<le> skip_while p cs pos \<and> (pos \<le> length cs \<longrightarrow> skip_while p cs pos \<le> length cs)"
  using length_takeWhile_le [of p "drop pos cs"] by (auto simp: skip_while_eq)

lemma skip_ws_le: "pos \<le> skip_ws cs pos" "pos \<le> length cs \<Longrightarrow> skip_ws cs pos \<le> length cs"
  using skip_while_bounds [of pos is_whitespace cs] by (simp_all add: skip_ws_def)

lemma expect_bounds: "expect_char cs c pos = Inr (x, p) \<Longrightarrow> pos < p \<and> p \<le> length cs"
  using skip_ws_le(1) [of pos cs] by (auto simp: expect_char_def Let_def peek_def split: if_splits)

lemma parse_ident_bounds:
  assumes "parse_ident alnum cs pos = Inr (name, p)"
  shows "pos < p \<and> p \<le> length cs \<and> is_ident alnum name"
proof -
  let ?s = "skip_ws cs pos"
  have e: "p = ?s + length (takeWhile (ident_char alnum) (drop ?s cs))"
    and n: "name = takeWhile (ident_char alnum) (drop ?s cs)" and ne: "p \<noteq> ?s"
    using assms by (auto simp: parse_ident_def Let_def skip_while_eq takeWhile_eq_take [symmetric] split: if_splits)
  from ne e have "drop ?s cs \<noteq> []" by auto
  then have "?s < length cs" by simp
  moreover have "length (takeWhile (ident_char alnum) (drop ?s cs)) \<le> length cs - ?s"
    using length_takeWhile_le [of "ident_char alnum" "drop ?s cs"] by simp
  ultimately have "pos < p" "p \<le> length cs" using e ne skip_ws_le(1) [of pos cs] by linarith+
  then have "pos < p \<and> p \<le> length cs" by blast
  moreover from n ne e have "is_ident alnum name" by (auto simp: is_ident_def list_all_iff dest: set_takeWhileD)
  ultimately show ?thesis by blast
qed

lemma literal_loop_bounds: "literal_loop cs pos out = Inr (x, p) \<Longrightarrow> pos < p \<and> p \<le> length cs"
proof (induction "length cs - pos" arbitrary: pos out rule: less_induct)
  case less
  then have pos: "pos < length cs" by (subst (asm) literal_loop.simps) (auto simp: peek_def split: if_splits)
  consider "cs ! pos = backslash" | "cs ! pos \<noteq> backslash" "cs ! pos = quote" | "cs ! pos \<noteq> backslash" "cs ! pos \<noteq> quote"
    by blast
  then show ?case
  proof cases
    case 1
    then obtain out' where "Suc pos < length cs" "literal_loop cs (Suc (Suc pos)) out' = Inr (x, p)"
      using less(2) pos by (subst (asm) literal_loop.simps) (auto simp: peek_def split: if_splits)
    moreover have "length cs - Suc (Suc pos) < length cs - pos" using pos by simp
    ultimately have "Suc (Suc pos) < p \<and> p \<le> length cs" using less(1) by blast
    then show ?thesis by simp
  next
    case 2
    with less(2) pos show ?thesis by (subst (asm) literal_loop.simps) (auto simp: peek_def)
  next
    case 3
    with less(2) pos have "literal_loop cs (Suc pos) (out @ [cs ! pos]) = Inr (x, p)"
      by (subst (asm) literal_loop.simps) (simp add: peek_def)
    moreover have "length cs - Suc pos < length cs - pos" using pos by simp
    ultimately have "Suc pos < p \<and> p \<le> length cs" using less(1) by blast
    then show ?thesis by simp
  qed
qed

lemma parse_field_literal_bounds:
  assumes "parse_field_literal alnum cs pos = Inr ((f, l), p)"
  shows "pos < p \<and> p \<le> length cs \<and> is_ident alnum f"
proof -
  obtain p1 p2 p3 where "parse_ident alnum cs pos = Inr (f, p1)" "expect_char cs 0x2C p1 = Inr ((), p2)"
    "expect_char cs quote (skip_ws cs p2) = Inr ((), p3)" "literal_loop cs p3 [] = Inr (l, p)"
    using assms by (auto simp: parse_field_literal_def parse_string_literal_def split: sum.splits prod.splits)
  with parse_ident_bounds [of alnum cs pos f p1] expect_bounds [of cs "0x2C" p1 "()" p2] skip_ws_le(1) [of p2 cs]
    expect_bounds [of cs quote "skip_ws cs p2" "()" p3] literal_loop_bounds [of cs p3 "[]" l p]
  show ?thesis by simp
qed

text \<open>A result that a call may have: past where it started, within the text, with well-formed fields.\<close>

definition good_parse :: "(nat \<Rightarrow> bool) \<Rightarrow> utext \<Rightarrow> nat \<Rightarrow> legacy_predicate parsed \<Rightarrow> bool" where
  "good_parse alnum cs pos r \<longleftrightarrow>
     (\<forall>l p. r = Inr (l, p) \<longrightarrow> pos < p \<and> p \<le> length cs \<and> well_named alnum l)"

lemma close_good:
  assumes "\<And>x p. r = Inr (x, p) \<Longrightarrow> pos < p \<and> well_named alnum x"
  shows "good_parse alnum cs pos (close_call cs r)"
  using assms expect_bounds [of cs "0x29"]
  by (fastforce simp: good_parse_def close_call_def split: sum.splits prod.splits)

lemma parse_predicate_total: "\<exists>r. parse_predicate alnum cs pos = Some r \<and> good_parse alnum cs pos r"
proof (induction "length cs - pos" arbitrary: pos rule: less_induct)
  case less
  show ?case
  proof (cases "parse_ident alnum cs pos")
    case (Inl e)
    then show ?thesis by (subst parse_predicate.simps) (simp add: good_parse_def)
  next
    case (Inr np)
    then obtain name p1 where i: "parse_ident alnum cs pos = Inr (name, p1)" by (cases np) auto
    show ?thesis
    proof (cases "expect_char cs 0x28 p1")
      case (Inl e)
      with i show ?thesis by (subst parse_predicate.simps) (simp add: good_parse_def)
    next
      case (Inr up)
      then obtain q where q: "expect_char cs 0x28 p1 = Inr ((), q)" by (cases up) auto
      have pq: "pos < q" "q \<le> length cs"
        using parse_ident_bounds [OF i] expect_bounds [OF q] by auto
      have sub: "\<exists>r. parse_predicate alnum cs p = Some r \<and> good_parse alnum cs p r" if "pos < p" "p \<le> length cs" for p
        using that by (intro less) linarith
      from sub [OF pq] obtain r1 where r1: "parse_predicate alnum cs q = Some r1" "good_parse alnum cs q r1" by blast
      have one: "good_parse alnum cs pos (close_call cs (map_parsed f r1))"
        if "\<And>l. well_named alnum l \<Longrightarrow> well_named alnum (f l)" for f
        using that r1(2) pq by (intro close_good) (auto simp: map_parsed_def good_parse_def split: sum.splits)
      have two: "\<exists>r. parse_predicate alnum cs pos = Some r \<and> good_parse alnum cs pos r"
        if name: "name = text_of ''and'' \<and> c = L_And \<or> name = text_of ''or'' \<and> c = L_Or" for c
      proof (cases r1)
        case (Inl e)
        with name i q r1 show ?thesis
          by (subst parse_predicate.simps) (auto simp: keywords_differ good_parse_def)
      next
        case (Inr lp)
        then obtain a q1 where a: "r1 = Inr (a, q1)" by (cases lp) auto
        with r1(2) have aq: "q < q1" "q1 \<le> length cs" "well_named alnum a" by (auto simp: good_parse_def)
        show ?thesis
        proof (cases "expect_char cs 0x2C q1")
          case (Inl e)
          with name i q r1 a show ?thesis
            by (subst parse_predicate.simps) (auto simp: keywords_differ good_parse_def)
        next
          case (Inr up)
          then obtain q2 where q2: "expect_char cs 0x2C q1 = Inr ((), q2)" by (cases up) auto
          with expect_bounds [OF q2] aq pq have b: "pos < q2" "q2 \<le> length cs" by auto
          from sub [OF b] obtain r2 where r2: "parse_predicate alnum cs q2 = Some r2" "good_parse alnum cs q2 r2" by blast
          have "parse_predicate alnum cs pos = Some (close_call cs (map_parsed (c a) r2))"
            using name i parse_call(5,6) [OF q _ r1(1) [unfolded a] q2 r2(1)] by blast
          moreover have "good_parse alnum cs pos (close_call cs (map_parsed (c a) r2))"
            using name r2(2) b aq by (intro close_good) (auto simp: map_parsed_def good_parse_def split: sum.splits)
          ultimately show ?thesis by blast
        qed
      qed
      consider "name = text_of ''contains''" | "name = text_of ''equals''" | "name = text_of ''not_empty''"
        | "name = text_of ''not''" | "name = text_of ''and''" | "name = text_of ''or''"
        | "name \<notin> text_of ` {''contains'', ''equals'', ''not_empty'', ''not'', ''and'', ''or''}"
        by blast
      then show ?thesis
      proof cases
        case 1
        have "good_parse alnum cs pos (close_call cs (map_parsed (\<lambda>(f, l). L_Contains f l) (parse_field_literal alnum cs q)))"
          using pq parse_field_literal_bounds [of alnum cs q]
          by (intro close_good) (fastforce simp: map_parsed_def split: sum.splits prod.splits)
        then show ?thesis using parse_call(1) [OF q] i 1 by auto
      next
        case 2
        have "good_parse alnum cs pos (close_call cs (map_parsed (\<lambda>(f, l). L_Equals f l) (parse_field_literal alnum cs q)))"
          using pq parse_field_literal_bounds [of alnum cs q]
          by (intro close_good) (fastforce simp: map_parsed_def split: sum.splits prod.splits)
        then show ?thesis using parse_call(2) [OF q] i 2 by auto
      next
        case 3
        have "good_parse alnum cs pos (close_call cs (map_parsed L_NotEmpty (parse_ident alnum cs q)))"
          using pq parse_ident_bounds [of alnum cs q]
          by (intro close_good) (fastforce simp: map_parsed_def split: sum.splits prod.splits)
        then show ?thesis using parse_call(3) [OF q] i 3 by auto
      next
        case 4
        then show ?thesis using parse_call(4) [OF q _ r1(1)] i one [of L_Not] by auto
      next
        case 5
        then show ?thesis using two [of L_And] by blast
      next
        case 6
        then show ?thesis using two [of L_Or] by blast
      next
        case 7
        with i q show ?thesis by (subst parse_predicate.simps) (auto simp: good_parse_def)
      qed
    qed
  qed
qed

section \<open>The properties\<close>

text \<open>C23: What the printer prints, the parser reads back: as a predicate that evaluates the same on every payload,
  and prints the same; as the very predicate when all its combinators have two operands.\<close>

theorem printed_predicate_parses:
  assumes "alnum_table alnum" and "to_expr alnum p = Some s"
  shows "\<exists>q. parse_expr alnum s = Some (Inr q) \<and> to_expr alnum q = Some s \<and> (binary p \<longrightarrow> q = p) \<and>
     (\<forall>ops v prev. evaluate_predicate ops q v prev = evaluate_predicate ops p v prev)"
proof -
  from printed_form(1) [OF assms(2)] obtain l where l: "s = show_legacy l" "well_named alnum l"
    "same_meaning (to_typed l) p" "binary p \<longrightarrow> to_typed l = p" by blast
  show ?thesis
  proof (intro exI conjI)
    show "parse_expr alnum s = Some (Inr (to_typed l))" unfolding l(1) by (rule parse_expr_show [OF assms(1) l(2)])
    show "to_expr alnum (to_typed l) = Some s" unfolding l(1) by (rule to_expr_typed [OF l(2)])
    show "binary p \<longrightarrow> to_typed l = p" by (rule l(4))
    show "\<forall>ops v prev. evaluate_predicate ops (to_typed l) v prev = evaluate_predicate ops p v prev"
      using l(3) by (simp add: same_meaning_def)
  qed
qed

text \<open>C35: The parser returns on every text, with an error or a predicate; and a predicate it accepts is printed and
  parses to itself.\<close>

theorem every_text_parses_or_errs:
  assumes "alnum_table alnum"
  shows "\<exists>r :: contract_error + ('n, 'f) predicate. parse_expr alnum cs = Some r \<and>
     (case r of
        Inl e \<Rightarrow> True
      | Inr p \<Rightarrow> \<exists>s. to_expr alnum p = Some s \<and> parse_expr alnum s = Some (Inr p))"
proof -
  obtain r where r: "parse_predicate alnum cs 0 = Some r" "good_parse alnum cs 0 r"
    using parse_predicate_total by blast
  show ?thesis
  proof (cases r)
    case (Inl e)
    with r show ?thesis by (simp add: parse_expr_def)
  next
    case (Inr lp)
    then obtain l p where l: "r = Inr (l, p)" by (cases lp) auto
    with r(2) have w: "well_named alnum l" by (simp add: good_parse_def)
    let ?p = "to_typed l :: ('n, 'f) predicate"
    have e: "parse_expr alnum cs =
        (if skip_ws cs p = length cs then Some (Inr ?p) else Some (Inl (Trailing_Input (skip_ws cs p))))"
      using r(1) l by (simp add: parse_expr_def Let_def)
    have "to_expr alnum ?p = Some (show_legacy l)" "parse_expr alnum (show_legacy l) = Some (Inr ?p)"
      by (rule to_expr_typed [OF w], rule parse_expr_show [OF assms w])
    then show ?thesis unfolding e by (cases "skip_ws cs p = length cs") simp_all
  qed
qed

definition ascii_alnum :: "nat \<Rightarrow> bool" where
  "ascii_alnum c \<longleftrightarrow> 0x30 \<le> c \<and> c \<le> 0x39 \<or> 0x41 \<le> c \<and> c \<le> 0x5A \<or> 0x61 \<le> c \<and> c \<le> 0x7A"

lemma ascii_alnum_table: "alnum_table ascii_alnum"
  by (auto simp: alnum_table_def ascii_alnum_def is_whitespace_def)

definition sample_predicate :: "(unit, unit) predicate" where
  "sample_predicate =
     P_And [P_NotEmpty (text_of ''a''), P_Not (P_EqualsCi (text_of ''b'') (text_of ''it'' @ [quote] @ text_of ''s'')),
       P_ContainsCi (text_of ''c'') [backslash]]"

lemma sample_prints: "\<exists>s. to_expr ascii_alnum sample_predicate = Some s"
  by (simp add: sample_predicate_def grammar_ident_def ident_char_def ascii_alnum_def text_of_def)

theorem printed_predicate_parses_witness:
  "\<exists>s q. to_expr ascii_alnum sample_predicate = Some s \<and> parse_expr ascii_alnum s = Some (Inr q) \<and>
     (\<forall>ops v prev. evaluate_predicate ops q v prev = evaluate_predicate ops sample_predicate v prev)"
proof -
  obtain s where s: "to_expr ascii_alnum sample_predicate = Some s" using sample_prints by blast
  with printed_predicate_parses [OF ascii_alnum_table s] show ?thesis by blast
qed

theorem every_text_parses_or_errs_witness:
  "\<exists>r :: contract_error + (unit, unit) predicate. parse_expr ascii_alnum (text_of ''not_empty(a'') = Some r \<and>
     (case r of
        Inl e \<Rightarrow> True
      | Inr p \<Rightarrow> \<exists>s. to_expr ascii_alnum p = Some s \<and> parse_expr ascii_alnum s = Some (Inr p))"
  by (rule every_text_parses_or_errs [OF ascii_alnum_table])

end
