(* ===== verification/Watch_Contract.thy ===== *)
theory Watch_Contract
  imports Predicates "HOL-Library.List_Lexorder"
begin

text \<open>
  Watch contracts (\<open>ao-protocol/src/watch_contract/mod.rs\<close>) and the canonical texts under their keys
  (\<open>contract_primitives/mod.rs\<close>): the contract, its validation, and the identity and version key of an
  observed item. The digest, the regular expressions, the JSON form of a string and of a number, lower case
  and the serialization of a contract, which serde derives, are the record \<open>watch_ops\<close>.
\<close>

section \<open>The contract\<close>

datatype identity_strategy = Native_Id | Composite_Native | Content_Hash

record watch_source =
  so_kind :: utext
  so_ref :: utext

record identity_spec =
  id_strategy :: identity_strategy
  id_source_field :: "utext option"
  id_format :: "utext option"
  id_fields :: "utext list"
  id_rationale :: utext

record change_spec =
  ch_material_fields :: "utext list"
  ch_version_hint_field :: "utext option"

record ('n, 'f) predicate_spec =
  ps_natural_language :: utext
  ps_fields :: "utext list"
  ps_predicate :: "('n, 'f) predicate"

datatype watch_mode = Predicate_Transition | New_Or_Changed | New_Only

record field_spec =
  fd_type :: utext
  fd_required :: bool

text \<open>The declared fields in the order the hash map goes through them.\<close>

record ('n, 'f) watch_contract =
  wc_version :: nat
  wc_authored_at :: utext
  wc_authored_by_run :: utext
  wc_source :: watch_source
  wc_identity :: identity_spec
  wc_change :: change_spec
  wc_predicate :: "('n, 'f) predicate_spec"
  wc_mode :: watch_mode
  wc_fields :: "(utext \<times> field_spec) list"

datatype watch_error =
    Missing_Field utext
  | Missing_Fields "utext list"
  | Format_Mismatch utext utext utext
  | Invalid_Regex utext
  | Empty_Identity
  | Empty_Material_Fields
  | Identity_Material_Overlap "utext list"
  | Required_Targeted_By_Tolerant utext

text \<open>A regular expression that compiles is the set of texts it matches.\<close>

record ('n, 'f) watch_ops =
  wo_json :: "('n, 'f) json_ops"
  wo_sha256 :: "utext \<Rightarrow> utext"
  wo_regex :: "utext \<Rightarrow> utext + (utext \<Rightarrow> bool)"
  wo_json_string :: "utext \<Rightarrow> utext"
  wo_number :: "'n \<Rightarrow> utext"
  wo_to_value :: "('n, 'f) watch_contract \<Rightarrow> 'n json"

definition to_lowercase :: "('n, 'f) watch_ops \<Rightarrow> utext \<Rightarrow> utext" where
  "to_lowercase ops = jo_lower (wo_json ops)"

section \<open>Canonical texts\<close>

definition comma :: nat where "comma = 0x2C"

definition object_member :: "('n, 'f) watch_ops \<Rightarrow> (utext, utext) fmap \<Rightarrow> utext \<Rightarrow> utext" where
  "object_member ops m key =
     wo_json_string ops key @ [0x3A] @ (case fmlookup m key of Some v \<Rightarrow> v | None \<Rightarrow> [])"

primrec canonical_json :: "('n, 'f) watch_ops \<Rightarrow> 'n json \<Rightarrow> utext" where
  "canonical_json ops J_Null = text_of ''null''"
| "canonical_json ops (J_Bool b) = (if b then text_of ''true'' else text_of ''false'')"
| "canonical_json ops (J_Number n) = wo_number ops n"
| "canonical_json ops (J_String s) = wo_json_string ops s"
| "canonical_json ops (J_Array items) = [0x5B] @ join_with comma (map (canonical_json ops) items) @ [0x5D]"
| "canonical_json ops (J_Object m) =
     [0x7B] @ join_with comma
       (map (object_member ops (fmmap (canonical_json ops) m)) (sorted_list_of_fset (fmdom m))) @ [0x7D]"

definition fold_confusable :: "nat \<Rightarrow> utext" where
  "fold_confusable c =
     (if c \<in> {0x2018, 0x2019, 0x201B, 0x2032, 0xB4} then [0x27]
      else if c \<in> {0x201C, 0x201D, 0x2033} then [0x22]
      else if 0x2010 \<le> c \<and> c \<le> 0x2015 \<or> c = 0x2212 then [0x2D]
      else if c \<in> {0xA0, 0x2007, 0x202F} then [0x20]
      else if c \<in> {0x200B, 0x200C, 0x200D, 0xFEFF} then []
      else [c])"

text \<open>\<open>split_whitespace\<close>.\<close>

function words_of :: "utext \<Rightarrow> utext list" where
  "words_of [] = []"
| "words_of (c # cs) =
     (if is_whitespace c then words_of cs
      else takeWhile (\<lambda>x. \<not> is_whitespace x) (c # cs) # words_of (dropWhile (\<lambda>x. \<not> is_whitespace x) (c # cs)))"
  by pat_completeness auto

termination
  by (relation "measure length") (auto simp: le_imp_less_Suc length_dropWhile_le)

definition normalize_identity_text :: "('n, 'f) watch_ops \<Rightarrow> utext \<Rightarrow> utext" where
  "normalize_identity_text ops s =
     to_lowercase ops (join_with 0x20 (words_of (concat (map fold_confusable s))))"

primrec normalize_value_for_identity :: "('n, 'f) watch_ops \<Rightarrow> 'n json \<Rightarrow> 'n json" where
  "normalize_value_for_identity ops J_Null = J_Null"
| "normalize_value_for_identity ops (J_Bool b) = J_Bool b"
| "normalize_value_for_identity ops (J_Number n) = J_Number n"
| "normalize_value_for_identity ops (J_String s) = J_String (normalize_identity_text ops s)"
| "normalize_value_for_identity ops (J_Array items) = J_Array (map (normalize_value_for_identity ops) items)"
| "normalize_value_for_identity ops (J_Object m) = J_Object (fmmap (normalize_value_for_identity ops) m)"

definition trim_text :: "utext \<Rightarrow> utext" where
  "trim_text s = trim_end_text (dropWhile is_whitespace s)"

definition straight_quote :: "nat \<Rightarrow> nat" where
  "straight_quote c = (if c \<in> {0x2018, 0x2019} then 0x27 else if c \<in> {0x201C, 0x201D} then 0x22 else c)"

definition fold_quotes_and_trim :: "utext \<Rightarrow> utext" where
  "fold_quotes_and_trim s = map straight_quote (trim_text s)"

primrec normalize_value_for_hash :: "'n json \<Rightarrow> 'n json" where
  "normalize_value_for_hash J_Null = J_Null"
| "normalize_value_for_hash (J_Bool b) = J_Bool b"
| "normalize_value_for_hash (J_Number n) = J_Number n"
| "normalize_value_for_hash (J_String s) = J_String (fold_quotes_and_trim s)"
| "normalize_value_for_hash (J_Array items) = J_Array (map normalize_value_for_hash items)"
| "normalize_value_for_hash (J_Object m) = J_Object (fmmap normalize_value_for_hash m)"

definition fingerprint :: "('n, 'f) watch_ops \<Rightarrow> ('n, 'f) watch_contract \<Rightarrow> utext" where
  "fingerprint ops c =
     wo_sha256 ops (canonical_json ops
       (case wo_to_value ops c of
          J_Object m \<Rightarrow> J_Object (fmdrop (text_of ''authored_by_run'') (fmdrop (text_of ''authored_at'') m))
        | v \<Rightarrow> v))"

section \<open>Validation\<close>

definition is_not_empty :: "('n, 'f) predicate \<Rightarrow> bool" where
  "is_not_empty p \<longleftrightarrow> (case p of P_NotEmpty _ \<Rightarrow> True | _ \<Rightarrow> False)"

definition identity_declared :: "identity_spec \<Rightarrow> bool" where
  "identity_declared i \<longleftrightarrow>
     (case id_strategy i of
        Native_Id \<Rightarrow> \<not> blank_text (case id_source_field i of Some f \<Rightarrow> f | None \<Rightarrow> [])
      | Composite_Native \<Rightarrow> id_fields i \<noteq> []
      | Content_Hash \<Rightarrow> id_fields i \<noteq> [])"

definition format_error :: "('n, 'f) watch_ops \<Rightarrow> identity_spec \<Rightarrow> utext option" where
  "format_error ops i =
     (case id_format i of
        None \<Rightarrow> None
      | Some pattern \<Rightarrow> (case wo_regex ops pattern of Inl e \<Rightarrow> Some e | Inr _ \<Rightarrow> None))"

definition required_field :: "('n, 'f) watch_contract \<Rightarrow> utext \<Rightarrow> bool" where
  "required_field c name \<longleftrightarrow> (case map_of (wc_fields c) name of Some spec \<Rightarrow> fd_required spec | None \<Rightarrow> False)"

definition validate :: "('n, 'f) watch_ops \<Rightarrow> ('n, 'f) watch_contract \<Rightarrow> watch_error + unit" where
  "validate ops c =
     (let i = wc_identity c; material = ch_material_fields (wc_change c);
          overlap = remdups (sort (filter (\<lambda>f. f \<in> set material) (id_fields i)));
          tolerant = remdups (sort (filter (required_field c)
            (paths_matching is_not_empty (ps_predicate (wc_predicate c))))) in
      case format_error ops i of
        Some e \<Rightarrow> Inl (Invalid_Regex e)
      | None \<Rightarrow>
          if \<not> identity_declared i then Inl Empty_Identity
          else if wc_mode c \<noteq> New_Only \<and> material = [] then Inl Empty_Material_Fields
          else if overlap \<noteq> [] then Inl (Identity_Material_Overlap overlap)
          else if tolerant \<noteq> [] then Inl (Required_Targeted_By_Tolerant (hd tolerant))
          else Inr ())"

section \<open>The keys of an item\<close>

text \<open>\<open>Value::get\<close> with a string: the member of an object.\<close>

definition json_get :: "'n json \<Rightarrow> utext \<Rightarrow> 'n json option" where
  "json_get v key = (case v of J_Object m \<Rightarrow> fmlookup m key | _ \<Rightarrow> None)"

definition identity_text :: "('n, 'f) watch_contract \<Rightarrow> 'n json \<Rightarrow> utext \<Rightarrow> utext option" where
  "identity_text c payload field =
     (case json_get payload field of Some (J_String s) \<Rightarrow> if blank_text s then None else Some s | _ \<Rightarrow> None)"

definition native_id_key :: "('n, 'f) watch_ops \<Rightarrow> ('n, 'f) watch_contract \<Rightarrow> 'n json \<Rightarrow> watch_error + utext" where
  "native_id_key ops c payload =
     (case id_source_field (wc_identity c) of
        None \<Rightarrow> Inl (Missing_Field (text_of ''identity.source_field''))
      | Some field \<Rightarrow>
          (case identity_text c payload field of
             None \<Rightarrow> Inl (Missing_Field field)
           | Some raw \<Rightarrow>
               (case id_format (wc_identity c) of
                  None \<Rightarrow> Inr (wo_sha256 ops (normalize_identity_text ops raw))
                | Some pattern \<Rightarrow>
                    (case wo_regex ops pattern of
                       Inl e \<Rightarrow> Inl (Invalid_Regex e)
                     | Inr matches \<Rightarrow>
                         if matches raw then Inr (wo_sha256 ops (normalize_identity_text ops raw))
                         else Inl (Format_Mismatch field raw pattern)))))"

text \<open>The loop over the identity fields: the first one that is absent or null ends it.\<close>

fun identity_members ::
    "('n, 'f) watch_ops \<Rightarrow> 'n json \<Rightarrow> utext list \<Rightarrow> watch_error + (utext \<times> 'n json) list" where
  "identity_members ops payload [] = Inr []"
| "identity_members ops payload (field # rest) =
     (case json_get payload field of
        None \<Rightarrow> Inl (Missing_Field field)
      | Some value \<Rightarrow>
          if value = J_Null then Inl (Missing_Field field)
          else (case identity_members ops payload rest of
                  Inl e \<Rightarrow> Inl e
                | Inr ms \<Rightarrow> Inr ((field, normalize_value_for_identity ops value) # ms)))"

definition key_join :: nat where "key_join = 0x1F"

text \<open>An object filled by inserting members one after the other.\<close>

definition object_of :: "(utext \<times> 'n json) list \<Rightarrow> 'n json" where
  "object_of ms = J_Object (fold (\<lambda>(k, v) m. fmupd k v m) ms fmempty)"

definition composite_native_key ::
    "('n, 'f) watch_ops \<Rightarrow> ('n, 'f) watch_contract \<Rightarrow> 'n json \<Rightarrow> watch_error + utext" where
  "composite_native_key ops c payload =
     (if id_fields (wc_identity c) = [] then Inl Empty_Identity
      else case identity_members ops payload (id_fields (wc_identity c)) of
             Inl e \<Rightarrow> Inl e
           | Inr ms \<Rightarrow> Inr (wo_sha256 ops (join_with key_join (map (\<lambda>(k, v). canonical_json ops v) ms))))"

definition content_hash_key ::
    "('n, 'f) watch_ops \<Rightarrow> ('n, 'f) watch_contract \<Rightarrow> 'n json \<Rightarrow> watch_error + utext" where
  "content_hash_key ops c payload =
     (if id_fields (wc_identity c) = [] then Inl Empty_Identity
      else case identity_members ops payload (id_fields (wc_identity c)) of
             Inl e \<Rightarrow> Inl e
           | Inr ms \<Rightarrow> Inr (wo_sha256 ops (canonical_json ops (object_of ms))))"

definition identity_key ::
    "('n, 'f) watch_ops \<Rightarrow> ('n, 'f) watch_contract \<Rightarrow> 'n json \<Rightarrow> watch_error + utext" where
  "identity_key ops c payload =
     (case id_strategy (wc_identity c) of
        Native_Id \<Rightarrow> native_id_key ops c payload
      | Composite_Native \<Rightarrow> composite_native_key ops c payload
      | Content_Hash \<Rightarrow> content_hash_key ops c payload)"

definition material_value :: "'n json \<Rightarrow> utext \<Rightarrow> 'n json" where
  "material_value payload field =
     (case json_get payload field of Some v \<Rightarrow> normalize_value_for_hash v | None \<Rightarrow> J_Null)"

definition version_key :: "('n, 'f) watch_ops \<Rightarrow> ('n, 'f) watch_contract \<Rightarrow> 'n json \<Rightarrow> watch_error + utext" where
  "version_key ops c payload =
     Inr (wo_sha256 ops (canonical_json ops
       (object_of (map (\<lambda>f. (f, material_value payload f)) (ch_material_fields (wc_change c))))))"

definition contract_matches ::
    "('n, 'f) watch_ops \<Rightarrow> ('n, 'f) watch_contract \<Rightarrow> 'n json \<Rightarrow> 'n json option \<Rightarrow> bool" where
  "contract_matches ops c payload previous =
     evaluate_predicate (wo_json ops) (ps_predicate (wc_predicate c)) payload previous"

definition missing_required_fields :: "('n, 'f) watch_contract \<Rightarrow> 'n json \<Rightarrow> utext list" where
  "missing_required_fields c payload =
     map fst (filter (\<lambda>(name, spec). fd_required spec \<and>
       (case json_get payload name of
          None \<Rightarrow> True
        | Some J_Null \<Rightarrow> True
        | Some (J_String s) \<Rightarrow> blank_text s
        | Some _ \<Rightarrow> False)) (wc_fields c))"

end
