(* ===== verification/Watch_Ledger.thy ===== *)
theory Watch_Ledger
  imports Watch_Contract
begin

text \<open>
  The scratchpad of an assignment (\<open>ao-protocol/src/assignment_scratchpad.rs\<close>): what a watch remembers
  between two polls - the ledger of deliveries and actions, the snapshots of the items it saw, the
  state of its authoring and of its extraction plan - with every operation on it; the extraction plans it
  holds are those of \<open>extractor_contract/mod.rs\<close>. Times are in nanoseconds.
\<close>

section \<open>Extraction plans\<close>

datatype extractor_kind =
    Json_Path utext
  | Regex_Capture utext utext
  | Hash_Content
  | Table utext "utext list" "utext list"

datatype tier = Deterministic | Probabilistic | Change_Detection_Only

definition infer_tier :: "bool \<Rightarrow> bool \<Rightarrow> extractor_kind \<Rightarrow> tier" where
  "infer_tier has_structured_content server_declared_output_schema kind =
     (case kind of
        Hash_Content \<Rightarrow> Change_Detection_Only
      | Json_Path _ \<Rightarrow>
          if has_structured_content \<and> server_declared_output_schema then Deterministic else Probabilistic
      | Regex_Capture _ _ \<Rightarrow> Probabilistic
      | Table _ _ _ \<Rightarrow> Probabilistic)"

record selector =
  se_kind :: extractor_kind
  se_expr :: utext

record ('n, 'f) extraction_plan =
  ep_selector :: selector
  ep_identity :: extractor_kind
  ep_predicate :: "('n, 'f) predicate"

section \<open>The scratchpad\<close>

datatype extraction_path = Path_Unbound | Path_Llm | Path_Deterministic | Path_Probabilistic

datatype delivery_status = Delivery_Pending | Delivery_Confirmed

record seen_delivery =
  sd_id :: utext
  sd_seen_at :: int
  sd_permanent :: bool
  sd_status :: delivery_status
  sd_run_id :: "utext option"
  sd_identity_key :: "utext option"
  sd_stale_notified :: bool
  sd_pending_poll_count :: "32 word"

record 'n item_snapshot =
  is_identity_key :: utext
  is_version_key :: utext
  is_predicate_value :: bool
  is_edge_counter :: "32 word"
  is_last_seen_at :: utext
  is_payload :: "'n json"

record ('n, 'f) scratchpad =
  sp_last_seen_id :: "utext option"
  sp_seen_ids :: "utext list"
  sp_seen_deliveries :: "seen_delivery list"
  sp_snapshots :: "'n item_snapshot list"
  sp_contract_fingerprint :: "utext option"
  sp_identity_keygen_version :: "nat option"
  sp_missing_required_field_streak :: "32 word"
  sp_truncation_notified :: bool
  sp_authoring_failure_streak :: "32 word"
  sp_last_authoring_rejection_reason :: "utext option"
  sp_authoring_rejection_history :: "utext list"
  sp_contract_bound_after_failed_attempts :: "32 word option"
  sp_identity_probe_inconclusive :: bool
  sp_identity_probe_inconclusive_reason :: "utext option"
  sp_authoring_input_fingerprint :: "utext option"
  sp_contract_amendment_cycle_count :: "32 word"
  sp_last_extraction_path :: extraction_path
  sp_last_inferred_tier :: "tier option"
  sp_extraction_plan :: "('n, 'f) extraction_plan option"
  sp_extraction_plan_fingerprint :: "utext option"
  sp_extraction_plan_degraded :: bool
  sp_extraction_plan_degraded_reason :: "utext option"
  sp_extraction_plan_expected_item_count :: "nat option"
  sp_extraction_plan_expected_fields :: "utext fset option"
  sp_model_calls_by_day :: "(utext, 32 word) fmap"
  sp_consecutive_polls_without_new_items :: "32 word"
  sp_last_new_item_at :: "utext option"
  sp_last_poll_observed_candidates :: "32 word"
  sp_last_poll_surviving_candidates :: "32 word"
  sp_all_candidates_quarantined_streak :: "32 word"

definition default_scratchpad :: "('n, 'f) scratchpad" where
  "default_scratchpad =
     \<lparr>sp_last_seen_id = None, sp_seen_ids = [], sp_seen_deliveries = [], sp_snapshots = [],
      sp_contract_fingerprint = None, sp_identity_keygen_version = None,
      sp_missing_required_field_streak = 0, sp_truncation_notified = False,
      sp_authoring_failure_streak = 0, sp_last_authoring_rejection_reason = None,
      sp_authoring_rejection_history = [], sp_contract_bound_after_failed_attempts = None,
      sp_identity_probe_inconclusive = False, sp_identity_probe_inconclusive_reason = None,
      sp_authoring_input_fingerprint = None, sp_contract_amendment_cycle_count = 0,
      sp_last_extraction_path = Path_Unbound, sp_last_inferred_tier = None, sp_extraction_plan = None,
      sp_extraction_plan_fingerprint = None, sp_extraction_plan_degraded = False,
      sp_extraction_plan_degraded_reason = None, sp_extraction_plan_expected_item_count = None,
      sp_extraction_plan_expected_fields = None, sp_model_calls_by_day = fmempty,
      sp_consecutive_polls_without_new_items = 0, sp_last_new_item_at = None,
      sp_last_poll_observed_candidates = 0, sp_last_poll_surviving_candidates = 0,
      sp_all_candidates_quarantined_streak = 0\<rparr>"

section \<open>The ledger\<close>

definition delivery_id_ttl :: int where "delivery_id_ttl = 3600 * 10 ^ 9"

text \<open>A time ahead of \<open>now\<close> is fresh: \<open>duration_since\<close> fails.\<close>

definition delivery_expired :: "int \<Rightarrow> int \<Rightarrow> bool" where
  "delivery_expired seen_at now \<longleftrightarrow> seen_at \<le> now \<and> delivery_id_ttl \<le> now - seen_at"

definition live_delivery :: "int \<Rightarrow> seen_delivery \<Rightarrow> bool" where
  "live_delivery now d \<longleftrightarrow> sd_permanent d \<or> \<not> delivery_expired (sd_seen_at d) now"

definition has_seen_delivery :: "utext \<Rightarrow> int \<Rightarrow> ('n, 'f) scratchpad \<Rightarrow> bool" where
  "has_seen_delivery key now pad \<longleftrightarrow>
     list_ex (\<lambda>d. sd_id d = key \<and> live_delivery now d) (sp_seen_deliveries pad)"

definition new_entry :: "utext \<Rightarrow> int \<Rightarrow> bool \<Rightarrow> delivery_status \<Rightarrow> utext option \<Rightarrow> seen_delivery" where
  "new_entry key now permanent status item =
     \<lparr>sd_id = key, sd_seen_at = now, sd_permanent = permanent, sd_status = status, sd_run_id = None,
      sd_identity_key = item, sd_stale_notified = False, sd_pending_poll_count = 0\<rparr>"

definition record_delivery :: "utext \<Rightarrow> int \<Rightarrow> ('n, 'f) scratchpad \<Rightarrow> ('n, 'f) scratchpad" where
  "record_delivery key now pad =
     pad\<lparr>sp_seen_deliveries :=
       filter (live_delivery now) (sp_seen_deliveries pad) @ [new_entry key now False Delivery_Confirmed None]\<rparr>"

definition record_action :: "utext \<Rightarrow> int \<Rightarrow> ('n, 'f) scratchpad \<Rightarrow> ('n, 'f) scratchpad" where
  "record_action key now pad =
     pad\<lparr>sp_seen_deliveries :=
       filter (live_delivery now) (sp_seen_deliveries pad) @ [new_entry key now True Delivery_Confirmed None]\<rparr>"

definition record_pending_action ::
    "utext \<Rightarrow> utext \<Rightarrow> int \<Rightarrow> ('n, 'f) scratchpad \<Rightarrow> ('n, 'f) scratchpad" where
  "record_pending_action key item now pad =
     pad\<lparr>sp_seen_deliveries :=
       filter (\<lambda>d. sd_id d \<noteq> key \<and> live_delivery now d) (sp_seen_deliveries pad)
         @ [new_entry key now True Delivery_Pending (Some item)]\<rparr>"

text \<open>The first entry of a key, when it is pending, is changed; the Boolean result is not used by any caller.\<close>

definition modify_pending ::
    "(seen_delivery \<Rightarrow> seen_delivery) \<Rightarrow> utext \<Rightarrow> ('n, 'f) scratchpad \<Rightarrow> ('n, 'f) scratchpad" where
  "modify_pending f key pad =
     pad\<lparr>sp_seen_deliveries :=
       modify_first (\<lambda>d. sd_id d = key) (\<lambda>d. if sd_status d = Delivery_Pending then f d else d)
         (sp_seen_deliveries pad)\<rparr>"

definition attach_dispatch_run :: "utext \<Rightarrow> utext \<Rightarrow> ('n, 'f) scratchpad \<Rightarrow> ('n, 'f) scratchpad" where
  "attach_dispatch_run key run_id = modify_pending (sd_run_id_update (\<lambda>_. Some run_id)) key"

definition confirm_pending_delivery :: "utext \<Rightarrow> ('n, 'f) scratchpad \<Rightarrow> ('n, 'f) scratchpad" where
  "confirm_pending_delivery =
     modify_pending (\<lambda>d. d\<lparr>sd_status := Delivery_Confirmed, sd_run_id := None, sd_identity_key := None\<rparr>)"

definition clear_pending_delivery :: "utext \<Rightarrow> ('n, 'f) scratchpad \<Rightarrow> ('n, 'f) scratchpad" where
  "clear_pending_delivery key pad =
     pad\<lparr>sp_seen_deliveries := filter (\<lambda>d. sd_id d \<noteq> key) (sp_seen_deliveries pad)\<rparr>"

section \<open>Snapshots and counters\<close>

definition snapshot_cap :: nat where "snapshot_cap = 2000"

text \<open>The second component is the number of the oldest snapshots that were dropped.\<close>

definition record_item_snapshot ::
    "'n item_snapshot \<Rightarrow> ('n, 'f) scratchpad \<Rightarrow> ('n, 'f) scratchpad \<times> nat" where
  "record_item_snapshot snapshot pad =
     (let ss = filter (\<lambda>s. is_identity_key s \<noteq> is_identity_key snapshot) (sp_snapshots pad) @ [snapshot];
          dropped = length ss - snapshot_cap in
      (pad\<lparr>sp_snapshots := drop dropped ss\<rparr>, dropped))"

definition clear_extraction_plan :: "('n, 'f) scratchpad \<Rightarrow> ('n, 'f) scratchpad" where
  "clear_extraction_plan pad =
     pad\<lparr>sp_extraction_plan := None, sp_extraction_plan_fingerprint := None,
         sp_extraction_plan_expected_item_count := None, sp_extraction_plan_expected_fields := None\<rparr>"

definition invalidate_watch_contract_state :: "('n, 'f) scratchpad \<Rightarrow> ('n, 'f) scratchpad" where
  "invalidate_watch_contract_state pad =
     (clear_extraction_plan pad)\<lparr>sp_snapshots := [], sp_contract_fingerprint := None,
         sp_identity_keygen_version := None, sp_missing_required_field_streak := 0,
         sp_truncation_notified := False, sp_authoring_failure_streak := 0,
         sp_last_authoring_rejection_reason := None, sp_authoring_rejection_history := [],
         sp_contract_bound_after_failed_attempts := None, sp_identity_probe_inconclusive := False,
         sp_identity_probe_inconclusive_reason := None, sp_authoring_input_fingerprint := None,
         sp_contract_amendment_cycle_count := 0, sp_last_extraction_path := Path_Unbound,
         sp_last_inferred_tier := None, sp_extraction_plan_degraded := False,
         sp_extraction_plan_degraded_reason := None, sp_last_poll_observed_candidates := 0,
         sp_last_poll_surviving_candidates := 0, sp_all_candidates_quarantined_streak := 0\<rparr>"

definition model_call_day_bucket_cap :: nat where "model_call_day_bucket_cap = 30"

text \<open>\<open>saturating_add\<close> on \<open>u32\<close>.\<close>

definition sat_add :: "32 word \<Rightarrow> 32 word \<Rightarrow> 32 word" where
  "sat_add a b = (if unat a + unat b < 2 ^ 32 then a + b else - 1)"

text \<open>The loop that drops the oldest day while there are too many.\<close>

function trim_days :: "(utext, 32 word) fmap \<Rightarrow> (utext, 32 word) fmap" where
  "trim_days m =
     (if model_call_day_bucket_cap < fcard (fmdom m)
      then trim_days (fmdrop (hd (sorted_list_of_fset (fmdom m))) m) else m)"
  by pat_completeness auto

termination
proof (relation "measure (\<lambda>m. fcard (fmdom m))", simp)
  fix m :: "(utext, 32 word) fmap"
  assume c: "model_call_day_bucket_cap < fcard (fmdom m)"
  then have "fmdom m \<noteq> {||}" by (auto simp: model_call_day_bucket_cap_def fcard_fempty)
  then have "sorted_list_of_fset (fmdom m) \<noteq> []" by (metis fset_of_list_simps(1) sorted_list_of_fset_simps(2))
  then have "hd (sorted_list_of_fset (fmdom m)) |\<in>| fmdom m"
    using hd_in_set by fastforce
  with c show "(fmdrop (hd (sorted_list_of_fset (fmdom m))) m, m) \<in> measure (\<lambda>m. fcard (fmdom m))"
    by (simp add: fcard_fminus1_less)
qed

declare trim_days.simps [simp del]

definition record_additional_model_calls ::
    "utext \<Rightarrow> 32 word \<Rightarrow> ('n, 'f) scratchpad \<Rightarrow> ('n, 'f) scratchpad" where
  "record_additional_model_calls date extra pad =
     (if extra = 0 then pad
      else
        (let m = sp_model_calls_by_day pad;
             count = (case fmlookup m date of Some n \<Rightarrow> n | None \<Rightarrow> 0) in
         pad\<lparr>sp_model_calls_by_day := trim_days (fmupd date (sat_add count extra) m)\<rparr>))"

definition record_model_call :: "utext \<Rightarrow> ('n, 'f) scratchpad \<Rightarrow> ('n, 'f) scratchpad" where
  "record_model_call date = record_additional_model_calls date 1"

definition record_poll_outcome :: "bool \<Rightarrow> utext \<Rightarrow> ('n, 'f) scratchpad \<Rightarrow> ('n, 'f) scratchpad" where
  "record_poll_outcome fired_new_item now pad =
     (if fired_new_item then pad\<lparr>sp_consecutive_polls_without_new_items := 0, sp_last_new_item_at := Some now\<rparr>
      else pad\<lparr>sp_consecutive_polls_without_new_items := sat_inc (sp_consecutive_polls_without_new_items pad)\<rparr>)"

text \<open>The key of an action: who, in which version, on which entry into the matching state.\<close>

definition delivery_key ::
    "('n, 'f) watch_ops \<Rightarrow> utext \<Rightarrow> utext \<Rightarrow> utext \<Rightarrow> 32 word \<Rightarrow> utext" where
  "delivery_key ops assignment item version edge =
     wo_sha256 ops (join_with key_join [assignment, item, version, text_of (decimal (unat edge))])"

end
