(* ===== verification/Watch_Tick.thy ===== *)
theory Watch_Tick
  imports Watch_Ledger
begin

text \<open>
  One poll of an agent watch (\<open>ao-engine/src/agent_watch.rs\<close>): the reconciliation of the deliveries that are
  still pending, the contract-bound tick, the tick of a watch that has no contract, and what the poll leaves on
  disk and on the event bus.

  An observation is what the detector or the extraction plan found; the outcome of the dispatch, of the
  writes and of the look-up of runs, and the clock, are the record \<open>watch_env\<close>. A panic is the value \<open>None\<close>.
\<close>

section \<open>Observations, events and the world\<close>

record 'n candidate =
  ca_id :: utext
  ca_summary :: utext
  ca_payload :: "'n json"

record 'n trigger_event_context =
  tc_summary :: utext
  tc_payload :: "'n json"

datatype run_status = Run_Queued | Run_Running | Run_Succeeded | Run_Failed

text \<open>The health events, by their message; \<open>Ev_Observation\<close> is one of those that come with an observation.\<close>

datatype watch_event =
    Ev_Retried utext "32 word"
  | Ev_Reseeded
  | Ev_Quarantined utext utext
  | Ev_Truncated nat "(nat \<times> utext list \<times> nat) option"
  | Ev_Seeded "nat \<times> utext list \<times> nat"
  | Ev_All_Quarantined "32 word" utext
  | Ev_Amending "32 word"
  | Ev_Stopped_Amending
  | Ev_Dispatch_Failed "utext list" utext
  | Ev_Legacy_Dispatch_Failed nat utext
  | Ev_Authoring_Resumed
  | Ev_Authoring_Stopped "utext option"
  | Ev_Observation utext

text \<open>\<open>en_run\<close> is the look-up of a run (\<open>Inl\<close> when it fails), \<open>en_fire\<close> the result of \<open>fire_assignment\<close>, an
  error or the id of the run; \<open>en_load\<close> and the last four are whether the reading of the scratchpad and the
  writes succeed.\<close>

record watch_env =
  en_run :: "utext \<Rightarrow> unit + run_status option"
  en_load :: bool
  en_now :: utext
  en_date :: utext
  en_clock :: int
  en_fire :: "utext + utext"
  en_reset_write :: bool
  en_first_write :: bool
  en_second_write :: bool
  en_update :: bool

record ('n, 'f) watch_world =
  ww_saved :: "('n, 'f) scratchpad option"
  ww_contract :: "('n, 'f) watch_contract option"
  ww_extraction_tool :: "utext option"
  ww_extraction_args :: "'n json option"
  ww_events :: "watch_event list"
  ww_fired :: "('n trigger_event_context \<times> (utext + utext)) list"

definition emit_health_events :: "watch_event list \<Rightarrow> ('n, 'f) watch_world \<Rightarrow> ('n, 'f) watch_world" where
  "emit_health_events evs w = w\<lparr>ww_events := ww_events w @ evs\<rparr>"

definition save :: "bool \<Rightarrow> ('n, 'f) scratchpad \<Rightarrow> ('n, 'f) watch_world \<Rightarrow> ('n, 'f) watch_world" where
  "save succeeds pad w = (if succeeds then w\<lparr>ww_saved := Some pad\<rparr> else w)"

definition set_assignment_contract ::
    "bool \<Rightarrow> ('n, 'f) watch_contract option \<Rightarrow> utext option \<Rightarrow> 'n json option \<Rightarrow>
     ('n, 'f) watch_world \<Rightarrow> ('n, 'f) watch_world" where
  "set_assignment_contract succeeds c tool args w =
     (if succeeds then w\<lparr>ww_contract := c, ww_extraction_tool := tool, ww_extraction_args := args\<rparr> else w)"

section \<open>Pending deliveries\<close>

definition retry_poll_threshold :: "32 word" where "retry_poll_threshold = 3"

definition reached_terminal_status :: "watch_env \<Rightarrow> utext option \<Rightarrow> bool" where
  "reached_terminal_status env run_id \<longleftrightarrow>
     (case run_id of
        None \<Rightarrow> False
      | Some r \<Rightarrow> (case en_run env r of Inr (Some st) \<Rightarrow> st \<in> {Run_Succeeded, Run_Failed} | _ \<Rightarrow> False))"

text \<open>One turn of the loop: the entry is looked up by its index, which panics when there is none.\<close>

definition reconcile_at ::
    "watch_env \<Rightarrow> nat \<Rightarrow> ('n, 'f) scratchpad \<Rightarrow> (watch_event list \<times> ('n, 'f) scratchpad) option" where
  "reconcile_at env i pad =
     (if length (sp_seen_deliveries pad) \<le> i then None
      else
        (let d = sp_seen_deliveries pad ! i in
         if reached_terminal_status env (sd_run_id d) then Some ([], confirm_pending_delivery (sd_id d) pad)
         else
           (let count = sat_inc (sd_pending_poll_count d);
                pad' = pad\<lparr>sp_seen_deliveries :=
                  (sp_seen_deliveries pad)[i := d\<lparr>sd_pending_poll_count := count\<rparr>]\<rparr> in
            if count \<le> retry_poll_threshold then Some ([], pad')
            else
              (let item = (case sd_identity_key d of Some k \<Rightarrow> k | None \<Rightarrow> text_of ''<unknown item>'');
                   cleared = clear_pending_delivery (sd_id d) pad' in
               Some ([Ev_Retried item count],
                 cleared\<lparr>sp_snapshots := filter (\<lambda>s. is_identity_key s \<noteq> item) (sp_snapshots cleared)\<rparr>)))))"

fun reconcile_loop ::
    "watch_env \<Rightarrow> nat list \<Rightarrow> ('n, 'f) scratchpad \<Rightarrow> watch_event list \<times> ('n, 'f) scratchpad option" where
  "reconcile_loop env [] pad = ([], Some pad)"
| "reconcile_loop env (i # is) pad =
     (case reconcile_at env i pad of
        None \<Rightarrow> ([], None)
      | Some (evs, pad') \<Rightarrow> (case reconcile_loop env is pad' of (evs', r) \<Rightarrow> (evs @ evs', r)))"

definition pending_indices :: "seen_delivery list \<Rightarrow> nat list" where
  "pending_indices ds = filter (\<lambda>i. sd_status (ds ! i) = Delivery_Pending) [0..<length ds]"

definition reconcile_pending_deliveries ::
    "watch_env \<Rightarrow> ('n, 'f) scratchpad \<Rightarrow> watch_event list \<times> ('n, 'f) scratchpad option" where
  "reconcile_pending_deliveries env pad =
     reconcile_loop env (pending_indices (sp_seen_deliveries pad)) pad"

section \<open>One candidate\<close>

text \<open>The quarantine checks: a field that is required and missing, then the keys.\<close>

definition candidate_keys ::
    "('n, 'f) watch_ops \<Rightarrow> ('n, 'f) watch_contract \<Rightarrow> 'n json \<Rightarrow> watch_error + utext \<times> utext" where
  "candidate_keys ops c payload =
     (if missing_required_fields c payload \<noteq> [] then Inl (Missing_Fields (missing_required_fields c payload))
      else case identity_key ops c payload of
             Inl e \<Rightarrow> Inl e
           | Inr item \<Rightarrow>
               (case version_key ops c payload of Inl e \<Rightarrow> Inl e | Inr version \<Rightarrow> Inr (item, version)))"

definition should_fire :: "watch_mode \<Rightarrow> 'n item_snapshot option \<Rightarrow> utext \<Rightarrow> bool \<Rightarrow> bool" where
  "should_fire mode prev version transitioned =
     (case mode of
        Predicate_Transition \<Rightarrow> transitioned
      | New_Or_Changed \<Rightarrow> (case prev of Some p \<Rightarrow> is_version_key p \<noteq> version | None \<Rightarrow> True)
      | New_Only \<Rightarrow> prev = None)"

text \<open>What the loop over the candidates accumulates. A reason is the display of its error.\<close>

record ('n, 'f) tally =
  ta_pad :: "('n, 'f) scratchpad"
  ta_fire :: "('n candidate \<times> utext \<times> utext) list"
  ta_missing :: bool
  ta_surviving :: "32 word"
  ta_reasons :: "(utext \<times> 32 word) list"
  ta_dropped :: nat
  ta_seeded :: "'n candidate list"
  ta_events :: "watch_event list"

fun bump_reason :: "utext \<Rightarrow> (utext \<times> 32 word) list \<Rightarrow> (utext \<times> 32 word) list" where
  "bump_reason r [] = [(r, 1)]"
| "bump_reason r ((s, n) # counts) = (if s = r then (s, n + 1) # counts else (s, n) # bump_reason r counts)"

definition quarantine ::
    "(watch_error \<Rightarrow> utext) \<Rightarrow> 'n candidate \<Rightarrow> watch_error \<Rightarrow> ('n, 'f) tally \<Rightarrow> ('n, 'f) tally" where
  "quarantine display cand e t =
     t\<lparr>ta_missing := ta_missing t \<or> (case e of Missing_Fields _ \<Rightarrow> True | _ \<Rightarrow> False),
       ta_reasons := bump_reason (display e) (ta_reasons t),
       ta_events := ta_events t @ [Ev_Quarantined (ca_id cand) (display e)]\<rparr>"

definition find_snapshot :: "utext \<Rightarrow> ('n, 'f) scratchpad \<Rightarrow> 'n item_snapshot option" where
  "find_snapshot item pad = find (\<lambda>s. is_identity_key s = item) (sp_snapshots pad)"

definition edge_of :: "'n item_snapshot option \<Rightarrow> 32 word" where
  "edge_of prev = (case prev of Some p \<Rightarrow> is_edge_counter p | None \<Rightarrow> 0)"

text \<open>The snapshot the candidate leaves, and the delivery it asks for before the ledger is consulted.\<close>

record tick_mode =
  tm_seed_only :: bool
  tm_suppress_fire :: bool

definition entered :: "'n item_snapshot option \<Rightarrow> bool \<Rightarrow> bool" where
  "entered prev matching \<longleftrightarrow> matching \<and> \<not> (case prev of Some p \<Rightarrow> is_predicate_value p | None \<Rightarrow> False)"

definition next_edge :: "tick_mode \<Rightarrow> 'n item_snapshot option \<Rightarrow> bool \<Rightarrow> 32 word" where
  "next_edge tm prev matching =
     (if tm_seed_only tm then 0 else edge_of prev + (if entered prev matching then 1 else 0))"

definition new_snapshot ::
    "watch_env \<Rightarrow> utext \<Rightarrow> utext \<Rightarrow> bool \<Rightarrow> 32 word \<Rightarrow> 'n json \<Rightarrow> 'n item_snapshot" where
  "new_snapshot env item version matching edge payload =
     \<lparr>is_identity_key = item, is_version_key = version, is_predicate_value = matching, is_edge_counter = edge,
      is_last_seen_at = en_now env, is_payload = payload\<rparr>"

definition judge_item ::
    "('n, 'f) watch_ops \<Rightarrow> utext \<Rightarrow> watch_env \<Rightarrow> ('n, 'f) watch_contract \<Rightarrow> tick_mode \<Rightarrow>
     utext \<Rightarrow> utext \<Rightarrow> 'n candidate \<Rightarrow> ('n, 'f) tally \<Rightarrow> ('n, 'f) tally" where
  "judge_item ops aid env c tm item version cand t =
     (let prev = find_snapshot item (ta_pad t);
          matching = contract_matches ops c (ca_payload cand) (map_option is_payload prev);
          edge = next_edge tm prev matching;
          fire = (\<not> tm_suppress_fire tm \<and> should_fire (wc_mode c) prev version (entered prev matching));
          key = delivery_key ops aid item version edge in
      case record_item_snapshot (new_snapshot env item version matching edge (ca_payload cand)) (ta_pad t) of
        (pad, dropped) \<Rightarrow>
          t\<lparr>ta_pad := pad,
            ta_surviving := ta_surviving t + 1,
            ta_dropped := ta_dropped t + dropped,
            ta_seeded := (if tm_seed_only tm \<and> matching then ta_seeded t @ [cand] else ta_seeded t),
            ta_fire := (if fire \<and> \<not> has_seen_delivery key (en_clock env) pad
                        then ta_fire t @ [(cand, key, item)] else ta_fire t)\<rparr>)"

definition judge_candidate ::
    "('n, 'f) watch_ops \<Rightarrow> (watch_error \<Rightarrow> utext) \<Rightarrow> utext \<Rightarrow> watch_env \<Rightarrow> ('n, 'f) watch_contract \<Rightarrow> tick_mode \<Rightarrow>
     'n candidate \<Rightarrow> ('n, 'f) tally \<Rightarrow> ('n, 'f) tally" where
  "judge_candidate ops display aid env c tm cand t =
     (case candidate_keys ops c (ca_payload cand) of
        Inl e \<Rightarrow> quarantine display cand e t
      | Inr (item, version) \<Rightarrow> judge_item ops aid env c tm item version cand t)"

definition start_tally :: "('n, 'f) scratchpad \<Rightarrow> ('n, 'f) tally" where
  "start_tally pad =
     \<lparr>ta_pad = pad, ta_fire = [], ta_missing = False, ta_surviving = 0, ta_reasons = [], ta_dropped = 0,
      ta_seeded = [], ta_events = []\<rparr>"

section \<open>The end of a poll\<close>

definition seed_disclosure_max_named :: nat where "seed_disclosure_max_named = 5"
definition seed_disclosure_summary_chars :: nat where "seed_disclosure_summary_chars = 120"

definition disclosed_summary :: "utext \<Rightarrow> utext" where
  "disclosed_summary s =
     (if seed_disclosure_summary_chars < length s
      then take seed_disclosure_summary_chars s @ text_of ''...'' else s)"

text \<open>How many items matched already, the summaries of the first, and how many more there are.\<close>

definition seed_baseline_disclosure_message :: "'n candidate list \<Rightarrow> nat \<times> utext list \<times> nat" where
  "seed_baseline_disclosure_message matches =
     (length matches,
      map (\<lambda>c. disclosed_summary (ca_summary c)) (take seed_disclosure_max_named matches),
      length matches - seed_disclosure_max_named)"

text \<open>The most frequent reason, of equally frequent ones the smallest.\<close>

definition better_reason :: "utext \<times> 32 word \<Rightarrow> utext \<times> 32 word \<Rightarrow> bool" where
  "better_reason a b \<longleftrightarrow> snd b < snd a \<or> snd a = snd b \<and> fst a \<le> fst b"

definition dominant_quarantine_reason :: "(utext \<times> 32 word) list \<Rightarrow> utext" where
  "dominant_quarantine_reason counts =
     (case counts of
        [] \<Rightarrow> text_of ''unknown reason''
      | c # cs \<Rightarrow> fst (fold (\<lambda>x best. if better_reason x best then x else best) cs c))"

text \<open>The disclosures of a poll. A truncation is reported once, together with the seeded items, until the
  snapshots are below their cap.\<close>

definition disclose ::
    "('n, 'f) tally \<Rightarrow> ('n, 'f) scratchpad \<times> watch_event list \<Rightarrow> ('n, 'f) scratchpad \<times> watch_event list" where
  "disclose t = (\<lambda>(pad, evs).
     let seeded = (if ta_seeded t = [] then None else Some (seed_baseline_disclosure_message (ta_seeded t)));
         truncated = (0 < ta_dropped t \<and> \<not> sp_truncation_notified pad);
         notified = (if length (sp_snapshots pad) < snapshot_cap then False
                     else truncated \<or> sp_truncation_notified pad) in
     (pad\<lparr>sp_truncation_notified := notified\<rparr>,
      evs @ (if truncated then [Ev_Truncated (ta_dropped t) seeded]
             else case seeded of Some m \<Rightarrow> [Ev_Seeded m] | None \<Rightarrow> [])))"

definition count_poll ::
    "'n candidate list \<Rightarrow> ('n, 'f) tally \<Rightarrow> ('n, 'f) scratchpad \<times> watch_event list \<Rightarrow>
     ('n, 'f) scratchpad \<times> watch_event list" where
  "count_poll cands t = (\<lambda>(pad, evs).
     let observed = of_nat (length cands);
         missing = (if cands = [] then sp_missing_required_field_streak pad
                    else if ta_missing t then sat_inc (sp_missing_required_field_streak pad) else 0);
         quarantined = (if cands = [] then sp_all_candidates_quarantined_streak pad
                        else if ta_surviving t = 0 then sat_inc (sp_all_candidates_quarantined_streak pad) else 0) in
     (pad\<lparr>sp_missing_required_field_streak := missing, sp_last_poll_observed_candidates := observed,
          sp_last_poll_surviving_candidates := ta_surviving t,
          sp_all_candidates_quarantined_streak := quarantined\<rparr>,
      evs @ (if cands \<noteq> [] \<and> ta_surviving t = 0
             then [Ev_All_Quarantined observed (dominant_quarantine_reason (ta_reasons t))] else [])))"

definition required_field_failure_amendment_threshold :: "32 word" where
  "required_field_failure_amendment_threshold = 2"
definition contract_amendment_cycle_ceiling :: "32 word" where "contract_amendment_cycle_ceiling = 3"

definition forget_contract :: "('n, 'f) scratchpad \<Rightarrow> ('n, 'f) scratchpad" where
  "forget_contract pad =
     (clear_extraction_plan pad)\<lparr>sp_contract_fingerprint := None, sp_snapshots := [],
       sp_truncation_notified := False, sp_authoring_failure_streak := 0,
       sp_all_candidates_quarantined_streak := 0, sp_extraction_plan_degraded := False,
       sp_extraction_plan_degraded_reason := None\<rparr>"

definition amend ::
    "watch_env \<Rightarrow> ('n, 'f) scratchpad \<Rightarrow> ('n, 'f) watch_world \<Rightarrow> ('n, 'f) scratchpad \<times> ('n, 'f) watch_world" where
  "amend env pad w =
     (if sp_missing_required_field_streak pad < required_field_failure_amendment_threshold then (pad, w)
      else
        (let cycle = sat_inc (sp_contract_amendment_cycle_count pad);
             pad' = pad\<lparr>sp_missing_required_field_streak := 0, sp_contract_amendment_cycle_count := cycle\<rparr> in
         if contract_amendment_cycle_ceiling < cycle then
           (pad', if cycle = contract_amendment_cycle_ceiling + 1 then emit_health_events [Ev_Stopped_Amending] w else w)
         else (forget_contract pad', set_assignment_contract (en_update env) None None None (emit_health_events [Ev_Amending cycle] w))))"

definition item_json :: "'n candidate \<Rightarrow> 'n json" where
  "item_json c =
     J_Object (fmap_of_list [(text_of ''id'', J_String (ca_id c)), (text_of ''summary'', J_String (ca_summary c)),
       (text_of ''payload'', ca_payload c)])"

fun join_summaries :: "utext list \<Rightarrow> utext" where
  "join_summaries [] = []"
| "join_summaries [s] = s"
| "join_summaries (s # ss) = s @ text_of ''; '' @ join_summaries ss"

definition build_event_context :: "'n candidate list \<Rightarrow> 'n trigger_event_context" where
  "build_event_context cands =
     \<lparr>tc_summary = (case cands of
          [only] \<Rightarrow> ca_summary only
        | _ \<Rightarrow> text_of (''Agent watch found '' @ decimal (length cands) @ '' new items: '')
                 @ join_summaries (map ca_summary cands)),
      tc_payload = J_Object (fmap_of_list [(text_of ''items'', J_Array (map item_json cands))])\<rparr>"

definition fire_assignment ::
    "watch_env \<Rightarrow> 'n candidate list \<Rightarrow> ('n, 'f) watch_world \<Rightarrow> ('n, 'f) watch_world" where
  "fire_assignment env cands w = w\<lparr>ww_fired := ww_fired w @ [(build_event_context cands, en_fire env)]\<rparr>"

text \<open>The dispatch with its two writes, or the write of a quiet poll.\<close>

definition dispatch ::
    "watch_env \<Rightarrow> ('n candidate \<times> utext \<times> utext) list \<Rightarrow> ('n, 'f) scratchpad \<Rightarrow> ('n, 'f) watch_world \<Rightarrow>
     bool \<times> ('n, 'f) watch_world" where
  "dispatch env fires pad w =
     (if fires = [] then (False, save (en_first_write env) (record_poll_outcome False (en_now env) pad) w)
      else
        (let pad1 = fold (\<lambda>(c, key, item) p. record_pending_action key item (en_clock env) p) fires pad;
             w1 = fire_assignment env (map fst fires) (save (en_first_write env) pad1 w) in
         case en_fire env of
           Inr run \<Rightarrow>
             (True, save (en_second_write env)
                (record_poll_outcome True (en_now env)
                  (fold (\<lambda>(c, key, item) p. attach_dispatch_run key run p) fires pad1)) w1)
         | Inl e \<Rightarrow>
             (False, save (en_second_write env) (record_poll_outcome False (en_now env) pad1)
                (emit_health_events [Ev_Dispatch_Failed (map (\<lambda>(c, key, item). item) fires) e] w1))))"

section \<open>The contract-bound tick\<close>

definition identity_keygen_version :: nat where "identity_keygen_version = 3"

definition bind_pad ::
    "('n, 'f) watch_ops \<Rightarrow> ('n, 'f) watch_contract \<Rightarrow> bool \<Rightarrow> ('n, 'f) scratchpad \<Rightarrow> ('n, 'f) scratchpad" where
  "bind_pad ops c fingerprint_changed pad =
     (if fingerprint_changed then pad\<lparr>sp_snapshots := []\<rparr> else pad)
       \<lparr>sp_contract_fingerprint := Some (fingerprint ops c),
        sp_identity_keygen_version := Some identity_keygen_version\<rparr>"

text \<open>Whether a poll only seeds the baseline, and whether it may fire.\<close>

definition fingerprint_changed ::
    "('n, 'f) watch_ops \<Rightarrow> ('n, 'f) watch_contract \<Rightarrow> bool \<Rightarrow> ('n, 'f) scratchpad \<Rightarrow> bool" where
  "fingerprint_changed ops c is_first_poll pad \<longleftrightarrow>
     \<not> is_first_poll \<and> sp_contract_fingerprint pad \<noteq> Some (fingerprint ops c)"

definition poll_mode ::
    "('n, 'f) watch_ops \<Rightarrow> ('n, 'f) watch_contract \<Rightarrow> bool \<Rightarrow> bool \<Rightarrow> ('n, 'f) scratchpad \<Rightarrow> tick_mode" where
  "poll_mode ops c is_first_poll force_seed_only pad =
     (let keygen_changed = (\<not> is_first_poll \<and> sp_identity_keygen_version pad \<noteq> Some identity_keygen_version);
          seed_only = (is_first_poll \<or> fingerprint_changed ops c is_first_poll pad \<or> keygen_changed) in
      \<lparr>tm_seed_only = seed_only, tm_suppress_fire = seed_only \<or> force_seed_only\<rparr>)"

definition judge_poll ::
    "('n, 'f) watch_ops \<Rightarrow> (watch_error \<Rightarrow> utext) \<Rightarrow> utext \<Rightarrow> watch_env \<Rightarrow> ('n, 'f) watch_contract \<Rightarrow>
     bool \<Rightarrow> bool \<Rightarrow> 'n candidate list \<Rightarrow> ('n, 'f) scratchpad \<Rightarrow> ('n, 'f) tally" where
  "judge_poll ops display aid env c is_first_poll force_seed_only cands pad =
     fold (judge_candidate ops display aid env c (poll_mode ops c is_first_poll force_seed_only pad)) cands
       (start_tally (bind_pad ops c (fingerprint_changed ops c is_first_poll pad) pad))"

definition run_contract_bound_tick ::
    "('n, 'f) watch_ops \<Rightarrow> (watch_error \<Rightarrow> utext) \<Rightarrow> utext \<Rightarrow> watch_env \<Rightarrow> ('n, 'f) watch_contract \<Rightarrow>
     ('n, 'f) scratchpad \<Rightarrow> bool \<Rightarrow> bool \<Rightarrow> 'n candidate list \<Rightarrow> extraction_path \<Rightarrow> tier option \<Rightarrow>
     ('n, 'f) watch_world \<Rightarrow> bool option \<times> ('n, 'f) watch_world" where
  "run_contract_bound_tick ops display aid env c pad is_first_poll force_seed_only cands path inferred w =
     (case reconcile_pending_deliveries env pad of
        (evs, None) \<Rightarrow> (None, emit_health_events evs w)
      | (evs, Some pad0) \<Rightarrow>
          (let pad1 = pad0\<lparr>sp_last_extraction_path := path, sp_last_inferred_tier := inferred\<rparr>;
               t = judge_poll ops display aid env c is_first_poll force_seed_only cands pad1;
               reseeded = (if fingerprint_changed ops c is_first_poll pad1 then [Ev_Reseeded] else []) in
           case count_poll cands t (disclose t (ta_pad t, evs @ reseeded @ ta_events t)) of
             (pad2, evs2) \<Rightarrow>
               (case amend env pad2 (emit_health_events evs2 w) of
                  (pad3, w3) \<Rightarrow>
                    (case dispatch env (ta_fire t) pad3 w3 of (fired, w4) \<Rightarrow> (Some fired, w4)))))"

section \<open>The tick of a watch without a contract\<close>

definition seen_ids_cap :: nat where "seen_ids_cap = 200"

definition legacy_candidate_key :: "('n, 'f) watch_ops \<Rightarrow> 'n candidate \<Rightarrow> utext" where
  "legacy_candidate_key ops cand =
     wo_sha256 ops (canonical_json ops (normalize_value_for_identity ops
       (case ca_payload cand of
          J_Object m \<Rightarrow> if m = fmempty then J_String (ca_summary cand) else ca_payload cand
        | _ \<Rightarrow> J_String (ca_summary cand))))"

definition normalize_seen_key :: "('n, 'f) watch_ops \<Rightarrow> utext \<Rightarrow> utext" where
  "normalize_seen_key ops key = to_lowercase ops (trim_text key)"

definition hex_digit :: "nat \<Rightarrow> bool" where
  "hex_digit c \<longleftrightarrow> is_digit c \<or> 0x41 \<le> c \<and> c \<le> 0x46 \<or> 0x61 \<le> c \<and> c \<le> 0x66"

definition is_content_hash_key :: "utext \<Rightarrow> bool" where
  "is_content_hash_key s \<longleftrightarrow> length s = 64 \<and> list_all hex_digit s"

definition cap_seen :: "utext list \<Rightarrow> utext list" where
  "cap_seen ids = drop (length ids - seen_ids_cap) ids"

definition record_seen :: "utext list \<Rightarrow> ('n, 'f) scratchpad \<Rightarrow> ('n, 'f) scratchpad" where
  "record_seen new_ids pad = pad\<lparr>sp_seen_ids := cap_seen (sp_seen_ids pad @ new_ids)\<rparr>"

definition run_legacy_seen_ids_tick ::
    "('n, 'f) watch_ops \<Rightarrow> watch_env \<Rightarrow> ('n, 'f) scratchpad \<Rightarrow> bool \<Rightarrow> 'n candidate list \<Rightarrow>
     ('n, 'f) watch_world \<Rightarrow> bool \<times> ('n, 'f) watch_world" where
  "run_legacy_seen_ids_tick ops env pad seed_only cands w =
     (let keyed = map (\<lambda>c. (c, normalize_seen_key ops (legacy_candidate_key ops c))) cands;
          seen = set (map (normalize_seen_key ops) (sp_seen_ids pad));
          new_keyed = filter (\<lambda>(c, key). key \<notin> seen) keyed in
      if list_ex (\<lambda>i. \<not> is_content_hash_key i) (sp_seen_ids pad) then
        (False, save (en_first_write env)
           (record_poll_outcome False (en_now env) (pad\<lparr>sp_seen_ids := cap_seen (map snd keyed)\<rparr>)) w)
      else if seed_only then
        (False, save (en_first_write env) (record_poll_outcome False (en_now env) (record_seen (map snd keyed) pad)) w)
      else if new_keyed = [] then (False, save (en_first_write env) (record_poll_outcome False (en_now env) pad) w)
      else
        (let w1 = fire_assignment env (map fst new_keyed) w in
         case en_fire env of
           Inr run \<Rightarrow>
             (True, save (en_first_write env)
                (record_poll_outcome True (en_now env) (record_seen (map snd new_keyed) pad)) w1)
         | Inl e \<Rightarrow> (False, emit_health_events [Ev_Legacy_Dispatch_Failed (length new_keyed) e] w1)))"

end
