(* ===== verification/Watch_Reconcile.thy ===== *)
theory Watch_Reconcile
  imports Watch_Tick
begin

text \<open>
  What reconciliation does to a ledger: which entries it keeps, when it reports a retry, and when it panics.
\<close>

lemma ledger_simps [simp]:
  "sp_seen_deliveries (confirm_pending_delivery key pad) =
     modify_first (\<lambda>d. sd_id d = key)
       (\<lambda>d. if sd_status d = Delivery_Pending
            then d\<lparr>sd_status := Delivery_Confirmed, sd_run_id := None, sd_identity_key := None\<rparr> else d)
       (sp_seen_deliveries pad)"
  "sp_seen_deliveries (clear_pending_delivery key pad) = filter (\<lambda>d. sd_id d \<noteq> key) (sp_seen_deliveries pad)"
  by (simp_all add: confirm_pending_delivery_def modify_pending_def clear_pending_delivery_def)

text \<open>An entry that one more poll takes over the threshold.\<close>

definition overdue :: "watch_env \<Rightarrow> seen_delivery \<Rightarrow> bool" where
  "overdue env d \<longleftrightarrow>
     \<not> reached_terminal_status env (sd_run_id d) \<and> retry_poll_threshold < sat_inc (sd_pending_poll_count d)"

lemma reconcile_at_cases:
  assumes "i < length (sp_seen_deliveries pad)"
  obtains (Confirmed) "reached_terminal_status env (sd_run_id (sp_seen_deliveries pad ! i))"
      "reconcile_at env i pad = Some ([], confirm_pending_delivery (sd_id (sp_seen_deliveries pad ! i)) pad)"
    | (Counted) "\<not> reached_terminal_status env (sd_run_id (sp_seen_deliveries pad ! i))"
      "\<not> overdue env (sp_seen_deliveries pad ! i)"
      "reconcile_at env i pad = Some ([], pad\<lparr>sp_seen_deliveries := (sp_seen_deliveries pad)
         [i := (sp_seen_deliveries pad ! i)
            \<lparr>sd_pending_poll_count := sat_inc (sd_pending_poll_count (sp_seen_deliveries pad ! i))\<rparr>]\<rparr>)"
    | (Cleared) "overdue env (sp_seen_deliveries pad ! i)"
      "\<exists>item n pad'. reconcile_at env i pad = Some ([Ev_Retried item n], pad') \<and>
         item = (case sd_identity_key (sp_seen_deliveries pad ! i) of Some k \<Rightarrow> k | None \<Rightarrow> text_of ''<unknown item>'') \<and>
         sp_seen_deliveries pad' = filter (\<lambda>d. sd_id d \<noteq> sd_id (sp_seen_deliveries pad ! i))
           ((sp_seen_deliveries pad)[i := (sp_seen_deliveries pad ! i)\<lparr>sd_pending_poll_count := n\<rparr>])"
proof (cases "reached_terminal_status env (sd_run_id (sp_seen_deliveries pad ! i))")
  case True
  with assms show thesis by (intro Confirmed) (simp_all add: reconcile_at_def Let_def)
next
  case False
  note run = this
  show thesis
  proof (cases "sat_inc (sd_pending_poll_count (sp_seen_deliveries pad ! i)) \<le> retry_poll_threshold")
    case True
    with run assms show thesis
      by (intro Counted) (simp_all add: reconcile_at_def Let_def overdue_def not_less)
  next
    case False
    with run assms show thesis
      by (intro Cleared) (simp_all add: reconcile_at_def Let_def overdue_def not_le)
  qed
qed

subsection \<open>The panic\<close>

lemma length_modify_first_filter: "length (filter (\<lambda>d. sd_id d \<noteq> k) ds) \<le> length ds"
  by simp

lemma reconcile_at_length:
  "reconcile_at env i pad = Some (evs, pad') \<Longrightarrow>
     length (sp_seen_deliveries pad') \<le> length (sp_seen_deliveries pad)"
proof -
  assume r: "reconcile_at env i pad = Some (evs, pad')"
  then have i: "i < length (sp_seen_deliveries pad)" by (simp add: reconcile_at_def split: if_splits)
  from i show ?thesis
  proof (cases rule: reconcile_at_cases [where env = env])
    case Confirmed
    with r show ?thesis by auto
  next
    case Counted
    with r show ?thesis by auto
  next
    case Cleared
    with r show ?thesis by auto (metis length_filter_le length_list_update)
  qed
qed

lemma cleared_shorter:
  assumes "i < length ds"
  shows "length (filter (\<lambda>d. sd_id d \<noteq> sd_id (ds ! i)) (ds[i := (ds ! i)\<lparr>sd_pending_poll_count := n\<rparr>])) < length ds"
proof -
  have "length (filter (\<lambda>d. sd_id d \<noteq> sd_id (ds ! i)) (ds[i := (ds ! i)\<lparr>sd_pending_poll_count := n\<rparr>]))
      < length (ds[i := (ds ! i)\<lparr>sd_pending_poll_count := n\<rparr>])"
    by (rule length_filter_less [where x = "(ds ! i)\<lparr>sd_pending_poll_count := n\<rparr>"])
      (use assms in \<open>auto intro: set_update_memI\<close>)
  then show ?thesis by simp
qed

text \<open>Once the ledger is shorter than an index to come, the loop runs into it.\<close>

lemma loop_panics_short:
  "j \<in> set is \<Longrightarrow> length (sp_seen_deliveries pad) \<le> j \<Longrightarrow> snd (reconcile_loop env is pad) = None"
proof (induction "is" arbitrary: pad)
  case Nil
  then show ?case by simp
next
  case (Cons i "is")
  show ?case
  proof (cases "reconcile_at env i pad")
    case None
    then show ?thesis by simp
  next
    case (Some r)
    obtain evs pad' where r: "r = (evs, pad')" by (cases r)
    with Some have "i < length (sp_seen_deliveries pad)" by (simp add: reconcile_at_def split: if_splits)
    with Cons.prems have "j \<in> set is" by auto
    moreover have "length (sp_seen_deliveries pad') \<le> j"
      using reconcile_at_length [OF Some [unfolded r]] Cons.prems(2) by simp
    ultimately have "snd (reconcile_loop env is pad') = None" by (rule Cons.IH)
    with Some r show ?thesis by (simp add: split_beta)
  qed
qed

text \<open>Entries that a turn does not point at keep what makes them overdue.\<close>

lemma modify_first_nth:
  "j < length xs \<Longrightarrow> modify_first p f xs ! j = xs ! j \<or> modify_first p f xs ! j = f (xs ! j)"
  by (induction xs arbitrary: j) (auto simp: nth_Cons split: nat.split)

lemma overdue_confirm:
  assumes "j < length (sp_seen_deliveries pad)" and "overdue env (sp_seen_deliveries pad ! j)"
  shows "overdue env (sp_seen_deliveries (confirm_pending_delivery key pad) ! j)"
  using modify_first_nth [OF assms(1), of "\<lambda>d. sd_id d = key"
      "\<lambda>d. if sd_status d = Delivery_Pending
         then d\<lparr>sd_status := Delivery_Confirmed, sd_run_id := None, sd_identity_key := None\<rparr> else d"] assms(2)
  by (auto simp: overdue_def reached_terminal_status_def split: if_splits)

lemma loop_panics:
  "k \<in> set is \<Longrightarrow> sorted_wrt (<) (is @ [j]) \<Longrightarrow> Suc j = length (sp_seen_deliveries pad) \<Longrightarrow>
     overdue env (sp_seen_deliveries pad ! k) \<Longrightarrow> snd (reconcile_loop env (is @ [j]) pad) = None"
proof (induction "is" arbitrary: pad)
  case Nil
  then show ?case by simp
next
  case (Cons i "is")
  have i: "i < length (sp_seen_deliveries pad)" and ij: "i < j" using Cons.prems by (auto simp: sorted_wrt_append)
  have later: "snd (reconcile_loop env (is @ [j]) pad') = None"
    if p: "length (sp_seen_deliveries pad') < length (sp_seen_deliveries pad)" for pad' :: "('a, 'b) scratchpad"
    using that Cons.prems(3) by (intro loop_panics_short [of j]) auto
  show ?case
  proof (cases "k = i")
    case True
    from i show ?thesis
    proof (cases rule: reconcile_at_cases [where env = env])
      case Confirmed
      with True Cons.prems(4) show ?thesis by (simp add: overdue_def)
    next
      case Counted
      with True Cons.prems(4) show ?thesis by simp
    next
      case Cleared
      then obtain item n pad' where c: "reconcile_at env i pad = Some ([Ev_Retried item n], pad')"
        and "sp_seen_deliveries pad' = filter (\<lambda>d. sd_id d \<noteq> sd_id (sp_seen_deliveries pad ! i))
          ((sp_seen_deliveries pad)[i := (sp_seen_deliveries pad ! i)\<lparr>sd_pending_poll_count := n\<rparr>])" by blast
      then have "length (sp_seen_deliveries pad') < length (sp_seen_deliveries pad)"
        using cleared_shorter [OF i] by metis
      from later [OF this] c show ?thesis by (simp add: split_beta)
    qed
  next
    case False
    then have k: "k \<in> set is" and ss: "sorted_wrt (<) (is @ [j])" using Cons.prems by auto
    have kl: "k < length (sp_seen_deliveries pad)" using k ss Cons.prems(3) by (auto simp: sorted_wrt_append)
    from i show ?thesis
    proof (cases rule: reconcile_at_cases [where env = env])
      case Confirmed
      have "snd (reconcile_loop env (is @ [j])
          (confirm_pending_delivery (sd_id (sp_seen_deliveries pad ! i)) pad)) = None"
        by (rule Cons.IH [OF k ss]) (use Cons.prems overdue_confirm [OF kl Cons.prems(4)] in simp_all)
      with Confirmed show ?thesis by (simp add: split_beta)
    next
      case Counted
      have "snd (reconcile_loop env (is @ [j]) (pad\<lparr>sp_seen_deliveries := (sp_seen_deliveries pad)
         [i := (sp_seen_deliveries pad ! i)
            \<lparr>sd_pending_poll_count := sat_inc (sd_pending_poll_count (sp_seen_deliveries pad ! i))\<rparr>]\<rparr>)) = None"
        by (rule Cons.IH [OF k ss]) (use Cons.prems False in simp_all)
      with Counted show ?thesis by (simp add: split_beta)
    next
      case Cleared
      then obtain item n pad' where c: "reconcile_at env i pad = Some ([Ev_Retried item n], pad')"
        and "sp_seen_deliveries pad' = filter (\<lambda>d. sd_id d \<noteq> sd_id (sp_seen_deliveries pad ! i))
          ((sp_seen_deliveries pad)[i := (sp_seen_deliveries pad ! i)\<lparr>sd_pending_poll_count := n\<rparr>])" by blast
      then have "length (sp_seen_deliveries pad') < length (sp_seen_deliveries pad)"
        using cleared_shorter [OF i] by metis
      from later [OF this] c show ?thesis by (simp add: split_beta)
    qed
  qed
qed

lemma pending_indices_last:
  assumes "ds \<noteq> []" and "sd_status (last ds) = Delivery_Pending"
  obtains "is" where "pending_indices ds = is @ [length ds - 1]" and "sorted_wrt (<) (is @ [length ds - 1])"
    and "\<And>k. k < length ds - 1 \<Longrightarrow> sd_status (ds ! k) = Delivery_Pending \<Longrightarrow> k \<in> set is"
proof -
  define n where "n = length ds - 1"
  have n: "length ds = Suc n" using assms(1) by (simp add: n_def)
  have l: "sd_status (ds ! n) = Delivery_Pending" using assms by (simp add: last_conv_nth n_def)
  have "pending_indices ds = filter (\<lambda>i. sd_status (ds ! i) = Delivery_Pending) [0..<n] @ [n]"
    by (simp add: pending_indices_def n l)
  moreover have "sorted_wrt (<) (filter (\<lambda>i. sd_status (ds ! i) = Delivery_Pending) [0..<n] @ [n])"
    by (auto simp: sorted_wrt_append intro: sorted_wrt_filter)
  ultimately show thesis using that [of "filter (\<lambda>i. sd_status (ds ! i) = Delivery_Pending) [0..<n]"]
    by (simp add: n_def)
qed

lemma reconcile_panics:
  assumes "k < length (sp_seen_deliveries pad) - 1" and "sd_status (sp_seen_deliveries pad ! k) = Delivery_Pending"
    and "overdue env (sp_seen_deliveries pad ! k)"
    and "sd_status (last (sp_seen_deliveries pad)) = Delivery_Pending"
  shows "snd (reconcile_pending_deliveries env pad) = None"
proof -
  have ne: "sp_seen_deliveries pad \<noteq> []" using assms(1) by auto
  from pending_indices_last [OF this assms(4)] obtain "is" where
    p: "pending_indices (sp_seen_deliveries pad) = is @ [length (sp_seen_deliveries pad) - 1]"
      "sorted_wrt (<) (is @ [length (sp_seen_deliveries pad) - 1])" "k \<in> set is"
    using assms(1,2) by metis
  show ?thesis unfolding reconcile_pending_deliveries_def p(1)
    by (rule loop_panics [OF p(3,2) _ assms(3)]) (use ne in simp)
qed

end
