(* ===== verification/Watch_Poll.thy ===== *)
theory Watch_Poll
  imports Watch_Tick
begin

text \<open>
  \<open>run_agent_watch_tick\<close> of \<open>ao-engine/src/agent_watch.rs\<close>: the poll of a watch with a contract, and of one
  that is still authoring its contract. What an observation finds - the candidates, and what it leaves in the
  scratchpad and on the event bus - is an argument, a \<open>selection\<close> or an \<open>authoring_pass\<close>.
\<close>

section \<open>With a contract\<close>

text \<open>The fields \<open>select_agent_watch_candidates\<close> may set.\<close>

record ('n, 'f) plan_state =
  pl_plan :: "('n, 'f) extraction_plan option"
  pl_fingerprint :: "utext option"
  pl_degraded :: bool
  pl_degraded_reason :: "utext option"
  pl_expected_item_count :: "nat option"
  pl_expected_fields :: "utext fset option"
  pl_model_calls :: "(utext, 32 word) fmap"

definition put_plan_state :: "('n, 'f) plan_state \<Rightarrow> ('n, 'f) scratchpad \<Rightarrow> ('n, 'f) scratchpad" where
  "put_plan_state pl pad =
     pad\<lparr>sp_extraction_plan := pl_plan pl, sp_extraction_plan_fingerprint := pl_fingerprint pl,
         sp_extraction_plan_degraded := pl_degraded pl, sp_extraction_plan_degraded_reason := pl_degraded_reason pl,
         sp_extraction_plan_expected_item_count := pl_expected_item_count pl,
         sp_extraction_plan_expected_fields := pl_expected_fields pl,
         sp_model_calls_by_day := pl_model_calls pl\<rparr>"

text \<open>\<open>sl_found\<close> is \<open>None\<close> when the observation failed, else the candidates, the path they came by, the tier
  of the plan and whether the poll must not fire.\<close>

record ('n, 'f) selection =
  sl_plan :: "('n, 'f) plan_state"
  sl_events :: "utext list"
  sl_found :: "('n candidate list \<times> extraction_path \<times> tier option \<times> bool) option"

definition loaded_pad :: "watch_env \<Rightarrow> ('n, 'f) watch_world \<Rightarrow> ('n, 'f) scratchpad option" where
  "loaded_pad env w = (if en_load env then ww_saved w else None)"

definition poll_bound_watch ::
    "('n, 'f) watch_ops \<Rightarrow> (watch_error \<Rightarrow> utext) \<Rightarrow> utext \<Rightarrow> watch_env \<Rightarrow> ('n, 'f) selection \<Rightarrow>
     ('n, 'f) watch_contract \<Rightarrow> ('n, 'f) watch_world \<Rightarrow> bool option \<times> ('n, 'f) watch_world" where
  "poll_bound_watch ops display aid env sel c w =
     (let loaded = loaded_pad env w;
          pad = put_plan_state (sl_plan sel) (case loaded of Some p \<Rightarrow> p | None \<Rightarrow> default_scratchpad);
          w1 = emit_health_events (map Ev_Observation (sl_events sel)) w in
      case sl_found sel of
        None \<Rightarrow> (Some False, save (en_first_write env) pad w1)
      | Some (cands, path, inferred, force_seed_only) \<Rightarrow>
          run_contract_bound_tick ops display aid env c pad (loaded = None) force_seed_only cands path inferred w1)"

section \<open>Without a contract\<close>

definition authoring_failure_ceiling :: "32 word" where "authoring_failure_ceiling = 5"

definition authoring_input_key :: "utext \<Rightarrow> utext option \<Rightarrow> utext" where
  "authoring_input_key instruction scope =
     instruction @ [key_join] @ (case scope of Some s \<Rightarrow> s | None \<Rightarrow> [])"

text \<open>How the authoring pass ended, with the contract it bound, and the fields it may set.\<close>

datatype authoring_outcome = Bound_With_Repairs "32 word" | Not_Bound "utext option" "utext list"

record ('n, 'f) authoring_pass =
  au_model_calls :: "(utext, 32 word) fmap"
  au_probe_inconclusive :: bool
  au_probe_reason :: "utext option"
  au_degraded :: bool
  au_degraded_reason :: "utext option"
  au_bound :: "(('n, 'f) watch_contract \<times> utext option \<times> 'n json option) option"
  au_events :: "utext list"
  au_result :: "('n candidate list \<times> authoring_outcome) option"

definition put_authoring :: "('n, 'f) authoring_pass \<Rightarrow> ('n, 'f) scratchpad \<Rightarrow> ('n, 'f) scratchpad" where
  "put_authoring au pad =
     pad\<lparr>sp_model_calls_by_day := au_model_calls au, sp_identity_probe_inconclusive := au_probe_inconclusive au,
         sp_identity_probe_inconclusive_reason := au_probe_reason au,
         sp_extraction_plan_degraded := au_degraded au,
         sp_extraction_plan_degraded_reason := au_degraded_reason au\<rparr>"

definition bind_authored ::
    "('n, 'f) authoring_pass \<Rightarrow> ('n, 'f) watch_world \<Rightarrow> ('n, 'f) watch_world" where
  "bind_authored au w =
     (case au_bound au of None \<Rightarrow> w | Some (c, tool, args) \<Rightarrow> set_assignment_contract True (Some c) tool args w)"

definition note_outcome ::
    "authoring_outcome \<Rightarrow> ('n, 'f) scratchpad \<Rightarrow> ('n, 'f) scratchpad \<times> watch_event list" where
  "note_outcome outcome pad =
     (case outcome of
        Bound_With_Repairs same_tick_repairs \<Rightarrow>
          (let total_repairs = sp_authoring_failure_streak pad + same_tick_repairs in
           (pad\<lparr>sp_contract_bound_after_failed_attempts := (if 0 < total_repairs then Some total_repairs else None),
                sp_authoring_failure_streak := 0, sp_last_authoring_rejection_reason := None,
                sp_authoring_rejection_history := []\<rparr>, []))
      | Not_Bound last_error rejection_history \<Rightarrow>
          (let streak = sp_authoring_failure_streak pad + 1 in
           (pad\<lparr>sp_contract_bound_after_failed_attempts := None, sp_authoring_failure_streak := streak,
                sp_last_authoring_rejection_reason :=
                  (case last_error of Some r \<Rightarrow> Some r | None \<Rightarrow> sp_last_authoring_rejection_reason pad),
                sp_authoring_rejection_history := rejection_history\<rparr>,
            if streak = authoring_failure_ceiling then [Ev_Authoring_Stopped last_error] else [])))"

text \<open>The observation of a frozen watch: its further model calls and its candidates.\<close>

type_synonym 'n frozen_observation = "32 word \<times> 'n candidate list option"

definition resume_authoring ::
    "utext \<Rightarrow> ('n, 'f) scratchpad \<Rightarrow> ('n, 'f) scratchpad \<times> watch_event list" where
  "resume_authoring live_key pad =
     (let pad0 = pad\<lparr>sp_last_extraction_path := Path_Unbound, sp_last_inferred_tier := None\<rparr>;
          resumed = (sp_authoring_input_fingerprint pad0 \<noteq> Some live_key \<and>
            authoring_failure_ceiling \<le> sp_authoring_failure_streak pad0);
          pad1 = (if resumed then pad0\<lparr>sp_authoring_failure_streak := 0, sp_last_authoring_rejection_reason := None,
                    sp_authoring_rejection_history := []\<rparr> else pad0) in
      (pad1\<lparr>sp_authoring_input_fingerprint := Some live_key\<rparr>, if resumed then [Ev_Authoring_Resumed] else []))"

definition legacy_after ::
    "('n, 'f) watch_ops \<Rightarrow> watch_env \<Rightarrow> bool \<Rightarrow> ('n, 'f) scratchpad \<Rightarrow> 'n candidate list \<Rightarrow>
     ('n, 'f) watch_world \<Rightarrow> bool \<times> ('n, 'f) watch_world" where
  "legacy_after ops env is_first_poll pad cands w =
     run_legacy_seen_ids_tick ops (env\<lparr>en_first_write := en_second_write env\<rparr>) pad
       (is_first_poll \<or> authoring_failure_ceiling \<le> sp_authoring_failure_streak pad) cands w"

definition run_authoring_and_legacy_tick ::
    "('n, 'f) watch_ops \<Rightarrow> watch_env \<Rightarrow> utext \<Rightarrow> utext option \<Rightarrow> 'n frozen_observation \<Rightarrow>
     ('n, 'f) authoring_pass \<Rightarrow> ('n, 'f) scratchpad \<Rightarrow> bool \<Rightarrow> ('n, 'f) watch_world \<Rightarrow>
     bool \<times> ('n, 'f) watch_world" where
  "run_authoring_and_legacy_tick ops env instruction scope frozen au pad is_first_poll w =
     (case resume_authoring (authoring_input_key instruction scope) pad of
        (pad1, evs) \<Rightarrow>
          (let w1 = emit_health_events evs w in
           if authoring_failure_ceiling \<le> sp_authoring_failure_streak pad1 then
             (let pad2 = record_additional_model_calls (en_date env) (fst frozen)
                    (record_model_call (en_date env) pad1) in
              case snd frozen of
                None \<Rightarrow> (False, save (en_first_write env) pad2 w1)
              | Some cands \<Rightarrow> legacy_after ops env is_first_poll pad2 cands w1)
           else
             (let pad2 = put_authoring au pad1; w2 = bind_authored au (emit_health_events (map Ev_Observation (au_events au)) w1) in
              case au_result au of
                None \<Rightarrow> (False, save (en_first_write env) pad2 w2)
              | Some (cands, outcome) \<Rightarrow>
                  (case note_outcome outcome pad2 of
                     (pad3, evs3) \<Rightarrow>
                       legacy_after ops env is_first_poll pad3 cands
                         (save (en_first_write env) pad3 (emit_health_events evs3 w2))))))"

definition reset_orphaned :: "('n, 'f) scratchpad \<Rightarrow> ('n, 'f) scratchpad" where
  "reset_orphaned pad =
     (clear_extraction_plan pad)\<lparr>sp_contract_fingerprint := None, sp_snapshots := [],
       sp_missing_required_field_streak := 0, sp_truncation_notified := False, sp_authoring_failure_streak := 0,
       sp_contract_amendment_cycle_count := 0, sp_all_candidates_quarantined_streak := 0,
       sp_extraction_plan_degraded := False, sp_extraction_plan_degraded_reason := None\<rparr>"

definition poll_unbound_watch ::
    "('n, 'f) watch_ops \<Rightarrow> watch_env \<Rightarrow> utext \<Rightarrow> utext option \<Rightarrow> 'n frozen_observation \<Rightarrow>
     ('n, 'f) authoring_pass \<Rightarrow> ('n, 'f) watch_world \<Rightarrow> bool \<times> ('n, 'f) watch_world" where
  "poll_unbound_watch ops env instruction scope frozen au w =
     (let loaded = loaded_pad env w;
          pad = (case loaded of Some p \<Rightarrow> p | None \<Rightarrow> default_scratchpad);
          orphaned = (sp_contract_fingerprint pad \<noteq> None);
          pad1 = (if orphaned then reset_orphaned pad else pad);
          w1 = (if orphaned then save (en_reset_write env) pad1 w else w) in
      run_authoring_and_legacy_tick ops env instruction scope frozen au pad1 (loaded = None) w1)"

text \<open>What a poll is given: the environment and the observations, of which it uses those of its branch.\<close>

record ('n, 'f) poll_input =
  po_env :: watch_env
  po_selection :: "('n, 'f) selection"
  po_frozen :: "'n frozen_observation"
  po_authoring :: "('n, 'f) authoring_pass"

definition run_agent_watch_tick ::
    "('n, 'f) watch_ops \<Rightarrow> (watch_error \<Rightarrow> utext) \<Rightarrow> utext \<Rightarrow> utext \<Rightarrow> utext option \<Rightarrow>
     ('n, 'f) poll_input \<Rightarrow> ('n, 'f) watch_world \<Rightarrow> bool option \<times> ('n, 'f) watch_world" where
  "run_agent_watch_tick ops display aid instruction scope inp w =
     (case ww_contract w of
        Some c \<Rightarrow> poll_bound_watch ops display aid (po_env inp) (po_selection inp) c w
      | None \<Rightarrow>
          (case poll_unbound_watch ops (po_env inp) instruction scope (po_frozen inp) (po_authoring inp) w of
             (fired, w') \<Rightarrow> (Some fired, w')))"

end
