(* ===== verification/Watch_Properties.thy ===== *)
theory Watch_Properties
  imports Watch_Reconcile Watch_Poll
begin

text \<open>
  What the polls of a watch keep: the bounds of its scratchpad, and an action in the ledger that is dispatched
  again only after its retry was reported.
\<close>

section \<open>The ledger through a poll\<close>

lemma ledger_kept [simp]:
  "sp_seen_deliveries (bind_pad ops c b pad) = sp_seen_deliveries pad"
  "sp_seen_deliveries (fst (record_item_snapshot s pad)) = sp_seen_deliveries pad"
  "sp_seen_deliveries (record_poll_outcome f now pad) = sp_seen_deliveries pad"
  "sp_seen_deliveries (put_plan_state pl pad) = sp_seen_deliveries pad"
  "sp_seen_deliveries (put_authoring au pad) = sp_seen_deliveries pad"
  "sp_seen_deliveries (forget_contract pad) = sp_seen_deliveries pad"
  "sp_seen_deliveries (reset_orphaned pad) = sp_seen_deliveries pad"
  "sp_seen_deliveries (record_additional_model_calls d n pad) = sp_seen_deliveries pad"
  "sp_seen_deliveries (record_model_call d pad) = sp_seen_deliveries pad"
  "sp_seen_deliveries (record_seen ids pad) = sp_seen_deliveries pad"
  by (simp_all add: bind_pad_def record_item_snapshot_def record_poll_outcome_def put_plan_state_def put_authoring_def
      forget_contract_def reset_orphaned_def clear_extraction_plan_def record_model_call_def
      record_additional_model_calls_def record_seen_def Let_def)

lemma judge_ledger: "sp_seen_deliveries (ta_pad (judge_candidate ops display aid env c tm cand t)) =
    sp_seen_deliveries (ta_pad t)"
proof (cases "candidate_keys ops c (ca_payload cand)")
  case (Inl e)
  then show ?thesis by (simp add: judge_candidate_def quarantine_def)
next
  case (Inr kv)
  obtain item version where kv: "kv = (item, version)" by (cases kv)
  have p: "\<And>s pad pad' n. record_item_snapshot s pad = (pad', n) \<Longrightarrow> sp_seen_deliveries pad' = sp_seen_deliveries pad"
    using ledger_kept(2) by (metis fst_conv)
  show ?thesis
    by (simp add: judge_candidate_def Inr kv judge_item_def Let_def split: prod.split) (metis p)
qed

lemma judge_poll_ledger [simp]:
  "sp_seen_deliveries (ta_pad (judge_poll ops display aid env c first force cands pad)) = sp_seen_deliveries pad"
proof -
  have "sp_seen_deliveries (ta_pad (fold (judge_candidate ops display aid env c tm) cands t)) =
      sp_seen_deliveries (ta_pad t)" for tm t
    by (rule fold_invariant [where Q = "\<lambda>_. True" and P = "\<lambda>u. sp_seen_deliveries (ta_pad u) = sp_seen_deliveries (ta_pad t)"])
      (simp_all add: judge_ledger)
  then show ?thesis by (simp add: judge_poll_def start_tally_def)
qed

lemma finish_ledger [simp]:
  "sp_seen_deliveries (fst (disclose t pe)) = sp_seen_deliveries (fst pe)"
  "sp_seen_deliveries (fst (count_poll cands t pe)) = sp_seen_deliveries (fst pe)"
  "sp_seen_deliveries (fst (amend env pad w)) = sp_seen_deliveries pad"
  by (simp_all add: disclose_def count_poll_def amend_def Let_def split: prod.split)

text \<open>What a poll of a bound watch dispatches: the candidates with the keys and the items they are recorded by.\<close>

definition bound_fires ::
    "('n, 'f) watch_ops \<Rightarrow> (watch_error \<Rightarrow> utext) \<Rightarrow> utext \<Rightarrow> watch_env \<Rightarrow> ('n, 'f) selection \<Rightarrow>
     ('n, 'f) watch_contract \<Rightarrow> ('n, 'f) watch_world \<Rightarrow> ('n candidate \<times> utext \<times> utext) list" where
  "bound_fires ops display aid env sel c w =
     (let loaded = loaded_pad env w;
          pad = put_plan_state (sl_plan sel) (case loaded of Some p \<Rightarrow> p | None \<Rightarrow> default_scratchpad) in
      case sl_found sel of
        None \<Rightarrow> []
      | Some (cands, path, inferred, force) \<Rightarrow>
          (case snd (reconcile_pending_deliveries env pad) of
             None \<Rightarrow> []
           | Some pad0 \<Rightarrow>
               ta_fire (judge_poll ops display aid env c (loaded = None) force cands
                 (pad0\<lparr>sp_last_extraction_path := path, sp_last_inferred_tier := inferred\<rparr>))))"

definition poll_fires ::
    "('n, 'f) watch_ops \<Rightarrow> (watch_error \<Rightarrow> utext) \<Rightarrow> utext \<Rightarrow> ('n, 'f) poll_input \<Rightarrow> ('n, 'f) watch_world \<Rightarrow>
     ('n candidate \<times> utext \<times> utext) list" where
  "poll_fires ops display aid inp w =
     (case ww_contract w of
        Some c \<Rightarrow> bound_fires ops display aid (po_env inp) (po_selection inp) c w
      | None \<Rightarrow> [])"

subsection \<open>Reconciliation\<close>

text \<open>A permanent entry of the ledger that was recorded for one of some items, or is confirmed.\<close>

definition held :: "utext \<Rightarrow> utext set \<Rightarrow> seen_delivery list \<Rightarrow> bool" where
  "held key items ds \<longleftrightarrow>
     (\<exists>d \<in> set ds. sd_id d = key \<and> sd_permanent d \<and> (\<forall>x. sd_identity_key d = Some x \<longrightarrow> x \<in> items))"

definition retried :: "utext set \<Rightarrow> watch_event list \<Rightarrow> bool" where
  "retried items evs \<longleftrightarrow> (\<exists>x n. Ev_Retried x n \<in> set evs \<and> (x = text_of ''<unknown item>'' \<or> x \<in> items))"

lemma retried_append [simp]: "retried X (es @ fs) \<longleftrightarrow> retried X es \<or> retried X fs"
  by (auto simp: retried_def)

lemma modify_first_ids:
  "(\<And>d. sd_id (f d) = sd_id d) \<Longrightarrow> map sd_id (modify_first p f ds) = map sd_id ds"
  by (induction ds) auto

lemma update_ids: "i < length ds \<Longrightarrow> map sd_id (ds[i := (ds ! i)\<lparr>sd_pending_poll_count := n\<rparr>]) = map sd_id ds"
  by (metis list_update_id map_update nth_map seen_delivery.select_convs(1) seen_delivery.surjective
      seen_delivery.update_convs(8))

lemma distinct_filter_map: "distinct (map f xs) \<Longrightarrow> distinct (map f (filter P xs))"
  by (induction xs) auto

lemma held_modify_first:
  assumes "held k X ds" and "\<And>d. sd_id (f d) = sd_id d" and "\<And>d. sd_permanent (f d) = sd_permanent d"
    and "\<And>d. sd_identity_key (f d) \<in> {sd_identity_key d, None}"
  shows "held k X (modify_first p f ds)"
  using assms(1)
proof (induction ds)
  case Nil
  then show ?case by (simp add: held_def)
next
  case (Cons d ds)
  have f: "held k X [d] \<Longrightarrow> held k X [f d]"
    using assms(2,3) assms(4) [of d] by (auto simp: held_def)
  have c: "held k X (e # es) \<longleftrightarrow> held k X [e] \<or> held k X es" for e es by (auto simp: held_def)
  from Cons show ?case using f c by (metis modify_first.simps(2))
qed

lemma held_update:
  assumes "held k X ds" and "i < length ds"
  shows "held k X (ds[i := (ds ! i)\<lparr>sd_pending_poll_count := n\<rparr>])"
proof -
  from assms(1) obtain j where j: "j < length ds" "sd_id (ds ! j) = k" "sd_permanent (ds ! j)"
    "\<forall>x. sd_identity_key (ds ! j) = Some x \<longrightarrow> x \<in> X"
    by (auto simp: held_def in_set_conv_nth)
  let ?ds = "ds[i := (ds ! i)\<lparr>sd_pending_poll_count := n\<rparr>]"
  have "?ds ! j \<in> set ?ds" using j(1) by (simp add: nth_mem)
  moreover have "sd_id (?ds ! j) = k \<and> sd_permanent (?ds ! j) \<and> (\<forall>x. sd_identity_key (?ds ! j) = Some x \<longrightarrow> x \<in> X)"
    using j by (cases "i = j") simp_all
  ultimately show ?thesis unfolding held_def by blast
qed

lemma reconcile_at_keeps:
  assumes "reconcile_at env i pad = Some (evs, pad')" and "distinct (map sd_id (sp_seen_deliveries pad))"
  shows "distinct (map sd_id (sp_seen_deliveries pad'))"
    and "held k X (sp_seen_deliveries pad) \<Longrightarrow> held k X (sp_seen_deliveries pad') \<or> retried X evs"
proof -
  let ?ds = "sp_seen_deliveries pad"
  have i: "i < length ?ds" using assms(1) by (simp add: reconcile_at_def split: if_splits)
  have "distinct (map sd_id (sp_seen_deliveries pad')) \<and>
      (held k X ?ds \<longrightarrow> held k X (sp_seen_deliveries pad') \<or> retried X evs)"
    using i
  proof (cases rule: reconcile_at_cases [where env = env])
    case Confirmed
    with assms have p: "pad' = confirm_pending_delivery (sd_id (?ds ! i)) pad" by simp
    show ?thesis unfolding p using assms(2)
      by (auto simp: modify_first_ids) (rule held_modify_first, auto)
  next
    case Counted
    with assms show ?thesis using update_ids [OF i] held_update [OF _ i] by auto
  next
    case Cleared
    then obtain item n pad'' where c: "reconcile_at env i pad = Some ([Ev_Retried item n], pad'')"
      "item = (case sd_identity_key (?ds ! i) of Some k \<Rightarrow> k | None \<Rightarrow> text_of ''<unknown item>'')"
      "sp_seen_deliveries pad'' = filter (\<lambda>d. sd_id d \<noteq> sd_id (?ds ! i))
         (?ds[i := (?ds ! i)\<lparr>sd_pending_poll_count := n\<rparr>])" by blast
    let ?us = "?ds[i := (?ds ! i)\<lparr>sd_pending_poll_count := n\<rparr>]"
    have d: "distinct (map sd_id ?us)" using update_ids [OF i] assms(2) by simp
    have "held k X (sp_seen_deliveries pad'') \<or> retried X [Ev_Retried item n]" if h: "held k X ?ds"
    proof (cases "k = sd_id (?ds ! i)")
      case False
      from held_update [OF h i] False have "held k X (sp_seen_deliveries pad'')"
        unfolding c(3) by (auto simp: held_def)
      then show ?thesis ..
    next
      case True
      from h obtain j where j: "j < length ?ds" "sd_id (?ds ! j) = k" "\<forall>x. sd_identity_key (?ds ! j) = Some x \<longrightarrow> x \<in> X"
        by (auto simp: held_def in_set_conv_nth)
      with True i assms(2) have "j = i" by (auto simp: distinct_conv_nth)
      with j(3) c(2) show ?thesis by (auto simp: retried_def split: option.splits)
    qed
    with assms(1) c d show ?thesis by (auto simp: distinct_filter_map)
  qed
  then show "distinct (map sd_id (sp_seen_deliveries pad'))"
    and "held k X ?ds \<Longrightarrow> held k X (sp_seen_deliveries pad') \<or> retried X evs" by auto
qed

lemma reconcile_loop_keeps:
  "reconcile_loop env is pad = (evs, Some pad') \<Longrightarrow> distinct (map sd_id (sp_seen_deliveries pad)) \<Longrightarrow>
     distinct (map sd_id (sp_seen_deliveries pad')) \<and>
     (held k X (sp_seen_deliveries pad) \<longrightarrow> held k X (sp_seen_deliveries pad') \<or> retried X evs)"
proof (induction "is" arbitrary: pad evs)
  case Nil
  then show ?case by simp
next
  case (Cons i "is")
  from Cons.prems(1) obtain es p fs where a: "reconcile_at env i pad = Some (es, p)"
    and b: "reconcile_loop env is p = (fs, Some pad')" "evs = es @ fs"
    by (auto split: option.splits prod.splits)
  from Cons.IH [OF b(1) reconcile_at_keeps(1) [OF a Cons.prems(2)]]
    reconcile_at_keeps(2) [OF a Cons.prems(2)] b(2)
  show ?case by auto
qed

lemma reconcile_keeps:
  assumes "reconcile_pending_deliveries env pad = (evs, Some pad')" and "distinct (map sd_id (sp_seen_deliveries pad))"
  shows "distinct (map sd_id (sp_seen_deliveries pad'))"
    and "held k X (sp_seen_deliveries pad) \<Longrightarrow> held k X (sp_seen_deliveries pad') \<or> retried X evs"
  using reconcile_loop_keeps [OF assms(1) [unfolded reconcile_pending_deliveries_def] assms(2)] by blast+

subsection \<open>Dispatch\<close>

lemma record_pending_ledger:
  "distinct (map sd_id (sp_seen_deliveries pad)) \<Longrightarrow>
     distinct (map sd_id (sp_seen_deliveries (record_pending_action key item now pad)))"
  "item \<in> X \<Longrightarrow> held key X (sp_seen_deliveries (record_pending_action key item now pad))"
  "k \<noteq> key \<Longrightarrow> held k X (sp_seen_deliveries pad) \<Longrightarrow>
     held k X (sp_seen_deliveries (record_pending_action key item now pad))"
  by (auto simp: record_pending_action_def new_entry_def held_def live_delivery_def distinct_filter_map)

lemma record_all_ledger:
  "distinct (map sd_id (sp_seen_deliveries pad)) \<Longrightarrow>
     distinct (map sd_id (sp_seen_deliveries (fold (\<lambda>(c, key, item) p. record_pending_action key item now p) fires pad)))"
  by (induction fires arbitrary: pad) (auto simp: record_pending_ledger(1))

lemma record_all_held:
  assumes "\<And>c item. (c, k, item) \<in> set fires \<Longrightarrow> item \<in> X"
    and "held k X (sp_seen_deliveries pad) \<or> (\<exists>c item. (c, k, item) \<in> set fires)"
  shows "held k X (sp_seen_deliveries (fold (\<lambda>(c, key, item) p. record_pending_action key item now p) fires pad))"
  using assms
proof (induction fires arbitrary: pad)
  case Nil
  then show ?case by simp
next
  case (Cons f fires)
  obtain c key item where f: "f = (c, key, item)" by (cases f)
  have "held k X (sp_seen_deliveries (record_pending_action key item now pad)) \<or>
      (\<exists>c item. (c, k, item) \<in> set fires)"
    using Cons.prems f record_pending_ledger(2,3) [where key = key and item = item and now = now]
    by (cases "k = key") auto
  with Cons.IH [of "record_pending_action key item now pad"] Cons.prems(1) f show ?case by auto
qed

lemma attach_ledger:
  "map sd_id (sp_seen_deliveries (attach_dispatch_run key run pad)) = map sd_id (sp_seen_deliveries pad)"
  "held k X (sp_seen_deliveries pad) \<Longrightarrow> held k X (sp_seen_deliveries (attach_dispatch_run key run pad))"
  by (auto simp: attach_dispatch_run_def modify_pending_def modify_first_ids intro!: held_modify_first split: if_splits)

lemma attach_all_ledger:
  "map sd_id (sp_seen_deliveries (fold (\<lambda>(c, key, item) p. attach_dispatch_run key run p) fires pad)) =
     map sd_id (sp_seen_deliveries pad)"
  "held k X (sp_seen_deliveries pad) \<Longrightarrow>
     held k X (sp_seen_deliveries (fold (\<lambda>(c, key, item) p. attach_dispatch_run key run p) fires pad))"
  by (induction fires arbitrary: pad) (auto simp: attach_ledger)

lemma ww_saved_simps [simp]:
  "ww_saved (save b pad w) = (if b then Some pad else ww_saved w)"
  "ww_saved (emit_health_events evs w) = ww_saved w"
  "ww_saved (fire_assignment env cs w) = ww_saved w"
  "ww_saved (set_assignment_contract b c tool args w) = ww_saved w"
  by (simp_all add: save_def emit_health_events_def fire_assignment_def set_assignment_contract_def)

lemma ww_events_simps [simp]:
  "ww_events (save b pad w) = ww_events w"
  "ww_events (emit_health_events evs w) = ww_events w @ evs"
  "ww_events (fire_assignment env cs w) = ww_events w"
  "ww_events (set_assignment_contract b c tool args w) = ww_events w"
  by (simp_all add: save_def emit_health_events_def fire_assignment_def set_assignment_contract_def)

lemma dispatch_saved:
  assumes "en_first_write env" and "en_second_write env" and "dispatch env fires pad w = (fired, w')"
    and "distinct (map sd_id (sp_seen_deliveries pad))"
  obtains p where "ww_saved w' = Some p" and "distinct (map sd_id (sp_seen_deliveries p))"
    and "\<And>k X. (\<And>c item. (c, k, item) \<in> set fires \<Longrightarrow> item \<in> X) \<Longrightarrow>
      held k X (sp_seen_deliveries pad) \<or> (\<exists>c item. (c, k, item) \<in> set fires) \<Longrightarrow> held k X (sp_seen_deliveries p)"
proof (cases "fires = []")
  case True
  with assms show thesis by (intro that [of "record_poll_outcome False (en_now env) pad"]) (auto simp: dispatch_def)
next
  case False
  let ?pad1 = "fold (\<lambda>(c, key, item) p. record_pending_action key item (en_clock env) p) fires pad"
  show thesis
  proof (cases "en_fire env")
    case (Inl e)
    with False assms show thesis
      by (intro that [of "record_poll_outcome False (en_now env) ?pad1"])
        (auto simp: dispatch_def Let_def record_all_ledger intro: record_all_held)
  next
    case (Inr run)
    with False assms show thesis
      by (intro that [of "record_poll_outcome True (en_now env)
            (fold (\<lambda>(c, key, item) p. attach_dispatch_run key run p) fires ?pad1)"])
        (auto simp: dispatch_def Let_def record_all_ledger attach_all_ledger(1) intro!: attach_all_ledger(2) record_all_held)
  qed
qed

lemma dispatch_events: "dispatch env fires pad w = (fired, w') \<Longrightarrow> \<exists>es. ww_events w' = ww_events w @ es"
  by (auto simp: dispatch_def Let_def split: if_splits sum.splits)

lemma amend_events: "\<exists>es. ww_events (snd (amend env pad w)) = ww_events w @ es"
  by (simp add: amend_def Let_def)

subsection \<open>One poll\<close>

definition ledger_ids_distinct :: "('n, 'f) watch_world \<Rightarrow> bool" where
  "ledger_ids_distinct w \<longleftrightarrow> (\<forall>pad. ww_saved w = Some pad \<longrightarrow> distinct (map sd_id (sp_seen_deliveries pad)))"

definition world_holds :: "utext \<Rightarrow> utext set \<Rightarrow> ('n, 'f) watch_world \<Rightarrow> bool" where
  "world_holds key items w \<longleftrightarrow> (\<exists>pad. ww_saved w = Some pad \<and> held key items (sp_seen_deliveries pad))"

definition new_events :: "('n, 'f) watch_world \<Rightarrow> ('n, 'f) watch_world \<Rightarrow> watch_event list" where
  "new_events w w' = drop (length (ww_events w)) (ww_events w')"

text \<open>What a poll of a bound watch does to the ledger, in terms of what it dispatches.\<close>

lemma bound_tick_ledger:
  assumes "reconcile_pending_deliveries env pad = (evs, Some pad0)" and "en_first_write env" and "en_second_write env"
    and "run_contract_bound_tick ops display aid env c pad first force cands path inferred w = (r, w')"
    and "distinct (map sd_id (sp_seen_deliveries pad))"
  defines "fires \<equiv> ta_fire (judge_poll ops display aid env c first force cands
      (pad0\<lparr>sp_last_extraction_path := path, sp_last_inferred_tier := inferred\<rparr>))"
  obtains p es where "ww_saved w' = Some p" and "ww_events w' = ww_events w @ evs @ es"
    and "distinct (map sd_id (sp_seen_deliveries p))"
    and "\<And>k X. (\<And>c item. (c, k, item) \<in> set fires \<Longrightarrow> item \<in> X) \<Longrightarrow>
      held k X (sp_seen_deliveries pad0) \<or> (\<exists>c item. (c, k, item) \<in> set fires) \<Longrightarrow> held k X (sp_seen_deliveries p)"
proof -
  let ?pad1 = "pad0\<lparr>sp_last_extraction_path := path, sp_last_inferred_tier := inferred\<rparr>"
  let ?t = "judge_poll ops display aid env c first force cands ?pad1"
  let ?re = "if fingerprint_changed ops c first ?pad1 then [Ev_Reseeded] else []"
  let ?d = "disclose ?t (ta_pad ?t, evs @ ?re @ ta_events ?t)"
  let ?c = "count_poll cands ?t ?d"
  let ?a = "amend env (fst ?c) (emit_health_events (snd ?c) w)"
  obtain fired w4 where d: "dispatch env fires (fst ?a) (snd ?a) = (fired, w4)" by (cases "dispatch env fires (fst ?a) (snd ?a)")
  have w': "w' = w4"
    using assms(4) d by (simp add: run_contract_bound_tick_def assms(1) Let_def fires_def split_beta)
  have l: "sp_seen_deliveries (fst ?a) = sp_seen_deliveries pad0" by simp
  have dist: "distinct (map sd_id (sp_seen_deliveries (fst ?a)))"
    unfolding l by (rule reconcile_keeps(1) [OF assms(1,5)])
  obtain es1 where es1: "ww_events w' = ww_events (snd ?a) @ es1" using dispatch_events [OF d] w' by blast
  obtain es2 where es2: "ww_events (snd ?a) = ww_events (emit_health_events (snd ?c) w) @ es2" using amend_events by blast
  have "\<exists>es. snd ?c = evs @ es" by (simp add: count_poll_def disclose_def Let_def split: prod.split)
  then obtain es3 where es3: "snd ?c = evs @ es3" by blast
  from dispatch_saved [OF assms(2,3) d dist] obtain p where p: "ww_saved w4 = Some p"
    "distinct (map sd_id (sp_seen_deliveries p))"
    "\<And>k X. (\<And>c item. (c, k, item) \<in> set fires \<Longrightarrow> item \<in> X) \<Longrightarrow>
      held k X (sp_seen_deliveries (fst ?a)) \<or> (\<exists>c item. (c, k, item) \<in> set fires) \<Longrightarrow> held k X (sp_seen_deliveries p)"
    by blast
  show thesis
    by (rule that [of p "es3 @ es2 @ es1"]) (use p es1 es2 es3 w' l in \<open>auto simp only: l ww_events_simps append_assoc\<close>)
qed

lemma judged_not_held:
  assumes "(cand, k, item) \<in> set (ta_fire (judge_poll ops display aid env c first force cands pad))"
  shows "\<not> held k X (sp_seen_deliveries pad)"
proof -
  define I :: "('a, 'b) tally \<Rightarrow> bool" where
    "I t \<longleftrightarrow> sp_seen_deliveries (ta_pad t) = sp_seen_deliveries pad \<and>
      (\<forall>(cand, k, item) \<in> set (ta_fire t). \<not> held k X (sp_seen_deliveries pad))" for t
  have seen: "held k X (sp_seen_deliveries p) \<Longrightarrow> has_seen_delivery k now p" for k now and p :: "('a, 'b) scratchpad"
    by (auto simp: held_def has_seen_delivery_def list_ex_iff live_delivery_def)
  have step: "I (judge_candidate ops display aid env c tm x t)" if "I t" for tm x t
  proof (cases "candidate_keys ops c (ca_payload x)")
    case (Inl e)
    with that show ?thesis by (simp add: I_def judge_candidate_def quarantine_def)
  next
    case (Inr kv)
    obtain i v where kv: "kv = (i, v)" by (cases kv)
    let ?t = "judge_candidate ops display aid env c tm x t"
    have l: "sp_seen_deliveries (ta_pad ?t) = sp_seen_deliveries pad" using that judge_ledger unfolding I_def by metis
    have "ta_fire ?t = ta_fire t \<or> (\<exists>key. ta_fire ?t = ta_fire t @ [(x, key, i)] \<and>
        \<not> has_seen_delivery key (en_clock env) (ta_pad ?t))"
      by (simp add: judge_candidate_def Inr kv judge_item_def Let_def split: prod.split)
    with that l seen show ?thesis unfolding I_def by (auto split: prod.splits) metis+
  qed
  have "I (judge_poll ops display aid env c first force cands pad)"
    unfolding judge_poll_def
    by (rule fold_invariant [where Q = "\<lambda>_. True"]) (simp_all add: step, simp add: I_def start_tally_def)
  with assms show ?thesis by (auto simp: I_def)
qed

lemma legacy_ledger:
  assumes "run_legacy_seen_ids_tick ops env pad seed cands w = (b, w')"
  shows "(ww_saved w' = ww_saved w \<or> (\<exists>p. ww_saved w' = Some p \<and> sp_seen_deliveries p = sp_seen_deliveries pad))"
    and "\<exists>es. ww_events w' = ww_events w @ es"
  using assms by (auto simp: run_legacy_seen_ids_tick_def Let_def split: if_splits sum.splits)

lemma resume_ledger: "sp_seen_deliveries (fst (resume_authoring key pad)) = sp_seen_deliveries pad"
  by (simp add: resume_authoring_def Let_def)

lemma note_outcome_ledger: "sp_seen_deliveries (fst (note_outcome outcome pad)) = sp_seen_deliveries pad"
  by (simp add: note_outcome_def Let_def split: authoring_outcome.split)

lemma bind_authored_simps [simp]:
  "ww_saved (bind_authored au w) = ww_saved w" "ww_events (bind_authored au w) = ww_events w"
  by (simp_all add: bind_authored_def split: option.split prod.split)

lemma authoring_ledger:
  assumes "run_authoring_and_legacy_tick ops env instr scope frozen au pad first w = (b, w')"
  shows "(ww_saved w' = ww_saved w \<or> (\<exists>p. ww_saved w' = Some p \<and> sp_seen_deliveries p = sp_seen_deliveries pad)) \<and>
    (\<exists>es. ww_events w' = ww_events w @ es)"
proof -
  obtain pad1 evs where r: "resume_authoring (authoring_input_key instr scope) pad = (pad1, evs)"
    by (cases "resume_authoring (authoring_input_key instr scope) pad")
  have p1: "sp_seen_deliveries pad1 = sp_seen_deliveries pad" using resume_ledger r by (metis fst_conv)
  have after: "(ww_saved w' = ww_saved v \<or> (\<exists>p. ww_saved w' = Some p \<and> sp_seen_deliveries p = sp_seen_deliveries q)) \<and>
      (\<exists>es. ww_events w' = ww_events v @ es)" if "legacy_after ops env first q cs v = (b, w')" for q cs v
    using legacy_ledger [OF that [unfolded legacy_after_def]] by blast
  show ?thesis
  proof (cases "authoring_failure_ceiling \<le> sp_authoring_failure_streak pad1")
    case True
    show ?thesis
    proof (cases "snd frozen")
      case None
      with assms r True p1 show ?thesis by (auto simp: run_authoring_and_legacy_tick_def Let_def split: if_splits)
    next
      case (Some cands)
      with assms r True after [of _ cands "emit_health_events evs w"] p1 show ?thesis
        by (fastforce simp: run_authoring_and_legacy_tick_def Let_def)
    qed
  next
    case False
    show ?thesis
    proof (cases "au_result au")
      case None
      with assms r False p1 show ?thesis by (auto simp: run_authoring_and_legacy_tick_def Let_def split: if_splits)
    next
      case (Some co)
      obtain cands outcome where co: "co = (cands, outcome)" by (cases co)
      obtain pad3 evs3 where n: "note_outcome outcome (put_authoring au pad1) = (pad3, evs3)"
        by (cases "note_outcome outcome (put_authoring au pad1)")
      have p3: "sp_seen_deliveries pad3 = sp_seen_deliveries pad" using note_outcome_ledger n p1
        by (metis fst_conv ledger_kept(5))
      let ?v = "save (en_first_write env) pad3 (emit_health_events evs3 (bind_authored au (emit_health_events (map Ev_Observation (au_events au)) (emit_health_events evs w))))"
      have "legacy_after ops env first pad3 cands ?v = (b, w')"
        using assms r False Some co n by (simp add: run_authoring_and_legacy_tick_def Let_def)
      from after [OF this] p3 show ?thesis by (auto split: if_splits)
    qed
  qed
qed

text \<open>The scratchpad can be read and every write succeeds.\<close>

definition storage_works :: "watch_env \<Rightarrow> bool" where
  "storage_works env \<longleftrightarrow> en_load env \<and> en_reset_write env \<and> en_first_write env \<and> en_second_write env"

text \<open>The ledger through one poll: \<open>fires\<close> is what the poll dispatches, \<open>es\<close> the events it emits.\<close>

definition poll_keeps ::
    "('n candidate \<times> utext \<times> utext) list \<Rightarrow> watch_event list \<Rightarrow> ('n, 'f) watch_world \<Rightarrow>
     ('n, 'f) watch_world \<Rightarrow> bool" where
  "poll_keeps fires es w w' \<longleftrightarrow>
     ledger_ids_distinct w' \<and> ww_events w' = ww_events w @ es \<and>
     (\<forall>k X. world_holds k X w \<longrightarrow>
        (world_holds k X w' \<or> retried X es) \<and> ((\<exists>c item. (c, k, item) \<in> set fires) \<longrightarrow> retried X es)) \<and>
     (\<forall>k X. (\<exists>c item. (c, k, item) \<in> set fires) \<longrightarrow> (\<forall>c item. (c, k, item) \<in> set fires \<longrightarrow> item \<in> X) \<longrightarrow>
        world_holds k X w')"

lemma poll_keeps_quiet:
  assumes "ledger_ids_distinct w" and "ww_events w' = ww_events w @ es"
    and "ww_saved w' = ww_saved w \<or> (\<exists>p. ww_saved w' = Some p \<and>
      sp_seen_deliveries p = sp_seen_deliveries (case ww_saved w of Some p \<Rightarrow> p | None \<Rightarrow> default_scratchpad))"
  shows "poll_keeps [] es w w'"
  using assms by (cases "ww_saved w") (auto simp: poll_keeps_def ledger_ids_distinct_def world_holds_def
      default_scratchpad_def)

lemma bound_poll_keeps:
  assumes "storage_works env" and "ledger_ids_distinct w" and "poll_bound_watch ops display aid env sel c w = (r, w')"
  shows "\<exists>es. poll_keeps (bound_fires ops display aid env sel c w) es w w'"
proof -
  let ?pad = "put_plan_state (sl_plan sel) (case ww_saved w of Some p \<Rightarrow> p | None \<Rightarrow> default_scratchpad)"
  have loaded: "loaded_pad env w = ww_saved w" and wr: "en_first_write env" "en_second_write env"
    using assms(1) by (simp_all add: loaded_pad_def storage_works_def)
  have lp: "sp_seen_deliveries ?pad = sp_seen_deliveries (case ww_saved w of Some p \<Rightarrow> p | None \<Rightarrow> default_scratchpad)"
    by simp
  have dist: "distinct (map sd_id (sp_seen_deliveries ?pad))"
    using assms(2) unfolding lp by (cases "ww_saved w") (auto simp: ledger_ids_distinct_def default_scratchpad_def)
  have holds: "world_holds k X w \<Longrightarrow> held k X (sp_seen_deliveries ?pad)" for k X
    by (auto simp: world_holds_def)
  show ?thesis
  proof (cases "sl_found sel")
    case None
    with assms(3) loaded wr have "ww_saved w' = Some ?pad" "ww_events w' = ww_events w @ map Ev_Observation (sl_events sel)"
      by (auto simp: poll_bound_watch_def Let_def)
    with poll_keeps_quiet [OF assms(2), of w'] None lp show ?thesis by (auto simp: bound_fires_def Let_def)
  next
    case (Some found)
    obtain cands path inferred force where found: "found = (cands, path, inferred, force)" by (cases found)
    have run: "run_contract_bound_tick ops display aid env c ?pad (ww_saved w = None) force cands path inferred
        (emit_health_events (map Ev_Observation (sl_events sel)) w) = (r, w')"
      using assms(3) Some found loaded by (simp add: poll_bound_watch_def Let_def)
    obtain evs rp where rec: "reconcile_pending_deliveries env ?pad = (evs, rp)"
      by (cases "reconcile_pending_deliveries env ?pad")
    show ?thesis
    proof (cases rp)
      case None
      with run rec have "ww_saved w' = ww_saved w" "ww_events w' = ww_events w @ map Ev_Observation (sl_events sel) @ evs"
        by (auto simp: run_contract_bound_tick_def)
      moreover have "bound_fires ops display aid env sel c w = []"
        using Some found rec None loaded by (simp add: bound_fires_def Let_def)
      ultimately show ?thesis using poll_keeps_quiet [OF assms(2), of w'] by auto
    next
      case (Some pad0)
      let ?pad1 = "pad0\<lparr>sp_last_extraction_path := path, sp_last_inferred_tier := inferred\<rparr>"
      let ?fires = "ta_fire (judge_poll ops display aid env c (ww_saved w = None) force cands ?pad1)"
      have fires: "bound_fires ops display aid env sel c w = ?fires"
        using \<open>sl_found sel = Some found\<close> found rec Some loaded by (simp add: bound_fires_def Let_def)
      from bound_tick_ledger [OF rec [unfolded Some] wr run dist] obtain p es where p: "ww_saved w' = Some p"
        "ww_events w' = ww_events (emit_health_events (map Ev_Observation (sl_events sel)) w) @ evs @ es" "distinct (map sd_id (sp_seen_deliveries p))"
        and keep: "\<And>k X. (\<And>c item. (c, k, item) \<in> set ?fires \<Longrightarrow> item \<in> X) \<Longrightarrow>
          held k X (sp_seen_deliveries pad0) \<or> (\<exists>c item. (c, k, item) \<in> set ?fires) \<Longrightarrow> held k X (sp_seen_deliveries p)"
        by blast
      have not_held: "\<not> held k X (sp_seen_deliveries pad0)" if "(x, k, item) \<in> set ?fires" for x k item X
        using judged_not_held [OF that] by simp
      have "poll_keeps ?fires (map Ev_Observation (sl_events sel) @ evs @ es) w w'"
        unfolding poll_keeps_def
      proof (intro conjI allI impI)
        show "ledger_ids_distinct w'" using p by (simp add: ledger_ids_distinct_def)
        show "ww_events w' = ww_events w @ map Ev_Observation (sl_events sel) @ evs @ es" using p(2) by simp
        show "world_holds k X w'" if "\<exists>c item. (c, k, item) \<in> set ?fires"
          "\<forall>c item. (c, k, item) \<in> set ?fires \<longrightarrow> item \<in> X" for k X
          using that keep [of k X] p(1) by (auto simp: world_holds_def)
      next
        fix k X
        assume "world_holds k X w"
        from reconcile_keeps(2) [OF rec [unfolded Some] dist holds [OF this]]
        have h: "held k X (sp_seen_deliveries pad0) \<or> retried X evs" .
        show "retried X (map Ev_Observation (sl_events sel) @ evs @ es)" if "\<exists>c item. (c, k, item) \<in> set ?fires"
          using that h not_held by auto
        show "world_holds k X w' \<or> retried X (map Ev_Observation (sl_events sel) @ evs @ es)"
        proof (cases "\<exists>c item. (c, k, item) \<in> set ?fires")
          case True
          with h not_held show ?thesis by auto
        next
          case False
          with h keep [of k X] p(1) show ?thesis by (auto simp: world_holds_def)
        qed
      qed
      then show ?thesis unfolding fires by blast
    qed
  qed
qed

lemma unbound_poll_keeps:
  assumes "storage_works env" and "ledger_ids_distinct w"
    and "poll_unbound_watch ops env instr scope frozen au w = (b, w')"
  shows "\<exists>es. poll_keeps [] es w w'"
proof -
  let ?pad = "case ww_saved w of Some p \<Rightarrow> p | None \<Rightarrow> default_scratchpad"
  have loaded: "loaded_pad env w = ww_saved w" using assms(1) by (simp add: loaded_pad_def storage_works_def)
  obtain pad1 w1 where run: "run_authoring_and_legacy_tick ops env instr scope frozen au pad1 (ww_saved w = None) w1 = (b, w')"
    and p1: "sp_seen_deliveries pad1 = sp_seen_deliveries ?pad"
    and w1: "ww_events w1 = ww_events w" "ww_saved w1 = ww_saved w \<or> ww_saved w1 = Some pad1"
    using assms(3) loaded by (auto simp: poll_unbound_watch_def Let_def split: if_splits)
  from authoring_ledger [OF run] w1 p1 poll_keeps_quiet [OF assms(2), of w'] show ?thesis
    by (metis append.assoc)
qed

lemma poll_keeps_all:
  assumes "storage_works (po_env inp)" and "ledger_ids_distinct w"
    and "run_agent_watch_tick ops display aid instr scope inp w = (r, w')"
  shows "\<exists>es. poll_keeps (poll_fires ops display aid inp w) es w w'"
proof (cases "ww_contract w")
  case None
  obtain b v where u: "poll_unbound_watch ops (po_env inp) instr scope (po_frozen inp) (po_authoring inp) w = (b, v)"
    by (cases "poll_unbound_watch ops (po_env inp) instr scope (po_frozen inp) (po_authoring inp) w")
  with None assms(3) unbound_poll_keeps [OF assms(1,2) u] show ?thesis
    by (simp add: run_agent_watch_tick_def poll_fires_def)
next
  case (Some c)
  with assms(3) bound_poll_keeps [OF assms(1,2), of ops display aid "po_selection inp" c r w'] show ?thesis
    by (simp add: run_agent_watch_tick_def poll_fires_def)
qed

section \<open>Runs of polls\<close>

text \<open>A run: each poll with the instruction and the connector scope the assignment has then.\<close>

fun run_polls ::
    "('n, 'f) watch_ops \<Rightarrow> (watch_error \<Rightarrow> utext) \<Rightarrow> utext \<Rightarrow>
     (utext \<times> utext option \<times> ('n, 'f) poll_input) list \<Rightarrow> ('n, 'f) watch_world \<Rightarrow> ('n, 'f) watch_world" where
  "run_polls ops display aid [] w = w"
| "run_polls ops display aid ((instr, scope, inp) # polls) w =
     run_polls ops display aid polls (snd (run_agent_watch_tick ops display aid instr scope inp w))"

lemma run_polls_keeps:
  "(\<forall>(instr, scope, inp) \<in> set polls. storage_works (po_env inp)) \<Longrightarrow> ledger_ids_distinct w \<Longrightarrow>
     ledger_ids_distinct (run_polls ops display aid polls w) \<and>
     (\<exists>es. ww_events (run_polls ops display aid polls w) = ww_events w @ es \<and>
       (\<forall>k X. world_holds k X w \<longrightarrow> world_holds k X (run_polls ops display aid polls w) \<or> retried X es))"
proof (induction polls arbitrary: w)
  case Nil
  then show ?case by simp
next
  case (Cons poll polls)
  obtain instr scope inp where poll: "poll = (instr, scope, inp)" by (cases poll)
  let ?w = "snd (run_agent_watch_tick ops display aid instr scope inp w)"
  obtain r where t: "run_agent_watch_tick ops display aid instr scope inp w = (r, ?w)"
    by (cases "run_agent_watch_tick ops display aid instr scope inp w") auto
  from Cons.prems poll have "storage_works (po_env inp)" by simp
  from poll_keeps_all [OF this Cons.prems(2) t] obtain es where es: "poll_keeps (poll_fires ops display aid inp w) es w ?w" ..
  then have d: "ledger_ids_distinct ?w" by (simp add: poll_keeps_def)
  from Cons.IH [OF _ d] Cons.prems(1) obtain fs where
    fs: "ledger_ids_distinct (run_polls ops display aid polls ?w)"
      "ww_events (run_polls ops display aid polls ?w) = ww_events ?w @ fs"
      "\<forall>k X. world_holds k X ?w \<longrightarrow> world_holds k X (run_polls ops display aid polls ?w) \<or> retried X fs" by auto
  have "ww_events (run_polls ops display aid (poll # polls) w) = ww_events w @ es @ fs"
    using es fs(2) poll by (simp add: poll_keeps_def)
  moreover have "world_holds k X (run_polls ops display aid (poll # polls) w) \<or> retried X (es @ fs)"
    if "world_holds k X w" for k X
    using that es fs(3) poll unfolding poll_keeps_def by auto
  ultimately show ?case using fs(1) poll by auto
qed

text \<open>C10: While the scratchpad can be read and written, an action that was dispatched is dispatched again - the same item
  in the same version and on the same entry into the matching state - only after an event that reports its retry.\<close>

theorem dispatched_again_only_after_retry:
  assumes "ledger_ids_distinct w" and "storage_works (po_env inp)" and "storage_works (po_env inp')"
    and "\<forall>(instr, scope, i) \<in> set polls. storage_works (po_env i)"
    and "w1 = snd (run_agent_watch_tick ops display aid instr scope inp w)"
    and "w2 = run_polls ops display aid polls w1"
    and "w3 = snd (run_agent_watch_tick ops display aid instr' scope' inp' w2)"
    and "(cand, key, item) \<in> set (poll_fires ops display aid inp w)"
    and "(cand', key, item') \<in> set (poll_fires ops display aid inp' w2)"
  shows "\<exists>x n. Ev_Retried x n \<in> set (new_events w1 w3) \<and>
     (x = text_of ''<unknown item>'' \<or> (\<exists>c. (c, key, x) \<in> set (poll_fires ops display aid inp w)))"
proof -
  let ?X = "{x. \<exists>c. (c, key, x) \<in> set (poll_fires ops display aid inp w)}"
  obtain r where t1: "run_agent_watch_tick ops display aid instr scope inp w = (r, w1)"
    using assms(5) by (cases "run_agent_watch_tick ops display aid instr scope inp w") simp
  obtain r' where t3: "run_agent_watch_tick ops display aid instr' scope' inp' w2 = (r', w3)"
    using assms(7) by (cases "run_agent_watch_tick ops display aid instr' scope' inp' w2") simp
  from poll_keeps_all [OF assms(2,1) t1] obtain es1 where k1: "poll_keeps (poll_fires ops display aid inp w) es1 w w1" ..
  then have d1: "ledger_ids_distinct w1" by (simp add: poll_keeps_def)
  from k1 have "(\<exists>c item. (c, key, item) \<in> set (poll_fires ops display aid inp w)) \<longrightarrow>
      (\<forall>c item. (c, key, item) \<in> set (poll_fires ops display aid inp w) \<longrightarrow> item \<in> ?X) \<longrightarrow> world_holds key ?X w1"
    unfolding poll_keeps_def by blast
  with assms(8) have h1: "world_holds key ?X w1" by blast
  from run_polls_keeps [OF assms(4) d1, of ops display aid] obtain es where d2: "ledger_ids_distinct w2"
    and e2: "ww_events w2 = ww_events w1 @ es" and h2: "world_holds key ?X w2 \<or> retried ?X es"
    using h1 assms(6) by blast
  from poll_keeps_all [OF assms(3) d2 t3] obtain fs where k3: "poll_keeps (poll_fires ops display aid inp' w2) fs w2 w3" ..
  then have "new_events w1 w3 = es @ fs" using e2 by (simp add: new_events_def poll_keeps_def)
  moreover have "retried ?X (es @ fs)" using h2 k3 assms(9) by (auto simp: poll_keeps_def)
  ultimately show ?thesis by (auto simp: retried_def)
qed

end
