(* ===== verification/Watch_Bounds.thy ===== *)
theory Watch_Bounds
  imports Watch_Properties
begin

text \<open>
  The bounds of a watch's scratchpad in every run, the bound on the contracts a watch replaces by itself, and
  what the bound on the seen items of a watch without a contract does to a longer source.
\<close>

section \<open>Well-formed scratchpads\<close>

definition pad_ok :: "('n, 'f) scratchpad \<Rightarrow> bool" where
  "pad_ok pad \<longleftrightarrow>
     distinct (map is_identity_key (sp_snapshots pad)) \<and> length (sp_snapshots pad) \<le> snapshot_cap \<and>
     length (sp_seen_ids pad) \<le> seen_ids_cap \<and> distinct (map sd_id (sp_seen_deliveries pad))"

lemma pad_okI:
  "pad_ok pad \<Longrightarrow> sp_snapshots pad' \<in> {sp_snapshots pad, []} \<Longrightarrow> sp_seen_ids pad' = sp_seen_ids pad \<Longrightarrow>
     sp_seen_deliveries pad' = sp_seen_deliveries pad \<Longrightarrow> pad_ok pad'"
  by (auto simp: pad_ok_def)

lemma pad_ok_default: "pad_ok default_scratchpad"
  by (simp add: pad_ok_def default_scratchpad_def)

lemma record_item_snapshot_ok:
  assumes "pad_ok pad" and "record_item_snapshot s pad = (pad', n)"
  shows "pad_ok pad'"
proof -
  let ?ss = "filter (\<lambda>t. is_identity_key t \<noteq> is_identity_key s) (sp_snapshots pad) @ [s]"
  have "distinct (map is_identity_key ?ss)" using assms(1) by (auto simp: pad_ok_def distinct_filter_map)
  then have d: "distinct (map is_identity_key (drop m ?ss))" for m by (simp only: drop_map [symmetric] distinct_drop)
  from assms(2) have p: "sp_snapshots pad' = drop (length ?ss - snapshot_cap) ?ss"
    "sp_seen_ids pad' = sp_seen_ids pad" "sp_seen_deliveries pad' = sp_seen_deliveries pad"
    by (auto simp: record_item_snapshot_def Let_def)
  have "length (drop (length ?ss - snapshot_cap) ?ss) \<le> snapshot_cap" by (simp only: length_drop)
  with d assms(1) show ?thesis unfolding pad_ok_def p by blast
qed

lemma judge_ok: "pad_ok (ta_pad t) \<Longrightarrow> pad_ok (ta_pad (judge_candidate ops display aid env c tm cand t))"
  by (auto simp: judge_candidate_def quarantine_def judge_item_def Let_def intro: record_item_snapshot_ok
      split: sum.split prod.split)

lemma judge_poll_ok: "pad_ok pad \<Longrightarrow> pad_ok (ta_pad (judge_poll ops display aid env c first force cands pad))"
  unfolding judge_poll_def
  by (rule fold_invariant [where Q = "\<lambda>_. True"]) (auto simp: judge_ok start_tally_def bind_pad_def intro: pad_okI)

lemma reconcile_at_ok:
  assumes "reconcile_at env i pad = Some (evs, pad')" and "pad_ok pad"
  shows "pad_ok pad'"
proof -
  have d: "distinct (map sd_id (sp_seen_deliveries pad'))"
    by (rule reconcile_at_keeps(1) [OF assms(1)]) (use assms(2) in \<open>simp add: pad_ok_def\<close>)
  have "\<exists>P. sp_snapshots pad' = filter P (sp_snapshots pad)"
    using assms(1) by (auto simp: reconcile_at_def Let_def confirm_pending_delivery_def modify_pending_def
        clear_pending_delivery_def split: if_splits intro: exI [of _ "\<lambda>_. True"])
  moreover have "sp_seen_ids pad' = sp_seen_ids pad"
    using assms(1) by (auto simp: reconcile_at_def Let_def confirm_pending_delivery_def modify_pending_def
        clear_pending_delivery_def split: if_splits)
  ultimately show ?thesis using d assms(2)
    by (auto simp: pad_ok_def distinct_filter_map intro: le_trans [OF length_filter_le])
qed

lemma reconcile_ok:
  assumes "reconcile_pending_deliveries env pad = (evs, Some pad')" and "pad_ok pad"
  shows "pad_ok pad'"
proof -
  have "reconcile_loop env is pad = (evs, Some pad') \<Longrightarrow> pad_ok pad \<Longrightarrow> pad_ok pad'" for "is" pad evs
    by (induction "is" arbitrary: pad evs) (auto dest: reconcile_at_ok split: option.splits prod.splits)
  with assms show ?thesis by (simp add: reconcile_pending_deliveries_def)
qed

lemma pad_ok_kept:
  "pad_ok pad \<Longrightarrow> pad_ok (record_poll_outcome f now pad)"
  "pad_ok pad \<Longrightarrow> pad_ok (put_plan_state pl pad)"
  "pad_ok pad \<Longrightarrow> pad_ok (put_authoring au pad)"
  "pad_ok pad \<Longrightarrow> pad_ok (forget_contract pad)"
  "pad_ok pad \<Longrightarrow> pad_ok (reset_orphaned pad)"
  "pad_ok pad \<Longrightarrow> pad_ok (record_additional_model_calls d n pad)"
  "pad_ok pad \<Longrightarrow> pad_ok (fst (resume_authoring key pad))"
  "pad_ok pad \<Longrightarrow> pad_ok (fst (note_outcome outcome pad))"
  "pad_ok (fst pe) \<Longrightarrow> pad_ok (fst (disclose t pe))"
  "pad_ok (fst pe) \<Longrightarrow> pad_ok (fst (count_poll cands t pe))"
  "pad_ok pad \<Longrightarrow> pad_ok (fst (amend env pad w))"
  "pad_ok pad \<Longrightarrow> pad_ok (pad\<lparr>sp_last_extraction_path := path, sp_last_inferred_tier := inferred\<rparr>)"
  by (auto simp: record_poll_outcome_def put_plan_state_def put_authoring_def forget_contract_def reset_orphaned_def
      clear_extraction_plan_def record_additional_model_calls_def resume_authoring_def note_outcome_def disclose_def
      count_poll_def amend_def Let_def pad_ok_def split: authoring_outcome.split prod.split)

lemma cap_seen_length: "length (cap_seen ids) \<le> seen_ids_cap"
  by (simp add: cap_seen_def)

definition world_ok :: "('n, 'f) watch_world \<Rightarrow> bool" where
  "world_ok w \<longleftrightarrow> (\<forall>pad. ww_saved w = Some pad \<longrightarrow> pad_ok pad)"

lemma world_ok_simps [simp]:
  "world_ok (emit_health_events evs w) = world_ok w"
  "world_ok (fire_assignment env cs w) = world_ok w"
  "world_ok (set_assignment_contract b c tool args w) = world_ok w"
  "world_ok (bind_authored au w) = world_ok w"
  by (simp_all add: world_ok_def)

lemma world_ok_save: "world_ok w \<Longrightarrow> pad_ok pad \<Longrightarrow> world_ok (save b pad w)"
  by (simp add: world_ok_def)

lemma dispatch_ok:
  assumes "pad_ok pad" and "world_ok w"
  shows "world_ok (snd (dispatch env fires pad w))"
proof -
  have rp: "pad_ok (record_pending_action key item now p)" if "pad_ok p" for key item now and p :: "('a, 'b) scratchpad"
    using that record_pending_ledger(1) [of p key item now] by (auto simp: pad_ok_def record_pending_action_def)
  have at: "pad_ok (attach_dispatch_run key run p)" if "pad_ok p" for key run and p :: "('a, 'b) scratchpad"
    using that attach_ledger(1) [of key run p] by (auto simp: pad_ok_def attach_dispatch_run_def modify_pending_def)
  have r: "pad_ok (fold (\<lambda>(c, key, item) p. record_pending_action key item now p) fires p)" if "pad_ok p"
    for now and p :: "('a, 'b) scratchpad" and fires :: "('a candidate \<times> utext \<times> utext) list"
    using that by (induction fires arbitrary: p) (auto simp: rp)
  have a: "pad_ok (fold (\<lambda>(c, key, item) p. attach_dispatch_run key run p) fires p)" if "pad_ok p"
    for run and p :: "('a, 'b) scratchpad" and fires :: "('a candidate \<times> utext \<times> utext) list"
    using that by (induction fires arbitrary: p) (auto simp: at)
  show ?thesis using assms
    by (auto simp: dispatch_def Let_def intro!: world_ok_save pad_ok_kept r a split: sum.split)
qed

lemma bound_tick_ok:
  assumes "pad_ok pad" and "world_ok w"
  shows "world_ok (snd (run_contract_bound_tick ops display aid env c pad first force cands path inferred w))"
proof -
  obtain evs rp where rec: "reconcile_pending_deliveries env pad = (evs, rp)" by (cases "reconcile_pending_deliveries env pad")
  show ?thesis
  proof (cases rp)
    case None
    with rec assms show ?thesis by (simp add: run_contract_bound_tick_def)
  next
    case (Some pad0)
    let ?pad1 = "pad0\<lparr>sp_last_extraction_path := path, sp_last_inferred_tier := inferred\<rparr>"
    let ?t = "judge_poll ops display aid env c first force cands ?pad1"
    have t: "pad_ok (ta_pad ?t)"
      by (intro judge_poll_ok pad_ok_kept(12) reconcile_ok [OF rec [unfolded Some] assms(1)])
    obtain pad2 evs2 where c: "count_poll cands ?t (disclose ?t (ta_pad ?t, evs @
        (if fingerprint_changed ops c first ?pad1 then [Ev_Reseeded] else []) @ ta_events ?t)) = (pad2, evs2)" by fastforce
    have 2: "pad_ok pad2" using pad_ok_kept(10) [OF pad_ok_kept(9)] t c by (metis fst_conv)
    obtain pad3 w3 where a: "amend env pad2 (emit_health_events evs2 w) = (pad3, w3)" by fastforce
    have 3: "pad_ok pad3" using pad_ok_kept(11) [OF 2] a by (metis fst_conv)
    have "world_ok w3" using a assms(2) by (auto simp: amend_def Let_def split: if_splits)
    from dispatch_ok [OF 3 this, of env "ta_fire ?t"] show ?thesis
      using rec Some c a by (simp add: run_contract_bound_tick_def Let_def split_beta)
  qed
qed

lemma legacy_ok:
  assumes "pad_ok pad" and "world_ok w"
  shows "world_ok (snd (run_legacy_seen_ids_tick ops env pad seed cands w))"
proof -
  have "pad_ok (record_seen ids pad)" "pad_ok (pad\<lparr>sp_seen_ids := cap_seen ids\<rparr>)" for ids
    using assms(1) cap_seen_length by (auto simp: pad_ok_def record_seen_def)
  with assms show ?thesis
    by (auto simp: run_legacy_seen_ids_tick_def Let_def intro!: world_ok_save pad_ok_kept split: sum.split)
qed

lemma authoring_ok:
  assumes "pad_ok pad" and "world_ok w"
  shows "world_ok (snd (run_authoring_and_legacy_tick ops env instr scope frozen au pad first w))"
proof -
  obtain pad1 evs where r: "resume_authoring (authoring_input_key instr scope) pad = (pad1, evs)" by fastforce
  have 1: "pad_ok pad1" using pad_ok_kept(7) [OF assms(1)] r by (metis fst_conv)
  have 2: "pad_ok (put_authoring au pad1)" by (rule pad_ok_kept(3) [OF 1])
  have 3: "pad_ok (fst (note_outcome outcome (put_authoring au pad1)))" for outcome by (rule pad_ok_kept(8) [OF 2])
  show ?thesis using 1 2 3 assms(2)
    by (auto simp: run_authoring_and_legacy_tick_def r Let_def legacy_after_def record_model_call_def split_beta
        intro!: world_ok_save legacy_ok pad_ok_kept split: option.split)
qed

lemma poll_ok:
  assumes "world_ok w"
  shows "world_ok (snd (run_agent_watch_tick ops display aid instr scope inp w))"
proof -
  have l: "pad_ok (case loaded_pad (po_env inp) w of Some p \<Rightarrow> p | None \<Rightarrow> default_scratchpad)"
    using assms pad_ok_default by (auto simp: world_ok_def loaded_pad_def split: option.split)
  then have b: "world_ok (snd (poll_bound_watch ops display aid (po_env inp) (po_selection inp) c w))" for c
    using assms by (auto simp: poll_bound_watch_def Let_def intro!: world_ok_save bound_tick_ok pad_ok_kept split: option.split)
  have u: "world_ok (snd (poll_unbound_watch ops (po_env inp) instr scope (po_frozen inp) (po_authoring inp) w))"
    using assms l by (auto simp: poll_unbound_watch_def Let_def intro!: authoring_ok world_ok_save pad_ok_kept)
  show ?thesis using b u by (simp add: run_agent_watch_tick_def split_beta split: option.split)
qed

text \<open>C13: In every run of polls, whatever the observations, failures of the storage and panics, the scratchpad on disk has
  one snapshot per item and at most 2000, at most 200 seen ids and one ledger entry per action.\<close>

theorem scratchpads_stay_bounded:
  assumes "world_ok w"
  shows "world_ok (run_polls ops display aid polls w)"
  using assms
proof (induction polls arbitrary: w)
  case (Cons poll polls)
  then show ?case by (cases poll) (simp add: poll_ok)
qed simp

section \<open>Contracts replaced by the watch itself\<close>

definition amendments :: "watch_event list \<Rightarrow> nat" where
  "amendments evs = length (filter (\<lambda>e. case e of Ev_Amending _ \<Rightarrow> True | _ \<Rightarrow> False) evs)"

lemma amendments_simps [simp]:
  "amendments [] = 0"
  "amendments (es @ fs) = amendments es + amendments fs"
  "amendments (map Ev_Observation ts) = 0"
  by (simp_all add: amendments_def)

lemma finish_amendments [simp]:
  "amendments (snd (disclose t pe)) = amendments (snd pe)"
  "amendments (snd (count_poll cands t pe)) = amendments (snd pe)"
  by (simp_all add: disclose_def count_poll_def Let_def amendments_def split: prod.split option.split)

definition cycle_of :: "('n, 'f) watch_world \<Rightarrow> nat" where
  "cycle_of w = (case ww_saved w of Some pad \<Rightarrow> unat (sp_contract_amendment_cycle_count pad) | None \<Rightarrow> 0)"

text \<open>A watch without a contract has none that its scratchpad still refers to.\<close>

definition not_orphaned :: "('n, 'f) watch_world \<Rightarrow> bool" where
  "not_orphaned w \<longleftrightarrow>
     (ww_contract w = None \<longrightarrow> (\<forall>pad. ww_saved w = Some pad \<longrightarrow> sp_contract_fingerprint pad = None))"

lemma cycle_kept [simp]:
  "sp_contract_amendment_cycle_count (record_poll_outcome f now pad) = sp_contract_amendment_cycle_count pad"
  "sp_contract_amendment_cycle_count (put_plan_state pl pad) = sp_contract_amendment_cycle_count pad"
  "sp_contract_amendment_cycle_count (put_authoring au pad) = sp_contract_amendment_cycle_count pad"
  "sp_contract_amendment_cycle_count (record_additional_model_calls d n pad) = sp_contract_amendment_cycle_count pad"
  "sp_contract_amendment_cycle_count (record_model_call d pad) = sp_contract_amendment_cycle_count pad"
  "sp_contract_amendment_cycle_count (record_seen ids pad) = sp_contract_amendment_cycle_count pad"
  "sp_contract_amendment_cycle_count (fst (resume_authoring key pad)) = sp_contract_amendment_cycle_count pad"
  "sp_contract_amendment_cycle_count (fst (note_outcome outcome pad)) = sp_contract_amendment_cycle_count pad"
  "sp_contract_amendment_cycle_count (fst (disclose t pe)) = sp_contract_amendment_cycle_count (fst pe)"
  "sp_contract_amendment_cycle_count (fst (count_poll cands t pe)) = sp_contract_amendment_cycle_count (fst pe)"
  "sp_contract_amendment_cycle_count (bind_pad ops c b pad) = sp_contract_amendment_cycle_count pad"
  "sp_contract_amendment_cycle_count (record_pending_action key item at pad) = sp_contract_amendment_cycle_count pad"
  "sp_contract_amendment_cycle_count (attach_dispatch_run key run pad) = sp_contract_amendment_cycle_count pad"
  "sp_contract_amendment_cycle_count (confirm_pending_delivery key pad) = sp_contract_amendment_cycle_count pad"
  "sp_contract_amendment_cycle_count (forget_contract pad) = sp_contract_amendment_cycle_count pad"
  by (simp_all add: record_poll_outcome_def put_plan_state_def put_authoring_def record_additional_model_calls_def
      record_model_call_def record_seen_def resume_authoring_def note_outcome_def disclose_def count_poll_def
      bind_pad_def record_pending_action_def attach_dispatch_run_def modify_pending_def confirm_pending_delivery_def
      forget_contract_def clear_extraction_plan_def Let_def split: authoring_outcome.split prod.split)

lemma fingerprint_kept [simp]:
  "sp_contract_fingerprint (record_poll_outcome f now pad) = sp_contract_fingerprint pad"
  "sp_contract_fingerprint (record_pending_action key item at pad) = sp_contract_fingerprint pad"
  "sp_contract_fingerprint (attach_dispatch_run key run pad) = sp_contract_fingerprint pad"
  "sp_contract_fingerprint (put_authoring au pad) = sp_contract_fingerprint pad"
  "sp_contract_fingerprint (record_additional_model_calls d n pad) = sp_contract_fingerprint pad"
  "sp_contract_fingerprint (record_model_call d pad) = sp_contract_fingerprint pad"
  "sp_contract_fingerprint (record_seen ids pad) = sp_contract_fingerprint pad"
  "sp_contract_fingerprint (fst (resume_authoring key pad)) = sp_contract_fingerprint pad"
  "sp_contract_fingerprint (fst (note_outcome outcome pad)) = sp_contract_fingerprint pad"
  "sp_contract_fingerprint (forget_contract pad) = None"
  by (simp_all add: record_poll_outcome_def put_authoring_def record_additional_model_calls_def
      record_model_call_def record_seen_def resume_authoring_def note_outcome_def record_pending_action_def
      attach_dispatch_run_def modify_pending_def forget_contract_def clear_extraction_plan_def Let_def
      split: authoring_outcome.split)

lemma ww_contract_simps [simp]:
  "ww_contract (save b pad w) = ww_contract w"
  "ww_contract (emit_health_events evs w) = ww_contract w"
  "ww_contract (fire_assignment env cs w) = ww_contract w"
  "ww_contract (set_assignment_contract b c tool args w) = (if b then c else ww_contract w)"
  by (simp_all add: save_def emit_health_events_def fire_assignment_def set_assignment_contract_def)

lemma reconcile_cycle:
  assumes "reconcile_pending_deliveries env pad = (evs, r)"
  shows "amendments evs = 0"
    and "r = Some pad' \<Longrightarrow> sp_contract_amendment_cycle_count pad' = sp_contract_amendment_cycle_count pad"
proof -
  have a: "amendments es = 0 \<and> sp_contract_amendment_cycle_count p' = sp_contract_amendment_cycle_count p"
    if "reconcile_at env i p = Some (es, p')" for i es and p p' :: "('a, 'b) scratchpad"
    using that by (auto simp: reconcile_at_def Let_def clear_pending_delivery_def amendments_def split: if_splits)
  have "amendments es = 0 \<and> (\<forall>p'. r = Some p' \<longrightarrow>
      sp_contract_amendment_cycle_count p' = sp_contract_amendment_cycle_count p)"
    if "reconcile_loop env is p = (es, r)" for "is" es r and p :: "('a, 'b) scratchpad"
    using that
  proof (induction "is" arbitrary: p es)
    case (Cons i "is")
    show ?case
    proof (cases "reconcile_at env i p")
      case None
      with Cons.prems show ?thesis by simp
    next
      case (Some eq)
      obtain fs q where eq: "eq = (fs, q)" by (cases eq)
      obtain gs where g: "reconcile_loop env is q = (gs, r)" "es = fs @ gs"
        using Cons.prems Some eq by (auto split: prod.splits)
      from Cons.IH [OF g(1)] a [OF Some [unfolded eq]] g(2) show ?thesis by simp
    qed
  qed auto
  from this [OF assms [unfolded reconcile_pending_deliveries_def]]
  show "amendments evs = 0"
    and "r = Some pad' \<Longrightarrow> sp_contract_amendment_cycle_count pad' = sp_contract_amendment_cycle_count pad" by auto
qed

lemma judge_cycle:
  "sp_contract_amendment_cycle_count (ta_pad (judge_poll ops display aid env c first force cands pad)) =
     sp_contract_amendment_cycle_count pad"
  "amendments (ta_events (judge_poll ops display aid env c first force cands pad)) = 0"
proof -
  define I :: "('a, 'b) tally \<Rightarrow> bool" where
    "I t \<longleftrightarrow> sp_contract_amendment_cycle_count (ta_pad t) = sp_contract_amendment_cycle_count pad \<and>
      amendments (ta_events t) = 0" for t
  have p: "\<And>s (q :: ('a, 'b) scratchpad) q' n. record_item_snapshot s q = (q', n) \<Longrightarrow>
      sp_contract_amendment_cycle_count q' = sp_contract_amendment_cycle_count q"
    by (auto simp: record_item_snapshot_def Let_def)
  have step: "I (judge_candidate ops display aid env c tm x t)" if "I t" for tm x t
    using that unfolding I_def judge_candidate_def quarantine_def judge_item_def Let_def
    by (auto simp: amendments_def p split: sum.split prod.split)
  have "I (judge_poll ops display aid env c first force cands pad)"
    unfolding judge_poll_def
    by (rule fold_invariant [where Q = "\<lambda>_. True"]) (simp_all add: step, simp add: I_def start_tally_def)
  then show "sp_contract_amendment_cycle_count (ta_pad (judge_poll ops display aid env c first force cands pad)) =
      sp_contract_amendment_cycle_count pad"
    "amendments (ta_events (judge_poll ops display aid env c first force cands pad)) = 0" by (simp_all add: I_def)
qed

lemma dispatch_cycle:
  assumes "en_first_write env" and "en_second_write env" and "dispatch env fires pad w = (fired, w')"
  shows "\<exists>p. ww_saved w' = Some p \<and> sp_contract_amendment_cycle_count p = sp_contract_amendment_cycle_count pad \<and>
      sp_contract_fingerprint p = sp_contract_fingerprint pad"
    and "ww_contract w' = ww_contract w" and "\<exists>es. ww_events w' = ww_events w @ es \<and> amendments es = 0"
proof -
  have r: "sp_contract_amendment_cycle_count (fold (\<lambda>(c, key, item) p. record_pending_action key item at p) fires p) =
      sp_contract_amendment_cycle_count p \<and>
      sp_contract_fingerprint (fold (\<lambda>(c, key, item) p. record_pending_action key item at p) fires p) =
      sp_contract_fingerprint p" for at and p :: "('a, 'b) scratchpad"
    by (induction fires arbitrary: p) auto
  have a: "sp_contract_amendment_cycle_count (fold (\<lambda>(c, key, item) p. attach_dispatch_run key run p) fires p) =
      sp_contract_amendment_cycle_count p \<and>
      sp_contract_fingerprint (fold (\<lambda>(c, key, item) p. attach_dispatch_run key run p) fires p) =
      sp_contract_fingerprint p" for run and p :: "('a, 'b) scratchpad"
    by (induction fires arbitrary: p) auto
  show "\<exists>p. ww_saved w' = Some p \<and> sp_contract_amendment_cycle_count p = sp_contract_amendment_cycle_count pad \<and>
      sp_contract_fingerprint p = sp_contract_fingerprint pad" "ww_contract w' = ww_contract w"
    "\<exists>es. ww_events w' = ww_events w @ es \<and> amendments es = 0"
    using assms by (auto simp: dispatch_def Let_def r a amendments_def split: if_splits sum.splits)
qed

lemma amend_cycle:
  assumes "amend env pad w = (pad', w')"
  shows "\<exists>es. ww_events w' = ww_events w @ es \<and>
      amendments es + unat (sp_contract_amendment_cycle_count pad) \<le> unat (sp_contract_amendment_cycle_count pad') \<and>
      amendments es \<le> 1 \<and> (amendments es = 1 \<longrightarrow> unat (sp_contract_amendment_cycle_count pad) < 3)"
    and "ww_contract w' = ww_contract w \<or> sp_contract_fingerprint pad' = None"
proof -
  have c: "unat n < 3 \<and> unat (sat_inc n) = Suc (unat n)" if "sat_inc n \<le> contract_amendment_cycle_ceiling" for n :: "32 word"
    using that by (auto simp: contract_amendment_cycle_ceiling_def word_le_nat_alt unat_sat_inc)
  show "\<exists>es. ww_events w' = ww_events w @ es \<and>
      amendments es + unat (sp_contract_amendment_cycle_count pad) \<le> unat (sp_contract_amendment_cycle_count pad') \<and>
      amendments es \<le> 1 \<and> (amendments es = 1 \<longrightarrow> unat (sp_contract_amendment_cycle_count pad) < 3)"
    using assms c [of "sp_contract_amendment_cycle_count pad"] unat_le_sat_inc [of "sp_contract_amendment_cycle_count pad"]
    by (auto simp: amend_def Let_def amendments_def not_less split: if_splits)
  show "ww_contract w' = ww_contract w \<or> sp_contract_fingerprint pad' = None"
    using assms by (auto simp: amend_def Let_def split: if_splits)
qed

text \<open>One poll: it emits at most one amendment, counts it, and none when three were counted.\<close>

definition amends_within :: "('n, 'f) watch_world \<Rightarrow> ('n, 'f) watch_world \<Rightarrow> bool" where
  "amends_within w w' \<longleftrightarrow>
     not_orphaned w' \<and>
     (\<exists>es. ww_events w' = ww_events w @ es \<and> amendments es + cycle_of w \<le> cycle_of w' \<and> amendments es \<le> 1 \<and>
       (amendments es = 1 \<longrightarrow> cycle_of w < 3))"

lemma bound_poll_amends:
  assumes "storage_works env" and "ww_contract w = Some c" and "poll_bound_watch ops display aid env sel c w = (r, w')"
  shows "amends_within w w'"
proof -
  let ?pad = "put_plan_state (sl_plan sel) (case ww_saved w of Some p \<Rightarrow> p | None \<Rightarrow> default_scratchpad)"
  have loaded: "loaded_pad env w = ww_saved w" and wr: "en_first_write env" "en_second_write env"
    using assms(1) by (simp_all add: loaded_pad_def storage_works_def)
  have cyc: "unat (sp_contract_amendment_cycle_count ?pad) = cycle_of w"
    by (simp add: cycle_of_def default_scratchpad_def split: option.split)
  show ?thesis
  proof (cases "sl_found sel")
    case None
    with assms(3) loaded wr have "ww_saved w' = Some ?pad" "ww_events w' = ww_events w @ map Ev_Observation (sl_events sel)"
      "ww_contract w' = Some c" using assms(2) by (auto simp: poll_bound_watch_def Let_def)
    with cyc show ?thesis by (simp add: amends_within_def not_orphaned_def) (simp add: cycle_of_def)
  next
    case (Some found)
    obtain cands path inferred force where found: "found = (cands, path, inferred, force)" by (cases found)
    let ?first = "ww_saved w = None"
    have run: "run_contract_bound_tick ops display aid env c ?pad ?first force cands path inferred
        (emit_health_events (map Ev_Observation (sl_events sel)) w) = (r, w')"
      using assms(3) Some found loaded by (simp add: poll_bound_watch_def Let_def)
    obtain evs rp where rec: "reconcile_pending_deliveries env ?pad = (evs, rp)"
      by (cases "reconcile_pending_deliveries env ?pad")
    show ?thesis
    proof (cases rp)
      case None
      with run rec assms(2) reconcile_cycle(1) [OF rec] have "ww_saved w' = ww_saved w" "ww_contract w' = Some c"
        "ww_events w' = ww_events w @ map Ev_Observation (sl_events sel) @ evs"
        by (auto simp: run_contract_bound_tick_def)
      with reconcile_cycle(1) [OF rec] show ?thesis
        by (simp add: amends_within_def not_orphaned_def) (simp add: cycle_of_def)
    next
      case (Some pad0)
      let ?pad1 = "pad0\<lparr>sp_last_extraction_path := path, sp_last_inferred_tier := inferred\<rparr>"
      let ?t = "judge_poll ops display aid env c ?first force cands ?pad1"
      let ?re = "if fingerprint_changed ops c ?first ?pad1 then [Ev_Reseeded] else []"
      obtain pad2 evs2 where c: "count_poll cands ?t (disclose ?t (ta_pad ?t, evs @ ?re @ ta_events ?t)) = (pad2, evs2)"
        by fastforce
      obtain pad3 w3 where a: "amend env pad2 (emit_health_events evs2 (emit_health_events (map Ev_Observation (sl_events sel)) w)) = (pad3, w3)"
        by fastforce
      obtain fired w4 where d: "dispatch env (ta_fire ?t) pad3 w3 = (fired, w4)" by fastforce
      have w': "w' = w4" using run rec Some c a d by (simp add: run_contract_bound_tick_def Let_def)
      have "sp_contract_amendment_cycle_count pad2 = sp_contract_amendment_cycle_count (ta_pad ?t)"
        using cycle_kept(9,10) c by (metis fst_conv)
      then have 2: "unat (sp_contract_amendment_cycle_count pad2) = cycle_of w"
        using judge_cycle(1) [of ops display aid env c ?first force cands ?pad1] reconcile_cycle(2) [OF rec Some] cyc
        by simp
      have "amendments evs2 = amendments (evs @ ?re @ ta_events ?t)"
        using finish_amendments c by (metis snd_conv)
      then have e2: "amendments evs2 = 0"
        using judge_cycle(2) [of ops display aid env c ?first force cands ?pad1] reconcile_cycle(1) [OF rec]
        by (simp add: amendments_def)
      from amend_cycle(1) [OF a] obtain es where es: "ww_events w3 = ww_events w @ map Ev_Observation (sl_events sel) @ evs2 @ es"
        "amendments es + cycle_of w \<le> unat (sp_contract_amendment_cycle_count pad3)" "amendments es \<le> 1"
        "amendments es = 1 \<longrightarrow> cycle_of w < 3" using 2 by auto
      from dispatch_cycle [OF wr d] obtain p fs where p: "ww_saved w4 = Some p"
        "sp_contract_amendment_cycle_count p = sp_contract_amendment_cycle_count pad3"
        "sp_contract_fingerprint p = sp_contract_fingerprint pad3" "ww_contract w4 = ww_contract w3"
        "ww_events w4 = ww_events w3 @ fs" "amendments fs = 0" by blast
      have "not_orphaned w'" using amend_cycle(2) [OF a] p assms(2) w' by (auto simp: not_orphaned_def)
      moreover have "cycle_of w' = unat (sp_contract_amendment_cycle_count pad3)" using p(1,2) w' by (simp add: cycle_of_def)
      ultimately show ?thesis unfolding amends_within_def
        using es p(5,6) e2 w' by (intro conjI exI [of _ "map Ev_Observation (sl_events sel) @ evs2 @ es @ fs"]) auto
    qed
  qed
qed

text \<open>A poll without a contract leaves the count, emits no amendment and refers to no contract.\<close>

definition quiet_about_contract :: "('n, 'f) scratchpad \<Rightarrow> ('n, 'f) watch_world \<Rightarrow> ('n, 'f) watch_world \<Rightarrow> bool" where
  "quiet_about_contract pad w w' \<longleftrightarrow>
     (ww_saved w' = ww_saved w \<or>
      (\<exists>p. ww_saved w' = Some p \<and> sp_contract_amendment_cycle_count p = sp_contract_amendment_cycle_count pad \<and>
        sp_contract_fingerprint p = sp_contract_fingerprint pad)) \<and>
     (\<exists>es. ww_events w' = ww_events w @ es \<and> amendments es = 0)"

lemma legacy_quiet:
  assumes "run_legacy_seen_ids_tick ops env pad seed cands w = (b, w')"
  shows "quiet_about_contract pad w w'"
  using assms unfolding quiet_about_contract_def
  by (auto simp: run_legacy_seen_ids_tick_def Let_def amendments_def split: if_splits sum.splits)

lemma quiet_trans:
  assumes "quiet_about_contract pad w w1" and "quiet_about_contract pad' w1 w2"
    and "sp_contract_amendment_cycle_count pad' = sp_contract_amendment_cycle_count pad"
    and "sp_contract_fingerprint pad' = sp_contract_fingerprint pad"
  shows "quiet_about_contract pad w w2"
proof -
  from assms(1) obtain es where es: "ww_events w1 = ww_events w @ es" "amendments es = 0"
    by (auto simp: quiet_about_contract_def)
  from assms(2) obtain fs where fs: "ww_events w2 = ww_events w1 @ fs" "amendments fs = 0"
    by (auto simp: quiet_about_contract_def)
  from es fs have "\<exists>gs. ww_events w2 = ww_events w @ gs \<and> amendments gs = 0"
    by (intro exI [of _ "es @ fs"]) simp
  with assms show ?thesis by (auto simp: quiet_about_contract_def)
qed

lemma quiet_steps:
  "amendments evs = 0 \<Longrightarrow> quiet_about_contract pad w (emit_health_events evs w)"
  "quiet_about_contract pad w (save b pad w)"
  "quiet_about_contract pad w (bind_authored au w)"
  by (simp_all add: quiet_about_contract_def)

lemma authoring_quiet:
  assumes "run_authoring_and_legacy_tick ops env instr scope frozen au pad first w = (b, w')"
  shows "quiet_about_contract pad w w'"
proof -
  obtain pad1 evs where r: "resume_authoring (authoring_input_key instr scope) pad = (pad1, evs)" by fastforce
  have p1: "sp_contract_amendment_cycle_count pad1 = sp_contract_amendment_cycle_count pad"
    "sp_contract_fingerprint pad1 = sp_contract_fingerprint pad"
    using cycle_kept(7) fingerprint_kept(8) r by (metis fst_conv)+
  have evs: "amendments evs = 0" using r by (auto simp: resume_authoring_def Let_def amendments_def split: if_splits)
  show ?thesis
  proof (cases "authoring_failure_ceiling \<le> sp_authoring_failure_streak pad1")
    case True
    let ?pad2 = "record_additional_model_calls (en_date env) (fst frozen) (record_model_call (en_date env) pad1)"
    have "quiet_about_contract ?pad2 (emit_health_events evs w) w'"
    proof (cases "snd frozen")
      case None
      with assms r True show ?thesis
        using quiet_steps(2) [of ?pad2] by (auto simp: run_authoring_and_legacy_tick_def Let_def)
    next
      case (Some cands)
      with assms r True have "legacy_after ops env first ?pad2 cands (emit_health_events evs w) = (b, w')"
        by (simp add: run_authoring_and_legacy_tick_def Let_def)
      then show ?thesis unfolding legacy_after_def by (rule legacy_quiet)
    qed
    from quiet_trans [OF quiet_steps(1) [OF evs] this] p1 show ?thesis by simp
  next
    case False
    let ?pad2 = "put_authoring au pad1"
    let ?w2 = "bind_authored au (emit_health_events (map Ev_Observation (au_events au)) (emit_health_events evs w))"
    have 2: "quiet_about_contract pad w ?w2"
      by (rule quiet_trans [OF quiet_trans [OF quiet_steps(1) [OF evs] quiet_steps(1)] quiet_steps(3)]) simp_all
    show ?thesis
    proof (cases "au_result au")
      case None
      with assms r False have "w' = save (en_first_write env) ?pad2 ?w2"
        by (simp add: run_authoring_and_legacy_tick_def Let_def)
      with quiet_trans [OF 2 quiet_steps(2) [of ?pad2]] p1 show ?thesis by simp
    next
      case (Some co)
      obtain cands outcome where co: "co = (cands, outcome)" by (cases co)
      obtain pad3 evs3 where n: "note_outcome outcome ?pad2 = (pad3, evs3)" by fastforce
      have p3: "sp_contract_amendment_cycle_count pad3 = sp_contract_amendment_cycle_count pad"
        "sp_contract_fingerprint pad3 = sp_contract_fingerprint pad"
        using cycle_kept(8) [of outcome ?pad2] fingerprint_kept(9) [of outcome ?pad2] n p1 by simp_all
      have evs3: "amendments evs3 = 0"
        using n by (auto simp: note_outcome_def Let_def amendments_def split: authoring_outcome.splits if_splits)
      let ?w3 = "save (en_first_write env) pad3 (emit_health_events evs3 ?w2)"
      have "legacy_after ops env first pad3 cands ?w3 = (b, w')"
        using assms r False Some co n by (simp add: run_authoring_and_legacy_tick_def Let_def)
      then have l: "quiet_about_contract pad3 ?w3 w'" unfolding legacy_after_def by (rule legacy_quiet)
      have "quiet_about_contract pad w ?w3"
        by (rule quiet_trans [OF quiet_trans [OF 2 quiet_steps(1) [OF evs3, of pad]] quiet_steps(2)]) (use p3 in simp_all)
      from quiet_trans [OF this l] p3 show ?thesis by simp
    qed
  qed
qed

lemma unbound_poll_amends:
  assumes "storage_works env" and "ww_contract w = None" and "not_orphaned w"
    and "poll_unbound_watch ops env instr scope frozen au w = (b, w')"
  shows "amends_within w w'"
proof -
  let ?pad = "case ww_saved w of Some p \<Rightarrow> p | None \<Rightarrow> default_scratchpad"
  have loaded: "loaded_pad env w = ww_saved w" using assms(1) by (simp add: loaded_pad_def storage_works_def)
  have fp: "sp_contract_fingerprint ?pad = None"
    using assms(2,3) by (simp add: not_orphaned_def default_scratchpad_def split: option.split)
  have "run_authoring_and_legacy_tick ops env instr scope frozen au ?pad (ww_saved w = None) w = (b, w')"
    using assms(4) loaded fp by (simp add: poll_unbound_watch_def Let_def)
  from authoring_quiet [OF this] fp show ?thesis
    by (cases "ww_saved w") (auto simp: quiet_about_contract_def amends_within_def not_orphaned_def cycle_of_def
        default_scratchpad_def)
qed

lemma poll_amends:
  assumes "storage_works (po_env inp)" and "not_orphaned w"
  shows "amends_within w (snd (run_agent_watch_tick ops display aid instr scope inp w))"
proof (cases "ww_contract w")
  case None
  from unbound_poll_amends [OF assms(1) None assms(2) prod.collapse [symmetric]] None show ?thesis
    by (simp add: run_agent_watch_tick_def split_beta)
next
  case (Some c)
  from bound_poll_amends [OF assms(1) Some prod.collapse [symmetric]] Some show ?thesis
    by (simp add: run_agent_watch_tick_def)
qed

text \<open>C24: While the scratchpad can be read and written, a watch replaces its contract at most three times by itself, in
  every run of polls, whatever contracts it authors in between.\<close>

theorem amendments_bounded:
  assumes "not_orphaned w" and "\<forall>(instr, scope, inp) \<in> set polls. storage_works (po_env inp)"
  shows "amendments (new_events w (run_polls ops display aid polls w)) \<le> 3"
proof -
  have "\<exists>es. ww_events (run_polls ops display aid polls w) = ww_events w @ es \<and> n + amendments es \<le> 3"
    if "not_orphaned w" "\<forall>(instr, scope, inp) \<in> set polls. storage_works (po_env inp)"
      "n \<le> cycle_of w" "n \<le> 3" for n and w :: "('a, 'b) watch_world" and polls
    using that
  proof (induction polls arbitrary: w n)
    case Nil
    then show ?case by simp
  next
    case (Cons poll polls)
    obtain instr scope inp where poll: "poll = (instr, scope, inp)" by (cases poll)
    let ?w = "snd (run_agent_watch_tick ops display aid instr scope inp w)"
    from Cons.prems poll poll_amends [of inp w ops display aid instr scope] obtain es where
      es: "not_orphaned ?w" "ww_events ?w = ww_events w @ es" "amendments es + cycle_of w \<le> cycle_of ?w"
        "amendments es \<le> 1" "amendments es = 1 \<longrightarrow> cycle_of w < 3"
      by (auto simp: amends_within_def)
    have "n + amendments es \<le> 3" "n + amendments es \<le> cycle_of ?w"
      using es(3-5) Cons.prems(3,4) by (cases "amendments es = 1"; simp)+
    from Cons.IH [OF es(1) _ this(2,1)] Cons.prems(2) obtain fs where
      "ww_events (run_polls ops display aid polls ?w) = ww_events ?w @ fs" "n + amendments es + amendments fs \<le> 3" by auto
    with es(2) poll show ?case by (intro exI [of _ "es @ fs"]) simp
  qed
  from this [OF assms, of 0] show ?thesis by (auto simp: new_events_def)
qed

end
