(* ===== verification/Watch_Hazards.thy ===== *)
theory Watch_Hazards
  imports Watch_Bounds
begin

text \<open>
  Where the ledger of a watch stands in the way of a report: an item that changes back, a retry that is
  announced and not made, and deliveries that stop the watch.
\<close>

section \<open>Young ledgers\<close>

text \<open>Entries that were counted at most \<open>n\<close> times.\<close>

definition young :: "nat \<Rightarrow> seen_delivery list \<Rightarrow> bool" where
  "young n ds \<longleftrightarrow> (\<forall>d \<in> set ds. unat (sd_pending_poll_count d) \<le> n)"

definition same_but_ledger :: "('n, 'f) scratchpad \<Rightarrow> ('n, 'f) scratchpad \<Rightarrow> bool" where
  "same_but_ledger pad pad' \<longleftrightarrow>
     sp_snapshots pad' = sp_snapshots pad \<and> sp_contract_fingerprint pad' = sp_contract_fingerprint pad \<and>
     sp_identity_keygen_version pad' = sp_identity_keygen_version pad"

lemma count_young:
  fixes n :: "32 word"
  assumes "unat n < 3"
  shows "sat_inc n \<le> retry_poll_threshold" and "unat (sat_inc n) = Suc (unat n)"
  using assms by (simp_all add: retry_poll_threshold_def word_le_nat_alt unat_sat_inc)

lemma modify_first_counts:
  "(\<And>d. sd_pending_poll_count (f d) = sd_pending_poll_count d) \<Longrightarrow>
     map sd_pending_poll_count (modify_first p f ds) = map sd_pending_poll_count ds"
  by (induction ds) auto

lemma reconcile_at_young:
  assumes "i < length (sp_seen_deliveries pad)" and "unat (sd_pending_poll_count (sp_seen_deliveries pad ! i)) < 3"
  obtains pad' where "reconcile_at env i pad = Some ([], pad')" and "same_but_ledger pad pad'"
    and "length (sp_seen_deliveries pad') = length (sp_seen_deliveries pad)"
    and "\<And>j. j < length (sp_seen_deliveries pad) \<Longrightarrow> unat (sd_pending_poll_count (sp_seen_deliveries pad' ! j)) \<le>
      unat (sd_pending_poll_count (sp_seen_deliveries pad ! j)) + (if j = i then 1 else 0)"
    and "\<And>k X. held k X (sp_seen_deliveries pad) \<Longrightarrow> held k X (sp_seen_deliveries pad')"
proof -
  let ?ds = "sp_seen_deliveries pad"
  from assms(1) show thesis
  proof (cases rule: reconcile_at_cases [where env = env])
    case Confirmed
    let ?p = "confirm_pending_delivery (sd_id (?ds ! i)) pad"
    have m: "map sd_pending_poll_count (sp_seen_deliveries ?p) = map sd_pending_poll_count ?ds"
      by (simp add: modify_first_counts)
    have "sd_pending_poll_count (sp_seen_deliveries ?p ! j) = sd_pending_poll_count (?ds ! j)"
      if "j < length ?ds" for j using that m by (metis length_map nth_map)
    moreover have "held k X ?ds \<Longrightarrow> held k X (sp_seen_deliveries ?p)" for k X
      by simp (rule held_modify_first, auto)
    ultimately show thesis using Confirmed
      by (intro that [of ?p]) (auto simp: same_but_ledger_def confirm_pending_delivery_def modify_pending_def)
  next
    case Counted
    show thesis
      by (rule that [OF Counted(3)])
        (use assms(1) count_young(2) [OF assms(2)] in \<open>auto simp: same_but_ledger_def nth_list_update held_update\<close>)
  next
    case Cleared
    moreover have "\<not> overdue env (?ds ! i)" using count_young(1) [OF assms(2)] by (simp add: overdue_def not_less)
    ultimately show thesis by blast
  qed
qed

lemma same_but_ledger_trans: "same_but_ledger p q \<Longrightarrow> same_but_ledger q r \<Longrightarrow> same_but_ledger p r"
  by (simp add: same_but_ledger_def)

lemma reconcile_loop_young:
  "distinct is \<Longrightarrow> \<forall>i \<in> set is. i < length (sp_seen_deliveries pad) \<and>
       unat (sd_pending_poll_count (sp_seen_deliveries pad ! i)) < 3 \<Longrightarrow>
     \<exists>pad'. reconcile_loop env is pad = ([], Some pad') \<and> same_but_ledger pad pad' \<and>
       length (sp_seen_deliveries pad') = length (sp_seen_deliveries pad) \<and>
       (\<forall>j < length (sp_seen_deliveries pad). unat (sd_pending_poll_count (sp_seen_deliveries pad' ! j)) \<le>
         unat (sd_pending_poll_count (sp_seen_deliveries pad ! j)) + (if j \<in> set is then 1 else 0)) \<and>
       (\<forall>k X. held k X (sp_seen_deliveries pad) \<longrightarrow> held k X (sp_seen_deliveries pad'))"
proof (induction "is" arbitrary: pad)
  case Nil
  then show ?case by (simp add: same_but_ledger_def)
next
  case (Cons i "is")
  from Cons.prems(2) have "i < length (sp_seen_deliveries pad)"
    "unat (sd_pending_poll_count (sp_seen_deliveries pad ! i)) < 3" by auto
  from reconcile_at_young [OF this, of env] obtain p where p: "reconcile_at env i pad = Some ([], p)" "same_but_ledger pad p"
    "length (sp_seen_deliveries p) = length (sp_seen_deliveries pad)"
    "\<And>j. j < length (sp_seen_deliveries pad) \<Longrightarrow> unat (sd_pending_poll_count (sp_seen_deliveries p ! j)) \<le>
      unat (sd_pending_poll_count (sp_seen_deliveries pad ! j)) + (if j = i then 1 else 0)"
    "\<And>k X. held k X (sp_seen_deliveries pad) \<Longrightarrow> held k X (sp_seen_deliveries p)" by blast
  have "\<forall>j \<in> set is. j < length (sp_seen_deliveries p) \<and> unat (sd_pending_poll_count (sp_seen_deliveries p ! j)) < 3"
  proof
    fix j
    assume j: "j \<in> set is"
    with Cons.prems have jl: "j < length (sp_seen_deliveries pad)"
      "unat (sd_pending_poll_count (sp_seen_deliveries pad ! j)) < 3" "j \<noteq> i" by auto
    with p(3) p(4) [OF jl(1)] show "j < length (sp_seen_deliveries p) \<and> unat (sd_pending_poll_count (sp_seen_deliveries p ! j)) < 3"
      by simp
  qed
  from Cons.IH [OF _ this] Cons.prems(1) obtain q where q: "reconcile_loop env is p = ([], Some q)" "same_but_ledger p q"
    "length (sp_seen_deliveries q) = length (sp_seen_deliveries p)"
    "\<forall>j < length (sp_seen_deliveries p). unat (sd_pending_poll_count (sp_seen_deliveries q ! j)) \<le>
       unat (sd_pending_poll_count (sp_seen_deliveries p ! j)) + (if j \<in> set is then 1 else 0)"
    "\<forall>k X. held k X (sp_seen_deliveries p) \<longrightarrow> held k X (sp_seen_deliveries q)" by auto
  have "unat (sd_pending_poll_count (sp_seen_deliveries q ! j)) \<le>
      unat (sd_pending_poll_count (sp_seen_deliveries pad ! j)) + (if j \<in> set (i # is) then 1 else 0)"
    if "j < length (sp_seen_deliveries pad)" for j
    using p(4) [OF that] q(4) p(3) that Cons.prems(1) by (fastforce split: if_splits)
  with p q same_but_ledger_trans [OF p(2) q(2)] show ?case by auto
qed

lemma reconcile_young:
  assumes "young n (sp_seen_deliveries pad)" and "n < 3"
  obtains pad' where "reconcile_pending_deliveries env pad = ([], Some pad')" and "same_but_ledger pad pad'"
    and "young (Suc n) (sp_seen_deliveries pad')"
    and "\<And>k X. held k X (sp_seen_deliveries pad) \<Longrightarrow> held k X (sp_seen_deliveries pad')"
proof -
  let ?ds = "sp_seen_deliveries pad"
  have y: "unat (sd_pending_poll_count (?ds ! i)) \<le> n" if "i < length ?ds" for i
    using assms(1) that by (auto simp: young_def)
  have "distinct (pending_indices ?ds)" "\<forall>i \<in> set (pending_indices ?ds). i < length ?ds \<and>
      unat (sd_pending_poll_count (?ds ! i)) < 3"
    using y assms(2) by (auto simp: pending_indices_def intro: le_less_trans)
  from reconcile_loop_young [OF this] obtain p where p: "reconcile_loop env (pending_indices ?ds) pad = ([], Some p)"
    "same_but_ledger pad p" "length (sp_seen_deliveries p) = length ?ds"
    "\<forall>j < length ?ds. unat (sd_pending_poll_count (sp_seen_deliveries p ! j)) \<le>
       unat (sd_pending_poll_count (?ds ! j)) + (if j \<in> set (pending_indices ?ds) then 1 else 0)"
    "\<forall>k X. held k X ?ds \<longrightarrow> held k X (sp_seen_deliveries p)" by blast
  have "young (Suc n) (sp_seen_deliveries p)"
    unfolding young_def all_set_conv_all_nth
  proof (intro allI impI)
    fix j
    assume "j < length (sp_seen_deliveries p)"
    with p(3) have j: "j < length ?ds" by simp
    with y [OF j] p(4) show "unat (sd_pending_poll_count (sp_seen_deliveries p ! j)) \<le> Suc n"
      by (force split: if_splits)
  qed
  with p show thesis by (intro that [of p]) (auto simp: reconcile_pending_deliveries_def)
qed

lemma dispatch_young:
  assumes "young n (sp_seen_deliveries pad)"
  shows "young n (sp_seen_deliveries (record_pending_action key item now pad))"
    and "young n (sp_seen_deliveries (attach_dispatch_run key run pad))"
proof -
  show "young n (sp_seen_deliveries (record_pending_action key item now pad))"
    using assms by (auto simp: young_def record_pending_action_def new_entry_def)
  have "map sd_pending_poll_count (sp_seen_deliveries (attach_dispatch_run key run pad)) =
      map sd_pending_poll_count (sp_seen_deliveries pad)"
    by (simp add: attach_dispatch_run_def modify_pending_def modify_first_counts)
  then have "sd_pending_poll_count ` set (sp_seen_deliveries (attach_dispatch_run key run pad)) =
      sd_pending_poll_count ` set (sp_seen_deliveries pad)" by (metis image_set)
  with assms show "young n (sp_seen_deliveries (attach_dispatch_run key run pad))"
    unfolding young_def by (metis (no_types, lifting) imageE imageI)
qed

section \<open>A poll that observes one item\<close>

definition bound_to :: "('n, 'f) watch_ops \<Rightarrow> ('n, 'f) watch_contract \<Rightarrow> ('n, 'f) scratchpad \<Rightarrow> bool" where
  "bound_to ops c pad \<longleftrightarrow>
     sp_contract_fingerprint pad = Some (fingerprint ops c) \<and>
     sp_identity_keygen_version pad = Some identity_keygen_version"

text \<open>The snapshot the poll leaves and the key it asks the ledger for.\<close>

definition item_snapshot_after ::
    "('n, 'f) watch_ops \<Rightarrow> watch_env \<Rightarrow> ('n, 'f) watch_contract \<Rightarrow> utext \<Rightarrow> utext \<Rightarrow> 'n json \<Rightarrow>
     ('n, 'f) scratchpad \<Rightarrow> 'n item_snapshot" where
  "item_snapshot_after ops env c item version payload pad =
     (let prev = find_snapshot item pad;
          matching = contract_matches ops c payload (map_option is_payload prev) in
      new_snapshot env item version matching (edge_of prev + (if entered prev matching then 1 else 0)) payload)"

definition item_fires ::
    "('n, 'f) watch_ops \<Rightarrow> watch_env \<Rightarrow> utext \<Rightarrow> ('n, 'f) watch_contract \<Rightarrow> utext \<Rightarrow> utext \<Rightarrow> 'n candidate \<Rightarrow>
     ('n, 'f) scratchpad \<Rightarrow> ('n candidate \<times> utext \<times> utext) list" where
  "item_fires ops env aid c item version cand pad =
     (let prev = find_snapshot item pad; snap = item_snapshot_after ops env c item version (ca_payload cand) pad;
          key = delivery_key ops aid item version (is_edge_counter snap) in
      if should_fire (wc_mode c) prev version (entered prev (is_predicate_value snap)) \<and>
         \<not> has_seen_delivery key (en_clock env) pad
      then [(cand, key, item)] else [])"

lemma bound_to_mode:
  assumes "bound_to ops c pad"
  shows "\<not> fingerprint_changed ops c False pad"
    and "poll_mode ops c False False pad = \<lparr>tm_seed_only = False, tm_suppress_fire = False\<rparr>"
  using assms by (simp_all add: bound_to_def fingerprint_changed_def poll_mode_def)

lemma has_seen_cong: "sp_seen_deliveries p = sp_seen_deliveries q \<Longrightarrow> has_seen_delivery k now p = has_seen_delivery k now q"
  by (simp add: has_seen_delivery_def)

lemma judge_one:
  assumes "bound_to ops c pad" and "candidate_keys ops c (ca_payload cand) = Inr (item, version)"
    and "length (filter (\<lambda>s. is_identity_key s \<noteq> item) (sp_snapshots pad)) < snapshot_cap"
    and t: "t = judge_poll ops display aid env c False False [cand] pad"
  shows "ta_fire t = item_fires ops env aid c item version cand pad"
    and "sp_snapshots (ta_pad t) = filter (\<lambda>s. is_identity_key s \<noteq> item) (sp_snapshots pad)
      @ [item_snapshot_after ops env c item version (ca_payload cand) pad]"
    and "bound_to ops c (ta_pad t)" and "\<not> ta_missing t" and "ta_surviving t = 1"
proof -
  let ?pad = "bind_pad ops c False pad"
  have b: "sp_snapshots ?pad = sp_snapshots pad" "sp_seen_deliveries ?pad = sp_seen_deliveries pad"
    "bound_to ops c ?pad"
    by (simp_all add: bind_pad_def bound_to_def)
  have f: "find_snapshot item ?pad = find_snapshot item pad" by (simp add: find_snapshot_def b(1))
  let ?s = "item_snapshot_after ops env c item version (ca_payload cand) pad"
  let ?q = "?pad\<lparr>sp_snapshots := filter (\<lambda>s. is_identity_key s \<noteq> item) (sp_snapshots pad) @ [?s]\<rparr>"
  have id: "is_identity_key ?s = item" by (simp add: item_snapshot_after_def new_snapshot_def Let_def)
  have r: "record_item_snapshot ?s ?pad = (?q, 0)"
    using assms(3) by (simp add: record_item_snapshot_def Let_def id b(1))
  have h: "has_seen_delivery k now ?q = has_seen_delivery k now pad" for k now
    by (rule has_seen_cong) (simp add: b(2))
  let ?m = "\<lparr>tm_seed_only = False, tm_suppress_fire = False\<rparr>"
  have e: "new_snapshot env item version (contract_matches ops c (ca_payload cand) (map_option is_payload (find_snapshot item pad)))
      (next_edge ?m (find_snapshot item pad)
        (contract_matches ops c (ca_payload cand) (map_option is_payload (find_snapshot item pad)))) (ca_payload cand) = ?s"
    by (simp add: item_snapshot_after_def next_edge_def Let_def)
  have edge: "next_edge ?m (find_snapshot item pad) (is_predicate_value ?s) = is_edge_counter ?s"
    "contract_matches ops c (ca_payload cand) (map_option is_payload (find_snapshot item pad)) = is_predicate_value ?s"
    by (simp_all add: item_snapshot_after_def next_edge_def new_snapshot_def Let_def)
  have t: "t = judge_item ops aid env c ?m item version cand (start_tally ?pad)"
    by (simp add: t judge_poll_def bound_to_mode [OF assms(1)] judge_candidate_def assms(2))
  have "t = (start_tally ?pad)\<lparr>ta_pad := ?q, ta_surviving := 1, ta_dropped := 0,
      ta_fire := item_fires ops env aid c item version cand pad\<rparr>"
    unfolding t judge_item_def Let_def
    by (simp add: start_tally_def f e r h, simp add: edge item_fires_def Let_def)
  then show "ta_fire t = item_fires ops env aid c item version cand pad"
    "sp_snapshots (ta_pad t) = filter (\<lambda>s. is_identity_key s \<noteq> item) (sp_snapshots pad) @ [?s]"
    "bound_to ops c (ta_pad t)" "\<not> ta_missing t" "ta_surviving t = 1"
    using b(3) by (simp_all add: start_tally_def bound_to_def)
qed

lemma item_cong:
  assumes "sp_snapshots p = sp_snapshots q" and "sp_seen_deliveries p = sp_seen_deliveries q"
  shows "item_snapshot_after ops env c item version payload p = item_snapshot_after ops env c item version payload q"
    and "item_fires ops env aid c item version cand p = item_fires ops env aid c item version cand q"
proof -
  have f: "find_snapshot item p = find_snapshot item q" by (simp add: find_snapshot_def assms(1))
  then show s: "item_snapshot_after ops env c item version payload p = item_snapshot_after ops env c item version payload q"
    for payload by (simp add: item_snapshot_after_def)
  show "item_fires ops env aid c item version cand p = item_fires ops env aid c item version cand q"
    by (simp add: item_fires_def f s has_seen_cong [OF assms(2)])
qed

text \<open>A poll in which some candidate lacks no required field ends without an amendment.\<close>

lemma no_amendment:
  assumes "cands \<noteq> []" and "\<not> ta_missing t"
  shows "amend env (fst (count_poll cands t pe)) w = (fst (count_poll cands t pe), w)"
  using assms by (cases pe) (simp add: count_poll_def amend_def Let_def required_field_failure_amendment_threshold_def)

lemma finish_kept [simp]:
  "sp_snapshots (fst (disclose t pe)) = sp_snapshots (fst pe)"
  "sp_snapshots (fst (count_poll cands t pe)) = sp_snapshots (fst pe)"
  "bound_to ops c (fst (disclose t pe)) = bound_to ops c (fst pe)"
  "bound_to ops c (fst (count_poll cands t pe)) = bound_to ops c (fst pe)"
  by (simp_all add: disclose_def count_poll_def bound_to_def Let_def split: prod.split)

lemma dispatch_at_most_one:
  assumes "en_first_write env" and "en_second_write env" and "dispatch env fires pad w = (fired, w')"
    and "fires = [] \<or> fires = [(cand, key, item)]"
  shows "\<exists>p. ww_saved w' = Some p \<and> sp_snapshots p = sp_snapshots pad \<and> (bound_to ops c p \<longleftrightarrow> bound_to ops c pad) \<and>
      (\<forall>n. young n (sp_seen_deliveries pad) \<longrightarrow> young n (sp_seen_deliveries p)) \<and>
      (\<forall>k X. k \<noteq> key \<longrightarrow> held k X (sp_seen_deliveries pad) \<longrightarrow> held k X (sp_seen_deliveries p)) \<and>
      (fires = [] \<longrightarrow> sp_seen_deliveries p = sp_seen_deliveries pad) \<and>
      (fires \<noteq> [] \<longrightarrow> held key {item} (sp_seen_deliveries p)) \<and>
      (fires \<noteq> [] \<longrightarrow> (\<exists>e. en_fire env = Inl e) \<longrightarrow>
        sp_seen_deliveries p = sp_seen_deliveries (record_pending_action key item (en_clock env) pad))"
    and "ww_contract w' = ww_contract w"
    and "ww_fired w' = ww_fired w @ (if fires = [] then [] else [(build_event_context [cand], en_fire env)])"
proof -
  let ?q = "record_pending_action key item (en_clock env) pad"
  have q: "sp_snapshots ?q = sp_snapshots pad" "bound_to ops c ?q \<longleftrightarrow> bound_to ops c pad"
    by (simp_all add: record_pending_action_def bound_to_def)
  have a: "sp_snapshots (attach_dispatch_run key run p) = sp_snapshots p"
    "bound_to ops c (attach_dispatch_run key run p) \<longleftrightarrow> bound_to ops c p" for run and p :: "('a, 'b) scratchpad"
    by (simp_all add: attach_dispatch_run_def modify_pending_def bound_to_def)
  have o: "sp_snapshots (record_poll_outcome b now p) = sp_snapshots p"
    "bound_to ops c (record_poll_outcome b now p) \<longleftrightarrow> bound_to ops c p" for b now and p :: "('a, 'b) scratchpad"
    by (simp_all add: record_poll_outcome_def bound_to_def)
  define good :: "('a, 'b) scratchpad \<Rightarrow> bool" where
    "good p \<longleftrightarrow> sp_snapshots p = sp_snapshots pad \<and> (bound_to ops c p \<longleftrightarrow> bound_to ops c pad) \<and>
      (\<forall>n. young n (sp_seen_deliveries pad) \<longrightarrow> young n (sp_seen_deliveries p)) \<and>
      (\<forall>k X. k \<noteq> key \<longrightarrow> held k X (sp_seen_deliveries pad) \<longrightarrow> held k X (sp_seen_deliveries p))" for p
  define gone :: "('a, 'b) scratchpad \<Rightarrow> bool" where
    "gone p \<longleftrightarrow> good p \<and> held key {item} (sp_seen_deliveries p)" for p
  have go: "gone p \<Longrightarrow> gone (record_poll_outcome b now p)" for b now p by (simp add: gone_def good_def o)
  have ga: "gone p \<Longrightarrow> gone (attach_dispatch_run key run p)" for run p
    by (auto simp: gone_def good_def a intro: attach_ledger(2) dispatch_young(2))
  have gq: "gone ?q"
    by (auto simp: gone_def good_def q intro: record_pending_ledger(2,3) dispatch_young(1))
  have g0: "good pad" by (simp add: good_def)
  have "\<exists>p. ww_saved w' = Some p \<and> (if fires = [] then good p \<and> sp_seen_deliveries p = sp_seen_deliveries pad
      else gone p \<and> ((\<exists>e. en_fire env = Inl e) \<longrightarrow> sp_seen_deliveries p = sp_seen_deliveries ?q))"
  proof (cases "fires = []")
    case True
    with assms(1,3) g0 show ?thesis by (auto simp: dispatch_def good_def o)
  next
    case False
    with assms(4) have f: "fires = [(cand, key, item)]" by simp
    with assms(1,2,3) go ga gq show ?thesis
      by (cases "en_fire env") (simp_all add: dispatch_def Let_def, auto)
  qed
  then show "\<exists>p. ww_saved w' = Some p \<and> sp_snapshots p = sp_snapshots pad \<and> (bound_to ops c p \<longleftrightarrow> bound_to ops c pad) \<and>
      (\<forall>n. young n (sp_seen_deliveries pad) \<longrightarrow> young n (sp_seen_deliveries p)) \<and>
      (\<forall>k X. k \<noteq> key \<longrightarrow> held k X (sp_seen_deliveries pad) \<longrightarrow> held k X (sp_seen_deliveries p)) \<and>
      (fires = [] \<longrightarrow> sp_seen_deliveries p = sp_seen_deliveries pad) \<and>
      (fires \<noteq> [] \<longrightarrow> held key {item} (sp_seen_deliveries p)) \<and>
      (fires \<noteq> [] \<longrightarrow> (\<exists>e. en_fire env = Inl e) \<longrightarrow>
        sp_seen_deliveries p = sp_seen_deliveries (record_pending_action key item (en_clock env) pad))"
    by (fastforce simp: good_def gone_def split: if_splits)
  show "ww_contract w' = ww_contract w"
    "ww_fired w' = ww_fired w @ (if fires = [] then [] else [(build_event_context [cand], en_fire env)])"
    using assms by (cases "en_fire env"; auto simp: dispatch_def Let_def save_def emit_health_events_def fire_assignment_def
        split: if_splits)+
qed

lemma single_poll:
  assumes "storage_works (po_env inp)" and "ww_contract w = Some c" and "ww_saved w = Some pad"
    and "bound_to ops c pad0" and "sl_found (po_selection inp) = Some ([cand], path, inferred, False)"
    and "candidate_keys ops c (ca_payload cand) = Inr (item, version)"
    and "reconcile_pending_deliveries (po_env inp) (put_plan_state (sl_plan (po_selection inp)) pad) = (evs, Some pad0)"
    and "length (filter (\<lambda>s. is_identity_key s \<noteq> item) (sp_snapshots pad0)) < snapshot_cap"
    and w': "run_agent_watch_tick ops display aid instr scope inp w = (r, w')"
  defines "fires \<equiv> item_fires ops (po_env inp) aid c item version cand pad0"
    and "snap \<equiv> item_snapshot_after ops (po_env inp) c item version (ca_payload cand) pad0"
  shows "poll_fires ops display aid inp w = fires"
    and "ww_contract w' = Some c"
    and "ww_fired w' = ww_fired w @ (if fires = [] then [] else [(build_event_context [cand], en_fire (po_env inp))])"
    and "\<exists>p. ww_saved w' = Some p \<and> bound_to ops c p \<and>
      sp_snapshots p = filter (\<lambda>s. is_identity_key s \<noteq> item) (sp_snapshots pad0) @ [snap] \<and>
      (\<forall>n. young n (sp_seen_deliveries pad0) \<longrightarrow> young n (sp_seen_deliveries p)) \<and>
      (\<forall>k X. held k X (sp_seen_deliveries pad0) \<longrightarrow> held k X (sp_seen_deliveries p)) \<and>
      (fires \<noteq> [] \<longrightarrow> held (delivery_key ops aid item version (is_edge_counter snap)) {item} (sp_seen_deliveries p)) \<and>
      (fires = [] \<longrightarrow> sp_seen_deliveries p = sp_seen_deliveries pad0) \<and>
      (fires \<noteq> [] \<longrightarrow> (\<exists>e. en_fire (po_env inp) = Inl e) \<longrightarrow> sp_seen_deliveries p =
        sp_seen_deliveries (record_pending_action (delivery_key ops aid item version (is_edge_counter snap)) item
          (en_clock (po_env inp)) pad0))"
    and "\<exists>es. ww_events w' = ww_events w @ map Ev_Observation (sl_events (po_selection inp)) @ evs @ es"
proof -
  let ?env = "po_env inp"
  let ?pad = "put_plan_state (sl_plan (po_selection inp)) pad"
  let ?pad1 = "pad0\<lparr>sp_last_extraction_path := path, sp_last_inferred_tier := inferred\<rparr>"
  let ?t = "judge_poll ops display aid ?env c False False [cand] ?pad1"
  let ?key = "delivery_key ops aid item version (is_edge_counter snap)"
  have wr: "en_first_write ?env" "en_second_write ?env" "loaded_pad ?env w = Some pad"
    using assms(1,3) by (simp_all add: storage_works_def loaded_pad_def)
  have b1: "bound_to ops c ?pad1" and l1: "length (filter (\<lambda>s. is_identity_key s \<noteq> item) (sp_snapshots ?pad1)) < snapshot_cap"
    using assms(4,8) by (simp_all add: bound_to_def)
  note j = judge_one [where ops = ops and env = ?env and aid = aid and display = display, OF b1 assms(6) l1 refl]
  have jf: "ta_fire ?t = fires" unfolding j(1) fires_def by (rule item_cong(2)) simp_all
  have js: "sp_snapshots (ta_pad ?t) = filter (\<lambda>s. is_identity_key s \<noteq> item) (sp_snapshots pad0) @ [snap]"
    using j(2) item_cong(1) [of ?pad1 pad0 ops ?env c item version "ca_payload cand"] by (simp add: snap_def)
  have nf: "\<not> fingerprint_changed ops c False ?pad1" by (rule bound_to_mode(1) [OF b1])
  let ?c = "count_poll [cand] ?t (disclose ?t (ta_pad ?t, evs @ ta_events ?t))"
  let ?w1 = "emit_health_events (map Ev_Observation (sl_events (po_selection inp))) w"
  let ?w2 = "emit_health_events (snd ?c) ?w1"
  obtain fired w4 where d: "dispatch ?env fires (fst ?c) ?w2 = (fired, w4)" by fastforce
  have run: "run_contract_bound_tick ops display aid ?env c ?pad False False [cand] path inferred ?w1 = (r, w')"
    using w' assms(2,5) wr(3) by (simp add: run_agent_watch_tick_def poll_bound_watch_def Let_def)
  have w4: "w' = w4"
    using run d no_amendment [of "[cand]", OF _ j(4)] nf jf
    by (simp add: run_contract_bound_tick_def assms(7) Let_def split_beta)
  show "poll_fires ops display aid inp w = fires"
    using jf assms(2,5,7) wr(3) by (simp add: poll_fires_def bound_fires_def Let_def)
  have one: "fires = [] \<or> fires = [(cand, ?key, item)]"
    by (simp add: fires_def item_fires_def snap_def Let_def)
  note di = dispatch_at_most_one [OF wr(1,2) d one]
  show "ww_contract w' = Some c" using di(2) w4 assms(2) by simp
  have "ww_fired ?w2 = ww_fired w" by (simp add: emit_health_events_def)
  with di(3) w4 show "ww_fired w' = ww_fired w @ (if fires = [] then [] else [(build_event_context [cand], en_fire ?env)])"
    by simp
  have lp: "sp_seen_deliveries (fst ?c) = sp_seen_deliveries pad0" by simp
  have recorded: "sp_seen_deliveries (record_pending_action key item (en_clock ?env) (fst ?c)) =
      sp_seen_deliveries (record_pending_action key item (en_clock ?env) pad0)" for key
    by (simp add: record_pending_action_def)
  have keyless: "k \<noteq> ?key" if "fires \<noteq> []" "held k X (sp_seen_deliveries pad0)" for k X
    using that jf one judged_not_held [of cand ?key item ops display aid ?env c False False "[cand]" ?pad1 X] by auto
  from di(1) [of ops c] obtain p where p: "ww_saved w4 = Some p" "sp_snapshots p = sp_snapshots (fst ?c)"
    "bound_to ops c p \<longleftrightarrow> bound_to ops c (fst ?c)"
    "\<forall>n. young n (sp_seen_deliveries (fst ?c)) \<longrightarrow> young n (sp_seen_deliveries p)"
    "\<forall>k X. k \<noteq> ?key \<longrightarrow> held k X (sp_seen_deliveries (fst ?c)) \<longrightarrow> held k X (sp_seen_deliveries p)"
    "fires = [] \<longrightarrow> sp_seen_deliveries p = sp_seen_deliveries (fst ?c)"
    "fires \<noteq> [] \<longrightarrow> held ?key {item} (sp_seen_deliveries p)"
    "fires \<noteq> [] \<longrightarrow> (\<exists>e. en_fire ?env = Inl e) \<longrightarrow>
      sp_seen_deliveries p = sp_seen_deliveries (record_pending_action ?key item (en_clock ?env) (fst ?c))" by blast
  have h: "held k X (sp_seen_deliveries p)" if "held k X (sp_seen_deliveries pad0)" for k X
    using p(5,6) keyless [OF _ that] that unfolding lp by (cases "fires = []") auto
  have s: "sp_snapshots p = filter (\<lambda>s. is_identity_key s \<noteq> item) (sp_snapshots pad0) @ [snap]"
    "bound_to ops c p" using p(2,3) js j(3) by simp_all
  show "\<exists>p. ww_saved w' = Some p \<and> bound_to ops c p \<and>
      sp_snapshots p = filter (\<lambda>s. is_identity_key s \<noteq> item) (sp_snapshots pad0) @ [snap] \<and>
      (\<forall>n. young n (sp_seen_deliveries pad0) \<longrightarrow> young n (sp_seen_deliveries p)) \<and>
      (\<forall>k X. held k X (sp_seen_deliveries pad0) \<longrightarrow> held k X (sp_seen_deliveries p)) \<and>
      (fires \<noteq> [] \<longrightarrow> held ?key {item} (sp_seen_deliveries p)) \<and>
      (fires = [] \<longrightarrow> sp_seen_deliveries p = sp_seen_deliveries pad0) \<and>
      (fires \<noteq> [] \<longrightarrow> (\<exists>e. en_fire ?env = Inl e) \<longrightarrow> sp_seen_deliveries p =
        sp_seen_deliveries (record_pending_action ?key item (en_clock ?env) pad0))"
    using p(1,4,6,7,8) s h w4 unfolding recorded lp by blast
  obtain es where es: "ww_events w4 = ww_events ?w2 @ es" using dispatch_events [OF d] by blast
  have "\<exists>es. snd ?c = evs @ es" by (simp add: count_poll_def disclose_def Let_def split: prod.split)
  with es w4 show "\<exists>es. ww_events w' = ww_events w @ map Ev_Observation (sl_events (po_selection inp)) @ evs @ es" by auto
qed

end
