(* ===== verification/Schedule_Runner.thy ===== *)
theory Schedule_Runner
  imports Watch_Hazards
begin

text \<open>
  The schedule runner (\<open>ao-engine/src/schedule_runner.rs\<close>): the one background task that every second fires
  the due cron assignments, polls the due connectors and the due watches; with the rows of the assignment
  store it reads and marks (\<open>ao-persistence/src/assignment_store.rs\<close>) and the steps of \<open>fire_assignment\<close>
  (\<open>assignment_runner.rs\<close>) it depends on. Times are in seconds; the clock stands still during a tick. A panic in
  a poll ends the task: \<open>sc_running\<close> is false from then on, until the process is started again.
\<close>

section \<open>Assignments and their store\<close>

text \<open>Of an assignment, the fields the runner reads or writes. Its agent, name, instruction, thread and webhook
  settings only reach \<open>fire_assignment\<close> and the webhook route; the contract and the extraction of a watch are in its
  \<open>watch_world\<close>. Writes of the store succeed: the runner only logs one that fails.\<close>

record connector_poll_spec =
  cp_tool_name :: utext
  cp_cursor_path :: "utext option"

datatype assignment_trigger =
    Trigger_Cron utext bool
  | Trigger_Webhook
  | Trigger_Connector utext connector_poll_spec nat
  | Trigger_Watch utext nat "utext option"

datatype watch_contract_status =
    Not_Yet_Attempted
  | Authoring_Rejected "32 word" bool "utext option"
  | Status_Bound "32 word option"

datatype quiescence_reason =
    Q_Expired int
  | Q_Not_Due "int option"
  | Q_Fire_Failed utext
  | Q_Server_Not_Connected utext "utext option"
  | Q_No_Live_Handle utext
  | Q_Poll_Failed utext utext
  | Q_Cursor_Unresolved utext
  | Q_Watch_Contract_Not_Bound watch_contract_status

datatype evaluation_outcome = Evaluated_Fired | Evaluated_Quiescent quiescence_reason

record assignment =
  as_id :: utext
  as_trigger :: assignment_trigger
  as_enabled :: bool
  as_expires_at :: "int option"
  as_next_fire_at :: "int option"
  as_last_run_at :: "int option"
  as_last_event_cursor :: "utext option"
  as_last_evaluated_at :: "int option"
  as_fire_count :: "64 word"
  as_last_quiescence :: "quiescence_reason option"

definition update_assignment :: "utext \<Rightarrow> (assignment \<Rightarrow> assignment) \<Rightarrow> assignment list \<Rightarrow> assignment list" where
  "update_assignment i f = modify_first (\<lambda>a. as_id a = i) f"

definition apply_evaluation :: "int \<Rightarrow> evaluation_outcome \<Rightarrow> assignment \<Rightarrow> assignment" where
  "apply_evaluation now outcome a =
     (case outcome of
        Evaluated_Fired \<Rightarrow>
          a\<lparr>as_last_evaluated_at := Some now, as_fire_count := as_fire_count a + 1, as_last_quiescence := None\<rparr>
      | Evaluated_Quiescent reason \<Rightarrow> a\<lparr>as_last_evaluated_at := Some now, as_last_quiescence := Some reason\<rparr>)"

definition mark_evaluated :: "utext \<Rightarrow> int \<Rightarrow> evaluation_outcome \<Rightarrow> assignment list \<Rightarrow> assignment list" where
  "mark_evaluated i now outcome = update_assignment i (apply_evaluation now outcome)"

definition polled :: "int \<Rightarrow> utext option \<Rightarrow> bool \<Rightarrow> nat \<Rightarrow> assignment \<Rightarrow> assignment" where
  "polled now cursor fired interval a =
     (let a1 = (if fired then apply_evaluation now Evaluated_Fired (a\<lparr>as_last_run_at := Some now\<rparr>)
                else a\<lparr>as_last_evaluated_at := Some now\<rparr>);
          a2 = (case cursor of Some c \<Rightarrow> a1\<lparr>as_last_event_cursor := Some c\<rparr> | None \<Rightarrow> a1) in
      a2\<lparr>as_next_fire_at := Some (now + int interval)\<rparr>)"

definition mark_polled ::
    "utext \<Rightarrow> int \<Rightarrow> utext option \<Rightarrow> bool \<Rightarrow> nat \<Rightarrow> assignment list \<Rightarrow> assignment list" where
  "mark_polled i now cursor fired interval = update_assignment i (polled now cursor fired interval)"

text \<open>The next time of a cron expression is a parameter.\<close>

definition fired_row :: "int \<Rightarrow> (utext \<Rightarrow> int option) \<Rightarrow> assignment \<Rightarrow> assignment" where
  "fired_row now next_fire a =
     (let a1 = apply_evaluation now Evaluated_Fired (a\<lparr>as_last_run_at := Some now\<rparr>) in
      case as_trigger a of
        Trigger_Cron expr recurring \<Rightarrow>
          if recurring then a1\<lparr>as_next_fire_at := next_fire expr\<rparr>
          else a1\<lparr>as_enabled := False, as_next_fire_at := None\<rparr>
      | Trigger_Webhook \<Rightarrow> a1\<lparr>as_next_fire_at := None\<rparr>
      | _ \<Rightarrow> a1)"

definition mark_fired :: "utext \<Rightarrow> int \<Rightarrow> (utext \<Rightarrow> int option) \<Rightarrow> assignment list \<Rightarrow> assignment list" where
  "mark_fired i now next_fire = update_assignment i (fired_row now next_fire)"

definition is_cron :: "assignment \<Rightarrow> bool" where
  "is_cron a \<longleftrightarrow> (case as_trigger a of Trigger_Cron _ _ \<Rightarrow> True | _ \<Rightarrow> False)"

definition is_connector :: "assignment \<Rightarrow> bool" where
  "is_connector a \<longleftrightarrow> (case as_trigger a of Trigger_Connector _ _ _ \<Rightarrow> True | _ \<Rightarrow> False)"

definition is_watch :: "assignment \<Rightarrow> bool" where
  "is_watch a \<longleftrightarrow> (case as_trigger a of Trigger_Watch _ _ _ \<Rightarrow> True | _ \<Rightarrow> False)"

definition list_all_enabled :: "(assignment \<Rightarrow> bool) \<Rightarrow> assignment list \<Rightarrow> assignment list" where
  "list_all_enabled kind = filter (\<lambda>a. as_enabled a \<and> kind a)"

section \<open>The runner's state and inputs\<close>

text \<open>How far a fire got: nothing was recorded, a run was queued but its message was refused, or it was sent.\<close>

datatype fire_outcome = Fire_Refused utext | Fire_Unsent utext utext | Fire_Sent utext

record ('n, 'f) scheduler =
  sc_running :: bool
  sc_store :: "assignment list"
  sc_watches :: "utext \<Rightarrow> ('n, 'f) watch_world"
  sc_runs :: "(utext \<times> utext) list"
  sc_sent :: "(utext \<times> utext) list"

record ('n, 'f) tick_input =
  ti_now :: int
  ti_next_fire :: "utext \<Rightarrow> int option"
  ti_fire :: "utext \<Rightarrow> fire_outcome"
  ti_server :: "utext \<Rightarrow> (utext \<times> bool) option"
  ti_handle :: "utext \<Rightarrow> bool"
  ti_poll :: "utext \<Rightarrow> utext + 'n json"
  ti_watch :: "utext \<Rightarrow> ('n, 'f) poll_input"

definition on_store :: "(assignment list \<Rightarrow> assignment list) \<Rightarrow> ('n, 'f) scheduler \<Rightarrow> ('n, 'f) scheduler" where
  "on_store f s = s\<lparr>sc_store := f (sc_store s)\<rparr>"

text \<open>\<open>fire_assignment\<close>: the run is appended before the message is submitted; only a cron fire that was sent
  marks the row.\<close>

definition fire ::
    "('n, 'f) tick_input \<Rightarrow> bool \<Rightarrow> utext \<Rightarrow> ('n, 'f) scheduler \<Rightarrow> (utext + utext) \<times> ('n, 'f) scheduler" where
  "fire inp cron i s =
     (case ti_fire inp i of
        Fire_Refused e \<Rightarrow> (Inl e, s)
      | Fire_Unsent run e \<Rightarrow> (Inl e, s\<lparr>sc_runs := sc_runs s @ [(i, run)]\<rparr>)
      | Fire_Sent run \<Rightarrow>
          (let s1 = s\<lparr>sc_runs := sc_runs s @ [(i, run)], sc_sent := sc_sent s @ [(i, run)]\<rparr> in
           (Inr run, if cron then on_store (mark_fired i (ti_now inp) (ti_next_fire inp)) s1 else s1)))"

definition disable_assignment :: "utext \<Rightarrow> ('n, 'f) scheduler \<Rightarrow> ('n, 'f) scheduler" where
  "disable_assignment i = on_store (update_assignment i (as_enabled_update (\<lambda>_. False)))"

definition expired :: "int \<Rightarrow> assignment \<Rightarrow> bool" where
  "expired now a \<longleftrightarrow> (case as_expires_at a of Some t \<Rightarrow> t < now | None \<Rightarrow> False)"

definition due_by :: "int \<Rightarrow> bool \<Rightarrow> assignment \<Rightarrow> bool" where
  "due_by now otherwise a \<longleftrightarrow> (case as_next_fire_at a of Some t \<Rightarrow> t \<le> now | None \<Rightarrow> otherwise)"

section \<open>Cron assignments\<close>

definition evaluate_cron_assignment ::
    "('n, 'f) tick_input \<Rightarrow> assignment \<Rightarrow> ('n, 'f) scheduler \<Rightarrow> evaluation_outcome \<times> ('n, 'f) scheduler" where
  "evaluate_cron_assignment inp a s =
     (if expired (ti_now inp) a then
        (Evaluated_Quiescent (Q_Expired (the (as_expires_at a))), disable_assignment (as_id a) s)
      else if \<not> due_by (ti_now inp) False a then (Evaluated_Quiescent (Q_Not_Due (as_next_fire_at a)), s)
      else case fire inp True (as_id a) s of
             (Inr _, s1) \<Rightarrow> (Evaluated_Fired, s1)
           | (Inl e, s1) \<Rightarrow> (Evaluated_Quiescent (Q_Fire_Failed e), s1))"

definition cron_turn :: "('n, 'f) tick_input \<Rightarrow> assignment \<Rightarrow> ('n, 'f) scheduler \<Rightarrow> ('n, 'f) scheduler" where
  "cron_turn inp a s =
     (case evaluate_cron_assignment inp a s of
        (Evaluated_Quiescent reason, s1) \<Rightarrow>
          on_store (mark_evaluated (as_id a) (ti_now inp) (Evaluated_Quiescent reason)) s1
      | (Evaluated_Fired, s1) \<Rightarrow> s1)"

section \<open>Connector assignments\<close>

datatype connector_event_outcome =
    Skipped_Before_Poll quiescence_reason
  | Polled_Quiescent quiescence_reason "utext option"
  | Polled_No_Reason "utext option"
  | Connector_Fired utext

definition extract_cursor :: "('n, 'f) watch_ops \<Rightarrow> 'n json \<Rightarrow> utext \<Rightarrow> utext option" where
  "extract_cursor ops value path =
     (case dot_walk value (filter (\<lambda>s. s \<noteq> []) (split_on dot path)) of
        None \<Rightarrow> None
      | Some J_Null \<Rightarrow> None
      | Some (J_String s) \<Rightarrow> Some s
      | Some other \<Rightarrow> Some (jo_display (wo_json ops) other))"

definition interpret_connector_poll_result ::
    "('n, 'f) watch_ops \<Rightarrow> ('n, 'f) tick_input \<Rightarrow> assignment \<Rightarrow> utext \<Rightarrow> connector_poll_spec \<Rightarrow>
     ('n, 'f) scheduler \<Rightarrow> connector_event_outcome \<times> ('n, 'f) scheduler" where
  "interpret_connector_poll_result ops inp a server poll s =
     (case ti_poll inp (as_id a) of
        Inl e \<Rightarrow> (Polled_Quiescent (Q_Poll_Failed server e) None, s)
      | Inr result \<Rightarrow>
          (case Option.bind (cp_cursor_path poll) (extract_cursor ops result) of
             None \<Rightarrow> (Polled_Quiescent (Q_Cursor_Unresolved server) None, s)
           | Some cursor \<Rightarrow>
               (case as_last_event_cursor a of
                  None \<Rightarrow> (Polled_No_Reason (Some cursor), s)
                | Some prev \<Rightarrow>
                    if prev = cursor then (Polled_No_Reason None, s)
                    else case fire inp False (as_id a) s of
                           (Inr _, s1) \<Rightarrow> (Connector_Fired cursor, s1)
                         | (Inl e, s1) \<Rightarrow> (Polled_Quiescent (Q_Fire_Failed e) (Some cursor), s1))))"

definition evaluate_connector_event_assignment ::
    "('n, 'f) watch_ops \<Rightarrow> ('n, 'f) tick_input \<Rightarrow> assignment \<Rightarrow> utext \<Rightarrow> connector_poll_spec \<Rightarrow>
     ('n, 'f) scheduler \<Rightarrow> connector_event_outcome \<times> ('n, 'f) scheduler" where
  "evaluate_connector_event_assignment ops inp a server poll s =
     (if expired (ti_now inp) a then
        (Skipped_Before_Poll (Q_Expired (the (as_expires_at a))), disable_assignment (as_id a) s)
      else if \<not> due_by (ti_now inp) True a then (Skipped_Before_Poll (Q_Not_Due (as_next_fire_at a)), s)
      else case ti_server inp server of
             None \<Rightarrow> (Skipped_Before_Poll (Q_Server_Not_Connected server None), s)
           | Some (st, connected) \<Rightarrow>
               if \<not> connected then (Skipped_Before_Poll (Q_Server_Not_Connected server (Some st)), s)
               else if \<not> ti_handle inp server then (Skipped_Before_Poll (Q_No_Live_Handle server), s)
               else interpret_connector_poll_result ops inp a server poll s)"

definition min_poll_interval_secs :: nat where "min_poll_interval_secs = 60"

definition note_connector ::
    "utext \<Rightarrow> int \<Rightarrow> nat \<Rightarrow> connector_event_outcome \<Rightarrow> ('n, 'f) scheduler \<Rightarrow> ('n, 'f) scheduler" where
  "note_connector i now interval outcome =
     (case outcome of
        Skipped_Before_Poll reason \<Rightarrow> on_store (mark_evaluated i now (Evaluated_Quiescent reason))
      | Polled_Quiescent reason cursor \<Rightarrow>
          on_store (mark_evaluated i now (Evaluated_Quiescent reason) \<circ> mark_polled i now cursor False interval)
      | Polled_No_Reason cursor \<Rightarrow> on_store (mark_polled i now cursor False interval)
      | Connector_Fired cursor \<Rightarrow> on_store (mark_polled i now (Some cursor) True interval))"

definition connector_turn ::
    "('n, 'f) watch_ops \<Rightarrow> ('n, 'f) tick_input \<Rightarrow> assignment \<Rightarrow> ('n, 'f) scheduler \<Rightarrow> ('n, 'f) scheduler" where
  "connector_turn ops inp a s =
     (case as_trigger a of
        Trigger_Connector server poll interval \<Rightarrow>
          (case evaluate_connector_event_assignment ops inp a server poll s of
             (outcome, s1) \<Rightarrow> note_connector (as_id a) (ti_now inp) (max interval min_poll_interval_secs) outcome s1)
      | _ \<Rightarrow> s)"

section \<open>Watches\<close>

definition derive_watch_contract_status ::
    "('n, 'f) watch_contract option \<Rightarrow> ('n, 'f) scratchpad option \<Rightarrow> watch_contract_status" where
  "derive_watch_contract_status c pad =
     (if c \<noteq> None then Status_Bound (Option.bind pad sp_contract_bound_after_failed_attempts)
      else case pad of
             Some p \<Rightarrow>
               if 0 < sp_authoring_failure_streak p
               then Authoring_Rejected (sp_authoring_failure_streak p)
                 (authoring_failure_ceiling \<le> sp_authoring_failure_streak p) (sp_last_authoring_rejection_reason p)
               else Not_Yet_Attempted
           | None \<Rightarrow> Not_Yet_Attempted)"

text \<open>The result is \<open>None\<close> when the poll panics.\<close>

definition evaluate_agent_watch_assignment ::
    "('n, 'f) watch_ops \<Rightarrow> (watch_error \<Rightarrow> utext) \<Rightarrow> ('n, 'f) tick_input \<Rightarrow> assignment \<Rightarrow> utext \<Rightarrow> utext option \<Rightarrow> nat \<Rightarrow>
     ('n, 'f) scheduler \<Rightarrow> evaluation_outcome option \<times> ('n, 'f) scheduler" where
  "evaluate_agent_watch_assignment ops display inp a instr scope interval s =
     (if expired (ti_now inp) a then
        (Some (Evaluated_Quiescent (Q_Expired (the (as_expires_at a)))), disable_assignment (as_id a) s)
      else if \<not> due_by (ti_now inp) True a then (Some (Evaluated_Quiescent (Q_Not_Due (as_next_fire_at a))), s)
      else case run_agent_watch_tick ops display (as_id a) instr scope (ti_watch inp (as_id a))
                  (sc_watches s (as_id a)) of
             (r, w) \<Rightarrow>
               (let s1 = s\<lparr>sc_watches := (sc_watches s)(as_id a := w)\<rparr> in
                case r of
                  None \<Rightarrow> (None, s1)
                | Some fired \<Rightarrow>
                    (Some (if fired then Evaluated_Fired
                           else Evaluated_Quiescent (Q_Watch_Contract_Not_Bound
                             (derive_watch_contract_status (ww_contract (sc_watches s (as_id a))) (ww_saved w)))),
                     on_store (mark_polled (as_id a) (ti_now inp) None fired interval) s1)))"

definition watch_turn ::
    "('n, 'f) watch_ops \<Rightarrow> (watch_error \<Rightarrow> utext) \<Rightarrow> ('n, 'f) tick_input \<Rightarrow> assignment \<Rightarrow>
     ('n, 'f) scheduler \<Rightarrow> ('n, 'f) scheduler" where
  "watch_turn ops display inp a s =
     (case as_trigger a of
        Trigger_Watch instr interval scope \<Rightarrow>
          (case evaluate_agent_watch_assignment ops display inp a instr scope (max interval min_poll_interval_secs) s of
             (None, s1) \<Rightarrow> s1\<lparr>sc_running := False\<rparr>
           | (Some Evaluated_Fired, s1) \<Rightarrow> s1
           | (Some (Evaluated_Quiescent reason), s1) \<Rightarrow>
               on_store (mark_evaluated (as_id a) (ti_now inp) (Evaluated_Quiescent reason)) s1)
      | _ \<Rightarrow> s)"

text \<open>The loop over the watches does not go on after a panic.\<close>

fun watch_loop ::
    "('n, 'f) watch_ops \<Rightarrow> (watch_error \<Rightarrow> utext) \<Rightarrow> ('n, 'f) tick_input \<Rightarrow> assignment list \<Rightarrow>
     ('n, 'f) scheduler \<Rightarrow> ('n, 'f) scheduler" where
  "watch_loop ops display inp [] s = s"
| "watch_loop ops display inp (a # as) s =
     (let s1 = watch_turn ops display inp a s in
      if sc_running s1 then watch_loop ops display inp as s1 else s1)"

section \<open>The tick\<close>

text \<open>How long until the next cron assignment fires, for the sleep guard.\<close>

definition nearest_cron_fire_in :: "assignment list \<Rightarrow> int \<Rightarrow> int option" where
  "nearest_cron_fire_in as now =
     (case filter (\<lambda>t. now < t) (List.map_filter as_next_fire_at (filter (\<lambda>a. is_cron a \<and> \<not> expired now a) as)) of
        [] \<Rightarrow> None
      | t # ts \<Rightarrow> Some (fold min ts t - now))"

definition tick_cron :: "('n, 'f) tick_input \<Rightarrow> ('n, 'f) scheduler \<Rightarrow> ('n, 'f) scheduler" where
  "tick_cron inp s = fold (cron_turn inp) (list_all_enabled is_cron (sc_store s)) s"

definition tick_connector_events ::
    "('n, 'f) watch_ops \<Rightarrow> ('n, 'f) tick_input \<Rightarrow> ('n, 'f) scheduler \<Rightarrow> ('n, 'f) scheduler" where
  "tick_connector_events ops inp s = fold (connector_turn ops inp) (list_all_enabled is_connector (sc_store s)) s"

definition tick_agent_watches ::
    "('n, 'f) watch_ops \<Rightarrow> (watch_error \<Rightarrow> utext) \<Rightarrow> ('n, 'f) tick_input \<Rightarrow> ('n, 'f) scheduler \<Rightarrow> ('n, 'f) scheduler" where
  "tick_agent_watches ops display inp s = watch_loop ops display inp (list_all_enabled is_watch (sc_store s)) s"

definition schedule_tick ::
    "('n, 'f) watch_ops \<Rightarrow> (watch_error \<Rightarrow> utext) \<Rightarrow> ('n, 'f) tick_input \<Rightarrow> ('n, 'f) scheduler \<Rightarrow> ('n, 'f) scheduler" where
  "schedule_tick ops display inp s =
     (if sc_running s
      then tick_agent_watches ops display inp (tick_connector_events ops inp (tick_cron inp s)) else s)"

text \<open>A restart of the process: the rows and scratchpads on disk, a new task.\<close>

definition restart :: "('n, 'f) scheduler \<Rightarrow> ('n, 'f) scheduler" where
  "restart s = s\<lparr>sc_running := True\<rparr>"

end
