(* ===== verification/Watch_Reports.thy ===== *)
theory Watch_Reports
  imports Watch_Hazards
begin

text \<open>
  Reports a watch does not make: an item that changes back to a version it was reported in, and an item whose
  retry it announced.
\<close>

lemma find_snapshot_last:
  assumes "sp_snapshots p = filter (\<lambda>s. is_identity_key s \<noteq> item) ss @ [snap]" and "is_identity_key snap = item"
  shows "find_snapshot item p = Some snap"
proof -
  have "find (\<lambda>s. is_identity_key s = item) (filter (\<lambda>s. is_identity_key s \<noteq> item) ss @ [snap]) = Some snap"
    using assms(2) by (induction ss) auto
  then show ?thesis by (simp add: find_snapshot_def assms(1))
qed

lemma refilter:
  "is_identity_key snap = item \<Longrightarrow>
     filter (\<lambda>s. is_identity_key s \<noteq> item) (filter (\<lambda>s. is_identity_key s \<noteq> item) ss @ [snap]) =
     filter (\<lambda>s. is_identity_key s \<noteq> item) ss"
  by simp

lemma snapshot_after_fields [simp]:
  "is_identity_key (item_snapshot_after ops env c item version payload pad) = item"
  "is_version_key (item_snapshot_after ops env c item version payload pad) = version"
  by (simp_all add: item_snapshot_after_def new_snapshot_def Let_def)

lemma bound_to_kept [simp]:
  "bound_to ops c (put_plan_state pl pad) = bound_to ops c pad"
  by (simp add: bound_to_def put_plan_state_def)

lemma put_plan_snapshots [simp]: "sp_snapshots (put_plan_state pl pad) = sp_snapshots pad"
  by (simp add: put_plan_state_def)

lemma same_but_bound: "same_but_ledger p q \<Longrightarrow> bound_to ops c q = bound_to ops c p"
  by (simp add: same_but_ledger_def bound_to_def)

lemma held_seen: "held k X (sp_seen_deliveries p) \<Longrightarrow> has_seen_delivery k now p"
  by (auto simp: held_def has_seen_delivery_def list_ex_iff live_delivery_def)

text \<open>A poll that observes one item of a watch whose ledger is young, from one scratchpad to the next.\<close>

lemma young_poll:
  assumes "storage_works (po_env inp)" and "ww_contract w = Some c" and "ww_saved w = Some pad"
    and "bound_to ops c pad" and "sl_found (po_selection inp) = Some ([cand], path, inferred, False)"
    and "candidate_keys ops c (ca_payload cand) = Inr (item, version)"
    and "length (filter (\<lambda>s. is_identity_key s \<noteq> item) (sp_snapshots pad)) < snapshot_cap"
    and "young n (sp_seen_deliveries pad)" and "n < 3"
    and w': "w' = snd (run_agent_watch_tick ops display aid instr scope inp w)"
  obtains pad0 p where "sp_snapshots pad0 = sp_snapshots pad"
    and "\<And>k X. held k X (sp_seen_deliveries pad) \<Longrightarrow> held k X (sp_seen_deliveries pad0)"
    and "sp_seen_deliveries pad = [] \<Longrightarrow> sp_seen_deliveries pad0 = []"
    and "poll_fires ops display aid inp w = item_fires ops (po_env inp) aid c item version cand pad0"
    and "ww_contract w' = Some c" and "ww_saved w' = Some p" and "bound_to ops c p"
    and "ww_fired w' = ww_fired w @ (if item_fires ops (po_env inp) aid c item version cand pad0 = [] then []
      else [(build_event_context [cand], en_fire (po_env inp))])"
    and "sp_snapshots p = filter (\<lambda>s. is_identity_key s \<noteq> item) (sp_snapshots pad)
      @ [item_snapshot_after ops (po_env inp) c item version (ca_payload cand) pad0]"
    and "young (Suc n) (sp_seen_deliveries p)"
    and "\<And>k X. held k X (sp_seen_deliveries pad0) \<Longrightarrow> held k X (sp_seen_deliveries p)"
    and "item_fires ops (po_env inp) aid c item version cand pad0 \<noteq> [] \<Longrightarrow>
      held (delivery_key ops aid item version
        (is_edge_counter (item_snapshot_after ops (po_env inp) c item version (ca_payload cand) pad0))) {item}
        (sp_seen_deliveries p)"
proof -
  let ?pad = "put_plan_state (sl_plan (po_selection inp)) pad"
  obtain r where run: "run_agent_watch_tick ops display aid instr scope inp w = (r, w')"
    using w' by (cases "run_agent_watch_tick ops display aid instr scope inp w") simp
  have "young n (sp_seen_deliveries ?pad)" using assms(8) by simp
  from reconcile_young [OF this assms(9), of "po_env inp"] obtain pad0 where
    r: "reconcile_pending_deliveries (po_env inp) ?pad = ([], Some pad0)" and s: "same_but_ledger ?pad pad0"
    and y: "young (Suc n) (sp_seen_deliveries pad0)"
    and h: "\<And>k X. held k X (sp_seen_deliveries ?pad) \<Longrightarrow> held k X (sp_seen_deliveries pad0)" by metis
  have ss: "sp_snapshots pad0 = sp_snapshots pad" using s by (simp add: same_but_ledger_def)
  have b: "bound_to ops c pad0" using assms(4) same_but_bound [OF s] by simp
  have l: "length (filter (\<lambda>s. is_identity_key s \<noteq> item) (sp_snapshots pad0)) < snapshot_cap" using assms(7) ss by simp
  have e: "sp_seen_deliveries pad = [] \<Longrightarrow> sp_seen_deliveries pad0 = []"
    using r by (auto simp: reconcile_pending_deliveries_def pending_indices_def)
  note sp = single_poll [OF assms(1,2,3) b assms(5,6) r l run]
  from sp(4) obtain p where p: "ww_saved w' = Some p" "bound_to ops c p"
    "sp_snapshots p = filter (\<lambda>s. is_identity_key s \<noteq> item) (sp_snapshots pad0)
      @ [item_snapshot_after ops (po_env inp) c item version (ca_payload cand) pad0]"
    "\<forall>n. young n (sp_seen_deliveries pad0) \<longrightarrow> young n (sp_seen_deliveries p)"
    "\<forall>k X. held k X (sp_seen_deliveries pad0) \<longrightarrow> held k X (sp_seen_deliveries p)"
    "item_fires ops (po_env inp) aid c item version cand pad0 \<noteq> [] \<longrightarrow>
      held (delivery_key ops aid item version
        (is_edge_counter (item_snapshot_after ops (po_env inp) c item version (ca_payload cand) pad0))) {item}
        (sp_seen_deliveries p)" by blast
  show thesis
    by (rule that [OF ss _ e sp(1,2) p(1,2) sp(3)]) (use p y ss h in \<open>simp_all\<close>)
qed

section \<open>Changing back\<close>

text \<open>In the mode for new or changed items the edge counter does not count changes, so that a version that comes back has
  the key of its first report.\<close>

definition steady :: "('n, 'f) watch_ops \<Rightarrow> ('n, 'f) watch_contract \<Rightarrow> bool \<Rightarrow> 'n json \<Rightarrow> bool" where
  "steady ops c b payload \<longleftrightarrow> (\<forall>previous. contract_matches ops c payload previous = b)"

lemma steady_edge:
  assumes "steady ops c b payload" and "find_snapshot item pad = Some s" and "is_predicate_value s = b"
  shows "is_edge_counter (item_snapshot_after ops env c item version payload pad) = is_edge_counter s"
    and "is_predicate_value (item_snapshot_after ops env c item version payload pad) = b"
  using assms by (simp_all add: item_snapshot_after_def new_snapshot_def entered_def edge_of_def steady_def Let_def)


section \<open>A retry that is not made\<close>

lemma reconcile_last:
  assumes "sp_seen_deliveries pad = ds @ [d]" and "\<forall>e \<in> set ds. sd_status e = Delivery_Confirmed"
    and "sd_status d = Delivery_Pending" and "overdue env d" and "sd_identity_key d = Some item"
  shows "reconcile_pending_deliveries env pad =
     ([Ev_Retried item (sat_inc (sd_pending_poll_count d))],
      Some (pad\<lparr>sp_seen_deliveries := filter (\<lambda>e. sd_id e \<noteq> sd_id d) ds,
        sp_snapshots := filter (\<lambda>s. is_identity_key s \<noteq> item) (sp_snapshots pad)\<rparr>))"
proof -
  have "filter (\<lambda>i. sd_status ((ds @ [d]) ! i) = Delivery_Pending) [0..<length ds] = []"
    using assms(2) by (auto simp: filter_empty_conv nth_append)
  then have "pending_indices (ds @ [d]) = [length ds]" using assms(3) by (simp add: pending_indices_def)
  with assms(1,4,5) show ?thesis
    by (simp add: reconcile_pending_deliveries_def reconcile_at_def overdue_def not_le [symmetric]
        clear_pending_delivery_def Let_def)
qed


end
