(* ===== verification/Watch_Samples.thy ===== *)
theory Watch_Samples
  imports Watch_Reports
begin

text \<open>A concrete watch, on which the properties of the watches are applied.\<close>

definition sample_json_ops :: "(nat, nat) json_ops" where
  "sample_json_ops = \<lparr>jo_as_f64 = Some, jo_less = (<), jo_display = (\<lambda>_. []), jo_lower = (\<lambda>s. s)\<rparr>"

definition sample_watch_ops :: "(nat, nat) watch_ops" where
  "sample_watch_ops =
     \<lparr>wo_json = sample_json_ops, wo_sha256 = (\<lambda>s. s), wo_regex = (\<lambda>_. Inl []),
      wo_json_string = (\<lambda>s. [0x22] @ s @ [0x22]), wo_number = (\<lambda>n. [n]), wo_to_value = (\<lambda>_. J_Null)\<rparr>"

definition sample_contract :: "watch_mode \<Rightarrow> (nat, nat) watch_contract" where
  "sample_contract mode =
     \<lparr>wc_version = 1, wc_authored_at = [], wc_authored_by_run = [],
      wc_source = \<lparr>so_kind = [], so_ref = []\<rparr>,
      wc_identity = \<lparr>id_strategy = Native_Id, id_source_field = Some [7], id_format = None, id_fields = [], id_rationale = []\<rparr>,
      wc_change = \<lparr>ch_material_fields = [[8]], ch_version_hint_field = None\<rparr>,
      wc_predicate = \<lparr>ps_natural_language = [], ps_fields = [], ps_predicate = P_Exists []\<rparr>,
      wc_mode = mode, wc_fields = []\<rparr>"

definition sample_payload :: "nat \<Rightarrow> nat json" where
  "sample_payload n = J_Object (fmap_of_list [([7], J_String [65]), ([8], J_Number n)])"

definition sample_candidate :: "nat \<Rightarrow> nat candidate" where
  "sample_candidate n = \<lparr>ca_id = [], ca_summary = [], ca_payload = sample_payload n\<rparr>"

definition sample_watch_env :: watch_env where
  "sample_watch_env =
     \<lparr>en_run = (\<lambda>_. Inr None), en_load = True, en_now = [], en_date = [], en_clock = 0, en_fire = Inl [],
      en_reset_write = True, en_first_write = True, en_second_write = True, en_update = True\<rparr>"

definition sample_plan_state :: "(nat, nat) plan_state" where
  "sample_plan_state =
     \<lparr>pl_plan = None, pl_fingerprint = None, pl_degraded = False, pl_degraded_reason = None,
      pl_expected_item_count = None, pl_expected_fields = None, pl_model_calls = fmempty\<rparr>"

definition sample_authoring :: "(nat, nat) authoring_pass" where
  "sample_authoring =
     \<lparr>au_model_calls = fmempty, au_probe_inconclusive = False, au_probe_reason = None, au_degraded = False,
      au_degraded_reason = None, au_bound = None, au_events = [], au_result = None\<rparr>"

definition sample_poll :: "nat \<Rightarrow> (nat, nat) poll_input" where
  "sample_poll n =
     \<lparr>po_env = sample_watch_env,
      po_selection = \<lparr>sl_plan = sample_plan_state, sl_events = [],
        sl_found = Some ([sample_candidate n], Path_Llm, None, False)\<rparr>,
      po_frozen = (0, None), po_authoring = sample_authoring\<rparr>"

definition sample_pad :: "watch_mode \<Rightarrow> (nat, nat) scratchpad" where
  "sample_pad mode =
     default_scratchpad\<lparr>sp_contract_fingerprint := Some (fingerprint sample_watch_ops (sample_contract mode)),
       sp_identity_keygen_version := Some identity_keygen_version\<rparr>"

definition sample_watch_world :: "watch_mode \<Rightarrow> (nat, nat) watch_world" where
  "sample_watch_world mode =
     \<lparr>ww_saved = Some (sample_pad mode), ww_contract = Some (sample_contract mode), ww_extraction_tool = None,
      ww_extraction_args = None, ww_events = [], ww_fired = []\<rparr>"

definition sample_item :: utext where
  "sample_item = normalize_identity_text sample_watch_ops [65]"

definition sample_version :: "nat \<Rightarrow> utext" where
  "sample_version n = canonical_json sample_watch_ops (object_of [([8], J_Number n)])"

lemma sample_payload_get [simp]:
  "json_get (sample_payload n) [7] = Some (J_String [65])"
  "json_get (sample_payload n) [8] = Some (J_Number n)"
  by (simp_all add: json_get_def sample_payload_def)

lemma sample_keys:
  "candidate_keys sample_watch_ops (sample_contract mode) (sample_payload n) = Inr (sample_item, sample_version n)"
  by (simp add: candidate_keys_def missing_required_fields_def sample_contract_def identity_key_def native_id_key_def
      identity_text_def blank_text_def is_whitespace_def version_key_def material_value_def sample_item_def
      sample_version_def sample_watch_ops_def)

lemma sample_versions: "sample_version n = sample_version m \<Longrightarrow> n = m"
  by (simp add: sample_version_def object_of_def object_member_def sample_watch_ops_def sorted_list_of_fset.rep_eq)

lemma sample_steady: "steady sample_watch_ops (sample_contract mode) True (sample_payload n)"
  by (simp add: steady_def contract_matches_def sample_contract_def resolve_json_path_def sample_payload_def)

lemma sample_storage: "storage_works (po_env (sample_poll n))"
  by (simp add: storage_works_def sample_poll_def sample_watch_env_def)

lemma sample_found: "sl_found (po_selection (sample_poll n)) = Some ([sample_candidate n], Path_Llm, None, False)"
  by (simp add: sample_poll_def)

lemma sample_watch_facts:
  "ww_contract (sample_watch_world mode) = Some (sample_contract mode)"
  "ww_saved (sample_watch_world mode) = Some (sample_pad mode)"
  "bound_to sample_watch_ops (sample_contract mode) (sample_pad mode)"
  "sp_seen_deliveries (sample_pad mode) = []" "sp_snapshots (sample_pad mode) = []"
  by (simp_all add: sample_watch_world_def bound_to_def sample_pad_def default_scratchpad_def)

lemma sample_candidate_payload: "ca_payload (sample_candidate n) = sample_payload n"
  by (simp add: sample_candidate_def)



definition empty_watch_world :: "(nat, nat) watch_world" where
  "empty_watch_world =
     \<lparr>ww_saved = None, ww_contract = Some (sample_contract New_Only), ww_extraction_tool = None,
      ww_extraction_args = None, ww_events = [], ww_fired = []\<rparr>"

theorem scratchpads_stay_bounded_witness:
  "world_ok (run_polls sample_watch_ops (\<lambda>_. []) [] [([], None, sample_poll 1), ([], None, sample_poll 2)] empty_watch_world)"
  by (rule scratchpads_stay_bounded) (simp add: world_ok_def empty_watch_world_def)

theorem amendments_bounded_witness:
  "amendments (new_events empty_watch_world (run_polls sample_watch_ops (\<lambda>_. []) []
     [([], None, sample_poll 1), ([], None, sample_poll 2)] empty_watch_world)) \<le> 3"
  by (rule amendments_bounded) (simp_all add: not_orphaned_def empty_watch_world_def sample_storage)

section \<open>A delivery that is stuck for four polls\<close>

abbreviation sample_tick :: "(nat, nat) watch_world \<Rightarrow> (nat, nat) watch_world" where
  "sample_tick w \<equiv> snd (run_agent_watch_tick sample_watch_ops (\<lambda>_. []) [] [] None (sample_poll 1) w)"

abbreviation sample_fires :: "(nat, nat) watch_world \<Rightarrow> (nat candidate \<times> utext \<times> utext) list" where
  "sample_fires w \<equiv> poll_fires sample_watch_ops (\<lambda>_. []) [] (sample_poll 1) w"

definition sample_key :: utext where
  "sample_key = delivery_key sample_watch_ops [] sample_item (sample_version 1) 1"

definition waiting_entry :: "nat \<Rightarrow> seen_delivery" where
  "waiting_entry n = (new_entry sample_key 0 True Delivery_Pending (Some sample_item))\<lparr>sd_pending_poll_count := of_nat n\<rparr>"

definition waiting :: "nat \<Rightarrow> (nat, nat) watch_world \<Rightarrow> bool" where
  "waiting n w \<longleftrightarrow> ww_contract w = Some (sample_contract Predicate_Transition) \<and>
     (\<exists>pad s. ww_saved w = Some pad \<and> bound_to sample_watch_ops (sample_contract Predicate_Transition) pad \<and>
       sp_snapshots pad = [s] \<and> is_identity_key s = sample_item \<and> is_predicate_value s \<and>
       sp_seen_deliveries pad = [waiting_entry n])"

lemma waiting_fields [simp]:
  "sd_id (waiting_entry n) = sample_key" "sd_status (waiting_entry n) = Delivery_Pending"
  "sd_run_id (waiting_entry n) = None" "sd_identity_key (waiting_entry n) = Some sample_item"
  "sd_pending_poll_count (waiting_entry n) = of_nat n"
  "waiting_entry n\<lparr>sd_pending_poll_count := of_nat m\<rparr> = waiting_entry m"
  by (simp_all add: waiting_entry_def new_entry_def)

lemma sample_mode: "wc_mode (sample_contract mode) = mode"
  by (simp add: sample_contract_def)

lemma sample_matches: "contract_matches sample_watch_ops (sample_contract mode) (sample_payload n) prev"
  using sample_steady [of mode n] by (simp add: steady_def)

lemma sample_poll_run: "run_agent_watch_tick sample_watch_ops (\<lambda>_. []) [] [] None (sample_poll 1) w =
    (fst (run_agent_watch_tick sample_watch_ops (\<lambda>_. []) [] [] None (sample_poll 1) w), sample_tick w)"
  by simp

lemmas sample_single = single_poll [OF sample_storage _ _ _ sample_found _ _ _ sample_poll_run]

lemma first_sample_poll:
  "sample_fires (sample_watch_world Predicate_Transition) = [(sample_candidate 1, sample_key, sample_item)]"
  "waiting 0 (sample_tick (sample_watch_world Predicate_Transition))"
proof -
  let ?c = "sample_contract Predicate_Transition"
  let ?pad = "put_plan_state (sl_plan (po_selection (sample_poll 1))) (sample_pad Predicate_Transition)"
  have e: "sp_seen_deliveries ?pad = []" "sp_snapshots ?pad = []" by (simp_all add: sample_watch_facts)
  have r: "reconcile_pending_deliveries (po_env (sample_poll 1)) ?pad = ([], Some ?pad)"
    using e(1) by (simp add: reconcile_pending_deliveries_def pending_indices_def)
  have b: "bound_to sample_watch_ops ?c ?pad" using sample_watch_facts(3) by simp
  have k: "candidate_keys sample_watch_ops ?c (ca_payload (sample_candidate 1)) = Inr (sample_item, sample_version 1)"
    by (simp add: sample_candidate_payload sample_keys)
  have l: "length (filter (\<lambda>s. is_identity_key s \<noteq> sample_item) (sp_snapshots ?pad)) < snapshot_cap"
    using e(2) by (simp add: snapshot_cap_def)
  let ?snap = "item_snapshot_after sample_watch_ops (po_env (sample_poll 1)) ?c sample_item (sample_version 1)
    (ca_payload (sample_candidate 1)) ?pad"
  have n: "find_snapshot sample_item ?pad = None" using e(2) by (simp add: find_snapshot_def)
  have m: "is_predicate_value ?snap" "is_edge_counter ?snap = 1"
    using n by (simp_all add: item_snapshot_after_def new_snapshot_def entered_def edge_of_def Let_def
        sample_candidate_payload sample_matches)
  have f: "item_fires sample_watch_ops (po_env (sample_poll 1)) [] ?c sample_item (sample_version 1) (sample_candidate 1) ?pad
      = [(sample_candidate 1, sample_key, sample_item)]"
    using m n e(1) by (simp add: item_fires_def Let_def should_fire_def sample_mode entered_def has_seen_delivery_def
        sample_key_def)
  note sp = sample_single [OF sample_watch_facts(1,2) b k r l]
  from sp(1) f show "sample_fires (sample_watch_world Predicate_Transition) = [(sample_candidate 1, sample_key, sample_item)]"
    by simp
  from sp(4) f m obtain p where p: "ww_saved (sample_tick (sample_watch_world Predicate_Transition)) = Some p"
    "bound_to sample_watch_ops ?c p" "sp_snapshots p = filter (\<lambda>s. is_identity_key s \<noteq> sample_item) (sp_snapshots ?pad) @ [?snap]"
    "sp_seen_deliveries p = sp_seen_deliveries (record_pending_action sample_key sample_item 0 ?pad)"
    by (auto simp: sample_poll_def sample_watch_env_def sample_key_def)
  with e m(1) sp(2) show "waiting 0 (sample_tick (sample_watch_world Predicate_Transition))"
    by (auto simp: waiting_def record_pending_action_def waiting_entry_def new_entry_def)
qed

lemma later_sample_poll:
  assumes "waiting n w" and "n \<in> {0, 1, 2}"
  shows "waiting (Suc n) (sample_tick w)"
proof -
  let ?c = "sample_contract Predicate_Transition"
  from assms(1) obtain pad s where w: "ww_contract w = Some ?c" "ww_saved w = Some pad" "bound_to sample_watch_ops ?c pad"
    "sp_snapshots pad = [s]" "is_identity_key s = sample_item" "is_predicate_value s"
    "sp_seen_deliveries pad = [waiting_entry n]" by (auto simp: waiting_def)
  let ?pad = "put_plan_state (sl_plan (po_selection (sample_poll 1))) pad"
  define counted where "counted = ?pad\<lparr>sp_seen_deliveries := [waiting_entry (Suc n)]\<rparr>"
  have c: "sat_inc (of_nat n :: 32 word) = of_nat (Suc n)" "(of_nat (Suc n) :: 32 word) \<le> retry_poll_threshold"
    using assms(2) by (auto simp: sat_inc_def retry_poll_threshold_def)
  have r: "reconcile_pending_deliveries (po_env (sample_poll 1)) ?pad = ([], Some counted)"
    using w(7) c by (simp add: reconcile_pending_deliveries_def pending_indices_def reconcile_at_def counted_def
        reached_terminal_status_def Let_def del: of_nat_Suc)
  have b: "bound_to sample_watch_ops ?c counted" using w(3) by (simp add: counted_def bound_to_def put_plan_state_def)
  have k: "candidate_keys sample_watch_ops ?c (ca_payload (sample_candidate 1)) = Inr (sample_item, sample_version 1)"
    by (simp add: sample_candidate_payload sample_keys)
  have l: "length (filter (\<lambda>s. is_identity_key s \<noteq> sample_item) (sp_snapshots counted)) < snapshot_cap"
    using w(4,5) by (simp add: counted_def snapshot_cap_def)
  let ?snap = "item_snapshot_after sample_watch_ops (po_env (sample_poll 1)) ?c sample_item (sample_version 1)
    (ca_payload (sample_candidate 1)) counted"
  have n: "find_snapshot sample_item counted = Some s" using w(4,5) by (simp add: find_snapshot_def counted_def)
  have m: "is_predicate_value ?snap"
    by (simp add: item_snapshot_after_def new_snapshot_def Let_def sample_candidate_payload sample_matches)
  have f: "item_fires sample_watch_ops (po_env (sample_poll 1)) [] ?c sample_item (sample_version 1) (sample_candidate 1)
      counted = []"
    using n w(6) by (simp add: item_fires_def Let_def should_fire_def sample_mode entered_def)
  note sp = sample_single [OF w(1,2) b k r l]
  from sp(4) f obtain p where p: "ww_saved (sample_tick w) = Some p" "bound_to sample_watch_ops ?c p"
    "sp_snapshots p = filter (\<lambda>s. is_identity_key s \<noteq> sample_item) (sp_snapshots counted) @ [?snap]"
    "sp_seen_deliveries p = sp_seen_deliveries counted" by auto
  have "sp_snapshots p = [?snap]" using p(3) w(4,5) by (simp add: counted_def)
  with p(1,2,4) m sp(2) show ?thesis by (auto simp: waiting_def counted_def)
qed

lemma last_sample_poll:
  assumes "waiting 3 w"
  shows "(sample_candidate 1, sample_key, sample_item) \<in> set (sample_fires w)"
proof -
  let ?c = "sample_contract Predicate_Transition"
  from assms(1) obtain pad s where w: "ww_contract w = Some ?c" "ww_saved w = Some pad" "bound_to sample_watch_ops ?c pad"
    "sp_snapshots pad = [s]" "is_identity_key s = sample_item" "is_predicate_value s"
    "sp_seen_deliveries pad = [waiting_entry 3]" by (auto simp: waiting_def)
  let ?pad = "put_plan_state (sl_plan (po_selection (sample_poll 1))) pad"
  define cleared where "cleared = ?pad\<lparr>sp_seen_deliveries := [], sp_snapshots := []\<rparr>"
  have "reconcile_pending_deliveries (po_env (sample_poll 1)) ?pad = ([Ev_Retried sample_item (sat_inc 3)],
      Some (?pad\<lparr>sp_seen_deliveries := filter (\<lambda>e. sd_id e \<noteq> sd_id (waiting_entry 3)) [],
        sp_snapshots := filter (\<lambda>s. is_identity_key s \<noteq> sample_item) (sp_snapshots ?pad)\<rparr>))"
    using reconcile_last [of ?pad "[]" "waiting_entry 3" "po_env (sample_poll 1)" sample_item] w(7)
    by (simp add: overdue_def reached_terminal_status_def retry_poll_threshold_def sat_inc_def)
  then have r: "reconcile_pending_deliveries (po_env (sample_poll 1)) ?pad =
      ([Ev_Retried sample_item (sat_inc 3)], Some cleared)"
    using w(4,5) by (simp add: cleared_def)
  have b: "bound_to sample_watch_ops ?c cleared" using w(3) by (simp add: cleared_def bound_to_def put_plan_state_def)
  have k: "candidate_keys sample_watch_ops ?c (ca_payload (sample_candidate 1)) = Inr (sample_item, sample_version 1)"
    by (simp add: sample_candidate_payload sample_keys)
  have l: "length (filter (\<lambda>s. is_identity_key s \<noteq> sample_item) (sp_snapshots cleared)) < snapshot_cap"
    by (simp add: cleared_def snapshot_cap_def)
  have n: "find_snapshot sample_item cleared = None" by (simp add: find_snapshot_def cleared_def)
  let ?snap = "item_snapshot_after sample_watch_ops (po_env (sample_poll 1)) ?c sample_item (sample_version 1)
    (ca_payload (sample_candidate 1)) cleared"
  have m: "is_predicate_value ?snap" "is_edge_counter ?snap = 1"
    using n by (simp_all add: item_snapshot_after_def new_snapshot_def entered_def edge_of_def Let_def
        sample_candidate_payload sample_matches)
  have f: "item_fires sample_watch_ops (po_env (sample_poll 1)) [] ?c sample_item (sample_version 1) (sample_candidate 1)
      cleared = [(sample_candidate 1, sample_key, sample_item)]"
    using m n by (simp add: item_fires_def Let_def should_fire_def sample_mode entered_def has_seen_delivery_def
        cleared_def sample_key_def)
  note sp = sample_single [OF w(1,2) b k r l]
  from sp(1) f show ?thesis by simp
qed

theorem dispatched_again_only_after_retry_witness:
  "\<exists>w1 w3 x n. (\<exists>w2. (sample_candidate 1, sample_key, sample_item) \<in> set (sample_fires w2) \<and> w3 = sample_tick w2) \<and>
     w1 = sample_tick (sample_watch_world Predicate_Transition) \<and> Ev_Retried x n \<in> set (new_events w1 w3)"
proof -
  let ?w = "sample_watch_world Predicate_Transition"
  let ?w1 = "sample_tick ?w"
  let ?polls = "[([], None, sample_poll 1), ([], None, sample_poll 1), ([], None, sample_poll 1)]"
  let ?w2 = "run_polls sample_watch_ops (\<lambda>_. []) [] ?polls ?w1"
  have "waiting 1 (sample_tick ?w1)" using later_sample_poll [OF first_sample_poll(2)] by simp
  from later_sample_poll [OF this] have "waiting 2 (sample_tick (sample_tick ?w1))" by (simp add: numeral_2_eq_2)
  from later_sample_poll [OF this] have "waiting 3 ?w2" by (simp add: numeral_3_eq_3)
  then have f: "(sample_candidate 1, sample_key, sample_item) \<in> set (sample_fires ?w2)" by (rule last_sample_poll)
  have d: "ledger_ids_distinct ?w" by (simp add: ledger_ids_distinct_def sample_watch_facts)
  have "(sample_candidate 1, sample_key, sample_item) \<in> set (sample_fires ?w)" using first_sample_poll(1) by simp
  from dispatched_again_only_after_retry [OF d sample_storage sample_storage _ refl refl refl this f, of "[]" None]
  show ?thesis using f by (auto simp: sample_storage)
qed

end
