(* ===== verification/Schedule_Properties.thy ===== *)
theory Schedule_Properties
  imports Schedule_Runner Watch_Samples
begin

text \<open>
  What one assignment sees of the schedule runner's ticks: its row, its watch and its runs change in its own
  turn only. From that: a stuck delivery stops the scheduler for good, a cron assignment whose message is
  refused is queued on every tick, and a connector's change is lost with the fire that failed.
\<close>

section \<open>What an assignment sees of the state\<close>

definition rows_of :: "utext \<Rightarrow> ('n, 'f) scheduler \<Rightarrow> assignment list" where
  "rows_of j s = filter (\<lambda>a. as_id a = j) (sc_store s)"

definition runs_of :: "utext \<Rightarrow> ('n, 'f) scheduler \<Rightarrow> (utext \<times> utext) list" where
  "runs_of j s = filter (\<lambda>r. fst r = j) (sc_runs s)"

definition sent_of :: "utext \<Rightarrow> ('n, 'f) scheduler \<Rightarrow> (utext \<times> utext) list" where
  "sent_of j s = filter (\<lambda>r. fst r = j) (sc_sent s)"

definition same_view :: "utext \<Rightarrow> ('n, 'f) scheduler \<Rightarrow> ('n, 'f) scheduler \<Rightarrow> bool" where
  "same_view j s s' \<longleftrightarrow> rows_of j s' = rows_of j s \<and> sc_watches s' j = sc_watches s j \<and>
     runs_of j s' = runs_of j s \<and> sent_of j s' = sent_of j s"

lemma same_view_refl: "same_view j s s"
  by (simp add: same_view_def)

lemma same_view_trans: "same_view j s s1 \<Longrightarrow> same_view j s1 s2 \<Longrightarrow> same_view j s s2"
  by (simp add: same_view_def)

lemma filter_modify_first:
  "filter p (modify_first p f xs) =
     (case filter p xs of [] \<Rightarrow> [] | y # ys \<Rightarrow> if p (f y) then f y # ys else ys)"
  by (induction xs) (auto split: list.splits)

lemma filter_modify_first_other:
  "(\<And>x. q x \<Longrightarrow> \<not> p x) \<Longrightarrow> (\<And>x. p x \<Longrightarrow> \<not> p (f x) \<or> p (f x)) \<Longrightarrow> (\<And>x. p x \<Longrightarrow> \<not> q (f x)) \<Longrightarrow>
   filter q (modify_first p f xs) = filter q xs"
  by (induction xs) auto

lemma evaluation_id [simp]: "as_id (apply_evaluation now outcome a) = as_id a"
  by (simp add: apply_evaluation_def split: evaluation_outcome.split)

lemma polled_id [simp]: "as_id (polled now cursor fired interval a) = as_id a"
  by (simp add: polled_def Let_def split: option.split)

lemma fired_id [simp]: "as_id (fired_row now next_fire a) = as_id a"
  by (simp add: fired_row_def Let_def split: assignment_trigger.split)

lemma rows_update:
  assumes "\<And>a. as_id (f a) = as_id a"
  shows "rows_of j (on_store (update_assignment i f) s) =
    (if i = j then (case rows_of j s of [] \<Rightarrow> [] | a # as \<Rightarrow> f a # as) else rows_of j s)"
proof (cases "i = j")
  case True
  have "as_id y = j" if "rows_of j s = y # ys" for y ys
    using arg_cong [OF that, of set] by (auto simp: rows_of_def)
  moreover have "rows_of j (on_store (update_assignment i f) s) =
      (case rows_of j s of [] \<Rightarrow> [] | y # ys \<Rightarrow> if as_id (f y) = j then f y # ys else ys)"
    using True by (simp add: rows_of_def on_store_def update_assignment_def filter_modify_first)
  ultimately show ?thesis using True by (cases "rows_of j s") (simp_all add: assms)
next
  case False
  then show ?thesis
    by (simp add: rows_of_def on_store_def update_assignment_def) (rule filter_modify_first_other, auto simp: assms)
qed

lemma update_view [simp]:
  "sc_watches (on_store f s) = sc_watches s" "runs_of j (on_store f s) = runs_of j s"
  "sent_of j (on_store f s) = sent_of j s" "sc_running (on_store f s) = sc_running s"
  "sc_runs (on_store f s) = sc_runs s" "sc_sent (on_store f s) = sc_sent s"
  by (simp_all add: on_store_def runs_of_def sent_of_def)

lemma on_store_comp: "on_store (f \<circ> g) s = on_store f (on_store g s)"
  by (simp add: on_store_def)

lemmas store_steps = mark_evaluated_def mark_polled_def mark_fired_def disable_assignment_def rows_update

lemma rows_simps [simp]:
  "rows_of j (s\<lparr>sc_runs := rs\<rparr>) = rows_of j s" "rows_of j (s\<lparr>sc_sent := rs\<rparr>) = rows_of j s"
  "rows_of j (s\<lparr>sc_watches := ws\<rparr>) = rows_of j s" "rows_of j (s\<lparr>sc_running := b\<rparr>) = rows_of j s"
  by (simp_all add: rows_of_def)

lemma runs_simps [simp]:
  "runs_of j (s\<lparr>sc_runs := rs\<rparr>) = filter (\<lambda>r. fst r = j) rs" "runs_of j (s\<lparr>sc_sent := rs\<rparr>) = runs_of j s"
  "runs_of j (s\<lparr>sc_watches := ws\<rparr>) = runs_of j s" "runs_of j (s\<lparr>sc_running := b\<rparr>) = runs_of j s"
  "sent_of j (s\<lparr>sc_runs := rs\<rparr>) = sent_of j s" "sent_of j (s\<lparr>sc_sent := rs\<rparr>) = filter (\<lambda>r. fst r = j) rs"
  "sent_of j (s\<lparr>sc_watches := ws\<rparr>) = sent_of j s" "sent_of j (s\<lparr>sc_running := b\<rparr>) = sent_of j s"
  "filter (\<lambda>r. fst r = j) (sc_runs s) = runs_of j s" "filter (\<lambda>r. fst r = j) (sc_sent s) = sent_of j s"
  by (simp_all add: runs_of_def sent_of_def)

text \<open>A turn leaves the other assignments alone.\<close>

lemma fire_view: "fire inp cron i s = (r, s1) \<Longrightarrow> i \<noteq> j \<Longrightarrow> same_view j s s1"
  by (auto simp: fire_def Let_def same_view_def store_steps split: fire_outcome.splits if_splits)

lemma fire_running: "fire inp cron i s = (r, s1) \<Longrightarrow> sc_running s1 = sc_running s"
  by (auto simp: fire_def Let_def split: fire_outcome.splits if_splits)

lemma cron_turn_view: "as_id b \<noteq> j \<Longrightarrow> same_view j s (cron_turn inp b s)"
  by (auto simp: cron_turn_def evaluate_cron_assignment_def store_steps same_view_def
      dest!: fire_view [where j = j] split: evaluation_outcome.splits prod.splits sum.splits if_splits)

lemma connector_turn_view:
  assumes "as_id b \<noteq> j"
  shows "same_view j s (connector_turn ops inp b s)"
  using assms
  by (auto simp: connector_turn_def evaluate_connector_event_assignment_def interpret_connector_poll_result_def
      note_connector_def on_store_comp store_steps same_view_def dest!: fire_view [where j = j]
      split: assignment_trigger.splits connector_event_outcome.splits prod.splits sum.splits if_splits option.splits)

lemma watch_turn_view: "as_id b \<noteq> j \<Longrightarrow> same_view j s (watch_turn ops display inp b s)"
  by (auto simp: watch_turn_def evaluate_agent_watch_assignment_def Let_def store_steps same_view_def
      split: assignment_trigger.splits evaluation_outcome.splits prod.splits if_splits option.splits)

lemma cron_turn_running: "sc_running (cron_turn inp b s) = sc_running s"
  by (auto simp: cron_turn_def evaluate_cron_assignment_def disable_assignment_def dest!: fire_running
      split: evaluation_outcome.splits prod.splits sum.splits if_splits)

lemma connector_turn_running: "sc_running (connector_turn ops inp b s) = sc_running s"
  by (auto simp: connector_turn_def evaluate_connector_event_assignment_def interpret_connector_poll_result_def
      note_connector_def on_store_comp disable_assignment_def dest!: fire_running
      split: assignment_trigger.splits connector_event_outcome.splits prod.splits sum.splits if_splits option.splits)

section \<open>A loop over the assignments\<close>

lemma turns_running: "(\<And>b s. sc_running (turn b s) = sc_running s) \<Longrightarrow> sc_running (fold turn bs s) = sc_running s"
  by (induction bs arbitrary: s) auto

lemma split_at_own:
  assumes "filter (\<lambda>a. as_id a = j) xs = [a]"
  obtains ys zs where "xs = ys @ a # zs" "as_id a = j" "\<forall>b\<in>set ys. as_id b \<noteq> j" "\<forall>b\<in>set zs. as_id b \<noteq> j"
proof -
  from assms obtain us vs where "xs = us @ a # vs" "\<forall>u\<in>set us. as_id u \<noteq> j" "as_id a = j"
    "[] = filter (\<lambda>b. as_id b = j) vs" unfolding filter_eq_Cons_iff by blast
  then show ?thesis by (intro that [of us vs]) (auto simp: filter_empty_conv dest: sym)
qed

lemma own_among:
  assumes "rows_of j s = [a]"
  shows "filter (\<lambda>b. as_id b = j) (list_all_enabled kind (sc_store s)) = (if as_enabled a \<and> kind a then [a] else [])"
proof -
  have "filter (\<lambda>b. as_id b = j) (list_all_enabled kind (sc_store s)) = filter (\<lambda>b. as_enabled b \<and> kind b) (rows_of j s)"
    by (simp add: rows_of_def list_all_enabled_def conj_ac)
  then show ?thesis using assms by simp
qed

text \<open>What a turn promises: it changes what its own assignment sees and nothing else.\<close>

locale turns =
  fixes turn :: "assignment \<Rightarrow> ('n, 'f) scheduler \<Rightarrow> ('n, 'f) scheduler"
  assumes others: "as_id b \<noteq> j \<Longrightarrow> same_view j s (turn b s)"
begin

lemma fold_others: "\<forall>b\<in>set bs. as_id b \<noteq> j \<Longrightarrow> same_view j s (fold turn bs s)"
proof (induction bs arbitrary: s)
  case Nil
  then show ?case by (simp add: same_view_refl)
next
  case (Cons b bs)
  then show ?case using same_view_trans [OF others [of b j s]] by simp
qed

lemma own_turn:
  assumes "rows_of j s = [a]" and "as_enabled a" and "kind a"
  shows "\<exists>s1. same_view j s s1 \<and> same_view j (turn a s1) (fold turn (list_all_enabled kind (sc_store s)) s)"
proof -
  have "filter (\<lambda>b. as_id b = j) (list_all_enabled kind (sc_store s)) = [a]"
    using own_among [OF assms(1), of kind] assms(2,3) by simp
  then obtain ys zs where l: "list_all_enabled kind (sc_store s) = ys @ a # zs"
    "\<forall>b\<in>set ys. as_id b \<noteq> j" "\<forall>b\<in>set zs. as_id b \<noteq> j" by (rule split_at_own)
  have "same_view j s (fold turn ys s)" "same_view j (turn a (fold turn ys s)) (fold turn zs (turn a (fold turn ys s)))"
    using fold_others l(2,3) by blast+
  with l(1) show ?thesis by auto
qed

lemma no_turn:
  assumes "rows_of j s = [a]" and "\<not> (as_enabled a \<and> kind a)"
  shows "same_view j s (fold turn (list_all_enabled kind (sc_store s)) s)"
  using own_among [OF assms(1), of kind] assms(2) by (intro fold_others) (auto simp: filter_empty_conv)

end

interpretation cron: turns "cron_turn inp" for inp
  by unfold_locales (rule cron_turn_view)

interpretation connector: turns "connector_turn ops inp" for ops inp
  by unfold_locales (rule connector_turn_view)

interpretation watch: turns "watch_turn ops display inp" for ops display inp
  by unfold_locales (rule watch_turn_view)

lemma watch_loop_view:
  "\<forall>b\<in>set bs. as_id b \<noteq> j \<Longrightarrow> same_view j s (watch_loop ops display inp bs s)"
proof (induction bs arbitrary: s)
  case Nil
  then show ?case by (simp add: same_view_refl)
next
  case (Cons b bs)
  then have "same_view j s (watch_turn ops display inp b s)" by (simp add: watch.others)
  with Cons show ?case by (auto simp: Let_def intro: same_view_trans)
qed

lemma watch_loop_append:
  "watch_loop ops display inp (xs @ ys) s =
     (let s1 = watch_loop ops display inp xs s in
      if xs = [] \<or> sc_running s1 then watch_loop ops display inp ys s1 else s1)"
  by (induction xs arbitrary: s) (auto simp: Let_def)

lemma not_own_watch:
  "rows_of j s = [a] \<Longrightarrow> \<not> is_watch a \<Longrightarrow> same_view j s (tick_agent_watches ops display inp s)"
  using own_among [of j s a is_watch] unfolding tick_agent_watches_def
  by (intro watch_loop_view) (auto simp: filter_empty_conv)

section \<open>Ticks\<close>

fun run_ticks ::
    "('n, 'f) watch_ops \<Rightarrow> (watch_error \<Rightarrow> utext) \<Rightarrow> ('n, 'f) tick_input list \<Rightarrow> ('n, 'f) scheduler \<Rightarrow> ('n, 'f) scheduler" where
  "run_ticks ops display [] s = s"
| "run_ticks ops display (inp # inps) s = run_ticks ops display inps (schedule_tick ops display inp s)"

fun run_with_restarts ::
    "('n, 'f) watch_ops \<Rightarrow> (watch_error \<Rightarrow> utext) \<Rightarrow> ('n, 'f) tick_input list \<Rightarrow> ('n, 'f) scheduler \<Rightarrow> ('n, 'f) scheduler" where
  "run_with_restarts ops display [] s = s"
| "run_with_restarts ops display (inp # inps) s =
     run_with_restarts ops display inps (schedule_tick ops display inp (restart s))"

lemma stopped_stays: "\<not> sc_running s \<Longrightarrow> run_ticks ops display inps s = s"
  by (induction inps) (simp_all add: schedule_tick_def)

lemma not_own_cron: "rows_of j s = [a] \<Longrightarrow> \<not> is_cron a \<Longrightarrow> same_view j s (tick_cron inp s)"
  unfolding tick_cron_def by (rule cron.no_turn) auto

lemma not_own_connector: "rows_of j s = [a] \<Longrightarrow> \<not> is_connector a \<Longrightarrow> same_view j s (tick_connector_events ops inp s)"
  unfolding tick_connector_events_def by (rule connector.no_turn) auto

lemma tick_before_watches_running:
  "sc_running (tick_connector_events ops inp (tick_cron inp s)) = sc_running s"
  by (simp add: tick_cron_def tick_connector_events_def turns_running cron_turn_running connector_turn_running)

lemma kinds:
  "as_trigger a = Trigger_Cron expr recurring \<Longrightarrow> is_cron a \<and> \<not> is_connector a \<and> \<not> is_watch a"
  "as_trigger a = Trigger_Connector server poll interval \<Longrightarrow> \<not> is_cron a \<and> is_connector a \<and> \<not> is_watch a"
  "as_trigger a = Trigger_Watch instr interval scope \<Longrightarrow> \<not> is_cron a \<and> \<not> is_connector a \<and> is_watch a"
  by (simp_all add: is_cron_def is_connector_def is_watch_def)

lemma tick_cron_row:
  assumes "sc_running s" and "rows_of j s = [a]" and "as_enabled a" and "is_cron a \<and> \<not> is_connector a \<and> \<not> is_watch a"
    and "\<And>s1. same_view j s s1 \<Longrightarrow> rows_of j (cron_turn inp a s1) = [b] \<and> \<not> is_connector b \<and> \<not> is_watch b"
  shows "\<exists>s1. same_view j s s1 \<and> same_view j (cron_turn inp a s1) (schedule_tick ops display inp s)"
proof -
  from cron.own_turn [OF assms(2,3), of is_cron inp] assms(4) obtain s1 where s1: "same_view j s s1" "same_view j (cron_turn inp a s1) (tick_cron inp s)"
    by (auto simp: tick_cron_def)
  from assms(5) [OF s1(1)] s1(2) have b: "rows_of j (tick_cron inp s) = [b]" "\<not> is_connector b" "\<not> is_watch b"
    by (simp_all add: same_view_def)
  have c: "same_view j (tick_cron inp s) (tick_connector_events ops inp (tick_cron inp s))"
    by (rule not_own_connector [OF b(1,2)])
  then have "rows_of j (tick_connector_events ops inp (tick_cron inp s)) = [b]" using b(1) by (simp add: same_view_def)
  from same_view_trans [OF same_view_trans [OF s1(2) c] not_own_watch [OF this b(3)]] s1(1) assms(1)
  show ?thesis by (auto simp: schedule_tick_def)
qed

lemma tick_connector_row:
  assumes "sc_running s" and "rows_of j s = [a]" and "as_enabled a" and "\<not> is_cron a \<and> is_connector a \<and> \<not> is_watch a"
    and "\<And>s1. same_view j s s1 \<Longrightarrow> \<exists>b. rows_of j (connector_turn ops inp a s1) = [b] \<and> \<not> is_watch b"
  shows "\<exists>s1. same_view j s s1 \<and> same_view j (connector_turn ops inp a s1) (schedule_tick ops display inp s)"
proof -
  let ?c = "tick_cron inp s"
  have c: "same_view j s ?c" by (rule not_own_cron) (use assms in auto)
  then have "rows_of j ?c = [a]" using assms(2) by (simp add: same_view_def)
  from connector.own_turn [OF this assms(3), of is_connector ops inp] assms(4) obtain s1 where s1: "same_view j ?c s1" "same_view j (connector_turn ops inp a s1) (tick_connector_events ops inp ?c)"
    by (auto simp: tick_connector_events_def)
  have v: "same_view j s s1" by (rule same_view_trans [OF c s1(1)])
  from assms(5) [OF v] obtain b where b: "rows_of j (connector_turn ops inp a s1) = [b]" "\<not> is_watch b" by blast
  then have "rows_of j (tick_connector_events ops inp ?c) = [b]" using s1(2) by (simp add: same_view_def)
  from same_view_trans [OF s1(2) not_own_watch [OF this b(2)]] v assms(1)
  show ?thesis by (auto simp: schedule_tick_def)
qed

section \<open>A cron assignment whose message is refused\<close>

lemma evaluation_fields [simp]:
  "as_enabled (apply_evaluation now outcome a) = as_enabled a" "as_trigger (apply_evaluation now outcome a) = as_trigger a"
  "as_next_fire_at (apply_evaluation now outcome a) = as_next_fire_at a"
  "as_expires_at (apply_evaluation now outcome a) = as_expires_at a"
  "as_last_event_cursor (apply_evaluation now outcome a) = as_last_event_cursor a"
  by (simp_all add: apply_evaluation_def split: evaluation_outcome.split)

lemma row_id: "rows_of j s = [a] \<Longrightarrow> as_id a = j"
  by (auto simp: rows_of_def filter_eq_Cons_iff)

lemma failed_cron_turn:
  assumes "rows_of j s = [a]" and "\<not> expired (ti_now inp) a" and "due_by (ti_now inp) False a"
    and "ti_fire inp j = Fire_Unsent run e"
  shows "rows_of j (cron_turn inp a s) = [apply_evaluation (ti_now inp) (Evaluated_Quiescent (Q_Fire_Failed e)) a]"
    and "runs_of j (cron_turn inp a s) = runs_of j s @ [(j, run)]" and "sent_of j (cron_turn inp a s) = sent_of j s"
  using assms row_id [OF assms(1)]
  by (simp_all add: cron_turn_def evaluate_cron_assignment_def fire_def store_steps)

lemma failed_cron_tick:
  assumes "sc_running s" and "rows_of j s = [a]" and "as_enabled a" and "as_trigger a = Trigger_Cron expr recurring"
    and "\<not> expired (ti_now inp) a" and "due_by (ti_now inp) False a" and "ti_fire inp j = Fire_Unsent run e"
  shows "rows_of j (schedule_tick ops display inp s) =
      [apply_evaluation (ti_now inp) (Evaluated_Quiescent (Q_Fire_Failed e)) a] \<and>
    runs_of j (schedule_tick ops display inp s) = runs_of j s @ [(j, run)] \<and>
    sent_of j (schedule_tick ops display inp s) = sent_of j s"
proof -
  let ?b = "apply_evaluation (ti_now inp) (Evaluated_Quiescent (Q_Fire_Failed e)) a"
  have r: "rows_of j s1 = [a]" if "same_view j s s1" for s1 :: "('a, 'b) scheduler"
    using that assms(2) by (simp add: same_view_def)
  have k: "is_cron a \<and> \<not> is_connector a \<and> \<not> is_watch a" by (rule kinds(1) [OF assms(4)])
  then have b: "\<not> is_connector ?b" "\<not> is_watch ?b" by (simp_all add: is_connector_def is_watch_def)
  have t: "\<And>s1 :: ('a, 'b) scheduler. same_view j s s1 \<Longrightarrow>
      rows_of j (cron_turn inp a s1) = [?b] \<and> \<not> is_connector ?b \<and> \<not> is_watch ?b"
    using failed_cron_turn(1) [OF r assms(5-7)] b by blast
  from tick_cron_row [OF assms(1-3) k t, of ops display]
  obtain s1 where s1: "same_view j s s1" "same_view j (cron_turn inp a s1) (schedule_tick ops display inp s)" by blast
  from failed_cron_turn [OF r [OF s1(1)] assms(5-7)] s1 show ?thesis by (simp add: same_view_def)
qed

text \<open>C25: A due cron assignment whose fire fails after its run was recorded - the message was refused, for example
  because its agent is gone - stays enabled and due: as long as the scheduler runs, every tick, one a second,
  appends another run of it, and none is sent.\<close>

theorem failed_cron_queues_every_tick:
  assumes "rows_of j s = [a]" and "as_enabled a" and "as_trigger a = Trigger_Cron expr recurring"
    and "as_next_fire_at a = Some t" and "\<forall>inp\<in>set inps. t \<le> ti_now inp \<and> \<not> expired (ti_now inp) a"
    and "\<forall>inp\<in>set inps. \<exists>run e. ti_fire inp j = Fire_Unsent run e"
    and "sc_running (run_ticks ops display inps s)"
  shows "length (runs_of j (run_ticks ops display inps s)) = length (runs_of j s) + length inps \<and>
    sent_of j (run_ticks ops display inps s) = sent_of j s \<and>
    (\<exists>b. rows_of j (run_ticks ops display inps s) = [b] \<and> as_enabled b \<and> as_next_fire_at b = Some t)"
  using assms
proof (induction inps arbitrary: a s)
  case Nil
  then show ?case by simp
next
  case (Cons inp inps)
  from Cons.prems(6) obtain run e where f: "ti_fire inp j = Fire_Unsent run e" by auto
  have running: "sc_running s"
    using Cons.prems(7) stopped_stays [of s ops display "inp # inps"] by metis
  have due: "\<not> expired (ti_now inp) a" "due_by (ti_now inp) False a"
    using Cons.prems(4,5) by (simp_all add: due_by_def)
  note step = failed_cron_tick [OF running Cons.prems(1-3) due f, of ops display]
  let ?b = "apply_evaluation (ti_now inp) (Evaluated_Quiescent (Q_Fire_Failed e)) a"
  have x: "expired now ?b = expired now a" for now by (simp add: expired_def)
  show ?case
    using Cons.IH [of "schedule_tick ops display inp s" ?b] step Cons.prems x by simp
qed

section \<open>A connector whose fire fails\<close>

lemma polled_fields [simp]:
  "as_trigger (polled now cursor fired interval a) = as_trigger a"
  "as_enabled (polled now cursor fired interval a) = as_enabled a"
  "as_expires_at (polled now cursor fired interval a) = as_expires_at a"
  "as_last_event_cursor (polled now cursor fired interval a) =
     (case cursor of Some c \<Rightarrow> Some c | None \<Rightarrow> as_last_event_cursor a)"
  by (simp_all add: polled_def Let_def split: option.split)

definition observed_cursor :: "('n, 'f) watch_ops \<Rightarrow> ('n, 'f) tick_input \<Rightarrow> utext \<Rightarrow> connector_poll_spec \<Rightarrow> utext option" where
  "observed_cursor ops inp j poll =
     (case ti_poll inp j of Inl _ \<Rightarrow> None | Inr v \<Rightarrow> Option.bind (cp_cursor_path poll) (extract_cursor ops v))"

text \<open>The connector is polled in this tick.\<close>

definition polls_connector :: "('n, 'f) tick_input \<Rightarrow> assignment \<Rightarrow> utext \<Rightarrow> bool" where
  "polls_connector inp a server \<longleftrightarrow> \<not> expired (ti_now inp) a \<and> due_by (ti_now inp) True a \<and>
     (\<exists>st. ti_server inp server = Some (st, True)) \<and> ti_handle inp server"

definition fire_fails :: "fire_outcome \<Rightarrow> bool" where
  "fire_fails f \<longleftrightarrow> (case f of Fire_Sent _ \<Rightarrow> False | _ \<Rightarrow> True)"

lemma failing_fire:
  assumes "fire_fails (ti_fire inp j)"
  obtains e s1 where "fire inp False j s = (Inl e, s1)" "rows_of j s1 = rows_of j s" "sent_of j s1 = sent_of j s"
  using assms by (cases "ti_fire inp j") (auto simp: fire_fails_def fire_def)

lemma lost_change_turn:
  assumes "rows_of j s = [a]" and "as_trigger a = Trigger_Connector server poll interval"
    and "polls_connector inp a server" and "observed_cursor ops inp j poll = Some cursor"
    and "as_last_event_cursor a = Some prev" and "prev \<noteq> cursor" and "fire_fails (ti_fire inp j)"
  shows "\<exists>b. rows_of j (connector_turn ops inp a s) = [b] \<and> as_trigger b = as_trigger a \<and> as_enabled b = as_enabled a \<and>
      as_last_event_cursor b = Some cursor"
    and "sent_of j (connector_turn ops inp a s) = sent_of j s"
proof -
  from failing_fire [OF assms(7)] obtain e s1 where f: "fire inp False j s = (Inl e, s1)"
    "rows_of j s1 = rows_of j s" "sent_of j s1 = sent_of j s" by blast
  from assms(4) obtain v where v: "ti_poll inp j = Inr v" "Option.bind (cp_cursor_path poll) (extract_cursor ops v) = Some cursor"
    by (auto simp: observed_cursor_def split: sum.splits)
  note run = connector_turn_def evaluate_connector_event_assignment_def interpret_connector_poll_result_def
    note_connector_def on_store_comp store_steps
  from f v assms row_id [OF assms(1)]
  show "\<exists>b. rows_of j (connector_turn ops inp a s) = [b] \<and> as_trigger b = as_trigger a \<and> as_enabled b = as_enabled a \<and>
      as_last_event_cursor b = Some cursor" "sent_of j (connector_turn ops inp a s) = sent_of j s"
    by (auto simp: run polls_connector_def)
qed

lemma quiet_connector_turn:
  assumes "rows_of j s = [a]" and "as_trigger a = Trigger_Connector server poll interval"
    and "as_last_event_cursor a = Some cursor" and "observed_cursor ops inp j poll \<in> {None, Some cursor}"
  shows "\<exists>b. rows_of j (connector_turn ops inp a s) = [b] \<and> as_trigger b = as_trigger a \<and>
      as_last_event_cursor b = Some cursor"
    and "sent_of j (connector_turn ops inp a s) = sent_of j s" and "runs_of j (connector_turn ops inp a s) = runs_of j s"
  using assms row_id [OF assms(1)]
  by (auto simp: connector_turn_def evaluate_connector_event_assignment_def interpret_connector_poll_result_def
      note_connector_def on_store_comp store_steps observed_cursor_def split: option.splits sum.splits)

lemma quiet_connector_tick:
  assumes "sc_running s" and "rows_of j s = [a]" and "as_trigger a = Trigger_Connector server poll interval"
    and "as_last_event_cursor a = Some cursor" and "observed_cursor ops inp j poll \<in> {None, Some cursor}"
  shows "(\<exists>b. rows_of j (schedule_tick ops display inp s) = [b] \<and> as_trigger b = as_trigger a \<and>
      as_last_event_cursor b = Some cursor) \<and>
    sent_of j (schedule_tick ops display inp s) = sent_of j s \<and> runs_of j (schedule_tick ops display inp s) = runs_of j s"
proof (cases "as_enabled a")
  case True
  have k: "\<not> is_cron a \<and> is_connector a \<and> \<not> is_watch a" by (rule kinds(2) [OF assms(3)])
  have r: "rows_of j s1 = [a]" if "same_view j s s1" for s1 :: "('a, 'b) scheduler"
    using that assms(2) by (simp add: same_view_def)
  note turn = quiet_connector_turn [OF r assms(3-5)]
  have "\<exists>b. rows_of j (connector_turn ops inp a s1) = [b] \<and> \<not> is_watch b" if "same_view j s s1" for s1
    using turn(1) [OF that] k by (auto simp: is_watch_def)
  from tick_connector_row [OF assms(1,2) True k this, of display]
  obtain s1 where s1: "same_view j s s1" "same_view j (connector_turn ops inp a s1) (schedule_tick ops display inp s)" by blast
  from turn [OF s1(1)] s1 show ?thesis by (simp add: same_view_def)
next
  case False
  have w: "same_view j s s'" if "same_view j s s0" "\<And>s. rows_of j s = [a] \<Longrightarrow> same_view j s (f s)" "s' = f s0" for s0 s' f
    using that assms(2) by (auto simp: same_view_def)
  have "same_view j s (schedule_tick ops display inp s)"
  proof -
    have 1: "same_view j s (tick_cron inp s)" if "rows_of j s = [a]" for s :: "('a, 'b) scheduler"
      unfolding tick_cron_def by (rule cron.no_turn [OF that]) (use False in simp)
    have 2: "same_view j s (tick_connector_events ops inp s)" if "rows_of j s = [a]" for s
      unfolding tick_connector_events_def by (rule connector.no_turn [OF that]) (use False in simp)
    have 3: "same_view j s (tick_agent_watches ops display inp s)" if "rows_of j s = [a]" for s
      using own_among [OF that, of is_watch] False unfolding tick_agent_watches_def
      by (intro watch_loop_view) (auto simp: filter_empty_conv)
    show ?thesis
      using w [OF w [OF 1 [OF assms(2)] 2 refl] 3 refl] assms(1) by (simp add: schedule_tick_def)
  qed
  with assms(2-4) show ?thesis by (simp add: same_view_def)
qed

lemma quiet_connector_ticks:
  assumes "rows_of j s = [a]" and "as_trigger a = Trigger_Connector server poll interval"
    and "as_last_event_cursor a = Some cursor" and "\<forall>inp\<in>set inps. observed_cursor ops inp j poll \<in> {None, Some cursor}"
  shows "sent_of j (run_ticks ops display inps s) = sent_of j s \<and> runs_of j (run_ticks ops display inps s) = runs_of j s"
  using assms
proof (induction inps arbitrary: a s)
  case Nil
  then show ?case by simp
next
  case (Cons inp inps)
  show ?case
  proof (cases "sc_running s")
    case True
    with quiet_connector_tick [OF True Cons.prems(1-3), of ops inp display] Cons.prems
    obtain b where b: "rows_of j (schedule_tick ops display inp s) = [b]" "as_trigger b = as_trigger a"
      "as_last_event_cursor b = Some cursor" and q: "sent_of j (schedule_tick ops display inp s) = sent_of j s"
      "runs_of j (schedule_tick ops display inp s) = runs_of j s" by auto
    from Cons.IH [OF b(1) _ b(3)] b(2) Cons.prems(2,4) q show ?thesis by simp
  next
    case False
    then show ?thesis by (simp only: stopped_stays simp_thms)
  qed
qed

text \<open>C36: When a connector's cursor has moved and the fire fails, the poll stores the new cursor all the same: the
  assignment is not fired for this change in any later tick, until the source moves to yet another cursor.\<close>

theorem connector_change_lost:
  assumes "sc_running s" and "rows_of j s = [a]" and "as_enabled a"
    and "as_trigger a = Trigger_Connector server poll interval" and "polls_connector inp a server"
    and "observed_cursor ops inp j poll = Some cursor" and "as_last_event_cursor a = Some prev" and "prev \<noteq> cursor"
    and "fire_fails (ti_fire inp j)"
    and "\<forall>later\<in>set inps. observed_cursor ops later j poll \<in> {None, Some cursor}"
  shows "sent_of j (run_ticks ops display (inp # inps) s) = sent_of j s \<and>
    runs_of j (run_ticks ops display (inp # inps) s) = runs_of j (schedule_tick ops display inp s)"
proof -
  have k: "\<not> is_cron a \<and> is_connector a \<and> \<not> is_watch a" by (rule kinds(2) [OF assms(4)])
  have r: "rows_of j s1 = [a]" if "same_view j s s1" for s1 :: "('a, 'b) scheduler"
    using that assms(2) by (simp add: same_view_def)
  note turn = lost_change_turn [OF r assms(4-9)]
  have "\<exists>b. rows_of j (connector_turn ops inp a s1) = [b] \<and> \<not> is_watch b" if "same_view j s s1" for s1
    using turn(1) [OF that] k by (auto simp: is_watch_def)
  from tick_connector_row [OF assms(1-3) k this, of display]
  obtain s1 where s1: "same_view j s s1" "same_view j (connector_turn ops inp a s1) (schedule_tick ops display inp s)" by blast
  from turn [OF s1(1)] s1 obtain b where b: "rows_of j (schedule_tick ops display inp s) = [b]"
    "as_trigger b = as_trigger a" "as_last_event_cursor b = Some cursor"
    "sent_of j (schedule_tick ops display inp s) = sent_of j s" by (auto simp: same_view_def)
  from quiet_connector_ticks [OF b(1) _ b(3) assms(10), of server interval display] b(2,4) assms(4) show ?thesis by simp
qed

section \<open>A stuck delivery\<close>

text \<open>A pending delivery that is overdue, behind it another pending one.\<close>

definition stuck_delivery :: "watch_env \<Rightarrow> ('n, 'f) scratchpad \<Rightarrow> bool" where
  "stuck_delivery env pad \<longleftrightarrow> sd_status (last (sp_seen_deliveries pad)) = Delivery_Pending \<and>
     (\<exists>k < length (sp_seen_deliveries pad) - 1. sd_status (sp_seen_deliveries pad ! k) = Delivery_Pending \<and>
        overdue env (sp_seen_deliveries pad ! k))"

definition polls_watch :: "('n, 'f) tick_input \<Rightarrow> assignment \<Rightarrow> bool" where
  "polls_watch inp a \<longleftrightarrow> \<not> expired (ti_now inp) a \<and> due_by (ti_now inp) True a \<and>
     en_load (po_env (ti_watch inp (as_id a))) \<and> sl_found (po_selection (ti_watch inp (as_id a))) \<noteq> None"

definition holds_watch :: "utext \<Rightarrow> assignment \<Rightarrow> ('n, 'f) scratchpad \<Rightarrow> ('n, 'f) scheduler \<Rightarrow> bool" where
  "holds_watch j a pad s \<longleftrightarrow> rows_of j s = [a] \<and> ww_contract (sc_watches s j) \<noteq> None \<and>
     ww_saved (sc_watches s j) = Some pad"

lemma holds_watch_view: "same_view j s s' \<Longrightarrow> holds_watch j a pad s' = holds_watch j a pad s"
  by (simp add: holds_watch_def same_view_def)

lemma stuck_poll:
  assumes "ww_contract w = Some c" and "ww_saved w = Some pad" and "en_load (po_env inp)"
    and "sl_found (po_selection inp) \<noteq> None" and "stuck_delivery (po_env inp) pad"
  shows "\<exists>w'. run_agent_watch_tick ops display aid instr scope inp w = (None, w') \<and> ww_contract w' = Some c \<and>
    ww_saved w' = Some pad"
proof -
  let ?pad = "put_plan_state (sl_plan (po_selection inp)) pad"
  have "snd (reconcile_pending_deliveries (po_env inp) ?pad) = None"
    using assms(5) by (auto simp: stuck_delivery_def put_plan_state_def intro: reconcile_panics)
  then obtain evs where "reconcile_pending_deliveries (po_env inp) ?pad = (evs, None)"
    by (cases "reconcile_pending_deliveries (po_env inp) ?pad") simp
  with assms(1-4) show ?thesis
    by (auto simp: run_agent_watch_tick_def poll_bound_watch_def loaded_pad_def run_contract_bound_tick_def Let_def
        emit_health_events_def)
qed

lemma stuck_turn:
  assumes "holds_watch j a pad s" and "as_trigger a = Trigger_Watch instr interval scope" and "polls_watch inp a"
    and "stuck_delivery (po_env (ti_watch inp j)) pad"
  shows "\<not> sc_running (watch_turn ops display inp a s) \<and> holds_watch j a pad (watch_turn ops display inp a s)"
proof -
  have j: "as_id a = j" using assms(1) row_id by (auto simp: holds_watch_def)
  from assms(1) obtain c where "ww_contract (sc_watches s j) = Some c" "ww_saved (sc_watches s j) = Some pad"
    by (auto simp: holds_watch_def)
  from stuck_poll [OF this _ _ assms(4), of ops display j instr scope] assms(3) j obtain w' where
    "run_agent_watch_tick ops display j instr scope (ti_watch inp j) (sc_watches s j) = (None, w')"
    "ww_contract w' = Some c" "ww_saved w' = Some pad" by (auto simp: polls_watch_def)
  with assms j show ?thesis
    by (simp add: watch_turn_def evaluate_agent_watch_assignment_def polls_watch_def holds_watch_def)
qed

lemma stuck_tick:
  assumes "sc_running s" and "holds_watch j a pad s" and "as_enabled a"
    and "as_trigger a = Trigger_Watch instr interval scope" and "polls_watch inp a"
    and "stuck_delivery (po_env (ti_watch inp j)) pad"
  shows "\<not> sc_running (schedule_tick ops display inp s) \<and> holds_watch j a pad (schedule_tick ops display inp s)"
proof -
  have k: "\<not> is_cron a \<and> \<not> is_connector a \<and> is_watch a" by (rule kinds(3) [OF assms(4)])
  let ?s = "tick_connector_events ops inp (tick_cron inp s)"
  have c: "same_view j s (tick_cron inp s)" by (rule not_own_cron) (use assms(2) k in \<open>auto simp: holds_watch_def\<close>)
  have "same_view j (tick_cron inp s) ?s"
    by (rule not_own_connector) (use assms(2) k c in \<open>auto simp: holds_watch_def same_view_def\<close>)
  from holds_watch_view [OF same_view_trans [OF c this]] have h: "holds_watch j a pad ?s" using assms(2) by blast
  then have "filter (\<lambda>b. as_id b = j) (list_all_enabled is_watch (sc_store ?s)) = [a]"
    using own_among [of j ?s a is_watch] assms(3) k by (simp add: holds_watch_def)
  then obtain ys zs where l: "list_all_enabled is_watch (sc_store ?s) = ys @ a # zs" "\<forall>b\<in>set ys. as_id b \<noteq> j"
    by (rule split_at_own)
  let ?s1 = "watch_loop ops display inp ys ?s"
  have h1: "holds_watch j a pad ?s1" using holds_watch_view [OF watch_loop_view [OF l(2)]] h by blast
  note stop = stuck_turn [OF h1 assms(4-6), of ops display]
  have "schedule_tick ops display inp s = (if ys = [] \<or> sc_running ?s1 then watch_turn ops display inp a ?s1 else ?s1)"
    using stop assms(1) by (simp add: schedule_tick_def tick_agent_watches_def l(1) watch_loop_append Let_def)
  with stop h1 show ?thesis by auto
qed


end
