(* ===== verification/Schedule_Samples.thy ===== *)
theory Schedule_Samples
  imports Schedule_Properties
begin

text \<open>A concrete schedule, on which the properties of the schedule runner are applied.\<close>

definition sample_row :: "assignment_trigger \<Rightarrow> assignment" where
  "sample_row trigger =
     \<lparr>as_id = [9], as_trigger = trigger, as_enabled = True, as_expires_at = None, as_next_fire_at = Some 0,
      as_last_run_at = None, as_last_event_cursor = Some [1], as_last_evaluated_at = None, as_fire_count = 0,
      as_last_quiescence = None\<rparr>"

definition sample_scheduler :: "assignment_trigger \<Rightarrow> (nat, nat) watch_world \<Rightarrow> (nat, nat) scheduler" where
  "sample_scheduler trigger w =
     \<lparr>sc_running = True, sc_store = [sample_row trigger], sc_watches = (\<lambda>_. w), sc_runs = [], sc_sent = []\<rparr>"

definition sample_tick_input :: "int \<Rightarrow> fire_outcome \<Rightarrow> utext \<Rightarrow> (nat, nat) tick_input" where
  "sample_tick_input now outcome cursor =
     \<lparr>ti_now = now, ti_next_fire = (\<lambda>_. None), ti_fire = (\<lambda>_. outcome), ti_server = (\<lambda>_. Some ([], True)),
      ti_handle = (\<lambda>_. True), ti_poll = (\<lambda>_. Inr (J_String cursor)), ti_watch = (\<lambda>_. sample_poll 1)\<rparr>"

lemma sample_rows: "rows_of [9] (sample_scheduler trigger w) = [sample_row trigger]"
  by (simp add: rows_of_def sample_scheduler_def sample_row_def)

lemma sample_due: "0 \<le> now \<Longrightarrow> \<not> expired now (sample_row trigger) \<and> due_by now b (sample_row trigger)"
  by (simp add: expired_def due_by_def sample_row_def)

lemma sample_fields [simp]:
  "as_enabled (sample_row trigger)" "as_trigger (sample_row trigger) = trigger"
  "as_next_fire_at (sample_row trigger) = Some 0" "as_last_event_cursor (sample_row trigger) = Some [1]"
  "as_id (sample_row trigger) = [9]"
  "ti_now (sample_tick_input now outcome cursor) = now" "ti_fire (sample_tick_input now outcome cursor) j = outcome"
  "ti_server (sample_tick_input now outcome cursor) j = Some ([], True)"
  "ti_handle (sample_tick_input now outcome cursor) j" "ti_watch (sample_tick_input now outcome cursor) j = sample_poll 1"
  "sc_running (sample_scheduler trigger w)" "sc_watches (sample_scheduler trigger w) j = w"
  "runs_of j (sample_scheduler trigger w) = []" "sent_of j (sample_scheduler trigger w) = []"
  by (simp_all add: sample_row_def sample_tick_input_def sample_scheduler_def runs_of_def sent_of_def)

abbreviation refused_tick :: "int \<Rightarrow> (nat, nat) tick_input" where
  "refused_tick now \<equiv> sample_tick_input now (Fire_Unsent [5] []) []"

abbreviation cron_trigger :: assignment_trigger where
  "cron_trigger \<equiv> Trigger_Cron [] True"

lemma refused_runs: "sc_running (run_ticks sample_watch_ops (\<lambda>_. []) [refused_tick 1, refused_tick 2]
    (sample_scheduler cron_trigger (sample_watch_world New_Only)))"
  by (simp add: schedule_tick_def tick_cron_def tick_connector_events_def tick_agent_watches_def list_all_enabled_def
      sample_scheduler_def sample_row_def is_cron_def is_connector_def is_watch_def cron_turn_def
      evaluate_cron_assignment_def expired_def due_by_def fire_def sample_tick_input_def on_store_def mark_evaluated_def
      update_assignment_def apply_evaluation_def)

theorem failed_cron_queues_every_tick_witness:
  "\<exists>s. length (runs_of [9] s) = 2 \<and> sent_of [9] s = [] \<and> s = run_ticks sample_watch_ops (\<lambda>_. [])
     [refused_tick 1, refused_tick 2] (sample_scheduler cron_trigger (sample_watch_world New_Only))"
proof -
  let ?inps = "[refused_tick 1, refused_tick 2]"
  have due: "\<forall>inp\<in>set ?inps. 0 \<le> ti_now inp \<and> \<not> expired (ti_now inp) (sample_row cron_trigger)"
    using sample_due [of 1 cron_trigger False] sample_due [of 2 cron_trigger False] by simp
  have refused: "\<forall>inp\<in>set ?inps. \<exists>run e. ti_fire inp [9] = Fire_Unsent run e" by simp
  from failed_cron_queues_every_tick [OF sample_rows sample_fields(1,2,3) due refused refused_runs]
  show ?thesis by (intro exI conjI) (simp_all del: run_ticks.simps)
qed

definition sample_connector_poll :: connector_poll_spec where
  "sample_connector_poll = \<lparr>cp_tool_name = [], cp_cursor_path = Some []\<rparr>"

abbreviation connector_trigger :: assignment_trigger where
  "connector_trigger \<equiv> Trigger_Connector [] sample_connector_poll 60"

lemma sample_observed: "observed_cursor sample_watch_ops (sample_tick_input now outcome cursor) j sample_connector_poll = Some cursor"
  by (simp add: observed_cursor_def sample_tick_input_def sample_connector_poll_def extract_cursor_def)

theorem connector_change_lost_witness:
  "sent_of [9] (run_ticks sample_watch_ops (\<lambda>_. [])
     [sample_tick_input 0 (Fire_Refused []) [2], sample_tick_input 60 (Fire_Sent [6]) [2]]
     (sample_scheduler connector_trigger (sample_watch_world New_Only))) = []"
proof -
  have p: "polls_connector (sample_tick_input 0 (Fire_Refused []) [2]) (sample_row connector_trigger) []"
    using sample_due [of 0 connector_trigger True] by (simp add: polls_connector_def)
  have f: "fire_fails (ti_fire (sample_tick_input 0 (Fire_Refused []) [2]) [9])" by (simp add: fire_fails_def)
  have q: "\<forall>later\<in>set [sample_tick_input 60 (Fire_Sent [6]) [2]].
      observed_cursor sample_watch_ops later [9] sample_connector_poll \<in> {None, Some [2]}"
    by (simp add: sample_observed)
  have ne: "[1] \<noteq> ([2] :: utext)" by simp
  from connector_change_lost [OF sample_fields(11) sample_rows sample_fields(1,2) p sample_observed sample_fields(4) ne f q]
  show ?thesis by (simp del: run_ticks.simps)
qed

abbreviation watch_trigger :: assignment_trigger where
  "watch_trigger \<equiv> Trigger_Watch [] 60 None"

definition stuck_entry :: seen_delivery where
  "stuck_entry = (new_entry [] 0 True Delivery_Pending None)\<lparr>sd_pending_poll_count := 3\<rparr>"

definition stuck_pad :: "(nat, nat) scratchpad" where
  "stuck_pad = (sample_pad New_Only)\<lparr>sp_seen_deliveries := [stuck_entry, stuck_entry]\<rparr>"

lemma sample_stuck: "stuck_delivery sample_watch_env stuck_pad"
  by (auto simp: stuck_delivery_def stuck_pad_def stuck_entry_def new_entry_def overdue_def reached_terminal_status_def
      retry_poll_threshold_def sat_inc_def)


end
