(* ===== verification/Bash_Gate.thy ===== *)
theory Bash_Gate
  imports Rust_Text
begin

text \<open>
  When a shell command may run without a prompt: \<open>split_leading_cd\<close> of
  \<open>crates/ao-engine-tools-io/src/bash/execute.rs\<close>, \<open>bash/auto_approve.rs\<close>, and the classifier
  \<open>bash/command_classifier.rs\<close>, whose regular expressions are matched by a parameter (the \<open>regex\<close>
  crate): \<open>re_match ps s\<close> is \<open>RegexSet::new(ps).is_match(s)\<close>.
\<close>

section \<open>A leading change of directory\<close>

definition double_quote :: char where "double_quote = CHR 0x22"
definition single_quote :: char where "single_quote = CHR 0x27"

text \<open>The target of \<open>cd\<close> and what follows it: quoted, or up to the next ASCII white space.\<close>

definition cd_target :: "string \<Rightarrow> (string \<times> string) option" where
  "cd_target s =
     (case s of
        c # inner \<Rightarrow>
          if c = double_quote then split_at_char double_quote inner
          else if c = single_quote then split_at_char single_quote inner
          else Some (takeWhile (\<lambda>c. \<not> is_ascii_whitespace c) s, dropWhile (\<lambda>c. \<not> is_ascii_whitespace c) s)
      | [] \<Rightarrow> Some ([], []))"

definition cd_separator :: "string \<Rightarrow> string option" where
  "cd_separator s =
     (case strip_prefix ''&&'' s of Some r \<Rightarrow> Some r | None \<Rightarrow> strip_prefix '';'' s)"

definition split_leading_cd :: "string \<Rightarrow> string option \<times> string" where
  "split_leading_cd command =
     (case strip_prefix ''cd'' (trim_start command) of
        None \<Rightarrow> (None, command)
      | Some after_cd \<Rightarrow>
          if \<not> (after_cd \<noteq> [] \<and> is_ascii_whitespace (hd after_cd)) then (None, command)
          else case cd_target (trim_start after_cd) of
            None \<Rightarrow> (None, command)
          | Some (path, after_path) \<Rightarrow>
              if path = [] then (None, command)
              else case cd_separator (trim_start after_path) of
                None \<Rightarrow> (None, command)
              | Some after_sep \<Rightarrow>
                  let rest = trim_start after_sep in
                  if rest = [] then (None, command) else (Some path, rest))"

section \<open>The allowlist\<close>

definition safe_commands :: "string list" where
  "safe_commands =
     [''ls'', ''cat'', ''head'', ''tail'', ''grep'', ''rg'', ''stat'', ''file'', ''wc'', ''pwd'', ''echo'',
      ''whoami'', ''id'', ''hostname'', ''date'', ''printenv'', ''tree'', ''df'', ''du'', ''uniq'',
      ''basename'', ''dirname'', ''realpath'', ''which'', ''type'', ''cut'', ''nl'', ''column'', ''comm'',
      ''cksum'', ''md5sum'', ''sha1sum'', ''sha256sum'', ''true'', ''false'']"

definition safe_git_subcommands :: "string list" where
  "safe_git_subcommands =
     [''status'', ''diff'', ''log'', ''show'', ''blame'', ''ls-files'', ''ls-remote'', ''rev-parse'',
      ''describe'']"

definition segment_is_safe :: "string \<Rightarrow> bool" where
  "segment_is_safe seg =
     (case split_ascii_whitespace seg of
        [] \<Rightarrow> False
      | head # tokens \<Rightarrow>
          if CHR ''='' \<in> set head then False
          else if head = ''git''
          then (case tokens of [] \<Rightarrow> False | sub # _ \<Rightarrow> sub \<in> set safe_git_subcommands)
          else head \<in> set safe_commands)"

definition backtick :: char where "backtick = CHR 0x60"
definition line_feed :: char where "line_feed = CHR 0x0A"

definition is_auto_approvable :: "string \<Rightarrow> bool" where
  "is_auto_approvable full_command =
     (let (cd_path, rest) = split_leading_cd full_command in
      if (case cd_path of Some p \<Rightarrow> contains_str ''$('' p \<or> contains_str [backtick] p | None \<Rightarrow> False)
      then False
      else if contains_str ''$('' rest \<or> contains_str [backtick] rest then False
      else if contains_str ''<('' rest \<or> contains_str ''>('' rest then False
      else if contains_str ''>'' rest then False
      else if contains_str '';'' rest then False
      else if contains_str ''&&'' rest \<or> contains_str ''||'' rest then False
      else if contains_str ''&'' rest then False
      else if contains_str [line_feed] rest then False
      else list_all (\<lambda>seg. segment_is_safe (trim seg)) (split_on (CHR ''|'') rest))"

section \<open>The classifier\<close>

datatype classification = ReadOnly | Destructive | NetworkTouching | GitMutating | Unclassified

text \<open>A pattern is written with \<open>~\<close> for the backslash.\<close>

definition pattern :: "string \<Rightarrow> string" where
  "pattern p = map (\<lambda>c. if c = CHR ''~'' then CHR 0x5C else c) p"

definition git_mutating_patterns :: "string list" where
  "git_mutating_patterns = map pattern
     [''~bgit~s+push~b'', ''~bgit~s+reset~s+--hard~b'', ''~bgit~s+rebase~b'', ''~bgit~s+push~s+-f~b'',
      ''~bgit~s+push~s+--force~b'', ''~bgit~s+(push|reset|rebase|checkout)~b.*--force'',
      ''~bgit~s+branch~s+-D~b'']"

definition destructive_patterns :: "string list" where
  "destructive_patterns = map pattern
     [''~brm~s+-[rR]?[fF]~b|~brm~s+-[fF][rR]?~b'', ''>>?~s*/(etc|var|usr|sys|proc)/'', ''~btruncate~b'',
      ''~bshred~b'', ''~bdd~s+if='', ''~bmkfs~b'', ''~b:>~s*/'']"

definition network_patterns :: "string list" where
  "network_patterns = map pattern
     [''~bcurl~b'', ''~bwget~b'', ''~bnc~s'', ''~bnetcat~b'', ''~bssh~s'', ''~bscp~s'', ''~brsync~b'',
      ''~bsftp~s'', ''~bping~s'']"

definition read_only_patterns :: "string list" where
  "read_only_patterns = map pattern
     [''~bls~b'', ''~bcat~b'', ''~bhead~b'', ''~btail~b'', ''~bgrep~b'', ''~brg~b'', ''~bfind~b'',
      ''~bstat~b'', ''~bfile~b'', ''~bwc~b'', ''~bsort~b'', ''~buniq~b'', ''~bawk~b'', ''~bjq~b'',
      ''~byq~b'', ''~bless~b'', ''~bmore~b'', ''~btree~b'', ''~bdu~b'', ''~bdf~b'', ''~benv~b'',
      ''~bprintenv~b'', ''~bdate~b'', ''~becho~b'', ''~bpwd~b'', ''~bwhoami~b'', ''~bid~b'',
      ''~bhostname~b'', ''~bgit~s+status~b'', ''~bgit~s+diff~b'', ''~bgit~s+log~b'', ''~bgit~s+show~b'',
      ''~bgit~s+blame~b'', ''~bgit~s+ls-files~b'', ''~bgit~s+ls-remote~b'', ''~bgit~s+rev-parse~b'',
      ''~bgit~s+describe~b'']"

definition classify :: "(string list \<Rightarrow> string \<Rightarrow> bool) \<Rightarrow> string \<Rightarrow> classification" where
  "classify re_match command =
     (if re_match git_mutating_patterns command then GitMutating
      else if re_match destructive_patterns command then Destructive
      else if re_match network_patterns command then NetworkTouching
      else if re_match read_only_patterns command then ReadOnly
      else Unclassified)"

end
