(* ===== verification/Permissions.thy ===== *)
theory Permissions
  imports Bash_Gate
begin

text \<open>
  The permission decision of a tool call: rule grammar and matching
  (\<open>crates/ao-engine-tools-runner/src/permissions/rule.rs\<close>), settings (\<open>hooks/config.rs\<close>), pre-hooks
  (\<open>hooks/mod.rs\<close>), the denial tracker (\<open>prompt_bridge/mod.rs\<close>), \<open>evaluate_permission\<close>
  (\<open>permissions/mod.rs\<close>), the permission stage of \<open>run_one_invocation\<close> (\<open>query_loop/mod.rs\<close>) and the
  Bash tool's own opinion (\<open>ao-engine-tools-io/src/bash/mod.rs\<close>).

  A JSON value is of a type \<open>'v\<close>; \<open>call_env\<close> holds what the code asks of the crates \<open>serde_json\<close>,
  \<open>globset\<close> and \<open>regex\<close>: a string field of a value, its compact text, the matcher of a glob (none when
  the glob is malformed), and whether one of a list of regular expressions matches.
\<close>

section \<open>Decisions\<close>

record 'v call_env =
  ce_str_field :: "'v \<Rightarrow> string \<Rightarrow> string option"
  ce_render :: "'v \<Rightarrow> string"
  ce_glob :: "string \<Rightarrow> (string \<Rightarrow> bool) option"
  ce_regex :: "string list \<Rightarrow> string \<Rightarrow> bool"

datatype 'v decision =
    Allow | AllowOnce | AllowSession | Deny string | Ask string | Mutate 'v

datatype permission_mode = DefaultMode | PlanMode | BypassPermissions

datatype session_kind = Interactive | Autonomous

datatype 'v hook_outcome =
    HookAllow | HookDeny string | HookAsk string | HookMutate 'v | HookContinue

datatype ask_outcome = AskAllow | AskAllowOnce | AskAllowSession | AskDeny

datatype 'v verdict =
    VAllow | VAllowMutated 'v | VDeny string | VAutoDeny string

section \<open>Rules\<close>

record 'v permission_rule =
  pr_tool_name :: string
  pr_arg_pattern :: "(string \<Rightarrow> bool) option"
  pr_decision :: "'v decision"

datatype rule_parse_error = EmptyRule | EmptyToolName | UnbalancedParens string | InvalidGlob string

definition parse_rule ::
    "'v call_env \<Rightarrow> string \<Rightarrow> 'v decision \<Rightarrow> rule_parse_error + 'v permission_rule" where
  "parse_rule env raw decision =
     (let trimmed = trim raw in
      if trimmed = [] then Inl EmptyRule
      else case split_at_char (CHR ''('') trimmed of
             None \<Rightarrow>
               if CHR '')'' \<in> set trimmed then Inl (UnbalancedParens raw)
               else Inr \<lparr>pr_tool_name = trimmed, pr_arg_pattern = None, pr_decision = decision\<rparr>
           | Some (before, after) \<Rightarrow>
               if last trimmed \<noteq> CHR '')'' then Inl (UnbalancedParens raw)
               else
                 let tool_name = trim before in
                 if tool_name = [] then Inl EmptyToolName
                 else case ce_glob env (butlast after) of
                        None \<Rightarrow> Inl (InvalidGlob raw)
                      | Some matcher \<Rightarrow>
                          Inr \<lparr>pr_tool_name = tool_name, pr_arg_pattern = Some matcher,
                               pr_decision = decision\<rparr>)"

definition canonical_field :: "string \<Rightarrow> string option" where
  "canonical_field tool_name =
     (if tool_name = ''Bash'' then Some ''command''
      else if tool_name = ''Read'' \<or> tool_name = ''Edit'' \<or> tool_name = ''Write'' then Some ''file_path''
      else if tool_name = ''WebFetch'' then Some ''url''
      else if tool_name = ''RunSkill'' then Some ''skill''
      else None)"

definition canonical_arg :: "'v call_env \<Rightarrow> string \<Rightarrow> 'v \<Rightarrow> string" where
  "canonical_arg env tool_name input =
     (case canonical_field tool_name of
        None \<Rightarrow> ce_render env input
      | Some field_name \<Rightarrow>
          (case ce_str_field env input field_name of
             Some s \<Rightarrow> s
           | None \<Rightarrow> ce_render env input))"

definition rule_matches :: "'v call_env \<Rightarrow> 'v permission_rule \<Rightarrow> string \<Rightarrow> 'v \<Rightarrow> bool" where
  "rule_matches env rule tool_name input =
     (if pr_tool_name rule \<noteq> tool_name then False
      else case pr_arg_pattern rule of
             None \<Rightarrow> True
           | Some matcher \<Rightarrow> matcher (canonical_arg env tool_name input))"

section \<open>Settings\<close>

record raw_permission_rule =
  rr_match :: string
  rr_decision :: string

datatype settings_error = SettingsIo string | SettingsParse string | UnknownDecision string string

definition to_decision :: "raw_permission_rule \<Rightarrow> settings_error + 'v decision" where
  "to_decision raw =
     (if rr_decision raw = ''allow'' then Inr Allow
      else if rr_decision raw = ''allow_once'' then Inr AllowOnce
      else if rr_decision raw = ''allow_session'' then Inr AllowSession
      else if rr_decision raw = ''deny'' then Inr (Deny (''denied by rule '' @ quoted (rr_match raw)))
      else if rr_decision raw = ''ask'' then Inr (Ask (''rule '' @ quoted (rr_match raw) @ '' requires confirmation''))
      else Inl (UnknownDecision (rr_match raw) (rr_decision raw)))"

record hook_entry =
  he_match :: string
  he_command :: string
  he_timeout_ms :: "64 word"

record permissions_config =
  pc_concurrent_tool_cap :: "64 word"
  pc_deny_count_threshold :: "32 word"
  pc_rules :: "raw_permission_rule list"

datatype load_policy_override = ForceAlwaysLoad | ForceDeferred

record runner_settings =
  rs_pre_tool_use :: "hook_entry list"
  rs_post_tool_use :: "hook_entry list"
  rs_permissions :: permissions_config
  rs_tool_load_overrides :: "string \<Rightarrow> load_policy_override option"

record raw_settings =
  rw_pre_tool_use :: "hook_entry list"
  rw_post_tool_use :: "hook_entry list"
  rw_concurrent_tool_cap :: "64 word option"
  rw_deny_count_threshold :: "32 word option"
  rw_rules :: "raw_permission_rule list"
  rw_tool_load_overrides :: "string \<Rightarrow> string option"

definition default_concurrent_tool_cap :: "64 word" where "default_concurrent_tool_cap = 10"
definition default_deny_count_threshold :: "32 word" where "default_deny_count_threshold = 3"

definition parse_load_policy_override :: "string \<Rightarrow> load_policy_override option" where
  "parse_load_policy_override s =
     (if s = ''always_load'' then Some ForceAlwaysLoad
      else if s = ''deferred'' then Some ForceDeferred else None)"

text \<open>The eager check of every decision string: the first unknown one fails the load.\<close>

fun check_decisions :: "raw_permission_rule list \<Rightarrow> settings_error option" where
  "check_decisions [] = None"
| "check_decisions (r # rs) =
     (case (to_decision r :: settings_error + unit decision) of
        Inl e \<Rightarrow> Some e
      | Inr _ \<Rightarrow> check_decisions rs)"

definition rules_of :: "raw_settings option \<Rightarrow> raw_permission_rule list" where
  "rules_of f = (case f of None \<Rightarrow> [] | Some r \<Rightarrow> rw_rules r)"

definition override_of :: "raw_settings option \<Rightarrow> string \<Rightarrow> load_policy_override option" where
  "override_of f name =
     Option.bind (Option.bind f (\<lambda>r. rw_tool_load_overrides r name)) parse_load_policy_override"

definition project_or_global :: "'a option \<Rightarrow> 'a option \<Rightarrow> 'a \<Rightarrow> 'a" where
  "project_or_global p g dflt = (case p of Some v \<Rightarrow> v | None \<Rightarrow> (case g of Some v \<Rightarrow> v | None \<Rightarrow> dflt))"

text \<open>\<open>load_runner_settings\<close> on the two files as read: an error, absent, or parsed.\<close>

definition load_runner_settings ::
    "(settings_error + raw_settings option) \<Rightarrow> (settings_error + raw_settings option)
       \<Rightarrow> settings_error + runner_settings" where
  "load_runner_settings project_file global_file =
     (case project_file of
        Inl e \<Rightarrow> Inl e
      | Inr project \<Rightarrow>
          (case global_file of
             Inl e \<Rightarrow> Inl e
           | Inr glob \<Rightarrow>
               (case check_decisions (rules_of project @ rules_of glob) of
                  Some e \<Rightarrow> Inl e
                | None \<Rightarrow>
                    Inr \<lparr>rs_pre_tool_use =
                           (case project of None \<Rightarrow> [] | Some p \<Rightarrow> rw_pre_tool_use p)
                           @ (case glob of None \<Rightarrow> [] | Some g \<Rightarrow> rw_pre_tool_use g),
                         rs_post_tool_use =
                           (case project of None \<Rightarrow> [] | Some p \<Rightarrow> rw_post_tool_use p)
                           @ (case glob of None \<Rightarrow> [] | Some g \<Rightarrow> rw_post_tool_use g),
                         rs_permissions =
                           \<lparr>pc_concurrent_tool_cap =
                              project_or_global (Option.bind project rw_concurrent_tool_cap)
                                (Option.bind glob rw_concurrent_tool_cap) default_concurrent_tool_cap,
                            pc_deny_count_threshold =
                              project_or_global (Option.bind project rw_deny_count_threshold)
                                (Option.bind glob rw_deny_count_threshold) default_deny_count_threshold,
                            pc_rules = rules_of project @ rules_of glob\<rparr>,
                         rs_tool_load_overrides =
                           (\<lambda>name. case override_of project name of
                              Some ov \<Rightarrow> Some ov
                            | None \<Rightarrow> override_of glob name)\<rparr>)))"

section \<open>The denial tracker\<close>

text \<open>The trait object: recording a denial, the counter of an (agent, tool) pair, the session reset.\<close>

record 't tracker =
  tk_record :: "string \<Rightarrow> string \<Rightarrow> 't \<Rightarrow> 't"
  tk_count :: "'t \<Rightarrow> string \<Rightarrow> string \<Rightarrow> 32 word"
  tk_reset :: "string \<Rightarrow> 't \<Rightarrow> 't"

record denial_entry =
  de_count :: "32 word"
  de_session :: string

type_synonym denials = "string \<times> string \<Rightarrow> denial_entry option"

definition record_in_session :: "string \<Rightarrow> string \<Rightarrow> string \<Rightarrow> denials \<Rightarrow> denials" where
  "record_in_session sid agent tool m =
     (let entry = (case m (agent, tool) of
                     Some e \<Rightarrow> e
                   | None \<Rightarrow> \<lparr>de_count = 0, de_session = sid\<rparr>)
      in m((agent, tool) := Some (entry\<lparr>de_count := sat_inc (de_count entry)\<rparr>)))"

definition in_memory_tracker :: "denials tracker" where
  "in_memory_tracker =
     \<lparr>tk_record = (\<lambda>agent tool m. record_in_session [] agent tool m),
      tk_count = (\<lambda>m agent tool. case m (agent, tool) of Some e \<Rightarrow> de_count e | None \<Rightarrow> 0),
      tk_reset = (\<lambda>sid m k. case m k of
                    Some e \<Rightarrow> if de_session e \<noteq> sid then Some e else None
                  | None \<Rightarrow> None)\<rparr>"

definition noop_tracker :: "unit tracker" where
  "noop_tracker =
     \<lparr>tk_record = (\<lambda>_ _ m. m), tk_count = (\<lambda>_ _ _. 0), tk_reset = (\<lambda>_ m. m)\<rparr>"

section \<open>The decision\<close>

record permission_context =
  px_mode :: permission_mode
  px_agent_id :: string
  px_session_id :: string

record 'v ask_request =
  ar_tool_name :: string
  ar_input :: 'v
  ar_reason :: string
  ar_agent_id :: string
  ar_session_id :: string

text \<open>What a decision leaves behind: the tracker's state and the questions put to the operator.\<close>

record ('t, 'v) gate =
  ga_tracker :: 't
  ga_asked :: "('v ask_request \<times> ask_outcome) list"

text \<open>The operator behind the bridge answers knowing the questions before.\<close>

type_synonym 'v bridge = "('v ask_request \<times> ask_outcome) list \<Rightarrow> 'v ask_request \<Rightarrow> ask_outcome"

text \<open>The first rule whose decision and match string parse and that matches.\<close>

fun first_rule ::
    "'v call_env \<Rightarrow> raw_permission_rule list \<Rightarrow> string \<Rightarrow> 'v \<Rightarrow> 'v decision option" where
  "first_rule env [] tool_name input = None"
| "first_rule env (raw # rs) tool_name input =
     (case to_decision raw of
        Inl _ \<Rightarrow> first_rule env rs tool_name input
      | Inr decision \<Rightarrow>
          (case parse_rule env (rr_match raw) decision of
             Inl _ \<Rightarrow> first_rule env rs tool_name input
           | Inr rule \<Rightarrow>
               if rule_matches env rule tool_name input then Some (pr_decision rule)
               else first_rule env rs tool_name input))"

text \<open>A deny rule over a tool's Ask carries the tool's reason, and so its classification tag.\<close>

definition combine_reasons :: "'v decision \<Rightarrow> 'v decision \<Rightarrow> 'v decision" where
  "combine_reasons tool_decision rule_decision =
     (case rule_decision of
        Deny rule_reason \<Rightarrow>
          (case tool_decision of
             Ask tool_reason \<Rightarrow> Deny (tool_reason @ [line_feed] @ rule_reason)
           | _ \<Rightarrow> rule_decision)
      | _ \<Rightarrow> rule_decision)"

definition base_decision ::
    "'v call_env \<Rightarrow> permissions_config \<Rightarrow> string \<Rightarrow> 'v \<Rightarrow> 'v decision \<Rightarrow> 'v decision" where
  "base_decision env settings tool_name input tool_decision =
     (case first_rule env (pc_rules settings) tool_name input of
        Some d \<Rightarrow> combine_reasons tool_decision d
      | None \<Rightarrow> tool_decision)"

fun hook_override :: "'v hook_outcome \<Rightarrow> 'v decision \<Rightarrow> 'v decision" where
  "hook_override HookContinue d = d"
| "hook_override HookAllow d = Allow"
| "hook_override (HookDeny r) d = Deny r"
| "hook_override (HookAsk r) d = Ask r"
| "hook_override (HookMutate v) d = Mutate v"

definition plan_demote :: "permission_mode \<Rightarrow> bool \<Rightarrow> string \<Rightarrow> 'v verdict \<Rightarrow> 'v verdict" where
  "plan_demote mode mutates tool_name v =
     (if mode = PlanMode \<and> mutates
      then (case v of
              VAllow \<Rightarrow> VDeny (''plan mode: tool '' @ quoted tool_name @ '' is not allowed to mutate'')
            | VAllowMutated _ \<Rightarrow> VDeny (''plan mode: tool '' @ quoted tool_name @ '' is not allowed to mutate'')
            | _ \<Rightarrow> v)
      else v)"

definition ask_operator ::
    "'t tracker \<Rightarrow> 'v bridge \<Rightarrow> permission_context \<Rightarrow> string \<Rightarrow> 'v \<Rightarrow> string \<Rightarrow> ('t, 'v) gate
       \<Rightarrow> 'v verdict \<times> ('t, 'v) gate" where
  "ask_operator tk bridge ctx tool_name input reason g =
     (let req = \<lparr>ar_tool_name = tool_name, ar_input = input, ar_reason = reason,
                 ar_agent_id = px_agent_id ctx, ar_session_id = px_session_id ctx\<rparr>;
          outcome = bridge (ga_asked g) req;
          g1 = g\<lparr>ga_asked := ga_asked g @ [(req, outcome)]\<rparr> in
      if outcome = AskDeny
      then (VDeny (''user denied: '' @ reason),
            g1\<lparr>ga_tracker := tk_record tk (px_agent_id ctx) tool_name (ga_tracker g1)\<rparr>)
      else (VAllow, g1))"

text \<open>
  \<open>evaluate_permission\<close>. The two early returns of the autonomous branch and the one at the denial
  threshold leave before the plan-mode rule, as in the code.
\<close>

definition evaluate_permission ::
    "'v call_env \<Rightarrow> 't tracker \<Rightarrow> 'v bridge \<Rightarrow> 'v decision \<Rightarrow> 'v hook_outcome \<Rightarrow> permissions_config
       \<Rightarrow> permission_context \<Rightarrow> string \<Rightarrow> 'v \<Rightarrow> bool \<Rightarrow> session_kind \<Rightarrow> 'v permission_rule list
       \<Rightarrow> ('t, 'v) gate \<Rightarrow> 'v verdict \<times> ('t, 'v) gate" where
  "evaluate_permission env tk bridge tool_decision hook settings ctx tool_name input mutates kind
       auto_approve g =
     (let demote = plan_demote (px_mode ctx) mutates tool_name in
      if px_mode ctx = BypassPermissions then (VAllow, g)
      else case hook_override hook (base_decision env settings tool_name input tool_decision) of
             Allow \<Rightarrow> (demote VAllow, g)
           | AllowOnce \<Rightarrow> (demote VAllow, g)
           | AllowSession \<Rightarrow> (demote VAllow, g)
           | Mutate updated_input \<Rightarrow> (demote (VAllowMutated updated_input), g)
           | Deny reason \<Rightarrow> (demote (VDeny reason), g)
           | Ask reason \<Rightarrow>
               if kind = Autonomous
               then if list_ex (\<lambda>rule. rule_matches env rule tool_name input) auto_approve
                    then (VAllow, g)
                    else (VAutoDeny (''autonomous session: no approver present and no auto-approve rule matched for ''
                                     @ quoted tool_name @ '' '' @ em_dash @ '' '' @ reason), g)
               else if tk_count tk (ga_tracker g) (px_agent_id ctx) tool_name \<ge> pc_deny_count_threshold settings
               then (VDeny (''auto-denied: ('' @ px_agent_id ctx @ '', '' @ tool_name
                            @ '') reached the denial threshold of ''
                            @ decimal (unat (pc_deny_count_threshold settings))), g)
               else case ask_operator tk bridge ctx tool_name input reason g of
                      (v, g') \<Rightarrow> (demote v, g'))"

section \<open>The stage before a tool runs\<close>

record 'v hook_request =
  hr_tool_name :: string
  hr_input :: 'v
  hr_agent_id :: string
  hr_session_id :: string

text \<open>
  \<open>run n e r\<close> is the outcome of hook \<open>e\<close>'s process, started as the \<open>n\<close>-th; \<open>cancelled n\<close> is what the
  token says before it.
\<close>

fun run_pre_hooks ::
    "(nat \<Rightarrow> hook_entry \<Rightarrow> 'v hook_request \<Rightarrow> 'v hook_outcome) \<Rightarrow> (nat \<Rightarrow> bool) \<Rightarrow> nat
       \<Rightarrow> hook_entry list \<Rightarrow> 'v hook_request \<Rightarrow> 'v hook_outcome" where
  "run_pre_hooks run cancelled n [] req = HookContinue"
| "run_pre_hooks run cancelled n (e # es) req =
     (if cancelled n then HookContinue
      else case run n e req of
             HookContinue \<Rightarrow> run_pre_hooks run cancelled (Suc n) es req
           | other \<Rightarrow> other)"

definition hook_match_string :: "'v call_env \<Rightarrow> string \<Rightarrow> string \<Rightarrow> 'v \<Rightarrow> bool" where
  "hook_match_string env rule_str tool_name input =
     (case parse_rule env rule_str Allow of
        Inl _ \<Rightarrow> False
      | Inr r \<Rightarrow> rule_matches env r tool_name input)"

datatype 'v stage_result = Invoke 'v | Refused string bool

definition permission_stage ::
    "'v call_env \<Rightarrow> 't tracker \<Rightarrow> 'v bridge \<Rightarrow> (nat \<Rightarrow> hook_entry \<Rightarrow> 'v hook_request \<Rightarrow> 'v hook_outcome)
       \<Rightarrow> (nat \<Rightarrow> bool) \<Rightarrow> ('v \<Rightarrow> 'v decision) \<Rightarrow> ('v \<Rightarrow> bool) \<Rightarrow> runner_settings \<Rightarrow> permission_context
       \<Rightarrow> session_kind \<Rightarrow> 'v permission_rule list \<Rightarrow> string \<Rightarrow> 'v \<Rightarrow> ('t, 'v) gate
       \<Rightarrow> 'v stage_result \<times> ('t, 'v) gate" where
  "permission_stage env tk bridge run cancelled check_permissions mutates_for_input settings ctx kind
       auto_approve name parsed_input g =
     (let matched_pre = filter (\<lambda>h. hook_match_string env (he_match h) name parsed_input)
                          (rs_pre_tool_use settings);
          pre_outcome = run_pre_hooks run cancelled 0 matched_pre
                          \<lparr>hr_tool_name = name, hr_input = parsed_input, hr_agent_id = px_agent_id ctx,
                           hr_session_id = px_session_id ctx\<rparr> in
      case evaluate_permission env tk bridge (check_permissions parsed_input) pre_outcome
             (rs_permissions settings) ctx name parsed_input (mutates_for_input parsed_input) kind
             auto_approve g of
        (VAllow, g') \<Rightarrow> (Invoke parsed_input, g')
      | (VAllowMutated v, g') \<Rightarrow> (Invoke v, g')
      | (VDeny reason, g') \<Rightarrow> (Refused reason False, g')
      | (VAutoDeny reason, g') \<Rightarrow> (Refused reason True, g'))"

section \<open>The Bash tool's opinion\<close>

fun classification_label :: "classification \<Rightarrow> string" where
  "classification_label ReadOnly = ''ReadOnly''"
| "classification_label Destructive = ''Destructive''"
| "classification_label NetworkTouching = ''NetworkTouching''"
| "classification_label GitMutating = ''GitMutating''"
| "classification_label Unclassified = ''Unclassified''"

definition bash_check_permissions :: "'v call_env \<Rightarrow> 'v \<Rightarrow> 'v decision" where
  "bash_check_permissions env input =
     (let cmd = (case ce_str_field env input ''command'' of Some c \<Rightarrow> c | None \<Rightarrow> []);
          rest = snd (split_leading_cd cmd);
          variant = classify (ce_regex env) rest in
      if variant = ReadOnly \<and> is_auto_approvable cmd then Allow
      else
        let label = classification_label variant in
        case ce_str_field env input ''description'' of
          Some d \<Rightarrow>
            if d \<noteq> []
            then Ask (''[classification: '' @ label @ ''] '' @ d @ '' '' @ em_dash @ '' execute bash: '' @ rest)
            else Ask (''[classification: '' @ label @ ''] execute bash: '' @ rest)
        | None \<Rightarrow> Ask (''[classification: '' @ label @ ''] execute bash: '' @ rest))"

section \<open>What a tool is by default\<close>

text \<open>The provided methods of the traits \<open>IoTool\<close> and \<open>EngineTool\<close>; Write and Edit keep all of them,
  Bash keeps the two about mutation.\<close>

definition default_mutates_filesystem :: bool where
  "default_mutates_filesystem = False"

definition default_mutates_for_input :: "'v \<Rightarrow> bool" where
  "default_mutates_for_input input = default_mutates_filesystem"

definition default_check_permissions :: "'v \<Rightarrow> 'v decision" where
  "default_check_permissions input = Allow"

end
