(* ===== verification/Bash_Safety.thy ===== *)
theory Bash_Safety
  imports Bash_Gate
begin

text \<open>
  What the auto-approval gate lets through: how a leading \<open>cd\<close> is taken off, and what an approved
  command line consists of.
\<close>

section \<open>Splitting\<close>

lemma split_on_join:
  assumes "xs \<noteq> []" and "\<forall>x\<in>set xs. c \<notin> set x"
  shows "split_on c (join_with c xs) = xs"
proof -
  have one: "split_on c x = [x]" if "c \<notin> set x" for x
    using that by (induction x) auto
  have app: "split_on c (x @ c # s) = x # split_on c s" if "c \<notin> set x" for x s
    using that by (induction x) auto
  from assms show ?thesis
  proof (induction xs)
    case Nil
    then show ?case by simp
  next
    case (Cons x xs)
    then show ?case
      by (cases "xs = []") (auto simp: one app join_with_Cons)
  qed
qed

section \<open>The leading change of directory\<close>

text \<open>\<open>q\<close> is the shell word that names the directory \<open>p\<close>.\<close>

definition cd_word :: "string \<Rightarrow> string \<Rightarrow> bool" where
  "cd_word q p \<longleftrightarrow>
     q = double_quote # p @ [double_quote] \<and> double_quote \<notin> set p \<or>
     q = single_quote # p @ [single_quote] \<and> single_quote \<notin> set p \<or>
     q = p \<and> list_all (\<lambda>c. \<not> is_ascii_whitespace c) p \<and>
       (p \<noteq> [] \<longrightarrow> hd p \<noteq> double_quote \<and> hd p \<noteq> single_quote)"

lemma cd_target_word:
  assumes "cd_target s = Some (p, u)"
  shows "\<exists>q. s = q @ u \<and> cd_word q p"
proof (cases s)
  case Nil
  with assms show ?thesis by (auto simp: cd_target_def cd_word_def)
next
  case (Cons c inner)
  consider "c = double_quote" | "c = single_quote" | "c \<noteq> double_quote" "c \<noteq> single_quote" by blast
  then show ?thesis
  proof cases
    case 1
    with Cons assms show ?thesis
      by (intro exI [of _ "double_quote # p @ [double_quote]"])
         (simp add: cd_target_def split_at_char_Some cd_word_def)
  next
    case 2
    with Cons assms have "split_at_char single_quote inner = Some (p, u)"
      by (simp add: cd_target_def single_quote_def double_quote_def)
    with Cons 2 show ?thesis
      by (intro exI [of _ "single_quote # p @ [single_quote]"])
         (simp add: split_at_char_Some cd_word_def)
  next
    case 3
    let ?black = "\<lambda>c. \<not> is_ascii_whitespace c"
    from 3 Cons assms have "p = takeWhile ?black s" "u = dropWhile ?black s"
      by (simp_all add: cd_target_def)
    moreover from this 3 Cons have "p \<noteq> [] \<longrightarrow> hd p \<noteq> double_quote \<and> hd p \<noteq> single_quote"
      by (auto split: if_splits)
    ultimately show ?thesis
      by (intro exI [of _ p]) (auto simp: cd_word_def list_all_iff dest: set_takeWhileD)
  qed
qed

lemma cd_separator_Some:
  "cd_separator s = Some r \<longleftrightarrow> s = ''&&'' @ r \<or> s = '';'' @ r"
  by (auto simp: cd_separator_def split: option.splits)

lemma ascii_white_trimmed: "is_ascii_whitespace c \<Longrightarrow> trim_start (c # s) \<noteq> c # s"
proof -
  assume "is_ascii_whitespace c"
  then have "strip_any unicode_white (c # s) = Some s"
    by (auto simp: is_ascii_whitespace_def unicode_white_def ascii_white_def)
  then show ?thesis
    unfolding trim_start_def by (metis not_None_eq strip_any_trim_by)
qed

text \<open>A command line \<open>[white] cd white word [white] (&&|;) [white] rest\<close>.\<close>

definition leading_cd :: "string \<Rightarrow> string \<Rightarrow> string \<Rightarrow> bool" where
  "leading_cd cmd p rest \<longleftrightarrow>
     (\<exists>w1 w2 q w3 sep w4. cmd = w1 @ ''cd'' @ w2 @ q @ w3 @ sep @ w4 @ rest \<and>
        blank w1 \<and> blank w2 \<and> blank w3 \<and> blank w4 \<and> w2 \<noteq> [] \<and> cd_word q p \<and>
        (sep = ''&&'' \<or> sep = '';''))"

lemma split_leading_cd_SomeD:
  assumes "split_leading_cd cmd = (Some p, rest)"
  shows "leading_cd cmd p rest \<and> p \<noteq> [] \<and> rest \<noteq> [] \<and> trim_start rest = rest"
proof -
  from assms obtain after_cd after_path after_sep where
    cd: "trim_start cmd = ''cd'' @ after_cd" and
    ws: "after_cd \<noteq> []" "is_ascii_whitespace (hd after_cd)" and
    tgt: "cd_target (trim_start after_cd) = Some (p, after_path)" and
    sep: "cd_separator (trim_start after_path) = Some after_sep" and
    rest: "rest = trim_start after_sep" "p \<noteq> []" "rest \<noteq> []"
    by (auto simp: split_leading_cd_def Let_def split: option.splits prod.splits if_splits)
  obtain w1 where w1: "cmd = w1 @ trim_start cmd" "blank w1" using trim_start_split by blast
  obtain w2 where w2: "after_cd = w2 @ trim_start after_cd" "blank w2" using trim_start_split by blast
  obtain w3 where w3: "after_path = w3 @ trim_start after_path" "blank w3" using trim_start_split by blast
  obtain w4 where w4: "after_sep = w4 @ trim_start after_sep" "blank w4" using trim_start_split by blast
  obtain q where q: "trim_start after_cd = q @ after_path" "cd_word q p"
    using cd_target_word [OF tgt] by blast
  obtain s where s: "trim_start after_path = s @ after_sep" "s = ''&&'' \<or> s = '';''"
    using sep by (auto simp: cd_separator_Some)
  have "w2 \<noteq> []"
    using ws w2(1) ascii_white_trimmed by (metis append_Nil list.exhaust_sel)
  moreover have "cmd = w1 @ ''cd'' @ w2 @ q @ w3 @ s @ w4 @ rest"
    using w1(1) w2(1) w3(1) w4(1) cd q(1) s(1) rest(1) by (metis append.assoc)
  moreover have "trim_start rest = rest"
    using rest(1) by (simp add: trim_start_def)
  ultimately show ?thesis
    using w1(2) w2(2) w3(2) w4(2) q(2) s(2) rest(2,3) unfolding leading_cd_def by blast
qed

lemma split_leading_cd_NoneD: "split_leading_cd cmd = (None, rest) \<Longrightarrow> rest = cmd"
  by (auto simp: split_leading_cd_def Let_def split: option.splits prod.splits if_splits)

text \<open>taking a leading \<open>cd\<close> off a command line is sound. When a target is returned, the command
  is white space, \<open>cd\<close>, white space, a word naming the target, a separator and the rest, which is not
  empty and starts with no white space; otherwise the command comes back as it was.\<close>

theorem split_leading_cd_sound:
  "case split_leading_cd cmd of
     (None, rest) \<Rightarrow> rest = cmd
   | (Some p, rest) \<Rightarrow> leading_cd cmd p rest \<and> p \<noteq> [] \<and> rest \<noteq> [] \<and> trim_start rest = rest"
  using split_leading_cd_SomeD split_leading_cd_NoneD
  by (auto split: prod.split option.split)

section \<open>Approved command lines\<close>

definition safe_words :: "string list \<Rightarrow> bool" where
  "safe_words ws \<longleftrightarrow>
     (case ws of
        [] \<Rightarrow> False
      | [w] \<Rightarrow> w \<in> set safe_commands
      | w # v # _ \<Rightarrow> w \<in> set safe_commands \<or> w = ''git'' \<and> v \<in> set safe_git_subcommands)"

definition hazard :: "char \<Rightarrow> bool" where
  "hazard c \<longleftrightarrow> c \<in> {backtick, CHR ''>'', CHR '';'', CHR ''&'', line_feed}"

text \<open>A pipeline of allowlisted commands without substitution, redirection, sequencing.\<close>

definition safe_pipeline :: "string \<Rightarrow> bool" where
  "safe_pipeline line \<longleftrightarrow>
     (\<forall>c\<in>set line. \<not> hazard c) \<and> \<not> sublist ''$('' line \<and> \<not> sublist ''<('' line \<and>
     (\<exists>segs. segs \<noteq> [] \<and> line = join_with (CHR ''|'') segs \<and>
        (\<forall>s\<in>set segs. CHR ''|'' \<notin> set s \<and> safe_words (split_ascii_whitespace (trim s))))"

lemma safe_commands_plain: "w \<in> set safe_commands \<Longrightarrow> CHR ''='' \<notin> set w \<and> w \<noteq> ''git''"
  by (auto simp: safe_commands_def)

lemma segment_is_safe_words: "segment_is_safe s = safe_words (split_ascii_whitespace s)"
  using safe_commands_plain
  by (auto simp: segment_is_safe_def safe_words_def split: list.split)

lemma sublist_set: "sublist xs ys \<Longrightarrow> set xs \<subseteq> set ys"
  by (auto simp: sublist_def)

lemma split_on_double:
  assumes "sublist [c, c] s"
  shows "[] \<in> set (split_on c s)"
proof -
  obtain a b where s: "s = a @ c # c # b" using assms by (auto simp: sublist_def)
  have "[] \<in> set (tl (split_on c (a @ c # c # b)))"
    by (induction a) (auto split: list.split dest: list.set_sel(2) [OF split_on_nonempty])
  then show ?thesis
    unfolding s by (meson list.set_sel(2) split_on_nonempty)
qed

lemma empty_segment_unsafe: "\<not> safe_words (split_ascii_whitespace (trim []))"
proof -
  have "trim_by ws [] = []" for ws :: "string list"
    using blank_by_Nil [of ws] by (simp add: blank_by_def)
  then show ?thesis
    by (simp add: trim_def trim_end_def trim_start_def split_ascii_whitespace_def safe_words_def)
qed

lemma safe_pipeline_split:
  "safe_pipeline line \<longleftrightarrow>
     (\<forall>c\<in>set line. \<not> hazard c) \<and> \<not> sublist ''$('' line \<and> \<not> sublist ''<('' line \<and>
     list_all (\<lambda>s. segment_is_safe (trim s)) (split_on (CHR ''|'') line)"
proof -
  have "(\<exists>segs. segs \<noteq> [] \<and> line = join_with (CHR ''|'') segs \<and>
        (\<forall>s\<in>set segs. CHR ''|'' \<notin> set s \<and> safe_words (split_ascii_whitespace (trim s)))) \<longleftrightarrow>
     list_all (\<lambda>s. segment_is_safe (trim s)) (split_on (CHR ''|'') line)" (is "?l = ?r")
  proof
    assume ?l
    then show ?r by (auto simp: split_on_join segment_is_safe_words list_all_iff)
  next
    assume ?r
    then show ?l
      using join_split_on [of "CHR ''|''" line] split_on_pieces [of _ "CHR ''|''" line]
      by (intro exI [of _ "split_on (CHR ''|'') line"]) (auto simp: segment_is_safe_words list_all_iff)
  qed
  then show ?thesis by (simp add: safe_pipeline_def)
qed

text \<open>What is approved: a command whose remainder after a leading \<open>cd\<close> is a safe pipeline, and whose
  \<open>cd\<close> target has no command substitution.\<close>

lemma auto_approved_iff:
  "is_auto_approvable cmd \<longleftrightarrow>
     (case split_leading_cd cmd of (target, rest) \<Rightarrow>
        safe_pipeline rest \<and>
        (\<forall>p. target = Some p \<longrightarrow> \<not> sublist ''$('' p \<and> backtick \<notin> set p))"
proof -
  have two: "contains_str ''||'' rest \<Longrightarrow> \<not> list_all (\<lambda>s. segment_is_safe (trim s)) (split_on (CHR ''|'') rest)"
    for rest
    using split_on_double [of "CHR ''|''" rest] empty_segment_unsafe
    by (auto simp: contains_str_def list_all_iff segment_is_safe_words)
  have amp: "contains_str ''&&'' rest \<Longrightarrow> CHR ''&'' \<in> set rest"
    and gt: "contains_str ''>('' rest \<Longrightarrow> CHR ''>'' \<in> set rest" for rest
    using sublist_set by (fastforce simp: contains_str_def)+
  obtain target rest where split: "split_leading_cd cmd = (target, rest)" by force
  have "is_auto_approvable cmd \<longleftrightarrow>
      (\<forall>p. target = Some p \<longrightarrow> \<not> contains_str ''$('' p \<and> backtick \<notin> set p) \<and>
      \<not> contains_str ''$('' rest \<and> backtick \<notin> set rest \<and> \<not> contains_str ''<('' rest \<and>
      CHR ''>'' \<notin> set rest \<and> CHR '';'' \<notin> set rest \<and> CHR ''&'' \<notin> set rest \<and> line_feed \<notin> set rest \<and>
      list_all (\<lambda>s. segment_is_safe (trim s)) (split_on (CHR ''|'') rest)"
    unfolding is_auto_approvable_def split Let_def prod.case contains_str_single
    using two [of rest] amp [of rest] gt [of rest] by (cases target) auto
  then show ?thesis
    unfolding split prod.case safe_pipeline_split hazard_def contains_str_def by blast
qed

section \<open>The target of the leading cd\<close>

lemma visible_ascii: "visible (CHR ''c'')" "visible (CHR ''/'')" "visible (CHR ''&'')"
  by (simp_all add: visible_def unicode_white_def ascii_white_def wide_white_def)

lemma split_cd_absolute:
  assumes "list_all (\<lambda>c. \<not> is_ascii_whitespace c) q" and "rest \<noteq> []" and "visible (hd rest)"
  shows "split_leading_cd (''cd /'' @ q @ '' && '' @ rest) = (Some (CHR ''/'' # q), rest)"
proof -
  let ?black = "\<lambda>c. \<not> is_ascii_whitespace c"
  have "?black (CHR ''/'')" and sp: "is_ascii_whitespace (CHR '' '')"
    by (simp_all add: is_ascii_whitespace_def)
  moreover have "takeWhile ?black (q @ CHR '' '' # s) = q" "dropWhile ?black (q @ CHR '' '' # s) = CHR '' '' # s" for s
    using assms(1) sp by (simp_all add: takeWhile_append2 dropWhile_append2 list_all_iff)
  ultimately have "cd_target (CHR ''/'' # q @ '' && '' @ rest) = Some (CHR ''/'' # q, '' && '' @ rest)"
    by (simp add: cd_target_def double_quote_def single_quote_def)
  moreover have "trim_start rest = rest"
    using assms(2,3) by (metis list.exhaust_sel trim_start_visible)
  ultimately show ?thesis
    using assms(2) sp by (simp add: split_leading_cd_def cd_separator_def Let_def visible_ascii)
qed

text \<open>the gate looks only for command substitution in the target of a leading \<open>cd\<close>. Any approvable
  command stays approvable behind \<open>cd /q &&\<close>, whatever else the unquoted \<open>q\<close> contains - a
  semicolon, a pipe or a redirection that the shell obeys when it runs the whole line.\<close>

theorem cd_target_not_checked:
  assumes "is_auto_approvable rest" and "split_leading_cd rest = (None, rest)"
    and "rest \<noteq> []" and "visible (hd rest)"
    and "list_all (\<lambda>c. \<not> is_ascii_whitespace c) q" and "\<not> sublist ''$('' q" and "backtick \<notin> set q"
  shows "is_auto_approvable (''cd /'' @ q @ '' && '' @ rest)"
proof -
  have "\<not> contains_str ''$('' (CHR ''/'' # q)" "\<not> contains_str [backtick] (CHR ''/'' # q)"
    using assms(6,7) unfolding contains_str_single by (simp_all add: contains_str_def sublist_Cons_right backtick_def)
  then show ?thesis
    using assms(1) unfolding is_auto_approvable_def split_cd_absolute [OF assms(5,3,4)] assms(2)
    by (simp add: Let_def split: if_splits)
qed

theorem cd_target_not_checked_witness:
  "is_auto_approvable ''cd /tmp;reboot && ls'' \<and> \<not> is_auto_approvable ''cd /tmp; reboot && ls''"
proof
  have "is_auto_approvable ''ls''" and "split_leading_cd ''ls'' = (None, ''ls'')"
    and "visible (hd ''ls'')" by code_simp+
  then show "is_auto_approvable ''cd /tmp;reboot && ls''"
    using cd_target_not_checked [of "''ls''" "''tmp;reboot''"]
    by (simp add: is_ascii_whitespace_def backtick_def sublist_code)
  show "\<not> is_auto_approvable ''cd /tmp; reboot && ls''" by code_simp
qed

end
