(* ===== verification/Permission_Safety.thy ===== *)
theory Permission_Safety
  imports Permissions Bash_Safety
begin

text \<open>
  What the permission decision guarantees: who can let a call through, that refusals of the operator are
  bounded, which settings file wins, what the rule grammar accepts, and where plan mode and the session
  reset do not do what they promise.
\<close>

section \<open>Concrete surroundings for the witnesses\<close>

text \<open>A value is a command; a glob matches itself; the read-only patterns match everything.\<close>

definition sample_call_env :: "string call_env" where
  "sample_call_env =
     \<lparr>ce_str_field = (\<lambda>v f. if f = ''command'' then Some v else None), ce_render = (\<lambda>v. v),
      ce_glob = (\<lambda>pat. Some (\<lambda>s. s = pat)), ce_regex = (\<lambda>ps _. ps = read_only_patterns)\<rparr>"

definition sample_config :: "raw_permission_rule list \<Rightarrow> permissions_config" where
  "sample_config rules =
     \<lparr>pc_concurrent_tool_cap = 10, pc_deny_count_threshold = 3, pc_rules = rules\<rparr>"

definition sample_settings :: runner_settings where
  "sample_settings =
     \<lparr>rs_pre_tool_use = [], rs_post_tool_use = [], rs_permissions = sample_config [],
      rs_tool_load_overrides = (\<lambda>_. None)\<rparr>"

definition sample_context :: "permission_mode \<Rightarrow> permission_context" where
  "sample_context m = \<lparr>px_mode = m, px_agent_id = ''a'', px_session_id = ''s''\<rparr>"

definition sample_file :: "raw_permission_rule list \<Rightarrow> raw_settings" where
  "sample_file rules =
     \<lparr>rw_pre_tool_use = [], rw_post_tool_use = [], rw_concurrent_tool_cap = None,
      rw_deny_count_threshold = None, rw_rules = rules, rw_tool_load_overrides = (\<lambda>_. None)\<rparr>"

lemmas sample_gate_defs =
  sample_call_env_def sample_config_def sample_settings_def sample_context_def sample_file_def

section \<open>The decision\<close>

definition granted :: "'v verdict \<Rightarrow> bool" where
  "granted v = (case v of VAllow \<Rightarrow> True | VAllowMutated _ \<Rightarrow> True | _ \<Rightarrow> False)"

lemma granted_simps [simp]:
  "granted VAllow" "granted (VAllowMutated x)" "\<not> granted (VDeny r)" "\<not> granted (VAutoDeny r)"
  by (simp_all add: granted_def)

lemma plan_demote_granted [simp]:
  "granted (plan_demote mode mutates t v) \<longleftrightarrow> granted v \<and> \<not> (mode = PlanMode \<and> mutates)"
  by (cases v) (auto simp: plan_demote_def)

lemma plan_demote_off [simp]: "\<not> (mode = PlanMode \<and> mutates) \<Longrightarrow> plan_demote mode mutates t v = v"
  by (auto simp: plan_demote_def)

lemma ask_operator_granted:
  "granted (fst (ask_operator tk bridge ctx t input r g)) \<longleftrightarrow>
     snd (last (ga_asked (snd (ask_operator tk bridge ctx t input r g)))) \<noteq> AskDeny"
  by (simp add: ask_operator_def Let_def)

text \<open>The decision in force after rules and hooks.\<close>

abbreviation effective ::
    "'v call_env \<Rightarrow> permissions_config \<Rightarrow> string \<Rightarrow> 'v \<Rightarrow> 'v hook_outcome \<Rightarrow> 'v decision \<Rightarrow> 'v decision" where
  "effective env settings t input hook d \<equiv> hook_override hook (base_decision env settings t input d)"

text \<open>plan mode refuses every call of a tool that reports it mutates, with one exception: in an
  autonomous session a call whose decision is Ask and that an \<open>auto_approve\<close> rule matches is let
  through, as that branch returns before the plan-mode rule.\<close>

theorem plan_mode_grants:
  assumes "px_mode ctx = PlanMode"
  shows "granted (fst (evaluate_permission env tk bridge d hook settings ctx t input True kind auto g)) \<longleftrightarrow>
     kind = Autonomous \<and> (\<exists>r. effective env settings t input hook d = Ask r) \<and>
     (\<exists>rule\<in>set auto. rule_matches env rule t input)"
  using assms
  by (simp add: evaluate_permission_def Let_def list_ex_iff split: decision.split prod.split)

theorem plan_mode_grants_witness:
  "granted (fst (evaluate_permission sample_call_env noop_tracker (\<lambda>_ _. AskDeny) (Ask ''edit'') HookContinue
     (sample_config []) (sample_context PlanMode) ''Write'' ''f'' True Autonomous
     [\<lparr>pr_tool_name = ''Write'', pr_arg_pattern = None, pr_decision = Allow\<rparr>] \<lparr>ga_tracker = (), ga_asked = []\<rparr>))"
  by (subst plan_mode_grants)
     (simp_all add: sample_gate_defs base_decision_def rule_matches_def)

text \<open>a tool that keeps the default of \<open>mutates_for_input\<close>, as Bash, Write and Edit do, is treated
  in plan mode exactly as in default mode.\<close>

theorem plan_mode_blind_to_file_tools:
  "permission_stage env tk bridge run cancelled check default_mutates_for_input settings
     \<lparr>px_mode = PlanMode, px_agent_id = a, px_session_id = sid\<rparr> kind auto t input g =
   permission_stage env tk bridge run cancelled check default_mutates_for_input settings
     \<lparr>px_mode = DefaultMode, px_agent_id = a, px_session_id = sid\<rparr> kind auto t input g"
  by (simp add: permission_stage_def evaluate_permission_def Let_def default_mutates_for_input_def
      default_mutates_filesystem_def ask_operator_def split: decision.split)

section \<open>Refusals are bounded\<close>

text \<open>One decision as its caller asks for it.\<close>

record 'v call =
  cl_decision :: "'v decision"
  cl_hook :: "'v hook_outcome"
  cl_context :: permission_context
  cl_tool :: string
  cl_input :: 'v
  cl_mutates :: bool
  cl_kind :: session_kind
  cl_auto :: "'v permission_rule list"

definition evaluate_call ::
    "'v call_env \<Rightarrow> 't tracker \<Rightarrow> 'v bridge \<Rightarrow> permissions_config \<Rightarrow> 'v call \<Rightarrow> ('t, 'v) gate
       \<Rightarrow> 'v verdict \<times> ('t, 'v) gate" where
  "evaluate_call env tk bridge settings c g =
     evaluate_permission env tk bridge (cl_decision c) (cl_hook c) settings (cl_context c) (cl_tool c)
       (cl_input c) (cl_mutates c) (cl_kind c) (cl_auto c) g"

text \<open>
  Calls of a batch that may run beside each other are each at a point of their own of
  \<open>evaluate_permission\<close>, which gives up control only while the bridge asks the operator. \<open>until_asked\<close> is the part
  before: a verdict, or the reason to ask for; the tracker is read there. What follows an answer is
  \<open>ask_operator\<close> and plan mode's demotion.
\<close>

definition until_asked ::
    "'v call_env \<Rightarrow> 't tracker \<Rightarrow> permissions_config \<Rightarrow> 'v call \<Rightarrow> 't \<Rightarrow> 'v verdict + string" where
  "until_asked env tk settings c m =
     (let demote = plan_demote (px_mode (cl_context c)) (cl_mutates c) (cl_tool c) in
      if px_mode (cl_context c) = BypassPermissions then Inl VAllow
      else case effective env settings (cl_tool c) (cl_input c) (cl_hook c) (cl_decision c) of
             Allow \<Rightarrow> Inl (demote VAllow)
           | AllowOnce \<Rightarrow> Inl (demote VAllow)
           | AllowSession \<Rightarrow> Inl (demote VAllow)
           | Mutate updated_input \<Rightarrow> Inl (demote (VAllowMutated updated_input))
           | Deny reason \<Rightarrow> Inl (demote (VDeny reason))
           | Ask reason \<Rightarrow>
               if cl_kind c = Autonomous
               then Inl (if list_ex (\<lambda>rule. rule_matches env rule (cl_tool c) (cl_input c)) (cl_auto c) then VAllow
                         else VAutoDeny (''autonomous session: no approver present and no auto-approve rule matched for ''
                                         @ quoted (cl_tool c) @ '' '' @ em_dash @ '' '' @ reason))
               else if tk_count tk m (px_agent_id (cl_context c)) (cl_tool c) \<ge> pc_deny_count_threshold settings
               then Inl (VDeny (''auto-denied: ('' @ px_agent_id (cl_context c) @ '', '' @ cl_tool c
                                @ '') reached the denial threshold of ''
                                @ decimal (unat (pc_deny_count_threshold settings))))
               else Inr reason)"

definition when_answered ::
    "'t tracker \<Rightarrow> 'v bridge \<Rightarrow> 'v call \<Rightarrow> string \<Rightarrow> ('t, 'v) gate \<Rightarrow> 'v verdict \<times> ('t, 'v) gate" where
  "when_answered tk bridge c reason g =
     (case ask_operator tk bridge (cl_context c) (cl_tool c) (cl_input c) reason g of
        (v, g') \<Rightarrow> (plan_demote (px_mode (cl_context c)) (cl_mutates c) (cl_tool c) v, g'))"

lemma evaluate_call_parts:
  "evaluate_call env tk bridge settings c g =
     (case until_asked env tk settings c (ga_tracker g) of
        Inl v \<Rightarrow> (v, g)
      | Inr reason \<Rightarrow> when_answered tk bridge c reason g)"
  by (simp add: evaluate_call_def evaluate_permission_def until_asked_def when_answered_def Let_def
      split: decision.split)

text \<open>The gate with the questions that are before the operator, each with its call.\<close>

record ('t, 'v) desk =
  dk_gate :: "('t, 'v) gate"
  dk_open :: "('v call \<times> string) list"

text \<open>A call comes to the gate; the operator answers an open question; a call is dropped with its question.\<close>

datatype 'v desk_event = Arrives "'v call" | Answers nat ask_outcome | Dropped nat

fun desk_step :: "'v call_env \<Rightarrow> 't tracker \<Rightarrow> permissions_config \<Rightarrow> 'v desk_event \<Rightarrow> ('t, 'v) desk \<Rightarrow> ('t, 'v) desk" where
  "desk_step env tk settings (Arrives c) dk =
     (case until_asked env tk settings c (ga_tracker (dk_gate dk)) of
        Inl v \<Rightarrow> dk
      | Inr reason \<Rightarrow> dk\<lparr>dk_open := dk_open dk @ [(c, reason)]\<rparr>)"
| "desk_step env tk settings (Answers i outcome) dk =
     (if i < length (dk_open dk)
      then case dk_open dk ! i of (c, reason) \<Rightarrow>
             \<lparr>dk_gate = snd (when_answered tk (\<lambda>_ _. outcome) c reason (dk_gate dk)),
              dk_open = take i (dk_open dk) @ drop (Suc i) (dk_open dk)\<rparr>
      else dk)"
| "desk_step env tk settings (Dropped i) dk =
     (if i < length (dk_open dk) then dk\<lparr>dk_open := take i (dk_open dk) @ drop (Suc i) (dk_open dk)\<rparr> else dk)"

fun desk_run ::
    "'v call_env \<Rightarrow> 't tracker \<Rightarrow> permissions_config \<Rightarrow> 'v desk_event list \<Rightarrow> ('t, 'v) desk \<Rightarrow> ('t, 'v) desk" where
  "desk_run env tk settings [] dk = dk"
| "desk_run env tk settings (x # xs) dk = desk_run env tk settings xs (desk_step env tk settings x dk)"

lemma desk_run_append:
  "desk_run env tk settings (xs @ ys) dk = desk_run env tk settings ys (desk_run env tk settings xs dk)"
  by (induction xs arbitrary: dk) simp_all

text \<open>A call that is answered at once is one run of \<open>evaluate_permission\<close>.\<close>

lemma desk_step_evaluate:
  "dk_gate (desk_run env tk settings [Arrives c, Answers (length (dk_open dk)) out] dk) =
     snd (evaluate_call env tk (\<lambda>_ _. out) settings c (dk_gate dk))"
  by (simp add: evaluate_call_parts split: sum.split)

definition refusals :: "string \<Rightarrow> string \<Rightarrow> ('v ask_request \<times> ask_outcome) list \<Rightarrow> nat" where
  "refusals a t asked =
     length (filter (\<lambda>(r, out). out = AskDeny \<and> ar_agent_id r = a \<and> ar_tool_name r = t) asked)"

definition about :: "string \<Rightarrow> string \<Rightarrow> 'v call \<Rightarrow> bool" where
  "about a t c \<longleftrightarrow> px_agent_id (cl_context c) = a \<and> cl_tool c = t"

definition open_for :: "string \<Rightarrow> string \<Rightarrow> ('v call \<times> string) list \<Rightarrow> nat" where
  "open_for a t qs = length (filter (\<lambda>(c, _). about a t c) qs)"

lemma open_for_simps [simp]:
  "open_for a t [] = 0"
  "open_for a t (qs @ rs) = open_for a t qs + open_for a t rs"
  "open_for a t (q # qs) = (if about a t (fst q) then 1 else 0) + open_for a t qs"
  by (simp_all add: open_for_def case_prod_beta)

lemma open_for_without:
  assumes "i < length qs"
  shows "open_for a t qs =
    (if about a t (fst (qs ! i)) then 1 else 0) + open_for a t (take i qs @ drop (Suc i) qs)"
proof -
  have "open_for a t qs = open_for a t (take i qs @ qs ! i # drop (Suc i) qs)"
    using assms by (simp flip: id_take_nth_drop)
  then show ?thesis by simp
qed

lemma refusals_answered:
  "refusals a t (ga_asked (snd (when_answered tk (\<lambda>_ _. out) c reason g))) =
     refusals a t (ga_asked g) + (if out = AskDeny \<and> about a t c then 1 else 0)"
  by (simp add: when_answered_def ask_operator_def Let_def refusals_def about_def case_prod_beta)

lemma tracker_answered:
  "ga_tracker (snd (when_answered tk (\<lambda>_ _. out) c reason g)) =
     (if out = AskDeny then tk_record tk (px_agent_id (cl_context c)) (cl_tool c) (ga_tracker g) else ga_tracker g)"
  by (simp add: when_answered_def ask_operator_def Let_def case_prod_beta)

lemma until_asked_InrD:
  "until_asked env tk settings c m = Inr reason \<Longrightarrow>
     tk_count tk m (px_agent_id (cl_context c)) (cl_tool c) < pc_deny_count_threshold settings"
  by (auto simp: until_asked_def Let_def split: decision.splits if_splits)

text \<open>A call that would be asked about is refused by the gate itself once the count has reached the threshold.\<close>

definition would_ask :: "'v call_env \<Rightarrow> permissions_config \<Rightarrow> 'v call \<Rightarrow> bool" where
  "would_ask env settings c \<longleftrightarrow> px_mode (cl_context c) \<noteq> BypassPermissions \<and> cl_kind c = Interactive \<and>
     (\<exists>reason. effective env settings (cl_tool c) (cl_input c) (cl_hook c) (cl_decision c) = Ask reason)"

lemma until_asked_full:
  assumes "\<not> tk_count tk m (px_agent_id (cl_context c)) (cl_tool c) < pc_deny_count_threshold settings"
    and "would_ask env settings c"
  shows "\<exists>reason. until_asked env tk settings c m = Inl (VDeny reason)"
proof -
  from assms(2) obtain reason where
    "effective env settings (cl_tool c) (cl_input c) (cl_hook c) (cl_decision c) = Ask reason"
    "px_mode (cl_context c) \<noteq> BypassPermissions" "cl_kind c \<noteq> Autonomous"
    by (auto simp: would_ask_def)
  with assms(1) show ?thesis by (simp add: until_asked_def Let_def not_less)
qed

text \<open>What the gate needs of a tracker: a counter per agent and tool that a recorded denial bumps.\<close>

locale denial_fence =
  fixes tk :: "'t tracker" and fresh :: 't
  assumes count_fresh: "tk_count tk fresh a t = 0"
    and count_record: "tk_count tk (tk_record tk a t m) b u =
      (if (b, u) = (a, t) then sat_inc (tk_count tk m a t) else tk_count tk m b u)"
begin

definition tallied :: "('t, 'v) gate \<Rightarrow> bool" where
  "tallied g \<longleftrightarrow>
     (\<forall>a t. unat (tk_count tk (ga_tracker g) a t) = min (refusals a t (ga_asked g)) (2 ^ 32 - 1))"

lemma tallied_answered:
  assumes "tallied g"
  shows "tallied (snd (when_answered tk (\<lambda>_ _. out) c reason g))"
  using assms
  by (auto simp: tallied_def tracker_answered refusals_answered count_record unat_sat_inc about_def)

lemma tallied_step: "tallied (dk_gate dk) \<Longrightarrow> tallied (dk_gate (desk_step env tk settings x dk))"
  by (cases x) (simp_all add: tallied_answered split: sum.split prod.split)

lemma count_full:
  assumes "tallied g"
  shows "tk_count tk (ga_tracker g) a t < pc_deny_count_threshold settings \<longleftrightarrow>
    refusals a t (ga_asked g) < unat (pc_deny_count_threshold settings)"
proof -
  have "unat (pc_deny_count_threshold settings) < 2 ^ 32"
    using unsigned_less [of "pc_deny_count_threshold settings"] by simp
  with assms show ?thesis by (auto simp: tallied_def word_less_nat_alt)
qed

text \<open>Questions for an agent and a tool, answered with a refusal or still open.\<close>

definition exposure :: "string \<Rightarrow> string \<Rightarrow> ('t, 'v) desk \<Rightarrow> nat" where
  "exposure a t dk = refusals a t (ga_asked (dk_gate dk)) + open_for a t (dk_open dk)"

lemma exposure_step:
  assumes "tallied (dk_gate dk)" "open_for a t (dk_open (desk_step env tk settings x dk)) \<le> cap"
  shows "exposure a t (desk_step env tk settings x dk)
    \<le> max (exposure a t dk) (unat (pc_deny_count_threshold settings) - 1 + cap)"
proof (cases x)
  case (Arrives c)
  show ?thesis
  proof (cases "until_asked env tk settings c (ga_tracker (dk_gate dk))")
    case (Inl v)
    with Arrives show ?thesis by simp
  next
    case (Inr reason)
    show ?thesis
    proof (cases "about a t c")
      case True
      from True until_asked_InrD [OF Inr] count_full [OF assms(1), of a t settings]
      have "refusals a t (ga_asked (dk_gate dk)) < unat (pc_deny_count_threshold settings)"
        by (simp add: about_def)
      with Arrives Inr assms(2) show ?thesis by (simp add: exposure_def)
    next
      case False
      with Arrives Inr show ?thesis by (simp add: exposure_def)
    qed
  qed
next
  case (Answers i out)
  show ?thesis
  proof (cases "i < length (dk_open dk)")
    case True
    obtain c reason where q: "dk_open dk ! i = (c, reason)" by force
    with True Answers open_for_without [OF True, of a t] show ?thesis
      by (simp add: exposure_def refusals_answered le_max_iff_disj)
  qed (use Answers in simp)
next
  case (Dropped i)
  then show ?thesis
    using open_for_without [of i "dk_open dk" a t] by (auto simp: exposure_def)
qed

definition unasked :: "('t, 'v) desk" where
  "unasked = \<lparr>dk_gate = \<lparr>ga_tracker = fresh, ga_asked = []\<rparr>, dk_open = []\<rparr>"

lemma tallied_run: "tallied (dk_gate (desk_run env tk settings xs unasked))"
proof (induction xs rule: rev_induct)
  case Nil
  show ?case by (simp add: unasked_def tallied_def count_fresh refusals_def)
next
  case (snoc x xs)
  then show ?case by (simp add: desk_run_append tallied_step)
qed

lemma exposure_run:
  assumes "\<forall>n \<le> length xs. open_for a t (dk_open (desk_run env tk settings (take n xs) unasked)) \<le> cap"
  shows "exposure a t (desk_run env tk settings xs unasked) \<le> unat (pc_deny_count_threshold settings) - 1 + cap"
  using assms
proof (induction xs rule: rev_induct)
  case Nil
  show ?case by (simp add: unasked_def exposure_def refusals_def)
next
  case (snoc x xs)
  have "open_for a t (dk_open (desk_run env tk settings (xs @ [x]) unasked)) \<le> cap"
    using snoc.prems [rule_format, of "Suc (length xs)"] by simp
  then have "exposure a t (desk_run env tk settings (xs @ [x]) unasked)
      \<le> max (exposure a t (desk_run env tk settings xs unasked)) (unat (pc_deny_count_threshold settings) - 1 + cap)"
    using exposure_step [OF tallied_run] by (simp add: desk_run_append)
  moreover have "\<forall>n \<le> length xs. open_for a t (dk_open (desk_run env tk settings (take n xs) unasked)) \<le> cap"
  proof (intro allI impI)
    fix n assume "n \<le> length xs"
    then show "open_for a t (dk_open (desk_run env tk settings (take n xs) unasked)) \<le> cap"
      using snoc.prems [rule_format, of n] by simp
  qed
  then have "exposure a t (desk_run env tk settings xs unasked) \<le> unat (pc_deny_count_threshold settings) - 1 + cap"
    by (rule snoc.IH)
  ultimately show ?case by simp
qed

lemma refuses_by_itself:
  assumes "dk = desk_run env tk settings xs unasked" "unat (pc_deny_count_threshold settings) \<le> refusals a t (ga_asked (dk_gate dk))" "about a t c"
  shows "desk_step env tk settings (Arrives c) dk = dk"
    and "would_ask env settings c \<Longrightarrow> \<exists>reason. until_asked env tk settings c (ga_tracker (dk_gate dk)) = Inl (VDeny reason)"
proof -
  have "tallied (dk_gate dk)" unfolding assms(1) by (rule tallied_run)
  from count_full [OF this, of a t settings] assms(2,3)
  have full: "\<not> tk_count tk (ga_tracker (dk_gate dk)) (px_agent_id (cl_context c)) (cl_tool c)
      < pc_deny_count_threshold settings"
    by (auto simp: about_def)
  then show "desk_step env tk settings (Arrives c) dk = dk"
    by (auto dest: until_asked_InrD split: sum.split)
  show "\<exists>reason. until_asked env tk settings c (ga_tracker (dk_gate dk)) = Inl (VDeny reason)"
    if "would_ask env settings c"
    using full that by (rule until_asked_full)
qed

end

interpretation in_memory: denial_fence in_memory_tracker "\<lambda>_. None"
  by unfold_locales (auto simp: in_memory_tracker_def record_in_session_def Let_def split: option.split)

abbreviation blank_desk :: "(denials, 'v) desk" where
  "blank_desk \<equiv> \<lparr>dk_gate = \<lparr>ga_tracker = (\<lambda>_. None), ga_asked = []\<rparr>, dk_open = []\<rparr>"


text \<open>Two shell commands before the operator at once, at a threshold of one: both are refused, the third by the gate.\<close>

definition sample_call :: "string call" where
  "sample_call =
     \<lparr>cl_decision = Ask ''run'', cl_hook = HookContinue, cl_context = sample_context DefaultMode,
      cl_tool = ''Bash'', cl_input = ''rm'', cl_mutates = False, cl_kind = Interactive, cl_auto = []\<rparr>"

definition sample_refusals :: "string desk_event list" where
  "sample_refusals = [Arrives sample_call, Arrives sample_call, Answers 0 AskDeny, Answers 0 AskDeny]"

definition strict_config :: permissions_config where
  "strict_config = \<lparr>pc_concurrent_tool_cap = 10, pc_deny_count_threshold = 1, pc_rules = []\<rparr>"

lemmas sample_refusal_defs = sample_refusals_def sample_call_def strict_config_def

lemma sample_refusals_open:
  "n \<le> length sample_refusals \<Longrightarrow>
     open_for ''a'' ''Bash'' (dk_open (desk_run sample_call_env in_memory_tracker strict_config
       (take n sample_refusals) blank_desk)) \<le> 2"
proof -
  assume "n \<le> length sample_refusals"
  then consider "n = 0" | "n = Suc 0" | "n = Suc (Suc 0)" | "n = Suc (Suc (Suc 0))" | "n = Suc (Suc (Suc (Suc 0)))"
    by (fastforce simp: sample_refusals_def le_Suc_eq)
  then show ?thesis
    by cases (simp_all add: sample_refusal_defs sample_gate_defs until_asked_def base_decision_def about_def
        when_answered_def ask_operator_def in_memory_tracker_def)
qed

lemma sample_refusals_count:
  "refusals ''a'' ''Bash'' (ga_asked (dk_gate (desk_run sample_call_env in_memory_tracker strict_config
     sample_refusals blank_desk))) = 2"
  by (simp add: sample_refusal_defs sample_gate_defs until_asked_def base_decision_def refusals_def
      when_answered_def ask_operator_def in_memory_tracker_def)


text \<open>A session of decisions on one gate, one after the other.\<close>

fun evaluate_calls ::
    "'v call_env \<Rightarrow> 't tracker \<Rightarrow> 'v bridge \<Rightarrow> permissions_config \<Rightarrow> 'v call list \<Rightarrow> ('t, 'v) gate \<Rightarrow> ('t, 'v) gate" where
  "evaluate_calls env tk bridge settings [] g = g"
| "evaluate_calls env tk bridge settings (c # cs) g =
     evaluate_calls env tk bridge settings cs (snd (evaluate_call env tk bridge settings c g))"

text \<open>Denials are recorded without a session.\<close>

definition unnamed :: "denials \<Rightarrow> bool" where
  "unnamed m \<longleftrightarrow> (\<forall>k e. m k = Some e \<longrightarrow> de_session e = [])"

lemma unnamed_record: "unnamed m \<Longrightarrow> unnamed (tk_record in_memory_tracker a t m)"
  by (auto simp: unnamed_def in_memory_tracker_def record_in_session_def Let_def split: option.splits)

lemma unnamed_reset: "unnamed m \<Longrightarrow> sid \<noteq> [] \<Longrightarrow> tk_reset in_memory_tracker sid m = m"
  by (rule ext) (auto simp: unnamed_def in_memory_tracker_def split: option.split)

lemma unnamed_calls:
  "unnamed (ga_tracker g) \<Longrightarrow>
   unnamed (ga_tracker (evaluate_calls env in_memory_tracker bridge settings calls g))"
proof (induction calls arbitrary: g)
  case Nil
  then show ?case by simp
next
  case (Cons c cs)
  from Cons.prems have "unnamed (ga_tracker (snd (evaluate_call env in_memory_tracker bridge settings c g)))"
    by (simp add: evaluate_call_parts when_answered_def ask_operator_def Let_def unnamed_record split: sum.split)
  with Cons.IH show ?case by simp
qed

text \<open>resetting a session, which is to give its agents a clean slate, forgets nothing: the gate
  records denials under the empty session id, so the reset of a named session finds none of them.\<close>

theorem session_reset_forgets_nothing:
  assumes "sid \<noteq> []"
  shows "tk_reset in_memory_tracker sid
     (ga_tracker (evaluate_calls env in_memory_tracker bridge settings calls \<lparr>ga_tracker = (\<lambda>_. None), ga_asked = []\<rparr>)) =
     ga_tracker (evaluate_calls env in_memory_tracker bridge settings calls \<lparr>ga_tracker = (\<lambda>_. None), ga_asked = []\<rparr>)"
  by (intro unnamed_reset unnamed_calls assms) (simp add: unnamed_def)

theorem session_reset_forgets_nothing_witness:
  "tk_count in_memory_tracker (tk_reset in_memory_tracker ''s''
     (ga_tracker (evaluate_calls sample_call_env in_memory_tracker (\<lambda>_ _. AskDeny) (sample_config [])
        [sample_call]
        \<lparr>ga_tracker = (\<lambda>_. None), ga_asked = []\<rparr>))) ''a'' ''Bash'' = 1"
  by (subst session_reset_forgets_nothing)
     (simp_all add: sample_gate_defs sample_call_def evaluate_call_def evaluate_permission_def base_decision_def
       ask_operator_def in_memory_tracker_def record_in_session_def sat_inc_def plan_demote_def)

section \<open>Rules and settings\<close>

text \<open>the rule grammar. A string is accepted exactly as a bare tool name without parentheses, or as
  a non-empty tool name, an opening parenthesis, a valid glob and a final closing parenthesis; white
  space around the whole and around the name is dropped, the glob is kept as it is.\<close>

theorem parse_rule_accepts:
  "parse_rule env raw d = Inr r \<longleftrightarrow>
     pr_decision r = d \<and> pr_tool_name r \<noteq> [] \<and>
     (pr_arg_pattern r = None \<and> pr_tool_name r = trim raw \<and> CHR ''('' \<notin> set (trim raw) \<and>
        CHR '')'' \<notin> set (trim raw) \<or>
      (\<exists>name pat m. trim raw = name @ ''('' @ pat @ '')'' \<and> CHR ''('' \<notin> set name \<and>
         pr_tool_name r = trim name \<and> pr_arg_pattern r = Some m \<and> ce_glob env pat = Some m))"
proof (cases "split_at_char (CHR ''('') (trim raw)")
  case None
  then have "CHR ''('' \<notin> set (trim raw)" by (simp add: split_at_char_None)
  then show ?thesis using None
    by (cases r) (auto simp: parse_rule_def Let_def)
next
  case (Some p)
  obtain name after where p: "p = (name, after)" by force
  from Some p have raw: "trim raw = name @ CHR ''('' # after" "CHR ''('' \<notin> set name"
    by (simp_all add: split_at_char_Some)
  have split: "trim raw = n @ ''('' @ pat @ '')'' \<and> CHR ''('' \<notin> set n \<longleftrightarrow>
      n = name \<and> last (trim raw) = CHR '')'' \<and> pat = butlast after" for n pat
  proof -
    have "trim raw = n @ ''('' @ pat @ '')'' \<and> CHR ''('' \<notin> set n \<longleftrightarrow>
        split_at_char (CHR ''('') (trim raw) = Some (n, pat @ '')'')"
      by (simp add: split_at_char_Some)
    also have "\<dots> \<longleftrightarrow> n = name \<and> after = pat @ '')''" using Some p by auto
    also have "\<dots> \<longleftrightarrow> n = name \<and> last (trim raw) = CHR '')'' \<and> pat = butlast after"
      using raw(1) by (cases after rule: rev_cases) auto
    finally show ?thesis .
  qed
  have "parse_rule env raw d = Inr r \<longleftrightarrow>
      last (trim raw) = CHR '')'' \<and> trim name \<noteq> [] \<and>
      (\<exists>m. ce_glob env (butlast after) = Some m \<and>
           r = \<lparr>pr_tool_name = trim name, pr_arg_pattern = Some m, pr_decision = d\<rparr>)"
    using Some p raw by (auto simp: parse_rule_def Let_def split: option.splits if_splits)
  also have "\<dots> \<longleftrightarrow> pr_decision r = d \<and> pr_tool_name r \<noteq> [] \<and>
      (\<exists>n pat m. (trim raw = n @ ''('' @ pat @ '')'' \<and> CHR ''('' \<notin> set n) \<and>
         pr_tool_name r = trim n \<and> pr_arg_pattern r = Some m \<and> ce_glob env pat = Some m)"
    unfolding split by (cases r) auto
  finally show ?thesis using raw(1) by auto
qed

lemma first_rule_append:
  "first_rule env (rs @ rs') t input =
     (case first_rule env rs t input of Some d \<Rightarrow> Some d | None \<Rightarrow> first_rule env rs' t input)"
  by (induction rs) (auto split: sum.split)

lemma check_decisions_None:
  "check_decisions rs = None \<longleftrightarrow> (\<forall>r\<in>set rs. \<exists>d. (to_decision r :: settings_error + unit decision) = Inr d)"
  by (induction rs) (auto split: sum.split)

text \<open>loaded settings decide a call by the project's rules, and by the user's only when no rule of
  the project applies; every rule has a known decision; a number the project sets is the project's,
  else the user's, else the default.\<close>

theorem project_settings_first:
  assumes "load_runner_settings (Inr project) (Inr glob) = Inr settings"
  shows "first_rule env (pc_rules (rs_permissions settings)) t input =
      (case first_rule env (rules_of project) t input of
         Some d \<Rightarrow> Some d | None \<Rightarrow> first_rule env (rules_of glob) t input) \<and>
    (\<forall>r\<in>set (pc_rules (rs_permissions settings)).
       rr_decision r \<in> {''allow'', ''allow_once'', ''allow_session'', ''deny'', ''ask''}) \<and>
    pc_deny_count_threshold (rs_permissions settings) =
      (case Option.bind project rw_deny_count_threshold of Some n \<Rightarrow> n
       | None \<Rightarrow> (case Option.bind glob rw_deny_count_threshold of Some n \<Rightarrow> n | None \<Rightarrow> 3))"
proof -
  from assms have chk: "check_decisions (rules_of project @ rules_of glob) = None"
    and s: "pc_rules (rs_permissions settings) = rules_of project @ rules_of glob"
      "pc_deny_count_threshold (rs_permissions settings) =
         project_or_global (Option.bind project rw_deny_count_threshold)
           (Option.bind glob rw_deny_count_threshold) default_deny_count_threshold"
    by (auto simp: load_runner_settings_def split: option.splits)
  show ?thesis
    using chk unfolding s check_decisions_None
    by (auto simp: first_rule_append to_decision_def project_or_global_def default_deny_count_threshold_def
        split: if_splits)
qed

theorem project_settings_first_witness:
  "\<exists>settings. load_runner_settings (Inr (Some (sample_file [\<lparr>rr_match = ''Bash'', rr_decision = ''deny''\<rparr>])))
      (Inr (Some (sample_file [\<lparr>rr_match = ''Bash'', rr_decision = ''allow''\<rparr>]))) = Inr settings \<and>
    first_rule sample_call_env (pc_rules (rs_permissions settings)) ''Bash'' ''ls'' =
      Some (Deny (''denied by rule '' @ quoted ''Bash''))"
proof -
  let ?p = "Some (sample_file [\<lparr>rr_match = ''Bash'', rr_decision = ''deny''\<rparr>])"
  let ?g = "Some (sample_file [\<lparr>rr_match = ''Bash'', rr_decision = ''allow''\<rparr>])"
  obtain settings where s: "load_runner_settings (Inr ?p) (Inr ?g) = Inr settings"
    by (simp add: load_runner_settings_def rules_of_def sample_file_def to_decision_def)
  have "trim ''Bash'' = ''Bash''" by code_simp
  then have "first_rule sample_call_env (rules_of ?p) ''Bash'' ''ls'' =
      Some (Deny (''denied by rule '' @ quoted ''Bash''))"
    by (simp add: rules_of_def sample_file_def to_decision_def parse_rule_def rule_matches_def Let_def)
  with project_settings_first [OF s, of sample_call_env "''Bash''" "''ls''"] s show ?thesis by auto
qed

section \<open>Shell commands\<close>

text \<open>C8: in an interactive session, with no hook and no rule for the call and the bypass mode off, a
  shell command runs without the operator being asked exactly when the classifier calls it read-only
  and what follows its leading \<open>cd\<close> is a pipeline of allowlisted commands free of substitution,
  redirection, sequencing and background operators (and the \<open>cd\<close> target of substitution).\<close>

theorem bash_runs_unasked:
  assumes "px_mode ctx \<noteq> BypassPermissions"
    and "\<forall>h\<in>set (rs_pre_tool_use settings). \<not> hook_match_string env (he_match h) ''Bash'' input"
    and "first_rule env (pc_rules (rs_permissions settings)) ''Bash'' input = None"
    and "ce_str_field env input ''command'' = Some cmd"
    and "split_leading_cd cmd = (target, rest)"
  shows "(\<exists>g'. permission_stage env tk bridge run cancelled (bash_check_permissions env)
              default_mutates_for_input settings ctx Interactive auto ''Bash'' input g = (Invoke input, g') \<and>
              ga_asked g' = ga_asked g) \<longleftrightarrow>
     classify (ce_regex env) rest = ReadOnly \<and> safe_pipeline rest \<and>
     (\<forall>p. target = Some p \<longrightarrow> \<not> sublist ''$('' p \<and> backtick \<notin> set p)"
proof -
  have hooks: "filter (\<lambda>h. hook_match_string env (he_match h) ''Bash'' input) (rs_pre_tool_use settings) = []"
    using assms(2) by (simp add: filter_empty_conv)
  have ask: "ga_asked (snd (ask_operator tk bridge ctx t input r g)) \<noteq> ga_asked g" for t r
    by (simp add: ask_operator_def Let_def)
  have approved: "is_auto_approvable cmd \<longleftrightarrow>
      safe_pipeline rest \<and> (\<forall>p. target = Some p \<longrightarrow> \<not> sublist ''$('' p \<and> backtick \<notin> set p)"
    using assms(5) by (simp add: auto_approved_iff)
  have opinion: "bash_check_permissions env input = Allow \<or> (\<exists>r. bash_check_permissions env input = Ask r)"
    and allow: "bash_check_permissions env input = Allow \<longleftrightarrow>
      classify (ce_regex env) rest = ReadOnly \<and> is_auto_approvable cmd"
    using assms(4,5) by (auto simp: bash_check_permissions_def Let_def split: option.split)
  show ?thesis
    unfolding approved [symmetric] allow [symmetric] using opinion assms(1,3) ask
    by (auto simp: permission_stage_def hooks evaluate_permission_def base_decision_def Let_def
        default_mutates_for_input_def default_mutates_filesystem_def case_prod_beta
        split: if_splits verdict.splits)
qed

theorem bash_runs_unasked_witness:
  "\<exists>g'. permission_stage sample_call_env noop_tracker (\<lambda>_ _. AskDeny) (\<lambda>_ _ _. HookContinue) (\<lambda>_. False)
      (bash_check_permissions sample_call_env) default_mutates_for_input sample_settings
      (sample_context DefaultMode) Interactive [] ''Bash'' ''cd /tmp && ls | wc -l'' \<lparr>ga_tracker = (), ga_asked = []\<rparr> =
    (Invoke ''cd /tmp && ls | wc -l'', g') \<and> ga_asked g' = ga_asked \<lparr>ga_tracker = (), ga_asked = []\<rparr>"
proof -
  have split: "split_leading_cd ''cd /tmp && ls | wc -l'' = (Some ''/tmp'', ''ls | wc -l'')" by code_simp
  have "segment_is_safe (trim ''ls '')" "segment_is_safe (trim '' wc -l'')" by code_simp+
  then have "safe_pipeline ''ls | wc -l''"
    by (simp add: safe_pipeline_split sublist_code hazard_def backtick_def line_feed_def)
  moreover have "classify (ce_regex sample_call_env) ''ls | wc -l'' = ReadOnly" by code_simp
  ultimately show ?thesis
    by (subst bash_runs_unasked [OF _ _ _ _ split])
       (simp_all add: sample_gate_defs backtick_def sublist_code)
qed

end
