(* ===== verification/Message_Properties.thy ===== *)
theory Message_Properties
  imports Message_Chunks
begin

text \<open>
  Properties of the message chunker and of the two senders built on it: what the chunks are and when
  the loop ends, what reaches a Discord channel, and which replies never reach a Telegram chat.
\<close>

text \<open>C33: With a positive limit \<open>chunk_text\<close> returns; its chunks concatenate to the text, none is
  empty or longer than the limit, a cut is made only when the rest does not fit, and falls after the
  last newline of the window, or hard at the limit when the window has no newline after its first
  character.\<close>

theorem chunk_text_sound:
  assumes "0 < limit"
  shows "\<exists>cs. chunk_text text limit = Some cs \<and> concat cs = text \<and> chunked limit cs"
  using chunk_loop_spec [OF assms, of "[]" "text"] by (simp add: chunk_text_def)

theorem chunk_text_sound_witness:
  "\<exists>cs. chunk_text [97, 10, 98, 99, 100] 3 = Some cs \<and> concat cs = [97, 10, 98, 99, 100] \<and> chunked 3 cs"
  by (rule chunk_text_sound) simp

text \<open>The loop of \<open>chunk_text\<close> fails to end exactly for a limit of zero and a non-empty text; so
  both channels' chunkers always return.\<close>

theorem chunk_text_terminates_iff:
  "(chunk_text text limit = None \<longleftrightarrow> limit = 0 \<and> text \<noteq> []) \<and>
   chunk_for_discord text \<noteq> None \<and> chunk_for_telegram text \<noteq> None"
proof -
  have pos: "chunk_text text l \<noteq> None" if "0 < l" for l
    using chunk_loop_spec [OF that, of "[]" "text"] by (auto simp: chunk_text_def)
  have "chunk_text text 0 = None \<longleftrightarrow> text \<noteq> []"
    using chunk_loop_SomeD [of 0 "[]" "text"] by (cases "chunk_text text 0") (auto simp: chunk_text_def)
  with pos show ?thesis
    by (cases "limit = 0")
       (simp_all add: chunk_for_discord_def chunk_for_telegram_def discord_chunk_threshold_chars_def
          telegram_max_message_chars_def)
qed

text \<open>Whatever the API answers, the messages sent to Discord are an initial part of the reply's
  non-blank chunks, in order; each is below the hard limit, is not blank and lets only user mentions
  ping; sending stops at the first failure, and without one every visible character of the reply is
  sent, in order.\<close>

theorem discord_reply_in_order:
  "\<exists>sent. discord_relay_reply (Some token) accepts text = Some sent \<and>
     list_all snd (butlast sent) \<and>
     (\<forall>(p, a) \<in> set sent. length (dp_content p) \<le> discord_hard_max_message_chars \<and>
        \<not> blank_text (dp_content p) \<and> dp_allowed_mentions p = [''users'']) \<and>
     (let visible = filter (\<lambda>x. \<not> is_whitespace x);
          out = visible (concat (map (dp_content \<circ> fst) sent)) in
        prefix out (visible text) \<and> (list_all snd sent \<longrightarrow> out = visible text))"
proof -
  obtain cs where cs: "chunk_text text discord_chunk_threshold_chars = Some cs" "concat cs = text"
    "chunked discord_chunk_threshold_chars cs"
    using chunk_loop_spec [of discord_chunk_threshold_chars "[]" "text"]
    by (auto simp: chunk_text_def discord_chunk_threshold_chars_def)
  let ?keep = "filter (\<lambda>c. \<not> blank_text c) cs"
  obtain sent where run: "discord_send (accepts token) [] cs = sent"
    and msgs: "map fst sent = take (length sent) (map build_message_payload ?keep)"
    and stop: "list_all snd (butlast sent)"
    and all: "list_all snd sent \<longrightarrow> length sent = length ?keep"
    using discord_send_acc [of "accepts token" "[]" cs] by auto
  have content: "map (dp_content \<circ> fst) sent = take (length sent) ?keep"
    using arg_cong [OF msgs, of "map dp_content"] by (simp add: take_map comp_def)
  have ok: "length (dp_content p) \<le> discord_hard_max_message_chars \<and> \<not> blank_text (dp_content p) \<and>
      dp_allowed_mentions p = [''users'']" if "(p, a) \<in> set sent" for p a
  proof -
    from that have "p \<in> set (map fst sent)" by force
    then obtain c where c: "c \<in> set ?keep" "p = build_message_payload c"
      unfolding msgs by (auto dest!: in_set_takeD)
    with chunked_nonempty [OF cs(3)] show ?thesis
      by (auto simp: discord_hard_max_message_chars_def discord_chunk_threshold_chars_def)
  qed
  let ?visible = "filter (\<lambda>x. \<not> is_whitespace x)"
  have vis: "?visible (concat ?keep) = ?visible text" by (simp add: visible_concat cs(2))
  have pre: "prefix (?visible (concat (map (dp_content \<circ> fst) sent))) (?visible text)"
    unfolding content vis [symmetric]
    by (metis append_take_drop_id concat_append filter_append prefixI)
  have full: "?visible (concat (map (dp_content \<circ> fst) sent)) = ?visible text" if "list_all snd sent"
    using all that vis by (simp add: content)
  show ?thesis
    using run stop ok pre full cs(1)
    by (intro exI [of _ sent]) (auto simp: discord_relay_reply_def chunk_for_discord_def Let_def)
qed

theorem discord_reply_in_order_witness:
  "\<exists>sent. discord_relay_reply (Some ''t'') (\<lambda>_ _ _. True) [104, 105, 32] = Some sent \<and>
     list_all snd (butlast sent) \<and>
     (\<forall>(p, a) \<in> set sent. length (dp_content p) \<le> discord_hard_max_message_chars \<and>
        \<not> blank_text (dp_content p) \<and> dp_allowed_mentions p = [''users'']) \<and>
     (let visible = filter (\<lambda>x. \<not> is_whitespace x);
          out = visible (concat (map (dp_content \<circ> fst) sent)) in
        prefix out (visible [104, 105, 32]) \<and> (list_all snd sent \<longrightarrow> out = visible [104, 105, 32]))"
  by (rule discord_reply_in_order)

text \<open>A Telegram reply that starts with blank lines before a first line longer than the rest of
  the window is lost as a whole when the API refuses blank messages: the blank lines become a chunk
  of their own, both attempts to send it fail, and the loop stops.\<close>

theorem telegram_blank_lead_loses_reply:
  assumes lead: "blank_text lead" "1 < length lead" "last lead = newline"
    and long: "length lead \<le> telegram_max_message_chars" "telegram_max_message_chars < length (lead @ line)"
    and one_line: "newline \<notin> set line"
    and refused: "\<And>h. \<not> accepts token h (Html_Message (html lead)) \<and> \<not> accepts token h (Plain_Message lead)"
  shows "\<exists>sent. telegram_relay_reply (Inr (Inr (Some token))) html accepts (lead @ line) = Some sent \<and>
     delivered sent = []"
proof -
  let ?L = telegram_max_message_chars
  obtain ws where ws: "lead = ws @ [newline]" "ws \<noteq> []"
    using lead(2,3) by (cases lead rule: rev_cases) auto
  have "take ?L (lead @ line) = ws @ [newline] @ take (?L - length lead) line"
    using long(1) by (simp add: ws take_Cons')
  moreover have "newline \<notin> set (take (?L - length lead) line)"
    using one_line by (auto dest: in_set_takeD)
  ultimately have "rfind newline (take ?L (lead @ line)) = Some (length ws)"
    using rfind_append_last by metis
  then have sp: "split_point (lead @ line) ?L = length lead"
    using long ws by (simp add: split_point_def split: nat.split)
  obtain cs where "chunk_loop ?L [lead] line = Some ([lead] @ cs)"
    using chunk_loop_spec [of ?L "[lead]" line] by (auto simp: telegram_max_message_chars_def)
  then have "chunk_for_telegram (lead @ line) = Some (lead # cs)"
    using chunk_loop_cut [OF long(2), of "[]"] by (simp add: sp chunk_for_telegram_def chunk_text_def)
  then show ?thesis
    using refused by (simp add: telegram_relay_reply_def Let_def delivered_def)
qed

theorem telegram_blank_lead_loses_reply_witness:
  "\<exists>sent. telegram_relay_reply (Inr (Inr (Some ''t'')) :: nat + (nat + string option)) id
       (\<lambda>_ _ m. \<not> blank_text (case m of Html_Message t \<Rightarrow> t | Plain_Message t \<Rightarrow> t))
       ([10, 10] @ replicate 4096 120) = Some sent \<and> delivered sent = []"
  by (rule telegram_blank_lead_loses_reply)
     (simp_all add: blank_text_def is_whitespace_def newline_def telegram_max_message_chars_def)

end
