(* ===== verification/Simulation.thy ===== *)
theory Simulation
  imports LS_Prelude
begin

text \<open>
  The interface between a component and its specification. A component is a step function that
  performs one call and returns its answer; a specification is one over its own, simpler state. The
  contract of \<open>simulation\<close> relates the two by an abstraction function under an invariant; the lemmas of
  the locale lift it to whole call sequences, answers included.
\<close>

text \<open>Performing calls in sequence: the answers, and the state left behind.\<close>

fun run_calls :: "('op \<Rightarrow> 's \<Rightarrow> 'r \<times> 's) \<Rightarrow> 'op list \<Rightarrow> 's \<Rightarrow> 'r list \<times> 's" where
  "run_calls step [] s = ([], s)"
| "run_calls step (op # ops) s =
     (case step op s of (r, s') \<Rightarrow> case run_calls step ops s' of (rs, s'') \<Rightarrow> (r # rs, s''))"

lemma run_calls_append:
  "run_calls step (xs @ ys) s =
     (case run_calls step xs s of (rs, s') \<Rightarrow> case run_calls step ys s' of (ts, s'') \<Rightarrow> (rs @ ts, s''))"
  by (induction xs arbitrary: s) (simp_all split: prod.splits)

locale simulation =
  fixes step :: "'op \<Rightarrow> 's \<Rightarrow> 'r \<times> 's"
    and spec :: "'op \<Rightarrow> 'a \<Rightarrow> 'r \<times> 'a"
    and abs :: "'s \<Rightarrow> 'a"
    and inv :: "'s \<Rightarrow> bool"
    and allowed :: "'op \<Rightarrow> 's \<Rightarrow> bool"
  assumes inv_step: "inv s \<Longrightarrow> allowed op s \<Longrightarrow> inv (snd (step op s))"
    and step_spec: "inv s \<Longrightarrow> allowed op s \<Longrightarrow> spec op (abs s) = (fst (step op s), abs (snd (step op s)))"
begin

fun allowed_run :: "'op list \<Rightarrow> 's \<Rightarrow> bool" where
  "allowed_run [] s \<longleftrightarrow> True"
| "allowed_run (op # ops) s \<longleftrightarrow> allowed op s \<and> allowed_run ops (snd (step op s))"

lemma run_refines:
  "inv s \<Longrightarrow> allowed_run ops s \<Longrightarrow>
     inv (snd (run_calls step ops s)) \<and>
     run_calls spec ops (abs s) = (fst (run_calls step ops s), abs (snd (run_calls step ops s)))"
proof (induction ops arbitrary: s)
  case Nil
  then show ?case by simp
next
  case (Cons op ops)
  then have "inv (snd (step op s))" "allowed_run ops (snd (step op s))" by (simp_all add: inv_step)
  from Cons.IH [OF this] Cons.prems show ?case
    by (simp add: step_spec split_beta)
qed

end

text \<open>A component whose calls are always allowed.\<close>

locale total_simulation = simulation step spec abs inv "\<lambda>_ _. True"
  for step :: "'op \<Rightarrow> 's \<Rightarrow> 'r \<times> 's" and spec :: "'op \<Rightarrow> 'a \<Rightarrow> 'r \<times> 'a" and abs inv
begin

lemma allowed_all: "allowed_run ops s"
  by (induction ops arbitrary: s) simp_all

lemma answers_refine: "inv s \<Longrightarrow> fst (run_calls step ops s) = fst (run_calls spec ops (abs s))"
  using run_refines [OF _ allowed_all] by simp

lemma states_refine: "inv s \<Longrightarrow> abs (snd (run_calls step ops s)) = snd (run_calls spec ops (abs s))"
  using run_refines [OF _ allowed_all] by simp

lemma inv_run: "inv s \<Longrightarrow> inv (snd (run_calls step ops s))"
  using run_refines [OF _ allowed_all] by simp

end

end
