(* ===== verification/Channel_Gate.thy ===== *)
theory Channel_Gate
  imports Simulation
begin

text \<open>
  Two process-local tables of the chat channels: \<open>CorrelationMap\<close> (\<open>channels/relay/correlation_map.rs\<close>),
  from a bridge thread to the chat its replies go to, and \<open>LeaseGate\<close>
  (\<open>channels/relay/lease_gate.rs\<close>), the bridge threads whose binding's lease this process holds, with
  its reverse index. Both sit behind a mutex, so an operation is one step. The gate is refined from a
  plain map from threads to bindings.
\<close>

section \<open>\<open>CorrelationMap\<close>\<close>

type_synonym thread_id = string
type_synonym binding_id = string
type_synonym 'v correlation_map = "thread_id \<rightharpoonup> 'v"

definition corr_new :: "'v correlation_map" where
  "corr_new = Map.empty"

definition corr_record :: "'v correlation_map \<Rightarrow> thread_id \<Rightarrow> 'v \<Rightarrow> 'v correlation_map" where
  "corr_record m t v = m(t \<mapsto> v)"

definition corr_remove :: "'v correlation_map \<Rightarrow> thread_id \<Rightarrow> 'v correlation_map" where
  "corr_remove m t = m(t := None)"

definition corr_remove_if_matches :: "'v correlation_map \<Rightarrow> thread_id \<Rightarrow> 'v \<Rightarrow> 'v correlation_map" where
  "corr_remove_if_matches m t v = (if m t = Some v then m(t := None) else m)"

definition corr_peek :: "'v correlation_map \<Rightarrow> thread_id \<Rightarrow> 'v option" where
  "corr_peek m t = m t"

text \<open>The pairs of the map in the iteration order \<open>order\<close> of the hash map.\<close>

definition corr_snapshot :: "thread_id list \<Rightarrow> 'v correlation_map \<Rightarrow> (thread_id \<times> 'v) list" where
  "corr_snapshot order m =
     concat (map (\<lambda>t. case m t of Some v \<Rightarrow> [(t, v)] | None \<Rightarrow> []) order)"

lemma corr_snapshot_set: "set (corr_snapshot order m) = {(t, v). t \<in> set order \<and> m t = Some v}"
  by (auto simp: corr_snapshot_def split: option.splits)

section \<open>\<open>LeaseGate\<close>\<close>

record lease_gate =
  threads_by_binding :: "binding_id \<rightharpoonup> thread_id set"
  binding_by_thread :: "thread_id \<rightharpoonup> binding_id"

definition gate_new :: lease_gate where
  "gate_new = \<lparr> threads_by_binding = Map.empty, binding_by_thread = Map.empty \<rparr>"

definition drop_from_set :: "binding_id \<Rightarrow> thread_id \<Rightarrow> lease_gate \<Rightarrow> lease_gate" where
  "drop_from_set b t g =
     (case threads_by_binding g b of
        Some S \<Rightarrow> g\<lparr> threads_by_binding := (threads_by_binding g)(b \<mapsto> S - {t}) \<rparr>
      | None \<Rightarrow> g)"

definition mark_active :: "binding_id \<Rightarrow> thread_id \<Rightarrow> lease_gate \<Rightarrow> lease_gate" where
  "mark_active b t g =
     (let g1 = (case binding_by_thread g t of
                  Some prior \<Rightarrow> if prior \<noteq> b then drop_from_set prior t g else g
                | None \<Rightarrow> g);
          S = (case threads_by_binding g1 b of Some S \<Rightarrow> S | None \<Rightarrow> {})
      in g1\<lparr> threads_by_binding := (threads_by_binding g1)(b \<mapsto> insert t S),
             binding_by_thread := (binding_by_thread g1)(t \<mapsto> b) \<rparr>)"

definition mark_inactive :: "binding_id \<Rightarrow> lease_gate \<Rightarrow> lease_gate" where
  "mark_inactive b g =
     (case threads_by_binding g b of
        Some S \<Rightarrow> g\<lparr> threads_by_binding := (threads_by_binding g)(b := None),
                    binding_by_thread := (\<lambda>t. if t \<in> S then None else binding_by_thread g t) \<rparr>
      | None \<Rightarrow> g)"

definition is_active :: "lease_gate \<Rightarrow> thread_id \<Rightarrow> bool" where
  "is_active g t \<longleftrightarrow> binding_by_thread g t \<noteq> None"

definition forget_thread :: "thread_id \<Rightarrow> lease_gate \<Rightarrow> lease_gate" where
  "forget_thread t g =
     (case binding_by_thread g t of
        None \<Rightarrow> g
      | Some b \<Rightarrow>
          let g1 = g\<lparr> binding_by_thread := (binding_by_thread g)(t := None) \<rparr> in
          (case threads_by_binding g1 b of
             None \<Rightarrow> g1
           | Some S \<Rightarrow>
               g1\<lparr> threads_by_binding :=
                    (if S - {t} = {} then (threads_by_binding g1)(b := None)
                     else (threads_by_binding g1)(b \<mapsto> S - {t})) \<rparr>))"

section \<open>The two indexes agree\<close>

definition gate_ok :: "lease_gate \<Rightarrow> bool" where
  "gate_ok g \<longleftrightarrow>
     (\<forall>t b. binding_by_thread g t = Some b \<longleftrightarrow>
        (case threads_by_binding g b of Some S \<Rightarrow> t \<in> S | None \<Rightarrow> False))"

lemma gate_okD:
  "gate_ok g \<Longrightarrow> binding_by_thread g t = Some b \<longleftrightarrow>
     (case threads_by_binding g b of Some S \<Rightarrow> t \<in> S | None \<Rightarrow> False)"
  by (simp add: gate_ok_def)

lemma gate_ok_new: "gate_ok gate_new"
  by (simp add: gate_ok_def gate_new_def)

lemma gate_ok_mark_active:
  assumes "gate_ok g"
  shows "gate_ok (mark_active b t g)"
proof -
  have "binding_by_thread (mark_active b t g) u = Some c \<longleftrightarrow>
      (case threads_by_binding (mark_active b t g) c of Some S \<Rightarrow> u \<in> S | None \<Rightarrow> False)" for u c
    using gate_okD [OF assms, of u c] gate_okD [OF assms, of t c] gate_okD [OF assms, of u b]
    by (cases "binding_by_thread g t"; cases "threads_by_binding g b"; cases "threads_by_binding g c")
       (auto simp: mark_active_def drop_from_set_def Let_def split: option.splits if_splits)
  then show ?thesis by (simp add: gate_ok_def)
qed

lemma gate_ok_mark_inactive:
  assumes "gate_ok g"
  shows "gate_ok (mark_inactive b g)"
proof -
  have "binding_by_thread (mark_inactive b g) u = Some c \<longleftrightarrow>
      (case threads_by_binding (mark_inactive b g) c of Some S \<Rightarrow> u \<in> S | None \<Rightarrow> False)" for u c
    using gate_okD [OF assms, of u c] gate_okD [OF assms, of u b]
    by (auto simp: mark_inactive_def split: option.splits if_splits)
  then show ?thesis by (simp add: gate_ok_def)
qed

lemma gate_ok_forget_thread:
  assumes "gate_ok g"
  shows "gate_ok (forget_thread t g)"
proof -
  have "binding_by_thread (forget_thread t g) u = Some c \<longleftrightarrow>
      (case threads_by_binding (forget_thread t g) c of Some S \<Rightarrow> u \<in> S | None \<Rightarrow> False)" for u c
    using gate_okD [OF assms, of u c] gate_okD [OF assms, of t c]
    by (auto simp: forget_thread_def Let_def split: option.splits if_splits)
  then show ?thesis by (simp add: gate_ok_def)
qed

section \<open>Refinement of a map from threads to bindings\<close>

datatype gate_op =
    Mark_Active binding_id thread_id
  | Mark_Inactive binding_id
  | Forget_Thread thread_id
  | Is_Active thread_id

fun gate_step :: "gate_op \<Rightarrow> lease_gate \<Rightarrow> bool option \<times> lease_gate" where
  "gate_step (Mark_Active b t) g = (None, mark_active b t g)"
| "gate_step (Mark_Inactive b) g = (None, mark_inactive b g)"
| "gate_step (Forget_Thread t) g = (None, forget_thread t g)"
| "gate_step (Is_Active t) g = (Some (is_active g t), g)"

text \<open>What the gate promises: a thread is held under the binding it was last marked with.\<close>

fun gate_spec_step :: "gate_op \<Rightarrow> (thread_id \<rightharpoonup> binding_id) \<Rightarrow> bool option \<times> (thread_id \<rightharpoonup> binding_id)" where
  "gate_spec_step (Mark_Active b t) m = (None, m(t \<mapsto> b))"
| "gate_spec_step (Mark_Inactive b) m = (None, \<lambda>t. if m t = Some b then None else m t)"
| "gate_spec_step (Forget_Thread t) m = (None, m(t := None))"
| "gate_spec_step (Is_Active t) m = (Some (t \<in> dom m), m)"

lemma binding_mark_active: "binding_by_thread (mark_active b t g) = (binding_by_thread g)(t \<mapsto> b)"
  by (auto simp: mark_active_def drop_from_set_def Let_def split: option.splits)

lemma binding_mark_inactive:
  "gate_ok g \<Longrightarrow> binding_by_thread (mark_inactive b g) =
     (\<lambda>t. if binding_by_thread g t = Some b then None else binding_by_thread g t)"
  using gate_okD [of g _ b] by (auto simp: mark_inactive_def split: option.splits)

lemma binding_forget_thread: "binding_by_thread (forget_thread t g) = (binding_by_thread g)(t := None)"
  by (auto simp: forget_thread_def Let_def split: option.splits)

lemma gate_ok_step: "gate_ok g \<Longrightarrow> gate_ok (snd (gate_step op g))"
  by (cases op) (simp_all add: gate_ok_mark_active gate_ok_mark_inactive gate_ok_forget_thread)

interpretation gate: total_simulation gate_step gate_spec_step binding_by_thread gate_ok
proof unfold_locales
  show "gate_ok (snd (gate_step op g))" if "gate_ok g" for g op using that by (rule gate_ok_step)
  show "gate_spec_step op (binding_by_thread g) = (fst (gate_step op g), binding_by_thread (snd (gate_step op g)))"
    if "gate_ok g" for g op
    using that
    by (cases op)
       (auto simp: binding_mark_active binding_mark_inactive binding_forget_thread is_active_def)
qed

end
