(* ===== verification/Channel_Relay.thy ===== *)
theory Channel_Relay
  imports Channel_Gate Message_Chunks
begin

text \<open>
  The outbound relay of the chat channels: \<open>handle_relay_event\<close>, \<open>recover_lagged_replies\<close> and the loop
  of \<open>run_relay_observer\<close> (\<open>channels/relay/observer.rs\<close>), and Telegram's typing heartbeats on top of it
  (\<open>telegram/outbound.rs\<close>). The observer is one task, so its steps are sequential; the tables and the
  stores it reads are changed by others between its steps and are arguments of each step.
\<close>

section \<open>Events\<close>

datatype run_end_reason =
  Completed_Run | Timed_Out | No_Output_Timeout | Cancelled_Run | Turn_Limit_Reached | Error_Run | Signal_Run

text \<open>The payloads the observers look at; \<open>Other_Payload\<close> stands for every other one.\<close>

datatype event_payload =
    Run_Started
  | Run_Ended run_end_reason
  | Text_Complete utext
  | Other_Payload

record agent_event =
  ev_agent_id :: string
  ev_thread_id :: "thread_id option"
  ev_payload :: event_payload

text \<open>An event of \<open>agent\<close> on thread \<open>t\<close>.\<close>

definition thread_event :: "string \<Rightarrow> thread_id \<Rightarrow> event_payload \<Rightarrow> agent_event" where
  "thread_event agent t p = \<lparr> ev_agent_id = agent, ev_thread_id = Some t, ev_payload = p \<rparr>"

section \<open>Notices\<close>

definition run_failed_notice :: utext where
  "run_failed_notice = text_of ''The agent hit an error and couldn't finish this reply. Please try again.''"

definition run_timed_out_notice :: utext where
  "run_timed_out_notice = text_of
     ''The agent took too long to respond, so this run was stopped before finishing a reply. Please try again.''"

definition run_turn_limit_notice :: utext where
  "run_turn_limit_notice = text_of
     ''The agent reached its configured turn limit before finishing a reply. Please try again.''"

definition run_cancelled_notice :: utext where
  "run_cancelled_notice = text_of ''This run was stopped before the agent could finish a reply.''"

definition lag_recovery_failed_notice :: utext where
  "lag_recovery_failed_notice =
     text_of ''(A reply may not have fully reached you due to a brief internal hiccup '' @ [8212] @
     text_of '' reply here if something seems missing.)''"

definition terminal_failure_notice :: "run_end_reason \<Rightarrow> utext option" where
  "terminal_failure_notice reason =
     (case reason of
        Completed_Run \<Rightarrow> None
      | Cancelled_Run \<Rightarrow> Some run_cancelled_notice
      | Timed_Out \<Rightarrow> Some run_timed_out_notice
      | No_Output_Timeout \<Rightarrow> Some run_timed_out_notice
      | Turn_Limit_Reached \<Rightarrow> Some run_turn_limit_notice
      | Error_Run \<Rightarrow> Some run_failed_notice
      | Signal_Run \<Rightarrow> Some run_failed_notice)"

section \<open>The observer's state\<close>

text \<open>
  \<open>relayed\<close> logs the calls of the sink, newest last: the thread it was for, the agent, the reply
  target and the text.
\<close>

record 'v relay =
  pending_text :: "thread_id \<rightharpoonup> utext"
  last_relayed :: "thread_id \<rightharpoonup> utext"
  relayed :: "(thread_id \<times> string \<times> 'v \<times> utext) list"

definition relay_new :: "'v relay" where
  "relay_new = \<lparr> pending_text = Map.empty, last_relayed = Map.empty, relayed = [] \<rparr>"

definition sink_relay :: "thread_id \<Rightarrow> string \<Rightarrow> 'v \<Rightarrow> utext \<Rightarrow> 'v relay \<Rightarrow> 'v relay" where
  "sink_relay t agent origin msg st = st\<lparr> relayed := relayed st @ [(t, agent, origin, msg)] \<rparr>"

definition note_relayed :: "thread_id \<Rightarrow> utext \<Rightarrow> 'v relay \<Rightarrow> 'v relay" where
  "note_relayed t msg st = st\<lparr> last_relayed := (last_relayed st)(t \<mapsto> msg) \<rparr>"

section \<open>\<open>handle_relay_event\<close>\<close>

definition relay_run_ended :: "lease_gate \<Rightarrow> 'v correlation_map \<Rightarrow> string \<Rightarrow> thread_id \<Rightarrow>
    run_end_reason \<Rightarrow> 'v relay \<Rightarrow> 'v relay" where
  "relay_run_ended gate in_flight agent t reason st0 =
     (let buffered = pending_text st0 t; st = st0\<lparr> pending_text := (pending_text st0)(t := None) \<rparr> in
      case corr_peek in_flight t of
        None \<Rightarrow> st
      | Some origin \<Rightarrow>
          if \<not> is_active gate t then st
          else (case (case buffered of None \<Rightarrow> None | Some x \<Rightarrow> if blank_text x then None else Some x) of
              Some x \<Rightarrow> note_relayed t x (sink_relay t agent origin x st)
            | None \<Rightarrow>
                if last_relayed st t \<noteq> None then st
                else (case terminal_failure_notice reason of
                    Some notice \<Rightarrow> note_relayed t notice (sink_relay t agent origin notice st)
                  | None \<Rightarrow> st)))"

definition handle_relay_event :: "lease_gate \<Rightarrow> 'v correlation_map \<Rightarrow> agent_event \<Rightarrow> 'v relay \<Rightarrow> 'v relay" where
  "handle_relay_event gate in_flight ev st =
     (case ev_thread_id ev of
        None \<Rightarrow> st
      | Some t \<Rightarrow>
          (case ev_payload ev of
             Text_Complete x \<Rightarrow> st\<lparr> pending_text := (pending_text st)(t \<mapsto> x) \<rparr>
           | Run_Started \<Rightarrow> st\<lparr> last_relayed := (last_relayed st)(t := None) \<rparr>
           | Run_Ended reason \<Rightarrow> relay_run_ended gate in_flight (ev_agent_id ev) t reason st
           | Other_Payload \<Rightarrow> st))"

section \<open>\<open>recover_lagged_replies\<close>\<close>

datatype thread_scope =
    Agent_Chat string
  | Team_Chat string
  | Delegation_Scope string string
  | Artifact_Scope string

datatype transcript_role =
    Role_Agent string
  | Role_Schedule string
  | Role_System string

record thread_row =
  th_scope :: thread_scope
  th_transcript_path :: string

record transcript_entry =
  te_role :: transcript_role
  te_content :: utext
  te_event_type :: string
  te_hidden_from_user :: bool

text \<open>\<open>persistence.threads.get\<close> and \<open>persistence.transcripts.read_tail_at\<close>.\<close>

record 'e relay_store =
  rs_thread :: "thread_id \<Rightarrow> 'e + thread_row option"
  rs_read_tail :: "string \<Rightarrow> nat \<Rightarrow> 'e + transcript_entry list"

definition lag_recovery_transcript_scan :: nat where
  "lag_recovery_transcript_scan = 20"

definition is_reply_entry :: "transcript_entry \<Rightarrow> bool" where
  "is_reply_entry e \<longleftrightarrow>
     (case te_role e of Role_Agent _ \<Rightarrow> True | _ \<Rightarrow> False) \<and>
     te_event_type e = ''response'' \<and> \<not> te_hidden_from_user e \<and> \<not> blank_text (te_content e)"

text \<open>The content of the last entry that is a reply.\<close>

definition latest_reply :: "transcript_entry list \<Rightarrow> utext option" where
  "latest_reply entries = map_option te_content (find is_reply_entry (rev entries))"

definition recover_thread :: "lease_gate \<Rightarrow> 'e relay_store \<Rightarrow> thread_id \<Rightarrow> 'v \<Rightarrow> 'v relay \<Rightarrow> 'v relay" where
  "recover_thread gate store t origin st =
     (if \<not> is_active gate t then st
      else (case rs_thread store t of
          Inr (Some thread) \<Rightarrow>
            (case th_scope thread of
               Agent_Chat agent \<Rightarrow>
                 (case rs_read_tail store (th_transcript_path thread) lag_recovery_transcript_scan of
                    Inr entries \<Rightarrow>
                      (case latest_reply entries of
                         None \<Rightarrow> st
                       | Some x \<Rightarrow>
                           if last_relayed st t = Some x then st
                           else note_relayed t x (sink_relay t agent origin x st))
                  | Inl _ \<Rightarrow> sink_relay t agent origin lag_recovery_failed_notice st)
             | _ \<Rightarrow> st)
        | Inr None \<Rightarrow> st
        | Inl _ \<Rightarrow> st))"

definition recover_lagged_replies :: "lease_gate \<Rightarrow> 'e relay_store \<Rightarrow> 'v correlation_map \<Rightarrow> thread_id list \<Rightarrow>
    'v relay \<Rightarrow> 'v relay" where
  "recover_lagged_replies gate store in_flight order st =
     fold (\<lambda>(t, origin). recover_thread gate store t origin) (corr_snapshot order in_flight) st"

section \<open>The loop\<close>

text \<open>
  What the loop reads at one turn: the tables and stores as they are then, the hash map's iteration
  order, and what \<open>recv\<close> returns, an event or the report of a lag.
\<close>

datatype received = Received agent_event | Lagged nat

record ('v, 'e) relay_env =
  env_gate :: lease_gate
  env_in_flight :: "'v correlation_map"
  env_store :: "'e relay_store"
  env_order :: "thread_id list"

definition observer_step :: "('v, 'e) relay_env \<times> received \<Rightarrow> 'v relay \<Rightarrow> 'v relay" where
  "observer_step turn st =
     (case turn of (env, r) \<Rightarrow>
        (case r of
           Received ev \<Rightarrow> handle_relay_event (env_gate env) (env_in_flight env) ev st
         | Lagged skipped \<Rightarrow>
             recover_lagged_replies (env_gate env) (env_store env) (env_in_flight env) (env_order env) st))"

definition run_relay_observer :: "(('v, 'e) relay_env \<times> received) list \<Rightarrow> 'v relay \<Rightarrow> 'v relay" where
  "run_relay_observer turns st = fold observer_step turns st"

section \<open>Telegram: typing heartbeats\<close>

text \<open>
  A heartbeat is a spawned task; \<open>beats_live\<close> are those whose cancellation token has not fired,
  \<open>beats\<close> is the map of the observer, which keeps one token per thread.
\<close>

record heartbeats =
  beats :: "thread_id \<rightharpoonup> nat"
  beats_live :: "nat set"
  beats_next :: nat

definition beats_new :: heartbeats where
  "beats_new = \<lparr> beats = Map.empty, beats_live = {}, beats_next = 0 \<rparr>"

definition start_typing_heartbeat :: "'v correlation_map \<Rightarrow> (string \<Rightarrow> 'e + ('e + string option)) \<Rightarrow> string \<Rightarrow>
    thread_id \<Rightarrow> heartbeats \<Rightarrow> heartbeats" where
  "start_typing_heartbeat in_flight token_of agent t h =
     (case corr_peek in_flight t of
        None \<Rightarrow> h
      | Some chat \<Rightarrow>
          (case token_of agent of
             Inr (Inr (Some token)) \<Rightarrow>
               h\<lparr> beats := (beats h)(t \<mapsto> beats_next h),
                  beats_live := insert (beats_next h) (beats_live h),
                  beats_next := Suc (beats_next h) \<rparr>
           | Inr (Inr None) \<Rightarrow> h
           | Inr (Inl _) \<Rightarrow> h
           | Inl _ \<Rightarrow> h))"

definition cancel_beat :: "nat \<Rightarrow> heartbeats \<Rightarrow> heartbeats" where
  "cancel_beat i h = h\<lparr> beats_live := beats_live h - {i} \<rparr>"

definition stop_heartbeat :: "thread_id \<Rightarrow> heartbeats \<Rightarrow> heartbeats" where
  "stop_heartbeat t h =
     (case beats h t of
        None \<Rightarrow> h
      | Some i \<Rightarrow> cancel_beat i (h\<lparr> beats := (beats h)(t := None) \<rparr>))"

definition telegram_side_effects :: "'v correlation_map \<Rightarrow> (string \<Rightarrow> 'e + ('e + string option)) \<Rightarrow> agent_event \<Rightarrow>
    heartbeats \<Rightarrow> heartbeats" where
  "telegram_side_effects in_flight token_of ev h =
     (case ev_thread_id ev of
        None \<Rightarrow> h
      | Some t \<Rightarrow>
          (case ev_payload ev of
             Run_Started \<Rightarrow> start_typing_heartbeat in_flight token_of (ev_agent_id ev) t h
           | Run_Ended _ \<Rightarrow> stop_heartbeat t h
           | _ \<Rightarrow> h))"

text \<open>Telegram's \<open>handle_event\<close> and one turn of its loop: a lag touches no heartbeat.\<close>

definition telegram_step :: "(string \<Rightarrow> 'e + ('e + string option)) \<Rightarrow> ('v, 'e) relay_env \<times> received \<Rightarrow>
    heartbeats \<times> 'v relay \<Rightarrow> heartbeats \<times> 'v relay" where
  "telegram_step token_of turn s =
     (case turn of (env, r) \<Rightarrow>
        ((case r of
            Received ev \<Rightarrow> telegram_side_effects (env_in_flight env) token_of ev (fst s)
          | Lagged _ \<Rightarrow> fst s),
         observer_step turn (snd s)))"

text \<open>The shutdown branch cancels every heartbeat of the map.\<close>

definition telegram_shutdown :: "heartbeats \<Rightarrow> heartbeats" where
  "telegram_shutdown h = h\<lparr> beats_live := beats_live h - ran (beats h) \<rparr>"

end
