(* ===== verification/Relay_Properties.thy ===== *)
theory Relay_Properties
  imports Channel_Relay
begin

text \<open>
  Properties of the outbound relay: what a run's end sends to the chat, when nothing may be sent, what
  a lag of the event bus makes of it, and which heartbeats survive.
\<close>

section \<open>One thread's view of the relay\<close>

definition relay_view :: "thread_id \<Rightarrow> 'v relay \<Rightarrow> utext option \<times> utext option \<times> (thread_id \<times> string \<times> 'v \<times> utext) list" where
  "relay_view t st = (pending_text st t, last_relayed st t, filter (\<lambda>m. fst m = t) (relayed st))"

definition for_thread :: "thread_id \<Rightarrow> agent_event \<Rightarrow> bool" where
  "for_thread t ev \<longleftrightarrow> ev_thread_id ev = Some t \<and> ev_payload ev \<noteq> Other_Payload"

lemmas handle_defs = handle_relay_event_def relay_run_ended_def note_relayed_def sink_relay_def corr_peek_def

lemma handle_other_thread:
  "\<not> for_thread t ev \<Longrightarrow> relay_view t (handle_relay_event gate m ev st) = relay_view t st"
  by (auto simp: for_thread_def relay_view_def handle_defs Let_def split: option.splits event_payload.splits)

lemma handle_view_cong:
  "for_thread t ev \<Longrightarrow> relay_view t st = relay_view t st' \<Longrightarrow>
     relay_view t (handle_relay_event gate m ev st) = relay_view t (handle_relay_event gate m ev st')"
  by (auto simp: for_thread_def relay_view_def handle_defs Let_def split: option.splits event_payload.splits)

lemma handle_fold_filter:
  "relay_view t st = relay_view t st' \<Longrightarrow>
     relay_view t (fold (handle_relay_event gate m) es st) =
     relay_view t (fold (handle_relay_event gate m) (filter (for_thread t) es) st')"
proof (induction es arbitrary: st st')
  case Nil
  then show ?case by simp
next
  case (Cons ev es)
  show ?case
  proof (cases "for_thread t ev")
    case True
    then show ?thesis using Cons.IH [OF handle_view_cong [OF True Cons.prems]] by simp
  next
    case False
    then show ?thesis using Cons.IH [of "handle_relay_event gate m ev st" st'] Cons.prems
      by (simp add: handle_other_thread)
  qed
qed

section \<open>Runs and their answers\<close>

text \<open>A run of agent \<open>a\<close> on a thread: it starts, completes the texts \<open>xs\<close> and ends for \<open>reason\<close>.\<close>

fun run_events :: "thread_id \<Rightarrow> string \<times> utext list \<times> run_end_reason \<Rightarrow> agent_event list" where
  "run_events t (a, xs, reason) =
     thread_event a t Run_Started # map (thread_event a t \<circ> Text_Complete) xs @ [thread_event a t (Run_Ended reason)]"

text \<open>The one message a run owes the chat: its last text, or else an honest notice of its failure.\<close>

fun run_answer :: "string \<times> utext list \<times> run_end_reason \<Rightarrow> utext option" where
  "run_answer (a, xs, reason) =
     (if xs \<noteq> [] \<and> \<not> blank_text (last xs) then Some (last xs) else terminal_failure_notice reason)"

definition run_message :: "thread_id \<Rightarrow> 'v \<Rightarrow> string \<times> utext list \<times> run_end_reason \<Rightarrow>
    (thread_id \<times> string \<times> 'v \<times> utext) list" where
  "run_message t origin r = (case run_answer r of None \<Rightarrow> [] | Some x \<Rightarrow> [(t, fst r, origin, x)])"

lemma texts_pending:
  "fold (handle_relay_event gate m)
     (map (thread_event a t \<circ> Text_Complete) xs) st =
   (if xs = [] then st else st\<lparr> pending_text := (pending_text st)(t \<mapsto> last xs) \<rparr>)"
  by (induction xs arbitrary: st) (auto simp: handle_relay_event_def thread_event_def)

lemma run_events_effect:
  assumes "m t = Some origin" and "is_active gate t" and "pending_text st t = None"
  shows "pending_text (fold (handle_relay_event gate m) (run_events t r) st) t = None"
    and "relayed (fold (handle_relay_event gate m) (run_events t r) st) = relayed st @ run_message t origin r"
proof -
  obtain a xs reason where r: "r = (a, xs, reason)" by (cases r) auto
  let ?fin = "thread_event a t (Run_Ended reason)"
  have "fold (handle_relay_event gate m) (run_events t r) st =
      handle_relay_event gate m ?fin
        (if xs = [] then st\<lparr> last_relayed := (last_relayed st)(t := None) \<rparr>
         else st\<lparr> last_relayed := (last_relayed st)(t := None), pending_text := (pending_text st)(t \<mapsto> last xs) \<rparr>)"
    by (simp add: r texts_pending) (simp add: handle_relay_event_def thread_event_def)
  then show "pending_text (fold (handle_relay_event gate m) (run_events t r) st) t = None"
    and "relayed (fold (handle_relay_event gate m) (run_events t r) st) = relayed st @ run_message t origin r"
    using assms by (auto simp: r run_message_def handle_defs thread_event_def Let_def split: option.splits)
qed

lemma runs_effect:
  assumes "m t = Some origin" and "is_active gate t"
  shows "pending_text st t = None \<Longrightarrow>
     relayed (fold (handle_relay_event gate m) (concat (map (run_events t) runs)) st) =
     relayed st @ concat (map (run_message t origin) runs)"
  by (induction runs arbitrary: st) (simp_all add: run_events_effect [of m t origin gate, OF assms] del: run_events.simps)

text \<open>C17: While the tables stay as they are and the bus does not lag, a bound thread whose lease this
  process holds gets exactly one message per run that has anything to say, in the order of the runs:
  the last text of the run, or the notice of its failure when it has none; whatever happens on other
  threads in between.\<close>

theorem relay_one_answer_per_run:
  assumes "in_flight t = Some origin" and "is_active gate t"
    and runs: "filter (for_thread t) es = concat (map (run_events t) runs)"
  shows "filter (\<lambda>m. fst m = t) (relayed (fold (handle_relay_event gate in_flight) es relay_new)) =
     concat (map (run_message t origin) runs)"
proof -
  have "relayed (fold (handle_relay_event gate in_flight) (concat (map (run_events t) runs)) relay_new) =
      concat (map (run_message t origin) runs)"
    by (subst runs_effect [of in_flight t origin]) (simp_all add: assms relay_new_def)
  moreover have "filter (\<lambda>m. fst m = t) (concat (map (run_message t origin) runs)) =
      concat (map (run_message t origin) runs)"
    by (rule filter_True) (auto simp: run_message_def split: option.splits)
  ultimately show ?thesis
    using arg_cong [OF handle_fold_filter [of t relay_new relay_new gate in_flight es, OF refl], of "snd \<circ> snd"]
    by (simp add: relay_view_def runs)
qed

section \<open>When nothing is sent\<close>

lemma notices_visible: "terminal_failure_notice reason = Some x \<Longrightarrow> \<not> blank_text x"
  by (auto simp: terminal_failure_notice_def run_cancelled_notice_def run_timed_out_notice_def
      run_turn_limit_notice_def run_failed_notice_def text_of_def blank_text_def is_whitespace_def
      split: run_end_reason.splits)

lemma lag_notice_visible: "\<not> blank_text lag_recovery_failed_notice"
  by (simp add: lag_recovery_failed_notice_def text_of_def blank_text_def is_whitespace_def)

lemma latest_reply_visible: "latest_reply es = Some x \<Longrightarrow> \<not> blank_text x"
  by (auto simp: latest_reply_def find_Some_iff is_reply_entry_def)

definition may_send :: "lease_gate \<Rightarrow> 'v correlation_map \<Rightarrow> thread_id \<times> string \<times> 'v \<times> utext \<Rightarrow> bool" where
  "may_send gate m msg \<longleftrightarrow>
     (case msg of (t, agent, origin, x) \<Rightarrow> is_active gate t \<and> m t = Some origin \<and> \<not> blank_text x)"

lemma handle_sends:
  "\<exists>new. relayed (handle_relay_event gate m ev st) = relayed st @ new \<and> list_all (may_send gate m) new"
  by (auto simp: handle_defs may_send_def Let_def dest: notices_visible
      split: option.splits event_payload.splits if_splits)

lemma recover_thread_sends:
  assumes "m t = Some origin"
  shows "\<exists>new. relayed (recover_thread gate store t origin st) = relayed st @ new \<and> list_all (may_send gate m) new"
  using assms
  by (auto simp: recover_thread_def note_relayed_def sink_relay_def may_send_def lag_notice_visible
      dest: latest_reply_visible split: option.splits sum.splits thread_scope.splits)

lemma recover_fold_sends:
  "(\<And>t v. (t, v) \<in> set xs \<Longrightarrow> m t = Some v) \<Longrightarrow>
     \<exists>new. relayed (fold (\<lambda>(t, origin). recover_thread gate store t origin) xs st) = relayed st @ new \<and>
       list_all (may_send gate m) new"
proof (induction xs arbitrary: st)
  case Nil
  then show ?case by simp
next
  case (Cons p xs)
  obtain t v where p: "p = (t, v)" by force
  obtain new1 where 1: "relayed (recover_thread gate store t v st) = relayed st @ new1" "list_all (may_send gate m) new1"
    using recover_thread_sends [of m t v gate store st] Cons.prems p by auto
  obtain new2 where "relayed (fold (\<lambda>(t, origin). recover_thread gate store t origin) xs (recover_thread gate store t v st)) =
      relayed (recover_thread gate store t v st) @ new2" "list_all (may_send gate m) new2"
    using Cons.IH Cons.prems by (meson list.set_intros(2))
  with 1 p show ?case by (intro exI [of _ "new1 @ new2"]) simp
qed

lemma observer_sends:
  "\<exists>new. relayed (observer_step (env, r) st) = relayed st @ new \<and>
     list_all (may_send (env_gate env) (env_in_flight env)) new"
  using handle_sends [of "env_gate env" "env_in_flight env" _ st]
    recover_fold_sends [of "corr_snapshot (env_order env) (env_in_flight env)" "env_in_flight env"
      "env_gate env" "env_store env" st]
  by (cases r) (auto simp: observer_step_def recover_lagged_replies_def corr_snapshot_set)

text \<open>C19: What the relay sends at a turn - live, or recovered after a lag - is visible text, to threads whose binding's
  lease this process holds at that very turn, and to the reply target that the thread has recorded at that
  turn; what it sent at earlier turns stays sent.\<close>

theorem relays_only_when_held:
  assumes "k < length turns" and "turns ! k = (env, r)"
  shows "\<exists>sent. relayed (run_relay_observer (take (Suc k) turns) st) = relayed (run_relay_observer (take k turns) st) @ sent \<and>
     (\<forall>(t, agent, origin, x) \<in> set sent.
        \<not> blank_text x \<and> is_active (env_gate env) t \<and> env_in_flight env t = Some origin)"
proof -
  have "run_relay_observer (take (Suc k) turns) st = observer_step (env, r) (run_relay_observer (take k turns) st)"
    using assms by (simp add: run_relay_observer_def take_Suc_conv_app_nth)
  then show ?thesis
    using observer_sends [of env r "run_relay_observer (take k turns) st"]
    by (auto simp: may_send_def list_all_iff)
qed

text \<open>The text of a run is buffered while the lease is held and lost with it: nothing is sent at the run's end.\<close>

definition lost_lease_turns :: "((int, unit) relay_env \<times> received) list" where
  "lost_lease_turns =
     (let env = \<lparr> env_gate = mark_active ''b'' ''t'' gate_new, env_in_flight = [''t'' \<mapsto> 5],
                  env_store = \<lparr> rs_thread = \<lambda>_. Inl (), rs_read_tail = \<lambda>_ _. Inl () \<rparr>, env_order = [] \<rparr> in
      [(env, Received (thread_event ''a'' ''t'' (Text_Complete [104]))),
       (env\<lparr> env_gate := gate_new \<rparr>, Received (thread_event ''a'' ''t'' (Run_Ended Completed_Run)))])"

theorem relays_only_when_held_witness:
  "relayed (run_relay_observer lost_lease_turns relay_new) = relayed (run_relay_observer (take 1 lost_lease_turns) relay_new)"
proof -
  have turns: "1 < length lost_lease_turns" "take (Suc 1) lost_lease_turns = lost_lease_turns"
    by (simp_all add: lost_lease_turns_def Let_def)
  obtain env r where env: "lost_lease_turns ! 1 = (env, r)" by force
  then have gate: "\<not> is_active (env_gate env) t" for t
    by (auto simp: lost_lease_turns_def Let_def is_active_def gate_new_def)
  from relays_only_when_held [OF turns(1) env, of relay_new] obtain sent where
    s: "relayed (run_relay_observer lost_lease_turns relay_new) =
       relayed (run_relay_observer (take 1 lost_lease_turns) relay_new) @ sent"
    "\<forall>msg \<in> set sent. is_active (env_gate env) (fst msg)"
    unfolding turns(2) by fastforce
  have "sent = []"
  proof (cases sent)
    case (Cons msg rest)
    then have "is_active (env_gate env) (fst msg)" using bspec [OF s(2), of msg] by simp
    with gate [of "fst msg"] show ?thesis by simp
  qed
  with s(1) show ?thesis by simp
qed

theorem relay_one_answer_per_run_witness:
  "let es = run_events ''t'' (''a'', [[120], [104, 105]], Completed_Run) @
         [\<lparr> ev_agent_id = ''z'', ev_thread_id = Some ''u'', ev_payload = Text_Complete [1] \<rparr>] @
         run_events ''t'' (''a'', [], Error_Run) in
   filter (\<lambda>m. fst m = ''t'') (relayed (fold (handle_relay_event
       (mark_active ''b'' ''t'' gate_new) [''t'' \<mapsto> (5::int)]) es relay_new)) =
   [(''t'', ''a'', 5, [104, 105]), (''t'', ''a'', 5, run_failed_notice)]"
  unfolding Let_def
  by (subst relay_one_answer_per_run [where origin = 5 and
        runs = "[(''a'', [[120], [104, 105]], Completed_Run), (''a'', [], Error_Run)]"])
     (simp_all add: is_active_def mark_active_def gate_new_def for_thread_def thread_event_def run_message_def
        blank_text_def is_whitespace_def terminal_failure_notice_def)

section \<open>A lag of the bus\<close>

text \<open>The transcript of thread \<open>t\<close>, owned by \<open>agent\<close>, whose latest reply is \<open>x\<close>.\<close>

definition transcript_reply :: "'e relay_store \<Rightarrow> thread_id \<Rightarrow> string \<Rightarrow> utext \<Rightarrow> bool" where
  "transcript_reply store t agent x \<longleftrightarrow>
     (\<exists>thread entries. rs_thread store t = Inr (Some thread) \<and> th_scope thread = Agent_Chat agent \<and>
        rs_read_tail store (th_transcript_path thread) lag_recovery_transcript_scan = Inr entries \<and>
        latest_reply entries = Some x)"

lemma recover_thread_reply:
  "is_active gate t \<Longrightarrow> transcript_reply store t agent x \<Longrightarrow> last_relayed st t \<noteq> Some x \<Longrightarrow>
     recover_thread gate store t origin st = note_relayed t x (sink_relay t agent origin x st)"
  by (auto simp: transcript_reply_def recover_thread_def)

lemma transcript_reply_visible: "transcript_reply store t agent x \<Longrightarrow> \<not> blank_text x"
  by (auto simp: transcript_reply_def dest: latest_reply_visible)

text \<open>When the bus lags during a run, the recovery sends the thread's latest persisted reply even if
  it answered an earlier run and has been sent before, and the failure of the run then goes
  unreported; and when the lag falls between the completion of a text and the end of its run, the
  chat gets that text twice.\<close>

theorem lag_repeats_replies:
  assumes held: "is_active (env_gate env) t" "env_in_flight env t = Some origin" "env_order env = [t]"
    and reply: "transcript_reply (env_store env) t agent x"
    and idle: "pending_text st t = None"
  shows "relayed (run_relay_observer
           [(env, Received (thread_event agent t Run_Started)), (env, Lagged n),
            (env, Received (thread_event agent t (Run_Ended reason)))] st) =
         relayed st @ [(t, agent, origin, x)] \<and>
         relayed (run_relay_observer
           [(env, Received (thread_event agent t Run_Started)), (env, Received (thread_event agent t (Text_Complete x))), (env, Lagged n),
            (env, Received (thread_event agent t (Run_Ended reason)))] st) =
         relayed st @ [(t, agent, origin, x), (t, agent, origin, x)]"
proof -
  have snap: "corr_snapshot [t] (env_in_flight env) = [(t, origin)]"
    by (simp add: corr_snapshot_def held)
  note simps = run_relay_observer_def observer_step_def recover_lagged_replies_def snap
    recover_thread_reply [OF held(1) reply] handle_defs thread_event_def held idle Let_def transcript_reply_visible [OF reply]
  show ?thesis by (intro conjI) (simp_all add: simps)
qed

theorem lag_repeats_replies_witness:
  "let store = \<lparr> rs_thread = \<lambda>_. Inr (Some \<lparr> th_scope = Agent_Chat ''a'', th_transcript_path = ''p'' \<rparr>),
        rs_read_tail = \<lambda>_ _. Inr [\<lparr> te_role = Role_Agent ''a'', te_content = [104, 105],
          te_event_type = ''response'', te_hidden_from_user = False \<rparr>] \<rparr> :: unit relay_store;
       env = \<lparr> env_gate = mark_active ''b'' ''t'' gate_new, env_in_flight = [''t'' \<mapsto> (5::int)],
        env_store = store, env_order = [''t''] \<rparr>;
       st = note_relayed ''t'' [104, 105] (sink_relay ''t'' ''a'' 5 [104, 105] relay_new) in
   relayed (run_relay_observer
     [(env, Received (thread_event ''a'' ''t'' Run_Started)), (env, Lagged 3),
      (env, Received (thread_event ''a'' ''t'' (Run_Ended Error_Run)))] st) =
   [(''t'', ''a'', 5, [104, 105]), (''t'', ''a'', 5, [104, 105])]"
  unfolding Let_def
  by (subst conjunct1 [OF lag_repeats_replies [where agent = "''a''" and x = "[104, 105]" and origin = 5]])
     (simp_all add: transcript_reply_def latest_reply_def is_reply_entry_def blank_text_def is_whitespace_def
        is_active_def mark_active_def gate_new_def note_relayed_def sink_relay_def relay_new_def)

section \<open>Typing heartbeats\<close>

text \<open>A heartbeat that the map does not hold is out of reach.\<close>

definition orphaned :: "nat \<Rightarrow> heartbeats \<Rightarrow> bool" where
  "orphaned i h \<longleftrightarrow> i \<in> beats_live h \<and> i \<notin> ran (beats h) \<and> i < beats_next h"

text \<open>A heartbeat that the map holds for thread \<open>t\<close> only.\<close>

definition held_at :: "thread_id \<Rightarrow> nat \<Rightarrow> heartbeats \<Rightarrow> bool" where
  "held_at t i h \<longleftrightarrow> i \<in> beats_live h \<and> i < beats_next h \<and> (\<forall>u. beats h u = Some i \<longrightarrow> u = t)"

lemmas beat_defs = start_typing_heartbeat_def stop_heartbeat_def cancel_beat_def

lemma orphaned_side_effects:
  "orphaned i h \<Longrightarrow> orphaned i (telegram_side_effects m tok ev h)"
  by (auto simp: orphaned_def telegram_side_effects_def beat_defs ran_def
      split: option.splits event_payload.splits sum.splits)

lemma held_at_side_effects:
  "held_at t i h \<Longrightarrow> \<not> (\<exists>reason. ev_thread_id ev = Some t \<and> ev_payload ev = Run_Ended reason) \<Longrightarrow>
     held_at t i (telegram_side_effects m tok ev h)"
  by (auto simp: held_at_def telegram_side_effects_def beat_defs
      split: option.splits event_payload.splits sum.splits if_splits)

lemma start_heartbeat_new:
  "m t = Some c \<Longrightarrow> tok a = Inr (Inr (Some token)) \<Longrightarrow>
     telegram_side_effects m tok (thread_event a t Run_Started) h =
     h\<lparr> beats := (beats h)(t \<mapsto> beats_next h), beats_live := insert (beats_next h) (beats_live h),
        beats_next := Suc (beats_next h) \<rparr>"
  by (simp add: telegram_side_effects_def thread_event_def start_typing_heartbeat_def corr_peek_def)

lemma orphaned_run: "orphaned i (fst s) \<Longrightarrow> orphaned i (fst (fold (telegram_step tok) turns s))"
proof (induction turns arbitrary: s)
  case Nil
  then show ?case by simp
next
  case (Cons turn turns)
  then show ?case
    by (auto simp: telegram_step_def orphaned_side_effects split: prod.splits received.splits)
qed

definition ends_run :: "thread_id \<Rightarrow> ('v, 'e) relay_env \<times> received \<Rightarrow> bool" where
  "ends_run t turn \<longleftrightarrow>
     (case snd turn of
        Received ev \<Rightarrow> ev_thread_id ev = Some t \<and> (case ev_payload ev of Run_Ended _ \<Rightarrow> True | _ \<Rightarrow> False)
      | Lagged _ \<Rightarrow> False)"

lemma held_at_run:
  "held_at t i (fst s) \<Longrightarrow> \<forall>turn\<in>set turns. \<not> ends_run t turn \<Longrightarrow>
     held_at t i (fst (fold (telegram_step tok) turns s))"
proof (induction turns arbitrary: s)
  case Nil
  then show ?case by simp
next
  case (Cons turn turns)
  obtain env r where turn: "turn = (env, r)" by force
  have "held_at t i (fst (telegram_step tok turn s))"
    using Cons.prems turn
    by (auto simp: telegram_step_def ends_run_def intro!: held_at_side_effects split: received.splits)
  with Cons show ?case by simp
qed

text \<open>When the end of a run is lost to a lag, the next run's heartbeat replaces the first one's
  token in the map; the first heartbeat is then never cancelled, whatever events follow and even by
  the observer's shutdown.\<close>

theorem lost_run_end_leaks_heartbeat:
  assumes "env_in_flight env1 t = Some chat1" and "env_in_flight env2 t = Some chat2"
    and "tok a = Inr (Inr (Some token))"
    and "\<forall>turn\<in>set between. \<not> ends_run t turn"
  shows "0 \<in> beats_live (telegram_shutdown (fst (fold (telegram_step tok)
       ((env1, Received (thread_event a t Run_Started)) # between @
        (env2, Received (thread_event a t Run_Started)) # later) (beats_new, st))))"
proof -
  define s1 where "s1 = telegram_step tok (env1, Received (thread_event a t Run_Started)) (beats_new, st)"
  define s2 where "s2 = fold (telegram_step tok) between s1"
  define s3 where "s3 = telegram_step tok (env2, Received (thread_event a t Run_Started)) s2"
  have "held_at t 0 (fst s1)"
    by (simp add: s1_def telegram_step_def start_heartbeat_new [of "env_in_flight env1" t chat1 tok, OF assms(1) assms(3)]
        held_at_def beats_new_def)
  then have "held_at t 0 (fst s2)" unfolding s2_def by (rule held_at_run) (rule assms(4))
  then have "orphaned 0 (fst s3)"
    by (auto simp: s3_def telegram_step_def start_heartbeat_new [of "env_in_flight env2" t chat2 tok, OF assms(2) assms(3)]
        held_at_def orphaned_def ran_def split: if_splits)
  then have "orphaned 0 (fst (fold (telegram_step tok) later s3))" by (rule orphaned_run)
  then show ?thesis
    by (simp add: orphaned_def telegram_shutdown_def s3_def s2_def s1_def)
qed

theorem lost_run_end_leaks_heartbeat_witness:
  "let env = \<lparr> env_gate = gate_new, env_in_flight = [''t'' \<mapsto> (5::int)],
         env_store = \<lparr> rs_thread = \<lambda>_. Inl (), rs_read_tail = \<lambda>_ _. Inl () \<rparr>, env_order = [] \<rparr> in
   0 \<in> beats_live (telegram_shutdown (fst (fold
       (telegram_step (\<lambda>_. Inr (Inr (Some ''token'')) :: unit + (unit + string option)))
       ((env, Received (thread_event ''a'' ''t'' Run_Started)) # [(env, Lagged 2)] @
        (env, Received (thread_event ''a'' ''t'' Run_Started)) #
        [(env, Received (thread_event ''a'' ''t'' (Run_Ended Completed_Run)))]) (beats_new, relay_new))))"
  unfolding Let_def
  by (rule lost_run_end_leaks_heartbeat [where ?chat1.0 = 5 and ?chat2.0 = 5 and token = "''token''"])
     (simp_all add: ends_run_def)

section \<open>The lease gate\<close>

text \<open>C34: Whatever sequence of calls the gate gets, every answer of \<open>is_active\<close> is that of the plain map
  that gives each thread the binding it was last marked with; afterwards its two indexes agree.\<close>

theorem lease_gate_refines_map:
  "fst (run_calls gate_step ops gate_new) = fst (run_calls gate_spec_step ops Map.empty) \<and>
   gate_ok (snd (run_calls gate_step ops gate_new))"
proof -
  have "binding_by_thread gate_new = Map.empty" by (simp add: gate_new_def)
  then show ?thesis
    using gate.answers_refine [OF gate_ok_new] gate.inv_run [OF gate_ok_new] by simp
qed
end
