(* ===== verification/Channel_Lease.thy ===== *)
theory Channel_Lease
  imports Simulation Channel_Gate
begin

text \<open>
  The single-writer lease of a channel binding: \<open>ao-protocol/src/channel_lease.rs\<close> and
  \<open>ao-persistence/src/channel_lease_store.rs\<close>. First the store's calls performed one at a time, with
  the table of leases they refine; then the same calls as sequences of file-system actions of several
  processes, which interleave.

  A lease file holds a lease or is empty: \<open>try_claim\<close> creates it empty before it writes the record.
  Times and durations are nanoseconds.
\<close>

section \<open>Leases\<close>

record channel_lease =
  cl_owner_id :: string
  cl_claimed_at :: int
  cl_expires_at :: int

definition is_expired :: "channel_lease \<Rightarrow> int \<Rightarrow> bool" where
  "is_expired lease now \<longleftrightarrow> cl_expires_at lease \<le> now"

definition fresh_lease :: "string \<Rightarrow> int \<Rightarrow> int \<Rightarrow> channel_lease" where
  "fresh_lease owner ttl now =
     \<lparr> cl_owner_id = owner, cl_claimed_at = now, cl_expires_at = now + ttl \<rparr>"

text \<open>The decision under the reclaim lock: refused, or the lease to write.\<close>

definition reclaim :: "channel_lease option \<Rightarrow> string \<Rightarrow> int \<Rightarrow> int \<Rightarrow> channel_lease option" where
  "reclaim current owner ttl now =
     (let can_claim = (case current of
            None \<Rightarrow> True
          | Some lease \<Rightarrow> cl_owner_id lease = owner \<or> is_expired lease now);
          claimed_at = (case current of
            Some lease \<Rightarrow> if cl_owner_id lease = owner then cl_claimed_at lease else now
          | None \<Rightarrow> now)
      in if can_claim
         then Some \<lparr> cl_owner_id = owner, cl_claimed_at = claimed_at, cl_expires_at = now + ttl \<rparr>
         else None)"

text \<open>The heartbeat: the renewal of a live lease of one's own, without the lock.\<close>

definition heartbeat :: "channel_lease option \<Rightarrow> string \<Rightarrow> int \<Rightarrow> int \<Rightarrow> channel_lease option" where
  "heartbeat current owner ttl now =
     (case current of
        Some lease \<Rightarrow>
          if cl_owner_id lease = owner \<and> \<not> is_expired lease now
          then Some \<lparr> cl_owner_id = owner, cl_claimed_at = cl_claimed_at lease, cl_expires_at = now + ttl \<rparr>
          else None
      | None \<Rightarrow> None)"

section \<open>The store, one call at a time\<close>

type_synonym lease_shard = "string \<times> binding_id"

text \<open>The lease files of the data root, and the faults of opening, locking, reading and writing.\<close>

record 'e lease_store =
  ls_files :: "lease_shard \<rightharpoonup> channel_lease option"
  ls_open_fault :: "lease_shard \<Rightarrow> 'e option"
  ls_lock_fault :: "lease_shard \<Rightarrow> 'e option"
  ls_read_fault :: "lease_shard \<Rightarrow> 'e option"
  ls_write_fault :: "lease_shard \<Rightarrow> 'e option"

definition read_lease :: "lease_shard \<Rightarrow> ('e lease_store, 'e, channel_lease option) sm" where
  "read_lease sh =
     (\<lambda>st. case ls_files st sh of
        None \<Rightarrow> (Inr None, st)
      | Some content \<Rightarrow> (case ls_read_fault st sh of Some e \<Rightarrow> (Inl e, st) | None \<Rightarrow> (Inr content, st)))"

definition write_lease :: "lease_shard \<Rightarrow> channel_lease \<Rightarrow> ('e lease_store, 'e, unit) sm" where
  "write_lease sh lease =
     (\<lambda>st. case ls_write_fault st sh of
        Some e \<Rightarrow> (Inl e, st)
      | None \<Rightarrow> (Inr (), st\<lparr> ls_files := (ls_files st)(sh \<mapsto> Some lease) \<rparr>))"

definition lease_get :: "lease_shard \<Rightarrow> ('e lease_store, 'e, channel_lease option) sm" where
  "lease_get sh = read_lease sh"

definition reclaim_locked :: "lease_shard \<Rightarrow> string \<Rightarrow> int \<Rightarrow> int \<Rightarrow> ('e lease_store, 'e, bool) sm" where
  "reclaim_locked sh owner ttl now =
     (\<lambda>st. case ls_lock_fault st sh of
        Some e \<Rightarrow> (Inl e, st)
      | None \<Rightarrow>
          bindE (read_lease sh) (\<lambda>current.
            case reclaim current owner ttl now of
              None \<Rightarrow> ok False
            | Some lease \<Rightarrow> thenE (write_lease sh lease) (ok True)) st)"

text \<open>
  A file that \<open>create_new\<close> made stays behind, empty, when the record cannot be written to it. A read
  error on the fast path is ignored.
\<close>

definition try_claim :: "lease_shard \<Rightarrow> string \<Rightarrow> int \<Rightarrow> int \<Rightarrow> ('e lease_store, 'e, bool) sm" where
  "try_claim sh owner ttl now =
     (\<lambda>st. case ls_open_fault st sh of
        Some e \<Rightarrow> (Inl e, st)
      | None \<Rightarrow>
          (case ls_files st sh of
             None \<Rightarrow>
               thenE (write_lease sh (fresh_lease owner ttl now)) (ok True)
                 (st\<lparr> ls_files := (ls_files st)(sh \<mapsto> None) \<rparr>)
           | Some _ \<Rightarrow>
               (case fst (read_lease sh st) of
                  Inr current \<Rightarrow>
                    (case heartbeat current owner ttl now of
                       Some renewed \<Rightarrow> thenE (write_lease sh renewed) (ok True) st
                     | None \<Rightarrow> reclaim_locked sh owner ttl now st)
                | Inl _ \<Rightarrow> reclaim_locked sh owner ttl now st)))"

definition lease_release :: "lease_shard \<Rightarrow> string \<Rightarrow> ('e lease_store, 'e, unit) sm" where
  "lease_release sh owner =
     bindE (read_lease sh) (\<lambda>current.
       case current of
         Some lease \<Rightarrow>
           if cl_owner_id lease = owner
           then (\<lambda>st. case ls_write_fault st sh of
                    Some e \<Rightarrow> (Inl e, st)
                  | None \<Rightarrow> (Inr (), st\<lparr> ls_files := (ls_files st)(sh := None) \<rparr>))
           else ok ()
       | None \<Rightarrow> ok ())"

section \<open>The table of leases it refines\<close>

datatype lease_op =
    Get_Lease lease_shard
  | Try_Claim lease_shard string int int
  | Release_Lease lease_shard string

datatype 'e lease_answer =
    Lease_Read "'e + channel_lease option"
  | Lease_Claimed "'e + bool"
  | Lease_Released "'e + unit"

fun lease_step :: "lease_op \<Rightarrow> 'e lease_store \<Rightarrow> 'e lease_answer \<times> 'e lease_store" where
  "lease_step (Get_Lease sh) st = map_prod Lease_Read id (lease_get sh st)"
| "lease_step (Try_Claim sh owner ttl now) st = map_prod Lease_Claimed id (try_claim sh owner ttl now st)"
| "lease_step (Release_Lease sh owner) st = map_prod Lease_Released id (lease_release sh owner st)"

text \<open>
  The promise: a claim is granted when there is no lease, it is one's own, or it has expired; a
  renewal keeps \<open>claimed_at\<close>; a release removes one's own lease only.
\<close>

fun lease_spec :: "lease_op \<Rightarrow> (lease_shard \<rightharpoonup> channel_lease) \<Rightarrow> 'e lease_answer \<times> (lease_shard \<rightharpoonup> channel_lease)" where
  "lease_spec (Get_Lease sh) m = (Lease_Read (Inr (m sh)), m)"
| "lease_spec (Try_Claim sh owner ttl now) m =
     (case m sh of
        None \<Rightarrow> (Lease_Claimed (Inr True), m(sh \<mapsto> fresh_lease owner ttl now))
      | Some lease \<Rightarrow>
          if cl_owner_id lease = owner
          then (Lease_Claimed (Inr True), m(sh \<mapsto> lease\<lparr> cl_expires_at := now + ttl \<rparr>))
          else if cl_expires_at lease \<le> now
          then (Lease_Claimed (Inr True), m(sh \<mapsto> fresh_lease owner ttl now))
          else (Lease_Claimed (Inr False), m))"
| "lease_spec (Release_Lease sh owner) m =
     (Lease_Released (Inr ()),
      if (case m sh of Some lease \<Rightarrow> cl_owner_id lease = owner | None \<Rightarrow> False) then m(sh := None) else m)"

definition lease_table :: "'e lease_store \<Rightarrow> (lease_shard \<rightharpoonup> channel_lease)" where
  "lease_table st = (\<lambda>sh. case ls_files st sh of Some content \<Rightarrow> content | None \<Rightarrow> None)"

definition store_sound :: "'e lease_store \<Rightarrow> bool" where
  "store_sound st \<longleftrightarrow>
     ls_open_fault st = (\<lambda>_. None) \<and> ls_lock_fault st = (\<lambda>_. None) \<and>
     ls_read_fault st = (\<lambda>_. None) \<and> ls_write_fault st = (\<lambda>_. None)"

definition lease_store_new :: "'e lease_store" where
  "lease_store_new =
     \<lparr> ls_files = Map.empty, ls_open_fault = \<lambda>_. None, ls_lock_fault = \<lambda>_. None,
       ls_read_fault = \<lambda>_. None, ls_write_fault = \<lambda>_. None \<rparr>"

lemmas lease_call_defs = lease_get_def try_claim_def lease_release_def reclaim_locked_def read_lease_def
  write_lease_def heartbeat_def reclaim_def fresh_lease_def is_expired_def store_sound_def bindE_def ok_def

interpretation lease: total_simulation lease_step lease_spec lease_table store_sound
proof unfold_locales
  show "store_sound (snd (lease_step op st))" if "store_sound st" for op and st :: "'e lease_store"
    using that
    by (cases op) (auto simp: lease_call_defs Let_def split: option.splits)
  show "lease_spec op (lease_table st) = (fst (lease_step op st), lease_table (snd (lease_step op st)))"
    if "store_sound st" for op and st :: "'e lease_store"
    using that
    by (cases op)
       (auto simp: lease_call_defs lease_table_def fun_eq_iff Let_def split: option.splits)
qed

end
