(* ===== verification/Lease_Race.thy ===== *)
theory Lease_Race
  imports Channel_Lease
begin

text \<open>
  The lease store's calls as the file-system actions of several processes on one binding's lease file
  and its reclaim lock. An action of the scheduler lets one process perform its next file-system call,
  makes that call fail, or lets time pass; a process that crashes is one that is not scheduled again.

  A path names a file by an inode: the record that a fresh claim writes goes to the file it created,
  also when a rename has since put another one at the path. A read is one action, and so is the
  write of the temporary file with its rename.
\<close>

section \<open>Processes\<close>

datatype lease_call = Claim_Call | Release_Call

datatype lease_result = Claimed bool | Released | Io_Error

text \<open>
  Where a call stands. \<open>try_claim\<close>: creating the lease file; writing the record into the file just
  created; reading for the heartbeat; writing the renewal; creating the lock file; looking at the age
  of a lock file that exists; removing a stale one; waiting; reading under the lock; writing under the
  lock; dropping the guard. \<open>release\<close>: reading, removing.
\<close>

datatype lease_pc =
    Create_Lease
  | Write_Fresh nat
  | Read_Heartbeat
  | Write_Heartbeat channel_lease
  | Create_Lock
  | Check_Lock
  | Break_Lock
  | Await_Lock
  | Read_Locked
  | Write_Locked channel_lease
  | Drop_Lock lease_result
  | Read_Release
  | Remove_Lease
  | Finished lease_result

record lease_proc =
  pr_pc :: lease_pc
  pr_owner :: string
  pr_ttl :: int
  pr_now :: int
  pr_deadline :: int

text \<open>The file at the lease path with its inode, the lock file's modification time, the clock.\<close>

record lease_sys =
  sy_file :: "(nat \<times> channel_lease option) option"
  sy_lock :: "int option"
  sy_next_inode :: nat
  sy_clock :: int
  sy_procs :: "nat \<Rightarrow> lease_proc"

definition reclaim_lock_stale_after :: int where
  "reclaim_lock_stale_after = 5 * 1000000000"

definition reclaim_lock_wait_margin :: int where
  "reclaim_lock_wait_margin = 2 * 1000000000"

definition reclaim_lock_wait_budget :: int where
  "reclaim_lock_wait_budget = reclaim_lock_stale_after + reclaim_lock_wait_margin"

text \<open>A call at its beginning; the lock's deadline is set when the lock is first asked for.\<close>

definition start_call :: "lease_call \<Rightarrow> string \<Rightarrow> int \<Rightarrow> int \<Rightarrow> lease_proc" where
  "start_call call owner ttl now =
     \<lparr> pr_pc = (case call of Claim_Call \<Rightarrow> Create_Lease | Release_Call \<Rightarrow> Read_Release),
       pr_owner = owner, pr_ttl = ttl, pr_now = now, pr_deadline = 0 \<rparr>"

definition set_pc :: "nat \<Rightarrow> lease_pc \<Rightarrow> lease_sys \<Rightarrow> lease_sys" where
  "set_pc p pc sy = sy\<lparr> sy_procs := (sy_procs sy)(p := (sy_procs sy p)\<lparr> pr_pc := pc \<rparr>) \<rparr>"

definition enter_lock_loop :: "nat \<Rightarrow> lease_sys \<Rightarrow> lease_sys" where
  "enter_lock_loop p sy =
     sy\<lparr> sy_procs := (sy_procs sy)(p := (sy_procs sy p)
           \<lparr> pr_pc := Create_Lock, pr_deadline := sy_clock sy + reclaim_lock_wait_budget \<rparr>) \<rparr>"

text \<open>\<open>read\<close>: no file and an empty file both read as no lease.\<close>

definition file_lease :: "lease_sys \<Rightarrow> channel_lease option" where
  "file_lease sy = (case sy_file sy of Some (i, content) \<Rightarrow> content | None \<Rightarrow> None)"

text \<open>\<open>write\<close>: a new file is renamed over the path.\<close>

definition rename_over :: "channel_lease \<Rightarrow> lease_sys \<Rightarrow> lease_sys" where
  "rename_over lease sy =
     sy\<lparr> sy_file := Some (sy_next_inode sy, Some lease), sy_next_inode := Suc (sy_next_inode sy) \<rparr>"

text \<open>Writing through an open file reaches the path only while the path still names it.\<close>

definition write_inode :: "nat \<Rightarrow> channel_lease \<Rightarrow> lease_sys \<Rightarrow> lease_sys" where
  "write_inode i lease sy =
     (case sy_file sy of
        Some (j, content) \<Rightarrow> if i = j then sy\<lparr> sy_file := Some (j, Some lease) \<rparr> else sy
      | None \<Rightarrow> sy)"

section \<open>One file-system action of a process\<close>

text \<open>The loop of \<open>acquire_reclaim_lock\<close>.\<close>

definition lock_step :: "nat \<Rightarrow> lease_sys \<Rightarrow> lease_sys" where
  "lock_step p sy =
     (case pr_pc (sy_procs sy p) of
        Create_Lock \<Rightarrow>
          (case sy_lock sy of
             None \<Rightarrow> set_pc p Read_Locked (sy\<lparr> sy_lock := Some (sy_clock sy) \<rparr>)
           | Some _ \<Rightarrow> set_pc p Check_Lock sy)
      | Check_Lock \<Rightarrow>
          (case sy_lock sy of
             None \<Rightarrow> set_pc p Create_Lock sy
           | Some mtime \<Rightarrow>
               if sy_clock sy - mtime > reclaim_lock_stale_after then set_pc p Break_Lock sy
               else set_pc p Await_Lock sy)
      | Break_Lock \<Rightarrow> set_pc p Create_Lock (sy\<lparr> sy_lock := None \<rparr>)
      | Await_Lock \<Rightarrow>
          if pr_deadline (sy_procs sy p) \<le> sy_clock sy then set_pc p (Finished Io_Error) sy
          else set_pc p Create_Lock sy
      | _ \<Rightarrow> sy)"

text \<open>\<open>release\<close>.\<close>

definition release_step :: "nat \<Rightarrow> lease_sys \<Rightarrow> lease_sys" where
  "release_step p sy =
     (case pr_pc (sy_procs sy p) of
        Read_Release \<Rightarrow>
          (case file_lease sy of
             Some lease \<Rightarrow> if cl_owner_id lease = pr_owner (sy_procs sy p) then set_pc p Remove_Lease sy
                           else set_pc p (Finished Released) sy
           | None \<Rightarrow> set_pc p (Finished Released) sy)
      | Remove_Lease \<Rightarrow> set_pc p (Finished Released) (sy\<lparr> sy_file := None \<rparr>)
      | _ \<Rightarrow> sy)"

text \<open>\<open>try_claim\<close>, with the drop of its guard.\<close>

definition proc_step :: "nat \<Rightarrow> lease_sys \<Rightarrow> lease_sys" where
  "proc_step p sy =
     (let pr = sy_procs sy p; owner = pr_owner pr; ttl = pr_ttl pr; now = pr_now pr in
      case pr_pc pr of
        Create_Lease \<Rightarrow>
          (case sy_file sy of
             None \<Rightarrow>
               set_pc p (Write_Fresh (sy_next_inode sy))
                 (sy\<lparr> sy_file := Some (sy_next_inode sy, None), sy_next_inode := Suc (sy_next_inode sy) \<rparr>)
           | Some _ \<Rightarrow> set_pc p Read_Heartbeat sy)
      | Write_Fresh i \<Rightarrow> set_pc p (Finished (Claimed True)) (write_inode i (fresh_lease owner ttl now) sy)
      | Read_Heartbeat \<Rightarrow>
          (case heartbeat (file_lease sy) owner ttl now of
             Some renewed \<Rightarrow> set_pc p (Write_Heartbeat renewed) sy
           | None \<Rightarrow> enter_lock_loop p sy)
      | Write_Heartbeat renewed \<Rightarrow> set_pc p (Finished (Claimed True)) (rename_over renewed sy)
      | Create_Lock \<Rightarrow> lock_step p sy
      | Check_Lock \<Rightarrow> lock_step p sy
      | Break_Lock \<Rightarrow> lock_step p sy
      | Await_Lock \<Rightarrow> lock_step p sy
      | Read_Locked \<Rightarrow>
          (case reclaim (file_lease sy) owner ttl now of
             None \<Rightarrow> set_pc p (Drop_Lock (Claimed False)) sy
           | Some lease \<Rightarrow> set_pc p (Write_Locked lease) sy)
      | Write_Locked lease \<Rightarrow> set_pc p (Drop_Lock (Claimed True)) (rename_over lease sy)
      | Drop_Lock result \<Rightarrow> set_pc p (Finished result) (sy\<lparr> sy_lock := None \<rparr>)
      | Read_Release \<Rightarrow> release_step p sy
      | Remove_Lease \<Rightarrow> release_step p sy
      | Finished result \<Rightarrow> sy)"

text \<open>
  The same action failing: an error under the lock still drops the guard, an error of the heartbeat's
  read falls through to the lock, a failed removal of a lock file is ignored.
\<close>

definition fault_step :: "nat \<Rightarrow> lease_sys \<Rightarrow> lease_sys" where
  "fault_step p sy =
     (case pr_pc (sy_procs sy p) of
        Read_Heartbeat \<Rightarrow> enter_lock_loop p sy
      | Check_Lock \<Rightarrow> set_pc p Create_Lock sy
      | Break_Lock \<Rightarrow> set_pc p Create_Lock sy
      | Await_Lock \<Rightarrow> sy
      | Read_Locked \<Rightarrow> set_pc p (Drop_Lock Io_Error) sy
      | Write_Locked lease \<Rightarrow> set_pc p (Drop_Lock Io_Error) sy
      | Drop_Lock result \<Rightarrow> set_pc p (Finished result) sy
      | Finished result \<Rightarrow> sy
      | _ \<Rightarrow> set_pc p (Finished Io_Error) sy)"

datatype action = Act nat | Fault nat | Elapse nat

fun action_step :: "action \<Rightarrow> lease_sys \<Rightarrow> lease_sys" where
  "action_step (Act p) sy = proc_step p sy"
| "action_step (Fault p) sy = fault_step p sy"
| "action_step (Elapse d) sy = sy\<lparr> sy_clock := sy_clock sy + int d \<rparr>"

definition schedule :: "action list \<Rightarrow> lease_sys \<Rightarrow> lease_sys" where
  "schedule acts sy = fold action_step acts sy"

text \<open>The processes whose claim has been granted.\<close>

definition granted :: "lease_sys \<Rightarrow> nat \<Rightarrow> bool" where
  "granted sy p \<longleftrightarrow> pr_pc (sy_procs sy p) = Finished (Claimed True)"

text \<open>A system of calls about to start.\<close>

definition sys_of :: "channel_lease option \<Rightarrow> int \<Rightarrow> (nat \<Rightarrow> lease_proc) \<Rightarrow> lease_sys" where
  "sys_of lease clock procs =
     \<lparr> sy_file = (case lease of None \<Rightarrow> None | Some l \<Rightarrow> Some (0, Some l)), sy_lock = None,
       sy_next_inode = 1, sy_clock = clock, sy_procs = procs \<rparr>"

end
