(* ===== verification/Lease_Properties.thy ===== *)
theory Lease_Properties
  imports Lease_Race
begin

text \<open>
  Properties of the lease store: its calls one at a time refine a table of leases; under interleaving,
  reclaiming an existing lease under the lock is exclusive within the lock's staleness bound, while
  the first claim, the unlocked heartbeat and the release are not.
\<close>

section \<open>Calls one at a time\<close>

text \<open>C31: Without faults, whatever calls are made one after another, the store answers every one of
  them as the table of leases does: a claim is granted exactly when the binding has no lease, the
  claimant's own, or an expired one; a release removes the caller's own lease only.\<close>

theorem lease_store_refines_table:
  "fst (run_calls lease_step ops (lease_store_new :: 'e lease_store)) = fst (run_calls lease_spec ops Map.empty)"
proof -
  have new: "store_sound (lease_store_new :: 'e lease_store)" "lease_table (lease_store_new :: 'e lease_store) = Map.empty"
    by (auto simp: store_sound_def lease_store_new_def lease_table_def)
  show ?thesis using lease.answers_refine [OF new(1)] new(2) by simp
qed

text \<open>The calls of others on one binding before a lease expires.\<close>

fun before_expiry :: "lease_shard \<Rightarrow> string \<Rightarrow> int \<Rightarrow> lease_op \<Rightarrow> bool" where
  "before_expiry sh owner expiry (Try_Claim sh' o' ttl now) \<longleftrightarrow> sh' = sh \<and> o' \<noteq> owner \<and> now < expiry"
| "before_expiry sh owner expiry (Release_Lease sh' o') \<longleftrightarrow> sh' = sh \<and> o' \<noteq> owner"
| "before_expiry sh owner expiry (Get_Lease sh') \<longleftrightarrow> True"

lemma lease_spec_keeps:
  "m sh = Some lease \<Longrightarrow> before_expiry sh (cl_owner_id lease) (cl_expires_at lease) op \<Longrightarrow>
     snd (lease_spec op m :: 'e lease_answer \<times> _) = m \<and>
     fst (lease_spec op m) \<noteq> (Lease_Claimed (Inr True) :: 'e lease_answer)"
  by (cases op) auto

lemma lease_spec_keeps_run:
  "m sh = Some lease \<Longrightarrow> list_all (before_expiry sh (cl_owner_id lease) (cl_expires_at lease)) ops \<Longrightarrow>
     snd (run_calls lease_spec ops m :: 'e lease_answer list \<times> _) = m \<and>
     Lease_Claimed (Inr True) \<notin> set (fst (run_calls lease_spec ops m :: 'e lease_answer list \<times> _))"
proof (induction ops)
  case Nil
  then show ?case by simp
next
  case (Cons op ops)
  then have "snd (lease_spec op m :: 'e lease_answer \<times> _) = m"
    "fst (lease_spec op m) \<noteq> (Lease_Claimed (Inr True) :: 'e lease_answer)"
    using lease_spec_keeps [of m sh lease op] by auto
  with Cons show ?case by (cases "lease_spec op m :: 'e lease_answer \<times> _") (auto split: prod.splits)
qed

section \<open>Reclaiming under the lock\<close>

fun section_pc :: "lease_pc \<Rightarrow> bool" where
  "section_pc Read_Locked = True"
| "section_pc (Write_Locked _) = True"
| "section_pc (Drop_Lock _) = True"
| "section_pc _ = False"

fun plain_pc :: "lease_pc \<Rightarrow> bool" where
  "plain_pc (Write_Fresh _) = False"
| "plain_pc (Write_Heartbeat _) = False"
| "plain_pc Break_Lock = False"
| "plain_pc Read_Release = False"
| "plain_pc Remove_Lease = False"
| "plain_pc _ = True"

definition pcs :: "lease_sys \<Rightarrow> nat \<Rightarrow> lease_pc" where
  "pcs sy p = pr_pc (sy_procs sy p)"

definition has_won :: "lease_sys \<Rightarrow> nat \<Rightarrow> bool" where
  "has_won sy p \<longleftrightarrow>
     pcs sy p = Drop_Lock (Claimed True) \<or> pcs sy p = Finished (Claimed True)"

text \<open>The processes keep their arguments and stay on the claim's contested path.\<close>

definition same_args :: "(nat \<Rightarrow> lease_proc) \<Rightarrow> lease_sys \<Rightarrow> bool" where
  "same_args procs sy \<longleftrightarrow>
     (\<forall>p. pr_owner (sy_procs sy p) = pr_owner (procs p) \<and> pr_ttl (sy_procs sy p) = pr_ttl (procs p) \<and>
          pr_now (sy_procs sy p) = pr_now (procs p))"

definition lock_inv :: "int \<Rightarrow> int \<Rightarrow> int option \<Rightarrow> (nat \<Rightarrow> lease_pc) \<Rightarrow> bool" where
  "lock_inv start clock lock f \<longleftrightarrow>
     start \<le> clock \<and> (\<forall>m. lock = Some m \<longrightarrow> start \<le> m) \<and> (\<forall>p. plain_pc (f p)) \<and>
     (\<forall>p. section_pc (f p) \<longrightarrow> lock \<noteq> None) \<and>
     (\<forall>p q. section_pc (f p) \<longrightarrow> section_pc (f q) \<longrightarrow> p = q)"

definition written_by :: "lease_proc \<Rightarrow> channel_lease \<Rightarrow> bool" where
  "written_by pr lease \<longleftrightarrow>
     cl_owner_id lease = pr_owner pr \<and> cl_expires_at lease = pr_now pr + pr_ttl pr"

definition file_inv :: "channel_lease \<Rightarrow> (nat \<Rightarrow> lease_proc) \<Rightarrow> lease_sys \<Rightarrow> bool" where
  "file_inv old procs sy \<longleftrightarrow>
     (\<exists>i lease. sy_file sy = Some (i, Some lease) \<and>
        (lease = old \<and> (\<forall>p. \<not> has_won sy p) \<or>
         (\<exists>w. has_won sy w \<and> (\<forall>p. has_won sy p \<longrightarrow> p = w) \<and> written_by (procs w) lease \<and>
            (\<forall>p l. pcs sy p \<noteq> Write_Locked l)))) \<and>
     (\<forall>p l. pcs sy p = Write_Locked l \<longrightarrow> written_by (procs p) l)"

text \<open>The claimants: distinct owners, none the old lease's, whose clock readings lie within every
  granted lease's life.\<close>

definition rivals :: "channel_lease \<Rightarrow> (nat \<Rightarrow> lease_proc) \<Rightarrow> bool" where
  "rivals old procs \<longleftrightarrow>
     (\<forall>p. pr_pc (procs p) = Create_Lease \<and> pr_owner (procs p) \<noteq> cl_owner_id old) \<and>
     (\<forall>p q. p \<noteq> q \<longrightarrow> pr_owner (procs p) \<noteq> pr_owner (procs q)) \<and>
     (\<forall>p q. pr_now (procs p) < pr_now (procs q) + pr_ttl (procs q))"

lemma set_pc_simps [simp]:
  "sy_file (set_pc p pc sy) = sy_file sy" "sy_lock (set_pc p pc sy) = sy_lock sy"
  "sy_clock (set_pc p pc sy) = sy_clock sy" "sy_next_inode (set_pc p pc sy) = sy_next_inode sy"
  "sy_procs (set_pc p pc sy) = (sy_procs sy)(p := (sy_procs sy p)\<lparr> pr_pc := pc \<rparr>)"
  by (simp_all add: set_pc_def)

lemma enter_lock_loop_simps [simp]:
  "sy_file (enter_lock_loop p sy) = sy_file sy" "sy_lock (enter_lock_loop p sy) = sy_lock sy"
  "sy_clock (enter_lock_loop p sy) = sy_clock sy"
  "pr_pc (sy_procs (enter_lock_loop p sy) q) = (if q = p then Create_Lock else pr_pc (sy_procs sy q))"
  "pr_owner (sy_procs (enter_lock_loop p sy) q) = pr_owner (sy_procs sy q)"
  "pr_ttl (sy_procs (enter_lock_loop p sy) q) = pr_ttl (sy_procs sy q)"
  "pr_now (sy_procs (enter_lock_loop p sy) q) = pr_now (sy_procs sy q)"
  by (auto simp: enter_lock_loop_def)

lemma rename_over_simps [simp]:
  "sy_file (rename_over l sy) = Some (sy_next_inode sy, Some l)" "sy_lock (rename_over l sy) = sy_lock sy"
  "sy_clock (rename_over l sy) = sy_clock sy" "sy_procs (rename_over l sy) = sy_procs sy"
  by (simp_all add: rename_over_def)

lemma write_inode_simps [simp]:
  "sy_lock (write_inode i l sy) = sy_lock sy" "sy_clock (write_inode i l sy) = sy_clock sy"
  "sy_procs (write_inode i l sy) = sy_procs sy"
  by (auto simp: write_inode_def split: option.splits prod.splits)

lemma args_call [simp]:
  "pr_owner (sy_procs (lock_step p sy) q) = pr_owner (sy_procs sy q)"
  "pr_ttl (sy_procs (lock_step p sy) q) = pr_ttl (sy_procs sy q)"
  "pr_now (sy_procs (lock_step p sy) q) = pr_now (sy_procs sy q)"
  "pr_owner (sy_procs (release_step p sy) q) = pr_owner (sy_procs sy q)"
  "pr_ttl (sy_procs (release_step p sy) q) = pr_ttl (sy_procs sy q)"
  "pr_now (sy_procs (release_step p sy) q) = pr_now (sy_procs sy q)"
  by (auto simp: lock_step_def release_step_def split: lease_pc.splits option.splits)

lemma same_args_step: "same_args procs sy \<Longrightarrow> same_args procs (action_step a sy)"
proof (cases a)
  case (Act p)
  assume "same_args procs sy"
  then show ?thesis
    by (auto simp: Act same_args_def proc_step_def Let_def split: lease_pc.splits option.splits)
next
  case (Fault p)
  assume "same_args procs sy"
  then show ?thesis
    by (auto simp: Fault same_args_def fault_step_def split: lease_pc.splits)
qed (simp add: same_args_def)

text \<open>Rivals never renew: the lease in the file is the old one or another process's.\<close>

lemma no_heartbeat:
  assumes "file_inv old procs sy" "same_args procs sy" "rivals old procs" "\<not> has_won sy p"
  shows "heartbeat (file_lease sy) (pr_owner (sy_procs sy p)) ttl now = None"
proof -
  obtain i lease where f: "sy_file sy = Some (i, Some lease)"
    and cs: "lease = old \<or> (\<exists>w. has_won sy w \<and> written_by (procs w) lease)"
    using assms(1) by (auto simp: file_inv_def)
  have "cl_owner_id lease \<noteq> pr_owner (sy_procs sy p)"
    using cs assms(2-4) by (metis rivals_def same_args_def written_by_def)
  with f show ?thesis by (simp add: heartbeat_def file_lease_def)
qed

text \<open>Once a process has won, every other one that reads is refused.\<close>

lemma reclaim_refused:
  assumes "written_by (procs w) lease" "same_args procs sy" "rivals old procs" "p \<noteq> w"
  shows "reclaim (Some lease) (pr_owner (sy_procs sy p)) (pr_ttl (sy_procs sy p)) (pr_now (sy_procs sy p)) = None"
proof -
  have "cl_owner_id lease \<noteq> pr_owner (sy_procs sy p)" "\<not> is_expired lease (pr_now (sy_procs sy p))"
    using assms by (metis rivals_def same_args_def written_by_def)
      (use assms in \<open>simp add: rivals_def same_args_def written_by_def is_expired_def not_le\<close>)
  then show ?thesis by (simp add: reclaim_def)
qed

lemma reclaim_written_by:
  "same_args procs sy \<Longrightarrow>
     reclaim cur (pr_owner (sy_procs sy p)) (pr_ttl (sy_procs sy p)) (pr_now (sy_procs sy p)) = Some l \<Longrightarrow>
     written_by (procs p) l"
  by (auto simp: reclaim_def same_args_def written_by_def Let_def split: option.splits if_splits)

text \<open>The four ways an action moves a process with respect to the locked section.\<close>

lemma lock_inv_outside:
  "lock_inv start clock lock f \<Longrightarrow> plain_pc pc \<Longrightarrow> \<not> section_pc pc \<Longrightarrow> lock_inv start clock lock (f(p := pc))"
  by (auto simp: lock_inv_def)

lemma lock_inv_stay:
  "lock_inv start clock lock f \<Longrightarrow> section_pc (f p) \<Longrightarrow> plain_pc pc \<Longrightarrow> lock_inv start clock lock (f(p := pc))"
  by (simp add: lock_inv_def) metis

lemma lock_inv_enter:
  "lock_inv start clock None f \<Longrightarrow> plain_pc pc \<Longrightarrow> lock_inv start clock (Some clock) (f(p := pc))"
  by (simp add: lock_inv_def)

lemma lock_inv_exit:
  "lock_inv start clock lock f \<Longrightarrow> section_pc (f p) \<Longrightarrow> plain_pc pc \<Longrightarrow> \<not> section_pc pc \<Longrightarrow>
     lock_inv start clock None (f(p := pc))"
  by (simp add: lock_inv_def) metis

lemmas lock_inv_moves = lock_inv_outside lock_inv_stay lock_inv_enter lock_inv_exit

abbreviation lock_ok :: "int \<Rightarrow> lease_sys \<Rightarrow> bool" where
  "lock_ok start sy \<equiv> lock_inv start (sy_clock sy) (sy_lock sy) (pcs sy)"

lemma pcs_simps [simp]:
  "pcs (set_pc p pc sy) = (pcs sy)(p := pc)" "pcs (enter_lock_loop p sy) = (pcs sy)(p := Create_Lock)"
  "pcs (rename_over l sy) = pcs sy" "pcs (write_inode i l sy) = pcs sy"
  "pcs (sy\<lparr> sy_lock := lk \<rparr>) = pcs sy" "pcs (sy\<lparr> sy_file := fl \<rparr>) = pcs sy"
  by (auto simp: pcs_def fun_eq_iff)

lemma lock_inv_act:
  assumes inv: "lock_ok start sy" "file_inv old procs sy" "same_args procs sy" "rivals old procs"
    and time: "sy_clock sy \<le> start + reclaim_lock_stale_after"
  shows "lock_ok start (proc_step p sy)"
proof -
  have present: "sy_file sy \<noteq> None" using inv(2) by (auto simp: file_inv_def)
  have pl: "plain_pc (pcs sy p)" using inv(1) by (simp add: lock_inv_def)
  note move = proc_step_def lock_step_def release_step_def Let_def pcs_def [of sy p, symmetric]
  show ?thesis
  proof (cases "pcs sy p")
    case Create_Lease
    with present inv(1) show ?thesis by (auto simp: move intro!: lock_inv_outside)
  next
    case Read_Heartbeat
    then have "\<not> has_won sy p" by (simp add: has_won_def pcs_def)
    from no_heartbeat [OF inv(2-4) this] Read_Heartbeat inv(1) show ?thesis
      by (simp add: move lock_inv_outside)
  next
    case Create_Lock
    then show ?thesis using inv(1)
      by (cases "sy_lock sy") (simp_all add: move lock_inv_outside lock_inv_enter)
  next
    case Check_Lock
    have "\<not> sy_clock sy - m > reclaim_lock_stale_after" if "sy_lock sy = Some m" for m
      using time inv(1) that by (fastforce simp: lock_inv_def)
    with Check_Lock inv(1) show ?thesis
      by (cases "sy_lock sy") (simp_all add: move lock_inv_outside)
  next
    case Await_Lock
    with inv(1) show ?thesis by (simp add: move lock_inv_outside)
  next
    case Read_Locked
    with inv(1) show ?thesis by (auto simp: move intro!: lock_inv_stay split: option.splits)
  next
    case (Write_Locked l)
    with inv(1) show ?thesis by (simp add: move lock_inv_stay)
  next
    case (Drop_Lock r)
    with inv(1) show ?thesis by (simp add: move) (rule lock_inv_exit, simp_all)
  next
    case (Finished r)
    with inv(1) show ?thesis by (simp add: move)
  qed (use pl in simp_all)
qed

lemma lock_inv_step:
  assumes inv: "lock_ok start sy" "file_inv old procs sy" "same_args procs sy" "rivals old procs"
    and time: "sy_clock sy \<le> start + reclaim_lock_stale_after"
  shows "lock_ok start (action_step a sy)"
proof (cases a)
  case (Act p)
  then show ?thesis using lock_inv_act [OF assms] by simp
next
  case (Fault p)
  have pl: "plain_pc (pcs sy p)" using inv(1) by (simp add: lock_inv_def)
  show ?thesis
  proof (cases "pcs sy p")
    case (Drop_Lock r)
    with inv(1) show ?thesis
      by (simp add: Fault fault_step_def pcs_def [of sy p, symmetric] lock_inv_outside)
  qed (use pl inv(1) Fault in
       \<open>simp_all add: fault_step_def pcs_def [of sy p, symmetric] lock_inv_outside lock_inv_stay\<close>)
next
  case (Elapse d)
  then show ?thesis using inv(1) by (simp add: lock_inv_def pcs_def [abs_def])
qed

text \<open>An action that neither touches the file nor makes a winner or a writer keeps the file's invariant.\<close>

lemma file_inv_frame:
  assumes "file_inv old procs sy" and "sy_file sy' = sy_file sy" and "pcs sy' = (pcs sy)(p := pc)"
    and "has_won sy p \<longleftrightarrow> pc = Drop_Lock (Claimed True) \<or> pc = Finished (Claimed True)"
    and "\<forall>l. pc \<noteq> Write_Locked l"
  shows "file_inv old procs sy'"
proof -
  have won: "has_won sy' = has_won sy" using assms(3,4) by (auto simp: has_won_def fun_eq_iff)
  have wl: "\<And>q l. pcs sy' q = Write_Locked l \<Longrightarrow> pcs sy q = Write_Locked l"
    using assms(3,5) by (auto split: if_splits)
  show ?thesis
    using assms(1) wl unfolding file_inv_def won assms(2) by blast
qed

lemma file_inv_act:
  assumes inv: "lock_ok start sy" "file_inv old procs sy" "same_args procs sy" "rivals old procs"
    and time: "sy_clock sy \<le> start + reclaim_lock_stale_after"
  shows "file_inv old procs (proc_step p sy)"
proof -
  have present: "sy_file sy \<noteq> None" using inv(2) by (auto simp: file_inv_def)
  have pl: "plain_pc (pcs sy p)" using inv(1) by (simp add: lock_inv_def)
  note move = proc_step_def lock_step_def release_step_def Let_def pcs_def [of sy p, symmetric]
  note frame = file_inv_frame [OF inv(2), of _ p]
  show ?thesis
  proof (cases "pcs sy p")
    case Create_Lease
    with present show ?thesis by (auto simp: move has_won_def intro!: frame)
  next
    case Read_Heartbeat
    then have "\<not> has_won sy p" by (simp add: has_won_def)
    from no_heartbeat [OF inv(2-4) this] Read_Heartbeat show ?thesis
      by (auto simp: move has_won_def intro!: frame)
  next
    case Create_Lock
    then show ?thesis
      by (cases "sy_lock sy") (auto simp: move has_won_def intro!: frame)
  next
    case Check_Lock
    then show ?thesis
      by (cases "sy_lock sy") (auto simp: move has_won_def intro!: frame)
  next
    case Await_Lock
    then show ?thesis by (auto simp: move has_won_def intro!: frame)
  next
    case Read_Locked
    define owner ttl now where "owner = pr_owner (sy_procs sy p)" and "ttl = pr_ttl (sy_procs sy p)"
      and "now = pr_now (sy_procs sy p)"
    note args = owner_def ttl_def now_def
    show ?thesis
    proof (cases "reclaim (file_lease sy) owner ttl now")
      case None
      with Read_Locked show ?thesis by (auto simp: move args has_won_def intro!: frame)
    next
      case (Some l)
      have wr: "written_by (procs p) l"
        using reclaim_written_by [OF inv(3)] Some by (simp add: args)
      obtain i lease where f: "sy_file sy = Some (i, Some lease)"
        and cs: "lease = old \<and> (\<forall>q. \<not> has_won sy q) \<or> (\<exists>w. has_won sy w \<and> written_by (procs w) lease)"
        and wl: "\<And>q l. pcs sy q = Write_Locked l \<Longrightarrow> written_by (procs q) l"
        using inv(2) by (auto simp: file_inv_def)
      have "\<not> (has_won sy w \<and> written_by (procs w) lease)" for w
      proof
        assume w: "has_won sy w \<and> written_by (procs w) lease"
        then have "p \<noteq> w" using Read_Locked by (auto simp: has_won_def)
        from reclaim_refused [OF conjunct2 [OF w] inv(3,4) this] Some f show False
          by (simp add: args file_lease_def)
      qed
      with cs have old: "lease = old" "\<And>q. \<not> has_won sy q" by auto
      have st: "proc_step p sy = set_pc p (Write_Locked l) sy"
        using Some Read_Locked by (simp add: move args)
      have "has_won (set_pc p (Write_Locked l) sy) q \<longleftrightarrow> False" for q
        using old(2) [of q] by (simp add: has_won_def)
      with f old wl wr show ?thesis unfolding st by (simp add: file_inv_def)
    qed
  next
    case (Write_Locked l)
    have only: "q = p" if "section_pc (pcs sy q)" for q
      using inv(1) that Write_Locked by (simp add: lock_inv_def)
    have none: "\<not> has_won sy q" for q
      using inv(2) Write_Locked unfolding file_inv_def by blast
    have wr: "written_by (procs p) l" using inv(2) Write_Locked by (simp add: file_inv_def)
    have st: "proc_step p sy = set_pc p (Drop_Lock (Claimed True)) (rename_over l sy)"
      using Write_Locked by (simp add: move)
    have won: "has_won (proc_step p sy) q \<longleftrightarrow> q = p" for q
      using none [of q] by (simp add: st has_won_def)
    have nowr: "pcs (proc_step p sy) q \<noteq> Write_Locked l'" for q l'
      using only [of q] by (auto simp: st)
    show ?thesis
      using won nowr wr by (auto simp: file_inv_def st)
  next
    case (Drop_Lock r)
    then show ?thesis by (auto simp: move has_won_def intro!: frame)
  next
    case (Finished r)
    with inv(2) show ?thesis by (simp add: move)
  qed (use pl in simp_all)
qed

lemma file_inv_step:
  assumes inv: "lock_ok start sy" "file_inv old procs sy" "same_args procs sy" "rivals old procs"
    and time: "sy_clock sy \<le> start + reclaim_lock_stale_after"
  shows "file_inv old procs (action_step a sy)"
proof (cases a)
  case (Act p)
  then show ?thesis using file_inv_act [OF assms] by simp
next
  case (Fault p)
  have pl: "plain_pc (pcs sy p)" using inv(1) by (simp add: lock_inv_def)
  note frame = file_inv_frame [OF inv(2), of _ p]
  show ?thesis
  proof (cases "pcs sy p")
    case Await_Lock
    with inv(2) show ?thesis by (simp add: Fault fault_step_def pcs_def [of sy p, symmetric])
  next
    case (Finished r)
    with inv(2) show ?thesis by (simp add: Fault fault_step_def pcs_def [of sy p, symmetric])
  qed (use pl Fault in \<open>auto simp: fault_step_def pcs_def [of sy p, symmetric] has_won_def intro!: frame\<close>)
next
  case (Elapse d)
  then show ?thesis using inv(2) by (simp add: file_inv_def has_won_def pcs_def)
qed

fun elapsed :: "action list \<Rightarrow> int" where
  "elapsed [] = 0"
| "elapsed (Elapse d # acts) = int d + elapsed acts"
| "elapsed (_ # acts) = elapsed acts"

lemma elapsed_nonneg: "0 \<le> elapsed acts"
  by (induction acts rule: elapsed.induct) auto

lemma clock_call [simp]: "sy_clock (lock_step p sy) = sy_clock sy" "sy_clock (release_step p sy) = sy_clock sy"
  by (auto simp: lock_step_def release_step_def split: lease_pc.splits option.splits)

lemma clock_act [simp]: "sy_clock (proc_step p sy) = sy_clock sy" "sy_clock (fault_step p sy) = sy_clock sy"
  by (auto simp: proc_step_def fault_step_def Let_def split: lease_pc.splits option.splits)

lemma rivals_run:
  assumes "lock_ok start sy" "file_inv old procs sy" "same_args procs sy" "rivals old procs"
    and "sy_clock sy + elapsed acts \<le> start + reclaim_lock_stale_after"
  shows "lock_ok start (schedule acts sy) \<and> file_inv old procs (schedule acts sy)"
  using assms
proof (induction acts arbitrary: sy)
  case Nil
  then show ?case by (simp add: schedule_def)
next
  case (Cons a acts)
  have e: "0 \<le> elapsed acts" by (rule elapsed_nonneg)
  have "sy_clock sy \<le> start + reclaim_lock_stale_after"
    using Cons.prems(5) e by (cases a) auto
  note st = lock_inv_step [OF Cons.prems(1-4) this] file_inv_step [OF Cons.prems(1-4) this]
  have "sy_clock (action_step a sy) + elapsed acts \<le> start + reclaim_lock_stale_after"
    using Cons.prems(5) by (cases a) auto
  from Cons.IH [OF st same_args_step [OF Cons.prems(3)] Cons.prems(4) this] show ?case
    by (simp add: schedule_def)
qed

text \<open>C3: While less than the lock's staleness bound passes, any number of processes with different
  owner ids that claim a binding which some other owner's lease occupies, expired or not, with
  clock readings within one another's time to live, never get two grants between them, however their
  file-system calls interleave, fail or stop; the file then holds the lease of the one granted.\<close>

theorem locked_reclaim_exclusive:
  assumes "rivals old procs" and "elapsed acts \<le> reclaim_lock_stale_after"
    and sy: "sy = schedule acts (sys_of (Some old) start procs)"
    and "granted sy p"
  shows "(granted sy q \<longrightarrow> q = p) \<and> (\<exists>lease. file_lease sy = Some lease \<and> written_by (procs p) lease)"
proof -
  let ?s = "sys_of (Some old) start procs"
  have pc: "pcs ?s = (\<lambda>_. Create_Lease)"
    using assms(1) by (simp add: fun_eq_iff pcs_def sys_of_def rivals_def)
  then have "lock_ok start ?s" by (simp add: lock_inv_def sys_of_def)
  moreover have "file_inv old procs ?s"
    using pc by (simp add: file_inv_def has_won_def) (simp add: sys_of_def)
  moreover have "same_args procs ?s" by (simp add: same_args_def sys_of_def)
  ultimately have fi: "file_inv old procs sy"
    using rivals_run [of start ?s old procs acts] assms by (simp add: sys_of_def)
  have won: "has_won sy p" "granted sy q \<Longrightarrow> has_won sy q"
    using assms(4) by (simp_all add: granted_def has_won_def pcs_def)
  obtain i lease where f: "sy_file sy = Some (i, Some lease)"
    and unique: "\<And>r. has_won sy r \<Longrightarrow> r = p" and wr: "written_by (procs p) lease"
    using fi won(1) unfolding file_inv_def by blast
  have "granted sy q \<longrightarrow> q = p" using unique won(2) by blast
  moreover have "file_lease sy = Some lease" by (simp add: file_lease_def f)
  ultimately show ?thesis using wr by blast
qed


text \<open>A concrete contest: the second process waits for the lock of the first.\<close>

definition contest :: "action list" where
  "contest = [Act 0, Act 1, Act 0, Act 1, Act 0, Act 1, Act 0, Act 1, Elapse 7, Act 0, Act 1, Act 0, Act 1]"

definition contestants :: "nat \<Rightarrow> lease_proc" where
  "contestants p = start_call Claim_Call (replicate p CHR ''x'' @ ''b'') 10 5"

lemma rivals_contestants: "rivals (fresh_lease ''a'' 3 0) contestants"
proof -
  have "length (replicate p CHR ''x'') \<noteq> length (replicate q CHR ''x'')" if "p \<noteq> q" for p q using that by simp
  then have "replicate p CHR ''x'' \<noteq> replicate q CHR ''x''" if "p \<noteq> q" for p q using that by metis
  moreover have "replicate p CHR ''x'' @ ''b'' \<noteq> ''a''" for p by (cases p) simp_all
  ultimately show ?thesis by (simp add: rivals_def contestants_def start_call_def fresh_lease_def)
qed

lemmas run_defs = schedule_def proc_step_def lock_step_def release_step_def set_pc_def enter_lock_loop_def rename_over_def write_inode_def
  file_lease_def sys_of_def start_call_def heartbeat_def reclaim_def fresh_lease_def is_expired_def granted_def

theorem locked_reclaim_exclusive_witness:
  "let sy = schedule contest (sys_of (Some (fresh_lease ''a'' 3 0)) 0 contestants) in
   (granted sy 1 \<longrightarrow> 1 = (0::nat)) \<and> (\<exists>lease. file_lease sy = Some lease \<and> written_by (contestants 0) lease)"
  unfolding Let_def
  by (rule locked_reclaim_exclusive [OF rivals_contestants _ refl])
     (simp_all add: contest_def contestants_def run_defs Let_def reclaim_lock_stale_after_def
        reclaim_lock_wait_budget_def reclaim_lock_wait_margin_def)

section \<open>Where exclusivity fails\<close>

text \<open>Two processes claim a binding for the first time; the second reads the file that the first has
  created but not yet written, takes it for no lease and claims it under the lock: both claims are
  granted, and the file holds the second's lease.\<close>

theorem first_claim_granted_twice:
  "let sy = schedule [Act 0, Act 1, Act 1, Act 1, Act 1, Act 1, Act 1, Act 0]
       (sys_of None start (\<lambda>p. start_call Claim_Call (if p = 0 then a else b) ttl now)) in
   granted sy 0 \<and> granted sy 1 \<and> file_lease sy = Some (fresh_lease b ttl now)"
  by (simp add: run_defs Let_def)

text \<open>A lease of \<open>a\<close> that expires between two clock readings can be granted to two processes at
  once in three ways: \<open>a\<close>'s heartbeat, which read it live, writes after \<open>b\<close> reclaimed it; \<open>a\<close>'s release,
  which read its own lease, removes the file after \<open>b\<close> reclaimed it, so that \<open>c\<close> claims it afresh; and
  \<open>b\<close> and \<open>c\<close> both break the same abandoned lock, the second removing the lock of the first.\<close>

theorem expired_lease_granted_twice:
  assumes old: "cl_owner_id old = a" "na < cl_expires_at old" "cl_expires_at old \<le> nb"
    and owners: "a \<noteq> b" "a \<noteq> c"
    and abandoned: "start - mtime > reclaim_lock_stale_after"
  shows
    "(let sy = schedule ([Act 0, Act 0, Elapse d] @ replicate 6 (Act 1) @ [Act 0])
         (sys_of (Some old) start
            (\<lambda>p. if p = 0 then start_call Claim_Call a ttl na else start_call Claim_Call b ttl nb)) in
      granted sy 0 \<and> granted sy 1) \<and>
     (let sy = schedule ([Act 0, Elapse d] @ replicate 6 (Act 1) @ [Act 0, Act 2, Act 2])
         (sys_of (Some old) start
            (\<lambda>p. if p = 0 then start_call Release_Call a ttl na
                 else start_call Claim_Call (if p = 1 then b else c) ttl nb)) in
      granted sy 1 \<and> granted sy 2) \<and>
     (let sy = schedule (replicate 4 (Act 1) @ replicate 4 (Act 2) @ replicate 3 (Act 1) @ replicate 3 (Act 2) @
           replicate 2 (Act 1) @ replicate 2 (Act 2))
         (sys_of (Some old) start (\<lambda>p. start_call Claim_Call (if p = 1 then b else c) ttl nb)\<lparr> sy_lock := Some mtime \<rparr>) in
      granted sy 1 \<and> granted sy 2)"
proof -
  have r: "replicate 6 (x::action) = [x, x, x, x, x, x]" "replicate 4 x = [x, x, x, x]" "replicate 3 x = [x, x, x]"
    "replicate 2 x = [x, x]" for x by (simp_all add: eval_nat_numeral)
  show ?thesis
    using assms by (intro conjI) (simp_all add: r run_defs Let_def)
qed

theorem expired_lease_granted_twice_witness:
  "(let sy = schedule ([Act 0, Act 0, Elapse 9] @ replicate 6 (Act 1) @ [Act 0])
       (sys_of (Some (fresh_lease ''a'' 3 0)) 6000000000
          (\<lambda>p. if p = 0 then start_call Claim_Call ''a'' 3 2 else start_call Claim_Call ''b'' 3 4)) in
    granted sy 0 \<and> granted sy 1) \<and>
   (let sy = schedule ([Act 0, Elapse 9] @ replicate 6 (Act 1) @ [Act 0, Act 2, Act 2])
       (sys_of (Some (fresh_lease ''a'' 3 0)) 6000000000
          (\<lambda>p. if p = 0 then start_call Release_Call ''a'' 3 2
               else start_call Claim_Call (if p = 1 then ''b'' else ''c'') 3 4)) in
    granted sy 1 \<and> granted sy 2) \<and>
   (let sy = schedule (replicate 4 (Act 1) @ replicate 4 (Act 2) @ replicate 3 (Act 1) @ replicate 3 (Act 2) @
         replicate 2 (Act 1) @ replicate 2 (Act 2))
       (sys_of (Some (fresh_lease ''a'' 3 0)) 6000000000
          (\<lambda>p. start_call Claim_Call (if p = 1 then ''b'' else ''c'') 3 4)\<lparr> sy_lock := Some 0 \<rparr>) in
    granted sy 1 \<and> granted sy 2)"
  by (rule expired_lease_granted_twice [where a = "''a''"])
     (simp_all add: fresh_lease_def reclaim_lock_stale_after_def)

end
