(* ===== verification/Channel_Bridge.thy ===== *)
theory Channel_Bridge
  imports Channel_Lease
begin

text \<open>
  The supervisor of the channel bindings, \<open>ChannelBridge\<close> (\<open>telegram/bridge.rs\<close>): one \<open>reconcile\<close>
  tick, the invalidation of reply targets and the shutdown loop, and the registry of connection
  states (\<open>channels/connection_state.rs\<close>).

  Hash maps are maps; where the code iterates over one, the order is an argument. The transports'
  fingerprints and what an inbound task does once spawned are parameters and not modelled.
\<close>

section \<open>Bindings\<close>

datatype channel_kind =
  Kind_Telegram | Kind_Discord | Kind_Email | Kind_Slack | Kind_WhatsApp | Kind_Webhook

record 'c channel_binding =
  cb_binding_id :: binding_id
  cb_kind :: channel_kind
  cb_enabled :: bool
  cb_bridge_thread_id :: "thread_id option"
  cb_config :: 'c

record 'c channel_profile =
  cp_id :: string
  cp_channels :: "'c channel_binding list"

type_synonym binding_key = "string \<times> binding_id"

record running_binding =
  rb_fingerprint :: string
  rb_bridge_thread_id :: thread_id

datatype connection_state = Connected | Reconnecting | Disconnected | Not_Holding_Lease

section \<open>\<open>ConnectionStateRegistry\<close>\<close>

type_synonym connection_states = "binding_key \<rightharpoonup> connection_state"

definition conn_set :: "binding_key \<Rightarrow> connection_state \<Rightarrow> connection_states \<Rightarrow> connection_states" where
  "conn_set key s m = m(key \<mapsto> s)"

definition conn_remove :: "binding_key \<Rightarrow> connection_states \<Rightarrow> connection_states" where
  "conn_remove key m = m(key := None)"

definition conn_get :: "binding_key \<Rightarrow> connection_states \<Rightarrow> connection_state" where
  "conn_get key m = (case m key of Some s \<Rightarrow> s | None \<Rightarrow> Disconnected)"

section \<open>The bridge\<close>

record ('v, 'e) bridge =
  br_running :: "binding_key \<rightharpoonup> running_binding"
  br_gate :: lease_gate
  br_leases :: "'e lease_store"
  br_states :: connection_states
  br_refused_logged :: "binding_key set"
  br_in_flight :: "channel_kind \<Rightarrow> 'v correlation_map"

definition reconcile_interval_secs :: int where
  "reconcile_interval_secs = 5"

definition lease_ttl :: int where
  "lease_ttl = 3 * reconcile_interval_secs * 1000000000"

text \<open>\<open>invalidate_thread\<close> on every transport; Email's is a no-op.\<close>

definition invalidate_thread :: "thread_id \<Rightarrow> ('v, 'e) bridge \<Rightarrow> ('v, 'e) bridge" where
  "invalidate_thread t br =
     br\<lparr> br_in_flight := (\<lambda>kind. if kind = Kind_Email then br_in_flight br kind
                                else corr_remove (br_in_flight br kind) t) \<rparr>"

definition invalidate_thread_for_chat :: "thread_id \<Rightarrow> 'v \<Rightarrow> ('v, 'e) bridge \<Rightarrow> ('v, 'e) bridge" where
  "invalidate_thread_for_chat t chat br =
     br\<lparr> br_in_flight := (br_in_flight br)
           (Kind_Telegram := corr_remove_if_matches (br_in_flight br Kind_Telegram) t chat) \<rparr>"

text \<open>The transports by kind: \<open>None\<close> is a kind without one, else its \<open>fingerprint\<close>.\<close>

type_synonym 'c transports = "channel_kind \<Rightarrow> ('c channel_profile \<Rightarrow> 'c channel_binding \<Rightarrow> string option) option"

type_synonym desired = "binding_key \<rightharpoonup> string \<times> thread_id \<times> channel_kind"

definition desired_entry :: "'c transports \<Rightarrow> 'c channel_profile \<Rightarrow> 'c channel_binding \<Rightarrow>
    (string \<times> thread_id \<times> channel_kind) option" where
  "desired_entry transports profile binding =
     (if \<not> cb_enabled binding then None
      else case (if cb_kind binding \<in> {Kind_Discord, Kind_Telegram, Kind_Email}
                 then Some (case cb_bridge_thread_id binding of Some t \<Rightarrow> t | None \<Rightarrow> [])
                 else cb_bridge_thread_id binding) of
          None \<Rightarrow> None
        | Some bridge_thread_id \<Rightarrow>
            (case transports (cb_kind binding) of
               None \<Rightarrow> None
             | Some fingerprint_of \<Rightarrow>
                 (case fingerprint_of profile binding of
                    None \<Rightarrow> None
                  | Some fingerprint \<Rightarrow> Some (fingerprint, bridge_thread_id, cb_kind binding))))"

definition desired_bindings :: "'c transports \<Rightarrow> 'c channel_profile list \<Rightarrow> desired" where
  "desired_bindings transports profiles =
     fold (\<lambda>profile. fold (\<lambda>binding m.
         case desired_entry transports profile binding of
           None \<Rightarrow> m
         | Some d \<Rightarrow> m((cp_id profile, cb_binding_id binding) \<mapsto> d)) (cp_channels profile))
       profiles Map.empty"

section \<open>\<open>reconcile\<close>\<close>

text \<open>A call of the lease store within the bridge.\<close>

definition claim_lease :: "string \<Rightarrow> int \<Rightarrow> binding_key \<Rightarrow> ('v, 'e) bridge \<Rightarrow> ('e + bool) \<times> ('v, 'e) bridge" where
  "claim_lease owner now key = zoom br_leases br_leases_update (try_claim key owner lease_ttl now)"

definition release_lease :: "string \<Rightarrow> binding_key \<Rightarrow> ('v, 'e) bridge \<Rightarrow> ('v, 'e) bridge" where
  "release_lease owner key br = snd (zoom br_leases br_leases_update (lease_release key owner) br)"

text \<open>The first loop: which running bindings must stop.\<close>

fun check_running :: "string \<Rightarrow> int \<Rightarrow> desired \<Rightarrow> binding_key list \<Rightarrow> ('v, 'e) bridge \<Rightarrow>
    binding_key list \<times> ('v, 'e) bridge" where
  "check_running owner now desired [] br = ([], br)"
| "check_running owner now desired (key # keys) br =
     (case br_running br key of
        None \<Rightarrow> check_running owner now desired keys br
      | Some binding \<Rightarrow>
          if map_option fst (desired key) \<noteq> Some (rb_fingerprint binding)
          then (case check_running owner now desired keys (br\<lparr> br_states := conn_remove key (br_states br) \<rparr>) of
                  (stale, br') \<Rightarrow> (key # stale, br'))
          else (case claim_lease owner now key br of
              (Inr True, br1) \<Rightarrow> check_running owner now desired keys br1
            | (Inr False, br1) \<Rightarrow>
                (case check_running owner now desired keys
                        (br1\<lparr> br_states := conn_set key Not_Holding_Lease (br_states br1) \<rparr>) of
                   (stale, br') \<Rightarrow> (key # stale, br'))
            | (Inl _, br1) \<Rightarrow> check_running owner now desired keys br1))"

text \<open>The second loop: stopping one of them.\<close>

definition stop_binding :: "string \<Rightarrow> binding_key \<Rightarrow> ('v, 'e) bridge \<Rightarrow> ('v, 'e) bridge" where
  "stop_binding owner key br =
     (case br_running br key of
        None \<Rightarrow> br
      | Some binding \<Rightarrow>
          let br1 = br\<lparr> br_running := (br_running br)(key := None) \<rparr>;
              br2 = invalidate_thread (rb_bridge_thread_id binding) br1;
              br3 = br2\<lparr> br_gate := mark_inactive (snd key) (br_gate br2) \<rparr>;
              br4 = release_lease owner key br3
          in br4\<lparr> br_refused_logged := br_refused_logged br4 - {key} \<rparr>)"

text \<open>The third loop: starting a desired binding that does not run.\<close>

definition start_binding :: "string \<Rightarrow> int \<Rightarrow> 'c transports \<Rightarrow> desired \<Rightarrow> binding_key \<Rightarrow> ('v, 'e) bridge \<Rightarrow>
    ('v, 'e) bridge" where
  "start_binding owner now transports desired key br =
     (case desired key of
        None \<Rightarrow> br
      | Some (fingerprint, bridge_thread_id, kind) \<Rightarrow>
          if br_running br key \<noteq> None then br
          else if transports kind = None then br
          else (case claim_lease owner now key br of
              (Inr True, br1) \<Rightarrow>
                (let br2 = br1\<lparr> br_refused_logged := br_refused_logged br1 - {key},
                                br_states := conn_set key Reconnecting (br_states br1) \<rparr>;
                     br3 = (if bridge_thread_id \<noteq> []
                            then br2\<lparr> br_gate := mark_active (snd key) bridge_thread_id (br_gate br2) \<rparr> else br2)
                 in br3\<lparr> br_running := (br_running br3)(key \<mapsto>
                       \<lparr> rb_fingerprint = fingerprint, rb_bridge_thread_id = bridge_thread_id \<rparr>) \<rparr>)
            | (Inr False, br1) \<Rightarrow>
                br1\<lparr> br_refused_logged := insert key (br_refused_logged br1),
                     br_states := conn_set key Not_Holding_Lease (br_states br1) \<rparr>
            | (Inl _, br1) \<Rightarrow> br1))"

definition reconcile :: "string \<Rightarrow> int \<Rightarrow> 'c transports \<Rightarrow> 'e + 'c channel_profile list \<Rightarrow> binding_key list \<Rightarrow>
    binding_key list \<Rightarrow> ('v, 'e) bridge \<Rightarrow> ('v, 'e) bridge" where
  "reconcile owner now transports profiles running_order desired_order br =
     (case profiles of
        Inl _ \<Rightarrow> br
      | Inr ps \<Rightarrow>
          (case check_running owner now (desired_bindings transports ps) running_order br of
             (stale, br1) \<Rightarrow>
               fold (start_binding owner now transports (desired_bindings transports ps)) desired_order
                 (fold (stop_binding owner) stale br1)))"

text \<open>The loop after the shutdown signal: every running binding is cleared from the gate and its lease released.\<close>

definition shutdown_binding :: "string \<Rightarrow> binding_key \<Rightarrow> ('v, 'e) bridge \<Rightarrow> ('v, 'e) bridge" where
  "shutdown_binding owner key br =
     (case br_running br key of
        None \<Rightarrow> br
      | Some binding \<Rightarrow>
          release_lease owner key
            (br\<lparr> br_running := (br_running br)(key := None),
                 br_gate := mark_inactive (snd key) (br_gate br) \<rparr>))"

definition bridge_shutdown :: "string \<Rightarrow> binding_key list \<Rightarrow> ('v, 'e) bridge \<Rightarrow> ('v, 'e) bridge" where
  "bridge_shutdown owner order br = fold (shutdown_binding owner) order br"

section \<open>What the steps leave alone\<close>

lemma claim_lease_frame [simp]:
  "br_running (snd (claim_lease owner now key br)) = br_running br"
  "br_gate (snd (claim_lease owner now key br)) = br_gate br"
  by (simp_all add: claim_lease_def sm_simps)

lemma release_lease_frame [simp]:
  "br_running (release_lease owner key br) = br_running br"
  "br_gate (release_lease owner key br) = br_gate br"
  by (simp_all add: release_lease_def sm_simps)

lemma claim_lease_spec:
  assumes "store_sound (br_leases br)"
  shows "store_sound (br_leases (snd (claim_lease owner now key br)))"
    and "(Lease_Claimed (fst (claim_lease owner now key br)) :: 'e lease_answer,
          lease_table (br_leases (snd (claim_lease owner now key br)))) =
         lease_spec (Try_Claim key owner lease_ttl now) (lease_table (br_leases (br :: ('v, 'e) bridge)))"
  using lease.inv_step [OF assms, of "Try_Claim key owner lease_ttl now"]
    lease.step_spec [OF assms, of "Try_Claim key owner lease_ttl now"]
  by (simp_all add: claim_lease_def sm_simps)

lemma release_lease_spec:
  assumes "store_sound (br_leases br)"
  shows "store_sound (br_leases (release_lease owner key br))"
    and "lease_table (br_leases (release_lease owner key br)) =
         snd (lease_spec (Release_Lease key owner) (lease_table (br_leases (br :: ('v, 'e) bridge))) :: 'e lease_answer \<times> _)"
  using lease.inv_step [OF assms, of "Release_Lease key owner"]
    lease.step_spec [OF assms, of "Release_Lease key owner"]
  by (simp_all add: release_lease_def sm_simps)

end
