(* ===== verification/Bridge_Properties.thy ===== *)
theory Bridge_Properties
  imports Channel_Bridge Channel_Relay
begin

text \<open>
  Properties of a \<open>reconcile\<close> tick: what runs afterwards holds its lease, and what stopping one
  binding does to the replies of another agent's binding with the same id.
\<close>

section \<open>Leases held after a claim\<close>

definition holds :: "string \<Rightarrow> int \<Rightarrow> binding_key \<Rightarrow> ('v, 'e) bridge \<Rightarrow> bool" where
  "holds owner now key br \<longleftrightarrow>
     (\<exists>lease. lease_table (br_leases br) key = Some lease \<and> cl_owner_id lease = owner \<and>
        cl_expires_at lease = now + lease_ttl)"

abbreviation sound :: "('v, 'e) bridge \<Rightarrow> bool" where
  "sound br \<equiv> store_sound (br_leases br)"

lemma claim_lease_holds:
  fixes br :: "('v, 'e) bridge"
  assumes "sound br"
  shows "fst (claim_lease owner now key br) = Inr True \<Longrightarrow> holds owner now key (snd (claim_lease owner now key br))"
    and "fst (claim_lease owner now key br) \<noteq> Inl e"
    and "holds owner now other br \<Longrightarrow> holds owner now other (snd (claim_lease owner now key br))"
    and "holds owner' t key br \<Longrightarrow> owner' = owner \<Longrightarrow> fst (claim_lease owner now key br) = Inr True"
  using claim_lease_spec(2) [OF assms, of owner now key]
  by (auto simp: holds_def fresh_lease_def split: option.splits if_splits)

lemma release_lease_holds:
  fixes br :: "('v, 'e) bridge"
  assumes "sound br" "other \<noteq> key"
  shows "holds owner now other (release_lease owner' key br) = holds owner now other br"
  using release_lease_spec(2) [OF assms(1), of owner' key] assms(2)
  by (simp add: holds_def)

section \<open>The loops\<close>

definition runs_as_desired :: "desired \<Rightarrow> binding_key \<Rightarrow> running_binding \<Rightarrow> bool" where
  "runs_as_desired des key binding \<longleftrightarrow> map_option fst (des key) = Some (rb_fingerprint binding)"

lemma check_running_spec:
  fixes br :: "('v, 'e) bridge"
  assumes "sound br" and "check_running owner now des keys br = (stale, br')"
  shows "br_running br' = br_running br \<and> br_gate br' = br_gate br \<and> sound br' \<and>
     (\<forall>key. holds owner now key br \<longrightarrow> holds owner now key br') \<and>
     (\<forall>key binding. key \<in> set keys \<longrightarrow> br_running br key = Some binding \<longrightarrow> key \<notin> set stale \<longrightarrow>
        runs_as_desired des key binding \<and> holds owner now key br')"
  using assms
proof (induction keys arbitrary: br stale br')
  case Nil
  then show ?case by simp
next
  case (Cons key keys)
  let ?claim = "claim_lease owner now key br"
  note claim = claim_lease_holds [OF Cons.prems(1), where owner = owner and now = now and key = key]
  have snd_sound: "sound (snd ?claim)" using claim_lease_spec(1) [OF Cons.prems(1)] .
  show ?case
  proof (cases "br_running br key")
    case None
    with Cons.prems(2) have "check_running owner now des keys br = (stale, br')" by simp
    from Cons.IH [OF Cons.prems(1) this] None show ?thesis by auto
  next
    case (Some binding)
    consider (changed) "\<not> runs_as_desired des key binding"
      | (held) "runs_as_desired des key binding" "fst ?claim = Inr True"
      | (refused) "runs_as_desired des key binding" "fst ?claim = Inr False"
      using claim(2) by (cases "fst ?claim") auto
    then show ?thesis
    proof cases
      case changed
      let ?br = "br\<lparr> br_states := conn_remove key (br_states br) \<rparr>"
      obtain st where st: "check_running owner now des keys ?br = (st, br')" "stale = key # st"
        using Cons.prems(2) Some changed by (auto simp: runs_as_desired_def split: prod.splits)
      have "holds owner now k ?br = holds owner now k br" for k by (simp add: holds_def)
      with Cons.IH [OF _ st(1)] Cons.prems(1) st(2) show ?thesis by auto
    next
      case held
      have st: "check_running owner now des keys (snd ?claim) = (stale, br')"
        using Cons.prems(2) Some held by (cases ?claim) (auto simp: runs_as_desired_def)
      have "holds owner now key (snd ?claim)" using claim(1) held(2) .
      with Cons.IH [OF snd_sound st] claim(3) held(1) Some show ?thesis by auto
    next
      case refused
      let ?br = "(snd ?claim)\<lparr> br_states := conn_set key Not_Holding_Lease (br_states (snd ?claim)) \<rparr>"
      obtain st where st: "check_running owner now des keys ?br = (st, br')" "stale = key # st"
        using Cons.prems(2) Some refused by (cases ?claim) (auto simp: runs_as_desired_def split: prod.splits)
      have "holds owner now k ?br = holds owner now k (snd ?claim)" for k by (simp add: holds_def)
      with Cons.IH [OF _ st(1)] snd_sound claim(3) st(2) show ?thesis by auto
    qed
  qed
qed

text \<open>What a tick guarantees of every running binding.\<close>

definition tick_ok :: "string \<Rightarrow> int \<Rightarrow> desired \<Rightarrow> ('v, 'e) bridge \<Rightarrow> bool" where
  "tick_ok owner now des br \<longleftrightarrow>
     (\<forall>key binding. br_running br key = Some binding \<longrightarrow> runs_as_desired des key binding \<and> holds owner now key br)"

lemma stop_binding_simps:
  "br_running (stop_binding owner key br) = (br_running br)(key := None)"
  "br_gate (stop_binding owner key br) =
     (if br_running br key = None then br_gate br else mark_inactive (snd key) (br_gate br))"
  by (auto simp: stop_binding_def invalidate_thread_def Let_def split: option.splits)

lemma stop_binding_holds:
  fixes br :: "('v, 'e) bridge"
  assumes "sound br"
  shows "sound (stop_binding owner key br) \<and>
     (other \<noteq> key \<longrightarrow> holds owner now other br \<longrightarrow> holds owner now other (stop_binding owner key br))"
proof (cases "br_running br key")
  case (Some binding)
  define b3 where "b3 = (invalidate_thread (rb_bridge_thread_id binding) (br\<lparr> br_running := (br_running br)(key := None) \<rparr>))
      \<lparr> br_gate := mark_inactive (snd key) (br_gate br) \<rparr>"
  have l: "br_leases b3 = br_leases br" by (simp add: b3_def invalidate_thread_def)
  have st: "stop_binding owner key br =
      (release_lease owner key b3)\<lparr> br_refused_logged := br_refused_logged (release_lease owner key b3) - {key} \<rparr>"
    by (simp add: stop_binding_def Some b3_def Let_def invalidate_thread_def)
  have "sound b3" using assms l by simp
  from release_lease_spec(1) [OF this] release_lease_holds [OF this] show ?thesis
    by (simp add: st holds_def l)
qed (use assms in \<open>simp add: stop_binding_def\<close>)

lemma stop_bindings_spec:
  fixes br :: "('v, 'e) bridge"
  assumes "sound br"
  shows "sound (fold (stop_binding owner) stale br) \<and>
     br_running (fold (stop_binding owner) stale br) = (\<lambda>k. if k \<in> set stale then None else br_running br k) \<and>
     (\<forall>key. key \<notin> set stale \<longrightarrow> holds owner now key br \<longrightarrow> holds owner now key (fold (stop_binding owner) stale br))"
  using assms
proof (induction stale arbitrary: br)
  case Nil
  then show ?case by simp
next
  case (Cons k stale)
  have "sound (stop_binding owner k br)" using stop_binding_holds [OF Cons.prems] by blast
  from Cons.IH [OF this] stop_binding_holds [OF Cons.prems] show ?case
    by (auto simp: stop_binding_simps fun_eq_iff)
qed

lemma start_binding_spec:
  fixes br :: "('v, 'e) bridge"
  assumes "sound br"
  shows "sound (start_binding owner now tr des key br) \<and>
     (tick_ok owner now des br \<longrightarrow> tick_ok owner now des (start_binding owner now tr des key br)) \<and>
     (\<forall>k binding. br_running br k = Some binding \<longrightarrow>
        br_running (start_binding owner now tr des key br) k = Some binding)"
proof (cases "des key")
  case None
  then show ?thesis using assms by (simp add: start_binding_def)
next
  case (Some d)
  obtain fp t kind where d: "d = (fp, t, kind)" by (cases d) auto
  let ?claim = "claim_lease owner now key br"
  note claim = claim_lease_holds [OF assms, where owner = owner and now = now and key = key]
  have s: "sound (snd ?claim)" using claim_lease_spec(1) [OF assms] .
  have old: "holds owner now k br \<Longrightarrow> holds owner now k (snd ?claim)" for k using claim(3) .
  show ?thesis
  proof (cases "br_running br key \<noteq> None \<or> tr kind = None")
    case True
    then show ?thesis using assms Some d by (auto simp: start_binding_def)
  next
    case False
    then have idle: "br_running br key = None" "tr kind \<noteq> None" by auto
    obtain r br1 where c: "?claim = (r, br1)" by force
    have frame: "br_running br1 = br_running br"
      using claim_lease_frame(1) [of owner now key br] by (simp add: c)
    have s1: "sound br1" and old1: "\<And>k. holds owner now k br \<Longrightarrow> holds owner now k br1"
      using s old by (simp_all add: c)
    consider "r = Inr True" | "r = Inr False" using claim(2) by (cases r) (auto simp: c)
    then show ?thesis
    proof cases
      case 1
      then have "holds owner now key br1" using claim(1) by (simp add: c)
      with 1 idle s1 old1 show ?thesis
        by (auto simp: start_binding_def Some d c frame tick_ok_def runs_as_desired_def Let_def holds_def)
    next
      case 2
      with idle s1 old1 show ?thesis
        by (auto simp: start_binding_def Some d c frame tick_ok_def holds_def)
    qed
  qed
qed

lemma start_bindings_spec:
  fixes br :: "('v, 'e) bridge"
  assumes "sound br"
  shows "(tick_ok owner now des br \<longrightarrow> tick_ok owner now des (fold (start_binding owner now tr des) keys br)) \<and>
     (\<forall>k binding. br_running br k = Some binding \<longrightarrow>
        br_running (fold (start_binding owner now tr des) keys br) k = Some binding)"
  using assms
proof (induction keys arbitrary: br)
  case Nil
  then show ?case by simp
next
  case (Cons key keys)
  from start_binding_spec [OF Cons.prems] Cons.IH show ?case by (metis fold_simps(2))
qed

text \<open>C20: With a working lease store, after a tick of the supervisor every binding that runs is one the
  profiles ask for with the fingerprint it runs under, and this process has just claimed or renewed
  its lease for the full time to live.\<close>

theorem reconcile_runs_only_leased:
  fixes br :: "('v, 'e) bridge"
  assumes "store_sound (br_leases br)" and "dom (br_running br) \<subseteq> set running_order"
    and "br' = reconcile owner now transports (Inr profiles) running_order desired_order br"
    and "br_running br' key = Some binding"
  shows "(\<exists>t kind. desired_bindings transports profiles key = Some (rb_fingerprint binding, t, kind)) \<and>
     (\<exists>lease. lease_table (br_leases br') key = Some lease \<and> cl_owner_id lease = owner \<and>
        cl_expires_at lease = now + lease_ttl)"
proof -
  let ?des = "desired_bindings transports profiles"
  obtain stale br1 where c: "check_running owner now ?des running_order br = (stale, br1)" by force
  note check = check_running_spec [OF assms(1) c]
  define br2 where "br2 = fold (stop_binding owner) stale br1"
  have s1: "sound br1" using check by blast
  have stop: "sound br2" "br_running br2 = (\<lambda>k. if k \<in> set stale then None else br_running br1 k)"
    "\<And>k. k \<notin> set stale \<Longrightarrow> holds owner now k br1 \<Longrightarrow> holds owner now k br2"
    using stop_bindings_spec [OF s1] by (auto simp: br2_def)
  have "tick_ok owner now ?des br2"
    unfolding tick_ok_def
  proof (intro allI impI)
    fix k b
    assume k: "br_running br2 k = Some b"
    then have "k \<notin> set stale" "br_running br k = Some b"
      using stop(2) check by (simp_all split: if_splits)
    moreover from this(2) have "k \<in> set running_order" using assms(2) by auto
    ultimately show "runs_as_desired ?des k b \<and> holds owner now k br2"
      using check stop(3) by blast
  qed
  then have "tick_ok owner now ?des br'"
    using start_bindings_spec [OF stop(1), where owner = owner and now = now and des = ?des and
        tr = transports and keys = desired_order]
    by (simp add: assms(3) reconcile_def c br2_def)
  then have "runs_as_desired ?des key binding \<and> holds owner now key br'"
    using assms(4) unfolding tick_ok_def by blast
  then show ?thesis by (auto simp: runs_as_desired_def holds_def)
qed

text \<open>Two agents with a Telegram binding each, under the one id such bindings have.\<close>

definition sample_transports :: "unit transports" where
  "sample_transports = (\<lambda>kind. Some (\<lambda>profile binding. Some (cp_id profile @ ''-token'')))"

definition sample_profile :: "string \<Rightarrow> bool \<Rightarrow> unit channel_profile" where
  "sample_profile agent enabled =
     \<lparr> cp_id = agent, cp_channels = [\<lparr> cb_binding_id = ''telegram'', cb_kind = Kind_Telegram, cb_enabled = enabled,
         cb_bridge_thread_id = None, cb_config = () \<rparr>] \<rparr>"

definition sample_bridge :: "(int, unit) bridge" where
  "sample_bridge =
     \<lparr> br_running = [(''a'', ''telegram'') \<mapsto> \<lparr> rb_fingerprint = ''a-token'', rb_bridge_thread_id = [] \<rparr>,
                     (''b'', ''telegram'') \<mapsto> \<lparr> rb_fingerprint = ''b-token'', rb_bridge_thread_id = [] \<rparr>],
       br_gate = mark_active ''telegram'' ''chat-of-b'' gate_new,
       br_leases = lease_store_new, br_states = Map.empty, br_refused_logged = {},
       br_in_flight = \<lambda>_. [''chat-of-b'' \<mapsto> 7] \<rparr>"

lemmas sample_defs = sample_transports_def sample_profile_def sample_bridge_def desired_bindings_def desired_entry_def

theorem reconcile_runs_only_leased_witness:
  "let br' = reconcile ''me'' 0 sample_transports (Inr [sample_profile ''a'' True])
         [(''a'', ''telegram''), (''b'', ''telegram'')] [(''a'', ''telegram'')] sample_bridge in
   (\<exists>t kind. desired_bindings sample_transports [sample_profile ''a'' True] (''a'', ''telegram'') =
      Some (''a-token'', t, kind)) \<and>
   (\<exists>lease. lease_table (br_leases br') (''a'', ''telegram'') = Some lease \<and> cl_owner_id lease = ''me'' \<and>
      cl_expires_at lease = 0 + lease_ttl)"
proof -
  let ?br = "reconcile ''me'' 0 sample_transports (Inr [sample_profile ''a'' True])
         [(''a'', ''telegram''), (''b'', ''telegram'')] [(''a'', ''telegram'')] sample_bridge"
  have "br_running ?br (''a'', ''telegram'') = Some \<lparr> rb_fingerprint = ''a-token'', rb_bridge_thread_id = [] \<rparr>"
    by (simp add: reconcile_def sample_defs claim_lease_def lease_store_new_def lease_call_defs sm_simps
        start_binding_def stop_binding_simps Let_def)
  from reconcile_runs_only_leased [OF _ _ refl this] show ?thesis
    by (simp add: sample_bridge_def store_sound_def lease_store_new_def dom_def subset_iff)
qed

section \<open>Bindings with the same id\<close>

lemma mark_inactive_keeps: "gate_ok g \<Longrightarrow> \<not> is_active g t \<Longrightarrow> \<not> is_active (mark_inactive b g) t"
  by (simp add: is_active_def binding_mark_inactive)

lemma mark_inactive_drops: "gate_ok g \<Longrightarrow> binding_by_thread g t = Some b \<Longrightarrow> \<not> is_active (mark_inactive b g) t"
  by (simp add: is_active_def binding_mark_inactive)

lemma stop_bindings_drop:
  assumes "gate_ok (br_gate br)"
    and "\<not> is_active (br_gate br) t \<or>
         binding_by_thread (br_gate br) t = Some b \<and> (a, b) \<in> set stale \<and> br_running br (a, b) \<noteq> None"
  shows "\<not> is_active (br_gate (fold (stop_binding owner) stale br)) t"
  using assms
proof (induction stale arbitrary: br)
  case Nil
  then show ?case by simp
next
  case (Cons k stale)
  let ?br = "stop_binding owner k br"
  have gk: "gate_ok (br_gate ?br)"
    using Cons.prems(1) by (simp add: stop_binding_simps gate_ok_mark_inactive)
  have "\<not> is_active (br_gate ?br) t \<or>
      binding_by_thread (br_gate ?br) t = Some b \<and> (a, b) \<in> set stale \<and> br_running ?br (a, b) \<noteq> None"
  proof (cases "is_active (br_gate br) t \<and> k \<noteq> (a, b)")
    case True
    then show ?thesis
      using Cons.prems by (auto simp: stop_binding_simps is_active_def binding_mark_inactive)
  next
    case False
    then show ?thesis
      using Cons.prems mark_inactive_drops mark_inactive_keeps by (auto simp: stop_binding_simps)
  qed
  with Cons.IH [OF gk] show ?case by simp
qed

lemma start_bindings_gate:
  assumes "\<forall>key fp kind. des key \<noteq> Some (fp, t, kind)" and "\<not> is_active (br_gate br) t"
  shows "\<not> is_active (br_gate (fold (start_binding owner now tr des) keys br)) t"
  using assms(2)
proof (induction keys arbitrary: br)
  case Nil
  then show ?case by simp
next
  case (Cons key keys)
  have "\<not> is_active (br_gate (start_binding owner now tr des key br)) t"
  proof (cases "des key")
    case (Some d)
    obtain fp u kind where "d = (fp, u, kind)" by (cases d) auto
    moreover from this have "u \<noteq> t" using assms(1) Some by blast
    ultimately show ?thesis
      using Some Cons.prems claim_lease_frame(2) [of owner now key br]
      by (cases "claim_lease owner now key br")
        (auto simp: start_binding_def Let_def is_active_def binding_mark_active split: sum.splits bool.splits)
  qed (use Cons.prems in \<open>simp add: start_binding_def\<close>)
  with Cons.IH show ?case by simp
qed

lemma check_running_frame:
  "check_running owner now des keys br = (stale, br') \<Longrightarrow> br_running br' = br_running br \<and> br_gate br' = br_gate br"
proof (induction keys arbitrary: br stale)
  case (Cons key keys)
  obtain r br1 where c: "claim_lease owner now key br = (r, br1)" by force
  with claim_lease_frame [of owner now key br]
  have f: "br_running br1 = br_running br" "br_gate br1 = br_gate br" by simp_all
  show ?case
    using Cons.prems f
    by (auto simp: c split: option.splits prod.splits sum.splits bool.splits if_splits dest!: Cons.IH)
qed simp

lemma stop_bindings_running:
  "br_running (fold (stop_binding owner) stale br) = (\<lambda>k. if k \<in> set stale then None else br_running br k)"
  by (induction stale arbitrary: br) (auto simp: stop_binding_simps fun_eq_iff)

lemma start_bindings_keep:
  "br_running br k = Some binding \<Longrightarrow> br_running (fold (start_binding owner now tr des) keys br) k = Some binding"
proof (induction keys arbitrary: br)
  case (Cons key keys)
  have "br_running (start_binding owner now tr des key br) k = Some binding"
    using Cons.prems claim_lease_frame(1) [of owner now key br]
    by (cases "claim_lease owner now key br") (auto simp: start_binding_def Let_def split: option.splits sum.splits bool.splits)
  with Cons.IH show ?case by simp
qed simp

text \<open>C18: A tick that stops one agent's binding - because the profiles no longer ask for it as it runs, or because its
  lease is refused - clears every conversation thread marked under the binding's id from the lease gate, whichever
  agent's binding marked it, but for the threads that the profiles provision for a binding themselves; a reply that ends
  on such a thread is dropped. All Telegram bindings have one id, all Discord ones too.\<close>

theorem stopped_binding_silences_namesakes:
  fixes br :: "('v, 'e) bridge"
  assumes gate: "gate_ok (br_gate br)"
    and br': "br' = reconcile owner now transports (Inr profiles) running_order desired_order br"
    and stops: "br_running br (a, b) \<noteq> None" "br_running br' (a, b) \<noteq> br_running br (a, b)"
    and thread: "binding_by_thread (br_gate br) t = Some b"
      "\<forall>key fp kind. desired_bindings transports profiles key \<noteq> Some (fp, t, kind)"
  shows "\<not> is_active (br_gate br') t \<and>
     handle_relay_event (br_gate br') in_flight (thread_event agent t (Run_Ended reason)) st =
       st\<lparr> pending_text := (pending_text st)(t := None) \<rparr>"
proof -
  let ?des = "desired_bindings transports profiles"
  obtain stale br1 where c: "check_running owner now ?des running_order br = (stale, br1)" by force
  note check = check_running_frame [OF c]
  define br2 where "br2 = fold (stop_binding owner) stale br1"
  have r: "br' = fold (start_binding owner now transports ?des) desired_order br2"
    by (simp add: br' reconcile_def c br2_def)
  have s: "br_running br2 = (\<lambda>k. if k \<in> set stale then None else br_running br k)"
    using check by (simp add: br2_def stop_bindings_running cong: if_cong)
  have "(a, b) \<in> set stale"
  proof (rule ccontr)
    assume "(a, b) \<notin> set stale"
    with stops(1) s obtain rb where "br_running br (a, b) = Some rb" "br_running br2 (a, b) = Some rb" by auto
    with start_bindings_keep stops(2) show False unfolding r by fastforce
  qed
  then have "\<not> is_active (br_gate br2) t"
    unfolding br2_def by (intro stop_bindings_drop [of _ t b a]) (use check stops thread(1) gate in auto)
  from start_bindings_gate [OF thread(2) this] have "\<not> is_active (br_gate br') t" by (simp add: r)
  then show ?thesis
    by (simp add: handle_relay_event_def thread_event_def relay_run_ended_def Let_def split: option.split)
qed

theorem stopped_binding_silences_namesakes_witness:
  "let br' = reconcile ''me'' 0 sample_transports (Inr [sample_profile ''a'' False, sample_profile ''b'' True])
         [(''a'', ''telegram''), (''b'', ''telegram'')] [(''b'', ''telegram'')] sample_bridge in
   br_running br' (''b'', ''telegram'') \<noteq> None \<and>
   \<not> is_active (br_gate br') ''chat-of-b'' \<and>
   handle_relay_event (br_gate br') (br_in_flight br' Kind_Telegram)
       (thread_event ''b'' ''chat-of-b'' (Run_Ended Completed_Run))
       (relay_new\<lparr> pending_text := [''chat-of-b'' \<mapsto> [104, 105]] \<rparr>) = relay_new"
proof -
  let ?ps = "[sample_profile ''a'' False, sample_profile ''b'' True]"
  let ?br = "reconcile ''me'' 0 sample_transports (Inr ?ps)
         [(''a'', ''telegram''), (''b'', ''telegram'')] [(''b'', ''telegram'')] sample_bridge"
  have d: "desired_bindings sample_transports ?ps = [(''b'', ''telegram'') \<mapsto> (''b-token'', [], Kind_Telegram)]"
    by (simp add: sample_defs)
  have known: "gate_ok (br_gate sample_bridge)"
    "br_running sample_bridge (''a'', ''telegram'') \<noteq> None"
    "binding_by_thread (br_gate sample_bridge) ''chat-of-b'' = Some ''telegram''"
    by (auto simp: sample_bridge_def gate_ok_new gate_ok_mark_active binding_mark_active)
  have run: "br_running ?br (''a'', ''telegram'') = None" "br_running ?br (''b'', ''telegram'') \<noteq> None"
    by (simp_all add: reconcile_def d sample_bridge_def claim_lease_def lease_store_new_def lease_call_defs sm_simps
        start_binding_def stop_binding_simps Let_def)
  have "br_running ?br (''a'', ''telegram'') \<noteq> br_running sample_bridge (''a'', ''telegram'')"
    using run(1) known(2) by metis
  note s = stopped_binding_silences_namesakes [OF known(1) refl known(2) this known(3)]
  have "\<forall>key fp kind. desired_bindings sample_transports ?ps key \<noteq> Some (fp, ''chat-of-b'', kind)" by (simp add: d)
  note s = s [OF this]
  have "relay_new\<lparr> pending_text := Map.empty \<rparr> = relay_new" by (simp add: relay_new_def)
  then show ?thesis
    unfolding Let_def using run(2) by (intro conjI) (simp_all add: s)
qed

end
