(* ===== verification/Conversation_Registry.thy ===== *)
theory Conversation_Registry
  imports Channel_Gate "HOL-Library.Char_ord" "HOL-Library.List_Lexorder"
begin

text \<open>
  The registry of conversations (\<open>ao-persistence/src/conversation_registry_store.rs\<close>), its garbage
  collection, the seam that releases the leases of what it evicts (\<open>channels/relay/conversation_gc.rs\<close>),
  and \<open>resolve_telegram_conversation_thread\<close> / \<open>resolve_discord_conversation_thread\<close>, which compose
  them for every inbound message.

  A \<open>BTreeMap\<close> is the list of its pairs in key order. The file of a shard \<open>(agent, binding)\<close> is the
  map it holds; reading or writing it may fail, as the registry's fault tables say.
\<close>

section \<open>Rows\<close>

type_synonym conversation_key = string

record conversation_row =
  cr_agent_id :: string
  cr_thread_id :: thread_id
  cr_created_at :: int
  cr_last_seen_at :: int

type_synonym binding_map = "(conversation_key \<times> conversation_row) list"

definition max_conversations_per_binding :: nat where
  "max_conversations_per_binding = 300"

definition idle_evict_after_days :: int where
  "idle_evict_after_days = 30"

text \<open>\<open>Duration::days\<close>, in nanoseconds.\<close>

definition duration_days :: "int \<Rightarrow> int" where
  "duration_days n = n * 86400 * 1000000000"

section \<open>\<open>BTreeMap\<close>\<close>

fun bt_insert :: "conversation_key \<Rightarrow> conversation_row \<Rightarrow> binding_map \<Rightarrow> binding_map" where
  "bt_insert k v [] = [(k, v)]"
| "bt_insert k v ((k', v') # m) =
     (if k < k' then (k, v) # (k', v') # m
      else if k = k' then (k, v) # m
      else (k', v') # bt_insert k v m)"

definition bt_remove :: "conversation_key \<Rightarrow> binding_map \<Rightarrow> binding_map" where
  "bt_remove k m = filter (\<lambda>p. fst p \<noteq> k) m"

abbreviation bt_get :: "binding_map \<Rightarrow> conversation_key \<Rightarrow> conversation_row option" where
  "bt_get m k \<equiv> map_of m k"

definition bt_ok :: "binding_map \<Rightarrow> bool" where
  "bt_ok m \<longleftrightarrow> sorted_wrt (<) (map fst m)"

section \<open>\<open>apply_gc\<close>\<close>

text \<open>\<open>if let Some(row) = map.remove(&key) { evicted.push(row) }\<close> over a list of keys.\<close>

fun evict_keys :: "conversation_key list \<Rightarrow> binding_map \<Rightarrow> conversation_row list \<Rightarrow>
    binding_map \<times> conversation_row list" where
  "evict_keys [] m evicted = (m, evicted)"
| "evict_keys (k # ks) m evicted =
     (case bt_get m k of
        Some row \<Rightarrow> evict_keys ks (bt_remove k m) (evicted @ [row])
      | None \<Rightarrow> evict_keys ks m evicted)"

definition apply_gc :: "binding_map \<Rightarrow> int \<Rightarrow> binding_map \<times> conversation_row list" where
  "apply_gc m now =
     (let idle_cutoff = now - duration_days idle_evict_after_days;
          stale_keys = map fst (filter (\<lambda>(_, row). cr_last_seen_at row \<le> idle_cutoff) m);
          (m1, evicted1) = evict_keys stale_keys m []
      in if length m1 > max_conversations_per_binding
         then let by_age = sort_key snd (map (\<lambda>(k, row). (k, cr_last_seen_at row)) m1);
                  excess = length m1 - max_conversations_per_binding
              in evict_keys (map fst (take excess by_age)) m1 evicted1
         else (m1, evicted1))"

section \<open>The store\<close>

type_synonym shard = "string \<times> binding_id"

record 'e registry =
  rg_files :: "shard \<rightharpoonup> binding_map"
  rg_read_fault :: "shard \<Rightarrow> 'e option"
  rg_write_fault :: "shard \<Rightarrow> 'e option"

definition read_binding :: "shard \<Rightarrow> ('e registry, 'e, binding_map) sm" where
  "read_binding sh =
     (\<lambda>rg. case rg_files rg sh of
        None \<Rightarrow> (Inr [], rg)
      | Some m \<Rightarrow> (case rg_read_fault rg sh of Some e \<Rightarrow> (Inl e, rg) | None \<Rightarrow> (Inr m, rg)))"

definition write_binding :: "shard \<Rightarrow> binding_map \<Rightarrow> ('e registry, 'e, unit) sm" where
  "write_binding sh m =
     (\<lambda>rg. case rg_write_fault rg sh of
        Some e \<Rightarrow> (Inl e, rg)
      | None \<Rightarrow> (Inr (), rg\<lparr> rg_files := (rg_files rg)(sh \<mapsto> m) \<rparr>))"

definition registry_get :: "string \<Rightarrow> binding_id \<Rightarrow> conversation_key \<Rightarrow>
    ('e registry, 'e, conversation_row option) sm" where
  "registry_get agent b key =
     bindE (read_binding (agent, b)) (\<lambda>m. ok (bt_get m key))"

definition registry_upsert :: "string \<Rightarrow> binding_id \<Rightarrow> conversation_key \<Rightarrow> conversation_row \<Rightarrow> int \<Rightarrow>
    ('e registry, 'e, conversation_row list) sm" where
  "registry_upsert agent b key row now =
     bindE (read_binding (agent, b)) (\<lambda>m.
       case apply_gc (bt_insert key row m) now of (m', evicted) \<Rightarrow>
         thenE (write_binding (agent, b) m') (ok evicted))"

definition registry_get_or_create :: "string \<Rightarrow> binding_id \<Rightarrow> conversation_key \<Rightarrow> int \<Rightarrow> thread_id \<Rightarrow>
    ('e registry, 'e, conversation_row) sm" where
  "registry_get_or_create agent b key now mint =
     bindE (read_binding (agent, b)) (\<lambda>m.
       let row = (case bt_get m key of
             Some existing \<Rightarrow> existing\<lparr> cr_last_seen_at := now \<rparr>
           | None \<Rightarrow> \<lparr> cr_agent_id = agent, cr_thread_id = mint, cr_created_at = now, cr_last_seen_at = now \<rparr>)
       in thenE (write_binding (agent, b) (fst (apply_gc (bt_insert key row m) now))) (ok row))"

definition registry_gc :: "string \<Rightarrow> binding_id \<Rightarrow> int \<Rightarrow> ('e registry, 'e, conversation_row list) sm" where
  "registry_gc agent b now =
     bindE (read_binding (agent, b)) (\<lambda>m.
       case apply_gc m now of (m', evicted) \<Rightarrow>
         if evicted \<noteq> [] then thenE (write_binding (agent, b) m') (ok evicted) else ok evicted)"

section \<open>Resolving an inbound message's thread\<close>

text \<open>The state of \<open>ChannelRunContext\<close> that resolving touches.\<close>

record 'e conversations =
  cv_registry :: "'e registry"
  cv_gate :: lease_gate
  cv_threads :: "thread_id set"

definition zoom_registry :: "('e registry, 'e, 'a) sm \<Rightarrow> ('e conversations, 'e, 'a) sm" where
  "zoom_registry = zoom cv_registry cv_registry_update"

definition upd_gate :: "(lease_gate \<Rightarrow> lease_gate) \<Rightarrow> ('e conversations, 'e, unit) sm" where
  "upd_gate f = upd (cv_gate_update f)"

definition run_gc_and_release_leases :: "string \<Rightarrow> binding_id \<Rightarrow> int \<Rightarrow> ('e conversations, 'e, unit) sm" where
  "run_gc_and_release_leases agent b now =
     bindE (zoom_registry (registry_gc agent b now)) (\<lambda>evicted.
       upd_gate (fold (\<lambda>row. forget_thread (cr_thread_id row)) evicted))"

text \<open>
  \<open>mint\<close> is the fresh thread id, \<open>create_fault\<close> the result of \<open>threads.create\<close> for it; the thread
  is created only when the row was minted. \<open>None\<close> is returned for every failure after the collection.
\<close>

definition resolve_conversation_thread :: "string \<Rightarrow> binding_id \<Rightarrow> conversation_key \<Rightarrow> int \<Rightarrow> thread_id \<Rightarrow>
    'e option \<Rightarrow> 'e conversations \<Rightarrow> thread_id option \<times> 'e conversations" where
  "resolve_conversation_thread agent b key now mint create_fault cv =
     (let cv1 = snd (run_gc_and_release_leases agent b now cv);
          minted = (case fst (registry_get agent b key (cv_registry cv1)) of Inr None \<Rightarrow> True | _ \<Rightarrow> False)
      in case zoom_registry (registry_get_or_create agent b key now mint) cv1 of
           (Inl e, cv2) \<Rightarrow> (None, cv2)
         | (Inr row, cv2) \<Rightarrow>
             if minted \<and> create_fault \<noteq> None then (None, cv2)
             else let cv3 = (if minted then cv2\<lparr> cv_threads := insert (cr_thread_id row) (cv_threads cv2) \<rparr> else cv2)
               in (Some (cr_thread_id row), cv3\<lparr> cv_gate := mark_active b (cr_thread_id row) (cv_gate cv3) \<rparr>))"

section \<open>The map operations\<close>

lemma map_of_bt_insert: "map_of (bt_insert k v m) = (map_of m)(k \<mapsto> v)" if "bt_ok m"
  using that
proof (induction m)
  case Nil
  then show ?case by simp
next
  case (Cons p m)
  obtain k' v' where p: "p = (k', v')" by force
  have "k \<noteq> k'' " if "k < k'" "k'' \<in> fst ` set m" for k''
    using that Cons.prems p by (force simp: bt_ok_def)
  with Cons p show ?case
    by (auto simp: bt_ok_def fun_upd_twist)
qed

lemma fst_set_bt_insert: "fst ` set (bt_insert k v m) = insert k (fst ` set m)"
proof (induction m)
  case Nil
  then show ?case by simp
next
  case (Cons p m)
  then show ?case by (cases p) (auto simp del: image_eqI)
qed

lemma bt_ok_insert: "bt_ok m \<Longrightarrow> bt_ok (bt_insert k v m)"
proof (induction m)
  case Nil
  then show ?case by (simp add: bt_ok_def)
next
  case (Cons p m)
  obtain k' v' where p: "p = (k', v')" by force
  have "\<forall>x\<in>fst ` set (bt_insert k v m). k' < x" if "k' < k"
    using Cons.prems p that by (simp add: fst_set_bt_insert) (auto simp: bt_ok_def)
  moreover have "\<forall>x\<in>fst ` set m. k < x" if "k < k'"
    using Cons.prems p that by (force simp: bt_ok_def)
  ultimately show ?case
    using Cons p by (auto simp: bt_ok_def)
qed

lemma length_bt_insert:
  "bt_ok m \<Longrightarrow> length (bt_insert k v m) = (if k \<in> fst ` set m then length m else Suc (length m))"
  by (induction m) (force simp: bt_ok_def split: if_splits)+

lemma bt_ok_remove: "bt_ok m \<Longrightarrow> bt_ok (bt_remove k m)"
  by (simp add: bt_ok_def bt_remove_def sorted_wrt_map sorted_wrt_filter)

lemma bt_ok_distinct: "bt_ok m \<Longrightarrow> distinct (map fst m)"
  by (simp add: bt_ok_def strict_sorted_iff)

lemma map_of_bt_remove: "map_of (bt_remove k m) = (map_of m)(k := None)"
  by (induction m) (auto simp: bt_remove_def)

lemma length_bt_remove:
  "distinct (map fst m) \<Longrightarrow> length (bt_remove k m) = (if k \<in> fst ` set m then length m - 1 else length m)"
proof (induction m)
  case Nil
  then show ?case by (simp add: bt_remove_def)
next
  case (Cons p m)
  have "filter (\<lambda>q. fst q \<noteq> fst p) m = m" using Cons.prems by (intro filter_True) (auto intro: rev_image_eqI)
  moreover have "m \<noteq> []" if "k \<in> fst ` set m" using that by auto
  ultimately show ?case using Cons by (auto simp: bt_remove_def image_iff Suc_pred)
qed

end
