(* ===== verification/Conversation_Properties.thy ===== *)
theory Conversation_Properties
  imports Conversation_Registry
begin

text \<open>
  Properties of the conversation registry: its bound and what a write keeps, and the leases that an
  eviction does and does not release.
\<close>

section \<open>Evicting keys\<close>

lemma evict_keys_map: "fst (evict_keys ks m ev) = filter (\<lambda>p. fst p \<notin> set ks) m"
proof (induction ks arbitrary: m ev)
  case Nil
  then show ?case by simp
next
  case (Cons k ks)
  show ?case
  proof (cases "map_of m k")
    case None
    then have "filter (\<lambda>p. fst p \<notin> set ks) m = filter (\<lambda>p. fst p \<notin> set (k # ks)) m"
      by (intro filter_cong refl) (auto simp: map_of_eq_None_iff)
    with None Cons show ?thesis by simp
  next
    case (Some row)
    with Cons [of "bt_remove k m"] show ?thesis by (simp add: bt_remove_def conj_commute)
  qed
qed

lemma evict_keys_rows:
  "snd (evict_keys ks m ev) = ev @ snd (evict_keys ks m [])"
proof (induction ks arbitrary: m ev)
  case Nil
  then show ?case by simp
next
  case (Cons k ks)
  show ?case
  proof (cases "map_of m k")
    case None
    then show ?thesis using Cons.IH [of m ev] by simp
  next
    case (Some row)
    then show ?thesis
      using Cons.IH [of "bt_remove k m" "ev @ [row]"] Cons.IH [of "bt_remove k m" "[row]"] by simp
  qed
qed

lemma evicted_rows_of_map: "row \<in> set (snd (evict_keys ks m [])) \<Longrightarrow> \<exists>k\<in>set ks. (k, row) \<in> set m"
proof (induction ks arbitrary: m)
  case Nil
  then show ?case by simp
next
  case (Cons k ks)
  show ?case
  proof (cases "map_of m k")
    case None
    with Cons show ?thesis by auto
  next
    case (Some r)
    then have "row = r \<or> row \<in> set (snd (evict_keys ks (bt_remove k m) []))"
      using Cons.prems evict_keys_rows [of ks "bt_remove k m" "[r]"] by auto
    with Some Cons.IH [of "bt_remove k m"] show ?thesis
      by (auto simp: bt_remove_def dest: map_of_SomeD)
  qed
qed

section \<open>The collection\<close>

definition idle :: "int \<Rightarrow> conversation_row \<Rightarrow> bool" where
  "idle now row \<longleftrightarrow> cr_last_seen_at row \<le> now - duration_days idle_evict_after_days"

definition live_rows :: "int \<Rightarrow> binding_map \<Rightarrow> binding_map" where
  "live_rows now m = filter (\<lambda>p. \<not> idle now (snd p)) m"

text \<open>The keys that exceed the cap, the longest unseen first.\<close>

definition excess_keys :: "binding_map \<Rightarrow> conversation_key list" where
  "excess_keys m =
     map fst (take (length m - max_conversations_per_binding)
       (sort_key snd (map (\<lambda>(k, row). (k, cr_last_seen_at row)) m)))"

lemma stale_filter:
  assumes "distinct (map fst m)"
  shows "filter (\<lambda>p. fst p \<notin> set (map fst (filter (\<lambda>(_, row). idle now row) m))) m = live_rows now m"
proof -
  have "fst p \<notin> set (map fst (filter (\<lambda>(_, row). idle now row) m)) \<longleftrightarrow> \<not> idle now (snd p)" if "p \<in> set m" for p
  proof -
    have "row = snd p" if "(fst p, row) \<in> set m" for row
      using eq_key_imp_eq_value [OF assms that] \<open>p \<in> set m\<close> by simp
    then show ?thesis using that by (auto simp: image_iff split_beta)
  qed
  then show ?thesis unfolding live_rows_def by (intro filter_cong refl) blast
qed

lemma apply_gc_map:
  assumes "bt_ok m"
  shows "fst (apply_gc m now) = filter (\<lambda>p. fst p \<notin> set (excess_keys (live_rows now m))) (live_rows now m)"
proof -
  let ?stale = "map fst (filter (\<lambda>(_, row). idle now row) m)"
  have live: "fst (evict_keys ?stale m []) = live_rows now m"
    by (simp only: evict_keys_map stale_filter [OF bt_ok_distinct [OF assms]])
  obtain m1 ev where e: "evict_keys ?stale m [] = (m1, ev)" by force
  with live have m1: "m1 = live_rows now m" by simp
  show ?thesis
  proof (cases "length m1 > max_conversations_per_binding")
    case True
    have "apply_gc m now = evict_keys (excess_keys m1) m1 ev"
      using e True by (simp add: apply_gc_def idle_def [symmetric] excess_keys_def Let_def)
    then show ?thesis by (simp add: evict_keys_map m1)
  next
    case False
    then have "excess_keys m1 = []" by (simp add: excess_keys_def)
    with e False show ?thesis by (simp add: apply_gc_def idle_def [symmetric] Let_def m1)
  qed
qed

lemma bt_ok_filter: "bt_ok m \<Longrightarrow> bt_ok (filter P m)"
  by (simp add: bt_ok_def sorted_wrt_map sorted_wrt_filter)

lemma length_filter_keys:
  assumes "distinct (map fst m)" and "set ks \<subseteq> fst ` set m" and "distinct ks"
  shows "length (filter (\<lambda>p. fst p \<notin> set ks) m) = length m - length ks"
proof -
  have "length (filter (\<lambda>p. fst p \<notin> set ks) m) = length (filter (\<lambda>k. k \<notin> set ks) (map fst m))"
    by (simp add: filter_map comp_def)
  also have "\<dots> = card (set (map fst m) - set ks)"
    by (subst distinct_card [symmetric]) (use assms(1) in \<open>auto simp: set_diff_eq intro!: arg_cong [where f = card]\<close>)
  also have "\<dots> = length m - length ks"
    using assms distinct_card [OF assms(1)] by (subst card_Diff_subset) (simp_all add: distinct_card)
  finally show ?thesis .
qed

lemma excess_keys_of_map:
  assumes "distinct (map fst m)"
  shows "set (excess_keys m) \<subseteq> fst ` set m" "distinct (excess_keys m)"
    "length (excess_keys m) = length m - max_conversations_per_binding"
proof -
  let ?ages = "map (\<lambda>(k, row). (k, cr_last_seen_at row)) m"
  have fsts: "map fst ?ages = map fst m" by (simp add: comp_def case_prod_beta)
  show "set (excess_keys m) \<subseteq> fst ` set m"
    by (auto simp: excess_keys_def dest!: in_set_takeD) force
  have "distinct (map fst ?ages)" using assms by (simp only: fsts)
  then have "distinct (map fst (sort_key snd ?ages))" by (simp only: distinct_map distinct_sort set_sort)
  then show "distinct (excess_keys m)" unfolding excess_keys_def by (simp add: take_map [symmetric])
  show "length (excess_keys m) = length m - max_conversations_per_binding"
    by (simp add: excess_keys_def)
qed

lemma apply_gc_bound:
  assumes "bt_ok m"
  shows "length (fst (apply_gc m now)) \<le> max_conversations_per_binding" and "bt_ok (fst (apply_gc m now))"
proof -
  have ok: "bt_ok (live_rows now m)" using assms by (simp add: live_rows_def bt_ok_filter)
  note d = bt_ok_distinct [OF ok]
  show "bt_ok (fst (apply_gc m now))" using ok by (simp add: apply_gc_map assms bt_ok_filter)
  show "length (fst (apply_gc m now)) \<le> max_conversations_per_binding"
    using excess_keys_of_map [OF d] by (simp add: apply_gc_map assms length_filter_keys [OF d])
qed

text \<open>A row that is seen strictly later than another one is not among the longest unseen when only one
  row is in excess.\<close>

lemma excess_one:
  assumes "length m = Suc max_conversations_per_binding"
  shows "excess_keys m = [fst (hd (sort_key snd (map (\<lambda>(k, row). (k, cr_last_seen_at row)) m)))]"
  using assms by (cases "sort_key snd (map (\<lambda>(k, row). (k, cr_last_seen_at row)) m)")
    (auto simp: excess_keys_def dest: arg_cong [where f = length])

lemma hd_sort_key_unique:
  assumes "x \<in> set xs" and "\<And>y. y \<in> set xs \<Longrightarrow> y \<noteq> x \<Longrightarrow> f x < f y"
  shows "hd (sort_key f xs) = x"
proof (cases "sort_key f xs")
  case Nil
  then have "set xs = {}" by (metis set_empty set_sort)
  with assms(1) show ?thesis by simp
next
  case (Cons y ys)
  have "\<forall>z\<in>set xs. f y \<le> f z" and y: "y \<in> set xs"
    using sorted_sort_key [of f xs] set_sort [of f xs] unfolding Cons by auto
  with assms have "y = x" by force
  with Cons show ?thesis by simp
qed


lemma map_of_filter_keys: "map_of (filter (\<lambda>p. fst p \<notin> S) m) k = (if k \<in> S then None else map_of m k)"
  by (induction m) auto

lemma map_of_live_rows:
  "distinct (map fst m) \<Longrightarrow>
     map_of (live_rows now m) k = (case map_of m k of Some r \<Rightarrow> if idle now r then None else Some r | None \<Rightarrow> None)"
proof (induction m)
  case Nil
  then show ?case by (simp add: live_rows_def)
next
  case (Cons p m)
  have "map_of (live_rows now m) (fst p) = None"
    using Cons.prems by (auto simp: live_rows_def map_of_eq_None_iff)
  with Cons show ?case by (auto simp: live_rows_def split: option.splits)
qed

lemma live_rows_all: "(\<And>k r. (k, r) \<in> set m \<Longrightarrow> \<not> idle now r) \<Longrightarrow> live_rows now m = m"
  unfolding live_rows_def by (rule filter_True) auto

lemma now_not_idle [simp]: "cr_last_seen_at r = now \<Longrightarrow> \<not> idle now r"
  by (simp add: idle_def duration_days_def idle_evict_after_days_def)

lemma length_live_rows: "length (live_rows now m) \<le> length m"
  by (simp add: live_rows_def)

section \<open>\<open>get_or_create\<close>\<close>

definition shard_rows :: "'e registry \<Rightarrow> shard \<Rightarrow> binding_map" where
  "shard_rows rg sh = (case rg_files rg sh of Some m \<Rightarrow> m | None \<Rightarrow> [])"

definition created_row :: "string \<Rightarrow> conversation_key \<Rightarrow> int \<Rightarrow> thread_id \<Rightarrow> binding_map \<Rightarrow> conversation_row" where
  "created_row agent key now mint m =
     (case bt_get m key of
        Some existing \<Rightarrow> existing\<lparr> cr_last_seen_at := now \<rparr>
      | None \<Rightarrow> \<lparr> cr_agent_id = agent, cr_thread_id = mint, cr_created_at = now, cr_last_seen_at = now \<rparr>)"

lemma created_row_seen [simp]: "cr_last_seen_at (created_row agent key now mint m) = now"
  by (simp add: created_row_def split: option.split)

lemma get_or_create_eq:
  assumes "rg_read_fault rg (agent, b) = None" and "rg_write_fault rg (agent, b) = None"
  shows "registry_get_or_create agent b key now mint rg =
     (let m = shard_rows rg (agent, b); row = created_row agent key now mint m in
      (Inr row, rg\<lparr> rg_files := (rg_files rg)((agent, b) \<mapsto> fst (apply_gc (bt_insert key row m) now)) \<rparr>))"
  using assms
  by (simp add: registry_get_or_create_def read_binding_def write_binding_def bindE_def ok_def shard_rows_def
      created_row_def Let_def split: option.split)

text \<open>When the registry's file can be read and written, an inbound message gets its conversation's
  thread, or the minted one if the conversation is new; afterwards the shard has at most 300 rows, none
  idle, in key order; no other conversation's row is changed; and while fewer than 300 conversations
  are registered the conversation itself and every one that is not idle are kept.\<close>

theorem registry_write_bounded:
  assumes faults: "rg_read_fault rg (agent, b) = None" "rg_write_fault rg (agent, b) = None"
    and ok: "bt_ok (shard_rows rg (agent, b))"
  shows "\<exists>row rg'. registry_get_or_create agent b key now mint rg = (Inr row, rg') \<and>
     (let old = shard_rows rg (agent, b); new = shard_rows rg' (agent, b) in
        cr_last_seen_at row = now \<and>
        cr_thread_id row = (case bt_get old key of Some r \<Rightarrow> cr_thread_id r | None \<Rightarrow> mint) \<and>
        length new \<le> max_conversations_per_binding \<and> bt_ok new \<and>
        list_all (\<lambda>(k, r). \<not> idle now r) new \<and>
        (\<forall>k. k \<noteq> key \<longrightarrow> bt_get new k = None \<or> bt_get new k = bt_get old k) \<and>
        (length old < max_conversations_per_binding \<longrightarrow>
           bt_get new key = Some row \<and>
           (\<forall>k r. k \<noteq> key \<longrightarrow> bt_get old k = Some r \<longrightarrow> \<not> idle now r \<longrightarrow> bt_get new k = Some r)))"
proof -
  define old where "old = shard_rows rg (agent, b)"
  define row where "row = created_row agent key now mint old"
  define ins where "ins = bt_insert key row old"
  define new where "new = fst (apply_gc ins now)"
  have ok': "bt_ok ins" using ok by (simp add: ins_def old_def bt_ok_insert)
  note d = bt_ok_distinct [OF ok']
  have new: "new = filter (\<lambda>p. fst p \<notin> set (excess_keys (live_rows now ins))) (live_rows now ins)"
    by (simp add: new_def apply_gc_map ok')
  have get: "bt_get new k = (if k \<in> set (excess_keys (live_rows now ins)) then None
      else case bt_get ins k of Some r \<Rightarrow> if idle now r then None else Some r | None \<Rightarrow> None)" for k
    by (simp add: new map_of_filter_keys map_of_live_rows [OF d])
  have ins: "bt_get ins k = (if k = key then Some row else bt_get old k)" for k
    using ok by (simp add: ins_def old_def map_of_bt_insert)
  have row: "cr_last_seen_at row = now" "\<not> idle now row"
    "cr_thread_id row = (case bt_get old key of Some r \<Rightarrow> cr_thread_id r | None \<Rightarrow> mint)"
    by (simp_all add: row_def) (simp add: created_row_def split: option.split)
  have live: "list_all (\<lambda>(k, r). \<not> idle now r) new"
    by (auto simp: new live_rows_def list_all_iff)
  have others: "\<forall>k. k \<noteq> key \<longrightarrow> bt_get new k = None \<or> bt_get new k = bt_get old k"
    by (auto simp: get ins split: option.split)
  have small: "excess_keys (live_rows now ins) = []" if "length old < max_conversations_per_binding"
  proof -
    have "length ins \<le> Suc (length old)" using ok by (simp add: ins_def old_def length_bt_insert)
    then have "length (live_rows now ins) \<le> max_conversations_per_binding"
      using that length_live_rows [of now ins] by linarith
    then show ?thesis by (simp add: excess_keys_def)
  qed
  have kept: "length old < max_conversations_per_binding \<longrightarrow> bt_get new key = Some row \<and>
      (\<forall>k r. k \<noteq> key \<longrightarrow> bt_get old k = Some r \<longrightarrow> \<not> idle now r \<longrightarrow> bt_get new k = Some r)"
    using small row(2) by (simp add: get ins)
  have run: "registry_get_or_create agent b key now mint rg =
      (Inr row, rg\<lparr> rg_files := (rg_files rg)((agent, b) \<mapsto> new) \<rparr>)"
    by (simp add: get_or_create_eq [OF faults] Let_def new_def ins_def row_def old_def)
  have "shard_rows (rg\<lparr> rg_files := (rg_files rg)((agent, b) \<mapsto> new) \<rparr>) (agent, b) = new"
    by (simp add: shard_rows_def)
  with run row live others kept apply_gc_bound [OF ok', of now] show ?thesis
    by (intro exI [of _ row] exI [of _ "rg\<lparr> rg_files := (rg_files rg)((agent, b) \<mapsto> new) \<rparr>"])
       (simp add: Let_def old_def [symmetric] new_def [symmetric])
qed

theorem registry_write_bounded_witness:
  "\<exists>row rg'. registry_get_or_create ''a'' ''b'' ''k'' 5 ''t''
       (\<lparr> rg_files = Map.empty, rg_read_fault = \<lambda>_. None, rg_write_fault = \<lambda>_. None \<rparr> :: unit registry) = (Inr row, rg') \<and>
     cr_thread_id row = ''t'' \<and> bt_get (shard_rows rg' (''a'', ''b'')) ''k'' = Some row"
proof -
  have "bt_ok (shard_rows (\<lparr> rg_files = Map.empty, rg_read_fault = \<lambda>_. None, rg_write_fault = \<lambda>_. None \<rparr> :: unit registry) (''a'', ''b''))"
    by (simp add: shard_rows_def bt_ok_def)
  from registry_write_bounded [OF _ _ this, of "''k''" 5 "''t''"] show ?thesis
    by (auto simp: Let_def shard_rows_def max_conversations_per_binding_def)
qed


section \<open>Evictions and leases\<close>

lemma gc_idle_free:
  assumes "shard_rows rg (agent, b) = m" and "rg_read_fault rg (agent, b) = None"
    and "length m \<le> max_conversations_per_binding" and "\<And>k r. (k, r) \<in> set m \<Longrightarrow> \<not> idle now r"
  shows "registry_gc agent b now rg = (Inr [], rg)"
proof -
  have "filter (\<lambda>(_, row). idle now row) m = []" using assms(4) by (auto simp: filter_empty_conv)
  then have "apply_gc m now = (m, [])"
    using assms(3) by (simp add: apply_gc_def idle_def [symmetric] Let_def)
  then show ?thesis
    using assms(1,2) by (auto simp: registry_gc_def read_binding_def bindE_def ok_def shard_rows_def split: option.splits)
qed

text \<open>A message of a new conversation for a full shard, none of whose rows is idle, evicts the row
  longest unseen inside \<open>get_or_create\<close>, which drops it: the conversation is gone from the registry,
  yet the lease gate goes on holding its thread. The pass that releases the leases of evicted rows
  runs before, when nothing is in excess.\<close>

theorem cap_eviction_keeps_lease:
  assumes shard: "rg_files (cv_registry cv) (agent, b) = Some m" "bt_ok m"
      "length m = max_conversations_per_binding"
    and faults: "rg_read_fault (cv_registry cv) (agent, b) = None" "rg_write_fault (cv_registry cv) (agent, b) = None"
    and rows: "\<And>k r. (k, r) \<in> set m \<Longrightarrow> \<not> idle now r \<and> cr_last_seen_at r < now"
    and oldest: "(k0, r0) \<in> set m" "\<And>k r. (k, r) \<in> set m \<Longrightarrow> k \<noteq> k0 \<Longrightarrow> cr_last_seen_at r0 < cr_last_seen_at r"
    and fresh: "bt_get m key = None"
    and held: "is_active (cv_gate cv) (cr_thread_id r0)"
  shows "\<exists>cv'. resolve_conversation_thread agent b key now mint None cv = (Some mint, cv') \<and>
     bt_get (shard_rows (cv_registry cv') (agent, b)) k0 = None \<and> is_active (cv_gate cv') (cr_thread_id r0)"
proof -
  let ?rg = "cv_registry cv"
  define row where "row = created_row agent key now mint m"
  define ins where "ins = bt_insert key row m"
  have sh: "shard_rows ?rg (agent, b) = m" using shard(1) by (simp add: shard_rows_def)
  have "registry_gc agent b now ?rg = (Inr [], ?rg)"
    by (rule gc_idle_free [OF sh faults(1)]) (use shard(3) rows in auto)
  then have gc: "run_gc_and_release_leases agent b now cv = (Inr (), cv)"
    by (simp add: run_gc_and_release_leases_def zoom_registry_def upd_gate_def bindE_def sm_simps)
  have get: "registry_get agent b key ?rg = (Inr None, ?rg)"
    using shard(1) faults(1) fresh by (simp add: registry_get_def read_binding_def bindE_def ok_def)
  have create: "registry_get_or_create agent b key now mint ?rg =
      (Inr row, ?rg\<lparr> rg_files := (rg_files ?rg)((agent, b) \<mapsto> fst (apply_gc ins now)) \<rparr>)"
    by (simp add: get_or_create_eq [OF faults] sh row_def ins_def Let_def)
  have okm: "bt_ok ins" using shard(2) by (simp add: ins_def bt_ok_insert)
  have nkey: "key \<notin> fst ` set m" using fresh by (simp add: map_of_eq_None_iff)
  have "set ins = insert (key, row) (set m)"
  proof -
    have "(k, r) \<in> set ins \<longleftrightarrow> (k, r) = (key, row) \<or> (k, r) \<in> set m" for k r
    proof -
      have "(k, r) \<in> set ins \<longleftrightarrow> map_of ins k = Some r"
        using bt_ok_distinct [OF okm] by (simp add: map_of_eq_Some_iff)
      also have "\<dots> \<longleftrightarrow> (k, r) = (key, row) \<or> map_of m k = Some r"
        using shard(2) fresh by (auto simp: ins_def map_of_bt_insert)
      also have "\<dots> \<longleftrightarrow> (k, r) = (key, row) \<or> (k, r) \<in> set m"
        using bt_ok_distinct [OF shard(2)] by (simp add: map_of_eq_Some_iff)
      finally show ?thesis .
    qed
    then show ?thesis by auto
  qed
  note elems = this
  have live: "live_rows now ins = ins"
    by (rule live_rows_all) (use elems rows in \<open>auto simp: row_def\<close>)
  have len: "length ins = Suc max_conversations_per_binding"
    using nkey shard(2,3) by (simp add: ins_def length_bt_insert)
  have hd: "hd (sort_key snd (map (\<lambda>(k, row). (k, cr_last_seen_at row)) ins)) = (k0, cr_last_seen_at r0)"
  proof (rule hd_sort_key_unique)
    show "(k0, cr_last_seen_at r0) \<in> set (map (\<lambda>(k, row). (k, cr_last_seen_at row)) ins)"
      using oldest(1) elems by force
    fix y
    assume "y \<in> set (map (\<lambda>(k, row). (k, cr_last_seen_at row)) ins)" and ne: "y \<noteq> (k0, cr_last_seen_at r0)"
    then obtain k r where kr: "(k, r) = (key, row) \<or> (k, r) \<in> set m" "y = (k, cr_last_seen_at r)"
      using elems by auto
    have "r = r0" if "(k0, r) \<in> set m"
      using eq_key_imp_eq_value [OF bt_ok_distinct [OF shard(2)] that oldest(1)] .
    with kr ne oldest rows [OF oldest(1)] show "snd (k0, cr_last_seen_at r0) < snd y"
      by (auto simp: row_def)
  qed
  have "bt_get (fst (apply_gc ins now)) k0 = None"
    by (simp add: apply_gc_map [OF okm] live excess_one [OF len] hd map_of_bt_remove [unfolded bt_remove_def])
  moreover have "cr_thread_id row = mint" using fresh by (simp add: row_def created_row_def)
  moreover have "is_active (mark_active b t (cv_gate cv)) (cr_thread_id r0)" for t
    using held by (auto simp: is_active_def binding_mark_active)
  ultimately show ?thesis
    by (auto simp: resolve_conversation_thread_def gc get create zoom_registry_def sm_simps Let_def shard_rows_def)
qed


text \<open>A full shard: the \<open>i\<close>-th of 300 conversations was last seen at time \<open>i\<close>.\<close>

definition full_shard :: binding_map where
  "full_shard = map (\<lambda>i. (replicate i CHR ''a'',
     \<lparr> cr_agent_id = ''agent'', cr_thread_id = ''t'' @ replicate i CHR ''a'', cr_created_at = 0,
       cr_last_seen_at = int i \<rparr>)) [0..<300]"

lemma replicate_less: "i < j \<Longrightarrow> replicate i c < replicate j (c :: char)"
proof (induction i arbitrary: j)
  case 0
  then show ?case by (cases j) simp_all
next
  case (Suc i)
  then show ?case by (cases j) simp_all
qed

lemma bt_ok_full_shard: "bt_ok full_shard"
proof -
  have "sorted_wrt (<) (map (\<lambda>i. replicate i CHR ''a'') [0..<n])" for n
    by (simp add: sorted_wrt_map sorted_wrt_iff_nth_less replicate_less)
  then show ?thesis by (simp add: bt_ok_def full_shard_def comp_def)
qed

definition full_conversations :: "unit conversations" where
  "full_conversations =
     \<lparr> cv_registry = \<lparr> rg_files = [(''agent'', ''telegram'') \<mapsto> full_shard], rg_read_fault = \<lambda>_. None,
         rg_write_fault = \<lambda>_. None \<rparr>,
       cv_gate = mark_active ''telegram'' ''t'' gate_new, cv_threads = {} \<rparr>"

theorem cap_eviction_keeps_lease_witness:
  "\<exists>cv'. resolve_conversation_thread ''agent'' ''telegram'' ''new'' 1000 ''minted'' None full_conversations = (Some ''minted'', cv') \<and>
     bt_get (shard_rows (cv_registry cv') (''agent'', ''telegram'')) [] = None \<and> is_active (cv_gate cv') ''t''"
proof -
  let ?r0 = "\<lparr> cr_agent_id = ''agent'', cr_thread_id = ''t'', cr_created_at = 0, cr_last_seen_at = 0 \<rparr>"
  have fresh: "bt_get full_shard ''new'' = None"
    unfolding map_of_eq_None_iff full_shard_def by (auto simp: Cons_replicate_eq)
  have rows: "\<not> idle 1000 r \<and> cr_last_seen_at r < 1000" if "(k, r) \<in> set full_shard" for k r
    using that by (auto simp: full_shard_def idle_def duration_days_def idle_evict_after_days_def)
  have later: "cr_last_seen_at ?r0 < cr_last_seen_at r" if "(k, r) \<in> set full_shard" "k \<noteq> []" for k r
    using that by (auto simp: full_shard_def)
  have first: "([], ?r0) \<in> set full_shard" by (force simp: full_shard_def)
  have "\<exists>cv'. resolve_conversation_thread ''agent'' ''telegram'' ''new'' 1000 ''minted'' None full_conversations = (Some ''minted'', cv') \<and>
     bt_get (shard_rows (cv_registry cv') (''agent'', ''telegram'')) [] = None \<and> is_active (cv_gate cv') (cr_thread_id ?r0)"
    by (rule cap_eviction_keeps_lease [OF _ bt_ok_full_shard _ _ _ rows first later fresh])
       (simp_all add: full_conversations_def full_shard_def max_conversations_per_binding_def is_active_def
          binding_mark_active)
  then show ?thesis by simp
qed

end
