(* ===== verification/Tag_Scanner.thy ===== *)
theory Tag_Scanner
  imports Message_Chunks
begin

text \<open>
  The scanner that strips recognized action tags from the streamed text of a run and reports their
  life cycle (\<open>ao-engine/src/tag_stream_scanner.rs\<close>).

  Parameters: \<open>captures\<close> is what the attribute regex finds in a tag's attribute string, in order;
  \<open>uuid\<close> is the sequence of ids that \<open>Uuid::new_v4\<close> returns, of which \<open>sc_next\<close> have been used.
\<close>

section \<open>State and events\<close>

datatype scanner_event =
    Action_Started string string utext
  | Action_Completed string

datatype scan_state =
    Scan_Normal
  | In_Header utext
  | In_Body utext string
  | In_Body_Header utext string utext

record scanner =
  sc_state :: scan_state
  sc_open_stack :: "(utext \<times> string) list"
  sc_next :: nat

definition scanner_new :: scanner where
  "scanner_new = \<lparr> sc_state = Scan_Normal, sc_open_stack = [], sc_next = 0 \<rparr>"

abbreviation c_lt :: nat where "c_lt \<equiv> 60"
abbreviation c_gt :: nat where "c_gt \<equiv> 62"
abbreviation c_slash :: nat where "c_slash \<equiv> 47"
abbreviation c_underscore :: nat where "c_underscore \<equiv> 95"

definition is_ascii_alphanumeric :: "nat \<Rightarrow> bool" where
  "is_ascii_alphanumeric c \<longleftrightarrow> 48 \<le> c \<and> c \<le> 57 \<or> 65 \<le> c \<and> c \<le> 90 \<or> 97 \<le> c \<and> c \<le> 122"

section \<open>Tags\<close>

definition utrim_end :: "utext \<Rightarrow> utext" where
  "utrim_end t = rev (dropWhile is_whitespace (rev t))"

definition utrim :: "utext \<Rightarrow> utext" where
  "utrim t = utrim_end (dropWhile is_whitespace t)"

text \<open>\<open>splitn(2, char::is_whitespace)\<close>: the name, and what follows the first white space.\<close>

definition split_name :: "utext \<Rightarrow> utext \<times> utext" where
  "split_name t = (takeWhile (\<lambda>c. \<not> is_whitespace c) t, drop 1 (dropWhile (\<lambda>c. \<not> is_whitespace c) t))"

text \<open>The attributes as a map: a repeated key keeps its last value.\<close>

definition parse_attrs :: "(utext \<Rightarrow> (utext \<times> utext) list) \<Rightarrow> utext \<Rightarrow> (utext \<rightharpoonup> utext)" where
  "parse_attrs captures s = map_of (rev (captures s))"

definition resolve_tag :: "utext \<Rightarrow> (utext \<rightharpoonup> utext) \<Rightarrow> (string \<times> utext) option" where
  "resolve_tag name attrs =
     (let action = (case attrs (text_of ''action'') of Some a \<Rightarrow> a | None \<Rightarrow> []) in
      if name = text_of ''task'' then
        (if action = text_of ''complete'' then Some (''task_complete'', text_of ''Completing task'' @ [8230])
         else if action = text_of ''fail'' then Some (''task_fail'', text_of ''Failing task'' @ [8230])
         else if action = text_of ''request_clarification''
         then Some (''task_request_clarification'', text_of ''Requesting clarification'' @ [8230])
         else Some (''task'', text_of ''Updating task'' @ [8230]))
      else if name = text_of ''tasklist'' then
        (if action = text_of ''create'' then Some (''tasklist_create'', text_of ''Creating tasklist'' @ [8230])
         else Some (''tasklist'', text_of ''Managing tasklist'' @ [8230]))
      else None)"

definition is_matching_close_tag :: "utext \<Rightarrow> utext \<Rightarrow> bool" where
  "is_matching_close_tag raw name \<longleftrightarrow>
     raw \<noteq> [] \<and> hd raw = c_lt \<and> tl raw \<noteq> [] \<and> last (tl raw) = c_gt \<and>
     (let inner = utrim (butlast (tl raw)) in
        inner \<noteq> [] \<and> hd inner = c_slash \<and> utrim (tl inner) = name)"

text \<open>\<open>rposition\<close> and \<open>remove\<close>: the last entry that satisfies \<open>P\<close> goes.\<close>

fun remove_last :: "('a \<Rightarrow> bool) \<Rightarrow> 'a list \<Rightarrow> 'a list" where
  "remove_last P [] = []"
| "remove_last P (x # xs) =
     (if list_ex P xs then x # remove_last P xs else if P x then xs else x # xs)"

definition pop_stack_by_action_id :: "string \<Rightarrow> (utext \<times> string) list \<Rightarrow> (utext \<times> string) list" where
  "pop_stack_by_action_id action_id stack = remove_last (\<lambda>(_, a). a = action_id) stack"

section \<open>Scanning\<close>

text \<open>The scanner together with the text and the events it has put out.\<close>

type_synonym scan = "scanner \<times> utext \<times> scanner_event list"

definition handle_resolved_header :: "(utext \<Rightarrow> (utext \<times> utext) list) \<Rightarrow> (nat \<Rightarrow> string) \<Rightarrow> utext \<Rightarrow> scan \<Rightarrow> scan" where
  "handle_resolved_header captures uuid raw s =
     (case s of (sc, out, events) \<Rightarrow>
        let literal = (sc\<lparr> sc_state := Scan_Normal \<rparr>, out @ raw, events);
            inner0 = butlast (tl raw) in
        if inner0 \<noteq> [] \<and> hd inner0 = c_slash then literal
        else
          let self_closing = (inner0 \<noteq> [] \<and> last inner0 = c_slash);
              inner = (if self_closing then utrim_end (butlast inner0) else inner0);
              (name, rest) = split_name inner in
          if name = [] then literal
          else (case resolve_tag name (parse_attrs captures (utrim rest)) of
              Some (kind, summary) \<Rightarrow>
                let action_id = uuid (sc_next sc) in
                (sc\<lparr> sc_state := (if self_closing then Scan_Normal else In_Body name action_id),
                     sc_open_stack := sc_open_stack sc @ [(name, action_id)],
                     sc_next := Suc (sc_next sc) \<rparr>,
                 out, events @ [Action_Started action_id kind summary])
            | None \<Rightarrow> literal))"

definition scan_step :: "(utext \<Rightarrow> (utext \<times> utext) list) \<Rightarrow> (nat \<Rightarrow> string) \<Rightarrow> nat \<Rightarrow> scan \<Rightarrow> scan" where
  "scan_step captures uuid ch s =
     (case s of (sc, out, events) \<Rightarrow>
        (case sc_state sc of
           Scan_Normal \<Rightarrow>
             if ch = c_lt then (sc\<lparr> sc_state := In_Header [c_lt] \<rparr>, out, events)
             else (sc, out @ [ch], events)
         | In_Header buf \<Rightarrow>
             if length buf = 1 \<and> ch \<noteq> c_slash \<and> \<not> is_ascii_alphanumeric ch \<and> ch \<noteq> c_underscore
             then (sc\<lparr> sc_state := Scan_Normal \<rparr>, out @ buf @ [ch], events)
             else if ch = c_lt then (sc\<lparr> sc_state := In_Header [c_lt] \<rparr>, out @ buf, events)
             else if ch = c_gt then handle_resolved_header captures uuid (buf @ [c_gt]) (sc, out, events)
             else (sc\<lparr> sc_state := In_Header (buf @ [ch]) \<rparr>, out, events)
         | In_Body name action_id \<Rightarrow>
             if ch = c_lt then (sc\<lparr> sc_state := In_Body_Header name action_id [c_lt] \<rparr>, out, events)
             else (sc, out, events)
         | In_Body_Header name action_id buf \<Rightarrow>
             if ch = c_lt then (sc\<lparr> sc_state := In_Body_Header name action_id [c_lt] \<rparr>, out, events)
             else if ch = c_gt then
               (if is_matching_close_tag (buf @ [c_gt]) name
                then (sc\<lparr> sc_state := Scan_Normal,
                           sc_open_stack := pop_stack_by_action_id action_id (sc_open_stack sc) \<rparr>,
                      out, events @ [Action_Completed action_id])
                else (sc\<lparr> sc_state := In_Body name action_id \<rparr>, out, events))
             else (sc\<lparr> sc_state := In_Body_Header name action_id (buf @ [ch]) \<rparr>, out, events)))"

definition feed :: "(utext \<Rightarrow> (utext \<times> utext) list) \<Rightarrow> (nat \<Rightarrow> string) \<Rightarrow> utext \<Rightarrow> scanner \<Rightarrow> scan" where
  "feed captures uuid delta sc = fold (scan_step captures uuid) delta (sc, [], [])"

text \<open>The end of the stream: a partial header is text after all; open actions are completed, the last
  opened first.\<close>

definition drain :: "scanner \<Rightarrow> scan" where
  "drain sc =
     (sc\<lparr> sc_state := Scan_Normal, sc_open_stack := [] \<rparr>,
      (case sc_state sc of In_Header buf \<Rightarrow> buf | _ \<Rightarrow> []),
      map (\<lambda>(_, a). Action_Completed a) (rev (sc_open_stack sc)))"

text \<open>How the runner of command-line agents uses it (\<open>agent_runner/cli.rs\<close>): a text delta is fed and replaced
  by what is shown; the end of a text drains the scanner, whose flushed text is dropped, and starts a new
  one. The events of one payload come with it.\<close>

datatype stream_payload = Text_Delta utext | Text_Complete utext | Other_Payload

definition apply_tag_scanner ::
  "(utext \<Rightarrow> (utext \<times> utext) list) \<Rightarrow> (nat \<Rightarrow> string) \<Rightarrow> stream_payload \<Rightarrow> scanner \<Rightarrow>
     scanner \<times> stream_payload \<times> scanner_event list" where
  "apply_tag_scanner captures uuid payload sc =
     (case payload of
        Text_Delta delta \<Rightarrow>
          (case feed captures uuid delta sc of (sc1, stripped, events) \<Rightarrow> (sc1, Text_Delta stripped, events))
      | Text_Complete full \<Rightarrow>
          (case drain sc of (sc1, flushed, events) \<Rightarrow>
             (scanner_new\<lparr> sc_next := sc_next sc1 \<rparr>, Text_Complete full, events))
      | Other_Payload \<Rightarrow> (sc, Other_Payload, []))"

fun apply_all ::
  "(utext \<Rightarrow> (utext \<times> utext) list) \<Rightarrow> (nat \<Rightarrow> string) \<Rightarrow> stream_payload list \<Rightarrow> scanner \<Rightarrow>
     scanner \<times> stream_payload list \<times> scanner_event list" where
  "apply_all captures uuid [] sc = (sc, [], [])"
| "apply_all captures uuid (p # ps) sc =
     (case apply_tag_scanner captures uuid p sc of (sc1, p1, ev1) \<Rightarrow>
        (case apply_all captures uuid ps sc1 of (sc2, ps2, ev2) \<Rightarrow> (sc2, p1 # ps2, ev1 @ ev2)))"

text \<open>What the deltas of a stream add up to.\<close>

fun delta_text :: "stream_payload list \<Rightarrow> utext" where
  "delta_text [] = []"
| "delta_text (Text_Delta d # ps) = d @ delta_text ps"
| "delta_text (_ # ps) = delta_text ps"

section \<open>Outputs only grow\<close>

lemma header_acc:
  "handle_resolved_header captures uuid raw (sc, out, ev) =
     (case handle_resolved_header captures uuid raw (sc, [], []) of (sc', o', e') \<Rightarrow> (sc', out @ o', ev @ e'))"
  by (simp add: handle_resolved_header_def Let_def split: prod.split option.split)

lemma scan_step_acc:
  "scan_step captures uuid ch (sc, out, ev) =
     (case scan_step captures uuid ch (sc, [], []) of (sc', o', e') \<Rightarrow> (sc', out @ o', ev @ e'))"
  using header_acc [of captures uuid _ sc out ev]
  by (simp add: scan_step_def split: scan_state.split)

lemma scan_fold_acc:
  "fold (scan_step captures uuid) cs (sc, out, ev) =
     (case fold (scan_step captures uuid) cs (sc, [], []) of (sc', o', e') \<Rightarrow> (sc', out @ o', ev @ e'))"
proof (induction cs arbitrary: sc out ev)
  case Nil
  then show ?case by simp
next
  case (Cons c cs)
  obtain sc' o' e' where s: "scan_step captures uuid c (sc, [], []) = (sc', o', e')" by (metis prod_cases3)
  obtain sc2 o2 e2 where f: "fold (scan_step captures uuid) cs (sc', [], []) = (sc2, o2, e2)" by (metis prod_cases3)
  have 1: "scan_step captures uuid c (sc, out, ev) = (sc', out @ o', ev @ e')"
    by (subst scan_step_acc) (simp add: s)
  have 2: "fold (scan_step captures uuid) cs (sc', x @ o', y @ e') = (sc2, (x @ o') @ o2, (y @ e') @ e2)" for x y
    by (subst Cons.IH) (simp add: f)
  show ?case using 2 [of "[]" "[]"] by (simp add: 1 2 s)
qed

lemma apply_all_append:
  "apply_all captures uuid (ps @ qs) sc =
     (case apply_all captures uuid ps sc of (sc1, ps1, ev1) \<Rightarrow>
        (case apply_all captures uuid qs sc1 of (sc2, ps2, ev2) \<Rightarrow> (sc2, ps1 @ ps2, ev1 @ ev2)))"
  by (induction ps arbitrary: sc) (simp_all split: prod.split)

text \<open>Within one text the runner's cutting into deltas does not matter.\<close>

lemma apply_all_feed:
  "(\<And>t. Text_Complete t \<notin> set ps) \<Longrightarrow> apply_all captures uuid ps sc = (sc', ps', evs) \<Longrightarrow>
     feed captures uuid (delta_text ps) sc = (sc', delta_text ps', evs)"
proof (induction ps arbitrary: sc sc' ps' evs)
  case Nil
  then show ?case by (simp add: feed_def)
next
  case (Cons p ps)
  obtain sc1 p1 ev1 where p: "apply_tag_scanner captures uuid p sc = (sc1, p1, ev1)" by (metis prod_cases3)
  obtain sc2 ps2 ev2 where ps: "apply_all captures uuid ps sc1 = (sc2, ps2, ev2)" by (metis prod_cases3)
  have IH: "feed captures uuid (delta_text ps) sc1 = (sc2, delta_text ps2, ev2)"
    using Cons.IH Cons.prems(1) ps by simp
  show ?case
  proof (cases p)
    case (Text_Delta d)
    then obtain o1 where f: "feed captures uuid d sc = (sc1, o1, ev1)" and p1: "p1 = Text_Delta o1"
      using p by (auto simp: apply_tag_scanner_def split: prod.splits)
    have "fold (scan_step captures uuid) (delta_text ps) (sc1, o1, ev1) =
        (case feed captures uuid (delta_text ps) sc1 of (sc', o', e') \<Rightarrow> (sc', o1 @ o', ev1 @ e'))"
      unfolding feed_def by (rule scan_fold_acc)
    with f IH p ps p1 Text_Delta Cons.prems(2) show ?thesis by (auto simp: feed_def)
  next
    case (Text_Complete t)
    with Cons.prems(1) show ?thesis by auto
  next
    case Other_Payload
    with IH p ps Cons.prems(2) show ?thesis by (auto simp: apply_tag_scanner_def)
  qed
qed

end
