(* ===== verification/Scanner_Properties.thy ===== *)
theory Scanner_Properties
  imports Tag_Scanner "HOL-Library.Multiset"
begin

text \<open>
  Properties of the tag scanner: every action it starts is completed exactly once, text that holds no
  recognized tag reaches the reader unchanged however it is chunked, and a recognized tag disappears
  with its body.
\<close>

section \<open>Starts and completions\<close>

fun started :: "scanner_event list \<Rightarrow> string list" where
  "started [] = []"
| "started (Action_Started i _ _ # evs) = i # started evs"
| "started (Action_Completed _ # evs) = started evs"

fun completed :: "scanner_event list \<Rightarrow> string list" where
  "completed [] = []"
| "completed (Action_Completed i # evs) = i # completed evs"
| "completed (Action_Started _ _ _ # evs) = completed evs"

lemma started_append [simp]: "started (xs @ ys) = started xs @ started ys"
  by (induction xs rule: started.induct) simp_all

lemma completed_append [simp]: "completed (xs @ ys) = completed xs @ completed ys"
  by (induction xs rule: completed.induct) simp_all

lemma drain_completed [simp]:
  "completed (map (\<lambda>(_, a). Action_Completed a) st) = map snd st" "started (map (\<lambda>(_, a). Action_Completed a) st) = []"
  by (induction st) auto

lemma mset_pop:
  "i \<in> snd ` set st \<Longrightarrow> add_mset i (mset (map snd (pop_stack_by_action_id i st))) = mset (map snd st)"
proof (induction st)
  case Nil
  then show ?case by simp
next
  case (Cons p st)
  obtain n a where p: "p = (n, a)" by force
  show ?case
  proof (cases "i \<in> snd ` set st")
    case True
    then have "list_ex (\<lambda>(_, a). a = i) st" by (auto simp: list_ex_iff)
    with Cons.IH [OF True] show ?thesis
      by (simp add: pop_stack_by_action_id_def p add_mset_commute)
  next
    case False
    then have "\<not> list_ex (\<lambda>(_, a). a = i) st" by (force simp: list_ex_iff)
    with False Cons.prems p show ?thesis by (simp add: pop_stack_by_action_id_def)
  qed
qed

definition open_ids :: "scanner \<Rightarrow> string multiset" where
  "open_ids sc = mset (map snd (sc_open_stack sc))"

definition current_id :: "scan_state \<Rightarrow> string option" where
  "current_id st = (case st of In_Body _ i \<Rightarrow> Some i | In_Body_Header _ i _ \<Rightarrow> Some i | _ \<Rightarrow> None)"

definition balanced :: "scanner_event list \<Rightarrow> bool" where
  "balanced evs \<longleftrightarrow> (\<forall>pre. prefix pre evs \<longrightarrow> mset (completed pre) \<subseteq># mset (started pre))"

lemma balanced_snoc: "balanced evs \<Longrightarrow> mset (completed (evs @ [e])) \<subseteq># mset (started (evs @ [e])) \<Longrightarrow> balanced (evs @ [e])"
  by (auto simp: balanced_def prefix_snoc simp del: completed_append started_append)

fun scan_inv :: "(nat \<Rightarrow> string) \<Rightarrow> scan \<Rightarrow> bool" where
  "scan_inv uuid (sc, out, evs) \<longleftrightarrow>
     started evs = map uuid [0..<sc_next sc] \<and>
     mset (completed evs) + open_ids sc = mset (started evs) \<and>
     (\<forall>i. current_id (sc_state sc) = Some i \<longrightarrow> i \<in># open_ids sc) \<and>
     balanced evs"

lemma scan_inv_new: "scan_inv uuid (scanner_new, [], [])"
  by (simp add: scanner_new_def open_ids_def current_id_def balanced_def)

lemma scan_inv_header:
  assumes "scan_inv uuid (sc, out, evs)" "current_id (sc_state sc) = None"
  shows "scan_inv uuid (handle_resolved_header captures uuid raw (sc, out, evs))"
proof -
  have "balanced (evs @ [Action_Started (uuid (sc_next sc)) kind summary])" for kind summary
    using assms by (intro balanced_snoc) (auto simp: balanced_def intro: subset_mset.trans subset_mset.add_increasing2)
  then show ?thesis
    using assms
    by (auto simp: handle_resolved_header_def Let_def open_ids_def current_id_def
        split: prod.split option.split)
qed

lemma scan_inv_complete:
  assumes "scan_inv uuid (sc, out, evs)" "current_id (sc_state sc) = Some i"
  shows "scan_inv uuid (sc\<lparr> sc_state := Scan_Normal,
      sc_open_stack := pop_stack_by_action_id i (sc_open_stack sc) \<rparr>, out, evs @ [Action_Completed i])"
proof -
  have i: "i \<in># open_ids sc" using assms by simp
  then have pop: "add_mset i (mset (map snd (pop_stack_by_action_id i (sc_open_stack sc)))) = open_ids sc"
    unfolding open_ids_def by (intro mset_pop) auto
  have bal: "mset (completed evs) + open_ids sc = mset (started evs)" using assms(1) by simp
  have "mset (completed evs) + {#i#} \<subseteq># mset (completed evs) + open_ids sc"
    by (rule subset_mset.add_left_mono) (simp add: i)
  then have "mset (completed (evs @ [Action_Completed i])) \<subseteq># mset (started (evs @ [Action_Completed i]))"
    by (simp add: bal)
  with assms(1) have "balanced (evs @ [Action_Completed i])" by (intro balanced_snoc) simp_all
  moreover define rest where "rest = mset (map snd (pop_stack_by_action_id i (sc_open_stack sc)))"
  have "mset (completed evs) + add_mset i rest = mset (started evs)"
    using bal by (simp only: rest_def pop)
  then have "add_mset i (mset (completed evs) + rest) = mset (started evs)" by simp
  ultimately show ?thesis using assms(1) by (simp add: open_ids_def current_id_def rest_def)
qed

lemma scan_inv_step: "scan_inv uuid s \<Longrightarrow> scan_inv uuid (scan_step captures uuid ch s)"
proof -
  assume inv: "scan_inv uuid s"
  obtain sc out evs where s: "s = (sc, out, evs)" by (metis prod_cases3)
  have same: "scan_inv uuid (sc\<lparr> sc_state := st \<rparr>, o', evs)"
    if "current_id st = None \<or> current_id st = current_id (sc_state sc)" for st o'
    using inv that by (auto simp: s open_ids_def)
  show ?thesis
  proof (cases "sc_state sc")
    case Scan_Normal
    with same inv show ?thesis by (auto simp: s scan_step_def current_id_def open_ids_def)
  next
    case (In_Header buf)
    have "scan_inv uuid (handle_resolved_header captures uuid (buf @ [c_gt]) (sc, out, evs))"
      by (rule scan_inv_header) (use inv s In_Header in \<open>simp_all add: current_id_def\<close>)
    with same show ?thesis
      by (simp add: s scan_step_def In_Header current_id_def del: scan_inv.simps)
  next
    case (In_Body name i)
    with same [of "In_Body_Header name i [c_lt]"] inv show ?thesis
      by (simp add: s scan_step_def current_id_def)
  next
    case (In_Body_Header name i buf)
    with same scan_inv_complete [of uuid sc out evs i] inv show ?thesis
      by (simp add: s scan_step_def current_id_def)
  qed
qed

lemma scan_inv_fold: "scan_inv uuid s \<Longrightarrow> scan_inv uuid (fold (scan_step captures uuid) cs s)"
  by (induction cs arbitrary: s) (simp_all add: scan_inv_step)

lemma drain_balanced:
  "balanced evs \<Longrightarrow> mset (completed evs) + mset (map snd st) \<subseteq># mset (started evs) \<Longrightarrow>
     balanced (evs @ map (\<lambda>(_, a). Action_Completed a) st)"
proof (induction st rule: rev_induct)
  case Nil
  then show ?case by simp
next
  case (snoc p st)
  obtain n a where p: "p = (n, a)" by force
  have "mset (completed evs) + mset (map snd st) \<subseteq># mset (started evs)"
    using snoc.prems(2) by (simp add: p) (metis add_mset_add_single mset_subset_eq_add_left subset_mset.trans union_mset_add_mset_right)
  with snoc have "balanced (evs @ map (\<lambda>(_, a). Action_Completed a) st)" by simp
  then have "balanced ((evs @ map (\<lambda>(_, a). Action_Completed a) st) @ [Action_Completed a])"
    by (rule balanced_snoc) (use snoc.prems(2) p in simp)
  then show ?case by (simp add: p)
qed

lemma scan_inv_drain:
  assumes "scan_inv uuid (sc, out, evs)" "drain sc = (sc1, flushed, ev)"
  shows "scan_inv uuid (scanner_new\<lparr> sc_next := sc_next sc1 \<rparr>, out', evs @ ev)"
proof -
  have "mset (completed evs) + mset (map snd (rev (sc_open_stack sc))) = mset (started evs)"
    using assms(1) by (simp add: open_ids_def)
  moreover from this have "balanced (evs @ map (\<lambda>(_, a). Action_Completed a) (rev (sc_open_stack sc)))"
    by (intro drain_balanced) (use assms(1) in auto)
  ultimately show ?thesis
    using assms by (auto simp: drain_def scanner_new_def open_ids_def current_id_def)
qed

lemma scan_inv_out: "scan_inv uuid (sc, out, evs) \<Longrightarrow> scan_inv uuid (sc, out', evs)"
  by (unfold scan_inv.simps)

lemma scan_inv_apply:
  assumes "scan_inv uuid (sc, out, evs)" "apply_tag_scanner captures uuid p sc = (sc1, p1, ev)"
  shows "scan_inv uuid (sc1, out', evs @ ev)"
proof (cases p)
  case (Text_Delta d)
  then obtain o1 where "fold (scan_step captures uuid) d (sc, [], []) = (sc1, o1, ev)"
    using assms(2) by (auto simp: apply_tag_scanner_def feed_def split: prod.splits)
  then have "fold (scan_step captures uuid) d (sc, [], evs) = (sc1, o1, evs @ ev)"
    by (subst scan_fold_acc) simp
  moreover have "scan_inv uuid (fold (scan_step captures uuid) d (sc, [], evs))"
    by (rule scan_inv_fold) (use assms(1) in simp)
  ultimately show ?thesis using scan_inv_out by metis
next
  case (Text_Complete t)
  with assms scan_inv_drain [OF assms(1)] show ?thesis
    by (auto simp: apply_tag_scanner_def simp del: scan_inv.simps split: prod.splits)
next
  case Other_Payload
  with assms show ?thesis by (simp add: apply_tag_scanner_def)
qed

lemma scan_inv_all:
  "scan_inv uuid (sc, out, evs) \<Longrightarrow> apply_all captures uuid ps sc = (sc', ps', ev) \<Longrightarrow> scan_inv uuid (sc', out', evs @ ev)"
proof (induction ps arbitrary: sc out evs sc' ps' ev out')
  case Nil
  then show ?case by simp
next
  case (Cons p ps)
  obtain sc1 p1 ev1 where p: "apply_tag_scanner captures uuid p sc = (sc1, p1, ev1)" by (metis prod_cases3)
  obtain sc2 ps2 ev2 where ps: "apply_all captures uuid ps sc1 = (sc2, ps2, ev2)" by (metis prod_cases3)
  from Cons.IH [OF scan_inv_apply [OF Cons.prems(1) p] ps] Cons.prems(2) p ps show ?case
    by (simp del: scan_inv.simps)
qed

text \<open>C40: When ids do not repeat, over any stream of payloads that ends with the end of a text, every
  action that starts has an id of its own and is completed exactly once, never before it has started;
  nothing else is completed.\<close>

theorem scanner_events_balanced:
  assumes "inj uuid"
  shows "case apply_all captures uuid (payloads @ [Text_Complete full]) scanner_new of (sc, shown, evs) \<Rightarrow>
     distinct (started evs) \<and> mset (completed evs) = mset (started evs) \<and> balanced evs"
proof -
  obtain sc shown evs where a: "apply_all captures uuid (payloads @ [Text_Complete full]) scanner_new = (sc, shown, evs)"
    by (metis prod_cases3)
  have inv: "scan_inv uuid (sc, [], evs)"
    using scan_inv_all [OF scan_inv_new a] by (simp del: scan_inv.simps)
  have "open_ids sc = {#}"
    using a by (auto simp: apply_all_append apply_tag_scanner_def open_ids_def scanner_new_def split: prod.splits)
  moreover have "distinct (map uuid [0..<sc_next sc])"
    using assms by (simp add: distinct_map inj_on_subset [OF assms])
  ultimately show ?thesis using inv a by simp
qed

theorem scanner_events_balanced_witness:
  "case apply_all (\<lambda>_. []) (\<lambda>n. replicate n CHR ''i'')
      ([Text_Delta (text_of ''<task>a</ta''), Other_Payload, Text_Delta (text_of ''sk> b <task/>'')] @ [Text_Complete []]) scanner_new of
     (sc, shown, evs) \<Rightarrow> distinct (started evs) \<and> mset (completed evs) = mset (started evs) \<and> balanced evs"
  by (rule scanner_events_balanced) (simp add: inj_def replicate_eq_replicate)

section \<open>What the reader sees\<close>

definition pending_header :: "scan_state \<Rightarrow> utext" where
  "pending_header st = (case st of In_Header buf \<Rightarrow> buf | _ \<Rightarrow> [])"

fun show_inv :: "utext \<Rightarrow> scan \<Rightarrow> bool" where
  "show_inv input (sc, out, evs) \<longleftrightarrow>
     subseq (out @ pending_header (sc_state sc)) input \<and>
     (evs = [] \<longrightarrow> current_id (sc_state sc) = None \<and> out @ pending_header (sc_state sc) = input) \<and>
     (\<forall>buf. sc_state sc = In_Header buf \<longrightarrow> buf \<noteq> [] \<and> hd buf = c_lt \<and> c_gt \<notin> set buf)"

lemma subseq_prefix: "subseq (xs @ ys) zs \<Longrightarrow> subseq xs zs"
  by (meson prefixI prefix_imp_subseq subseq_order.order_trans)

lemma subseq_snoc: "subseq xs ys \<Longrightarrow> subseq (xs @ [c]) (ys @ [c])"
  by simp

lemma header_cases:
  "(\<exists>sc'. sc_state sc' = Scan_Normal \<and> handle_resolved_header captures uuid raw (sc, out, evs) = (sc', out @ raw, evs)) \<or>
   (\<exists>sc' e name i. (sc_state sc' = Scan_Normal \<or> sc_state sc' = In_Body name i) \<and>
      handle_resolved_header captures uuid raw (sc, out, evs) = (sc', out, evs @ [e]))"
  by (simp add: handle_resolved_header_def Let_def split: prod.split option.split)

lemma show_inv_header:
  assumes "show_inv input (sc, out, evs)" "sc_state sc = In_Header buf"
  shows "show_inv (input @ [c_gt]) (handle_resolved_header captures uuid (buf @ [c_gt]) (sc, out, evs))"
proof -
  have sub: "subseq (out @ buf) input" and all: "evs = [] \<longrightarrow> out @ buf = input"
    using assms by (simp_all add: pending_header_def)
  have 1: "subseq (out @ buf @ [c_gt]) (input @ [c_gt])" using subseq_snoc [OF sub] by simp
  then have 2: "subseq out (input @ [c_gt])" by (rule subseq_prefix)
  show ?thesis
    using header_cases [of captures uuid "buf @ [c_gt]" sc out evs]
  proof (elim disjE exE conjE)
    fix sc' assume "sc_state sc' = Scan_Normal"
      and "handle_resolved_header captures uuid (buf @ [c_gt]) (sc, out, evs) = (sc', out @ buf @ [c_gt], evs)"
    with 1 all show ?thesis by (auto simp: pending_header_def current_id_def simp del: subseq_append)
  qed (use 2 in \<open>simp_all add: pending_header_def current_id_def\<close>)
qed

lemma show_inv_step:
  assumes "show_inv input s"
  shows "show_inv (input @ [ch]) (scan_step captures uuid ch s)"
proof -
  obtain sc out evs where s: "s = (sc, out, evs)" by (metis prod_cases3)
  have sub: "subseq out input" "subseq (out @ pending_header (sc_state sc)) input"
    using assms by (auto simp: s dest: subseq_prefix)
  show ?thesis
  proof (cases "sc_state sc")
    case Scan_Normal
    with assms sub show ?thesis
      by (auto simp: s scan_step_def pending_header_def current_id_def)
  next
    case (In_Header buf)
    have "subseq (out @ buf @ [ch]) (input @ [ch])"
      using subseq_snoc [of "out @ buf"] sub In_Header by (simp add: pending_header_def)
    moreover have "show_inv (input @ [c_gt]) (handle_resolved_header captures uuid (buf @ [c_gt]) (sc, out, evs))"
      by (rule show_inv_header) (use assms s In_Header in simp_all)
    ultimately show ?thesis
      using assms In_Header
      by (auto simp: s scan_step_def pending_header_def current_id_def simp del: subseq_append)
  next
    case (In_Body name i)
    with assms sub show ?thesis
      by (auto simp: s scan_step_def pending_header_def current_id_def intro: subseq_rev_drop_many)
  next
    case (In_Body_Header name i buf)
    with assms sub show ?thesis
      by (auto simp: s scan_step_def pending_header_def current_id_def intro: subseq_rev_drop_many)
  qed
qed

lemma show_inv_fold: "show_inv input s \<Longrightarrow> show_inv (input @ cs) (fold (scan_step captures uuid) cs s)"
proof (induction cs arbitrary: input s)
  case Nil
  then show ?case by simp
next
  case (Cons c cs)
  from Cons.IH [OF show_inv_step [OF Cons.prems, of c captures uuid]] show ?case by simp
qed

text \<open>C39: What is shown of one text and the events depend only on the text, not on how it was cut into
  deltas. What is shown is the text with parts left out; when no action starts, at most an unfinished
  tag at its end is left out.\<close>

theorem scanner_passes_text:
  assumes "\<And>t. Text_Complete t \<notin> set deltas"
  shows "case apply_all captures uuid deltas scanner_new of (sc, shown, evs) \<Rightarrow>
     apply_all captures uuid [Text_Delta (delta_text deltas)] scanner_new = (sc, [Text_Delta (delta_text shown)], evs) \<and>
     subseq (delta_text shown) (delta_text deltas) \<and>
     (started evs = [] \<longrightarrow> (\<exists>held. delta_text deltas = delta_text shown @ held \<and>
        (held = [] \<or> hd held = c_lt \<and> c_gt \<notin> set held)))"
proof -
  obtain sc shown evs where a: "apply_all captures uuid deltas scanner_new = (sc, shown, evs)" by (metis prod_cases3)
  have f: "feed captures uuid (delta_text deltas) scanner_new = (sc, delta_text shown, evs)"
    using apply_all_feed [OF assms a] .
  have inv: "show_inv (delta_text deltas) (sc, delta_text shown, evs)"
    using show_inv_fold [of "[]" "(scanner_new, [], [])" "delta_text deltas" captures uuid] f
    by (simp add: feed_def scanner_new_def pending_header_def current_id_def)
  have bal: "scan_inv uuid (sc, [], evs)"
    using scan_inv_all [OF scan_inv_new a] by (simp del: scan_inv.simps)
  have "evs = []" if "started evs = []"
  proof -
    have "completed evs = []" using bal that by auto
    with that show ?thesis by (cases evs rule: started.cases) simp_all
  qed
  then have "\<exists>held. delta_text deltas = delta_text shown @ held \<and> (held = [] \<or> hd held = c_lt \<and> c_gt \<notin> set held)"
    if "started evs = []"
    using inv that by (intro exI [of _ "pending_header (sc_state sc)"]) (auto simp: pending_header_def split: scan_state.splits)
  with a f inv show ?thesis by (auto simp: apply_tag_scanner_def dest: subseq_prefix)
qed

theorem scanner_passes_text_witness:
  "snd (apply_all (\<lambda>_. []) (\<lambda>n. replicate n CHR ''i'') [Text_Delta (text_of ''1 <''), Text_Delta (text_of '' 2 <b'')] scanner_new) =
     ([Text_Delta (text_of ''1 ''), Text_Delta (text_of ''< 2 '')], []) \<and>
   fst (snd (apply_all (\<lambda>_. []) (\<lambda>n. replicate n CHR ''i'') [Text_Delta (text_of ''1 < 2 <b'')] scanner_new)) =
     [Text_Delta (text_of ''1 < 2 '')]"
proof -
  have s: "snd (apply_all (\<lambda>_. []) (\<lambda>n. replicate n CHR ''i'') [Text_Delta (text_of ''1 <''), Text_Delta (text_of '' 2 <b'')] scanner_new) =
     ([Text_Delta (text_of ''1 ''), Text_Delta (text_of ''< 2 '')], [])"
    by code_simp
  have "delta_text [Text_Delta (text_of ''1 <''), Text_Delta (text_of '' 2 <b'')] = text_of ''1 < 2 <b''"
    "delta_text [Text_Delta (text_of ''1 ''), Text_Delta (text_of ''< 2 '')] = text_of ''1 < 2 ''"
    by (simp_all add: text_of_def)
  with s scanner_passes_text [of "[Text_Delta (text_of ''1 <''), Text_Delta (text_of '' 2 <b'')]" "\<lambda>_. []" "\<lambda>n. replicate n CHR ''i''"]
  show ?thesis by (auto simp: split_beta)
qed

section \<open>A recognized tag\<close>

lemma scan_plain:
  "c_lt \<notin> set t \<Longrightarrow> sc_state sc = Scan_Normal \<Longrightarrow>
     fold (scan_step captures uuid) t (sc, out, evs) = (sc, out @ t, evs)"
  by (induction t arbitrary: out) (auto simp: scan_step_def)

lemma scan_header:
  "c_lt \<notin> set t \<Longrightarrow> c_gt \<notin> set t \<Longrightarrow> sc_state sc = In_Header buf \<Longrightarrow> 1 < length buf \<Longrightarrow>
     fold (scan_step captures uuid) t (sc, out, evs) = (sc\<lparr> sc_state := In_Header (buf @ t) \<rparr>, out, evs)"
proof (induction t arbitrary: sc buf)
  case Nil
  then show ?case by simp
next
  case (Cons c t)
  have "scan_step captures uuid c (sc, out, evs) = (sc\<lparr> sc_state := In_Header (buf @ [c]) \<rparr>, out, evs)"
    using Cons.prems by (auto simp: scan_step_def)
  moreover have "1 < length (buf @ [c])" using Cons.prems(4) by (cases buf) simp_all
  ultimately show ?case
    using Cons.IH [of "sc\<lparr> sc_state := In_Header (buf @ [c]) \<rparr>" "buf @ [c]"] Cons.prems(1-3) by simp
qed

lemma scan_body:
  "c_lt \<notin> set t \<Longrightarrow> sc_state sc = In_Body name i \<Longrightarrow>
     fold (scan_step captures uuid) t (sc, out, evs) = (sc, out, evs)"
  by (induction t) (auto simp: scan_step_def)

lemma scan_body_header:
  "c_lt \<notin> set t \<Longrightarrow> c_gt \<notin> set t \<Longrightarrow> sc_state sc = In_Body_Header name i buf \<Longrightarrow>
     fold (scan_step captures uuid) t (sc, out, evs) = (sc\<lparr> sc_state := In_Body_Header name i (buf @ t) \<rparr>, out, evs)"
  by (induction t arbitrary: sc buf) (auto simp: scan_step_def)


lemma utrim_id:
  assumes "t = [] \<or> \<not> is_whitespace (hd t) \<and> \<not> is_whitespace (last t)"
  shows "utrim t = t"
proof (cases "t = []")
  case True
  then show ?thesis by (simp add: utrim_def utrim_end_def)
next
  case False
  then have "dropWhile is_whitespace t = t" using assms by (cases t) simp_all
  moreover have "dropWhile is_whitespace (rev t) = rev t"
    using False assms by (cases t rule: rev_cases) simp_all
  ultimately show ?thesis by (simp add: utrim_def utrim_end_def)
qed

lemma close_tag_matches:
  assumes "\<forall>c\<in>set name. \<not> is_whitespace c"
  shows "is_matching_close_tag ([c_lt, c_slash] @ name @ [c_gt]) name"
proof -
  have "\<not> is_whitespace c_slash" by (simp add: is_whitespace_def)
  with assms have "utrim (c_slash # name) = c_slash # name" "utrim name = name"
    by (intro utrim_id; cases name; simp)+
  then show ?thesis by (simp add: is_matching_close_tag_def)
qed

text \<open>A recognized tag with its body and its closing tag vanishes from the text around it, and is
  reported as one action, started and completed, with the kind and summary of its name and attributes.\<close>

theorem recognized_tag_stripped:
  assumes plain: "c_lt \<notin> set before" "c_lt \<notin> set body" "c_lt \<notin> set after"
    and header: "c_lt \<notin> set hdr" "c_gt \<notin> set hdr" "hdr \<noteq> []" "is_ascii_alphanumeric (hd hdr)" "last hdr \<noteq> c_slash"
    and tag: "split_name hdr = (name, rest)" "resolve_tag name (parse_attrs captures (utrim rest)) = Some (kind, summary)"
  shows "feed captures uuid
      (before @ [c_lt] @ hdr @ [c_gt] @ body @ [c_lt, c_slash] @ name @ [c_gt] @ after) scanner_new =
    (scanner_new\<lparr> sc_next := 1 \<rparr>, before @ after, [Action_Started (uuid 0) kind summary, Action_Completed (uuid 0)])"
proof -
  let ?step = "scan_step captures uuid"
  have name: "set name \<subseteq> set hdr" "\<forall>c\<in>set name. \<not> is_whitespace c"
    using tag(1) by (auto simp: split_name_def dest: set_takeWhileD)
  obtain h hs where h: "hdr = h # hs" using header(3) by (cases hdr) auto
  have h_ok: "h \<noteq> c_slash" "h \<noteq> c_lt" "h \<noteq> c_gt" "\<not> is_whitespace h"
    using header h by (auto simp: is_ascii_alphanumeric_def is_whitespace_def)
  have ne: "name \<noteq> []" using tag(1) h h_ok by (auto simp: split_name_def)
  define sc1 where "sc1 = scanner_new\<lparr> sc_state := In_Header (c_lt # hdr) \<rparr>"
  define sc2 where "sc2 = \<lparr> sc_state = In_Body name (uuid 0), sc_open_stack = [(name, uuid 0)], sc_next = 1 \<rparr>"
  define sc3 where "sc3 = sc2\<lparr> sc_state := In_Body_Header name (uuid 0) ([c_lt, c_slash] @ name) \<rparr>"
  let ?s = "Action_Started (uuid 0) kind summary"
  have 1: "fold ?step before (scanner_new, [], []) = (scanner_new, before, [])"
    using scan_plain [OF plain(1), of scanner_new] by (simp add: scanner_new_def)
  have 2: "fold ?step ([c_lt] @ hdr) (scanner_new, before, []) = (sc1, before, [])"
  proof -
    have "?step h (scanner_new\<lparr> sc_state := In_Header [c_lt] \<rparr>, before, []) =
        (scanner_new\<lparr> sc_state := In_Header [c_lt, h] \<rparr>, before, [])"
      using header(4) h h_ok by (simp add: scan_step_def)
    moreover have "?step c_lt (scanner_new, before, []) = (scanner_new\<lparr> sc_state := In_Header [c_lt] \<rparr>, before, [])"
      by (simp add: scan_step_def scanner_new_def)
    moreover have "fold ?step hs (scanner_new\<lparr> sc_state := In_Header [c_lt, h] \<rparr>, before, []) = (sc1, before, [])"
      using scan_header [of hs "scanner_new\<lparr> sc_state := In_Header [c_lt, h] \<rparr>" "[c_lt, h]" captures uuid before "[]"] header h
      by (simp add: sc1_def)
    ultimately show ?thesis by (simp add: h)
  qed
  have 3: "?step c_gt (sc1, before, []) = (sc2, before, [?s])"
    using header h h_ok tag ne
    by (simp add: scan_step_def sc1_def sc2_def scanner_new_def handle_resolved_header_def Let_def)
  have 4: "fold ?step body (sc2, before, [?s]) = (sc2, before, [?s])"
    by (rule scan_body [OF plain(2)]) (simp add: sc2_def)
  have 5: "fold ?step ([c_lt, c_slash] @ name) (sc2, before, [?s]) = (sc3, before, [?s])"
  proof -
    have "?step c_lt (sc2, before, [?s]) = (sc2\<lparr> sc_state := In_Body_Header name (uuid 0) [c_lt] \<rparr>, before, [?s])"
      by (simp add: scan_step_def sc2_def)
    moreover have "fold ?step (c_slash # name) (sc2\<lparr> sc_state := In_Body_Header name (uuid 0) [c_lt] \<rparr>, before, [?s]) =
        (sc3, before, [?s])"
      using scan_body_header [of "c_slash # name" "sc2\<lparr> sc_state := In_Body_Header name (uuid 0) [c_lt] \<rparr>" name "uuid 0" "[c_lt]"
          captures uuid before "[?s]"] name header(1,2)
      by (auto simp: sc3_def)
    ultimately show ?thesis by simp
  qed
  define sc4 where "sc4 = sc3\<lparr> sc_state := Scan_Normal, sc_open_stack := [] \<rparr>"
  have 6: "?step c_gt (sc3, before, [?s]) = (sc4, before, [?s, Action_Completed (uuid 0)])"
    using close_tag_matches [OF name(2)]
    by (simp add: scan_step_def sc4_def sc3_def sc2_def pop_stack_by_action_id_def)
  have 7: "fold ?step after (sc4, before, [?s, Action_Completed (uuid 0)]) =
      (sc4, before @ after, [?s, Action_Completed (uuid 0)])"
    by (rule scan_plain [OF plain(3)]) (simp add: sc4_def)
  have "sc4 = scanner_new\<lparr> sc_next := 1 \<rparr>"
    by (simp add: sc4_def sc3_def sc2_def scanner_new_def)
  with 1 2 3 4 5 6 7 show ?thesis by (simp add: feed_def)
qed

theorem recognized_tag_stripped_witness:
  "feed (\<lambda>_. [(text_of ''action'', text_of ''fail'')]) (\<lambda>n. replicate n CHR ''i'')
     (text_of ''A '' @ [c_lt] @ text_of ''task action=fail'' @ [c_gt] @ text_of ''b > c'' @ [c_lt, c_slash] @ text_of ''task'' @ [c_gt] @ text_of '' Z'') scanner_new =
   (scanner_new\<lparr> sc_next := 1 \<rparr>, text_of ''A '' @ text_of '' Z'', [Action_Started [] ''task_fail'' (text_of ''Failing task'' @ [8230]), Action_Completed []])"
  by (subst recognized_tag_stripped [where rest = "text_of ''action=fail''"])
     (simp_all add: text_of_def is_ascii_alphanumeric_def split_name_def is_whitespace_def resolve_tag_def parse_attrs_def)

text \<open>A tag right after another \<open><\<close> is missed: the second one is taken for a stray character, and the
  tag reaches the reader as text.\<close>

lemma tag_after_lt_missed:
  assumes "c_lt \<notin> set tag"
  shows "feed captures uuid ([c_lt, c_lt] @ tag) scanner_new = (scanner_new, [c_lt, c_lt] @ tag, [])"
proof -
  have "scan_step captures uuid c_lt (scan_step captures uuid c_lt (scanner_new, [], [])) = (scanner_new, [c_lt, c_lt], [])"
    by (simp add: scan_step_def scanner_new_def is_ascii_alphanumeric_def)
  moreover have "fold (scan_step captures uuid) tag (scanner_new, [c_lt, c_lt], []) = (scanner_new, [c_lt, c_lt] @ tag, [])"
    by (rule scan_plain [OF assms]) (simp add: scanner_new_def)
  ultimately show ?thesis by (simp add: feed_def)
qed

end
