(* ===== verification/Tool_Executor.thy ===== *)
theory Tool_Executor
  imports LS_Prelude "HOL-Library.Sublist"
begin

text \<open>
  Running the tool calls of one assistant turn (\<open>ao-engine-tools-runner\<close>): the partition of the calls into
  batches (\<open>partition/mod.rs\<close>) and the executor that runs a batch under a cap (\<open>executor/mod.rs\<close>).

  A call's future is polled: \<open>poll call f w\<close> runs it from its local state \<open>f\<close> in the world \<open>w\<close> up to its next
  await point, and is either pending with a new local state or ready with a result. Between two polls
  anything else may happen to the world; a schedule is a list of choices of what happens next.
\<close>

section \<open>Calls and results\<close>

datatype tool_block =
    Block_Text string
  | Block_Image string string
  | Block_Document string string "string option"

datatype 'v tool_output =
    Out_Text string
  | Out_Structured 'v
  | Out_Error string bool
  | Out_Blocks "tool_block list"

record 'v tool_invocation =
  ti_id :: string
  ti_name :: string
  ti_input :: 'v

record 'v invocation_result =
  ir_id :: string
  ir_index :: nat
  ir_payload :: "'v tool_output"

section \<open>Partition\<close>

datatype 'v batch =
    Concurrent "'v tool_invocation list"
  | Serial "'v tool_invocation"

text \<open>\<open>lookup name\<close> is what the registry finds: the tool's \<open>is_concurrency_safe\<close>, or no tool.\<close>

definition invocation_safe :: "(string \<Rightarrow> bool option) \<Rightarrow> 'v tool_invocation \<Rightarrow> bool" where
  "invocation_safe lookup call = (case lookup (ti_name call) of Some safe \<Rightarrow> safe | None \<Rightarrow> False)"

definition partition_step ::
  "(string \<Rightarrow> bool option) \<Rightarrow> 'v tool_invocation \<Rightarrow> 'v batch list \<times> 'v tool_invocation list \<Rightarrow>
     'v batch list \<times> 'v tool_invocation list" where
  "partition_step lookup call acc =
     (case acc of (batches, pending) \<Rightarrow>
        if invocation_safe lookup call then (batches, pending @ [call])
        else ((if pending \<noteq> [] then batches @ [Concurrent pending] else batches) @ [Serial call], []))"

definition partition_invocations :: "(string \<Rightarrow> bool option) \<Rightarrow> 'v tool_invocation list \<Rightarrow> 'v batch list" where
  "partition_invocations lookup invocations =
     (case fold (partition_step lookup) invocations ([], []) of (batches, pending) \<Rightarrow>
        if pending \<noteq> [] then batches @ [Concurrent pending] else batches)"

section \<open>Execution of a batch\<close>

definition cancelled_result :: "'v tool_invocation \<Rightarrow> nat \<Rightarrow> 'v invocation_result" where
  "cancelled_result call index =
     \<lparr> ir_id = ti_id call, ir_index = index, ir_payload = Out_Error ''cancelled'' False \<rparr>"

text \<open>A slot of a batch: waiting for a permit, holding one before the second look at the token, running,
  or finished. A running one holds its permit.\<close>

datatype ('v, 'f) slot =
    Waiting
  | Holding
  | Running 'f
  | Finished "'v invocation_result"

record ('v, 'f, 'w) exec =
  ex_slots :: "('v, 'f) slot list"
  ex_permits :: nat
  ex_world :: 'w

record ('v, 'f, 'w) runner =
  rn_cancelled :: "'w \<Rightarrow> bool"
  rn_init :: "'v tool_invocation \<Rightarrow> 'f"
  rn_poll :: "'v tool_invocation \<Rightarrow> 'f \<Rightarrow> 'w \<Rightarrow> 'w \<times> ('f + 'v invocation_result)"

datatype 'w choice = Poll nat | Outside "'w \<Rightarrow> 'w"

definition put_slot :: "nat \<Rightarrow> ('v, 'f) slot \<Rightarrow> ('v, 'f, 'w) exec \<Rightarrow> ('v, 'f, 'w) exec" where
  "put_slot i s e = e\<lparr> ex_slots := (ex_slots e)[i := s] \<rparr>"

definition release_permit :: "('v, 'f, 'w) exec \<Rightarrow> ('v, 'f, 'w) exec" where
  "release_permit e = e\<lparr> ex_permits := ex_permits e + 1 \<rparr>"

text \<open>One piece of the task of slot \<open>i\<close>. The biased select looks at the token first; a waiting task
  that finds neither the token fired nor a permit stays.\<close>

definition poll_slot ::
  "('v, 'f, 'w) runner \<Rightarrow> 'v tool_invocation list \<Rightarrow> nat \<Rightarrow> ('v, 'f, 'w) exec \<Rightarrow> ('v, 'f, 'w) exec" where
  "poll_slot rn invocations i e =
     (if i < length (ex_slots e) then
        (let call = invocations ! i in
         case ex_slots e ! i of
           Waiting \<Rightarrow>
             if rn_cancelled rn (ex_world e) then put_slot i (Finished (cancelled_result call i)) e
             else if ex_permits e > 0 then put_slot i Holding (e\<lparr> ex_permits := ex_permits e - 1 \<rparr>)
             else e
         | Holding \<Rightarrow>
             if rn_cancelled rn (ex_world e)
             then release_permit (put_slot i (Finished (cancelled_result call i)) e)
             else put_slot i (Running (rn_init rn call)) e
         | Running f \<Rightarrow>
             (case rn_poll rn call f (ex_world e) of
                (w, Inl f') \<Rightarrow> put_slot i (Running f') (e\<lparr> ex_world := w \<rparr>)
              | (w, Inr r) \<Rightarrow> release_permit (put_slot i (Finished r) (e\<lparr> ex_world := w \<rparr>)))
         | Finished _ \<Rightarrow> e)
      else e)"

fun exec_choice ::
  "('v, 'f, 'w) runner \<Rightarrow> 'v tool_invocation list \<Rightarrow> 'w choice \<Rightarrow> ('v, 'f, 'w) exec \<Rightarrow> ('v, 'f, 'w) exec" where
  "exec_choice rn invocations (Poll i) e = poll_slot rn invocations i e"
| "exec_choice rn invocations (Outside g) e = e\<lparr> ex_world := g (ex_world e) \<rparr>"

definition exec_init :: "'v tool_invocation list \<Rightarrow> nat \<Rightarrow> 'w \<Rightarrow> ('v, 'f, 'w) exec" where
  "exec_init invocations cap w =
     \<lparr> ex_slots = replicate (length invocations) Waiting, ex_permits = cap, ex_world = w \<rparr>"

fun slot_result :: "('v, 'f) slot \<Rightarrow> 'v invocation_result option" where
  "slot_result (Finished r) = Some r"
| "slot_result _ = None"

text \<open>What a schedule has led to: the results in the order of the calls once every slot is filled,
  \<open>None\<close> while one is not.\<close>

definition run_concurrent ::
  "('v, 'f, 'w) runner \<Rightarrow> 'v tool_invocation list \<Rightarrow> nat \<Rightarrow> 'w choice list \<Rightarrow> 'w \<Rightarrow>
     ('v invocation_result list \<times> 'w) option" where
  "run_concurrent rn invocations cap schedule w =
     (let e = fold (exec_choice rn invocations) schedule (exec_init invocations cap w);
          slots = map slot_result (ex_slots e) in
      if None \<in> set slots then None else Some (map the slots, ex_world e))"

text \<open>A serial call is awaited in place: the choices of other slots are not its own.\<close>

fun run_inline ::
  "('v, 'f, 'w) runner \<Rightarrow> 'v tool_invocation \<Rightarrow> 'f \<Rightarrow> 'w choice list \<Rightarrow> 'w \<Rightarrow>
     ('v invocation_result \<times> 'w) option" where
  "run_inline rn call f [] w = None"
| "run_inline rn call f (Outside g # cs) w = run_inline rn call f cs (g w)"
| "run_inline rn call f (Poll i # cs) w =
     (case rn_poll rn call f w of
        (w', Inl f') \<Rightarrow> run_inline rn call f' cs w'
      | (w', Inr r) \<Rightarrow> Some (r, w'))"

definition run_serial ::
  "('v, 'f, 'w) runner \<Rightarrow> 'v tool_invocation \<Rightarrow> 'w choice list \<Rightarrow> 'w \<Rightarrow> ('v invocation_result \<times> 'w) option" where
  "run_serial rn call schedule w =
     (if rn_cancelled rn w then Some (cancelled_result call 0, w)
      else run_inline rn call (rn_init rn call) schedule w)"

definition run_batch ::
  "('v, 'f, 'w) runner \<Rightarrow> 'v batch \<Rightarrow> nat \<Rightarrow> 'w choice list \<Rightarrow> 'w \<Rightarrow> ('v invocation_result list \<times> 'w) option" where
  "run_batch rn b cap schedule w =
     (case b of
        Serial call \<Rightarrow> map_option (\<lambda>(r, w'). ([r], w')) (run_serial rn call schedule w)
      | Concurrent invocations \<Rightarrow> run_concurrent rn invocations cap schedule w)"

end
