(* ===== verification/Query_Loop.thy ===== *)
theory Query_Loop
  imports Tool_Executor Permissions
begin

text \<open>
  The query loop (\<open>ao-engine-tools-runner/src/query_loop/mod.rs\<close>): the pipeline of one tool call and the
  loop of provider turns, with the messages it builds (\<open>message/mod.rs\<close>), the provider's events
  (\<open>provider/mod.rs\<close>) and the queue of pending messages (\<open>ao-engine-tools-core/src/context/mod.rs\<close>).

  Parameters, in \<open>session_config\<close>: the registry and its tools, the provider, JSON, the hook processes, the
  operator. A tool's future may be pending before it returns; how often is bounded by \<open>tl_polls\<close>, so a tool
  that never returns is outside the model.
\<close>

section \<open>Messages\<close>

datatype 'v content_block =
    CB_Text string
  | CB_Tool_Use string string 'v
  | CB_Tool_Result string string bool
  | CB_Thinking "string option" "string option"
  | CB_Redacted_Thinking string
  | CB_Image string string
  | CB_Document string string "string option"

datatype 'v message =
    System_Message string
  | User_Message "'v content_block list"
  | Assistant_Message "'v content_block list"
  | Tool_Result_Message string "'v content_block list" bool

record usage =
  us_input_tokens :: "64 word"
  us_output_tokens :: "64 word"
  us_cache_read :: "64 word option"
  us_cache_creation :: "64 word option"

datatype stop_reason = Natural_Stop | Max_Tokens | Refusal | Tool_Use_Stop

datatype 'v completion_event =
    CE_Assistant_Text string
  | CE_Tool_Use string string 'v
  | CE_Thinking_Start
  | CE_Thinking_Delta string
  | CE_Thinking_End "64 word"
  | CE_Thinking_Block "string option" "string option"
  | CE_Redacted_Thinking_Block string
  | CE_Usage usage
  | CE_Turn_Complete stop_reason
  | CE_Error string

datatype provider_error =
    Transport_Error string
  | Provider_Cancelled
  | Script_Exhausted
  | Not_Configured string

datatype 'v session_event =
    SE_Assistant_Text string
  | SE_Tool_Use string string 'v
  | SE_Tool_Result string "'v tool_output"
  | SE_Usage usage
  | SE_Thinking_Start
  | SE_Thinking_Delta string
  | SE_Thinking_End "64 word"
  | SE_Thinking_Block "string option" "string option"
  | SE_Redacted_Thinking_Block string
  | SE_Hidden_User_Message string
  | SE_Form_Posted string 'v

section \<open>The world of a session\<close>

text \<open>What the loop does outside its own state, in order.\<close>

datatype 'v session_effect =
    Emitted "'v session_event"
  | Telemetry_Invoked string
  | Telemetry_Selected string
  | Post_Hooks_Ran "hook_entry list" "'v hook_request"
  | Form_Persisted string string 'v
  | Cancelled_Background
  | Cancelled_Questions
  | Cancelled_Forms
  | Outcome_Appended string "string list"

record ('t, 'v, 'x) world =
  w_gate :: "('t, 'v) gate"
  w_cancelled :: bool
  w_normal :: "string list"
  w_low :: "string list"
  w_sleep_ran :: bool
  w_skill_filter :: "string list option"
  w_activated :: "string list"
  w_loaded_deferred :: "string list"
  w_artifacts :: "string list"
  w_worktree_stack :: "string list"
  w_cwd :: string
  w_message_id :: "string option"
  w_effects :: "'v session_effect list"
  w_other :: 'x

definition effect :: "'v session_effect \<Rightarrow> ('t, 'v, 'x) world \<Rightarrow> ('t, 'v, 'x) world" where
  "effect e w = w\<lparr> w_effects := w_effects w @ [e] \<rparr>"

text \<open>A tool of the registry: its names and schema, validation, opinion and its future: pending
  \<open>min (tl_pending input w) tl_polls\<close> times, working on the world each time, then returning.\<close>

record ('t, 'v, 'x) tool =
  tl_description :: string
  tl_schema :: 'v
  tl_safe :: bool
  tl_validate :: "'v \<Rightarrow> string + 'v"
  tl_check_permissions :: "'v \<Rightarrow> 'v decision"
  tl_mutates :: "'v \<Rightarrow> bool"
  tl_polls :: nat
  tl_pending :: "'v \<Rightarrow> ('t, 'v, 'x) world \<Rightarrow> nat"
  tl_work :: "'v \<Rightarrow> ('t, 'v, 'x) world \<Rightarrow> ('t, 'v, 'x) world"
  tl_invoke :: "'v \<Rightarrow> ('t, 'v, 'x) world \<Rightarrow> (string + 'v tool_output) \<times> ('t, 'v, 'x) world"

record 'v tool_spec =
  ts_name :: string
  ts_description :: string
  ts_input_schema :: 'v

record 'v completion_request =
  rq_messages :: "'v message list"
  rq_system_prompt :: "string option"
  rq_tools :: "'v tool_spec list"
  rq_mode :: permission_mode
  rq_deferred_tools :: "string list"
  rq_loaded_deferred_tools :: "string list"

record ('t, 'v, 'x) session_config =
  cf_env :: "'v call_env"
  cf_bool_field :: "'v \<Rightarrow> string \<Rightarrow> bool option"
  cf_field :: "'v \<Rightarrow> string \<Rightarrow> 'v option"
  cf_tracker :: "'t tracker"
  cf_bridge :: "'v bridge"
  cf_settings :: runner_settings
  cf_context :: permission_context
  cf_project_id :: "string option"
  cf_mode :: permission_mode
  cf_kind :: session_kind
  cf_auto_approve :: "'v permission_rule list"
  cf_hook_run :: "('t, 'v, 'x) world \<Rightarrow> nat \<Rightarrow> hook_entry \<Rightarrow> 'v hook_request \<Rightarrow> 'v hook_outcome"
  cf_hook_cancelled :: "('t, 'v, 'x) world \<Rightarrow> nat \<Rightarrow> bool"
  cf_names :: "string list"
  cf_lookup :: "string \<Rightarrow> ('t, 'v, 'x) tool option"
  cf_nearest :: "string \<Rightarrow> string option"
  cf_always_load :: "string list"
  cf_admission :: "(string \<Rightarrow> bool) option"
  cf_system_prompt :: "string option"
  cf_sink :: bool
  cf_sink_turn :: "('t, 'v, 'x) world \<Rightarrow> string option"
  cf_max_turns :: "nat option"
  cf_turn_id :: string
  cf_outcome_store :: bool
  cf_complete :: "'v completion_request \<Rightarrow> ('t, 'v, 'x) world \<Rightarrow>
     (provider_error + (provider_error + 'v completion_event) list) \<times> ('t, 'v, 'x) world"

definition emit :: "('t, 'v, 'x) session_config \<Rightarrow> 'v session_event \<Rightarrow> ('t, 'v, 'x) world \<Rightarrow> ('t, 'v, 'x) world" where
  "emit cf ev w = (if cf_sink cf then effect (Emitted ev) w else w)"

section \<open>One tool call\<close>

definition error_result :: "string \<Rightarrow> 'v tool_output \<Rightarrow> 'v invocation_result" where
  "error_result i payload = \<lparr> ir_id = i, ir_index = 0, ir_payload = payload \<rparr>"

definition check_skill_tool_filter :: "string \<Rightarrow> ('t, 'v, 'x) world \<Rightarrow> bool" where
  "check_skill_tool_filter tool_name w \<longleftrightarrow>
     tool_name = ''RunSkill'' \<or> tool_name = ''SkillRegister'' \<or>
     (case w_skill_filter w of None \<Rightarrow> True | Some allowed \<Rightarrow> tool_name \<in> set allowed)"

definition unknown_tool_message :: "('t, 'v, 'x) session_config \<Rightarrow> string \<Rightarrow> string" where
  "unknown_tool_message cf name =
     (case cf_nearest cf name of
        Some suggested \<Rightarrow> ''unknown tool '' @ quoted name @ ''. Did you mean '' @ quoted suggested @ ''?''
      | None \<Rightarrow> ''unknown tool '' @ quoted name)"

text \<open>Where the future of a call stands: before its checks, allowed to run (the input parsed and the one
  to run with), or running.\<close>

datatype 'v call_state =
    Checking nat
  | Allowed 'v 'v nat
  | Invoking 'v 'v nat

definition call_init :: "('t, 'v, 'x) session_config \<Rightarrow> 'v tool_invocation \<Rightarrow> 'v call_state" where
  "call_init cf call = Checking (case cf_lookup cf (ti_name call) of Some t \<Rightarrow> tl_polls t | None \<Rightarrow> 0)"

text \<open>What follows a tool's answer: telemetry, the skills drawn on, the post-hooks.\<close>

definition is_error_output :: "'v tool_output \<Rightarrow> bool" where
  "is_error_output out \<longleftrightarrow> (case out of Out_Error _ _ \<Rightarrow> True | _ \<Rightarrow> False)"

definition note_success ::
  "('t, 'v, 'x) session_config \<Rightarrow> string \<Rightarrow> 'v \<Rightarrow> 'v tool_output \<Rightarrow> ('t, 'v, 'x) world \<Rightarrow> ('t, 'v, 'x) world" where
  "note_success cf name input payload w =
     (if is_error_output payload then w
      else
        let w1 = (if name \<in> set (w_activated w) then effect (Telemetry_Invoked name) w else w) in
        if name = ''RunSkill'' then
          (case ce_str_field (cf_env cf) input ''skill'' of
             Some skill \<Rightarrow>
               w1\<lparr> w_artifacts := w_artifacts w1 @
                     [case strip_prefix ''/'' skill of Some s \<Rightarrow> s | None \<Rightarrow> skill] \<rparr>
           | None \<Rightarrow> w1)
        else w1)"

definition post_hooks ::
  "('t, 'v, 'x) session_config \<Rightarrow> string \<Rightarrow> 'v \<Rightarrow> 'v \<Rightarrow> ('t, 'v, 'x) world \<Rightarrow> ('t, 'v, 'x) world" where
  "post_hooks cf name parsed_input input w =
     (let matched = filter (\<lambda>h. hook_match_string (cf_env cf) (he_match h) name parsed_input)
                      (rs_post_tool_use (cf_settings cf)) in
      if matched = [] then w
      else effect (Post_Hooks_Ran matched
             \<lparr> hr_tool_name = name, hr_input = input, hr_agent_id = px_agent_id (cf_context cf),
               hr_session_id = px_session_id (cf_context cf) \<rparr>) w)"

definition check_call ::
  "('t, 'v, 'x) session_config \<Rightarrow> 'v tool_invocation \<Rightarrow> nat \<Rightarrow> ('t, 'v, 'x) world \<Rightarrow>
     ('t, 'v, 'x) world \<times> ('v call_state + 'v invocation_result)" where
  "check_call cf call n w =
     (let name = ti_name call; fail = (\<lambda>msg r. Inr (error_result (ti_id call) (Out_Error msg r))) in
      case cf_lookup cf name of
        None \<Rightarrow> (w, fail (unknown_tool_message cf name) False)
      | Some t \<Rightarrow>
          if \<not> check_skill_tool_filter name w
          then (w, fail (''tool '' @ quoted name @ '' is not permitted within this skill'' @ [CHR 0x27] @ ''s allowed-tools scope'') True)
          else (case tl_validate t (ti_input call) of
              Inl msg \<Rightarrow> (w, fail msg False)
            | Inr parsed \<Rightarrow>
                (case permission_stage (cf_env cf) (cf_tracker cf) (cf_bridge cf) (cf_hook_run cf w)
                        (cf_hook_cancelled cf w) (tl_check_permissions t) (tl_mutates t) (cf_settings cf)
                        (cf_context cf) (cf_kind cf) (cf_auto_approve cf) name parsed (w_gate w) of
                   (Refused reason recoverable, g) \<Rightarrow> (w\<lparr> w_gate := g \<rparr>, fail reason recoverable)
                 | (Invoke input, g) \<Rightarrow> (w\<lparr> w_gate := g \<rparr>, Inl (Allowed parsed input n)))))"

definition finish_call ::
  "('t, 'v, 'x) session_config \<Rightarrow> 'v tool_invocation \<Rightarrow> ('t, 'v, 'x) tool \<Rightarrow> 'v \<Rightarrow> 'v \<Rightarrow> ('t, 'v, 'x) world \<Rightarrow>
     ('t, 'v, 'x) world \<times> 'v invocation_result" where
  "finish_call cf call t parsed input w =
     (case tl_invoke t input w of (res, w1) \<Rightarrow>
        let payload = (case res of Inr out \<Rightarrow> out | Inl msg \<Rightarrow> Out_Error msg False);
            w2 = note_success cf (ti_name call) input payload w1;
            w3 = post_hooks cf (ti_name call) parsed input w2 in
        (w3, \<lparr> ir_id = ti_id call, ir_index = 0, ir_payload = payload \<rparr>))"

text \<open>\<open>run_one_invocation\<close>, from one await point to the next.\<close>

fun poll_call ::
  "('t, 'v, 'x) session_config \<Rightarrow> 'v tool_invocation \<Rightarrow> 'v call_state \<Rightarrow> ('t, 'v, 'x) world \<Rightarrow>
     ('t, 'v, 'x) world \<times> ('v call_state + 'v invocation_result)" where
  "poll_call cf call (Checking n) w = check_call cf call n w"
| "poll_call cf call (Allowed parsed input n) w =
     (if w_cancelled w then (w, Inr (error_result (ti_id call) (Out_Error ''cancelled'' False)))
      else case cf_lookup cf (ti_name call) of
          Some t \<Rightarrow> (w, Inl (Invoking parsed input (min (tl_pending t input w) n)))
        | None \<Rightarrow> (w, Inr (error_result (ti_id call) (Out_Error (unknown_tool_message cf (ti_name call)) False))))"
| "poll_call cf call (Invoking parsed input n) w =
     (case cf_lookup cf (ti_name call) of
        None \<Rightarrow> (w, Inr (error_result (ti_id call) (Out_Error (unknown_tool_message cf (ti_name call)) False)))
      | Some t \<Rightarrow>
          (case n of
             0 \<Rightarrow> (case finish_call cf call t parsed input w of (w', r) \<Rightarrow> (w', Inr r))
           | Suc k \<Rightarrow> (tl_work t input w, Inl (Invoking parsed input k))))"

definition call_futures :: "('t, 'v, 'x) session_config \<Rightarrow> ('v, 'v call_state, ('t, 'v, 'x) world) runner" where
  "call_futures cf = \<lparr> rn_cancelled = w_cancelled, rn_init = call_init cf, rn_poll = poll_call cf \<rparr>"

section \<open>What a turn asks for\<close>

text \<open>\<open>build_tool_specs\<close>: the admitted tools of the registry, and the names of those not loaded.\<close>

fun build_tool_specs ::
  "('t, 'v, 'x) session_config \<Rightarrow> string list \<Rightarrow> string list \<Rightarrow> 'v tool_spec list \<times> string list" where
  "build_tool_specs cf force_loaded [] = ([], [])"
| "build_tool_specs cf force_loaded (name # names) =
     (case build_tool_specs cf force_loaded names of (specs, deferred) \<Rightarrow>
        if (case cf_admission cf of Some permits \<Rightarrow> permits name | None \<Rightarrow> True)
        then (case cf_lookup cf name of
            None \<Rightarrow> (specs, deferred)
          | Some t \<Rightarrow>
              (\<lparr> ts_name = name, ts_description = tl_description t, ts_input_schema = tl_schema t \<rparr> # specs,
               if name \<in> set force_loaded then deferred else name # deferred))
        else (specs, deferred))"

definition turn_request ::
  "('t, 'v, 'x) session_config \<Rightarrow> 'v message list \<Rightarrow> ('t, 'v, 'x) world \<Rightarrow> 'v completion_request" where
  "turn_request cf messages w =
     (case build_tool_specs cf (cf_always_load cf @ w_activated w @ w_loaded_deferred w) (cf_names cf) of
        (tools, deferred) \<Rightarrow>
          \<lparr> rq_messages = messages, rq_system_prompt = cf_system_prompt cf, rq_tools = tools,
            rq_mode = cf_mode cf, rq_deferred_tools = deferred,
            rq_loaded_deferred_tools = w_loaded_deferred w \<rparr>)"

section \<open>The provider's stream\<close>

datatype replay_reasoning =
    Replay_Thinking "string option" "string option"
  | Replay_Redacted string

record 'v turn_text =
  tt_text :: string
  tt_tool_uses :: "'v tool_invocation list"
  tt_reasoning :: "replay_reasoning list"

text \<open>How the reading of a stream ends: the turn is over, or the provider failed.\<close>

datatype 'v stream_end = Turn_Over "'v turn_text" | Stream_Failed provider_error

text \<open>The event sink, if there is one, gets every event but the turn's end and a soft error.\<close>

definition read_event :: "'v completion_event \<Rightarrow> 'v turn_text \<Rightarrow> 'v turn_text \<times> 'v session_event option" where
  "read_event ev tt =
     (case ev of
        CE_Assistant_Text s \<Rightarrow> (tt\<lparr> tt_text := tt_text tt @ s \<rparr>, Some (SE_Assistant_Text s))
      | CE_Tool_Use i name input \<Rightarrow>
          (tt\<lparr> tt_tool_uses := tt_tool_uses tt @ [\<lparr> ti_id = i, ti_name = name, ti_input = input \<rparr>] \<rparr>,
           Some (SE_Tool_Use i name input))
      | CE_Usage u \<Rightarrow> (tt, Some (SE_Usage u))
      | CE_Thinking_Start \<Rightarrow> (tt, Some SE_Thinking_Start)
      | CE_Thinking_Delta s \<Rightarrow> (tt, Some (SE_Thinking_Delta s))
      | CE_Thinking_End ms \<Rightarrow> (tt, Some (SE_Thinking_End ms))
      | CE_Thinking_Block s sig \<Rightarrow>
          (tt\<lparr> tt_reasoning := tt_reasoning tt @ [Replay_Thinking s sig] \<rparr>, Some (SE_Thinking_Block s sig))
      | CE_Redacted_Thinking_Block d \<Rightarrow>
          (tt\<lparr> tt_reasoning := tt_reasoning tt @ [Replay_Redacted d] \<rparr>, Some (SE_Redacted_Thinking_Block d))
      | CE_Turn_Complete r \<Rightarrow> (tt, None)
      | CE_Error msg \<Rightarrow> (tt\<lparr> tt_text := tt_text tt @ ''[provider error: '' @ msg @ '']'' \<rparr>, None))"

fun read_stream ::
  "('t, 'v, 'x) session_config \<Rightarrow> (provider_error + 'v completion_event) list \<Rightarrow> 'v turn_text \<Rightarrow> ('t, 'v, 'x) world \<Rightarrow>
     'v stream_end \<times> ('t, 'v, 'x) world" where
  "read_stream cf [] tt w = (Turn_Over tt, w)"
| "read_stream cf (Inl e # items) tt w = (Stream_Failed e, w)"
| "read_stream cf (Inr ev # items) tt w =
     (case read_event ev tt of (tt', out) \<Rightarrow>
        let w' = (case out of Some se \<Rightarrow> emit cf se w | None \<Rightarrow> w) in
        case ev of
          CE_Turn_Complete _ \<Rightarrow> (Turn_Over tt', w')
        | _ \<Rightarrow> read_stream cf items tt' w')"

definition replay_block :: "replay_reasoning \<Rightarrow> 'v content_block" where
  "replay_block b = (case b of Replay_Thinking s sig \<Rightarrow> CB_Thinking s sig | Replay_Redacted d \<Rightarrow> CB_Redacted_Thinking d)"

definition assistant_turn :: "'v turn_text \<Rightarrow> 'v message" where
  "assistant_turn tt =
     Assistant_Message
       (map replay_block (tt_reasoning tt) @
        (if tt_text tt = [] then [] else [CB_Text (tt_text tt)]) @
        map (\<lambda>c. CB_Tool_Use (ti_id c) (ti_name c) (ti_input c)) (tt_tool_uses tt))"

section \<open>Tool results\<close>

definition structured_to_text :: "('t, 'v, 'x) session_config \<Rightarrow> 'v \<Rightarrow> string" where
  "structured_to_text cf v =
     (case ce_str_field (cf_env cf) v ''text_fallback'' of Some s \<Rightarrow> s | None \<Rightarrow> ce_render (cf_env cf) v)"

fun result_block :: "tool_block \<Rightarrow> 'v content_block" where
  "result_block (Block_Text s) = CB_Text s"
| "result_block (Block_Image media_type d) = CB_Image media_type d"
| "result_block (Block_Document media_type d title) = CB_Document media_type d title"

definition tool_result_message :: "('t, 'v, 'x) session_config \<Rightarrow> string \<Rightarrow> 'v tool_output \<Rightarrow> 'v message" where
  "tool_result_message cf i payload =
     (case payload of
        Out_Blocks blocks \<Rightarrow> Tool_Result_Message i (map result_block blocks) False
      | Out_Text s \<Rightarrow> Tool_Result_Message i [CB_Text s] False
      | Out_Structured v \<Rightarrow>
          Tool_Result_Message i [CB_Text (structured_to_text cf v)] (cf_bool_field cf v ''is_error'' = Some True)
      | Out_Error msg _ \<Rightarrow> Tool_Result_Message i [CB_Text msg] True)"

text \<open>\<open>id_to_position\<close> keeps the last position of a repeated id.\<close>

definition id_to_position :: "'v tool_invocation list \<Rightarrow> string \<rightharpoonup> nat" where
  "id_to_position calls = map_of (rev (zip (map ti_id calls) [0..<length calls]))"

definition place_results ::
  "(string \<rightharpoonup> nat) \<Rightarrow> 'v invocation_result list \<Rightarrow> 'v invocation_result option list \<Rightarrow> 'v invocation_result option list" where
  "place_results pos results ordered =
     fold (\<lambda>r acc. case pos (ir_id r) of Some p \<Rightarrow> acc[p := Some r] | None \<Rightarrow> acc) results ordered"

fun run_batches ::
  "('t, 'v, 'x) session_config \<Rightarrow> nat \<Rightarrow> (nat \<Rightarrow> ('t, 'v, 'x) world choice list) \<Rightarrow> (string \<rightharpoonup> nat) \<Rightarrow> nat \<Rightarrow>
     'v batch list \<Rightarrow> 'v invocation_result option list \<Rightarrow> ('t, 'v, 'x) world \<Rightarrow>
     ('v invocation_result option list \<times> ('t, 'v, 'x) world) option" where
  "run_batches cf cap sched pos k [] ordered w = Some (ordered, w)"
| "run_batches cf cap sched pos k (b # bs) ordered w =
     (case run_batch (call_futures cf) b cap (sched k) w of
        None \<Rightarrow> None
      | Some (results, w') \<Rightarrow> run_batches cf cap sched pos (Suc k) bs (place_results pos results ordered) w')"

text \<open>A form that a tool has posted is stored and announced.\<close>

definition form_posted :: "('t, 'v, 'x) session_config \<Rightarrow> string \<Rightarrow> 'v tool_output \<Rightarrow> ('t, 'v, 'x) world \<Rightarrow> ('t, 'v, 'x) world" where
  "form_posted cf name payload w =
     (case payload of
        Out_Structured v \<Rightarrow>
          if name = ''AskUserQuestionWithForm'' \<and> cf_bool_field cf v ''posted'' = Some True
          then (case (ce_str_field (cf_env cf) v ''form_id'', cf_field cf v ''spec'') of
              (Some form_id, Some spec) \<Rightarrow>
                let scope_key = (case cf_project_id cf of Some p \<Rightarrow> ''project_'' @ p | None \<Rightarrow> px_agent_id (cf_context cf)) in
                emit cf (SE_Form_Posted form_id spec) (effect (Form_Persisted scope_key form_id spec) w)
            | _ \<Rightarrow> w)
          else w
      | _ \<Rightarrow> w)"

text \<open>The results in order; an empty slot is the \<open>expect\<close> that panics.\<close>

fun push_results ::
  "('t, 'v, 'x) session_config \<Rightarrow> 'v tool_invocation list \<Rightarrow> 'v invocation_result option list \<Rightarrow>
     'v message list \<Rightarrow> ('t, 'v, 'x) world \<Rightarrow> 'v message list option \<times> ('t, 'v, 'x) world" where
  "push_results cf calls [] messages w = (Some messages, w)"
| "push_results cf calls (None # slots) messages w = (None, w)"
| "push_results cf calls (Some r # slots) messages w =
     (let name = (case find (\<lambda>c. ti_id c = ir_id r) calls of Some c \<Rightarrow> ti_name c | None \<Rightarrow> ''?'');
          w1 = emit cf (SE_Tool_Result (ir_id r) (ir_payload r)) w;
          w2 = form_posted cf name (ir_payload r) w1 in
      push_results cf calls slots (messages @ [tool_result_message cf (ir_id r) (ir_payload r)]) w2)"

section \<open>Turn boundary and end of the session\<close>

text \<open>\<open>PendingMessageQueue::drain_for\<close>.\<close>

definition drain_for :: "session_kind \<Rightarrow> bool \<Rightarrow> ('t, 'v, 'x) world \<Rightarrow> string list \<times> ('t, 'v, 'x) world" where
  "drain_for kind sleep_ran w =
     (if kind = Interactive \<or> \<not> sleep_ran
      then (w_normal w @ w_low w, w\<lparr> w_normal := [], w_low := [] \<rparr>)
      else (w_normal w, w\<lparr> w_normal := [] \<rparr>))"

fun push_drained ::
  "('t, 'v, 'x) session_config \<Rightarrow> string list \<Rightarrow> 'v message list \<Rightarrow> ('t, 'v, 'x) world \<Rightarrow> 'v message list \<times> ('t, 'v, 'x) world" where
  "push_drained cf [] messages w = (messages, w)"
| "push_drained cf (content # cs) messages w =
     push_drained cf cs (messages @ [User_Message [CB_Text content]]) (emit cf (SE_Hidden_User_Message content) w)"

definition turn_boundary ::
  "('t, 'v, 'x) session_config \<Rightarrow> 'v message list \<Rightarrow> ('t, 'v, 'x) world \<Rightarrow> 'v message list \<times> ('t, 'v, 'x) world" where
  "turn_boundary cf messages w =
     (case drain_for (cf_kind cf) (w_sleep_ran w) (w\<lparr> w_sleep_ran := False \<rparr>) of (drained, w1) \<Rightarrow>
        (case push_drained cf drained messages w1 of (messages', w2) \<Rightarrow>
           (messages', w2\<lparr> w_skill_filter := None \<rparr>)))"

definition on_session_end :: "('t, 'v, 'x) world \<Rightarrow> ('t, 'v, 'x) world" where
  "on_session_end w =
     (let w1 = effect Cancelled_Forms (effect Cancelled_Questions (effect Cancelled_Background w)) in
      case w_worktree_stack w1 of
        [] \<Rightarrow> w1
      | original # _ \<Rightarrow> w1\<lparr> w_worktree_stack := [], w_cwd := original \<rparr>)"

definition finalize_turn_outcome :: "('t, 'v, 'x) session_config \<Rightarrow> ('t, 'v, 'x) world \<Rightarrow> ('t, 'v, 'x) world" where
  "finalize_turn_outcome cf w =
     (if cf_outcome_store cf then effect (Outcome_Appended (cf_turn_id cf) (w_artifacts w)) w else w)"

section \<open>The loop\<close>

record 'v session_outcome =
  so_messages :: "'v message list"
  so_final_text :: string
  so_turns :: nat
  so_cancelled :: bool

text \<open>\<open>ProviderError\<close> becomes a \<open>RunnerError\<close>; a failed \<open>expect\<close> is a panic.\<close>

datatype 'v session_result =
    Session_Ok "'v session_outcome"
  | Session_Failed provider_error
  | Session_Panicked

record ('t, 'v, 'x) session_state =
  st_messages :: "'v message list"
  st_turns :: nat
  st_world :: "('t, 'v, 'x) world"

datatype ('t, 'v, 'x) turn_result =
    Next_Turn "('t, 'v, 'x) session_state"
  | Session_Over "'v session_result" "('t, 'v, 'x) world"

definition concurrent_cap :: "('t, 'v, 'x) session_config \<Rightarrow> nat" where
  "concurrent_cap cf = unat (max (pc_concurrent_tool_cap (rs_permissions (cf_settings cf))) 1)"

text \<open>The tools of a turn: batches in order, results in the order of the calls, the boundary.\<close>

definition tool_round ::
  "('t, 'v, 'x) session_config \<Rightarrow> (nat \<Rightarrow> ('t, 'v, 'x) world choice list) \<Rightarrow> 'v tool_invocation list \<Rightarrow>
     'v message list \<Rightarrow> nat \<Rightarrow> ('t, 'v, 'x) world \<Rightarrow> ('t, 'v, 'x) turn_result option" where
  "tool_round cf sched calls messages turns w =
     (let w1 = w\<lparr> w_message_id := (if cf_sink cf then cf_sink_turn cf w else None) \<rparr>;
          batches = partition_invocations (\<lambda>name. map_option tl_safe (cf_lookup cf name)) calls in
      case run_batches cf (concurrent_cap cf) sched (id_to_position calls) 0 batches
             (replicate (length calls) None) w1 of
        None \<Rightarrow> None
      | Some (ordered, w2) \<Rightarrow>
          (case push_results cf calls ordered messages w2 of
             (None, w3) \<Rightarrow> Some (Session_Over Session_Panicked w3)
           | (Some messages', w3) \<Rightarrow>
               (case turn_boundary cf messages' w3 of (messages'', w4) \<Rightarrow>
                  Some (Next_Turn \<lparr> st_messages = messages'', st_turns = turns, st_world = w4 \<rparr>))))"

definition turn_cap_reached :: "('t, 'v, 'x) session_config \<Rightarrow> nat \<Rightarrow> bool" where
  "turn_cap_reached cf turns \<longleftrightarrow> (case cf_max_turns cf of Some cap \<Rightarrow> cap \<le> turns | None \<Rightarrow> False)"

text \<open>What follows the stream. \<open>final_assistant_text\<close> is set only where the loop returns, so it is
  empty at every other exit but the turn cap's.\<close>

definition after_stream ::
  "('t, 'v, 'x) session_config \<Rightarrow> (nat \<Rightarrow> ('t, 'v, 'x) world choice list) \<Rightarrow> 'v turn_text \<Rightarrow>
     ('t, 'v, 'x) session_state \<Rightarrow> ('t, 'v, 'x) turn_result option" where
  "after_stream cf sched tt st =
     (let turns = st_turns st + 1; w = st_world st in
      if turn_cap_reached cf turns
      then Some (Session_Over (Session_Ok \<lparr> so_messages = st_messages st, so_final_text = tt_text tt,
                   so_turns = turns, so_cancelled = True \<rparr>) (on_session_end w))
      else
        let messages =
              (if tt_text tt \<noteq> [] \<or> tt_tool_uses tt \<noteq> [] \<or> tt_reasoning tt \<noteq> []
               then st_messages st @ [assistant_turn tt] else st_messages st) in
        if tt_tool_uses tt = []
        then Some (Session_Over (Session_Ok \<lparr> so_messages = messages, so_final_text = tt_text tt,
                     so_turns = turns, so_cancelled = False \<rparr>) (finalize_turn_outcome cf (on_session_end w)))
        else tool_round cf sched (tt_tool_uses tt) messages turns w)"

definition cancelled_outcome :: "('t, 'v, 'x) session_state \<Rightarrow> 'v session_outcome" where
  "cancelled_outcome st =
     \<lparr> so_messages = st_messages st, so_final_text = [], so_turns = st_turns st, so_cancelled = True \<rparr>"

definition session_turn ::
  "('t, 'v, 'x) session_config \<Rightarrow> (nat \<Rightarrow> nat \<Rightarrow> ('t, 'v, 'x) world choice list) \<Rightarrow>
     ('t, 'v, 'x) session_state \<Rightarrow> ('t, 'v, 'x) turn_result option" where
  "session_turn cf sched st =
     (if w_cancelled (st_world st)
      then Some (Session_Over (Session_Ok (cancelled_outcome st)) (on_session_end (st_world st)))
      else case cf_complete cf (turn_request cf (st_messages st) (st_world st)) (st_world st) of
          (Inl e, w) \<Rightarrow> Some (Session_Over (Session_Failed e) w)
        | (Inr items, w) \<Rightarrow>
            (case read_stream cf items \<lparr> tt_text = [], tt_tool_uses = [], tt_reasoning = [] \<rparr> w of
               (Stream_Failed e, w') \<Rightarrow>
                 if e = Provider_Cancelled
                 then Some (Session_Over (Session_Ok (cancelled_outcome st)) (on_session_end w'))
                 else Some (Session_Over (Session_Failed e) w')
             | (Turn_Over tt, w') \<Rightarrow> after_stream cf (sched (st_turns st)) tt (st\<lparr> st_world := w' \<rparr>)))"

text \<open>\<open>sched n k\<close> is the schedule of the \<open>k\<close>-th batch of turn \<open>n\<close>. Without a turn cap a session may go on
  for ever: \<open>None\<close>.\<close>

partial_function (option) session_loop ::
  "('t, 'v, 'x) session_config \<Rightarrow> (nat \<Rightarrow> nat \<Rightarrow> ('t, 'v, 'x) world choice list) \<Rightarrow>
     ('t, 'v, 'x) session_state \<Rightarrow> ('v session_result \<times> ('t, 'v, 'x) world) option" where
  "session_loop cf sched st =
     (case session_turn cf sched st of
        None \<Rightarrow> None
      | Some (Session_Over r w) \<Rightarrow> Some (r, w)
      | Some (Next_Turn st') \<Rightarrow> session_loop cf sched st')"

declare session_loop.simps [code]

definition run_session ::
  "('t, 'v, 'x) session_config \<Rightarrow> (nat \<Rightarrow> nat \<Rightarrow> ('t, 'v, 'x) world choice list) \<Rightarrow>
     'v message list \<Rightarrow> ('t, 'v, 'x) world \<Rightarrow> ('v session_result \<times> ('t, 'v, 'x) world) option" where
  "run_session cf sched initial_messages w =
     session_loop cf sched \<lparr> st_messages = initial_messages, st_turns = 0, st_world = w \<rparr>"

end
