(* ===== verification/Executor_Properties.thy ===== *)
theory Executor_Properties
  imports Tool_Executor
begin

text \<open>
  Properties of the partition and of the executor. The locale \<open>call_runner\<close> holds what the executor asks of
  the futures it runs; it is interpreted on the calls of the query loop.
\<close>

section \<open>The partition\<close>

fun batch_calls :: "'v batch \<Rightarrow> 'v tool_invocation list" where
  "batch_calls (Concurrent cs) = cs"
| "batch_calls (Serial c) = [c]"

fun is_serial :: "'v batch \<Rightarrow> bool" where
  "is_serial (Serial _) = True"
| "is_serial (Concurrent _) = False"

text \<open>Unsafe calls stand alone, safe ones in groups that are as long as can be.\<close>

fun well_batched :: "(string \<Rightarrow> bool option) \<Rightarrow> 'v batch list \<Rightarrow> bool" where
  "well_batched lookup [] = True"
| "well_batched lookup (Serial c # bs) = (\<not> invocation_safe lookup c \<and> well_batched lookup bs)"
| "well_batched lookup (Concurrent cs # bs) =
     (cs \<noteq> [] \<and> list_all (invocation_safe lookup) cs \<and> (bs = [] \<or> is_serial (hd bs)) \<and> well_batched lookup bs)"

abbreviation flat_batches :: "'v batch list \<Rightarrow> 'v tool_invocation list" where
  "flat_batches bs \<equiv> concat (map batch_calls bs)"

lemma well_batched_snoc_serial:
  "well_batched lookup bs \<Longrightarrow> \<not> invocation_safe lookup c \<Longrightarrow> well_batched lookup (bs @ [Serial c])"
  by (induction lookup bs rule: well_batched.induct) (auto simp: hd_append)

lemma well_batched_snoc_concurrent:
  "well_batched lookup bs \<Longrightarrow> bs = [] \<or> is_serial (last bs) \<Longrightarrow> cs \<noteq> [] \<Longrightarrow> list_all (invocation_safe lookup) cs \<Longrightarrow>
     well_batched lookup (bs @ [Concurrent cs])"
  by (induction lookup bs rule: well_batched.induct) (auto simp: hd_append split: if_splits)

lemma well_batched_snoc_both:
  "well_batched lookup bs \<Longrightarrow> bs = [] \<or> is_serial (last bs) \<Longrightarrow> cs \<noteq> [] \<Longrightarrow> list_all (invocation_safe lookup) cs \<Longrightarrow>
     \<not> invocation_safe lookup c \<Longrightarrow> well_batched lookup (bs @ [Concurrent cs, Serial c])"
  using well_batched_snoc_serial [OF well_batched_snoc_concurrent, of lookup bs cs c] by simp

definition partition_inv :: "(string \<Rightarrow> bool option) \<Rightarrow> 'v batch list \<times> 'v tool_invocation list \<Rightarrow> bool" where
  "partition_inv lookup acc \<longleftrightarrow>
     well_batched lookup (fst acc) \<and> (fst acc = [] \<or> is_serial (last (fst acc))) \<and>
     list_all (invocation_safe lookup) (snd acc)"

lemma partition_step_inv:
  assumes "partition_inv lookup acc"
  shows "partition_inv lookup (partition_step lookup c acc)"
    and "flat_batches (fst (partition_step lookup c acc)) @ snd (partition_step lookup c acc) =
      flat_batches (fst acc) @ snd acc @ [c]"
  using assms
  by (auto simp: partition_inv_def partition_step_def well_batched_snoc_serial well_batched_snoc_both
      split: prod.split)

lemma partition_fold_inv:
  "partition_inv lookup acc \<Longrightarrow> partition_inv lookup (fold (partition_step lookup) cs acc) \<and>
     flat_batches (fst (fold (partition_step lookup) cs acc)) @ snd (fold (partition_step lookup) cs acc) =
       flat_batches (fst acc) @ snd acc @ cs"
proof (induction cs arbitrary: acc)
  case Nil
  then show ?case by simp
next
  case (Cons c cs)
  from Cons.IH [OF partition_step_inv(1) [OF Cons.prems]] partition_step_inv(2) [OF Cons.prems]
  show ?case by simp
qed

lemma partition_well_batched:
  "well_batched lookup (partition_invocations lookup calls) \<and> flat_batches (partition_invocations lookup calls) = calls"
proof -
  obtain bs p where f: "fold (partition_step lookup) calls ([], []) = (bs, p)" by force
  with partition_fold_inv [of lookup "([], [])" calls]
  have "partition_inv lookup (bs, p)" "flat_batches bs @ p = calls" by (auto simp: partition_inv_def)
  with f show ?thesis
    by (auto simp: partition_invocations_def partition_inv_def well_batched_snoc_concurrent)
qed

lemma head_group:
  assumes "well_batched lookup (Concurrent cs # bs)"
  shows "takeWhile (invocation_safe lookup) (flat_batches (Concurrent cs # bs)) = cs"
proof -
  have "takeWhile (invocation_safe lookup) (flat_batches bs) = []"
    using assms by (cases "(lookup, bs)" rule: well_batched.cases) auto
  with assms show ?thesis by (simp add: takeWhile_append2 list_all_iff)
qed

lemma well_batched_unique:
  "well_batched lookup bs \<Longrightarrow> well_batched lookup bs' \<Longrightarrow> flat_batches bs = flat_batches bs' \<Longrightarrow> bs = bs'"
proof (induction bs arbitrary: bs')
  case Nil
  then show ?case by (cases "(lookup, bs')" rule: well_batched.cases) auto
next
  case (Cons b bs)
  show ?case
  proof (cases b)
    case (Serial c)
    with Cons.prems obtain bs2 where "bs' = Serial c # bs2"
      by (cases "(lookup, bs')" rule: well_batched.cases) (auto simp: neq_Nil_conv)
    with Serial Cons show ?thesis by auto
  next
    case (Concurrent cs)
    with Cons.prems obtain cs' bs2 where bs': "bs' = Concurrent cs' # bs2"
      by (cases "(lookup, bs')" rule: well_batched.cases) (auto simp: neq_Nil_conv)
    have "cs = cs'"
      using head_group [of lookup cs bs] head_group [of lookup cs' bs2] Cons.prems bs' Concurrent by simp
    with Concurrent Cons bs' show ?thesis by auto
  qed
qed

text \<open>The partition is the one way to cut the calls, in their order, into single unsafe calls and
  groups of safe ones that no further safe call touches.\<close>

theorem partition_characterized:
  "partition_invocations lookup calls = bs \<longleftrightarrow>
     well_batched lookup bs \<and> concat (map batch_calls bs) = calls"
  using partition_well_batched [of lookup calls] well_batched_unique by blast

section \<open>The executor\<close>

fun holds_permit :: "('v, 'f) slot \<Rightarrow> bool" where
  "holds_permit Holding = True"
| "holds_permit (Running _) = True"
| "holds_permit _ = False"

definition holders :: "('v, 'f) slot list \<Rightarrow> nat" where
  "holders slots = length (filter holds_permit slots)"

lemma holders_set:
  "i < length slots \<Longrightarrow>
     holders (slots[i := s]) + (if holds_permit (slots ! i) then 1 else 0) = holders slots + (if holds_permit s then 1 else 0)"
proof (induction slots arbitrary: i)
  case Nil
  then show ?case by simp
next
  case (Cons x slots)
  show ?case
  proof (cases i)
    case 0
    then show ?thesis by (simp add: holders_def)
  next
    case (Suc j)
    with Cons.IH [of j] Cons.prems show ?thesis by (simp add: holders_def)
  qed
qed

lemma exec_swap:
  "e\<lparr> ex_permits := p, ex_slots := s \<rparr> = e\<lparr> ex_slots := s, ex_permits := p \<rparr>"
  "e\<lparr> ex_world := w, ex_slots := s \<rparr> = e\<lparr> ex_slots := s, ex_world := w \<rparr>"
  "e\<lparr> ex_world := w, ex_permits := p \<rparr> = e\<lparr> ex_permits := p, ex_world := w \<rparr>"
  by simp_all

text \<open>A stretch of a schedule in which each of the first \<open>n\<close> slots is polled.\<close>

definition fair_round :: "nat \<Rightarrow> 'w choice list \<Rightarrow> bool" where
  "fair_round n round \<longleftrightarrow> (\<forall>i<n. Poll i \<in> set round)"

lemma fair_round_mono: "fair_round n round \<Longrightarrow> m \<le> n \<Longrightarrow> fair_round m round"
  by (simp add: fair_round_def)

abbreviation poll_count :: "'w choice list \<Rightarrow> nat" where
  "poll_count cs \<equiv> length (filter (\<lambda>c. \<exists>i. c = Poll i) cs)"

lemma fair_poll_count: "list_all (fair_round n) rounds \<Longrightarrow> 0 < n \<Longrightarrow> length rounds \<le> poll_count (concat rounds)"
proof (induction rounds)
  case Nil
  then show ?case by simp
next
  case (Cons round rounds)
  then have "Poll 0 \<in> set (filter (\<lambda>c. \<exists>i. c = Poll i) round)" by (simp add: fair_round_def)
  then have "0 < poll_count round" by (rule length_pos_if_in_set)
  moreover have "length rounds \<le> poll_count (concat rounds)" using Cons by simp
  ultimately have "Suc (length rounds) \<le> poll_count round + poll_count (concat rounds)" by linarith
  then show ?case by simp
qed

locale call_runner =
  fixes rn :: "('v, 'f, 'w) runner"
    and rank :: "'f \<Rightarrow> nat"
  assumes poll_id: "rn_poll rn call f w = (w', Inr r) \<Longrightarrow> ir_id r = ti_id call"
    and poll_rank: "rn_poll rn call f w = (w', Inl f') \<Longrightarrow> rank f' < rank f"
begin

text \<open>A result is the cancellation marker or what a poll of the call returned.\<close>

definition proper_result :: "'v tool_invocation \<Rightarrow> nat \<Rightarrow> 'v invocation_result \<Rightarrow> bool" where
  "proper_result call i r \<longleftrightarrow>
     r = cancelled_result call i \<or> (\<exists>f w w'. rn_poll rn call f w = (w', Inr r))"

lemma proper_result_id: "proper_result call i r \<Longrightarrow> ir_id r = ti_id call"
  by (auto simp: proper_result_def cancelled_result_def dest: poll_id)

definition exec_inv :: "'v tool_invocation list \<Rightarrow> nat \<Rightarrow> ('v, 'f, 'w) exec \<Rightarrow> bool" where
  "exec_inv calls cap e \<longleftrightarrow>
     length (ex_slots e) = length calls \<and> ex_permits e + holders (ex_slots e) = cap \<and>
     (\<forall>i r. i < length calls \<longrightarrow> ex_slots e ! i = Finished r \<longrightarrow> proper_result (calls ! i) i r)"

lemma exec_inv_init: "exec_inv calls cap (exec_init calls cap w)"
  by (simp add: exec_inv_def exec_init_def holders_def)

lemma exec_inv_set:
  assumes "exec_inv calls cap e" "i < length calls"
    and "\<And>r. s = Finished r \<Longrightarrow> proper_result (calls ! i) i r"
    and "permits + (if holds_permit s then 1 else 0) = ex_permits e + (if holds_permit (ex_slots e ! i) then 1 else 0)"
  shows "exec_inv calls cap (e\<lparr> ex_slots := (ex_slots e)[i := s], ex_permits := permits, ex_world := w \<rparr>)"
proof -
  have "permits + holders ((ex_slots e)[i := s]) = cap"
    using holders_set [of i "ex_slots e" s] assms by (auto simp: exec_inv_def split: if_splits)
  with assms show ?thesis by (auto simp: exec_inv_def nth_list_update split: if_splits)
qed

lemma exec_inv_poll:
  assumes inv: "exec_inv calls cap e"
  shows "exec_inv calls cap (poll_slot rn calls i e)"
proof (cases "i < length (ex_slots e)")
  case True
  then have i: "i < length calls" using inv by (simp add: exec_inv_def)
  note set = exec_inv_set [OF inv i]
  have cr: "proper_result (calls ! i) i (cancelled_result (calls ! i) i)" by (simp add: proper_result_def)
  show ?thesis
  proof (cases "ex_slots e ! i")
    case Waiting
    then show ?thesis
      using inv True cr set [of "Finished (cancelled_result (calls ! i) i)" "ex_permits e" "ex_world e"]
        set [of Holding "ex_permits e - 1" "ex_world e"]
      by (simp add: poll_slot_def Let_def put_slot_def exec_swap)
  next
    case Holding
    then show ?thesis
      using True cr set [of "Finished (cancelled_result (calls ! i) i)" "ex_permits e + 1" "ex_world e"]
        set [of "Running (rn_init rn (calls ! i))" "ex_permits e" "ex_world e"]
      by (simp add: poll_slot_def Let_def put_slot_def release_permit_def exec_swap)
  next
    case (Running f)
    obtain w res where p: "rn_poll rn (calls ! i) f (ex_world e) = (w, res)" by force
    show ?thesis
    proof (cases res)
      case (Inl f')
      then show ?thesis
        using Running True p set [of "Running f'" "ex_permits e" w] by (simp add: poll_slot_def Let_def put_slot_def exec_swap)
    next
      case (Inr r)
      with p have "proper_result (calls ! i) i r" by (auto simp: proper_result_def)
      then show ?thesis
        using Running True p Inr set [of "Finished r" "ex_permits e + 1" w]
        by (simp add: poll_slot_def Let_def put_slot_def release_permit_def exec_swap)
    qed
  next
    case (Finished r)
    with True inv show ?thesis by (simp add: poll_slot_def Let_def)
  qed
next
  case False
  with inv show ?thesis by (simp add: poll_slot_def Let_def)
qed

lemma exec_inv_choice: "exec_inv calls cap e \<Longrightarrow> exec_inv calls cap (exec_choice rn calls c e)"
  by (cases c) (simp_all add: exec_inv_poll, simp add: exec_inv_def)

lemma exec_inv_fold: "exec_inv calls cap e \<Longrightarrow> exec_inv calls cap (fold (exec_choice rn calls) cs e)"
  by (induction cs arbitrary: e) (simp_all add: exec_inv_choice)

text \<open>Safety: never more calls in flight than the cap, and proper results in the order of the calls.\<close>

lemma at_most_cap: "holders (ex_slots (fold (exec_choice rn calls) cs (exec_init calls cap w))) \<le> cap"
  using exec_inv_fold [OF exec_inv_init, of calls cap cs w] by (simp add: exec_inv_def)

lemma run_concurrent_results:
  assumes "run_concurrent rn calls cap cs w = Some (rs, w')"
  shows "length rs = length calls \<and> (\<forall>i<length calls. proper_result (calls ! i) i (rs ! i))"
proof -
  define e where "e = fold (exec_choice rn calls) cs (exec_init calls cap w)"
  have inv: "exec_inv calls cap e" unfolding e_def by (rule exec_inv_fold [OF exec_inv_init])
  have all: "None \<notin> set (map slot_result (ex_slots e))" and rs: "rs = map the (map slot_result (ex_slots e))"
    using assms by (auto simp: run_concurrent_def Let_def e_def split: if_splits)
  have len: "length (ex_slots e) = length calls" using inv by (simp add: exec_inv_def)
  have "proper_result (calls ! i) i (rs ! i)" if "i < length calls" for i
  proof -
    have "slot_result (ex_slots e ! i) \<noteq> None" using all that len by (metis length_map nth_map nth_mem)
    then obtain r where "ex_slots e ! i = Finished r" by (cases "ex_slots e ! i") auto
    with inv that rs len show ?thesis by (simp add: exec_inv_def)
  qed
  with rs len show ?thesis by simp
qed

lemma run_inline_result: "run_inline rn call f cs w = Some (r, w') \<Longrightarrow> \<exists>f w w'. rn_poll rn call f w = (w', Inr r)"
  by (induction rn call f cs w rule: run_inline.induct) (auto split: prod.splits sum.splits)

lemma run_batch_results:
  assumes "run_batch rn b cap cs w = Some (rs, w')"
  shows "map ir_id rs = map ti_id (batch_calls b)"
proof (cases b)
  case (Concurrent calls)
  then have "run_concurrent rn calls cap cs w = Some (rs, w')" using assms by (simp add: run_batch_def)
  from run_concurrent_results [OF this]
  have "length rs = length calls" "\<And>i. i < length calls \<Longrightarrow> ir_id (rs ! i) = ti_id (calls ! i)"
    by (auto dest: proper_result_id)
  then have "map ir_id rs = map ti_id calls" by (intro nth_equalityI) simp_all
  with Concurrent show ?thesis by simp
next
  case (Serial call)
  then obtain r where "run_serial rn call cs w = Some (r, w')" "rs = [r]"
    using assms by (auto simp: run_batch_def)
  then show ?thesis
    using Serial by (auto simp: run_serial_def cancelled_result_def split: if_splits dest!: run_inline_result poll_id)
qed

section \<open>Progress\<close>

fun slot_weight :: "nat \<Rightarrow> ('v, 'f) slot \<Rightarrow> nat" where
  "slot_weight B Waiting = B + 3"
| "slot_weight B Holding = B + 2"
| "slot_weight B (Running f) = rank f + 1"
| "slot_weight B (Finished r) = 0"

definition weight :: "nat \<Rightarrow> ('v, 'f, 'w) exec \<Rightarrow> nat" where
  "weight B e = sum_list (map (slot_weight B) (ex_slots e))"

lemma weight_set:
  assumes "i < length (ex_slots e)" "slot_weight B s < slot_weight B (ex_slots e ! i)"
  shows "weight B (e\<lparr> ex_slots := (ex_slots e)[i := s], ex_permits := p, ex_world := w \<rparr>) < weight B e"
proof -
  have "sum_list (map (slot_weight B) ((ex_slots e)[i := s])) + slot_weight B (ex_slots e ! i) =
      sum_list (map (slot_weight B) (ex_slots e)) + slot_weight B s"
    using assms(1)
    by (simp add: map_update sum_list_update member_le_sum_list add.commute le_add_diff_inverse2)
      (metis add.commute assms(1) elem_le_sum_list le_add_diff_inverse length_map nth_map trans_le_add2)
  with assms(2) show ?thesis by (simp add: weight_def)
qed

text \<open>A slot whose poll changes something, whatever the world is like.\<close>

definition ripe :: "('v, 'f, 'w) exec \<Rightarrow> nat \<Rightarrow> bool" where
  "ripe e i \<longleftrightarrow> i < length (ex_slots e) \<and>
     (case ex_slots e ! i of Waiting \<Rightarrow> ex_permits e > 0 | Finished _ \<Rightarrow> False | _ \<Rightarrow> True)"

lemma poll_moves:
  assumes "\<forall>call\<in>set calls. rank (rn_init rn call) \<le> B" "length (ex_slots e) = length calls"
  shows "poll_slot rn calls i e = e \<and> \<not> ripe e i \<or> weight B (poll_slot rn calls i e) < weight B e"
proof (cases "i < length (ex_slots e)")
  case True
  note set = weight_set [where i = i and e = e and B = B, OF True]
  show ?thesis
  proof (cases "ex_slots e ! i")
    case Waiting
    then show ?thesis
      using True set [where s = "Finished (cancelled_result (calls ! i) i)" and p = "ex_permits e" and w = "ex_world e"]
        set [where s = Holding and p = "ex_permits e - 1" and w = "ex_world e"]
      by (simp add: ripe_def poll_slot_def Let_def put_slot_def exec_swap)
  next
    case Holding
    have "rank (rn_init rn (calls ! i)) \<le> B" using assms True by simp
    then show ?thesis
      using Holding True set [where s = "Finished (cancelled_result (calls ! i) i)" and p = "ex_permits e + 1" and w = "ex_world e"]
        set [where s = "Running (rn_init rn (calls ! i))" and p = "ex_permits e" and w = "ex_world e"]
      by (simp add: ripe_def poll_slot_def Let_def put_slot_def release_permit_def exec_swap)
  next
    case (Running f)
    obtain w res where p: "rn_poll rn (calls ! i) f (ex_world e) = (w, res)" by force
    show ?thesis
    proof (cases res)
      case (Inl f')
      then show ?thesis
        using Running True p set [where s = "Running f'" and p = "ex_permits e" and w = w] poll_rank [of "calls ! i" f "ex_world e" w f']
        by (simp add: ripe_def poll_slot_def Let_def put_slot_def exec_swap)
    next
      case (Inr r)
      then show ?thesis
        using Running True p set [where s = "Finished r" and p = "ex_permits e + 1" and w = w]
        by (simp add: ripe_def poll_slot_def Let_def put_slot_def release_permit_def exec_swap)
    qed
  next
    case (Finished r)
    with True show ?thesis by (simp add: ripe_def poll_slot_def Let_def)
  qed
qed (simp add: ripe_def poll_slot_def Let_def)

lemma choice_moves:
  assumes "\<forall>call\<in>set calls. rank (rn_init rn call) \<le> B" "exec_inv calls cap e"
  shows "weight B (exec_choice rn calls c e) < weight B e \<or>
     weight B (exec_choice rn calls c e) = weight B e \<and> ripe (exec_choice rn calls c e) = ripe e \<and>
       (\<forall>i. c = Poll i \<longrightarrow> \<not> ripe e i)"
proof (cases c)
  case (Poll i)
  with poll_moves [of calls B e i] assms show ?thesis by (auto simp: exec_inv_def)
next
  case (Outside g)
  then show ?thesis by (simp add: weight_def ripe_def fun_eq_iff split: slot.split)
qed

lemma schedule_moves:
  assumes "\<forall>call\<in>set calls. rank (rn_init rn call) \<le> B"
  shows "exec_inv calls cap e \<Longrightarrow>
     weight B (fold (exec_choice rn calls) cs e) \<le> weight B e \<and>
     (ripe e i \<longrightarrow> Poll i \<in> set cs \<longrightarrow> weight B (fold (exec_choice rn calls) cs e) < weight B e)"
proof (induction cs arbitrary: e)
  case Nil
  then show ?case by simp
next
  case (Cons c cs)
  from choice_moves [OF assms Cons.prems, of c] show ?case
  proof (elim disjE conjE)
    assume "weight B (exec_choice rn calls c e) < weight B e"
    with Cons.IH [OF exec_inv_choice [OF Cons.prems, of c]] show ?thesis by auto
  next
    assume "weight B (exec_choice rn calls c e) = weight B e" "ripe (exec_choice rn calls c e) = ripe e"
      "\<forall>i. c = Poll i \<longrightarrow> \<not> ripe e i"
    with Cons.IH [OF exec_inv_choice [OF Cons.prems, of c]] show ?thesis by auto
  qed
qed

lemma weight_zero: "weight B e = 0 \<longleftrightarrow> (\<forall>s\<in>set (ex_slots e). slot_weight B s = 0)"
  by (simp add: weight_def sum_list_eq_0_iff)

lemma unfinished_ripe:
  assumes "exec_inv calls cap e" "0 < cap" "0 < weight B e"
  shows "\<exists>i<length calls. ripe e i"
proof -
  have "\<exists>s\<in>set (ex_slots e). slot_weight B s \<noteq> 0"
    using assms(3) weight_zero [of B e] by auto
  then obtain j where j: "j < length (ex_slots e)" "slot_weight B (ex_slots e ! j) \<noteq> 0"
    by (metis in_set_conv_nth)
  show ?thesis
  proof (cases "\<exists>i<length (ex_slots e). holds_permit (ex_slots e ! i)")
    case True
    then obtain i where "i < length (ex_slots e)" "holds_permit (ex_slots e ! i)" by blast
    with assms(1) show ?thesis
      by (intro exI [of _ i]) (cases "ex_slots e ! i"; simp add: ripe_def exec_inv_def)
  next
    case False
    then have "holders (ex_slots e) = 0" by (simp add: holders_def filter_empty_conv all_set_conv_all_nth)
    then have "0 < ex_permits e" using assms(1,2) by (simp add: exec_inv_def)
    with False j assms(1) show ?thesis
      by (intro exI [of _ j]) (cases "ex_slots e ! j"; auto simp: ripe_def exec_inv_def)
  qed
qed

lemma rounds_finish:
  assumes ranks: "\<forall>call\<in>set calls. rank (rn_init rn call) \<le> B" and cap: "0 < cap"
  shows "exec_inv calls cap e \<Longrightarrow> list_all (fair_round (length calls)) rounds \<Longrightarrow> weight B e \<le> length rounds \<Longrightarrow>
     weight B (fold (exec_choice rn calls) (concat rounds) e) = 0"
proof (induction rounds arbitrary: e)
  case Nil
  then show ?case by simp
next
  case (Cons round rounds)
  let ?e = "fold (exec_choice rn calls) round e"
  have "weight B ?e \<le> length rounds"
  proof (cases "weight B e = 0")
    case True
    with schedule_moves [OF ranks Cons.prems(1), of round] show ?thesis by simp
  next
    case False
    with unfinished_ripe [OF Cons.prems(1) cap] obtain i where "i < length calls" "ripe e i" by blast
    with schedule_moves [OF ranks Cons.prems(1), of round i] Cons.prems(2,3) show ?thesis
      by (auto simp: fair_round_def)
  qed
  with Cons.IH [of ?e] Cons.prems exec_inv_fold show ?case by simp
qed

lemma run_concurrent_returns:
  assumes "\<forall>call\<in>set calls. rank (rn_init rn call) \<le> B" "0 < cap"
    and "list_all (fair_round (length calls)) rounds" "length calls * (B + 3) \<le> length rounds"
  shows "\<exists>rs w'. run_concurrent rn calls cap (concat rounds) w = Some (rs, w')"
proof -
  define e where "e = fold (exec_choice rn calls) (concat rounds) (exec_init calls cap w)"
  have "weight B (exec_init calls cap w :: ('v, 'f, 'w) exec) \<le> length rounds"
    using assms(4) by (simp add: weight_def exec_init_def sum_list_replicate)
  with rounds_finish [OF assms(1,2) exec_inv_init assms(3)] have "weight B e = 0" by (simp add: e_def)
  then have "slot_result s \<noteq> None" if "s \<in> set (ex_slots e)" for s
    using that by (cases s) (fastforce simp: weight_zero)+
  then have "None \<notin> slot_result ` set (ex_slots e)" by (metis imageE)
  then show ?thesis by (simp add: run_concurrent_def Let_def flip: e_def)
qed

lemma run_inline_returns:
  "rank f < poll_count cs \<Longrightarrow> \<exists>r w'. run_inline rn call f cs w = Some (r, w')"
proof (induction cs arbitrary: f w)
  case Nil
  then show ?case by simp
next
  case (Cons c cs)
  show ?case
  proof (cases c)
    case (Poll i)
    obtain w' res where p: "rn_poll rn call f w = (w', res)" by force
    show ?thesis
    proof (cases res)
      case (Inl f')
      with p Cons.IH [of f'] poll_rank [of call f w w' f'] Cons.prems Poll show ?thesis by simp
    next
      case (Inr r)
      with p Poll show ?thesis by simp
    qed
  next
    case (Outside g)
    with Cons show ?thesis by simp
  qed
qed

lemma run_batch_returns:
  assumes "\<forall>call\<in>set (batch_calls b). rank (rn_init rn call) \<le> B" "0 < cap" "length (batch_calls b) \<le> n" "0 < n"
    and "list_all (fair_round n) rounds" "n * (B + 3) \<le> length rounds"
  shows "\<exists>rs w'. run_batch rn b cap (concat rounds) w = Some (rs, w')"
proof (cases b)
  case (Concurrent calls)
  have "list_all (fair_round (length calls)) rounds"
    using assms(3,5) Concurrent by (auto simp: list_all_iff intro: fair_round_mono)
  moreover have "length calls * (B + 3) \<le> length rounds"
    using assms(3,6) Concurrent by (auto intro: le_trans [OF mult_le_mono1])
  ultimately show ?thesis
    using run_concurrent_returns [of calls B cap rounds w] assms(1,2) Concurrent by (simp add: run_batch_def)
next
  case (Serial call)
  have "B < length rounds" using assms(4,6) by (cases n) auto
  then have "rank (rn_init rn call) < poll_count (concat rounds)"
    using assms(1) Serial fair_poll_count [OF assms(5,4)] by simp
  from run_inline_returns [OF this, of call w] obtain r w' where "run_inline rn call (rn_init rn call) (concat rounds) w = Some (r, w')"
    by blast
  with Serial show ?thesis by (simp add: run_batch_def run_serial_def)
qed

end

end
