(* ===== verification/Loop_Properties.thy ===== *)
theory Loop_Properties
  imports Query_Loop Executor_Properties Permission_Safety
begin

text \<open>
  Properties of the query loop. The executor's contract \<open>call_runner\<close> is interpreted on the calls of the loop,
  so that its bounds and its progress hold for them; the pairing of tool calls and results, the turn cap and
  the end of a session follow.
\<close>

section \<open>A sample session\<close>

text \<open>One tool that is pending once; a model that calls it with the given ids and then says it is done.\<close>

definition sample_tool :: "(unit, string, unit) tool" where
  "sample_tool =
     \<lparr> tl_description = [], tl_schema = [], tl_safe = True, tl_validate = Inr, tl_check_permissions = (\<lambda>_. Allow),
       tl_mutates = (\<lambda>_. False), tl_polls = 1, tl_pending = (\<lambda>_ _. 1), tl_work = (\<lambda>_ w. w),
       tl_invoke = (\<lambda>v w. (Inr (Out_Text v), w)) \<rparr>"

definition sample_session :: "string list \<Rightarrow> nat option \<Rightarrow> (unit, string, unit) session_config" where
  "sample_session ids cap =
     \<lparr> cf_env = \<lparr> ce_str_field = (\<lambda>_ _. None), ce_render = id, ce_glob = (\<lambda>_. None), ce_regex = (\<lambda>_ _. False) \<rparr>, cf_bool_field = (\<lambda>_ _. None), cf_field = (\<lambda>_ _. None), cf_tracker = noop_tracker,
       cf_bridge = (\<lambda>_ _. AskDeny), cf_settings = sample_settings, cf_context = sample_context DefaultMode,
       cf_project_id = None, cf_mode = DefaultMode, cf_kind = Interactive, cf_auto_approve = [],
       cf_hook_run = (\<lambda>_ _ _ _. HookContinue), cf_hook_cancelled = (\<lambda>_ _. False), cf_names = [''Read''],
       cf_lookup = (\<lambda>n. if n = ''Read'' then Some sample_tool else None), cf_nearest = (\<lambda>_. None),
       cf_always_load = [''Read''], cf_admission = None, cf_system_prompt = None, cf_sink = False,
       cf_sink_turn = (\<lambda>_. None), cf_max_turns = cap, cf_turn_id = ''t'', cf_outcome_store = True,
       cf_complete = (\<lambda>rq w. (Inr (if length (rq_messages rq) \<le> 1
          then map (\<lambda>i. Inr (CE_Tool_Use i ''Read'' ''x'')) ids
          else [Inr (CE_Assistant_Text ''done'')]), w)) \<rparr>"

definition sample_world :: "(unit, string, unit) world" where
  "sample_world =
     \<lparr> w_gate = \<lparr> ga_tracker = (), ga_asked = [] \<rparr>, w_cancelled = False, w_normal = [], w_low = [], w_sleep_ran = False,
       w_skill_filter = None, w_activated = [], w_loaded_deferred = [], w_artifacts = [], w_worktree_stack = [],
       w_cwd = [], w_message_id = None, w_effects = [], w_other = () \<rparr>"

definition sample_schedule :: "nat \<Rightarrow> nat \<Rightarrow> 'w choice list" where
  "sample_schedule n k = concat (replicate 14 [Poll 0, Poll 1])"

definition sample_calls :: "string list \<Rightarrow> string tool_invocation list" where
  "sample_calls ids = map (\<lambda>i. \<lparr> ti_id = i, ti_name = ''Read'', ti_input = ''x'' \<rparr>) ids"

section \<open>The calls of the loop as futures\<close>

fun call_rank :: "'v call_state \<Rightarrow> nat" where
  "call_rank (Checking n) = n + 3"
| "call_rank (Allowed _ _ n) = n + 2"
| "call_rank (Invoking _ _ n) = n + 1"

lemma check_call_cases:
  "snd (check_call cf call n w) = Inl f \<Longrightarrow> \<exists>parsed input. f = Allowed parsed input n"
  "snd (check_call cf call n w) = Inr r \<Longrightarrow> ir_id r = ti_id call"
  by (auto simp: check_call_def Let_def error_result_def
      split: option.splits if_splits sum.splits prod.splits stage_result.splits)

lemma poll_call_id: "poll_call cf call f w = (w', Inr r) \<Longrightarrow> ir_id r = ti_id call"
proof (induction cf call f w rule: poll_call.induct)
  case (1 cf call n w)
  with check_call_cases(2) [of cf call n w r] show ?case by simp
next
  case (2 cf call parsed input n w)
  then show ?case by (auto simp: error_result_def split: if_splits option.splits)
next
  case (3 cf call parsed input n w)
  then show ?case
    by (auto simp: error_result_def finish_call_def Let_def split: option.splits nat.splits prod.splits)
qed

lemma poll_call_rank: "poll_call cf call f w = (w', Inl f') \<Longrightarrow> call_rank f' < call_rank f"
proof (induction cf call f w rule: poll_call.induct)
  case (1 cf call n w)
  with check_call_cases(1) [of cf call n w f'] show ?case by auto
next
  case (2 cf call parsed input n w)
  then show ?case by (auto split: if_splits option.splits)
next
  case (3 cf call parsed input n w)
  then show ?case by (auto split: option.splits nat.splits prod.splits)
qed

interpretation calls: call_runner "call_futures cf" call_rank for cf
  by unfold_locales (auto simp: call_futures_def dest: poll_call_id poll_call_rank)

lemma proper_call_result:
  "call_runner.proper_result (call_futures cf) c i r \<longleftrightarrow> r = cancelled_result c i \<or> (\<exists>f w w'. poll_call cf c f w = (w', Inr r))"
  by (simp add: calls.proper_result_def call_futures_def[of cf, THEN arg_cong[of _ _ rn_poll]])

text \<open>C21: Whatever the schedule, at most \<open>cap\<close> calls of a concurrent batch hold a permit at once; if the batch
  returns, it has one result per call, in the order of the calls, each the cancellation marker or what the
  call's own future has returned, under the call's id.\<close>

theorem executor_bounded_in_order:
  "length (filter holds_permit
       (ex_slots (fold (exec_choice (call_futures cf) cs) schedule (exec_init cs cap w)))) \<le> cap \<and>
   (run_concurrent (call_futures cf) cs cap schedule w = Some (rs, w') \<longrightarrow>
      length rs = length cs \<and>
      (\<forall>i<length cs. ir_id (rs ! i) = ti_id (cs ! i) \<and>
         (rs ! i = cancelled_result (cs ! i) i \<or>
          (\<exists>f w w'. poll_call cf (cs ! i) f w = (w', Inr (rs ! i))))))"
proof -
  have "length rs = length cs \<and>
      (\<forall>i<length cs. ir_id (rs ! i) = ti_id (cs ! i) \<and>
         (rs ! i = cancelled_result (cs ! i) i \<or> (\<exists>f w w'. poll_call cf (cs ! i) f w = (w', Inr (rs ! i)))))"
    if "run_concurrent (call_futures cf) cs cap schedule w = Some (rs, w')"
  proof -
    from calls.run_concurrent_results [OF that]
    have len: "length rs = length cs" and p: "\<And>i. i < length cs \<Longrightarrow> call_runner.proper_result (call_futures cf) (cs ! i) i (rs ! i)"
      by blast+
    show ?thesis
      using len calls.proper_result_id [OF p] iffD1 [OF proper_call_result p] by blast
  qed
  then show ?thesis using calls.at_most_cap [of cf cs schedule cap w] unfolding holders_def by blast
qed

section \<open>Pairing\<close>

fun use_ids :: "'v content_block list \<Rightarrow> string list" where
  "use_ids [] = []"
| "use_ids (CB_Tool_Use i _ _ # bs) = i # use_ids bs"
| "use_ids (_ # bs) = use_ids bs"

fun result_id :: "'v message \<Rightarrow> string option" where
  "result_id (Tool_Result_Message i _ _) = Some i"
| "result_id _ = None"

fun is_user :: "'v message \<Rightarrow> bool" where
  "is_user (User_Message _) = True"
| "is_user _ = False"

text \<open>Rounds of a transcript: an assistant turn with tool calls, exactly one result per call in their
  order, then messages of the user.\<close>

inductive answered :: "'v message list \<Rightarrow> bool" where
  none: "answered []"
| round: "answered ms \<Longrightarrow> use_ids content \<noteq> [] \<Longrightarrow> map result_id results = map Some (use_ids content) \<Longrightarrow>
     list_all is_user users \<Longrightarrow> answered (ms @ [Assistant_Message content] @ results @ users)"

lemma use_ids_append [simp]: "use_ids (xs @ ys) = use_ids xs @ use_ids ys"
  by (induction xs rule: use_ids.induct) simp_all

lemma use_ids_replay [simp]: "use_ids (map replay_block bs) = []"
  by (induction bs) (simp_all add: replay_block_def split: replay_reasoning.split)

lemma use_ids_calls [simp]: "use_ids (map (\<lambda>c. CB_Tool_Use (ti_id c) (ti_name c) (ti_input c)) cs) = map ti_id cs"
  by (induction cs) simp_all

lemma assistant_turn_uses:
  "\<exists>content. assistant_turn tt = Assistant_Message content \<and> use_ids content = map ti_id (tt_tool_uses tt)"
  by (simp add: assistant_turn_def)

lemma id_to_position_snoc:
  "id_to_position (cs @ [c]) = (id_to_position cs)(ti_id c \<mapsto> length cs)"
  by (simp add: id_to_position_def)

lemma id_to_position_iff:
  "id_to_position cs i = Some p \<longleftrightarrow>
     p < length cs \<and> ti_id (cs ! p) = i \<and> (\<forall>q<length cs. ti_id (cs ! q) = i \<longrightarrow> q \<le> p)"
proof (induction cs arbitrary: p rule: rev_induct)
  case Nil
  then show ?case by (simp add: id_to_position_def)
next
  case (snoc c cs)
  show ?case
  proof (cases "ti_id c = i")
    case True
    then show ?thesis
      by (auto simp: id_to_position_snoc nth_append less_Suc_eq) 
  next
    case False
    with snoc show ?thesis by (auto simp: id_to_position_snoc nth_append less_Suc_eq)
  qed
qed

text \<open>The slots: each filled one holds a result of the call at its position.\<close>

definition slots_ok :: "'v tool_invocation list \<Rightarrow> 'v invocation_result option list \<Rightarrow> bool" where
  "slots_ok cs ordered \<longleftrightarrow>
     length ordered = length cs \<and> (\<forall>p r. p < length cs \<longrightarrow> ordered ! p = Some r \<longrightarrow> id_to_position cs (ir_id r) = Some p)"

lemma place_results_ok:
  assumes "slots_ok cs ordered"
  shows "slots_ok cs (place_results (id_to_position cs) rs ordered) \<and>
     (\<forall>p<length cs. (\<exists>r\<in>set rs. id_to_position cs (ir_id r) = Some p) \<or> ordered ! p \<noteq> None \<longrightarrow>
        place_results (id_to_position cs) rs ordered ! p \<noteq> None)"
  using assms
proof (induction rs arbitrary: ordered)
  case Nil
  then show ?case by (simp add: place_results_def)
next
  case (Cons r rs)
  define o' where "o' = (case id_to_position cs (ir_id r) of Some p \<Rightarrow> ordered[p := Some r] | None \<Rightarrow> ordered)"
  have len: "length o' = length cs" using Cons.prems by (simp add: o'_def slots_ok_def split: option.split)
  have nth: "o' ! p = (if id_to_position cs (ir_id r) = Some p then Some r else ordered ! p)" if "p < length cs" for p
    using that Cons.prems by (auto simp: o'_def slots_ok_def split: option.split)
  have ok: "slots_ok cs o'"
    using Cons.prems len nth by (simp add: slots_ok_def)
  have filled: "o' ! p \<noteq> None" if "p < length cs" "id_to_position cs (ir_id r) = Some p \<or> ordered ! p \<noteq> None" for p
    using that nth [OF that(1)] by (auto split: if_splits)
  have "place_results (id_to_position cs) (r # rs) ordered = place_results (id_to_position cs) rs o'"
    by (simp add: place_results_def o'_def)
  with Cons.IH [OF ok] filled show ?case by auto
qed

lemma run_batches_ok:
  assumes "run_batches cf cap sched (id_to_position cs) k bs ordered w = Some (ordered', w')" "slots_ok cs ordered"
  shows "slots_ok cs ordered' \<and>
     (\<forall>p<length cs. (\<exists>c\<in>set (flat_batches bs). id_to_position cs (ti_id c) = Some p) \<or> ordered ! p \<noteq> None \<longrightarrow>
        ordered' ! p \<noteq> None)"
  using assms
proof (induction bs arbitrary: k ordered w)
  case Nil
  then show ?case by simp
next
  case (Cons b bs)
  from Cons.prems(1) obtain rs w1 where b: "run_batch (call_futures cf) b cap (sched k) w = Some (rs, w1)"
    and rest: "run_batches cf cap sched (id_to_position cs) (Suc k) bs
      (place_results (id_to_position cs) rs ordered) w1 = Some (ordered', w')"
    by (auto split: option.splits)
  have ids: "ti_id ` set (batch_calls b) = ir_id ` set rs"
    using calls.run_batch_results [OF b] by (metis list.set_map)
  note place = place_results_ok [OF Cons.prems(2), of rs]
  from Cons.IH [OF rest conjunct1 [OF place]]
  have ok: "slots_ok cs ordered'"
    and filled: "\<And>p. p < length cs \<Longrightarrow> (\<exists>c\<in>set (flat_batches bs). id_to_position cs (ti_id c) = Some p) \<or>
      place_results (id_to_position cs) rs ordered ! p \<noteq> None \<Longrightarrow> ordered' ! p \<noteq> None"
    by blast+
  have "ordered' ! p \<noteq> None"
    if p: "p < length cs" and c: "(\<exists>c\<in>set (flat_batches (b # bs)). id_to_position cs (ti_id c) = Some p) \<or> ordered ! p \<noteq> None" for p
  proof (rule filled [OF p])
    from c consider c where "c \<in> set (batch_calls b)" "id_to_position cs (ti_id c) = Some p"
      | c where "c \<in> set (flat_batches bs)" "id_to_position cs (ti_id c) = Some p" | "ordered ! p \<noteq> None"
      by auto
    then show "(\<exists>c\<in>set (flat_batches bs). id_to_position cs (ti_id c) = Some p) \<or>
      place_results (id_to_position cs) rs ordered ! p \<noteq> None"
    proof cases
      case (1 c)
      then have "ti_id c \<in> ir_id ` set rs" using ids by blast
      with 1 place p show ?thesis by auto
    qed (use place p in auto)
  qed
  with ok show ?case by blast
qed

lemma push_results_some:
  "push_results cf cs slots messages w = (Some messages', w') \<Longrightarrow>
     None \<notin> set slots \<and> (\<exists>rs. messages' = messages @ rs \<and> map result_id rs = map (map_option ir_id) slots)"
proof (induction cf cs slots messages w rule: push_results.induct)
  case (1 cf cs messages w)
  then show ?case by simp
next
  case (2 cf cs slots messages w)
  then show ?case by simp
next
  case (3 cf cs r slots messages w)
  let ?m = "tool_result_message cf (ir_id r) (ir_payload r)"
  have m: "result_id ?m = Some (ir_id r)"
    by (simp add: tool_result_message_def split: tool_output.split)
  from 3(2) have p: "push_results cf cs slots (messages @ [?m])
      (form_posted cf (case find (\<lambda>c. ti_id c = ir_id r) cs of Some c \<Rightarrow> ti_name c | None \<Rightarrow> ''?'')
        (ir_payload r) (emit cf (SE_Tool_Result (ir_id r) (ir_payload r)) w)) = (Some messages', w')"
    by (simp add: Let_def)
  from 3(1) [OF refl refl refl p] obtain rs where "None \<notin> set slots" "messages' = (messages @ [?m]) @ rs"
    "map result_id rs = map (map_option ir_id) slots" by blast
  with m show ?case by (intro conjI exI [of _ "?m # rs"]) simp_all
qed

lemma push_results_none:
  "push_results cf cs slots messages w = (None, w') \<Longrightarrow> None \<in> set slots"
  by (induction cf cs slots messages w rule: push_results.induct) (auto simp: Let_def)

lemma push_drained_users:
  "push_drained cf cs messages w = (messages', w') \<Longrightarrow> \<exists>us. messages' = messages @ us \<and> list_all is_user us"
  by (induction cf cs messages w rule: push_drained.induct) auto

lemma turn_boundary_users:
  "turn_boundary cf messages w = (messages', w') \<Longrightarrow> \<exists>us. messages' = messages @ us \<and> list_all is_user us"
  by (auto simp: turn_boundary_def split: prod.splits dest: push_drained_users)

lemma distinct_positions:
  "distinct (map ti_id cs) \<longleftrightarrow> (\<forall>p<length cs. id_to_position cs (ti_id (cs ! p)) = Some p)"
  unfolding id_to_position_iff
  by (auto simp: distinct_conv_nth) (metis nat_le_linear order_antisym)

lemma tool_round_cases:
  assumes "tool_round cf sched cs messages turns w = Some res"
  obtains w' where "res = Session_Over Session_Panicked w'" "\<not> distinct (map ti_id cs)"
  | st results users where "res = Next_Turn st" "distinct (map ti_id cs)" "st_turns st = turns"
      "st_messages st = messages @ results @ users" "map result_id results = map Some (map ti_id cs)" "list_all is_user users"
proof -
  let ?batches = "partition_invocations (\<lambda>name. map_option tl_safe (cf_lookup cf name)) cs"
  let ?w = "w\<lparr> w_message_id := (if cf_sink cf then cf_sink_turn cf w else None) \<rparr>"
  from assms obtain ordered w2 where b: "run_batches cf (concurrent_cap cf) sched (id_to_position cs) 0 ?batches
      (replicate (length cs) None) ?w = Some (ordered, w2)"
    by (auto simp: tool_round_def Let_def split: option.splits)
  have all: "flat_batches ?batches = cs" using partition_well_batched by blast
  have "slots_ok cs (replicate (length cs) None)" by (simp add: slots_ok_def)
  from run_batches_ok [OF b this] all
  have ok: "slots_ok cs ordered"
    and filled: "\<And>p c. p < length cs \<Longrightarrow> c \<in> set cs \<Longrightarrow> id_to_position cs (ti_id c) = Some p \<Longrightarrow> ordered ! p \<noteq> None"
    by auto
  have len: "length ordered = length cs" using ok by (simp add: slots_ok_def)
  have some: "\<exists>r. ordered ! p = Some r" if "None \<notin> set ordered" "p < length cs" for p
    using that len nth_mem [of p ordered] by (cases "ordered ! p") auto
  have full: "None \<notin> set ordered \<longleftrightarrow> distinct (map ti_id cs)"
  proof
    assume "distinct (map ti_id cs)"
    then have "ordered ! p \<noteq> None" if "p < length cs" for p
      using that filled [of p "cs ! p"] by (simp add: distinct_positions)
    then show "None \<notin> set ordered" using len by (auto simp: in_set_conv_nth)
  next
    assume f: "None \<notin> set ordered"
    show "distinct (map ti_id cs)"
      unfolding distinct_positions
    proof (intro allI impI)
      fix p assume p: "p < length cs"
      obtain r where "ordered ! p = Some r" using some [OF f p] by blast
      with ok p have pos: "id_to_position cs (ir_id r) = Some p" by (simp add: slots_ok_def)
      then have "ti_id (cs ! p) = ir_id r" by (simp add: id_to_position_iff)
      with pos show "id_to_position cs (ti_id (cs ! p)) = Some p" by simp
    qed
  qed
  have ids: "map (map_option ir_id) ordered = map Some (map ti_id cs)" if nn: "None \<notin> set ordered"
  proof (rule nth_equalityI)
    fix p assume "p < length (map (map_option ir_id) ordered)"
    then have p: "p < length cs" using len by simp
    obtain r where r: "ordered ! p = Some r" using some [OF nn p] by blast
    with ok p have "id_to_position cs (ir_id r) = Some p" by (simp add: slots_ok_def)
    then have "ti_id (cs ! p) = ir_id r" by (simp add: id_to_position_iff)
    with r p len show "map (map_option ir_id) ordered ! p = map Some (map ti_id cs) ! p" by simp
  qed (use len in simp)
  obtain res1 w3 where p: "push_results cf cs ordered messages w2 = (res1, w3)" by force
  have res: "(case res1 of None \<Rightarrow> Some (Session_Over Session_Panicked w3)
      | Some messages' \<Rightarrow> (case turn_boundary cf messages' w3 of (messages'', w4) \<Rightarrow>
          Some (Next_Turn \<lparr> st_messages = messages'', st_turns = turns, st_world = w4 \<rparr>))) = Some res"
    using assms by (simp add: tool_round_def Let_def b p)
  show thesis
  proof (cases res1)
    case None
    with push_results_none p have "None \<in> set ordered" by metis
    then have "\<not> distinct (map ti_id cs)" using full by blast
    moreover have "res = Session_Over Session_Panicked w3" using None res by simp
    ultimately show thesis by (rule that(1) [rotated])
  next
    case (Some messages')
    with push_results_some p obtain rs where n: "None \<notin> set ordered"
      and rs: "messages' = messages @ rs" "map result_id rs = map (map_option ir_id) ordered" by metis
    obtain messages'' w4 where t: "turn_boundary cf messages' w3 = (messages'', w4)" by force
    then obtain us where us: "messages'' = messages' @ us" "list_all is_user us" using turn_boundary_users by metis
    have "distinct (map ti_id cs)" using full n by blast
    moreover have "res = Next_Turn \<lparr> st_messages = messages'', st_turns = turns, st_world = w4 \<rparr>"
      using res Some t by simp
    moreover have "map result_id rs = map Some (map ti_id cs)" using rs(2) ids [OF n] by simp
    ultimately show thesis using that(2) us rs(1) by simp
  qed
qed

lemma round_panics_cases:
  "tool_round cf sched cs messages turns w = Some (Session_Over Session_Panicked w') \<Longrightarrow> \<not> distinct (map ti_id cs)"
  by (erule tool_round_cases) auto

text \<open>A round of tool calls that returns panics exactly when two calls of the turn have the same id.\<close>

theorem round_panics_iff_ids_repeat:
  assumes "tool_round cf sched cs messages turns w = Some res"
  shows "(\<exists>w'. res = Session_Over Session_Panicked w') \<longleftrightarrow> \<not> distinct (map ti_id cs)"
  using assms by (rule tool_round_cases) auto

section \<open>The session\<close>

lemma after_stream_cases:
  assumes "after_stream cf sched tt st = Some res"
  obtains w' where "res = Session_Over Session_Panicked w'"
  | w' where "res = Session_Over (Session_Ok \<lparr> so_messages = st_messages st, so_final_text = tt_text tt,
        so_turns = st_turns st + 1, so_cancelled = True \<rparr>) w'" "turn_cap_reached cf (st_turns st + 1)"
  | w' final where "res = Session_Over (Session_Ok \<lparr> so_messages = st_messages st @ final, so_final_text = tt_text tt,
        so_turns = st_turns st + 1, so_cancelled = False \<rparr>) w'"
      "final = [] \<or> (\<exists>content. final = [Assistant_Message content] \<and> use_ids content = [])"
      "\<not> turn_cap_reached cf (st_turns st + 1)"
  | st' round where "res = Next_Turn st'" "st_messages st' = st_messages st @ round" "st_turns st' = st_turns st + 1"
      "\<And>ms. answered ms \<Longrightarrow> answered (ms @ round)" "\<not> turn_cap_reached cf (st_turns st + 1)"
proof (cases "turn_cap_reached cf (st_turns st + 1)")
  case True
  with assms that(2) show thesis by (auto simp: after_stream_def Let_def)
next
  case cap: False
  obtain content where content: "assistant_turn tt = Assistant_Message content" "use_ids content = map ti_id (tt_tool_uses tt)"
    using assistant_turn_uses by blast
  show thesis
  proof (cases "tt_tool_uses tt = []")
    case True
    define final where "final = (if tt_text tt \<noteq> [] \<or> tt_reasoning tt \<noteq> [] then [assistant_turn tt] else [])"
    have "final = [] \<or> (\<exists>content. final = [Assistant_Message content] \<and> use_ids content = [])"
      using content True by (simp add: final_def)
    moreover from assms cap True
    have "res = Session_Over (Session_Ok \<lparr> so_messages = st_messages st @ final, so_final_text = tt_text tt,
        so_turns = st_turns st + 1, so_cancelled = False \<rparr>) (finalize_turn_outcome cf (on_session_end (st_world st)))"
      by (auto simp: after_stream_def final_def Let_def)
    ultimately show thesis using that(3) cap by blast
  next
    case uses: False
    with cap assms have "tool_round cf sched (tt_tool_uses tt) (st_messages st @ [Assistant_Message content])
        (st_turns st + 1) (st_world st) = Some res"
      unfolding after_stream_def by (simp add: Let_def content(1))
    then show thesis
    proof (cases rule: tool_round_cases)
      case (1 w')
      with that(1) show thesis by blast
    next
      case (2 st' results users)
      have "answered (ms @ [Assistant_Message content] @ results @ users)" if "answered ms" for ms
        using that uses content(2) 2 by (intro answered.round) auto
      with 2 cap that(4) [of st' "[Assistant_Message content] @ results @ users"] show thesis by simp
    qed
  qed
qed

definition final_turn :: "'v message list \<Rightarrow> bool" where
  "final_turn ms \<longleftrightarrow> ms = [] \<or> (\<exists>content. ms = [Assistant_Message content] \<and> use_ids content = [])"

text \<open>What a turn of the loop can lead to.\<close>

lemma session_turn_cases:
  assumes "session_turn cf sched st = Some res"
  obtains r w where "res = Session_Over r w" "\<forall>out. r \<noteq> Session_Ok out"
  | out w where "res = Session_Over (Session_Ok out) w" "so_messages out = st_messages st" "so_cancelled out"
      "so_turns out \<le> st_turns st + 1"
  | out w final where "res = Session_Over (Session_Ok out) w" "so_messages out = st_messages st @ final" "\<not> so_cancelled out"
      "final_turn final" "so_turns out = st_turns st + 1" "\<not> turn_cap_reached cf (st_turns st + 1)"
  | st' round where "res = Next_Turn st'" "st_messages st' = st_messages st @ round" "st_turns st' = st_turns st + 1"
      "\<And>ms. answered ms \<Longrightarrow> answered (ms @ round)" "\<not> turn_cap_reached cf (st_turns st + 1)"
proof (cases "w_cancelled (st_world st)")
  case True
  with assms that(2) show thesis by (auto simp: session_turn_def cancelled_outcome_def)
next
  case False
  obtain ans w where c: "cf_complete cf (turn_request cf (st_messages st) (st_world st)) (st_world st) = (ans, w)" by force
  show thesis
  proof (cases ans)
    case (Inl e)
    with False assms c that(1) show thesis by (auto simp: session_turn_def)
  next
    case (Inr items)
    obtain fin w' where r: "read_stream cf items \<lparr> tt_text = [], tt_tool_uses = [], tt_reasoning = [] \<rparr> w = (fin, w')" by force
    show thesis
    proof (cases fin)
      case (Stream_Failed e)
      show thesis
      proof (cases "e = Provider_Cancelled")
        case True
        with Stream_Failed False assms c Inr r that(2) show thesis
          by (auto simp: session_turn_def cancelled_outcome_def)
      next
        case False
        with Stream_Failed \<open>\<not> w_cancelled (st_world st)\<close> assms c Inr r that(1) show thesis
          by (auto simp: session_turn_def)
      qed
    next
      case (Turn_Over tt)
      with False assms c Inr r have "after_stream cf (sched (st_turns st)) tt (st\<lparr> st_world := w' \<rparr>) = Some res"
        by (simp add: session_turn_def)
      then show thesis
      proof (cases rule: after_stream_cases)
        case (1 w')
        then show thesis using that(1) by blast
      next
        case (2 w')
        then show thesis using that(2) by fastforce
      next
        case (3 w' final)
        then show thesis using that(3) by (fastforce simp: final_turn_def)
      next
        case (4 st' round)
        then show thesis using that(4) by simp
      qed
    qed
  qed
qed

text \<open>One rule for what holds of the outcome of a session: \<open>I\<close> of every state at the head of the loop, \<open>Q\<close>
  of an outcome.\<close>

lemma session_loop_rule_raw:
  fixes y :: "'v session_result \<times> ('t, 'v, 'x) world"
  assumes "session_loop cf sched st = Some y" "I st"
    and "\<And>st out w. I st \<Longrightarrow> session_turn cf sched st = Some (Session_Over (Session_Ok out) w) \<Longrightarrow> Q out"
    and "\<And>st st'. I st \<Longrightarrow> session_turn cf sched st = Some (Next_Turn st') \<Longrightarrow> I st'"
  shows "\<forall>out. fst y = Session_Ok out \<longrightarrow> Q out"
proof -
  define P where "P cf' sched' st y \<longleftrightarrow> cf' = cf \<longrightarrow> sched' = sched \<longrightarrow> I st \<longrightarrow> (\<forall>out. fst y = Session_Ok out \<longrightarrow> Q out)"
    for cf' sched' st and y :: "'v session_result \<times> ('t, 'v, 'x) world"
  have "P cf sched st y"
    using assms(1)
  proof (rule session_loop.raw_induct [where P = P, rotated])
    fix loop cf' sched' st y
    assume IH: "\<And>c s st y. loop c s st = Some y \<Longrightarrow> P c s st y"
      and y: "(case session_turn cf' sched' st of None \<Rightarrow> None | Some (Next_Turn st') \<Rightarrow> loop cf' sched' st'
        | Some (Session_Over r w) \<Rightarrow> Some (r, w)) = Some y"
    show "P cf' sched' st y"
      unfolding P_def
    proof (intro impI)
      assume same: "cf' = cf" "sched' = sched" and inv: "I st"
      obtain res where t: "session_turn cf sched st = Some res"
        using y same by (cases "session_turn cf sched st") auto
      show "\<forall>out. fst y = Session_Ok out \<longrightarrow> Q out"
      proof (cases res)
        case (Next_Turn st')
        with y same t have "loop cf sched st' = Some y" by simp
        from IH [OF this] assms(4) [OF inv] t Next_Turn show ?thesis by (simp add: P_def)
      next
        case (Session_Over r' w')
        then show ?thesis using y same t inv assms(3) by auto
      qed
    qed
  qed
  with assms(2) show ?thesis by (simp add: P_def)
qed

lemmas session_loop_rule = session_loop_rule_raw [where y = "(Session_Ok out, w)", unfolded fst_conv, THEN spec, THEN mp, OF _ _ _ _ refl] for out w

text \<open>C16: When a session ends with an outcome, its messages are the given ones, then rounds of an assistant
  turn with calls, exactly one result per call in their order and user messages, then at most one assistant
  turn without calls; a session reported as cancelled has no such last turn.\<close>

theorem transcript_paired:
  assumes "run_session cf sched initial w = Some (Session_Ok out, w')"
  shows "\<exists>rounds final. so_messages out = initial @ rounds @ final \<and> answered rounds \<and>
     (if so_cancelled out then final = [] else final_turn final)"
proof (rule session_loop_rule [where I = "\<lambda>st. \<exists>rounds. st_messages st = initial @ rounds \<and> answered rounds"])
  show "session_loop cf sched \<lparr> st_messages = initial, st_turns = 0, st_world = w \<rparr> = Some (Session_Ok out, w')"
    using assms by (simp add: run_session_def)
next
  show "\<exists>rounds. st_messages \<lparr> st_messages = initial, st_turns = 0, st_world = w \<rparr> = initial @ rounds \<and> answered rounds"
    by (simp add: answered.none)
next
  fix st out w
  assume "\<exists>rounds. st_messages st = initial @ rounds \<and> answered rounds"
    and t: "session_turn cf sched st = Some (Session_Over (Session_Ok out) w)"
  then obtain rounds where "st_messages st = initial @ rounds" "answered rounds" by blast
  with t show "\<exists>rounds final. so_messages out = initial @ rounds @ final \<and> answered rounds \<and>
      (if so_cancelled out then final = [] else final_turn final)"
    by (cases rule: session_turn_cases) auto
next
  fix st st'
  assume "\<exists>rounds. st_messages st = initial @ rounds \<and> answered rounds"
    and t: "session_turn cf sched st = Some (Next_Turn st')"
  then obtain rounds where "st_messages st = initial @ rounds" "answered rounds" by blast
  with t show "\<exists>rounds. st_messages st' = initial @ rounds \<and> answered rounds"
    by (cases rule: session_turn_cases) auto
qed

text \<open>With a cap of \<open>cap\<close> turns a session takes at most \<open>cap\<close> turns (one, if the cap is zero) and an outcome
  that needed all of them is reported as cancelled, also when the model had finished by itself.\<close>

theorem turn_cap_reports_cancelled:
  assumes "run_session cf sched initial w = Some (Session_Ok out, w')" "cf_max_turns cf = Some cap"
  shows "so_turns out \<le> max 1 cap \<and> (cap \<le> so_turns out \<longrightarrow> so_cancelled out)"
proof (rule session_loop_rule [where I = "\<lambda>st. st_turns st < max 1 cap"])
  show "session_loop cf sched \<lparr> st_messages = initial, st_turns = 0, st_world = w \<rparr> = Some (Session_Ok out, w')"
    using assms(1) by (simp add: run_session_def)
next
  fix st out w
  assume "st_turns st < max 1 cap" and "session_turn cf sched st = Some (Session_Over (Session_Ok out) w)"
  from this(2,1) show "so_turns out \<le> max 1 cap \<and> (cap \<le> so_turns out \<longrightarrow> so_cancelled out)"
    by (cases rule: session_turn_cases) (auto simp: turn_cap_reached_def assms(2))
next
  fix st st'
  assume "st_turns st < max 1 cap" and "session_turn cf sched st = Some (Next_Turn st')"
  from this(2,1) show "st_turns st' < max 1 cap"
    by (cases rule: session_turn_cases) (auto simp: turn_cap_reached_def assms(2))
qed simp

section \<open>A capped session returns\<close>

lemma read_event_uses: "length (tt_tool_uses (fst (read_event ev tt))) \<le> length (tt_tool_uses tt) + 1"
  by (simp add: read_event_def split: completion_event.split)

lemma read_stream_step:
  "read_event ev tt = (tt1, out) \<Longrightarrow>
     read_stream cf (Inr ev # items) tt w =
       (let w' = (case out of Some se \<Rightarrow> emit cf se w | None \<Rightarrow> w) in
        if (\<exists>reason. ev = CE_Turn_Complete reason) then (Turn_Over tt1, w') else read_stream cf items tt1 w')"
  by (cases ev) (simp_all add: Let_def)

lemma read_stream_uses:
  "read_stream cf items tt w = (Turn_Over tt', w') \<Longrightarrow> length (tt_tool_uses tt') \<le> length (tt_tool_uses tt) + length items"
proof (induction items arbitrary: tt w)
  case Nil
  then show ?case by simp
next
  case (Cons item items)
  then obtain ev where item: "item = Inr ev" by (cases item) auto
  obtain tt1 out where re: "read_event ev tt = (tt1, out)" by force
  have le: "length (tt_tool_uses tt1) \<le> length (tt_tool_uses tt) + 1" using read_event_uses [of ev tt] re by simp
  from Cons.prems item read_stream_step [OF re, of cf items w]
  have "tt' = tt1 \<or> read_stream cf items tt1 (case out of Some se \<Rightarrow> emit cf se w | None \<Rightarrow> w) = (Turn_Over tt', w')"
    by (simp add: Let_def split: if_splits)
  with le Cons.IH [of tt1] show ?case by fastforce
qed

text \<open>The ids under which a stream asks for tools.\<close>

definition stream_ids :: "('e + 'v completion_event) list \<Rightarrow> string list" where
  "stream_ids items = concat (map (\<lambda>item. case item of Inr (CE_Tool_Use i name input) \<Rightarrow> [i] | _ \<Rightarrow> []) items)"

lemma stream_ids_simps [simp]:
  "stream_ids [] = []"
  "stream_ids (item # items) = (case item of Inr (CE_Tool_Use i name input) \<Rightarrow> [i] | _ \<Rightarrow> []) @ stream_ids items"
  by (simp_all add: stream_ids_def)

lemma read_event_ids:
  "map ti_id (tt_tool_uses (fst (read_event ev tt))) = map ti_id (tt_tool_uses tt) @ stream_ids [Inr ev]"
  by (simp add: read_event_def split: completion_event.split)

lemma read_stream_ids:
  "read_stream cf items tt w = (Turn_Over tt', w') \<Longrightarrow>
     \<exists>rest. map ti_id (tt_tool_uses tt) @ stream_ids items = map ti_id (tt_tool_uses tt') @ rest"
proof (induction items arbitrary: tt w)
  case Nil
  then show ?case by simp
next
  case (Cons item items)
  then obtain ev where item: "item = Inr ev" by (cases item) auto
  obtain tt1 out where re: "read_event ev tt = (tt1, out)" by force
  have ids: "map ti_id (tt_tool_uses tt1) = map ti_id (tt_tool_uses tt) @ stream_ids [item]"
    using read_event_ids [of ev tt] re item by simp
  from Cons.prems item read_stream_step [OF re, of cf items w]
  consider "tt' = tt1" | "read_stream cf items tt1 (case out of Some se \<Rightarrow> emit cf se w | None \<Rightarrow> w) = (Turn_Over tt', w')"
    by (auto simp: Let_def split: if_splits)
  then show ?case
  proof cases
    case 1
    then show ?thesis using ids by simp
  next
    case 2
    from Cons.IH [OF this] ids show ?thesis by simp
  qed
qed

lemma after_stream_panics:
  assumes "after_stream cf sched tt st = Some (Session_Over Session_Panicked w')"
  shows "\<not> distinct (map ti_id (tt_tool_uses tt))"
  using assms round_panics_cases [of cf sched "tt_tool_uses tt"]
  by (fastforce simp: after_stream_def Let_def split: if_splits)

lemma session_turn_panics:
  assumes "session_turn cf sched st = Some (Session_Over Session_Panicked w')"
  shows "\<exists>rq w items w1. cf_complete cf rq w = (Inr items, w1) \<and> \<not> distinct (stream_ids items)"
proof -
  obtain ans w where c: "cf_complete cf (turn_request cf (st_messages st) (st_world st)) (st_world st) = (ans, w)" by force
  with assms obtain items where i: "ans = Inr items" by (auto simp: session_turn_def split: if_splits sum.splits)
  obtain fin w2 where r: "read_stream cf items \<lparr> tt_text = [], tt_tool_uses = [], tt_reasoning = [] \<rparr> w = (fin, w2)" by force
  from assms c i r obtain tt where tt: "fin = Turn_Over tt"
    "after_stream cf (sched (st_turns st)) tt (st\<lparr> st_world := w2 \<rparr>) = Some (Session_Over Session_Panicked w')"
    by (auto simp: session_turn_def split: if_splits stream_end.splits)
  from read_stream_ids [OF r [unfolded tt(1)]] obtain rest where "stream_ids items = map ti_id (tt_tool_uses tt) @ rest" by auto
  with after_stream_panics [OF tt(2)] have "\<not> distinct (stream_ids items)" by simp
  with c i show ?thesis by blast
qed

text \<open>Fair schedules, \<open>N\<close> calls wide and long enough for tools that are pending at most \<open>P\<close> times.\<close>

definition fair_schedule :: "nat \<Rightarrow> nat \<Rightarrow> 'w choice list \<Rightarrow> bool" where
  "fair_schedule N P cs \<longleftrightarrow> (\<exists>rounds. cs = concat rounds \<and> list_all (fair_round N) rounds \<and> N * (P + 6) \<le> length rounds)"

lemma batch_le_flat: "b \<in> set bs \<Longrightarrow> length (batch_calls b) \<le> length (flat_batches bs)"
  by (induction bs) auto

lemma run_batches_returns:
  assumes "\<And>name t. cf_lookup cf name = Some t \<Longrightarrow> tl_polls t \<le> P" "0 < cap" "\<And>k. fair_schedule N P (sched k)" "0 < N"
  shows "\<forall>b\<in>set bs. length (batch_calls b) \<le> N \<Longrightarrow> \<exists>res. run_batches cf cap sched pos k bs ordered w = Some res"
proof (induction bs arbitrary: k ordered w)
  case Nil
  then show ?case by simp
next
  case (Cons b bs)
  obtain rounds where rounds: "sched k = concat rounds" "list_all (fair_round N) rounds" "N * (P + 6) \<le> length rounds"
    using assms(3) [of k] unfolding fair_schedule_def by blast
  have six: "N * (P + 3 + 3) \<le> length rounds" using rounds(3) by (simp add: add.assoc)
  have "call_rank (rn_init (call_futures cf) c) \<le> P + 3" for c
    using assms(1) by (auto simp: call_futures_def call_init_def split: option.split)
  then obtain rs w' where "run_batch (call_futures cf) b cap (sched k) w = Some (rs, w')"
    using calls.run_batch_returns [of b cf "P + 3" cap N rounds w] Cons.prems assms(2,4) rounds(1,2) six by auto
  with Cons show ?case by simp
qed

lemma concurrent_cap_pos: "0 < concurrent_cap cf"
proof -
  have "unat (1 :: 64 word) \<le> unat (max x 1)" for x :: "64 word"
    by (simp only: word_le_nat_alt [symmetric] max.cobounded2)
  then have "0 < unat (max x 1)" for x :: "64 word" by (simp add: Suc_le_eq)
  then show ?thesis by (simp add: concurrent_cap_def)
qed

lemma session_turn_returns:
  assumes polls: "\<And>name t. cf_lookup cf name = Some t \<Longrightarrow> tl_polls t \<le> P"
    and width: "\<And>rq w items w'. cf_complete cf rq w = (Inr items, w') \<Longrightarrow> length items \<le> N"
    and fair: "\<And>n k. fair_schedule N P (sched n k)"
  shows "\<exists>res. session_turn cf sched st = Some res"
proof -
  have round: "\<exists>res. tool_round cf (sched n) cs messages turns w = Some res" if cs: "cs \<noteq> []" "length cs \<le> N" for n cs messages turns w
  proof -
    let ?batches = "partition_invocations (\<lambda>name. map_option tl_safe (cf_lookup cf name)) cs"
    have "flat_batches ?batches = cs" using partition_well_batched by blast
    then have "length (batch_calls b) \<le> N" if "b \<in> set ?batches" for b
      using cs(2) batch_le_flat [OF that] by simp
    moreover note concurrent_cap_pos [of cf]
    moreover have "0 < N" using cs by (cases cs) auto
    ultimately obtain res where "run_batches cf (concurrent_cap cf) (sched n) (id_to_position cs) 0 ?batches
        (replicate (length cs) None) (w\<lparr> w_message_id := (if cf_sink cf then cf_sink_turn cf w else None) \<rparr>) = Some res"
      using run_batches_returns [of cf P "concurrent_cap cf" N "sched n" ?batches] polls fair by blast
    then show ?thesis by (cases res) (auto simp: tool_round_def Let_def split: prod.split option.split)
  qed
  have after: "\<exists>res. after_stream cf (sched n) tt st = Some res" if "length (tt_tool_uses tt) \<le> N" for n tt st
    using round that by (auto simp: after_stream_def Let_def)
  have "length (tt_tool_uses tt) \<le> N"
    if "cf_complete cf rq w = (Inr items, w')"
      "read_stream cf items \<lparr> tt_text = [], tt_tool_uses = [], tt_reasoning = [] \<rparr> w' = (Turn_Over tt, w'')" for rq w items w' tt w''
    using read_stream_uses [OF that(2)] width [OF that(1)] by simp
  with after show ?thesis
    unfolding session_turn_def by (auto split: prod.split sum.split stream_end.split)
qed

text \<open>C22: A session with a turn cap returns, whatever the model asks for, when the provider's streams are at
  most \<open>N\<close> items long, every tool returns after at most \<open>P\<close> polls, and the schedule of every batch polls each
  of its slots often enough; what else happens between the polls does not matter. It returns a panic only if a stream
  asks for two tools under one id. The operator answers a question within the poll that asks it.\<close>

theorem capped_session_returns:
  assumes "cf_max_turns cf = Some cap"
    and "\<And>name t. cf_lookup cf name = Some t \<Longrightarrow> tl_polls t \<le> P"
    and "\<And>rq w items w'. cf_complete cf rq w = (Inr items, w') \<Longrightarrow> length items \<le> N"
    and "\<And>n k. fair_schedule N P (sched n k)"
  shows "\<exists>r w'. run_session cf sched initial w = Some (r, w') \<and>
     (r = Session_Panicked \<longrightarrow> (\<exists>rq w1 items w2. cf_complete cf rq w1 = (Inr items, w2) \<and> \<not> distinct (stream_ids items)))"
proof -
  let ?repeats = "\<exists>rq w1 items w2. cf_complete cf rq w1 = (Inr items, w2) \<and> \<not> distinct (stream_ids items)"
  have "\<exists>r w'. session_loop cf sched st = Some (r, w') \<and> (r = Session_Panicked \<longrightarrow> ?repeats)" for st
  proof (induction "cap - st_turns st" arbitrary: st rule: less_induct)
    case less
    obtain res where t: "session_turn cf sched st = Some res"
      using session_turn_returns [of cf P N sched st] assms(2-4) by blast
    show ?case
    proof (cases res)
      case (Session_Over r w')
      have "r = Session_Panicked \<longrightarrow> ?repeats" using session_turn_panics t Session_Over by blast
      moreover have "session_loop cf sched st = Some (r, w')"
        using t Session_Over by (subst session_loop.simps) simp
      ultimately show ?thesis by blast
    next
      case (Next_Turn st')
      from t Next_Turn have "st_turns st' = st_turns st + 1 \<and> \<not> turn_cap_reached cf (st_turns st + 1)"
        by (cases rule: session_turn_cases) auto
      then have "cap - st_turns st' < cap - st_turns st" by (auto simp: turn_cap_reached_def assms(1))
      from less [OF this] t Next_Turn show ?thesis by (subst session_loop.simps) simp
    qed
  qed
  then show ?thesis by (simp add: run_session_def)
qed

section \<open>The sample session, run\<close>

definition sample_start :: "(unit, string, unit) session_state" where
  "sample_start = \<lparr> st_messages = [User_Message [CB_Text ''hi'']], st_turns = 0, st_world = sample_world \<rparr>"

definition sample_messages :: "string message list" where
  "sample_messages =
     [User_Message [CB_Text ''hi''],
      Assistant_Message [CB_Tool_Use ''1'' ''Read'' ''x'', CB_Tool_Use ''2'' ''Read'' ''x''],
      Tool_Result_Message ''1'' [CB_Text ''x''] False, Tool_Result_Message ''2'' [CB_Text ''x''] False]"

lemma sample_complete:
  "cf_complete (sample_session ids cap) rq w =
     (Inr (if length (rq_messages rq) \<le> 1 then map (\<lambda>i. Inr (CE_Tool_Use i ''Read'' ''x'')) ids
           else [Inr (CE_Assistant_Text ''done'')]), w)"
  "\<not> cf_sink (sample_session ids cap)" "cf_max_turns (sample_session ids cap) = cap"
  by (simp_all add: sample_session_def)

lemma sample_requests: "rq_messages (turn_request (sample_session ids cap) messages w) = messages"
  by (simp add: turn_request_def split: prod.split)

lemma sample_round:
  "map_option (\<lambda>r. case r of Next_Turn st \<Rightarrow> Some (st_messages st, st_turns st, w_cancelled (st_world st)) | _ \<Rightarrow> None)
     (after_stream (sample_session [''1'', ''2''] (Some 2)) (sample_schedule 0)
        \<lparr> tt_text = [], tt_tool_uses = sample_calls [''1'', ''2''], tt_reasoning = [] \<rparr> sample_start) =
   Some (Some (sample_messages, 1, False))"
  by code_simp

lemma sample_first_turn:
  "\<exists>w. session_turn (sample_session [''1'', ''2''] (Some 2)) sample_schedule sample_start =
     Some (Next_Turn \<lparr> st_messages = sample_messages, st_turns = 1, st_world = w \<rparr>) \<and> \<not> w_cancelled w"
proof -
  let ?after = "after_stream (sample_session [''1'', ''2''] (Some 2)) (sample_schedule 0)
        \<lparr> tt_text = [], tt_tool_uses = sample_calls [''1'', ''2''], tt_reasoning = [] \<rparr> sample_start"
  have turn: "session_turn (sample_session [''1'', ''2''] (Some 2)) sample_schedule sample_start = ?after"
    by (simp add: session_turn_def sample_complete sample_requests sample_start_def sample_world_def read_event_def
        emit_def sample_calls_def)
  from sample_round obtain res where res: "?after = Some res"
    "(case res of Next_Turn st \<Rightarrow> Some (st_messages st, st_turns st, w_cancelled (st_world st)) | _ \<Rightarrow> None) =
       Some (sample_messages, 1, False)"
    by blast
  from res(2) obtain st where st: "res = Next_Turn st" "st_messages st = sample_messages" "st_turns st = 1"
    "\<not> w_cancelled (st_world st)"
    by (cases res) simp_all
  then have "st = \<lparr> st_messages = sample_messages, st_turns = 1, st_world = st_world st \<rparr>" by simp
  with turn res(1) st(1,4) show ?thesis by metis
qed

lemma sample_run:
  "\<exists>w'. run_session (sample_session [''1'', ''2''] (Some 2)) sample_schedule [User_Message [CB_Text ''hi'']] sample_world =
     Some (Session_Ok \<lparr> so_messages = sample_messages, so_final_text = ''done'', so_turns = 2, so_cancelled = True \<rparr>, w')"
proof -
  obtain w where 1: "session_turn (sample_session [''1'', ''2''] (Some 2)) sample_schedule sample_start =
     Some (Next_Turn \<lparr> st_messages = sample_messages, st_turns = 1, st_world = w \<rparr>)" "\<not> w_cancelled w"
    using sample_first_turn by blast
  have "session_turn (sample_session [''1'', ''2''] (Some 2)) sample_schedule
      \<lparr> st_messages = sample_messages, st_turns = 1, st_world = w \<rparr> =
    Some (Session_Over (Session_Ok \<lparr> so_messages = sample_messages, so_final_text = ''done'', so_turns = 2,
      so_cancelled = True \<rparr>) (on_session_end w))"
    using 1(2) by (simp add: session_turn_def sample_complete sample_requests sample_messages_def read_event_def
        emit_def after_stream_def turn_cap_reached_def Let_def)
  with 1(1) have "session_loop (sample_session [''1'', ''2''] (Some 2)) sample_schedule sample_start =
    Some (Session_Ok \<lparr> so_messages = sample_messages, so_final_text = ''done'', so_turns = 2, so_cancelled = True \<rparr>, on_session_end w)"
    by (subst session_loop.simps, simp) (subst session_loop.simps, simp)
  then show ?thesis by (simp add: run_session_def sample_start_def)
qed

theorem transcript_paired_witness:
  "\<exists>rounds final. sample_messages = [User_Message [CB_Text ''hi'']] @ rounds @ final \<and> answered rounds \<and> final = []"
  using sample_run transcript_paired [of "sample_session [''1'', ''2''] (Some 2)" sample_schedule "[User_Message [CB_Text ''hi'']]" sample_world]
  by fastforce

theorem turn_cap_reports_cancelled_witness:
  "\<exists>out w'. run_session (sample_session [''1'', ''2''] (Some 2)) sample_schedule [User_Message [CB_Text ''hi'']] sample_world =
     Some (Session_Ok out, w') \<and> so_final_text out = ''done'' \<and> so_turns out = 2 \<and> so_turns out \<le> max 1 2 \<and> so_cancelled out"
proof -
  obtain w' where "run_session (sample_session [''1'', ''2''] (Some 2)) sample_schedule [User_Message [CB_Text ''hi'']] sample_world =
     Some (Session_Ok \<lparr> so_messages = sample_messages, so_final_text = ''done'', so_turns = 2, so_cancelled = True \<rparr>, w')"
    using sample_run by blast
  with turn_cap_reports_cancelled [OF this sample_complete(3)] show ?thesis by auto
qed

theorem capped_session_returns_witness:
  "\<exists>r w'. run_session (sample_session [''1'', ''2''] (Some 7)) sample_schedule [] sample_world = Some (r, w') \<and>
     r \<noteq> Session_Panicked"
proof -
  let ?cf = "sample_session [''1'', ''2''] (Some 7)"
  have "\<exists>r w'. run_session ?cf sample_schedule [] sample_world = Some (r, w') \<and>
     (r = Session_Panicked \<longrightarrow> (\<exists>rq w1 items w2. cf_complete ?cf rq w1 = (Inr items, w2) \<and> \<not> distinct (stream_ids items)))"
  proof (rule capped_session_returns [where P = 1 and N = 2])
    show "cf_max_turns ?cf = Some 7" by (rule sample_complete)
    show "tl_polls t \<le> 1" if "cf_lookup ?cf name = Some t" for name t
      using that by (auto simp: sample_session_def sample_tool_def split: if_splits)
    show "length items \<le> 2" if "cf_complete ?cf rq w = (Inr items, w')" for rq w items w'
      using that by (auto simp: sample_complete split: if_splits)
    show "fair_schedule 2 1 (sample_schedule n k)" for n k
      unfolding fair_schedule_def sample_schedule_def
      by (intro exI [of _ "replicate 14 [Poll 0, Poll 1]"]) (auto simp: list_all_iff fair_round_def less_Suc_eq numeral_2_eq_2)
  qed
  moreover have "distinct (stream_ids items)" if "cf_complete ?cf rq w1 = (Inr items, w2)" for rq w1 items w2
    using that by (auto simp: sample_complete split: if_splits)
  ultimately show ?thesis by blast
qed

theorem round_panics_iff_ids_repeat_witness:
  "\<exists>res. tool_round (sample_session [] None) (sample_schedule 0) (sample_calls [''1'', ''1'']) [] 1 sample_world = Some res \<and>
     (\<exists>w'. res = Session_Over Session_Panicked w')"
proof -
  have "map_option (\<lambda>_. ()) (tool_round (sample_session [] None) (sample_schedule 0) (sample_calls [''1'', ''1'']) [] 1 sample_world) = Some ()"
    by code_simp
  then obtain res where res: "tool_round (sample_session [] None) (sample_schedule 0) (sample_calls [''1'', ''1'']) [] 1 sample_world = Some res"
    by blast
  from round_panics_iff_ids_repeat [OF res] res show ?thesis by (simp add: sample_calls_def)
qed

theorem executor_bounded_in_order_witness:
  "\<exists>rs w'. run_concurrent (call_futures (sample_session [] None)) (sample_calls [''1'', ''2'']) 1 (sample_schedule 0 0) sample_world = Some (rs, w') \<and>
     length rs = 2 \<and> ir_id (rs ! 1) = ''2''"
proof -
  have "map_option (\<lambda>_. ()) (run_concurrent (call_futures (sample_session [] None)) (sample_calls [''1'', ''2'']) 1
      (sample_schedule 0 0) sample_world) = Some ()"
    by code_simp
  then obtain rs w' where "run_concurrent (call_futures (sample_session [] None)) (sample_calls [''1'', ''2'']) 1
      (sample_schedule 0 0) sample_world = Some (rs, w')" by auto
  with executor_bounded_in_order [of "sample_session [] None" "sample_calls [''1'', ''2'']" "sample_schedule 0 0" 1 sample_world rs w']
  show ?thesis by (auto simp: sample_calls_def)
qed

end
