(* ===== verification/Edit_Distance.thy ===== *)
theory Edit_Distance
  imports Main
begin

text \<open>
  The two Levenshtein routines of the program, with one row (\<open>ao-engine-tools-io/src/read/mod.rs\<close>) and
  with two (\<open>ao-engine-tools-core/src/registry.rs\<close>), the recursion they tabulate, and what it computes:
  the least number of single-character edits.
\<close>

section \<open>The routines\<close>

text \<open>One step of the inner loop: \<open>prev\<close> is the diagonal, \<open>row\<close> holds the new row up to \<open>j - 1\<close> and the
  old one from \<open>j\<close> on.\<close>

definition one_row_cell :: "'a \<Rightarrow> 'a list \<Rightarrow> nat \<Rightarrow> nat \<times> nat list \<Rightarrow> nat \<times> nat list" where
  "one_row_cell x b j s =
     (case s of (prev, row) \<Rightarrow>
        let old = row ! j;
            v = (if x = b ! (j - 1) then prev else 1 + min (min prev (row ! j)) (row ! (j - 1))) in
        (old, row[j := v]))"

definition one_row_line :: "'a list \<Rightarrow> 'a list \<Rightarrow> nat \<Rightarrow> nat list \<Rightarrow> nat list" where
  "one_row_line a b i row =
     snd (fold (one_row_cell (a ! (i - 1)) b) [1..<Suc (length b)] (row ! 0, row[0 := i]))"

definition levenshtein_one_row :: "'a list \<Rightarrow> 'a list \<Rightarrow> nat" where
  "levenshtein_one_row a b = fold (one_row_line a b) [1..<Suc (length a)] [0..<Suc (length b)] ! length b"

definition two_row_cell :: "'a \<Rightarrow> 'a list \<Rightarrow> nat list \<Rightarrow> nat \<Rightarrow> nat list \<Rightarrow> nat list" where
  "two_row_cell x b prev j cur =
     (let cost = (if x = b ! (j - 1) then 0 else 1) in
      cur[j := min (min (cur ! (j - 1) + 1) (prev ! j + 1)) (prev ! (j - 1) + cost)])"

text \<open>The two rows after line \<open>i\<close>, swapped.\<close>

definition two_row_line :: "'a list \<Rightarrow> 'a list \<Rightarrow> nat \<Rightarrow> nat list \<times> nat list \<Rightarrow> nat list \<times> nat list" where
  "two_row_line a b i s =
     (case s of (prev, cur) \<Rightarrow>
        (fold (two_row_cell (a ! (i - 1)) b prev) [1..<Suc (length b)] (cur[0 := i]), prev))"

definition levenshtein :: "'a list \<Rightarrow> 'a list \<Rightarrow> nat" where
  "levenshtein a b =
     (if a = b then 0
      else if a = [] then length b
      else if b = [] then length a
      else fst (fold (two_row_line a b) [1..<Suc (length a)] ([0..<Suc (length b)], replicate (length b + 1) 0)) ! length b)"

section \<open>The recursion\<close>

fun dist :: "'a list \<Rightarrow> 'a list \<Rightarrow> nat" where
  "dist [] ys = length ys"
| "dist xs [] = length xs"
| "dist (x # xs) (y # ys) =
     min (min (dist (x # xs) ys + 1) (dist xs (y # ys) + 1)) (dist xs ys + (if x = y then 0 else 1))"

lemma dist_Nil2 [simp]: "dist xs [] = length xs"
  by (cases xs) simp_all

lemma dist_refl [simp]: "dist xs xs = 0"
  by (induction xs) simp_all

lemma dist_step_le:
  "dist (x # xs) (y # ys) \<le> dist (x # xs) ys + 1"
  "dist (x # xs) (y # ys) \<le> dist xs (y # ys) + 1"
  "dist (x # xs) (y # ys) \<le> dist xs ys + 1"
  by (auto simp: min_def)

lemma dist_cases:
  "dist (x # xs) (y # ys) = dist (x # xs) ys + 1 \<or> dist (x # xs) (y # ys) = dist xs (y # ys) + 1 \<or>
   dist (x # xs) (y # ys) = dist xs ys \<and> x = y \<or> dist (x # xs) (y # ys) = dist xs ys + 1"
  by (auto simp: min_def)

lemma dist_drop_left: "dist xs ys \<le> dist (x # xs) ys + 1"
proof (induction ys arbitrary: x xs)
  case Nil
  then show ?case by simp
next
  case (Cons y ys)
  note IH = Cons.IH
  have "dist xs (y # ys) \<le> dist xs ys + 1"
  proof (induction xs)
    case Nil
    show ?case by simp
  next
    case (Cons z zs)
    show ?case by (rule dist_step_le)
  qed
  with IH [of xs x] dist_cases [of x xs y ys] show ?case by linarith
qed

lemma dist_add_left: "dist (x # xs) ys \<le> dist xs ys + 1"
proof (cases ys)
  case Nil
  then show ?thesis by simp
next
  case (Cons y zs)
  then show ?thesis by (simp only: dist_step_le)
qed

lemmas dist_cons_left = conjI [OF dist_add_left dist_drop_left]

lemma dist_sym: "dist xs ys = dist ys xs"
  by (induction xs ys rule: dist.induct) auto

lemma dist_cons_right: "dist xs (y # ys) \<le> dist xs ys + 1 \<and> dist xs ys \<le> dist xs (y # ys) + 1"
  unfolding dist_sym [of xs "y # ys"] dist_sym [of xs ys] by (rule dist_cons_left)

text \<open>When the heads agree the diagonal is best.\<close>

lemma dist_same: "dist (x # xs) (x # ys) = dist xs ys"
proof -
  have "dist xs ys \<le> dist (x # xs) ys + 1" "dist xs ys \<le> dist xs (x # ys) + 1"
    using dist_drop_left dist_cons_right [of xs x ys] by auto
  then show ?thesis by (simp add: min_def)
qed

section \<open>Edits\<close>

text \<open>One edit: a character inserted, deleted or replaced.\<close>

inductive edit :: "'a list \<Rightarrow> 'a list \<Rightarrow> bool" where
  ins: "edit (xs @ ys) (xs @ c # ys)"
| del: "edit (xs @ c # ys) (xs @ ys)"
| subst: "edit (xs @ c # ys) (xs @ d # ys)"

lemma edit_cons: "edit xs ys \<Longrightarrow> edit (z # xs) (z # ys)"
  by (induction rule: edit.induct) (metis append_Cons edit.intros)+

lemma edits_cons: "(edit ^^ n) xs ys \<Longrightarrow> (edit ^^ n) (z # xs) (z # ys)"
  by (induction n arbitrary: ys) (auto intro: edit_cons)

lemma edits_sym: "edit xs ys \<Longrightarrow> edit ys xs"
  by (induction rule: edit.induct) (rule edit.intros)+

lemma dist_append: "dist zs (xs @ ys) \<le> dist zs (xs @ ys') + 1"
  if "\<And>zs. dist zs ys \<le> dist zs ys' + 1" for zs xs
proof (induction xs arbitrary: zs)
  case Nil
  then show ?case using that by simp
next
  case (Cons x xs)
  show ?case
  proof (induction zs)
    case Nil
    show ?case using that [of "[]"] by simp
  next
    case (Cons z zs)
    with \<open>\<And>zs. dist zs (xs @ ys) \<le> dist zs (xs @ ys') + 1\<close> [of "z # zs"]
      \<open>\<And>zs. dist zs (xs @ ys) \<le> dist zs (xs @ ys') + 1\<close> [of zs]
    show ?case by (auto simp: min_def)
  qed
qed

lemma dist_subst: "dist zs (c # ys) \<le> dist zs (d # ys) + 1"
proof (induction zs)
  case Nil
  then show ?case by simp
next
  case (Cons z zs)
  have "dist zs ys \<le> dist zs (d # ys) + 1" using dist_cons_right [of zs d ys] by simp
  with Cons show ?case by (auto simp: min_def)
qed

lemma dist_edit: "edit xs ys \<Longrightarrow> dist zs ys \<le> dist zs xs + 1"
proof (induction rule: edit.induct)
  case (ins xs ys c)
  show ?case by (rule dist_append) (rule conjunct1 [OF dist_cons_right])
next
  case (del xs c ys)
  show ?case by (rule dist_append) (rule conjunct2 [OF dist_cons_right])
next
  case (subst xs c ys d)
  show ?case by (rule dist_append) (rule dist_subst)
qed

lemma dist_edits: "(edit ^^ n) xs ys \<Longrightarrow> dist xs ys \<le> n"
proof (induction n arbitrary: ys)
  case 0
  then show ?case by simp
next
  case (Suc n)
  then obtain zs where "(edit ^^ n) xs zs" "edit zs ys" by auto
  with Suc.IH [of zs] dist_edit [of zs ys xs] show ?case by simp
qed

lemma edits_Nil: "(edit ^^ length ys) [] ys"
proof (induction ys)
  case Nil
  then show ?case by simp
next
  case (Cons y ys)
  from edit.ins [of "[]" ys y] Cons show ?case by (auto intro: relpowp_Suc_I)
qed

lemma edits_rev: "(edit ^^ n) xs ys \<Longrightarrow> (edit ^^ n) ys xs"
proof (induction n arbitrary: ys)
  case 0
  then show ?case by simp
next
  case (Suc n)
  then obtain zs where "(edit ^^ n) xs zs" "edit zs ys" by auto
  with Suc.IH edits_sym show ?case by (metis relpowp_Suc_I2)
qed

lemma dist_reached: "(edit ^^ dist xs ys) xs ys"
proof (induction xs ys rule: dist.induct)
  case (1 ys)
  then show ?case by (simp add: edits_Nil)
next
  case (2 x xs)
  then show ?case using edits_rev [OF edits_Nil, of "x # xs"] by simp
next
  case (3 x xs y ys)
  have a: "(edit ^^ Suc (dist (x # xs) ys)) (x # xs) (y # ys)"
    using 3(1) edit.ins [of "[]" ys y] by (auto intro: relpowp_Suc_I)
  have b: "(edit ^^ Suc (dist xs (y # ys))) (x # xs) (y # ys)"
    using edit.del [of "[]" x xs, simplified] 3(2) by (rule relpowp_Suc_I2)
  have c: "(edit ^^ (dist xs ys + (if x = y then 0 else 1))) (x # xs) (y # ys)"
    using edits_cons [OF 3(3), of x] edit.subst [of "[]" x ys y] by (auto intro: relpowp_Suc_I)
  have "dist (x # xs) (y # ys) \<in> {Suc (dist (x # xs) ys), Suc (dist xs (y # ys)), dist xs ys + (if x = y then 0 else 1)}"
    by (auto simp: min_def)
  with a b c show ?case by (metis insertE singletonD)
qed

lemma dist_least: "dist xs ys = (LEAST n. (edit ^^ n) xs ys)"
  by (rule sym, rule Least_equality) (auto intro: dist_reached dist_edits)

section \<open>The tables\<close>

text \<open>The entry for the first \<open>i\<close> and \<open>j\<close> characters; the reversal makes the last characters the heads.\<close>

definition cell :: "'a list \<Rightarrow> 'a list \<Rightarrow> nat \<Rightarrow> nat \<Rightarrow> nat" where
  "cell a b i j = dist (rev (take i a)) (rev (take j b))"

lemma cell_0: "j \<le> length b \<Longrightarrow> cell a b 0 j = j" "i \<le> length a \<Longrightarrow> cell a b i 0 = i"
  by (simp_all add: cell_def)

lemma cell_Suc:
  assumes "i < length a" "j < length b"
  shows "cell a b (Suc i) (Suc j) =
    min (min (cell a b (Suc i) j + 1) (cell a b i (Suc j) + 1)) (cell a b i j + (if a ! i = b ! j then 0 else 1))"
  using assms by (simp add: cell_def take_Suc_conv_app_nth)

lemma cell_same:
  assumes "i < length a" "j < length b" "a ! i = b ! j"
  shows "cell a b (Suc i) (Suc j) = cell a b i j"
  using assms by (simp add: cell_def take_Suc_conv_app_nth dist_same del: dist.simps)

lemma edit_rev: "edit xs ys \<Longrightarrow> edit (rev xs) (rev ys)"
proof (induction rule: edit.induct)
  case (ins xs ys c)
  then show ?case using edit.ins [of "rev ys" "rev xs" c] by simp
next
  case (del xs c ys)
  then show ?case using edit.del [of "rev ys" c "rev xs"] by simp
next
  case (subst xs c ys d)
  then show ?case using edit.subst [of "rev ys" c "rev xs" d] by simp
qed

lemma edits_rev_map: "(edit ^^ n) xs ys \<Longrightarrow> (edit ^^ n) (rev xs) (rev ys)"
  by (induction n arbitrary: ys) (auto intro: edit_rev)

lemma dist_rev: "dist (rev xs) (rev ys) = dist xs ys"
  using dist_edits [OF edits_rev_map [OF dist_reached, of xs ys]]
    dist_edits [OF edits_rev_map [OF dist_reached, of "rev xs" "rev ys"]] by simp

lemma cell_full: "cell a b (length a) (length b) = dist a b"
  by (simp add: cell_def dist_rev)

lemma fold_line: "fold f [1..<Suc (Suc n)] s = f (Suc n) (fold f [1..<Suc n] s)"
  by simp

text \<open>A row that holds line \<open>i\<close> up to column \<open>j\<close> and the line before it from there on.\<close>

definition row_is :: "'a list \<Rightarrow> 'a list \<Rightarrow> nat \<Rightarrow> nat \<Rightarrow> nat list \<Rightarrow> bool" where
  "row_is a b i j row \<longleftrightarrow> length row = Suc (length b) \<and>
     (\<forall>k\<le>length b. row ! k = (if k \<le> j then cell a b i k else cell a b (i - 1) k))"

lemma one_row_cells:
  assumes "i < length a" "row_is a b i (length b) row" "n \<le> length b"
  shows "fst (fold (one_row_cell (a ! i) b) [1..<Suc n] (row ! 0, row[0 := Suc i])) = cell a b i n \<and>
     row_is a b (Suc i) n (snd (fold (one_row_cell (a ! i) b) [1..<Suc n] (row ! 0, row[0 := Suc i])))"
  using assms(3)
proof (induction n)
  case 0
  with assms show ?case by (auto simp: row_is_def cell_0)
next
  case (Suc n)
  obtain prev r where r: "fold (one_row_cell (a ! i) b) [1..<Suc n] (row ! 0, row[0 := Suc i]) = (prev, r)" by force
  with Suc have prev: "prev = cell a b i n" and row: "row_is a b (Suc i) n r" by auto
  have n: "n < length b" using Suc by simp
  have old: "r ! Suc n = cell a b i (Suc n)" and left: "r ! n = cell a b (Suc i) n"
    using row n by (auto simp: row_is_def)
  have new: "(if a ! i = b ! n then prev else 1 + min (min prev (r ! Suc n)) (r ! n)) = cell a b (Suc i) (Suc n)"
  proof (cases "a ! i = b ! n")
    case True
    then show ?thesis by (simp add: prev cell_same [OF assms(1) n])
  next
    case False
    then show ?thesis by (simp add: prev old left cell_Suc [OF assms(1) n] min_def)
  qed
  have "fold (one_row_cell (a ! i) b) [1..<Suc (Suc n)] (row ! 0, row[0 := Suc i]) =
    (cell a b i (Suc n), r[Suc n := cell a b (Suc i) (Suc n)])"
    unfolding fold_line r by (simp add: one_row_cell_def old flip: new [unfolded old])
  with row n show ?case by (auto simp: row_is_def nth_list_update le_Suc_eq)
qed

lemma one_row_lines:
  "n \<le> length a \<Longrightarrow> row_is a b n (length b) (fold (one_row_line a b) [1..<Suc n] [0..<Suc (length b)])"
proof (induction n)
  case 0
  then show ?case by (auto simp: row_is_def cell_0 nth_append simp del: upt_Suc)
next
  case (Suc n)
  define row where "row = fold (one_row_line a b) [1..<Suc n] [0..<Suc (length b)]"
  with Suc have "row_is a b n (length b) row" by simp
  with one_row_cells [of n a b row "length b"] Suc.prems
  have "row_is a b (Suc n) (length b) (one_row_line a b (Suc n) row)"
    by (simp add: one_row_line_def del: upt_Suc)
  then show ?case unfolding fold_line row_def .
qed

lemma one_row_dist: "levenshtein_one_row a b = dist a b"
  using one_row_lines [of "length a" a b] by (simp add: levenshtein_one_row_def row_is_def cell_full)

lemma two_row_cells:
  assumes "i < length a" "row_is a b i (length b) prev" "length cur = Suc (length b)" "n \<le> length b"
  shows "length (fold (two_row_cell (a ! i) b prev) [1..<Suc n] (cur[0 := Suc i])) = Suc (length b) \<and>
     (\<forall>k\<le>n. fold (two_row_cell (a ! i) b prev) [1..<Suc n] (cur[0 := Suc i]) ! k = cell a b (Suc i) k)"
  using assms(4)
proof (induction n)
  case 0
  with assms show ?case by (simp add: cell_0)
next
  case (Suc n)
  define r where "r = fold (two_row_cell (a ! i) b prev) [1..<Suc n] (cur[0 := Suc i])"
  with Suc have r: "length r = Suc (length b)" "\<forall>k\<le>n. r ! k = cell a b (Suc i) k" by auto
  have n: "n < length b" using Suc by simp
  have "prev ! Suc n = cell a b i (Suc n)" "prev ! n = cell a b i n"
    using assms(2) n by (auto simp: row_is_def)
  then have "two_row_cell (a ! i) b prev (Suc n) r = r[Suc n := cell a b (Suc i) (Suc n)]"
    using cell_Suc [OF assms(1) n] r by (simp add: two_row_cell_def)
  then have "fold (two_row_cell (a ! i) b prev) [1..<Suc (Suc n)] (cur[0 := Suc i]) = r[Suc n := cell a b (Suc i) (Suc n)]"
    unfolding fold_line r_def .
  with r n show ?case by (auto simp: nth_list_update le_Suc_eq)
qed

lemma two_row_lines:
  "n \<le> length a \<Longrightarrow>
     (case fold (two_row_line a b) [1..<Suc n] ([0..<Suc (length b)], replicate (length b + 1) 0) of
        (prev, cur) \<Rightarrow> row_is a b n (length b) prev \<and> length cur = Suc (length b))"
proof (induction n)
  case 0
  then show ?case by (auto simp: row_is_def cell_0 nth_append simp del: upt_Suc)
next
  case (Suc n)
  obtain prev cur where f: "fold (two_row_line a b) [1..<Suc n] ([0..<Suc (length b)], replicate (length b + 1) 0) = (prev, cur)"
    by force
  with Suc have "row_is a b n (length b) prev" "length cur = Suc (length b)" by auto
  with two_row_cells [of n a b prev cur "length b"] Suc.prems show ?case
    unfolding fold_line f by (auto simp: two_row_line_def row_is_def simp del: upt_Suc)
qed

lemma two_row_dist: "levenshtein a b = dist a b"
proof (cases "a = b \<or> a = [] \<or> b = []")
  case True
  then show ?thesis by (auto simp: levenshtein_def)
next
  case False
  with two_row_lines [of "length a" a b] show ?thesis
    by (auto simp: levenshtein_def row_is_def cell_full split: prod.splits)
qed

text \<open>C28: Both Levenshtein routines return the least number of single-character insertions, deletions and
  replacements that turn one text into the other; that many do.\<close>

theorem levenshtein_least_edits:
  "levenshtein a b = (LEAST n. (edit ^^ n) a b) \<and> levenshtein_one_row a b = (LEAST n. (edit ^^ n) a b) \<and>
     (edit ^^ levenshtein a b) a b"
  by (simp add: two_row_dist one_row_dist dist_least [symmetric] dist_reached)

end
