(* ===== verification/Tool_Registry.thy ===== *)
theory Tool_Registry
  imports Query_Loop Channel_Bridge Edit_Distance "HOL-Library.Char_ord" "HOL-Library.List_Lexorder"
    "HOL-Library.Product_Lexorder"
begin

text \<open>
  The registry of tools (\<open>ao-engine-tools-core/src/registry.rs\<close>, \<open>policy.rs\<close>), the admission gate of an
  agent (\<open>context/mod.rs\<close>, \<open>agent_runner/channel_gating.rs\<close>), the scope of an agent watch
  (\<open>agent_watch.rs\<close>) and the \<open>ToolSearch\<close> tool (\<open>ao-engine-tools-engine/src/tool_search/mod.rs\<close>).

  A hash map is the list of its pairs in some order of iteration; hash sets are lists or sets of names.
  \<open>str::to_lowercase\<close> is the argument \<open>lower\<close>, and the names of the properties of a JSON schema the
  argument \<open>props\<close>.
\<close>

section \<open>Load policies and tools\<close>

datatype load_policy = Always_Load | Deferred_Load

datatype load_policy_override = Force_Always_Load | Force_Deferred

record ('t, 'v, 'x) reg_tool = "('t, 'v, 'x) tool" +
  rt_name :: string
  rt_load_policy :: load_policy
  rt_open_world :: bool

type_synonym ('t, 'v, 'x) tool_map = "(string \<times> ('t, 'v, 'x) reg_tool) list"

datatype ('t, 'v, 'x) tool_ref = Ref_Io "('t, 'v, 'x) reg_tool" | Ref_Engine "('t, 'v, 'x) reg_tool"

fun ref_tool :: "('t, 'v, 'x) tool_ref \<Rightarrow> ('t, 'v, 'x) reg_tool" where
  "ref_tool (Ref_Io t) = t"
| "ref_tool (Ref_Engine t) = t"

record deferred_entry =
  de_name :: string
  de_short_description :: string
  de_search_text :: string

record ('t, 'v, 'x) registry =
  rg_io :: "('t, 'v, 'x) tool_map"
  rg_engine :: "('t, 'v, 'x) tool_map"
  rg_runtime_io :: "('t, 'v, 'x) tool_map"
  rg_deferred_index :: "deferred_entry list"

section \<open>Registering and removing\<close>

definition registry_new :: "('t, 'v, 'x) registry" where
  "registry_new = \<lparr> rg_io = [], rg_engine = [], rg_runtime_io = [], rg_deferred_index = [] \<rparr>"

definition register_io :: "('t, 'v, 'x) reg_tool \<Rightarrow> ('t, 'v, 'x) registry \<Rightarrow> ('t, 'v, 'x) registry" where
  "register_io t r = r\<lparr> rg_io := AList.update (rt_name t) t (rg_io r) \<rparr>"

definition register_engine :: "('t, 'v, 'x) reg_tool \<Rightarrow> ('t, 'v, 'x) registry \<Rightarrow> ('t, 'v, 'x) registry" where
  "register_engine t r = r\<lparr> rg_engine := AList.update (rt_name t) t (rg_engine r) \<rparr>"

definition register_io_dynamic ::
  "('t, 'v, 'x) reg_tool \<Rightarrow> ('t, 'v, 'x) registry \<Rightarrow> ('t, 'v, 'x) registry" where
  "register_io_dynamic t r = r\<lparr> rg_runtime_io := AList.update (rt_name t) t (rg_runtime_io r) \<rparr>"

abbreviation starts_with :: "string \<Rightarrow> string \<Rightarrow> bool" where
  "starts_with p s \<equiv> strip_prefix p s \<noteq> None"

definition remove_by_prefix ::
  "string \<Rightarrow> ('t, 'v, 'x) registry \<Rightarrow> string list \<times> ('t, 'v, 'x) registry" where
  "remove_by_prefix pre r =
     (let to_remove = filter (starts_with pre) (map fst (rg_runtime_io r)) in
      (to_remove, r\<lparr> rg_runtime_io := fold AList.delete to_remove (rg_runtime_io r) \<rparr>))"

section \<open>Looking up and listing\<close>

definition reg_lookup :: "('t, 'v, 'x) registry \<Rightarrow> string \<Rightarrow> ('t, 'v, 'x) tool_ref option" where
  "reg_lookup r name =
     (case map_of (rg_io r) name of
        Some t \<Rightarrow> Some (Ref_Io t)
      | None \<Rightarrow>
          (case map_of (rg_runtime_io r) name of
             Some t \<Rightarrow> Some (Ref_Io t)
           | None \<Rightarrow> map_option Ref_Engine (map_of (rg_engine r) name)))"

definition lookup_io :: "('t, 'v, 'x) registry \<Rightarrow> string \<Rightarrow> ('t, 'v, 'x) reg_tool option" where
  "lookup_io r name =
     (case map_of (rg_io r) name of Some t \<Rightarrow> Some t | None \<Rightarrow> map_of (rg_runtime_io r) name)"

definition lookup_engine :: "('t, 'v, 'x) registry \<Rightarrow> string \<Rightarrow> ('t, 'v, 'x) reg_tool option" where
  "lookup_engine r name = map_of (rg_engine r) name"

text \<open>\<open>if seen.insert(k) { names.push(k) }\<close>: what is seen is what was pushed.\<close>

definition push_new :: "string \<Rightarrow> string list \<Rightarrow> string list" where
  "push_new k names = (if k \<in> set names then names else names @ [k])"

definition reg_list :: "('t, 'v, 'x) registry \<Rightarrow> string list" where
  "reg_list r =
     sort (fold push_new (map fst (rg_runtime_io r))
            (fold push_new (map fst (rg_engine r)) (fold push_new (map fst (rg_io r)) [])))"

definition reg_len :: "('t, 'v, 'x) registry \<Rightarrow> nat" where
  "reg_len r =
     (let dynamic_unique = length (filter (\<lambda>k. k \<notin> set (map fst (rg_io r))) (map fst (rg_runtime_io r))) in
      length (rg_io r) + length (rg_engine r) + dynamic_unique)"

definition reg_is_empty :: "('t, 'v, 'x) registry \<Rightarrow> bool" where
  "reg_is_empty r \<longleftrightarrow> rg_io r = [] \<and> rg_engine r = [] \<and> rg_runtime_io r = []"

definition filter_step ::
  "('t, 'v, 'x) registry \<Rightarrow> string \<Rightarrow> ('t, 'v, 'x) registry \<Rightarrow> ('t, 'v, 'x) registry" where
  "filter_step r name out =
     (let out1 = (case map_of (rg_io r) name of
              Some t \<Rightarrow> out\<lparr> rg_io := AList.update name t (rg_io out) \<rparr> | None \<Rightarrow> out);
          out2 = (case map_of (rg_engine r) name of
              Some t \<Rightarrow> out1\<lparr> rg_engine := AList.update name t (rg_engine out1) \<rparr> | None \<Rightarrow> out1) in
      case map_of (rg_runtime_io r) name of Some t \<Rightarrow> register_io_dynamic t out2 | None \<Rightarrow> out2)"

definition filter_for :: "string list \<Rightarrow> ('t, 'v, 'x) registry \<Rightarrow> ('t, 'v, 'x) registry" where
  "filter_for allowed r = fold (filter_step r) allowed registry_new"

section \<open>The nearest name\<close>

text \<open>The characters of a UTF-8 text: a byte and the continuation bytes that follow it.\<close>

definition is_continuation :: "char \<Rightarrow> bool" where
  "is_continuation c \<longleftrightarrow> 0x80 \<le> (of_char c :: nat) \<and> (of_char c :: nat) < 0xC0"

function str_chars :: "string \<Rightarrow> string list" where
  "str_chars [] = []"
| "str_chars (c # s) = (c # takeWhile is_continuation s) # str_chars (dropWhile is_continuation s)"
  by pat_completeness auto
termination
  by (relation "measure length") (auto simp: length_dropWhile_le less_Suc_eq_le)

definition name_score :: "string \<Rightarrow> string \<Rightarrow> nat option" where
  "name_score q_lower n_lower =
     (if q_lower = n_lower then Some 0
      else if 3 \<le> length q_lower \<and> contains_str q_lower n_lower \<or>
              3 \<le> length n_lower \<and> contains_str n_lower q_lower then Some 1
      else (let d = levenshtein (str_chars q_lower) (str_chars n_lower) in if 3 < d then None else Some d))"

definition nearest_step ::
  "(string \<Rightarrow> string) \<Rightarrow> string \<Rightarrow> string \<Rightarrow> (nat \<times> string) option \<Rightarrow> (nat \<times> string) option" where
  "nearest_step lower q_lower name best =
     (case name_score q_lower (lower name) of
        None \<Rightarrow> best
      | Some score \<Rightarrow>
          if (case best of None \<Rightarrow> True | Some (s, _) \<Rightarrow> score < s) then Some (score, name) else best)"

definition nearest_name :: "(string \<Rightarrow> string) \<Rightarrow> ('t, 'v, 'x) registry \<Rightarrow> string \<Rightarrow> string option" where
  "nearest_name lower r q =
     (if q = [] then None
      else map_option snd (fold (nearest_step lower (lower q)) (reg_list r) None))"

section \<open>Which tools are loaded\<close>

definition load_included ::
  "(string \<Rightarrow> load_policy_override option) \<Rightarrow> string \<Rightarrow> ('t, 'v, 'x) reg_tool \<Rightarrow> bool" where
  "load_included overrides name t =
     (case overrides name of
        Some Force_Always_Load \<Rightarrow> True
      | Some Force_Deferred \<Rightarrow> False
      | None \<Rightarrow> rt_load_policy t = Always_Load)"

definition included_names ::
  "(string \<Rightarrow> load_policy_override option) \<Rightarrow> ('t, 'v, 'x) tool_map \<Rightarrow> string list" where
  "included_names overrides m = map fst (filter (\<lambda>(name, t). load_included overrides name t) m)"

definition resolved_loaded_set ::
  "(string \<Rightarrow> load_policy_override option) \<Rightarrow> ('t, 'v, 'x) registry \<Rightarrow> string set" where
  "resolved_loaded_set overrides r =
     set (included_names overrides (rg_io r)) \<union> set (included_names overrides (rg_engine r)) \<union>
     set (included_names overrides (filter (\<lambda>(name, t). name \<notin> set (map fst (rg_io r))) (rg_runtime_io r)))"

section \<open>The index of deferred tools\<close>

text \<open>\<open>split_whitespace\<close>: the maximal runs without Unicode white space.\<close>

fun take_word :: "string \<Rightarrow> string" where
  "take_word [] = []"
| "take_word (c # s) = (if strip_any unicode_white (c # s) = None then c # take_word s else [])"

lemma length_take_word: "length (take_word s) \<le> length s"
  by (induction s) auto

lemma length_trim_start: "length (trim_start s) \<le> length s"
  using trim_start_split [of s] by (metis le_add2 length_append)

function split_whitespace :: "string \<Rightarrow> string list" where
  "split_whitespace s =
     (let s1 = trim_start s; w = take_word s1 in
      if w = [] then [] else w # split_whitespace (drop (length w) s1))"
  by pat_completeness auto
termination
proof (relation "measure length", simp)
  fix s s1 w :: string
  assume s1: "s1 = trim_start s" and w: "w = take_word s1" "w \<noteq> []"
  have "0 < length w" using w by simp
  moreover have "length w \<le> length s1" unfolding w by (rule length_take_word)
  moreover have "length s1 \<le> length s" unfolding s1 by (rule length_trim_start)
  ultimately have "length s1 - length w < length s" by linarith
  then show "(drop (length w) s1, s) \<in> measure length" by simp
qed

declare split_whitespace.simps [simp del]

fun first_sentence :: "string \<Rightarrow> string option" where
  "first_sentence [] = None"
| "first_sentence (b # rest) =
     (if b \<in> {CHR ''.'', CHR ''!'', CHR ''?''} \<and> (rest = [] \<or> strip_any unicode_white rest \<noteq> None)
      then Some [b] else map_option (Cons b) (first_sentence rest))"

definition extract_short_description :: "string \<Rightarrow> string" where
  "extract_short_description desc =
     (let window = join_with (CHR '' '') (take 40 (split_whitespace desc)) in
      case first_sentence window of Some s \<Rightarrow> s | None \<Rightarrow> window)"

definition extract_search_text ::
  "(string \<Rightarrow> string) \<Rightarrow> ('v \<Rightarrow> string list) \<Rightarrow> string \<Rightarrow> string \<Rightarrow> 'v \<Rightarrow> string" where
  "extract_search_text lower props name description schema =
     join_with (CHR '' '') (lower name # lower description # map lower (props schema))"

definition index_entry ::
  "(string \<Rightarrow> string) \<Rightarrow> ('v \<Rightarrow> string list) \<Rightarrow> ('t, 'v, 'x) reg_tool \<Rightarrow> deferred_entry" where
  "index_entry lower props t =
     \<lparr> de_name = rt_name t, de_short_description = extract_short_description (tl_description t),
       de_search_text = extract_search_text lower props (rt_name t) (tl_description t) (tl_schema t) \<rparr>"

definition deferred_entries ::
  "(string \<Rightarrow> string) \<Rightarrow> ('v \<Rightarrow> string list) \<Rightarrow> ('t, 'v, 'x) tool_map \<Rightarrow> deferred_entry list" where
  "deferred_entries lower props m =
     map (index_entry lower props) (filter (\<lambda>t. rt_load_policy t = Deferred_Load) (map snd m))"

text \<open>\<open>dedup_by\<close> keeps the first of a run.\<close>

fun dedup_names :: "deferred_entry list \<Rightarrow> deferred_entry list" where
  "dedup_names (a # b # es) = (if de_name a = de_name b then dedup_names (a # es) else a # dedup_names (b # es))"
| "dedup_names es = es"

definition build_deferred_index ::
  "(string \<Rightarrow> string) \<Rightarrow> ('v \<Rightarrow> string list) \<Rightarrow> ('t, 'v, 'x) registry \<Rightarrow> ('t, 'v, 'x) registry" where
  "build_deferred_index lower props r =
     (let entries = deferred_entries lower props (rg_io r) @ deferred_entries lower props (rg_engine r) @
                    deferred_entries lower props (rg_runtime_io r) in
      r\<lparr> rg_deferred_index := dedup_names (sort_key de_name entries) \<rparr>)"

definition index_lookup_by_name :: "deferred_entry list \<Rightarrow> string \<Rightarrow> deferred_entry option" where
  "index_lookup_by_name entries name = List.find (\<lambda>e. de_name e = name) entries"

text \<open>\<open>schema_export\<close>: the entries of the catalog, the I/O tools before the engine's.\<close>

datatype tool_category = Category_Io | Category_Engine

record 'v exported_tool =
  et_name :: string
  et_description :: string
  et_input_schema :: 'v
  et_category :: tool_category
  et_concurrency_safe :: bool

definition export_tool :: "tool_category \<Rightarrow> ('t, 'v, 'x) reg_tool \<Rightarrow> 'v exported_tool" where
  "export_tool c t =
     \<lparr> et_name = rt_name t, et_description = tl_description t, et_input_schema = tl_schema t, et_category = c,
       et_concurrency_safe = tl_safe t \<rparr>"

definition schema_export :: "('t, 'v, 'x) registry \<Rightarrow> 'v exported_tool list" where
  "schema_export r =
     (let io_names = sort (map fst (rg_io r) @
            filter (\<lambda>k. k \<notin> set (map fst (rg_io r))) (map fst (rg_runtime_io r))) in
      map (export_tool Category_Io) (List.map_filter (lookup_io r) io_names) @
      map (export_tool Category_Engine) (List.map_filter (lookup_engine r) (sort (map fst (rg_engine r)))))"

end
