(* ===== verification/Tool_Search.thy ===== *)
theory Tool_Search
  imports Tool_Registry
begin

text \<open>
  What reaches an agent of the registry: the admission gate (\<open>context/mod.rs\<close>,
  \<open>agent_runner/channel_gating.rs\<close>), the tools of one MCP server (\<open>mcp/adapter.rs\<close>, \<open>mcp/manager.rs\<close>,
  \<open>agent_watch.rs\<close>), the \<open>ToolSearch\<close> tool (\<open>tool_search/mod.rs\<close>), and the configuration of a session
  by its registry (\<open>init_session_context\<close> in \<open>query_loop/mod.rs\<close>).
\<close>

section \<open>The admission gate\<close>

datatype tool_admission = Admit_Allow "string set" | Admit_Deny "string set"

fun permits :: "tool_admission \<Rightarrow> string \<Rightarrow> bool" where
  "permits (Admit_Allow names) name \<longleftrightarrow> name \<in> names"
| "permits (Admit_Deny names) name \<longleftrightarrow> name \<notin> names"

record tools_config =
  tc_allow :: "string list"
  tc_deny :: "string list"

definition profile_admission :: "tools_config option \<Rightarrow> string set \<Rightarrow> tool_admission option" where
  "profile_admission tools registered =
     (case tools of
        None \<Rightarrow> None
      | Some tc \<Rightarrow>
          if tc_allow tc = [] \<and> tc_deny tc = [] then None
          else if tc_allow tc = [] then Some (Admit_Deny (set (filter (\<lambda>n. n \<in> registered) (tc_deny tc))))
          else Some (Admit_Allow (set (filter (\<lambda>n. n \<in> registered) (tc_allow tc)) - set (tc_deny tc))))"

definition compute_tool_admission ::
  "tools_config option \<Rightarrow> ('t, 'v, 'x) registry \<Rightarrow> string list \<Rightarrow> tool_admission option" where
  "compute_tool_admission tools r extra_deny =
     (let base = profile_admission tools (set (reg_list r)) in
      if extra_deny = [] then base
      else case base of
          None \<Rightarrow> Some (Admit_Deny (set extra_deny))
        | Some (Admit_Deny deny) \<Rightarrow> Some (Admit_Deny (deny \<union> set extra_deny))
        | Some (Admit_Allow allow) \<Rightarrow> Some (Admit_Allow (allow - set extra_deny)))"

definition channel_blocked_tools :: "string list" where
  "channel_blocked_tools = [''AskUserQuestionWithForm'']"

text \<open>\<open>origin\<close> is the binding id of the thread's \<open>channel_origin\<close>.\<close>

definition is_channel_bridge_thread ::
  "'c channel_profile \<Rightarrow> string option \<Rightarrow> binding_id option \<Rightarrow> bool" where
  "is_channel_bridge_thread agent thread_id origin =
     (case thread_id of
        None \<Rightarrow> False
      | Some tid \<Rightarrow>
          (\<exists>b\<in>set (cp_channels agent). cb_enabled b \<and> cb_bridge_thread_id b = Some tid) \<or>
          (case origin of
             None \<Rightarrow> False
           | Some o_id \<Rightarrow> \<exists>b\<in>set (cp_channels agent). cb_enabled b \<and> cb_binding_id b = o_id))"

definition session_admission ::
  "'c channel_profile \<Rightarrow> tools_config option \<Rightarrow> ('t, 'v, 'x) registry \<Rightarrow> string option \<Rightarrow> binding_id option \<Rightarrow>
     tool_admission option" where
  "session_admission agent tools r thread_id origin =
     compute_tool_admission tools r
       (if is_channel_bridge_thread agent thread_id origin then channel_blocked_tools else [])"

section \<open>The tools of an MCP server\<close>

definition mcp_prefix :: "string \<Rightarrow> string" where
  "mcp_prefix server = ''mcp__'' @ server @ ''__''"

definition mcp_qualified_name :: "string \<Rightarrow> string \<Rightarrow> string" where
  "mcp_qualified_name server raw = mcp_prefix server @ raw"

definition is_ascii_lowercase :: "char \<Rightarrow> bool" where
  "is_ascii_lowercase c \<longleftrightarrow> 97 \<le> (of_char c :: nat) \<and> (of_char c :: nat) \<le> 122"

definition is_ascii_digit :: "char \<Rightarrow> bool" where
  "is_ascii_digit c \<longleftrightarrow> 48 \<le> (of_char c :: nat) \<and> (of_char c :: nat) \<le> 57"

fun is_valid_connector_scope :: "string \<Rightarrow> bool" where
  "is_valid_connector_scope [] = False"
| "is_valid_connector_scope (c # cs) =
     (is_ascii_lowercase c \<and> (\<forall>d\<in>set cs. is_ascii_lowercase d \<or> is_ascii_digit d \<or> d = CHR ''_''))"

text \<open>The tools of a server that \<open>add_server\<close> has connected: a name already taken is skipped.\<close>

definition add_server_tool ::
  "('t, 'v, 'x) reg_tool \<Rightarrow> ('t, 'v, 'x) registry \<Rightarrow> ('t, 'v, 'x) registry" where
  "add_server_tool t r = (if reg_lookup r (rt_name t) \<noteq> None then r else register_io_dynamic t r)"

definition add_server_tools ::
  "string \<Rightarrow> ('t, 'v, 'x) reg_tool list \<Rightarrow> ('t, 'v, 'x) registry \<Rightarrow> ('t, 'v, 'x) registry" where
  "add_server_tools server adapters r =
     fold (\<lambda>t. add_server_tool (t\<lparr> rt_name := mcp_qualified_name server (rt_name t) \<rparr>)) adapters r"

definition remove_server_tools :: "string \<Rightarrow> ('t, 'v, 'x) registry \<Rightarrow> ('t, 'v, 'x) registry" where
  "remove_server_tools server r = snd (remove_by_prefix (mcp_prefix server) r)"

definition scoped_mcp_registry :: "string option \<Rightarrow> ('t, 'v, 'x) registry \<Rightarrow> ('t, 'v, 'x) registry" where
  "scoped_mcp_registry scope r =
     (let pre = (case scope of Some server \<Rightarrow> mcp_prefix server | None \<Rightarrow> ''mcp__'') in
      filter_for (filter (starts_with pre) (reg_list r)) r)"

section \<open>\<open>ToolSearch\<close>\<close>

record search_input =
  si_name :: "string option"
  si_query :: "string option"
  si_max_results :: "nat option"

datatype 'v search_output =
    Search_Unknown string
  | Search_Resolved string string 'v
  | Search_Available string
  | Search_No_Query
  | Search_Activated "(string \<times> 'v) list" "string list"
  | Search_Results "(string \<times> string \<times> nat) list"

text \<open>The score is a sum of \<open>1.0\<close> and \<open>2.0\<close>: a whole number, exact as \<open>f64\<close>.\<close>

definition score_entry :: "string \<Rightarrow> string \<Rightarrow> string list \<Rightarrow> nat" where
  "score_entry search_text name_lower tokens =
     fold (\<lambda>token score.
        if contains_str token search_text
        then score + 1 + (if contains_str token name_lower then 2 else 0)
        else score) tokens 0"

definition load_deferred :: "string \<Rightarrow> ('t, 'v, 'x) world \<Rightarrow> ('t, 'v, 'x) world" where
  "load_deferred name w = w\<lparr> w_loaded_deferred := List.insert name (w_loaded_deferred w) \<rparr>"

definition search_by_name ::
  "('t, 'v, 'x) registry \<Rightarrow> string \<Rightarrow> ('t, 'v, 'x) world \<Rightarrow> ('t, 'v, 'x) world \<times> 'v search_output" where
  "search_by_name r name w =
     (case reg_lookup r name of
        None \<Rightarrow> (w, Search_Unknown name)
      | Some t \<Rightarrow>
          if rt_load_policy (ref_tool t) = Deferred_Load
          then (load_deferred name w, Search_Resolved name (tl_description (ref_tool t)) (tl_schema (ref_tool t)))
          else (w, Search_Available name))"

text \<open>The names of a \<open>select:\<close> query.\<close>

definition select_names :: "string \<Rightarrow> string list option" where
  "select_names query =
     (let q = trim_start query in
      if starts_with ''select:'' (map ascii_lower q)
      then (let after_prefix = trim (case split_at_char (CHR '':'') q of Some (_, b) \<Rightarrow> b | None \<Rightarrow> []) in
            Some (filter (\<lambda>s. s \<noteq> []) (map trim (split_on (CHR '','') after_prefix))))
      else None)"

definition activate ::
  "('t, 'v, 'x) registry \<Rightarrow> string \<Rightarrow> ('t, 'v, 'x) world \<times> (string \<times> 'v) list \<times> string list \<Rightarrow>
     ('t, 'v, 'x) world \<times> (string \<times> 'v) list \<times> string list" where
  "activate r name s =
     (case s of (w, activated, unresolved) \<Rightarrow>
        (case reg_lookup r name of
           None \<Rightarrow> (w, activated, unresolved @ [name])
         | Some t \<Rightarrow>
             (let w1 = w\<lparr> w_activated := List.insert name (w_activated w) \<rparr>;
                  w2 = (if rt_load_policy (ref_tool t) = Deferred_Load then load_deferred name w1 else w1) in
              (effect (Telemetry_Selected name) w2, activated @ [(name, tl_schema (ref_tool t))], unresolved))))"

definition search_keywords ::
  "(string \<Rightarrow> string) \<Rightarrow> ('t, 'v, 'x) registry \<Rightarrow> string set \<Rightarrow> string \<Rightarrow> nat \<Rightarrow> (string \<times> string \<times> nat) list" where
  "search_keywords lower r loaded query max_results =
     (let candidates = filter (\<lambda>e. de_name e \<notin> loaded) (rg_deferred_index r); q = trim query in
      take max_results
        (if q = []
         then sort_key fst (map (\<lambda>e. (de_name e, de_short_description e, 0)) candidates)
         else (let tokens = split_whitespace (lower q) in
               sort_key (\<lambda>(name, _, score). (- int score, name))
                 (map (\<lambda>e. (de_name e, de_short_description e, score_entry (de_search_text e) (lower (de_name e)) tokens))
                    candidates))))"

definition tool_search ::
  "(string \<Rightarrow> string) \<Rightarrow> ('t, 'v, 'x) registry \<Rightarrow> string list \<Rightarrow> search_input \<Rightarrow> ('t, 'v, 'x) world \<Rightarrow>
     ('t, 'v, 'x) world \<times> 'v search_output" where
  "tool_search lower r always_load input w =
     (case si_name input of
        Some name \<Rightarrow> search_by_name r name w
      | None \<Rightarrow>
          (case si_query input of
             None \<Rightarrow> (w, Search_No_Query)
           | Some query \<Rightarrow>
               (case select_names query of
                  Some names \<Rightarrow>
                    (case fold (activate r) names (w, [], []) of (w1, activated, unresolved) \<Rightarrow>
                       (w1, Search_Activated activated unresolved))
                | None \<Rightarrow>
                    (w, Search_Results (search_keywords lower r (set always_load \<union> set (w_activated w)) query
                          (case si_max_results input of Some n \<Rightarrow> n | None \<Rightarrow> 5))))))"

section \<open>A session over a registry\<close>

text \<open>The names in \<open>resolved_loaded_set\<close>, listed.\<close>

definition registry_config ::
  "(string \<Rightarrow> string) \<Rightarrow> ('t, 'v, 'x) registry \<Rightarrow> (string \<Rightarrow> load_policy_override option) \<Rightarrow>
     tool_admission option \<Rightarrow> ('t, 'v, 'x) session_config \<Rightarrow> ('t, 'v, 'x) session_config" where
  "registry_config lower r overrides admission cf =
     cf\<lparr> cf_names := reg_list r,
         cf_lookup := (\<lambda>name. map_option (\<lambda>t. tool.truncate (ref_tool t)) (reg_lookup r name)),
         cf_nearest := nearest_name lower r,
         cf_always_load := filter (\<lambda>name. name \<in> resolved_loaded_set overrides r) (reg_list r),
         cf_admission := map_option permits admission \<rparr>"

text \<open>What a provider without \<open>defer_loading\<close> shows the model (\<open>ao-engine-tools-provider-openai/src/request.rs\<close>).\<close>

definition visible_tools :: "'v completion_request \<Rightarrow> 'v tool_spec list" where
  "visible_tools request =
     filter (\<lambda>t. ts_name t \<notin> set (rq_deferred_tools request) \<or> ts_name t \<in> set (rq_loaded_deferred_tools request))
       (rq_tools request)"

end
