(* ===== verification/Mcp_Bridge.thy ===== *)
theory Mcp_Bridge
  imports Tool_Search
begin

text \<open>
  The MCP bridge (\<open>ao-mcp-bridge/src/handler.rs\<close>, \<open>protocol.rs\<close>): one JSON-RPC request over the registry
  and the admission gate of a session.

  Parameters, in \<open>mcp_env\<close>: JSON (the parameters of a call, the empty object, a schema's normal form), the
  text of a structured output, and what posting an asynchronous form does to the world. \<open>tools/call\<close>
  runs the tool to its end.
\<close>

record 'v rpc_request =
  jr_version :: string
  jr_id :: "'v option"
  jr_method :: string
  jr_params :: "'v option"

datatype rpc_error = Rpc_Error (re_code: int) (re_message: string) (re_did_you_mean: "string option")

record 'v mcp_tool =
  mt_name :: string
  mt_description :: string
  mt_input_schema :: 'v
  mt_annotations :: "(bool option \<times> bool option) option"

datatype 'v rpc_result =
    Rpc_Initialized
  | Rpc_Empty
  | Rpc_Tools "'v mcp_tool list"
  | Rpc_Call_Result string bool

record 'v rpc_response =
  rr_id :: "'v option"
  rr_outcome :: "rpc_error + 'v rpc_result"

record ('t, 'v, 'x) mcp_env =
  me_lower :: "string \<Rightarrow> string"
  me_call_params :: "'v option \<Rightarrow> string + (string \<times> 'v option)"
  me_empty_object :: 'v
  me_normalize :: "'v \<Rightarrow> 'v"
  me_structured_text :: "'v \<Rightarrow> string"
  me_blocks_text :: "tool_block list \<Rightarrow> string"
  me_debug :: "string \<Rightarrow> string"
  me_post_form :: "string \<Rightarrow> 'v tool_output \<Rightarrow> ('t, 'v, 'x) world \<Rightarrow> ('t, 'v, 'x) world"

definition jsonrpc_version :: string where
  "jsonrpc_version = ''2.0''"

definition invalid_request :: int where "invalid_request = - 32600"

definition rpc_method_not_found :: "string \<Rightarrow> rpc_error" where
  "rpc_method_not_found m = Rpc_Error (- 32601) (''Method not found: '' @ m) None"

definition rpc_invalid_params :: "string \<Rightarrow> rpc_error" where
  "rpc_invalid_params msg = Rpc_Error (- 32602) msg None"

definition rpc_internal :: "string \<Rightarrow> rpc_error" where
  "rpc_internal msg = Rpc_Error (- 32603) msg None"

definition build_tool_annotations :: "('t, 'v, 'x) reg_tool \<Rightarrow> (bool option \<times> bool option) option" where
  "build_tool_annotations t =
     (if \<not> tl_safe t \<and> \<not> rt_open_world t then None
      else Some (if tl_safe t then Some True else None, if rt_open_world t then Some True else None))"

definition gate_permits :: "tool_admission option \<Rightarrow> string \<Rightarrow> bool" where
  "gate_permits gate name \<longleftrightarrow> (case gate of None \<Rightarrow> True | Some g \<Rightarrow> permits g name)"

definition handle_tools_list ::
  "('t, 'v, 'x) mcp_env \<Rightarrow> ('t, 'v, 'x) registry \<Rightarrow> tool_admission option \<Rightarrow> 'v mcp_tool list" where
  "handle_tools_list env r gate =
     List.map_filter (\<lambda>name.
        if gate_permits gate name
        then map_option (\<lambda>t.
               \<lparr> mt_name = rt_name (ref_tool t), mt_description = tl_description (ref_tool t),
                 mt_input_schema = me_normalize env (tl_schema (ref_tool t)),
                 mt_annotations = build_tool_annotations (ref_tool t) \<rparr>) (reg_lookup r name)
        else None) (reg_list r)"

fun tool_output_to_call_result :: "('t, 'v, 'x) mcp_env \<Rightarrow> 'v tool_output \<Rightarrow> 'v rpc_result" where
  "tool_output_to_call_result env (Out_Text s) = Rpc_Call_Result s False"
| "tool_output_to_call_result env (Out_Structured v) = Rpc_Call_Result (me_structured_text env v) False"
| "tool_output_to_call_result env (Out_Error msg _) = Rpc_Call_Result msg True"
| "tool_output_to_call_result env (Out_Blocks bs) = Rpc_Call_Result (me_blocks_text env bs) False"

definition handle_tools_call ::
  "('t, 'v, 'x) mcp_env \<Rightarrow> ('t, 'v, 'x) registry \<Rightarrow> tool_admission option \<Rightarrow> 'v option \<Rightarrow>
     ('t, 'v, 'x) world \<Rightarrow> ('t, 'v, 'x) world \<times> (rpc_error + 'v rpc_result)" where
  "handle_tools_call env r gate params w =
     (case me_call_params env params of
        Inl e \<Rightarrow> (w, Inl (rpc_invalid_params (''malformed tools/call params: '' @ e)))
      | Inr (name, args) \<Rightarrow>
          (case reg_lookup r name of
             None \<Rightarrow>
               (w, Inl (Rpc_Error (- 32602) (''unknown tool: '' @ name) (nearest_name (me_lower env) r name)))
           | Some t \<Rightarrow>
               if \<not> gate_permits gate name then (w, Inl (rpc_invalid_params (''unknown tool: '' @ name)))
               else
                 (case tl_invoke (ref_tool t) (case args of Some a \<Rightarrow> a | None \<Rightarrow> me_empty_object env) w of
                    (Inr out, w1) \<Rightarrow> (me_post_form env name out w1, Inr (tool_output_to_call_result env out))
                  | (Inl e, w1) \<Rightarrow> (w1, Inl (rpc_internal (''tool failed: '' @ e))))))"

definition handle_method ::
  "('t, 'v, 'x) mcp_env \<Rightarrow> ('t, 'v, 'x) registry \<Rightarrow> tool_admission option \<Rightarrow> 'v rpc_request \<Rightarrow>
     ('t, 'v, 'x) world \<Rightarrow> ('t, 'v, 'x) world \<times> (rpc_error + 'v rpc_result) option" where
  "handle_method env r gate req w =
     (if jr_method req = ''initialize'' then (w, Some (Inr Rpc_Initialized))
      else if jr_method req = ''initialized'' \<or> jr_method req = ''notifications/initialized'' then (w, None)
      else if jr_method req = ''ping'' then (w, Some (Inr Rpc_Empty))
      else if jr_method req = ''tools/list'' then (w, Some (Inr (Rpc_Tools (handle_tools_list env r gate))))
      else if jr_method req = ''tools/call'' then
        (case handle_tools_call env r gate (jr_params req) w of (w1, out) \<Rightarrow> (w1, Some out))
      else (w, Some (Inl (rpc_method_not_found (jr_method req)))))"

definition handle_request ::
  "('t, 'v, 'x) mcp_env \<Rightarrow> ('t, 'v, 'x) registry \<Rightarrow> tool_admission option \<Rightarrow> 'v rpc_request \<Rightarrow>
     ('t, 'v, 'x) world \<Rightarrow> ('t, 'v, 'x) world \<times> 'v rpc_response option" where
  "handle_request env r gate req w =
     (if jr_version req \<noteq> jsonrpc_version then
        (w, if jr_id req = None then None
            else Some \<lparr> rr_id = jr_id req,
                        rr_outcome = Inl (Rpc_Error invalid_request
                          (''Expected jsonrpc='' @ [CHR 0x22] @ ''2.0'' @ [CHR 0x22] @ '', got '' @ me_debug env (jr_version req)) None) \<rparr>)
      else (case handle_method env r gate req w of
          (w1, None) \<Rightarrow> (w1, None)
        | (w1, Some out) \<Rightarrow>
            (w1, if jr_id req = None then None else Some \<lparr> rr_id = jr_id req, rr_outcome = out \<rparr>)))"

end
