(* ===== verification/Registry_Properties.thy ===== *)
theory Registry_Properties
  imports Mcp_Bridge Loop_Properties
begin

text \<open>
  What the surfaces of the registry agree on, what the nearest name is, and what the admission gate, the
  scope of an MCP server and \<open>ToolSearch\<close> do to the tools a model sees and may call.
\<close>

section \<open>Registries that the operations build\<close>

inductive built :: "('t, 'v, 'x) registry \<Rightarrow> bool" where
  new: "built registry_new"
| io: "built r \<Longrightarrow> built (register_io t r)"
| engine: "built r \<Longrightarrow> built (register_engine t r)"
| dynamic: "built r \<Longrightarrow> built (register_io_dynamic t r)"
| removed: "built r \<Longrightarrow> built (snd (remove_by_prefix pre r))"
| filtered: "built r \<Longrightarrow> built (filter_for allowed r)"
| indexed: "built r \<Longrightarrow> built (build_deferred_index lower props r)"

definition keyed :: "('t, 'v, 'x) tool_map \<Rightarrow> bool" where
  "keyed m \<longleftrightarrow> distinct (map fst m) \<and> (\<forall>(k, t)\<in>set m. rt_name t = k)"

definition keyed_registry :: "('t, 'v, 'x) registry \<Rightarrow> bool" where
  "keyed_registry r \<longleftrightarrow> keyed (rg_io r) \<and> keyed (rg_engine r) \<and> keyed (rg_runtime_io r)"

lemma keyed_Nil [simp]: "keyed []"
  by (simp add: keyed_def)

lemma set_update_insert: "set (AList.update k v m) \<subseteq> insert (k, v) (set m)"
  by (induction m) auto

lemma keyed_update: "keyed m \<Longrightarrow> rt_name t = k \<Longrightarrow> keyed (AList.update k t m)"
  using set_update_insert [of k t m] by (fastforce simp: keyed_def intro: distinct_update)

lemma keyed_delete: "keyed m \<Longrightarrow> keyed (AList.delete k m)"
  by (auto simp: keyed_def AList.delete_eq distinct_map inj_on_def)

lemma keyed_fold_delete: "keyed m \<Longrightarrow> keyed (fold AList.delete ks m)"
  by (induction ks arbitrary: m) (auto simp: keyed_delete)

lemma keyed_lookup: "keyed m \<Longrightarrow> map_of m k = Some t \<Longrightarrow> rt_name t = k"
  by (auto simp: keyed_def dest: map_of_SomeD)

lemma filter_step_keyed:
  assumes "keyed_registry r" "keyed_registry out"
  shows "keyed_registry (filter_step r name out)"
  using assms
  by (auto simp: keyed_registry_def filter_step_def register_io_dynamic_def Let_def keyed_update keyed_lookup
      split: option.splits)

lemma filter_for_keyed: "keyed_registry r \<Longrightarrow> keyed_registry (filter_for allowed r)"
proof -
  assume r: "keyed_registry r"
  have "keyed_registry (fold (filter_step r) allowed out)" if "keyed_registry out" for out
    using that by (induction allowed arbitrary: out) (auto simp: filter_step_keyed r)
  from this [of registry_new] show ?thesis
    by (simp add: filter_for_def registry_new_def keyed_registry_def)
qed

lemma built_keyed: "built r \<Longrightarrow> keyed_registry r"
  by (induction rule: built.induct)
     (auto simp: filter_for_keyed, auto simp: keyed_registry_def registry_new_def register_io_def
       register_engine_def register_io_dynamic_def remove_by_prefix_def build_deferred_index_def keyed_update
       keyed_fold_delete Let_def)

section \<open>The surfaces\<close>

lemma push_all:
  "set (fold push_new ks names) = set names \<union> set ks"
  "distinct names \<Longrightarrow> distinct (fold push_new ks names)"
  by (induction ks arbitrary: names) (auto simp: push_new_def)

lemma keys_dom: "fst ` set m = dom (map_of m)"
  by (rule dom_map_of_conv_image_fst [symmetric])

lemma dom_lookup: "reg_lookup r n \<noteq> None \<longleftrightarrow>
    n \<in> set (map fst (rg_io r)) \<union> set (map fst (rg_runtime_io r)) \<union> set (map fst (rg_engine r))"
  by (auto simp: reg_lookup_def keys_dom split: option.splits)

lemma set_reg_list: "set (reg_list r) = {n. reg_lookup r n \<noteq> None}"
  unfolding dom_lookup by (auto simp: reg_list_def push_all)

lemma distinct_reg_list: "distinct (reg_list r)"
  by (simp add: reg_list_def push_all)

lemma sorted_reg_list: "sorted (reg_list r)"
  by (simp add: reg_list_def)

lemma reg_len_count:
  assumes "keyed_registry r"
  shows "reg_len r = length (reg_list r) +
    card {n. n \<in> set (map fst (rg_engine r)) \<and> lookup_io r n \<noteq> None}"
proof -
  let ?io = "set (map fst (rg_io r))" and ?eng = "set (map fst (rg_engine r))"
    and ?run = "set (map fst (rg_runtime_io r))"
  from assms have d: "distinct (map fst (rg_io r))" "distinct (map fst (rg_engine r))"
      "distinct (map fst (rg_runtime_io r))"
    by (auto simp: keyed_registry_def keyed_def)
  have "length (filter (\<lambda>k. k \<notin> ?io) (map fst (rg_runtime_io r))) = card (?run - ?io)"
    using distinct_card [of "filter (\<lambda>k. k \<notin> ?io) (map fst (rg_runtime_io r))"] d by (simp add: set_diff_eq)
  with d have len: "reg_len r = card ?io + card ?eng + card (?run - ?io)"
    using distinct_card [of "map fst (rg_io r)"] distinct_card [of "map fst (rg_engine r)"]
    by (simp add: reg_len_def)
  have "card (?io \<union> (?run - ?io)) = card ?io + card (?run - ?io)"
    by (rule card_Un_disjoint) auto
  then have runio: "card (?io \<union> ?run) = card ?io + card (?run - ?io)" by simp
  have "card (?io \<union> ?run) + card ?eng = card (?io \<union> ?run \<union> ?eng) + card ((?io \<union> ?run) \<inter> ?eng)"
    by (rule card_Un_Int) auto
  moreover have "length (reg_list r) = card (?io \<union> ?run \<union> ?eng)"
    using distinct_card [OF distinct_reg_list, of r] by (simp add: reg_list_def push_all Un_ac)
  moreover have "{n. n \<in> ?eng \<and> lookup_io r n \<noteq> None} = (?io \<union> ?run) \<inter> ?eng"
    by (auto simp: lookup_io_def keys_dom split: option.splits)
  ultimately show ?thesis using len runio by simp
qed

lemma included_names_iff:
  "keyed m \<Longrightarrow> n \<in> set (included_names ov m) \<longleftrightarrow> (\<exists>t. map_of m n = Some t \<and> load_included ov n t)"
  by (auto simp: included_names_def keyed_def image_iff dest: map_of_SomeD)

lemma map_of_filter_key: "map_of (filter (\<lambda>(n, t). P n) m) n = (if P n then map_of m n else None)"
  by (induction m) auto

lemma keyed_filter: "keyed m \<Longrightarrow> keyed (filter p m)"
  by (auto simp: keyed_def distinct_map inj_on_def)

lemma resolved_loaded_iff:
  assumes "keyed_registry r"
  shows "n \<in> resolved_loaded_set ov r \<longleftrightarrow>
    (\<exists>t. lookup_io r n = Some t \<and> load_included ov n t) \<or>
    (\<exists>t. lookup_engine r n = Some t \<and> load_included ov n t)"
proof -
  note k = assms [unfolded keyed_registry_def]
  show ?thesis
    unfolding resolved_loaded_set_def Un_iff
    by (subst included_names_iff, use k in blast, subst included_names_iff, use k in blast,
        subst included_names_iff, use k keyed_filter in blast)
       (auto simp: map_of_filter_key lookup_io_def lookup_engine_def keys_dom split: option.splits)
qed

lemma lookup_split:
  "reg_lookup r n = (case lookup_io r n of Some t \<Rightarrow> Some (Ref_Io t) | None \<Rightarrow> map_option Ref_Engine (lookup_engine r n))"
  by (auto simp: reg_lookup_def lookup_io_def lookup_engine_def split: option.splits)

text \<open>In every registry the operations can build, \<open>list\<close> is the sorted list of the names \<open>lookup\<close>
  finds; \<open>len\<close> is its length plus one for every engine tool that an I/O tool of the same name shadows; and
  the resolved loaded set holds exactly the names whose looked-up tool is included by policy and overrides,
  plus the shadowed engine tools that are.\<close>

theorem registry_surfaces_agree:
  assumes "built r"
  shows "reg_list r = sorted_list_of_set {n. reg_lookup r n \<noteq> None} \<and>
    reg_len r = length (reg_list r) + card {n. lookup_engine r n \<noteq> None \<and> lookup_io r n \<noteq> None} \<and>
    resolved_loaded_set ov r =
      {n. \<exists>t. reg_lookup r n = Some t \<and> load_included ov n (ref_tool t)} \<union>
      {n. \<exists>t. lookup_io r n \<noteq> None \<and> lookup_engine r n = Some t \<and> load_included ov n t}"
proof (intro conjI)
  note k = built_keyed [OF assms]
  show "reg_list r = sorted_list_of_set {n. reg_lookup r n \<noteq> None}"
    using sorted_reg_list distinct_reg_list set_reg_list
    by (metis sorted_list_of_set.idem_if_sorted_distinct)
  have "{n. lookup_engine r n \<noteq> None \<and> lookup_io r n \<noteq> None} =
      {n. n \<in> set (map fst (rg_engine r)) \<and> lookup_io r n \<noteq> None}"
    by (auto simp: lookup_engine_def keys_dom)
  then show "reg_len r = length (reg_list r) + card {n. lookup_engine r n \<noteq> None \<and> lookup_io r n \<noteq> None}"
    using reg_len_count [OF k] by simp
  show "resolved_loaded_set ov r =
      {n. \<exists>t. reg_lookup r n = Some t \<and> load_included ov n (ref_tool t)} \<union>
      {n. \<exists>t. lookup_io r n \<noteq> None \<and> lookup_engine r n = Some t \<and> load_included ov n t}"
    by (rule set_eqI) (auto simp: resolved_loaded_iff [OF k] lookup_split split: option.splits)
qed

definition sample_reg_tool :: "string \<Rightarrow> load_policy \<Rightarrow> (unit, string, unit) reg_tool" where
  "sample_reg_tool name policy =
     \<lparr> tl_description = ''A tool.'', tl_schema = [], tl_safe = True, tl_validate = Inr, tl_check_permissions = (\<lambda>_. Allow),
       tl_mutates = (\<lambda>_. False), tl_polls = 1, tl_pending = (\<lambda>_ _. 1), tl_work = (\<lambda>_ w. w),
       tl_invoke = (\<lambda>v w. (Inr (Out_Text v), w)), rt_name = name, rt_load_policy = policy, rt_open_world = False \<rparr>"

definition sample_shadowed :: "(unit, string, unit) registry" where
  "sample_shadowed =
     register_engine (sample_reg_tool ''Read'' Always_Load) (register_io (sample_reg_tool ''Read'' Deferred_Load) registry_new)"

theorem registry_surfaces_agree_witness:
  "reg_len sample_shadowed = 2 \<and> reg_list sample_shadowed = [''Read''] \<and>
   resolved_loaded_set (\<lambda>_. None) sample_shadowed = {''Read''}"
proof -
  have b: "built sample_shadowed"
    unfolding sample_shadowed_def by (intro built.intros)
  have l: "reg_list sample_shadowed = [''Read'']"
    by (simp add: sample_shadowed_def register_io_def register_engine_def registry_new_def reg_list_def
        push_new_def sample_reg_tool_def)
  have io: "lookup_io sample_shadowed n = (if n = ''Read'' then Some (sample_reg_tool ''Read'' Deferred_Load) else None)"
    and en: "lookup_engine sample_shadowed n = (if n = ''Read'' then Some (sample_reg_tool ''Read'' Always_Load) else None)"
    for n
    by (auto simp: sample_shadowed_def register_io_def register_engine_def registry_new_def lookup_io_def
        lookup_engine_def sample_reg_tool_def)
  have set: "{n. \<exists>t. reg_lookup sample_shadowed n = Some t \<and> load_included (\<lambda>_. None) n (ref_tool t)} \<union>
      {n. \<exists>t. lookup_io sample_shadowed n \<noteq> None \<and> lookup_engine sample_shadowed n = Some t \<and>
        load_included (\<lambda>_. None) n t} = {''Read''}"
    unfolding lookup_split io en
    by (auto simp: load_included_def sample_reg_tool_def split: if_splits)
  have "{n. lookup_engine sample_shadowed n \<noteq> None \<and> lookup_io sample_shadowed n \<noteq> None} = {''Read''}"
    unfolding io en by auto
  with registry_surfaces_agree [OF b, of "\<lambda>_. None"] l set show ?thesis by simp
qed

section \<open>The nearest name\<close>

definition best_of :: "('a \<Rightarrow> nat option) \<Rightarrow> 'a::linorder list \<Rightarrow> (nat \<times> 'a) option \<Rightarrow> bool" where
  "best_of score ns best \<longleftrightarrow>
     (case best of
        None \<Rightarrow> \<forall>m\<in>set ns. score m = None
      | Some (s, n) \<Rightarrow> n \<in> set ns \<and> score n = Some s \<and>
          (\<forall>m\<in>set ns. \<forall>s'. score m = Some s' \<longrightarrow> s < s' \<or> s = s' \<and> n \<le> m))"

lemma best_of_step:
  assumes b: "best_of (\<lambda>n. name_score q (lower n)) ns best" and le: "\<forall>n\<in>set ns. n \<le> m"
  shows "best_of (\<lambda>n. name_score q (lower n)) (ns @ [m]) (nearest_step lower q m best)"
proof (cases "name_score q (lower m)")
  case None
  with b show ?thesis by (cases best) (auto simp: best_of_def nearest_step_def)
next
  case (Some s')
  show ?thesis
  proof (cases best)
    case None
    with b Some show ?thesis by (auto simp: best_of_def nearest_step_def)
  next
    case (Some sn)
    obtain s n where sn: "sn = (s, n)" by force
    with b le Some \<open>name_score q (lower m) = Some s'\<close> show ?thesis
      by (cases "s' < s") (force simp: best_of_def nearest_step_def)+
  qed
qed

lemma nearest_fold:
  "sorted ns \<Longrightarrow> best_of (\<lambda>n. name_score q (lower n)) ns (fold (nearest_step lower q) ns None)"
proof (induction ns rule: rev_induct)
  case Nil
  show ?case by (simp add: best_of_def)
next
  case (snoc m ns)
  then have IH: "best_of (\<lambda>n. name_score q (lower n)) ns (fold (nearest_step lower q) ns None)"
    and le: "\<forall>n\<in>set ns. n \<le> m"
    by (auto simp: sorted_append)
  then show ?case by (simp add: best_of_step)
qed

lemma name_score_le: "name_score a b = Some s \<Longrightarrow> s \<le> 3"
  by (auto simp: name_score_def Let_def split: if_splits)

text \<open>The suggested name is registered and no registered name scores better, the alphabetically
  first one winning a tie; there is no suggestion exactly when the query is empty or no name scores at all.\<close>

theorem nearest_name_best:
  "(nearest_name lower r q = None \<longleftrightarrow>
      q = [] \<or> (\<forall>n. reg_lookup r n \<noteq> None \<longrightarrow> name_score (lower q) (lower n) = None)) \<and>
   (\<forall>n. nearest_name lower r q = Some n \<longrightarrow> reg_lookup r n \<noteq> None \<and>
      (\<exists>s\<le>3. name_score (lower q) (lower n) = Some s \<and>
         (\<forall>m s'. reg_lookup r m \<noteq> None \<and> name_score (lower q) (lower m) = Some s' \<longrightarrow>
            s < s' \<or> s = s' \<and> n \<le> m)))"
proof (cases "q = []")
  case True
  then show ?thesis by (simp add: nearest_name_def)
next
  case False
  let ?best = "fold (nearest_step lower (lower q)) (reg_list r) None"
  have b: "best_of (\<lambda>n. name_score (lower q) (lower n)) (reg_list r) ?best"
    by (rule nearest_fold) (rule sorted_reg_list)
  show ?thesis
  proof (cases ?best)
    case None
    with b False show ?thesis by (auto simp: nearest_name_def best_of_def set_reg_list)
  next
    case (Some sn)
    obtain s n where "sn = (s, n)" by force
    with b Some have n: "reg_lookup r n \<noteq> None" "name_score (lower q) (lower n) = Some s"
      and min: "\<forall>m. reg_lookup r m \<noteq> None \<longrightarrow> (\<forall>s'. name_score (lower q) (lower m) = Some s' \<longrightarrow>
            s < s' \<or> s = s' \<and> n \<le> m)"
      by (auto simp: best_of_def set_reg_list)
    from Some \<open>sn = (s, n)\<close> False have "nearest_name lower r q = Some n" by (simp add: nearest_name_def)
    with n min name_score_le [OF n(2)] False show ?thesis by auto
  qed
qed

section \<open>Scopes\<close>

lemma filter_fold_lookup:
  assumes "keyed_registry r"
  shows "map_of (rg_io (fold (filter_step r) allowed out)) n =
      (if n \<in> set allowed \<and> map_of (rg_io r) n \<noteq> None then map_of (rg_io r) n else map_of (rg_io out) n)"
    and "map_of (rg_engine (fold (filter_step r) allowed out)) n =
      (if n \<in> set allowed \<and> map_of (rg_engine r) n \<noteq> None then map_of (rg_engine r) n else map_of (rg_engine out) n)"
    and "map_of (rg_runtime_io (fold (filter_step r) allowed out)) n =
      (if n \<in> set allowed \<and> map_of (rg_runtime_io r) n \<noteq> None then map_of (rg_runtime_io r) n
       else map_of (rg_runtime_io out) n)"
  using assms keyed_lookup [of "rg_runtime_io r"]
  by (induction allowed arbitrary: out)
     (auto simp: filter_step_def register_io_dynamic_def Let_def update_conv' keyed_registry_def split: option.splits)

lemma filter_for_lookup:
  "keyed_registry r \<Longrightarrow> reg_lookup (filter_for allowed r) n = (if n \<in> set allowed then reg_lookup r n else None)"
  by (auto simp: filter_for_def reg_lookup_def filter_fold_lookup registry_new_def split: option.splits)

lemma map_of_fold_delete:
  "map_of (fold AList.delete ks m) n = (if n \<in> set ks then None else map_of m n)"
  by (induction ks arbitrary: m) (auto simp: delete_conv')

text \<open>The scope of a watch and the removal of a server are tests of the name's prefix: they take the
  server's own tools, and those of every server whose name goes on with an underscore at its end or with
  two underscores.\<close>

theorem server_scope_is_prefix:
  assumes "built r"
  shows "reg_lookup (scoped_mcp_registry (Some s) r) n = (if starts_with (mcp_prefix s) n then reg_lookup r n else None) \<and>
    map_of (rg_runtime_io (remove_server_tools s r)) n =
      (if starts_with (mcp_prefix s) n then None else map_of (rg_runtime_io r) n) \<and>
    (s2 \<in> {s, s @ ''_'', s @ ''__'' @ x} \<longrightarrow> starts_with (mcp_prefix s) (mcp_qualified_name s2 raw))"
proof (intro conjI impI)
  note k = built_keyed [OF assms]
  show "reg_lookup (scoped_mcp_registry (Some s) r) n =
      (if starts_with (mcp_prefix s) n then reg_lookup r n else None)"
    by (auto simp: scoped_mcp_registry_def filter_for_lookup [OF k] set_reg_list)
  show "map_of (rg_runtime_io (remove_server_tools s r)) n =
      (if starts_with (mcp_prefix s) n then None else map_of (rg_runtime_io r) n)"
    by (auto simp: remove_server_tools_def remove_by_prefix_def Let_def map_of_fold_delete keys_dom)
  assume "s2 \<in> {s, s @ ''_'', s @ ''__'' @ x}"
  then show "starts_with (mcp_prefix s) (mcp_qualified_name s2 raw)"
    by (auto simp: mcp_prefix_def mcp_qualified_name_def)
qed

text \<open>Two servers, and the tool \<open>send\<close> of the second.\<close>

definition sample_servers :: "(unit, string, unit) registry" where
  "sample_servers =
     add_server_tools ''gmail__admin'' [sample_reg_tool ''send'' Deferred_Load]
       (add_server_tools ''gmail'' [sample_reg_tool ''read'' Deferred_Load] registry_new)"

lemma sample_servers_built: "built sample_servers"
  by (auto simp: sample_servers_def add_server_tools_def add_server_tool_def intro: built.intros)

theorem server_scope_is_prefix_witness:
  "is_valid_connector_scope ''gmail'' \<and> is_valid_connector_scope ''gmail__admin'' \<and>
   reg_lookup (scoped_mcp_registry (Some ''gmail'') sample_servers) (mcp_qualified_name ''gmail__admin'' ''send'') =
     reg_lookup sample_servers (mcp_qualified_name ''gmail__admin'' ''send'') \<and>
   reg_lookup sample_servers (mcp_qualified_name ''gmail__admin'' ''send'') \<noteq> None \<and>
   map_of (rg_runtime_io (remove_server_tools ''gmail'' sample_servers)) (mcp_qualified_name ''gmail__admin'' ''send'') = None"
proof -
  have pre: "starts_with (mcp_prefix ''gmail'') (mcp_qualified_name ''gmail__admin'' ''send'')"
    using server_scope_is_prefix [OF sample_servers_built, where s = "''gmail''" and x = "''admin''" and
      ?s2.0 = "''gmail__admin''" and raw = "''send''"] by auto
  have "is_valid_connector_scope ''gmail'' \<and> is_valid_connector_scope ''gmail__admin''"
    by (simp add: is_ascii_lowercase_def)
  moreover have "reg_lookup sample_servers (mcp_qualified_name ''gmail__admin'' ''send'') \<noteq> None"
    by (simp add: sample_servers_def add_server_tools_def add_server_tool_def reg_lookup_def registry_new_def
        register_io_dynamic_def mcp_qualified_name_def mcp_prefix_def sample_reg_tool_def)
  ultimately show ?thesis
    using pre server_scope_is_prefix [OF sample_servers_built, where s = "''gmail''" and
        n = "mcp_qualified_name ''gmail__admin'' ''send''"] by auto
qed

section \<open>What a turn shows and a call reaches\<close>

lemma build_tool_specs_iff:
  "build_tool_specs cf loaded names = (specs, deferred) \<Longrightarrow>
    ts_name ` set specs =
      {n \<in> set names. (case cf_admission cf of Some p \<Rightarrow> p n | None \<Rightarrow> True) \<and> cf_lookup cf n \<noteq> None} \<and>
    set deferred = ts_name ` set specs - set loaded"
proof (induction names arbitrary: specs deferred)
  case Nil
  then show ?case by simp
next
  case (Cons name names)
  obtain specs0 deferred0 where b: "build_tool_specs cf loaded names = (specs0, deferred0)" by force
  note IH = Cons.IH [OF b]
  show ?case
  proof (cases "(case cf_admission cf of Some p \<Rightarrow> p name | None \<Rightarrow> True) \<and> cf_lookup cf name \<noteq> None")
    case True
    then obtain t where t: "cf_lookup cf name = Some t" by blast
    let ?spec = "\<lparr> ts_name = name, ts_description = tl_description t, ts_input_schema = tl_schema t \<rparr>"
    have s: "specs = ?spec # specs0" "deferred = (if name \<in> set loaded then deferred0 else name # deferred0)"
      using Cons.prems b True t by auto
    have "ts_name ` set specs = insert name (ts_name ` set specs0)" by (simp add: s)
    with IH True s(2) show ?thesis by auto
  next
    case False
    with Cons.prems b have "specs = specs0" "deferred = deferred0" by (auto split: if_splits option.splits)
    with IH False show ?thesis by auto
  qed
qed

lemma turn_request_tools:
  "ts_name ` set (rq_tools (turn_request cf messages w)) =
     {n \<in> set (cf_names cf). (case cf_admission cf of Some p \<Rightarrow> p n | None \<Rightarrow> True) \<and> cf_lookup cf n \<noteq> None}"
  "set (rq_deferred_tools (turn_request cf messages w)) =
     ts_name ` set (rq_tools (turn_request cf messages w)) -
     (set (cf_always_load cf) \<union> set (w_activated w) \<union> set (w_loaded_deferred w))"
  "rq_loaded_deferred_tools (turn_request cf messages w) = w_loaded_deferred w"
proof -
  obtain specs deferred where b:
    "build_tool_specs cf (cf_always_load cf @ w_activated w @ w_loaded_deferred w) (cf_names cf) = (specs, deferred)"
    by force
  note r = build_tool_specs_iff [OF b]
  show "ts_name ` set (rq_tools (turn_request cf messages w)) =
     {n \<in> set (cf_names cf). (case cf_admission cf of Some p \<Rightarrow> p n | None \<Rightarrow> True) \<and> cf_lookup cf n \<noteq> None}"
    using conjunct1 [OF r] by (simp add: turn_request_def b)
  show "set (rq_deferred_tools (turn_request cf messages w)) =
     ts_name ` set (rq_tools (turn_request cf messages w)) -
     (set (cf_always_load cf) \<union> set (w_activated w) \<union> set (w_loaded_deferred w))"
    using conjunct2 [OF r] by (simp add: turn_request_def b Un_assoc)
  show "rq_loaded_deferred_tools (turn_request cf messages w) = w_loaded_deferred w"
    by (simp add: turn_request_def b)
qed

text \<open>A tool is in full view when it is admitted, known and among the loaded names.\<close>

lemma visible_iff:
  "n \<in> ts_name ` set (visible_tools (turn_request cf messages w)) \<longleftrightarrow>
     n \<in> set (cf_names cf) \<and> (case cf_admission cf of Some p \<Rightarrow> p n | None \<Rightarrow> True) \<and> cf_lookup cf n \<noteq> None \<and>
     n \<in> set (cf_always_load cf) \<union> set (w_activated w) \<union> set (w_loaded_deferred w)"
proof -
  have "n \<in> ts_name ` set (visible_tools (turn_request cf messages w)) \<longleftrightarrow>
      n \<in> ts_name ` set (rq_tools (turn_request cf messages w)) \<and>
      (n \<notin> set (rq_deferred_tools (turn_request cf messages w)) \<or>
       n \<in> set (rq_loaded_deferred_tools (turn_request cf messages w)))"
    by (auto simp: visible_tools_def)
  then show ?thesis unfolding turn_request_tools by auto
qed

lemma admission_others:
  "cf_env (cf\<lparr> cf_admission := a \<rparr>) = cf_env cf"
  "cf_tracker (cf\<lparr> cf_admission := a \<rparr>) = cf_tracker cf"
  "cf_bridge (cf\<lparr> cf_admission := a \<rparr>) = cf_bridge cf"
  "cf_settings (cf\<lparr> cf_admission := a \<rparr>) = cf_settings cf"
  "cf_context (cf\<lparr> cf_admission := a \<rparr>) = cf_context cf"
  "cf_kind (cf\<lparr> cf_admission := a \<rparr>) = cf_kind cf"
  "cf_auto_approve (cf\<lparr> cf_admission := a \<rparr>) = cf_auto_approve cf"
  "cf_hook_run (cf\<lparr> cf_admission := a \<rparr>) = cf_hook_run cf"
  "cf_hook_cancelled (cf\<lparr> cf_admission := a \<rparr>) = cf_hook_cancelled cf"
  "cf_lookup (cf\<lparr> cf_admission := a \<rparr>) = cf_lookup cf"
  "cf_nearest (cf\<lparr> cf_admission := a \<rparr>) = cf_nearest cf"
  by simp_all

lemma call_parts_admission:
  "unknown_tool_message (cf\<lparr> cf_admission := a \<rparr>) = unknown_tool_message cf"
  "note_success (cf\<lparr> cf_admission := a \<rparr>) = note_success cf"
  "post_hooks (cf\<lparr> cf_admission := a \<rparr>) = post_hooks cf"
  by (intro ext, simp only: unknown_tool_message_def note_success_def post_hooks_def admission_others)+

lemma check_call_admission: "check_call (cf\<lparr> cf_admission := a \<rparr>) = check_call cf"
  by (intro ext, simp only: check_call_def call_parts_admission admission_others)

lemma finish_call_admission: "finish_call (cf\<lparr> cf_admission := a \<rparr>) = finish_call cf"
  by (intro ext, simp only: finish_call_def call_parts_admission)

lemma poll_call_admission: "poll_call (cf\<lparr> cf_admission := a \<rparr>) call st w = poll_call cf call st w"
  by (cases st) (simp_all only: poll_call.simps check_call_admission finish_call_admission call_parts_admission
      admission_others)

text \<open>C15: A turn offers the model only tools the agent's gate admits; but a call is answered the same
  whatever the gate: a denied tool that the model names is run like any other.\<close>

theorem admission_hides_but_never_refuses:
  "ts_name ` set (rq_tools (turn_request cf messages w)) \<subseteq>
     {n. case cf_admission cf of Some admits \<Rightarrow> admits n | None \<Rightarrow> True} \<and>
   call_futures (cf\<lparr> cf_admission := a \<rparr>) = call_futures cf"
proof
  show "ts_name ` set (rq_tools (turn_request cf messages w)) \<subseteq>
     {n. case cf_admission cf of Some admits \<Rightarrow> admits n | None \<Rightarrow> True}"
    by (auto simp: turn_request_tools)
  have "poll_call (cf\<lparr> cf_admission := a \<rparr>) = poll_call cf"
    by (intro ext) (rule poll_call_admission)
  moreover have "call_init (cf\<lparr> cf_admission := a \<rparr>) = call_init cf"
    by (intro ext) (simp add: call_init_def)
  ultimately show "call_futures (cf\<lparr> cf_admission := a \<rparr>) = call_futures cf"
    by (simp add: call_futures_def)
qed

section \<open>\<open>ToolSearch\<close> and what the model sees\<close>

lemma not_included: "ov n = Some Force_Deferred \<Longrightarrow> n \<notin> set (included_names ov m)"
  by (auto simp: included_names_def load_included_def)

text \<open>A tool that is loaded by its own policy and demoted by an override cannot be loaded by name:
  \<open>ToolSearch\<close> answers that it is already available and changes nothing, while a provider without
  deferred loading goes on leaving it out.\<close>

theorem demoted_tool_stays_hidden:
  assumes "reg_lookup r n = Some t" "rt_load_policy (ref_tool t) = Always_Load" "overrides n = Some Force_Deferred"
    and "n \<notin> set (w_activated w)" "n \<notin> set (w_loaded_deferred w)"
  shows "tool_search lower r always_load \<lparr> si_name = Some n, si_query = q, si_max_results = k \<rparr> w = (w, Search_Available n) \<and>
    n \<notin> ts_name ` set (visible_tools (turn_request (registry_config lower r overrides admission cf) messages w))"
  using assms by (auto simp: tool_search_def search_by_name_def visible_iff registry_config_def
      resolved_loaded_set_def not_included)

theorem demoted_tool_stays_hidden_witness:
  "tool_search id sample_shadowed [] \<lparr> si_name = Some ''Read'', si_query = None, si_max_results = None \<rparr> sample_world \<noteq>
     (sample_world, Search_Available ''Read'') \<and>
   tool_search id (register_io (sample_reg_tool ''Bash'' Always_Load) registry_new) []
     \<lparr> si_name = Some ''Bash'', si_query = None, si_max_results = None \<rparr> sample_world =
     (sample_world, Search_Available ''Bash'') \<and>
   ''Bash'' \<notin> ts_name ` set (visible_tools (turn_request
      (registry_config id (register_io (sample_reg_tool ''Bash'' Always_Load) registry_new) (\<lambda>_. Some Force_Deferred) None
        (sample_session [] None)) [] sample_world))"
proof -
  let ?r = "register_io (sample_reg_tool ''Bash'' Always_Load) registry_new"
  have l: "reg_lookup ?r ''Bash'' = Some (Ref_Io (sample_reg_tool ''Bash'' Always_Load))"
    by (simp add: reg_lookup_def register_io_def registry_new_def sample_reg_tool_def)
  have s: "reg_lookup sample_shadowed ''Read'' = Some (Ref_Io (sample_reg_tool ''Read'' Deferred_Load))"
    by (simp add: reg_lookup_def sample_shadowed_def register_engine_def register_io_def registry_new_def sample_reg_tool_def)
  have "tool_search id sample_shadowed [] \<lparr> si_name = Some ''Read'', si_query = None, si_max_results = None \<rparr> sample_world \<noteq>
     (sample_world, Search_Available ''Read'')"
    by (simp add: tool_search_def search_by_name_def s sample_reg_tool_def)
  with demoted_tool_stays_hidden [OF l, where overrides = "\<lambda>_. Some Force_Deferred" and w = sample_world and lower = id and
      always_load = "[]" and q = None and k = None and admission = None and cf = "sample_session [] None" and messages = "[]"]
  show ?thesis by (simp add: sample_reg_tool_def sample_world_def)
qed

lemma activate_fold:
  "fold (activate r) names (w, activated, unresolved) = (w', activated', unresolved') \<Longrightarrow>
    set (w_activated w') = set (w_activated w) \<union> {n \<in> set names. reg_lookup r n \<noteq> None} \<and>
    set (w_loaded_deferred w') = set (w_loaded_deferred w) \<union>
      {n \<in> set names. \<exists>t. reg_lookup r n = Some t \<and> rt_load_policy (ref_tool t) = Deferred_Load} \<and>
    map fst activated' = map fst activated @ filter (\<lambda>n. reg_lookup r n \<noteq> None) names \<and>
    unresolved' = unresolved @ filter (\<lambda>n. reg_lookup r n = None) names"
proof (induction names arbitrary: w activated unresolved)
  case Nil
  then show ?case by simp
next
  case (Cons n names)
  obtain w1 a1 u1 where s: "activate r n (w, activated, unresolved) = (w1, a1, u1)" using prod_cases3 by blast
  with Cons.prems have "fold (activate r) names (w1, a1, u1) = (w', activated', unresolved')" by simp
  note IH = Cons.IH [OF this]
  show ?case
  proof (cases "reg_lookup r n")
    case None
    with s have "w1 = w" "a1 = activated" "u1 = unresolved @ [n]" by (auto simp: activate_def)
    with IH None show ?thesis by auto
  next
    case (Some t)
    with s have "set (w_activated w1) = insert n (set (w_activated w))"
      "set (w_loaded_deferred w1) =
        (if rt_load_policy (ref_tool t) = Deferred_Load then insert n (set (w_loaded_deferred w)) else set (w_loaded_deferred w))"
      "a1 = activated @ [(n, tl_schema (ref_tool t))]" "u1 = unresolved"
      by (cases "rt_load_policy (ref_tool t) = Deferred_Load";
          auto simp: activate_def Let_def effect_def load_deferred_def)+
    with IH Some show ?thesis by auto
  qed
qed

text \<open>A registered and admitted tool that the model selects, or resolves by its name when its policy is
  deferred, is in full view of the next turn; a \<open>select:\<close> query reports every name as activated or
  unresolved, in order.\<close>

theorem searched_tool_becomes_visible:
  assumes search: "tool_search lower r always_load \<lparr> si_name = nm, si_query = qu, si_max_results = k \<rparr> w = (w', out)"
    and t: "reg_lookup r n = Some t" "gate_permits admission n"
    and asked: "nm = Some n \<and> rt_load_policy (ref_tool t) = Deferred_Load \<or>
      nm = None \<and> (\<exists>q names. qu = Some q \<and> select_names q = Some names \<and> n \<in> set names)"
  shows "n \<in> ts_name ` set (visible_tools (turn_request (registry_config lower r overrides admission cf) messages w')) \<and>
    (\<forall>activated unresolved. out = Search_Activated activated unresolved \<longrightarrow>
       (\<exists>q names. qu = Some q \<and> select_names q = Some names \<and>
          map fst activated = filter (\<lambda>m. reg_lookup r m \<noteq> None) names \<and>
          unresolved = filter (\<lambda>m. reg_lookup r m = None) names))"
proof -
  have vis: "n \<in> ts_name ` set (visible_tools (turn_request (registry_config lower r overrides admission cf) messages w'))"
    if "n \<in> set (w_activated w') \<union> set (w_loaded_deferred w')"
    using that t by (auto simp: visible_iff registry_config_def set_reg_list gate_permits_def split: option.splits)
  show ?thesis
  proof (cases nm)
    case (Some m)
    with asked search t have "w' = load_deferred n w" "\<forall>a u. out \<noteq> Search_Activated a u"
      by (auto simp: tool_search_def search_by_name_def)
    with vis show ?thesis by (simp add: load_deferred_def)
  next
    case None
    with asked obtain q names where q: "qu = Some q" "select_names q = Some names" "n \<in> set names" by auto
    obtain w1 a1 u1 where f: "fold (activate r) names (w, [], []) = (w1, a1, u1)" using prod_cases3 by blast
    with search None q have "w' = w1" "out = Search_Activated a1 u1" by (auto simp: tool_search_def)
    with activate_fold [OF f] q t vis show ?thesis by auto
  qed
qed

theorem searched_tool_becomes_visible_witness:
  "''Read'' \<in> ts_name ` set (visible_tools (turn_request
      (registry_config id sample_shadowed (\<lambda>_. Some Force_Deferred) None (sample_session [] None)) []
      (fst (tool_search id sample_shadowed [] \<lparr> si_name = Some ''Read'', si_query = None, si_max_results = None \<rparr> sample_world))))"
proof -
  let ?i = "\<lparr> si_name = Some ''Read'', si_query = None, si_max_results = None \<rparr>"
  have s: "reg_lookup sample_shadowed ''Read'' = Some (Ref_Io (sample_reg_tool ''Read'' Deferred_Load))"
    by (simp add: reg_lookup_def sample_shadowed_def register_engine_def register_io_def registry_new_def sample_reg_tool_def)
  obtain w out where o: "tool_search id sample_shadowed [] ?i sample_world = (w, out)" by force
  show ?thesis
    unfolding o fst_conv
    by (rule searched_tool_becomes_visible [OF o s, THEN conjunct1]) (simp_all add: gate_permits_def sample_reg_tool_def)
qed

section \<open>The MCP bridge\<close>

text \<open>C30: Over MCP a denied tool is neither listed nor run: the call leaves the world as it is and is
  answered as an unknown tool. The answer for an unregistered name is the same under every gate, so its
  suggestion may name a tool the gate denies.\<close>

theorem mcp_gate_refuses_denied:
  assumes "built r" "reg_lookup r n \<noteq> None" "\<not> gate_permits gate n" "me_call_params env params = Inr (n, args)"
    and "me_call_params env params' = Inr (m, args')" "reg_lookup r m = None"
  shows "mt_name ` set (handle_tools_list env r gate) = {k. reg_lookup r k \<noteq> None \<and> gate_permits gate k} \<and>
    handle_request env r gate \<lparr> jr_version = ''2.0'', jr_id = Some i, jr_method = ''tools/call'', jr_params = params \<rparr> w =
      (w, Some \<lparr> rr_id = Some i, rr_outcome = Inl (Rpc_Error (- 32602) (''unknown tool: '' @ n) None) \<rparr>) \<and>
    handle_request env r gate \<lparr> jr_version = ''2.0'', jr_id = Some i, jr_method = ''tools/call'', jr_params = params' \<rparr> w =
      (w, Some \<lparr> rr_id = Some i,
          rr_outcome = Inl (Rpc_Error (- 32602) (''unknown tool: '' @ m) (nearest_name (me_lower env) r m)) \<rparr>)"
proof (intro conjI)
  have name: "reg_lookup r k = Some t \<Longrightarrow> rt_name (ref_tool t) = k" for k t
    using built_keyed [OF assms(1)] keyed_lookup
    by (fastforce simp: reg_lookup_def keyed_registry_def split: option.splits)
  have "mt_name ` set (handle_tools_list env r gate) \<subseteq> {k. reg_lookup r k \<noteq> None \<and> gate_permits gate k}"
    by (auto simp: handle_tools_list_def map_filter_def name split: if_splits)
  moreover have "k \<in> mt_name ` set (handle_tools_list env r gate)"
    if "reg_lookup r k \<noteq> None" "gate_permits gate k" for k
  proof -
    from that obtain t where t: "reg_lookup r k = Some t" by blast
    with that have "k \<in> set (reg_list r)" by (simp add: set_reg_list)
    then show ?thesis
      using that t name [OF t] by (force simp: handle_tools_list_def map_filter_def image_iff)
  qed
  ultimately show "mt_name ` set (handle_tools_list env r gate) = {k. reg_lookup r k \<noteq> None \<and> gate_permits gate k}"
    by blast
  show "handle_request env r gate \<lparr> jr_version = ''2.0'', jr_id = Some i, jr_method = ''tools/call'', jr_params = params \<rparr> w =
      (w, Some \<lparr> rr_id = Some i, rr_outcome = Inl (Rpc_Error (- 32602) (''unknown tool: '' @ n) None) \<rparr>)"
    using assms by (auto simp: handle_request_def handle_method_def handle_tools_call_def jsonrpc_version_def
        rpc_invalid_params_def)
  show "handle_request env r gate \<lparr> jr_version = ''2.0'', jr_id = Some i, jr_method = ''tools/call'', jr_params = params' \<rparr> w =
      (w, Some \<lparr> rr_id = Some i,
          rr_outcome = Inl (Rpc_Error (- 32602) (''unknown tool: '' @ m) (nearest_name (me_lower env) r m)) \<rparr>)"
    using assms by (auto simp: handle_request_def handle_method_def handle_tools_call_def jsonrpc_version_def)
qed

definition sample_mcp_env :: "(unit, string, unit) mcp_env" where
  "sample_mcp_env =
     \<lparr> me_lower = id, me_call_params = (\<lambda>p. Inr (case p of Some n \<Rightarrow> n | None \<Rightarrow> [], None)), me_empty_object = [],
       me_normalize = id, me_structured_text = id, me_blocks_text = (\<lambda>_. []), me_debug = id, me_post_form = (\<lambda>_ _ w. w) \<rparr>"

theorem mcp_gate_refuses_denied_witness:
  "handle_request sample_mcp_env sample_shadowed (Some (Admit_Deny {''Read''}))
      \<lparr> jr_version = ''2.0'', jr_id = Some [], jr_method = ''tools/call'', jr_params = Some ''Reed'' \<rparr> sample_world =
      (sample_world, Some \<lparr> rr_id = Some [],
          rr_outcome = Inl (Rpc_Error (- 32602) (''unknown tool: Reed'') (Some ''Read'')) \<rparr>)"
proof -
  have b: "built sample_shadowed" unfolding sample_shadowed_def by (intro built.intros)
  have l: "reg_lookup sample_shadowed n \<noteq> None \<longleftrightarrow> n = ''Read''" for n
    by (simp add: reg_lookup_def sample_shadowed_def register_engine_def register_io_def registry_new_def sample_reg_tool_def)
  have list: "reg_list sample_shadowed = [''Read'']"
    by (simp add: sample_shadowed_def register_io_def register_engine_def registry_new_def reg_list_def
        push_new_def sample_reg_tool_def)
  have "name_score ''Reed'' ''Read'' = Some 1" by code_simp
  then have near: "nearest_name id sample_shadowed ''Reed'' = Some ''Read''"
    by (simp add: nearest_name_def list nearest_step_def)
  have known: "reg_lookup sample_shadowed ''Read'' \<noteq> None" and unknown: "reg_lookup sample_shadowed ''Reed'' = None"
    using l [of "''Read''"] l [of "''Reed''"] by auto
  have gate: "\<not> gate_permits (Some (Admit_Deny {''Read''})) ''Read''" by (simp add: gate_permits_def)
  have p: "me_call_params sample_mcp_env (Some m) = Inr (m, None)" for m by (simp add: sample_mcp_env_def)
  have lower: "me_lower sample_mcp_env = id" by (simp add: sample_mcp_env_def)
  show ?thesis
    using mcp_gate_refuses_denied [OF b known gate p p unknown, THEN conjunct2, THEN conjunct2, of "[]" sample_world]
    unfolding lower near by simp
qed

end
