(* ===== verification/File_Tools.thy ===== *)
theory File_Tools
  imports File_Edit Rust_Text
begin

text \<open>
  The tools \<open>Read\<close>, \<open>Edit\<close> and \<open>Write\<close> (\<open>ao-engine-tools-io/src/read/mod.rs\<close>, \<open>edit/mod.rs\<close>,
  \<open>write/mod.rs\<close>, \<open>path.rs\<close>) and the snapshots they share (\<open>ao-engine-tools-core/src/read_file_state.rs\<close>).

  A path is the list of its components, as \<open>PathBuf\<close> compares them; the disk maps paths to files and
  directories with their times of modification. What the operating system may answer besides is in
  \<open>file_env\<close>: errors of each call, a write that fails after some bytes, polls of the cancellation token,
  the rendering of a notebook, the names similar to a missing one. One call of a tool is one step; the
  executor never runs an \<open>Edit\<close> or \<open>Write\<close> beside another call.
\<close>

section \<open>Paths\<close>

type_synonym path = "string list"

definition is_absolute :: "string \<Rightarrow> bool" where
  "is_absolute p \<longleftrightarrow> (case p of c # _ \<Rightarrow> c = CHR ''/'' | [] \<Rightarrow> False)"

definition path_of :: "string \<Rightarrow> path" where
  "path_of p = filter (\<lambda>c. c \<noteq> [] \<and> c \<noteq> ''.'') (split_on (CHR ''/'') p)"

definition path_join :: "string \<Rightarrow> string \<Rightarrow> string" where
  "path_join base rest =
     (if is_absolute rest then rest
      else if base = [] \<or> last base = CHR ''/'' then base @ rest
      else base @ CHR ''/'' # rest)"

definition expand_path :: "string option \<Rightarrow> string \<Rightarrow> string \<Rightarrow> string" where
  "expand_path home cwd input =
     (if input = [] then cwd
      else if input = ''~'' then (case home of Some h \<Rightarrow> h | None \<Rightarrow> path_join cwd ''~'')
      else case strip_prefix ''~/'' input of
          Some rest \<Rightarrow> (case home of Some h \<Rightarrow> path_join h rest | None \<Rightarrow> path_join cwd input)
        | None \<Rightarrow> if is_absolute input then input else path_join cwd input)"

definition expand_tilde :: "string option \<Rightarrow> string \<Rightarrow> string" where
  "expand_tilde home p =
     (if p = ''~'' \<or> strip_prefix ''~/'' p \<noteq> None
      then (case home of Some h \<Rightarrow> if p = ''~'' then h else h @ tl p | None \<Rightarrow> p)
      else p)"

definition file_name :: "path \<Rightarrow> string option" where
  "file_name p = (if p = [] \<or> last p = ''..'' then None else Some (last p))"

text \<open>\<open>Path::extension\<close>: what follows the last dot of the name, unless that dot begins it.\<close>

definition extension :: "path \<Rightarrow> string option" where
  "extension p =
     (case file_name p of
        None \<Rightarrow> None
      | Some name \<Rightarrow>
          (case rfind (CHR ''.'') name of
             None \<Rightarrow> None
           | Some i \<Rightarrow> if i = 0 then None else Some (drop (Suc i) name)))"

definition ext_is :: "string \<Rightarrow> path \<Rightarrow> bool" where
  "ext_is e p \<longleftrightarrow> (case extension p of Some x \<Rightarrow> map ascii_lower x = e | None \<Rightarrow> False)"

section \<open>The disk and the snapshots\<close>

datatype fs_node = File_Node (fn_bytes: "nat list") | Dir_Node nat

fun node_len :: "fs_node \<Rightarrow> nat" where
  "node_len (File_Node bs) = length bs"
| "node_len (Dir_Node n) = n"

record read_entry =
  sn_content :: utext
  sn_mtime :: nat
  sn_offset :: "nat option"
  sn_limit :: "nat option"
  sn_surfaced_by_read :: bool

definition is_full_read :: "read_entry \<Rightarrow> bool" where
  "is_full_read e \<longleftrightarrow> sn_offset e = None \<and> sn_limit e = None"

definition is_partial_view :: "read_entry \<Rightarrow> bool" where
  "is_partial_view e \<longleftrightarrow> \<not> is_full_read e"

record file_world =
  fw_disk :: "path \<rightharpoonup> (fs_node \<times> nat)"
  fw_snapshots :: "path \<rightharpoonup> read_entry"
  fw_now :: nat

record file_env =
  fx_home :: "string option"
  fx_cwd :: string
  fx_cancelled :: "nat \<Rightarrow> bool"
  fx_stat_error :: "path \<Rightarrow> string option"
  fx_mkdir_error :: "path \<Rightarrow> string option"
  fx_read_error :: "path \<Rightarrow> string option"
  fx_write_error :: "path \<Rightarrow> (string \<times> nat) option"
  fx_similar :: "path \<Rightarrow> string list"
  fx_notebook :: "nat list \<Rightarrow> string + utext"

definition record_snapshot :: "path \<Rightarrow> read_entry \<Rightarrow> file_world \<Rightarrow> file_world" where
  "record_snapshot p e w = w\<lparr> fw_snapshots := (fw_snapshots w)(p \<mapsto> e) \<rparr>"

datatype stat_result = Stat_Missing | Stat_Failed string | Stat_Node fs_node nat

definition stat_path :: "file_env \<Rightarrow> path \<Rightarrow> file_world \<Rightarrow> stat_result" where
  "stat_path env p w =
     (case fx_stat_error env p of
        Some e \<Rightarrow> Stat_Failed e
      | None \<Rightarrow> (case fw_disk w p of None \<Rightarrow> Stat_Missing | Some (n, t) \<Rightarrow> Stat_Node n t))"

definition is_a_directory :: string where
  "is_a_directory = ''Is a directory (os error 21)''"

definition fs_read :: "file_env \<Rightarrow> path \<Rightarrow> fs_node \<Rightarrow> string + nat list" where
  "fs_read env p n =
     (case fx_read_error env p of
        Some e \<Rightarrow> Inl e
      | None \<Rightarrow> (case n of File_Node bs \<Rightarrow> Inr bs | Dir_Node _ \<Rightarrow> Inl is_a_directory))"

text \<open>\<open>tokio::fs::write\<close>: the file is truncated and written; on an error only some of the bytes arrive.\<close>

definition fs_write :: "file_env \<Rightarrow> path \<Rightarrow> nat list \<Rightarrow> file_world \<Rightarrow> file_world \<times> string option" where
  "fs_write env p bs w =
     (case fw_disk w p of
        Some (Dir_Node n, t) \<Rightarrow> (w, Some is_a_directory)
      | _ \<Rightarrow>
          (case fx_write_error env p of
             Some (e, k) \<Rightarrow> (w\<lparr> fw_disk := (fw_disk w)(p \<mapsto> (File_Node (take k bs), fw_now w)) \<rparr>, Some e)
           | None \<Rightarrow> (w\<lparr> fw_disk := (fw_disk w)(p \<mapsto> (File_Node bs, fw_now w)) \<rparr>, None)))"

section \<open>Results\<close>

datatype file_output =
    FO_Text string
  | FO_Content utext
  | FO_Error string
  | FO_Image string "nat list"
  | FO_Document "nat list" "string option" string

fun join_with_str :: "string \<Rightarrow> string list \<Rightarrow> string" where
  "join_with_str sep [] = []"
| "join_with_str sep [x] = x"
| "join_with_str sep (x # xs) = x @ sep @ join_with_str sep xs"

text \<open>A hard error (\<open>AoError\<close>) or an output.\<close>

type_synonym file_result = "string + file_output"

text \<open>What \<open>Edit\<close> and \<open>Write\<close> do last: write, note the new time, record the snapshot.\<close>

definition write_and_record ::
  "file_env \<Rightarrow> path \<Rightarrow> utext \<Rightarrow> string \<Rightarrow> file_world \<Rightarrow> file_world \<times> file_result" where
  "write_and_record env p to_write msg w =
     (case fs_write env p (utf8_encode to_write) w of
        (w1, Some e) \<Rightarrow> (w1, Inl e)
      | (w1, None) \<Rightarrow>
          (record_snapshot p
             \<lparr> sn_content = to_write, sn_mtime = fw_now w1, sn_offset = None, sn_limit = None,
               sn_surfaced_by_read = False \<rparr> w1, Inr (FO_Text msg)))"

definition refuse :: "string \<Rightarrow> file_world \<Rightarrow> file_world \<times> file_result" where
  "refuse msg w = (w, Inr (FO_Error msg))"

definition max_edit_file_size :: nat where
  "max_edit_file_size = 2 ^ 30"

section \<open>Arguments\<close>

datatype json_arg = Arg_Missing | Arg_Bool bool | Arg_String string | Arg_Number "nat option" | Arg_Other

fun coerce_bool :: "json_arg \<Rightarrow> bool" where
  "coerce_bool (Arg_Bool b) = b"
| "coerce_bool (Arg_String s) = (map ascii_lower s \<in> {''true'', ''1''})"
| "coerce_bool (Arg_Number n) = (n = Some 1)"
| "coerce_bool _ = False"

text \<open>\<open>str::parse::<u64>\<close>: digits, after an optional plus sign, of a number below \<open>2 ^ 64\<close>.\<close>

definition digit_value :: "char \<Rightarrow> nat option" where
  "digit_value c = (let n = (of_char c :: nat) in if 48 \<le> n \<and> n \<le> 57 then Some (n - 48) else None)"

definition parse_u64 :: "string \<Rightarrow> nat option" where
  "parse_u64 s =
     (let ds = (case s of c # r \<Rightarrow> if c = CHR ''+'' then r else s | [] \<Rightarrow> s) in
      if ds = [] then None
      else case those (map digit_value ds) of
          None \<Rightarrow> None
        | Some vs \<Rightarrow> (let n = fold (\<lambda>v acc. acc * 10 + v) vs 0 in if n < 2 ^ 64 then Some n else None))"

fun coerce_usize :: "json_arg \<Rightarrow> nat option" where
  "coerce_usize (Arg_Number n) = n"
| "coerce_usize (Arg_String s) = parse_u64 (trim s)"
| "coerce_usize _ = None"

section \<open>\<open>Write\<close>\<close>

record write_input =
  wi_file_path :: "string option"
  wi_content :: "utext option"

definition write_existing ::
  "file_env \<Rightarrow> string \<Rightarrow> path \<Rightarrow> fs_node \<Rightarrow> nat \<Rightarrow> utext \<Rightarrow> file_world \<Rightarrow> file_world \<times> file_result" where
  "write_existing env shown p node current_mtime content w =
     (if max_edit_file_size < node_len node then
        refuse (''File is too large to write (size: '' @ decimal (node_len node) @ '' bytes; max: '' @
          decimal max_edit_file_size @ '' bytes). Use a different tool or split the file.'') w
      else case fw_snapshots w p of
          None \<Rightarrow> refuse ''File has not been read yet. Use the Read tool first.'' w
        | Some entry \<Rightarrow>
            if is_partial_view entry then
              refuse ''File was only partially read. Re-read the full file before writing.'' w
            else
              (let go = write_and_record env p content (''The file '' @ shown @ '' has been updated successfully.'') in
               if sn_mtime entry < current_mtime then
                 (case fs_read env p node of
                    Inl e \<Rightarrow> (w, Inl e)
                  | Inr on_disk \<Rightarrow>
                      if utf8_lossy on_disk \<noteq> sn_content entry then
                        refuse ''File has been modified since it was last read. Re-read before writing.'' w
                      else go w)
               else go w))"

definition write_tool :: "file_env \<Rightarrow> write_input \<Rightarrow> file_world \<Rightarrow> file_world \<times> file_result" where
  "write_tool env input w =
     (case wi_file_path input of
        None \<Rightarrow> refuse ''file_path is required and must be a string'' w
      | Some file_path \<Rightarrow>
          (case wi_content input of
             None \<Rightarrow> refuse ''content is required and must be a string'' w
           | Some content \<Rightarrow>
               if \<not> is_absolute file_path then
                 refuse (''file_path must be an absolute path, got relative path: '' @ file_path) w
               else
                 (let shown = expand_path (fx_home env) (fx_cwd env) file_path; p = path_of shown in
                  if fx_cancelled env 0 then (w, Inl ''cancelled'')
                  else if ext_is ''ipynb'' p then
                    refuse ''Writing Jupyter notebooks via Write is not supported. The NotebookEdit tool will land in a follow-up bucket.'' w
                  else case stat_path env p w of
                      Stat_Failed e \<Rightarrow> refuse (''failed to stat '' @ shown @ '': '' @ e) w
                    | Stat_Node node mtime \<Rightarrow> write_existing env shown p node mtime content w
                    | Stat_Missing \<Rightarrow>
                        (case fx_mkdir_error env p of
                           Some e \<Rightarrow> refuse (''Failed to create parent directory: '' @ e) w
                         | None \<Rightarrow> write_and_record env p content (''File created successfully at: '' @ shown) w))))"

section \<open>\<open>Edit\<close>\<close>

record edit_input =
  ei_file_path :: "string option"
  ei_old_string :: "utext option"
  ei_new_string :: "utext option"
  ei_replace_all :: json_arg

definition is_markdown :: "path \<Rightarrow> bool" where
  "is_markdown p \<longleftrightarrow> ext_is ''md'' p \<or> ext_is ''mdx'' p"

text \<open>The guards on the snapshot: \<open>None\<close> when they let the edit through.\<close>

definition snapshot_refusal :: "path \<Rightarrow> nat \<Rightarrow> utext \<Rightarrow> file_world \<Rightarrow> string option" where
  "snapshot_refusal p current_mtime decoded_raw w =
     (case fw_snapshots w p of
        None \<Rightarrow> Some ''File has not been read yet. Use the Read tool first.''
      | Some entry \<Rightarrow>
          if is_partial_view entry then
            Some ''File was only partially read. Re-read the full file before editing.''
          else if sn_mtime entry < current_mtime \<and> decoded_raw \<noteq> sn_content entry then
            Some ''File has been modified since it was last read. Re-read the file before editing.''
          else None)"

definition edit_failure_message :: "edit_failure \<Rightarrow> string" where
  "edit_failure_message f =
     (case f of
        String_Not_Found \<Rightarrow> ''String to replace not found in file.''
      | Several_Matches n \<Rightarrow>
          ''Found '' @ decimal n @ '' matches of the string. Either include more surrounding context to make old_string unique, or pass replace_all: true to replace all occurrences.''
      | Unreachable \<Rightarrow> ''internal error: entered unreachable code'')"

text \<open>Line endings are restored on the way out.\<close>

definition restore_crlf :: "bool \<Rightarrow> utext \<Rightarrow> utext" where
  "restore_crlf had_crlf s = (if had_crlf then lf_to_crlf s else s)"

definition edit_decoded ::
  "file_env \<Rightarrow> string \<Rightarrow> path \<Rightarrow> nat \<Rightarrow> utext \<Rightarrow> utext \<Rightarrow> utext \<Rightarrow> bool \<Rightarrow> file_world \<Rightarrow>
     file_world \<times> file_result" where
  "edit_decoded env shown p current_mtime decoded_raw old_string new_string replace_all w =
     (let had_crlf = contains_text [carriage_return, newline] decoded_raw;
          content = (if had_crlf then crlf_to_lf decoded_raw else decoded_raw) in
      if old_string = [] then
        (if \<not> blank_text content then
           refuse ''Cannot create file: file already exists. Pass a non-empty old_string to edit existing content.'' w
         else case snapshot_refusal p current_mtime decoded_raw w of
             Some msg \<Rightarrow> refuse msg w
           | None \<Rightarrow>
               write_and_record env p (restore_crlf had_crlf new_string) (''The file '' @ shown @ '' has been updated.'') w)
      else case snapshot_refusal p current_mtime decoded_raw w of
          Some msg \<Rightarrow> refuse msg w
        | None \<Rightarrow>
            (case edit_text (is_markdown p) content old_string new_string replace_all of
               Inl f \<Rightarrow> refuse (edit_failure_message f) w
             | Inr new_content_lf \<Rightarrow>
                 write_and_record env p (restore_crlf had_crlf new_content_lf)
                   (''The file '' @ shown @ '' has been updated.'' @ (if replace_all then '' (all occurrences replaced)'' else [])) w))"

definition edit_existing ::
  "file_env \<Rightarrow> string \<Rightarrow> path \<Rightarrow> fs_node \<Rightarrow> nat \<Rightarrow> utext \<Rightarrow> utext \<Rightarrow> bool \<Rightarrow> file_world \<Rightarrow>
     file_world \<times> file_result" where
  "edit_existing env shown p node current_mtime old_string new_string replace_all w =
     (if max_edit_file_size < node_len node then
        refuse (''File is too large to edit (size: '' @ decimal (node_len node) @ '' bytes; max: '' @
          decimal max_edit_file_size @ '' bytes). Use a different tool or split the file.'') w
      else if ext_is ''ipynb'' p then
        refuse ''Editing Jupyter notebooks via Edit is not supported. The NotebookEdit tool will land in a follow-up bucket.'' w
      else case fs_read env p node of
          Inl e \<Rightarrow> (w, Inl e)
        | Inr bs \<Rightarrow> edit_decoded env shown p current_mtime (decode_content bs) old_string new_string replace_all w)"

definition edit_tool :: "file_env \<Rightarrow> edit_input \<Rightarrow> file_world \<Rightarrow> file_world \<times> file_result" where
  "edit_tool env input w =
     (case (ei_file_path input, ei_old_string input, ei_new_string input) of
        (None, _, _) \<Rightarrow> refuse ''file_path is required and must be a string'' w
      | (_, None, _) \<Rightarrow> refuse ''old_string is required and must be a string'' w
      | (_, _, None) \<Rightarrow> refuse ''new_string is required and must be a string'' w
      | (Some file_path, Some old_string, Some new_string) \<Rightarrow>
          if \<not> is_absolute file_path then
            refuse (''file_path must be an absolute path, got relative path: '' @ file_path) w
          else
            (let shown = expand_path (fx_home env) (fx_cwd env) file_path; p = path_of shown in
             if old_string = new_string then
               refuse ''No changes to make: old_string and new_string are identical'' w
             else if fx_cancelled env 0 then (w, Inl ''cancelled'')
             else case stat_path env p w of
                 Stat_Failed e \<Rightarrow> refuse (''failed to stat '' @ shown @ '': '' @ e) w
               | Stat_Node node mtime \<Rightarrow>
                   edit_existing env shown p node mtime old_string new_string (coerce_bool (ei_replace_all input)) w
               | Stat_Missing \<Rightarrow>
                   if old_string = [] then
                     (case fx_mkdir_error env p of
                        Some e \<Rightarrow> refuse (''Failed to create parent directory: '' @ e) w
                      | None \<Rightarrow> write_and_record env p new_string (''File created successfully at: '' @ shown) w)
                   else refuse (''File does not exist: '' @ shown) w))"

section \<open>\<open>Read\<close>\<close>

record read_input =
  ri_file_path :: "string option"
  ri_offset :: json_arg
  ri_limit :: json_arg

definition default_limit :: nat where "default_limit = 2000"
definition max_line_length :: nat where "max_line_length = 2000"
definition cancel_poll_batch :: nat where "cancel_poll_batch = 64"
definition binary_sniff_bytes :: nat where "binary_sniff_bytes = 8 * 1024"
definition max_file_size_bytes :: nat where "max_file_size_bytes = 256 * 1024"
definition max_image_bytes :: nat where "max_image_bytes = 5 * 1024 * 1024"
definition max_pdf_bytes :: nat where "max_pdf_bytes = 16 * 1024 * 1024"
definition max_tokens :: nat where "max_tokens = 25000"

definition blocked_device_paths :: "string list" where
  "blocked_device_paths =
     [''/dev/zero'', ''/dev/random'', ''/dev/urandom'', ''/dev/stdin'', ''/dev/stdout'', ''/dev/stderr'', ''/dev/null'', ''/dev/tty'']"

definition empty_file_reminder :: string where
  "empty_file_reminder =
     ''<system-reminder>Warning: the file exists but the contents are empty.</system-reminder>''"

text \<open>The dash of the source's text is U+2014, in UTF-8.\<close>

definition file_unchanged_stub :: string where
  "file_unchanged_stub =
     ''<system-reminder>File unchanged since last read '' @ em_dash @ '' prior content still applies.</system-reminder>''"

definition line_truncation_marker :: utext where
  "line_truncation_marker = text_of ''... [line truncated]''"

definition image_media_type :: "string \<Rightarrow> string option" where
  "image_media_type e =
     (let x = map ascii_lower e in
      if x = ''png'' then Some ''image/png''
      else if x = ''jpg'' \<or> x = ''jpeg'' then Some ''image/jpeg''
      else if x = ''gif'' then Some ''image/gif''
      else if x = ''webp'' then Some ''image/webp''
      else None)"

definition is_binary :: "nat list \<Rightarrow> bool" where
  "is_binary bs \<longleftrightarrow> 0 \<in> set (take binary_sniff_bytes bs)"

text \<open>One displayed line: its number and its text, cut after \<open>max_line_length\<close> characters.\<close>

definition show_line :: "nat \<Rightarrow> nat list \<Rightarrow> utext" where
  "show_line line_no raw =
     (let raw_line = utf8_lossy (strip_line_end raw);
          line = (if max_line_length < length raw_line
                  then take max_line_length raw_line @ line_truncation_marker else raw_line) in
      [9] @ text_of (decimal line_no) @ [9] @ line)"

text \<open>The loop over the lines, from line \<open>idx\<close> on: \<open>None\<close> when the token is found cancelled. Poll 0 of the
  token comes before the file is opened.\<close>

fun read_lines ::
  "(nat \<Rightarrow> bool) \<Rightarrow> nat \<Rightarrow> nat \<Rightarrow> nat list list \<Rightarrow> nat \<Rightarrow> nat \<Rightarrow> utext \<Rightarrow> nat list \<Rightarrow> (utext \<times> nat list) option" where
  "read_lines cancelled start_idx limit lines idx emitted out raw_content =
     (if idx mod cancel_poll_batch = 0 \<and> cancelled (Suc (idx div cancel_poll_batch)) then None
      else case lines of
          [] \<Rightarrow> Some (out, raw_content)
        | line_buf # rest \<Rightarrow>
            if idx < start_idx then read_lines cancelled start_idx limit rest (Suc idx) emitted out raw_content
            else if limit \<le> emitted then Some (out, raw_content)
            else read_lines cancelled start_idx limit rest (Suc idx) (Suc emitted)
                   (out @ (if 0 < emitted then [newline] else []) @ show_line (Suc idx) line_buf)
                   (raw_content @ line_buf))"

definition snapshot_read :: "utext \<Rightarrow> nat \<Rightarrow> nat option \<Rightarrow> nat option \<Rightarrow> read_entry" where
  "snapshot_read content mtime offset limit =
     \<lparr> sn_content = content, sn_mtime = mtime, sn_offset = offset, sn_limit = limit, sn_surfaced_by_read = True \<rparr>"

definition read_media ::
  "file_env \<Rightarrow> path \<Rightarrow> fs_node \<Rightarrow> nat \<Rightarrow> nat option \<Rightarrow> nat option \<Rightarrow> (nat list \<Rightarrow> file_output) \<Rightarrow> file_world \<Rightarrow>
     file_world \<times> file_result" where
  "read_media env p node mtime offset limit output w =
     (if fx_cancelled env 0 then (w, Inl ''cancelled'')
      else case fs_read env p node of
          Inl e \<Rightarrow> (w, Inl e)
        | Inr bs \<Rightarrow> (record_snapshot p (snapshot_read [] mtime offset limit) w, Inr (output bs)))"

definition read_text ::
  "file_env \<Rightarrow> string \<Rightarrow> path \<Rightarrow> fs_node \<Rightarrow> nat \<Rightarrow> nat option \<Rightarrow> nat option \<Rightarrow> file_world \<Rightarrow>
     file_world \<times> file_result" where
  "read_text env shown p node mtime offset limit w =
     (if fx_cancelled env 0 then (w, Inl ''cancelled'')
      else case fs_read env p node of
          Inl e \<Rightarrow> (w, Inl e)
        | Inr bs \<Rightarrow>
            if is_binary bs then refuse (shown @ '' appears to be a binary file and cannot be read as text'') w
            else if ext_is ''ipynb'' p then
              (case fx_notebook env bs of
                 Inr rendered \<Rightarrow>
                   (record_snapshot p (snapshot_read rendered mtime offset limit) w, Inr (FO_Content rendered))
               | Inl e \<Rightarrow> refuse (''failed to parse '' @ shown @ '' as a Jupyter notebook: '' @ e) w)
            else
              (case read_lines (fx_cancelled env) ((case offset of Some n \<Rightarrow> n | None \<Rightarrow> 1) - 1)
                      (case limit of Some n \<Rightarrow> n | None \<Rightarrow> default_limit) (split_inclusive bs) 0 0 [] [] of
                 None \<Rightarrow> (w, Inl ''cancelled'')
               | Some (out, raw_content) \<Rightarrow>
                   if max_tokens < length out div 4 then
                     refuse (''the returned content is too large (~'' @ decimal (length out div 4) @
                       '' estimated tokens; cap is '' @ decimal max_tokens @
                       '' tokens). Use offset and limit to read a smaller slice.'') w
                   else (record_snapshot p (snapshot_read (utf8_lossy raw_content) mtime offset limit) w,
                         Inr (FO_Content out))))"

definition read_node ::
  "file_env \<Rightarrow> string \<Rightarrow> path \<Rightarrow> fs_node \<Rightarrow> nat \<Rightarrow> nat option \<Rightarrow> nat option \<Rightarrow> file_world \<Rightarrow>
     file_world \<times> file_result" where
  "read_node env shown p node mtime offset limit w =
     (if (case fw_snapshots w p of
            Some prev \<Rightarrow> sn_surfaced_by_read prev \<and> sn_mtime prev = mtime \<and> sn_offset prev = offset \<and> sn_limit prev = limit
          | None \<Rightarrow> False)
      then (w, Inr (FO_Text file_unchanged_stub))
      else if node_len node = 0 then
        (record_snapshot p (snapshot_read [] mtime None None) w, Inr (FO_Text empty_file_reminder))
      else
        (let ext = (case extension p of Some e \<Rightarrow> e | None \<Rightarrow> []) in
         case image_media_type ext of
           Some media_type \<Rightarrow>
             if max_image_bytes < node_len node then
               refuse (shown @ '' is too large to read as an image ('' @ decimal (node_len node) @ '' bytes; cap is '' @
                 decimal max_image_bytes @ '' bytes).'') w
             else read_media env p node mtime offset limit (FO_Image media_type) w
         | None \<Rightarrow>
             if ext_is ''pdf'' p then
               (if max_pdf_bytes < node_len node then
                  refuse (shown @ '' is too large to read as a PDF ('' @ decimal (node_len node) @ '' bytes; cap is '' @
                    decimal max_pdf_bytes @ '' bytes).'') w
                else read_media env p node mtime offset limit
                       (\<lambda>bs. FO_Document bs (file_name p)
                          (''Read PDF '' @ (case file_name p of Some n \<Rightarrow> n | None \<Rightarrow> ''file'') @ '' ('' @
                           decimal (node_len node) @ '' bytes).'')) w)
             else if max_file_size_bytes < node_len node then
               refuse (shown @ '' is too large to read whole ('' @ decimal (node_len node) @ '' bytes; cap is '' @
                 decimal max_file_size_bytes @ '' bytes). Use offset and limit to read a slice.'') w
             else read_text env shown p node mtime offset limit w))"

definition read_tool :: "file_env \<Rightarrow> read_input \<Rightarrow> file_world \<Rightarrow> file_world \<times> file_result" where
  "read_tool env input w =
     (case ri_file_path input of
        None \<Rightarrow> refuse ''file_path is required and must be a string'' w
      | Some raw_path \<Rightarrow>
          (let shown = expand_tilde (fx_home env) (trim raw_path); p = path_of shown;
               offset = coerce_usize (ri_offset input); limit = coerce_usize (ri_limit input) in
           if \<not> is_absolute shown then
             refuse (''file_path must be an absolute path, got relative path: '' @ shown) w
           else if shown \<in> set blocked_device_paths \<or> strip_prefix ''/dev/fd/'' shown \<noteq> None then
             refuse (''reading device or pseudo file is not allowed: '' @ shown) w
           else case stat_path env p w of
               Stat_Missing \<Rightarrow>
                 refuse (''file does not exist: '' @ shown @
                   (case fx_similar env p of [] \<Rightarrow> []
                    | names \<Rightarrow> [CHR 0x0A, CHR 0x0A] @ ''did you mean: '' @ join_with_str '', '' names @ ''?'')) w
             | Stat_Failed e \<Rightarrow> refuse (''failed to stat '' @ shown @ '': '' @ e) w
             | Stat_Node (Dir_Node _) _ \<Rightarrow>
                 refuse (shown @ '' is a directory, not a file. Use the Glob tool to enumerate directory contents.'') w
             | Stat_Node node mtime \<Rightarrow> read_node env shown p node mtime offset limit w))"

end
