(* ===== verification/File_Properties.thy ===== *)
theory File_Properties
  imports File_Tools
begin

text \<open>
  What the file tools keep: texts are valid and read back as written, an edit replaces what it names and
  nothing else, line endings come back, and no file is overwritten that was not read; and where that fails.
\<close>

section \<open>Round trips\<close>

lemma encode_scalar_lead: "scalar c \<Longrightarrow> \<exists>a bs. encode_scalar c = a # bs \<and> a \<noteq> 0xFF"
  by (auto simp: encode_scalar_def scalar_def)

lemma encode_no_bom: "scalars s \<Longrightarrow> \<not> prefix [0xFF, 0xFE] (utf8_encode s)"
proof (cases s)
  case Nil
  then show ?thesis by (simp add: utf8_encode_def)
next
  case (Cons c t)
  assume "scalars s"
  with Cons have "scalar c" by (simp add: scalars_def)
  with encode_scalar_lead [OF this] Cons show ?thesis by (auto simp: utf8_encode_def)
qed

text \<open>What \<open>Edit\<close> and \<open>Write\<close> put on the disk, both decoders read back as it was; a file's bytes survive
  decoding and encoding exactly when they are the encoding of some text.\<close>

theorem file_text_roundtrip:
  "(scalars s \<longrightarrow> utf8_lossy (utf8_encode s) = s \<and> decode_content (utf8_encode s) = s) \<and>
   (utf8_encode (utf8_lossy bs) = bs \<longleftrightarrow> (\<exists>t. scalars t \<and> bs = utf8_encode t))"
  using utf8_lossy_encode utf8_lossy_scalars [of bs] encode_no_bom
  by (auto simp: decode_content_def)

theorem file_text_roundtrip_witness:
  "scalars [0x24, 0x20AC, 0x1F600] \<and>
   decode_content (utf8_encode [0x24, 0x20AC, 0x1F600]) = [0x24, 0x20AC, 0x1F600] \<and>
   utf8_encode [0x24, 0x20AC, 0x1F600] = [0x24, 0xE2, 0x82, 0xAC, 0xF0, 0x9F, 0x98, 0x80]"
proof -
  have "scalars [0x24, 0x20AC, 0x1F600]" by (simp add: scalars_def scalar_def)
  moreover have "utf8_encode [0x24, 0x20AC, 0x1F600] = [0x24, 0xE2, 0x82, 0xAC, 0xF0, 0x9F, 0x98, 0x80]"
    by (simp add: utf8_encode_def encode_scalar_def)
  ultimately show ?thesis using file_text_roundtrip [of "[0x24, 0x20AC, 0x1F600]" "[]"] by simp
qed

section \<open>Line endings\<close>

text \<open>No line feed without a carriage return before it.\<close>

fun no_lone_lf :: "nat \<Rightarrow> utext \<Rightarrow> bool" where
  "no_lone_lf c [] \<longleftrightarrow> True"
| "no_lone_lf c (x # s) \<longleftrightarrow> (x = newline \<longrightarrow> c = carriage_return) \<and> no_lone_lf x s"

lemma newline_cr [simp]: "newline \<noteq> carriage_return" "carriage_return \<noteq> newline" "carriage_return \<noteq> 0"
  by (simp_all add: newline_def carriage_return_def)

lemma lf_to_crlf_simps [simp]:
  "lf_to_crlf [] = []"
  "lf_to_crlf (x # s) = (if x = newline then [carriage_return, newline] else [x]) @ lf_to_crlf s"
  by (simp_all add: lf_to_crlf_def replace_matches.simps [of _ _ "[]"] replace_matches.simps [of _ _ "x # s"])

lemma crlf_to_lf_simps:
  "crlf_to_lf [] = []"
  "crlf_to_lf [x] = [x]"
  "crlf_to_lf (x # y # s) =
     (if x = carriage_return \<and> y = newline then newline # crlf_to_lf s else x # crlf_to_lf (y # s))"
  by (auto simp: crlf_to_lf_def replace_matches.simps [of _ _ "[]"] replace_matches.simps [of _ _ "[x]"]
      replace_matches.simps [of _ _ "x # y # s"])

lemma crlf_roundtrip_aux:
  "c \<noteq> carriage_return \<Longrightarrow> lf_to_crlf (crlf_to_lf s) = s \<longleftrightarrow> no_lone_lf c s"
proof (induction s arbitrary: c rule: induct_list012)
  case 1
  then show ?case by (simp add: crlf_to_lf_simps)
next
  case (2 x)
  then show ?case by (auto simp: crlf_to_lf_simps)
next
  case (3 x y s)
  show ?case
  proof (cases "x = carriage_return \<and> y = newline")
    case True
    with 3(1) [of newline] show ?thesis by (simp add: crlf_to_lf_simps)
  next
    case False
    show ?thesis
    proof (cases "x = carriage_return")
      case True
      with False have "y \<noteq> newline" by simp
      with True 3(2) [of 0] show ?thesis by (auto simp: crlf_to_lf_simps)
    next
      case False
      with 3(2) [of x] 3(3) show ?thesis by (auto simp: crlf_to_lf_simps)
    qed
  qed
qed

text \<open>Taking a file's line endings to line feeds and back, as \<open>Edit\<close> does around its work on a file with
  CRLF, restores the text exactly when it has no lone line feed; an edit of a mixed file changes the others.\<close>

theorem crlf_restored_iff:
  "contains_text [carriage_return, newline] s \<Longrightarrow>
   restore_crlf True (crlf_to_lf s) = s \<longleftrightarrow> no_lone_lf 0 s"
  using crlf_roundtrip_aux [of 0 s] by (simp add: restore_crlf_def carriage_return_def)

theorem crlf_restored_iff_witness:
  "contains_text [carriage_return, newline] [97, 13, 10, 98, 10] \<and>
   restore_crlf True (crlf_to_lf [97, 13, 10, 98, 10]) \<noteq> [97, 13, 10, 98, 10] \<and>
   restore_crlf True (crlf_to_lf [97, 13, 10, 98, 13, 10]) = [97, 13, 10, 98, 13, 10]"
proof -
  have "contains_text [carriage_return, newline] [97, 13, 10, 98, 10]"
    "contains_text [carriage_return, newline] [97, 13, 10, 98, 13, 10]" by code_simp+
  then show ?thesis
    using crlf_restored_iff [of "[97, 13, 10, 98, 10]"] crlf_restored_iff [of "[97, 13, 10, 98, 13, 10]"]
    by (simp add: newline_def carriage_return_def del: contains_text_iff)
qed

section \<open>One edit\<close>

lemma find_target_SomeD:
  assumes "find_target content old new = Some (a, eo, en)"
  shows "sublist a content" "normalize_quotes a = normalize_quotes eo"
    "eo = old \<and> en = new \<or> eo = expand_sanitized_tokens old \<and> en = expand_sanitized_tokens new"
  using assms
  by (auto simp: find_target_def Let_def split: option.splits if_splits dest: find_actual_SomeD)

lemma plan_edit_contained: "plan_edit md content old new = Some (target, r) \<Longrightarrow> sublist target content"
  by (auto simp: plan_edit_def Let_def split: if_splits dest: find_target_SomeD)

lemma split_first_None: "split_first p s = None \<longleftrightarrow> \<not> sublist p s"
  by (auto simp: split_first_def find_sub_None)

text \<open>C29: An edit of one occurrence succeeds exactly when the string to replace is found and its target
  occurs once; the result is the text with the first occurrence of the target replaced. Replacing all
  succeeds whenever the string is found, and no edit reaches the code's \<open>unreachable!\<close>.\<close>

theorem edit_replaces_one:
  "(edit_text md content old new False = Inr content' \<longleftrightarrow>
      (\<exists>target r a b. plan_edit md content old new = Some (target, r) \<and> count_matches target content \<le> 1 \<and>
         split_first target content = Some (a, b) \<and> content = a @ target @ b \<and> content' = a @ r @ b)) \<and>
   (edit_text md content old new True = Inr content' \<longleftrightarrow>
      (\<exists>target r. plan_edit md content old new = Some (target, r) \<and> content' = replace_matches target r content)) \<and>
   (edit_text md content old new ra = Inl String_Not_Found \<longleftrightarrow>
      find_actual_string content old = None \<and> find_actual_string content (expand_sanitized_tokens old) = None) \<and>
   edit_text md content old new ra \<noteq> Inl Unreachable"
proof (cases "plan_edit md content old new")
  case None
  then have "find_target content old new = None" by (simp add: plan_edit_def)
  with None show ?thesis
    by (auto simp: edit_text_def find_target_def Let_def split: option.splits if_splits)
next
  case (Some tr)
  obtain target r where tr: "tr = (target, r)" by force
  with Some have "sublist target content" by (simp add: plan_edit_contained)
  then obtain a b where ab: "split_first target content = Some (a, b)"
    using split_first_None [of target content] by (cases "split_first target content") auto
  from Some have "find_target content old new \<noteq> None" by (auto simp: plan_edit_def)
  then have found: "\<not> (find_actual_string content old = None \<and> find_actual_string content (expand_sanitized_tokens old) = None)"
    by (auto simp: find_target_def Let_def split: option.splits if_splits)
  show ?thesis
    using Some tr ab split_first_Some [OF ab] found by (auto simp: edit_text_def Let_def)
qed

text \<open>The string an edit replaces is a piece of the file that equals the string asked for up to the
  shape of its quotes; it is found exactly when such a piece exists.\<close>

theorem find_actual_sound_complete:
  "(find_actual_string content old = Some a \<longrightarrow>
      sublist a content \<and> normalize_quotes a = normalize_quotes old \<and> (sublist old content \<longrightarrow> a = old)) \<and>
   (find_actual_string content old = None \<longleftrightarrow>
      (\<nexists>u. sublist u content \<and> normalize_quotes u = normalize_quotes old))"
proof (intro conjI impI)
  assume a: "find_actual_string content old = Some a"
  show "sublist a content" "normalize_quotes a = normalize_quotes old" using find_actual_SomeD [OF a] by auto
  show "a = old" if "sublist old content" using a that by (simp add: find_actual_string_def)
next
  have "(\<exists>u. sublist u content \<and> normalize_quotes u = normalize_quotes old) \<longleftrightarrow>
      sublist (normalize_quotes old) (normalize_quotes content)"
  proof
    assume "\<exists>u. sublist u content \<and> normalize_quotes u = normalize_quotes old"
    then obtain u x y where "content = x @ u @ y" "normalize_quotes u = normalize_quotes old"
      by (auto simp: sublist_def)
    then have "normalize_quotes content = normalize_quotes x @ normalize_quotes old @ normalize_quotes y"
      by (simp add: normalize_quotes_def)
    then show "sublist (normalize_quotes old) (normalize_quotes content)" by (simp add: sublist_appendI)
  next
    assume "sublist (normalize_quotes old) (normalize_quotes content)"
    then obtain x y where "map normalize_quote content = x @ normalize_quotes old @ y"
      by (auto simp: sublist_def normalize_quotes_def)
    then obtain x' u y' where "content = x' @ u @ y'" "map normalize_quote u = normalize_quotes old"
      by (auto simp: map_eq_append_conv append_eq_map_conv)
    then show "\<exists>u. sublist u content \<and> normalize_quotes u = normalize_quotes old"
      by (auto simp: normalize_quotes_def sublist_appendI)
  qed
  then show "find_actual_string content old = None \<longleftrightarrow>
      (\<nexists>u. sublist u content \<and> normalize_quotes u = normalize_quotes old)"
    by (simp add: find_actual_None_iff)
qed

text \<open>A file with a curly apostrophe, asked for with a straight one.\<close>

theorem find_actual_sound_complete_witness:
  "find_actual_string [100, 0x2019, 116, 32] [100, 0x27, 116] = Some [100, 0x2019, 116] \<and>
   normalize_quotes [100, 0x2019, 116] = normalize_quotes [100, 0x27, 116]"
proof -
  have "find_actual_string [100, 0x2019, 116, 32] [100, 0x27, 116] = Some [100, 0x2019, 116]"
    by (simp add: find_actual_string_def contains_text_def normalize_quotes_def normalize_quote_def find_sub.simps
        del: contains_text_iff)
  with find_actual_sound_complete [of "[100, 0x2019, 116, 32]" "[100, 0x27, 116]" "[100, 0x2019, 116]"]
  show ?thesis by blast
qed

text \<open>Deleting a string that is somewhere followed by a line break counts and removes only the
  occurrences that are: the guard against several matches does not see the others, and deleting all
  leaves them.\<close>

theorem deletion_counts_line_ends:
  assumes "sublist (old @ [newline]) content"
  shows "edit_text md content old [] True = Inr (replace_matches (old @ [newline]) [] content) \<and>
    (count_matches (old @ [newline]) content \<le> 1 \<longrightarrow>
      (\<exists>a b. content = a @ old @ newline # b \<and> edit_text md content old [] False = Inr (a @ b)))"
proof -
  have "sublist old content" using assms by (auto simp: sublist_def)
  then have "find_actual_string content old = Some old" by (simp add: find_actual_string_def)
  then have p: "plan_edit md content old [] = Some (old @ [newline], [])"
    using assms by (simp add: plan_edit_def find_target_def)
  then have all: "edit_text md content old [] True = Inr (replace_matches (old @ [newline]) [] content)"
    by (simp add: edit_text_def)
  obtain a b where ab: "split_first (old @ [newline]) content = Some (a, b)"
    using assms split_first_None [of "old @ [newline]" content] by (cases "split_first (old @ [newline]) content") auto
  with p split_first_Some [OF ab]
  have "\<exists>a b. content = a @ old @ newline # b \<and> edit_text md content old [] False = Inr (a @ b)"
    if "count_matches (old @ [newline]) content \<le> 1"
    using that by (auto simp: edit_text_def)
  with all show ?thesis by blast
qed

theorem deletion_counts_line_ends_witness:
  "count_matches (text_of ''x'') (text_of ''x y, x'' @ [newline]) = 2 \<and>
   (\<exists>a b. text_of ''x y, x'' @ [newline] = a @ text_of ''x'' @ newline # b \<and>
      edit_text False (text_of ''x y, x'' @ [newline]) (text_of ''x'') [] False = Inr (a @ b)) \<and>
   edit_text False (text_of ''x y, x'' @ [newline]) (text_of ''x'') [] True = Inr (text_of ''x y, '')"
proof -
  have s: "sublist (text_of ''x'' @ [newline]) (text_of ''x y, x'' @ [newline])"
    by (simp add: text_of_def sublist_Cons_right)
  have c: "count_matches (text_of ''x'' @ [newline]) (text_of ''x y, x'' @ [newline]) \<le> 1" by code_simp
  have r: "replace_matches (text_of ''x'' @ [newline]) [] (text_of ''x y, x'' @ [newline]) = text_of ''x y, ''" by code_simp
  have n: "count_matches (text_of ''x'') (text_of ''x y, x'' @ [newline]) = 2" by code_simp
  show ?thesis
    using deletion_counts_line_ends [OF s, of False] c r n by simp
qed

end
