(* ===== verification/File_Safety.thy ===== *)
theory File_Safety
  imports File_Properties
begin

text \<open>
  Runs of the file tools among changes from outside: what may be overwritten, and what a snapshot says of
  the file it is of.
\<close>

section \<open>Calls\<close>

datatype file_call = Call_Read read_input | Call_Edit edit_input | Call_Write write_input

fun run_call :: "file_env \<Rightarrow> file_call \<Rightarrow> file_world \<Rightarrow> file_world \<times> file_result" where
  "run_call env (Call_Read i) = read_tool env i"
| "run_call env (Call_Edit i) = edit_tool env i"
| "run_call env (Call_Write i) = write_tool env i"

text \<open>The file a call names.\<close>

fun call_path :: "file_env \<Rightarrow> file_call \<Rightarrow> path option" where
  "call_path env (Call_Read i) = map_option (\<lambda>s. path_of (expand_tilde (fx_home env) (trim s))) (ri_file_path i)"
| "call_path env (Call_Edit i) = map_option (\<lambda>s. path_of (expand_path (fx_home env) (fx_cwd env) s)) (ei_file_path i)"
| "call_path env (Call_Write i) = map_option (\<lambda>s. path_of (expand_path (fx_home env) (fx_cwd env) s)) (wi_file_path i)"

text \<open>What the guards let be written over: nothing, or a file that was read in full and is as old as its
  snapshot or decodes to it.\<close>

definition may_write :: "(nat list \<Rightarrow> utext) \<Rightarrow> path \<Rightarrow> file_world \<Rightarrow> bool" where
  "may_write decode p w \<longleftrightarrow>
     (case fw_disk w p of
        None \<Rightarrow> True
      | Some (node, t) \<Rightarrow>
          (\<exists>e. fw_snapshots w p = Some e \<and> is_full_read e \<and>
             (t \<le> sn_mtime e \<or> (\<exists>bs. node = File_Node bs \<and> sn_content e = decode bs))))"

lemma stat_cases:
  "stat_path env p w = Stat_Missing \<Longrightarrow> fw_disk w p = None"
  "stat_path env p w = Stat_Node n t \<Longrightarrow> fw_disk w p = Some (n, t)"
  by (auto simp: stat_path_def split: option.splits)

lemma fs_read_cases: "fs_read env p n = Inr bs \<Longrightarrow> n = File_Node bs"
  by (auto simp: fs_read_def split: option.splits fs_node.splits)

lemma write_existing_cases:
  assumes "write_existing env shown p node t content w = (w', r)" "fw_disk w p = Some (node, t)"
  shows "w' = w \<or> may_write utf8_lossy p w \<and> (\<exists>msg. (w', r) = write_and_record env p content msg w)"
proof (cases "max_edit_file_size < node_len node")
  case True
  with assms show ?thesis by (simp add: write_existing_def refuse_def)
next
  case False
  show ?thesis
  proof (cases "fw_snapshots w p")
    case None
    with assms False show ?thesis by (simp add: write_existing_def refuse_def)
  next
    case (Some e)
    let ?go = "write_and_record env p content (''The file '' @ shown @ '' has been updated successfully.'') w"
    show ?thesis
    proof (cases "is_partial_view e")
      case True
      with assms False Some show ?thesis by (simp add: write_existing_def refuse_def)
    next
      case full: False
      show ?thesis
      proof (cases "sn_mtime e < t")
        case fresh: False
        with assms False Some full have "(w', r) = ?go" by (simp add: write_existing_def Let_def)
        moreover have "may_write utf8_lossy p w"
          using assms(2) Some full fresh by (auto simp: may_write_def is_partial_view_def)
        ultimately show ?thesis by blast
      next
        case True
        show ?thesis
        proof (cases "fs_read env p node")
          case (Inl x)
          with True assms False Some full show ?thesis by (simp add: write_existing_def Let_def)
        next
          case (Inr bs)
          then have n: "node = File_Node bs" by (rule fs_read_cases)
          show ?thesis
          proof (cases "utf8_lossy bs = sn_content e")
            case same: True
            with True Inr assms False Some full have "(w', r) = ?go" by (simp add: write_existing_def Let_def)
            moreover have "may_write utf8_lossy p w"
              using assms(2) Some full same n by (auto simp: may_write_def is_partial_view_def)
            ultimately show ?thesis by blast
          next
            case differs: False
            with True Inr assms False Some full show ?thesis by (simp add: write_existing_def Let_def refuse_def)
          qed
        qed
      qed
    qed
  qed
qed

lemma write_tool_cases:
  assumes "write_tool env i w = (w', r)"
  shows "w' = w \<or> (\<exists>p content msg. call_path env (Call_Write i) = Some p \<and> wi_content i = Some content \<and>
    may_write utf8_lossy p w \<and> (w', r) = write_and_record env p content msg w)"
proof (cases "wi_file_path i")
  case None
  with assms show ?thesis by (simp add: write_tool_def refuse_def)
next
  case fp: (Some fp)
  show ?thesis
  proof (cases "wi_content i")
    case None
    with fp assms show ?thesis by (simp add: write_tool_def refuse_def)
  next
    case (Some content)
    define shown p where "shown = expand_path (fx_home env) (fx_cwd env) fp" and "p = path_of shown"
    then have cp: "call_path env (Call_Write i) = Some p" by (simp add: fp)
    show ?thesis
    proof (cases "\<not> is_absolute fp \<or> fx_cancelled env 0 \<or> ext_is ''ipynb'' p")
      case True
      with fp Some assms show ?thesis
        unfolding write_tool_def refuse_def by (auto simp flip: shown_def p_def simp: Let_def split: if_splits)
    next
      case go: False
      show ?thesis
      proof (cases "stat_path env p w")
        case Stat_Missing
        then have m: "may_write utf8_lossy p w" by (simp add: may_write_def stat_cases)
        show ?thesis
        proof (cases "fx_mkdir_error env p")
          case (Some e)
          with go fp \<open>wi_content i = Some content\<close> assms Stat_Missing show ?thesis
            unfolding write_tool_def refuse_def by (simp flip: shown_def p_def add: Let_def)
        next
          case None
          with go fp Some assms Stat_Missing
          have "(w', r) = write_and_record env p content (''File created successfully at: '' @ shown) w"
            unfolding write_tool_def by (simp flip: shown_def p_def add: Let_def)
          with m cp Some show ?thesis by blast
        qed
      next
        case (Stat_Failed x)
        with go fp Some assms show ?thesis
          unfolding write_tool_def refuse_def by (simp flip: shown_def p_def add: Let_def)
      next
        case (Stat_Node n t)
        with go fp Some assms have "write_existing env shown p n t content w = (w', r)"
          unfolding write_tool_def by (simp flip: shown_def p_def add: Let_def)
        from write_existing_cases [OF this stat_cases(2) [OF Stat_Node]] cp Some show ?thesis by blast
      qed
    qed
  qed
qed

lemma snapshot_refusal_None:
  "snapshot_refusal p t (decode bs) w = None \<Longrightarrow> fw_disk w p = Some (File_Node bs, t) \<Longrightarrow> may_write decode p w"
  by (auto simp: snapshot_refusal_def may_write_def is_partial_view_def split: option.splits if_splits)

text \<open>What an edit writes: the new string, or the edited text.\<close>

inductive edit_writes :: "bool \<Rightarrow> utext \<Rightarrow> utext \<Rightarrow> utext \<Rightarrow> bool \<Rightarrow> utext \<Rightarrow> bool" where
  whole: "edit_writes md raw old new ra (restore_crlf crlf new)"
| part: "content = raw \<or> content = crlf_to_lf raw \<Longrightarrow> edit_text md content old new ra = Inr lf \<Longrightarrow>
    edit_writes md raw old new ra (restore_crlf crlf lf)"

lemma edit_decoded_cases:
  assumes "edit_decoded env shown p t (decode_content bs) old new ra w = (w', r)" "fw_disk w p = Some (File_Node bs, t)"
  shows "w' = w \<or> may_write decode_content p w \<and>
    (\<exists>s msg. edit_writes (is_markdown p) (decode_content bs) old new ra s \<and> (w', r) = write_and_record env p s msg w)"
proof -
  define raw had_crlf content where "raw = decode_content bs"
    and "had_crlf = contains_text [carriage_return, newline] raw"
    and "content = (if had_crlf then crlf_to_lf raw else raw)"
  note d = edit_decoded_def [of env shown p t raw old new ra w, unfolded Let_def, folded had_crlf_def, folded content_def]
  have a: "edit_decoded env shown p t raw old new ra w = (w', r)" using assms(1) by (simp add: raw_def)
  show ?thesis
  proof (cases "snapshot_refusal p t raw w")
    case (Some msg)
    with a d show ?thesis by (auto simp: refuse_def split: if_splits)
  next
    case None
    then have m: "may_write decode_content p w" using assms(2) by (simp add: raw_def snapshot_refusal_None)
    show ?thesis
    proof (cases "old = []")
      case True
      show ?thesis
      proof (cases "blank_text content")
        case False
        with a d True show ?thesis by (simp add: refuse_def)
      next
        case blank: True
        with a d True None have "(w', r) = write_and_record env p (restore_crlf had_crlf new)
            (''The file '' @ shown @ '' has been updated.'') w" by simp
        with m edit_writes.whole show ?thesis unfolding raw_def by blast
      qed
    next
      case old: False
      show ?thesis
      proof (cases "edit_text (is_markdown p) content old new ra")
        case (Inl f)
        with a d old None show ?thesis by (simp add: refuse_def)
      next
        case (Inr lf)
        with a d old None have "(w', r) = write_and_record env p (restore_crlf had_crlf lf)
            (''The file '' @ shown @ '' has been updated.'' @ (if ra then '' (all occurrences replaced)'' else [])) w"
          by simp
        moreover have "edit_writes (is_markdown p) raw old new ra (restore_crlf had_crlf lf)"
          by (rule edit_writes.part [OF _ Inr]) (simp add: content_def)
        ultimately show ?thesis using m unfolding raw_def by blast
      qed
    qed
  qed
qed

lemma edit_existing_cases:
  assumes "edit_existing env shown p node t old new ra w = (w', r)" "fw_disk w p = Some (node, t)"
  shows "w' = w \<or> (\<exists>bs s msg. node = File_Node bs \<and> may_write decode_content p w \<and>
    edit_writes (is_markdown p) (decode_content bs) old new ra s \<and> (w', r) = write_and_record env p s msg w)"
proof (cases "max_edit_file_size < node_len node \<or> ext_is ''ipynb'' p")
  case True
  with assms show ?thesis by (auto simp: edit_existing_def refuse_def split: if_splits)
next
  case False
  show ?thesis
  proof (cases "fs_read env p node")
    case (Inl x)
    with False assms show ?thesis by (simp add: edit_existing_def)
  next
    case (Inr bs)
    then have n: "node = File_Node bs" by (rule fs_read_cases)
    with Inr False assms(1) have "edit_decoded env shown p t (decode_content bs) old new ra w = (w', r)"
      by (simp add: edit_existing_def)
    from edit_decoded_cases [OF this] assms(2) n show ?thesis by blast
  qed
qed

lemma edit_tool_cases:
  assumes "edit_tool env i w = (w', r)"
  shows "w' = w \<or> (\<exists>p s msg new. call_path env (Call_Edit i) = Some p \<and> ei_new_string i = Some new \<and>
    may_write decode_content p w \<and> (w', r) = write_and_record env p s msg w \<and>
    (s = new \<or> (\<exists>bs t old ra. fw_disk w p = Some (File_Node bs, t) \<and>
       edit_writes (is_markdown p) (decode_content bs) old new ra s)))"
proof (cases "ei_file_path i = None \<or> ei_old_string i = None \<or> ei_new_string i = None")
  case True
  with assms show ?thesis by (auto simp: edit_tool_def refuse_def split: option.splits)
next
  case False
  then obtain fp old new where i: "ei_file_path i = Some fp" "ei_old_string i = Some old" "ei_new_string i = Some new"
    by auto
  define shown p where "shown = expand_path (fx_home env) (fx_cwd env) fp" and "p = path_of shown"
  then have cp: "call_path env (Call_Edit i) = Some p" by (simp add: i)
  show ?thesis
  proof (cases "\<not> is_absolute fp \<or> old = new \<or> fx_cancelled env 0")
    case True
    with i assms show ?thesis
      unfolding edit_tool_def refuse_def by (auto simp flip: shown_def p_def simp: Let_def split: if_splits)
  next
    case go: False
    show ?thesis
    proof (cases "stat_path env p w")
      case Stat_Missing
      then have m: "may_write decode_content p w" by (simp add: may_write_def stat_cases)
      show ?thesis
      proof (cases "old = [] \<and> fx_mkdir_error env p = None")
        case False
        with go i assms Stat_Missing show ?thesis
          unfolding edit_tool_def refuse_def
          by (auto simp flip: shown_def p_def simp: Let_def split: option.splits if_splits)
      next
        case True
        with go i assms Stat_Missing
        have "(w', r) = write_and_record env p new (''File created successfully at: '' @ shown) w"
          unfolding edit_tool_def by (simp flip: shown_def p_def add: Let_def)
        with m cp i show ?thesis by blast
      qed
    next
      case (Stat_Failed x)
      with go i assms show ?thesis
        unfolding edit_tool_def refuse_def by (simp flip: shown_def p_def add: Let_def)
    next
      case (Stat_Node n t)
      with go i assms have "edit_existing env shown p n t old new (coerce_bool (ei_replace_all i)) w = (w', r)"
        unfolding edit_tool_def by (simp flip: shown_def p_def add: Let_def)
      from edit_existing_cases [OF this stat_cases(2) [OF Stat_Node]] cp i stat_cases(2) [OF Stat_Node]
      show ?thesis by blast
    qed
  qed
qed

end
