(* ===== verification/File_Runs.thy ===== *)
theory File_Runs
  imports File_Safety
begin

text \<open>
  What holds in every run of the file tools, among changes of the disk from outside: texts stay valid, only
  files that were read are overwritten, and what a snapshot says of its file.
\<close>

section \<open>What a read records\<close>

lemma concat_split_inclusive: "concat (split_inclusive bs) = bs"
  by (induction bs) (auto split: list.splits)

declare read_lines.simps [simp del]

lemma read_lines_raw:
  "read_lines cancelled start lim lines idx emitted out raw = Some (out', raw') \<Longrightarrow>
    raw' = raw @ concat (take (lim - emitted) (drop (start - idx) lines))"
proof (induction lines arbitrary: idx emitted out raw)
  case Nil
  then show ?case by (auto simp: read_lines.simps [of _ _ _ "[]"] split: if_splits)
next
  case (Cons l ls)
  note step = Cons.prems [unfolded read_lines.simps [of _ _ _ "l # ls"]]
  consider (skip) "idx < start" | (full) "\<not> idx < start" "lim \<le> emitted" | (emit) "\<not> idx < start" "\<not> lim \<le> emitted"
    by linarith
  then show ?case
  proof cases
    case skip
    with step have "read_lines cancelled start lim ls (Suc idx) emitted out raw = Some (out', raw')"
      by (auto split: if_splits)
    from Cons.IH [OF this] skip show ?thesis by (simp add: drop_Cons' Suc_diff_Suc)
  next
    case full
    with step show ?thesis by (auto split: if_splits)
  next
    case emit
    with step have "read_lines cancelled start lim ls (Suc idx) (Suc emitted)
        (out @ (if 0 < emitted then [newline] else []) @ show_line (Suc idx) l) (raw @ l) = Some (out', raw')"
      by (auto split: if_splits)
    from Cons.IH [OF this] emit show ?thesis
      by (simp add: Suc_diff_Suc [symmetric] take_Cons' drop_Cons')
  qed
qed

text \<open>Images, documents and notebooks are not read as text.\<close>

definition text_path :: "path \<Rightarrow> bool" where
  "text_path p \<longleftrightarrow>
     image_media_type (case extension p of Some e \<Rightarrow> e | None \<Rightarrow> []) = None \<and> \<not> ext_is ''pdf'' p \<and> \<not> ext_is ''ipynb'' p"

text \<open>The bytes of the first \<open>n\<close> lines.\<close>

definition first_lines :: "nat \<Rightarrow> nat list \<Rightarrow> nat list" where
  "first_lines n bs = concat (take n (split_inclusive bs))"

definition read_snapshot :: "file_env \<Rightarrow> path \<Rightarrow> nat list \<Rightarrow> nat \<Rightarrow> read_entry \<Rightarrow> bool" where
  "read_snapshot env p bs t e \<longleftrightarrow> sn_mtime e = t \<and> sn_surfaced_by_read e \<and>
     (sn_content e = [] \<and> (bs = [] \<or> \<not> text_path p) \<or>
      (\<exists>s. \<not> text_path p \<and> fx_notebook env bs = Inr s \<and> sn_content e = s) \<or>
      (\<exists>start n. sn_content e = utf8_lossy (concat (take n (drop start (split_inclusive bs)))) \<and>
         (is_full_read e \<longrightarrow> start = 0 \<and> n = default_limit)))"

lemma read_text_cases:
  assumes "read_text env shown p (File_Node bs) t off lim w = (w', r)"
  shows "w' = w \<or> (\<exists>e. w' = record_snapshot p e w \<and> read_snapshot env p bs t e)"
proof (cases "fx_cancelled env 0 \<or> fx_read_error env p \<noteq> None \<or> is_binary bs")
  case True
  with assms show ?thesis by (auto simp: read_text_def refuse_def fs_read_def split: option.splits if_splits)
next
  case False
  then have rd: "fs_read env p (File_Node bs) = Inr bs" by (simp add: fs_read_def)
  show ?thesis
  proof (cases "ext_is ''ipynb'' p")
    case True
    with False rd assms show ?thesis
      by (auto simp: read_text_def refuse_def read_snapshot_def snapshot_read_def text_path_def split: sum.splits)
  next
    case plain: False
    let ?start = "(case off of Some n \<Rightarrow> n | None \<Rightarrow> 1) - 1" and ?n = "case lim of Some n \<Rightarrow> n | None \<Rightarrow> default_limit"
    show ?thesis
    proof (cases "read_lines (fx_cancelled env) ?start ?n (split_inclusive bs) 0 0 [] []")
      case None
      with False rd plain assms show ?thesis by (simp add: read_text_def)
    next
      case (Some res)
      obtain out raw where o: "res = (out, raw)" by force
      with Some have raw: "raw = concat (take ?n (drop ?start (split_inclusive bs)))"
        using read_lines_raw by fastforce
      show ?thesis
      proof (cases "max_tokens < length out div 4")
        case True
        with False rd plain assms Some o show ?thesis by (simp add: read_text_def refuse_def)
      next
        case fits: False
        let ?e = "snapshot_read (utf8_lossy raw) t off lim"
        from fits False rd plain assms Some o have "w' = record_snapshot p ?e w" by (simp add: read_text_def)
        moreover have full: "is_full_read ?e \<longrightarrow> ?start = 0 \<and> ?n = default_limit"
          by (auto simp: is_full_read_def snapshot_read_def)
        have "sn_content ?e = utf8_lossy (concat (take ?n (drop ?start (split_inclusive bs))))"
          "sn_mtime ?e = t" "sn_surfaced_by_read ?e"
          by (simp_all add: snapshot_read_def raw)
        with full have "read_snapshot env p bs t ?e"
          unfolding read_snapshot_def by (intro conjI disjI2 exI [of _ ?start] exI [of _ ?n]) assumption+
        ultimately show ?thesis by blast
      qed
    qed
  qed
qed

lemma read_media_cases:
  assumes "read_media env p (File_Node bs) t off lim f w = (w', r)" "\<not> text_path p"
  shows "w' = w \<or> (\<exists>e. w' = record_snapshot p e w \<and> read_snapshot env p bs t e)"
  using assms by (auto simp: read_media_def read_snapshot_def snapshot_read_def fs_read_def split: if_splits option.splits)

lemma read_node_cases:
  assumes "read_node env shown p (File_Node bs) t off lim w = (w', r)"
  shows "w' = w \<or> (\<exists>e. w' = record_snapshot p e w \<and> read_snapshot env p bs t e)"
proof -
  let ?dup = "case fw_snapshots w p of
            Some prev \<Rightarrow> sn_surfaced_by_read prev \<and> sn_mtime prev = t \<and> sn_offset prev = off \<and> sn_limit prev = lim
          | None \<Rightarrow> False"
  let ?ext = "case extension p of Some e \<Rightarrow> e | None \<Rightarrow> []"
  note d = read_node_def [of env shown p "File_Node bs" t off lim w]
  consider (dup) ?dup | (empty) "\<not> ?dup" "bs = []" | (media) m where "\<not> ?dup" "bs \<noteq> []" "image_media_type ?ext = Some m"
    | (pdf) "\<not> ?dup" "bs \<noteq> []" "image_media_type ?ext = None" "ext_is ''pdf'' p"
    | (txtf) "\<not> ?dup" "bs \<noteq> []" "image_media_type ?ext = None" "\<not> ext_is ''pdf'' p"
    by (cases "image_media_type ?ext") auto
  then show ?thesis
  proof cases
    case dup
    with assms d show ?thesis by simp
  next
    case empty
    with assms d have "w' = record_snapshot p (snapshot_read [] t None None) w" by simp
    moreover have "read_snapshot env p bs t (snapshot_read [] t None None)"
      using empty by (simp add: read_snapshot_def snapshot_read_def)
    ultimately show ?thesis by blast
  next
    case (media m)
    show ?thesis
    proof (cases "max_image_bytes < node_len (File_Node bs)")
      case True
      with media assms d show ?thesis by (simp add: refuse_def)
    next
      case False
      with media assms d have "read_media env p (File_Node bs) t off lim (FO_Image m) w = (w', r)" by simp
      from read_media_cases [OF this] media show ?thesis by (simp add: text_path_def)
    qed
  next
    case pdf
    show ?thesis
    proof (cases "max_pdf_bytes < node_len (File_Node bs)")
      case True
      with pdf assms d show ?thesis by (simp add: refuse_def)
    next
      case False
      with pdf assms d obtain f where "read_media env p (File_Node bs) t off lim f w = (w', r)" by auto
      from read_media_cases [OF this] pdf show ?thesis by (simp add: text_path_def)
    qed
  next
    case txtf
    show ?thesis
    proof (cases "max_file_size_bytes < node_len (File_Node bs)")
      case True
      with txtf assms d show ?thesis by (simp add: refuse_def)
    next
      case False
      with txtf assms d have "read_text env shown p (File_Node bs) t off lim w = (w', r)" by simp
      then show ?thesis by (rule read_text_cases)
    qed
  qed
qed

lemma read_tool_cases:
  assumes "read_tool env i w = (w', r)"
  shows "w' = w \<or> (\<exists>p e bs t. call_path env (Call_Read i) = Some p \<and> fw_disk w p = Some (File_Node bs, t) \<and>
    w' = record_snapshot p e w \<and> read_snapshot env p bs t e)"
proof (cases "ri_file_path i")
  case None
  with assms show ?thesis by (simp add: read_tool_def refuse_def)
next
  case (Some s)
  define shown p where "shown = expand_tilde (fx_home env) (trim s)" and "p = path_of shown"
  then have cp: "call_path env (Call_Read i) = Some p" by (simp add: Some)
  note d = read_tool_def [of env i w, unfolded Some option.case Let_def, folded shown_def, folded p_def]
  show ?thesis
  proof (cases "\<not> is_absolute shown \<or> shown \<in> set blocked_device_paths \<or> strip_prefix ''/dev/fd/'' shown \<noteq> None")
    case True
    with assms d show ?thesis by (auto simp: refuse_def split: if_splits)
  next
    case go: False
    show ?thesis
    proof (cases "stat_path env p w")
      case (Stat_Node n t)
      show ?thesis
      proof (cases n)
        case (Dir_Node k)
        with go assms d Stat_Node show ?thesis by (simp add: refuse_def)
      next
        case (File_Node bs)
        with go assms d Stat_Node
        have "read_node env shown p (File_Node bs) t (coerce_usize (ri_offset i)) (coerce_usize (ri_limit i)) w = (w', r)"
          by simp
        from read_node_cases [OF this] cp stat_cases(2) [OF Stat_Node] File_Node show ?thesis by blast
      qed
    qed (use go assms d in \<open>simp_all add: refuse_def\<close>)
  qed
qed

lemma call_cases:
  assumes "run_call env c w = (w', r)"
  shows "w' = w \<or>
    (\<exists>p e bs t. call_path env c = Some p \<and> fw_disk w p = Some (File_Node bs, t) \<and> w' = record_snapshot p e w \<and>
       read_snapshot env p bs t e) \<or>
    (\<exists>p s msg. call_path env c = Some p \<and> (\<forall>i. c \<noteq> Call_Read i) \<and>
       (may_write utf8_lossy p w \<or> may_write decode_content p w) \<and> (w', r) = write_and_record env p s msg w)"
proof (cases c)
  case (Call_Read i)
  with assms read_tool_cases [of env i w w' r] show ?thesis by auto
next
  case (Call_Edit i)
  with assms have "edit_tool env i w = (w', r)" by simp
  from edit_tool_cases [OF this] show ?thesis
    unfolding Call_Edit by (elim disjE exE conjE) blast+
next
  case (Call_Write i)
  with assms have "write_tool env i w = (w', r)" by simp
  from write_tool_cases [OF this] show ?thesis
    unfolding Call_Write by (elim disjE exE conjE) blast+
qed

lemma write_and_record_world:
  "write_and_record env p s msg w = (w', r) \<Longrightarrow>
    (\<forall>q. q \<noteq> p \<longrightarrow> fw_disk w' q = fw_disk w q \<and> fw_snapshots w' q = fw_snapshots w q) \<and> fw_now w' = fw_now w"
  by (auto simp: write_and_record_def fs_write_def record_snapshot_def split: option.splits prod.splits fs_node.splits)

text \<open>C12: A call changes no file but the one it names, a \<open>Read\<close> none at all; and it changes a file that
  exists only when it was read in full before and is as old as its snapshot or still decodes to it.\<close>

theorem writes_only_read_files:
  assumes "run_call env c w = (w', r)" "fw_disk w' q \<noteq> fw_disk w q"
  shows "call_path env c = Some q \<and> (\<forall>i. c \<noteq> Call_Read i) \<and>
    (fw_disk w q = None \<or>
     (\<exists>node t e. fw_disk w q = Some (node, t) \<and> fw_snapshots w q = Some e \<and> is_full_read e \<and>
        (t \<le> sn_mtime e \<or> (\<exists>bs. node = File_Node bs \<and> (sn_content e = utf8_lossy bs \<or> sn_content e = decode_content bs)))))"
proof -
  from call_cases [OF assms(1)] assms(2)
  obtain p s msg where p: "call_path env c = Some p" "\<forall>i. c \<noteq> Call_Read i"
      "may_write utf8_lossy p w \<or> may_write decode_content p w" "(w', r) = write_and_record env p s msg w"
    by (auto simp: record_snapshot_def)
  from write_and_record_world [OF p(4) [symmetric]] assms(2) have "q = p" by auto
  with p show ?thesis by (auto simp: may_write_def split: option.splits)
qed

definition sample_file_env :: file_env where
  "sample_file_env =
     \<lparr> fx_home = None, fx_cwd = ''/w'', fx_cancelled = (\<lambda>_. False), fx_stat_error = (\<lambda>_. None),
       fx_mkdir_error = (\<lambda>_. None), fx_read_error = (\<lambda>_. None), fx_write_error = (\<lambda>_. None),
       fx_similar = (\<lambda>_. []), fx_notebook = (\<lambda>_. Inl []) \<rparr>"

definition empty_world :: file_world where
  "empty_world = \<lparr> fw_disk = Map.empty, fw_snapshots = Map.empty, fw_now = 0 \<rparr>"

lemma write_new_file:
  "write_tool sample_file_env \<lparr> wi_file_path = Some ''/w/a'', wi_content = Some s \<rparr> empty_world =
     (\<lparr> fw_disk = [[''w'', ''a''] \<mapsto> (File_Node (utf8_encode s), 0)],
        fw_snapshots = [[''w'', ''a''] \<mapsto> \<lparr> sn_content = s, sn_mtime = 0, sn_offset = None, sn_limit = None,
          sn_surfaced_by_read = False \<rparr>], fw_now = 0 \<rparr>, Inr (FO_Text ''File created successfully at: /w/a''))"
proof -
  have p: "path_of ''/w/a'' = [''w'', ''a'']" by code_simp
  have x: "\<not> ext_is ''ipynb'' [''w'', ''a'']" by code_simp
  show ?thesis
    by (simp add: write_tool_def sample_file_env_def is_absolute_def expand_path_def Let_def p x stat_path_def
        empty_world_def write_and_record_def fs_write_def record_snapshot_def)
qed

theorem writes_only_read_files_witness:
  "\<exists>w'. fw_disk (fst (run_call sample_file_env (Call_Write \<lparr> wi_file_path = Some ''/w/a'', wi_content = Some [97] \<rparr>) empty_world)) [''w'', ''a''] \<noteq>
     fw_disk empty_world [''w'', ''a''] \<and> fw_disk empty_world [''w'', ''a''] = None \<and> w' = empty_world"
proof -
  let ?c = "Call_Write \<lparr> wi_file_path = Some ''/w/a'', wi_content = Some [97] \<rparr>"
  obtain w' r where c: "run_call sample_file_env ?c empty_world = (w', r)" by force
  with write_new_file [of "[97]"] have d: "fw_disk w' [''w'', ''a''] \<noteq> fw_disk empty_world [''w'', ''a'']"
    by (auto simp: empty_world_def)
  with writes_only_read_files [OF c d] c show ?thesis by (auto simp: empty_world_def)
qed

section \<open>Valid texts\<close>

lemma scalars_iff: "scalars s \<longleftrightarrow> (\<forall>c\<in>set s. scalar c)"
  by (simp add: scalars_def list_all_iff)

lemma set_replace_matches: "set (replace_matches p r s) \<subseteq> set r \<union> set s"
proof (induction p r s rule: replace_matches.induct)
  case (1 p r s)
  show ?case
  proof (cases "p = [] \<or> s = []")
    case True
    then show ?thesis by (simp add: replace_matches.simps [of p r s])
  next
    case False
    show ?thesis
    proof (cases "prefix p s")
      case True
      with 1(1) False have "set (replace_matches p r (drop (length p) s)) \<subseteq> set r \<union> set (drop (length p) s)" by simp
      with False True set_drop_subset [of "length p" s] show ?thesis
        by (auto simp: replace_matches.simps [of p r s])
    next
      case no: False
      with 1(2) False have "set (replace_matches p r (tl s)) \<subseteq> set r \<union> set (tl s)" by simp
      with False no list.set_sel(1) [of s] list.set_sel(2) [of s] show ?thesis
        by (auto simp: replace_matches.simps [of p r s])
    qed
  qed
qed

lemma scalars_replace: "scalars r \<Longrightarrow> scalars s \<Longrightarrow> scalars (replace_matches p r s)"
  using set_replace_matches [of p r s] by (auto simp: scalars_iff)

lemma scalars_newline [simp]: "scalars [newline]" "scalars [carriage_return, newline]"
  by (simp_all add: scalars_def scalar_def newline_def carriage_return_def)

lemma scalars_expand: "scalars s \<Longrightarrow> scalars (expand_sanitized_tokens s)"
proof -
  assume s: "scalars s"
  have "scalars (fold (\<lambda>(a, b) result. if contains_text a result then replace_matches a b result else result) ps s)"
    if "list_all (\<lambda>(a, b). scalars b) ps" for ps
    using that s by (induction ps arbitrary: s) (auto simp: scalars_replace)
  moreover have "list_all (\<lambda>(a, b). scalars b) expansions"
    unfolding expansions_def text_of_def scalars_def scalar_def by simp
  ultimately show ?thesis by (simp add: expand_sanitized_tokens_def)
qed

lemma ran_quote_map: "quote_map a b c = Some d \<Longrightarrow> d \<in> set b"
proof -
  have "\<forall>c d. fold (\<lambda>(o_ch, a_ch) m. if o_ch \<noteq> a_ch then m(o_ch \<mapsto> a_ch) else m) ps m c = Some d \<longrightarrow>
      d \<in> snd ` set ps \<union> ran m" for ps :: "(nat \<times> nat) list" and m
  proof (induction ps arbitrary: m)
    case Nil
    then show ?case by (auto simp: ran_def)
  next
    case (Cons p ps)
    then show ?case by (cases p) (fastforce simp: ran_def split: if_splits)
  qed
  from this [of "zip a b" Map.empty]
  have "quote_map a b c = Some d \<Longrightarrow> d \<in> snd ` set (zip a b)" by (simp add: quote_map_def)
  then show "quote_map a b c = Some d \<Longrightarrow> d \<in> set b" by (auto dest: set_zip_rightD)
qed

lemma scalars_preserve: "scalars actual \<Longrightarrow> scalars new \<Longrightarrow> scalars (preserve_quote_style old actual new)"
  by (auto simp: preserve_quote_style_def scalars_iff dest: ran_quote_map split: option.splits)

lemma set_join_lines: "set (join_lines ls) \<subseteq> insert newline (\<Union>(set ` set ls))"
  by (induction ls rule: join_lines.induct) auto

lemma scalars_strip: "scalars s \<Longrightarrow> scalars (strip_trailing_whitespace s)"
proof -
  assume s: "scalars s"
  have pieces: "set l \<subseteq> set s" if "l \<in> set (split_inclusive s)" for l
    using that concat_split_inclusive [of s] by (metis UN_upper set_concat)
  have "set (trim_end_text x) \<subseteq> set x" for x
    using set_dropWhileD [of _ is_whitespace "rev x"] by (auto simp: trim_end_text_def)
  moreover have "set (strip_line_end l) \<subseteq> set l" for l
    by (auto simp: strip_line_end_def dest: in_set_takeD)
  ultimately have "set (trim_end_text (strip_line_end l)) \<subseteq> set l" for l by blast
  with pieces have "set (join_lines (map trim_end_text (str_lines s))) \<subseteq> insert newline (set s)"
    using set_join_lines [of "map trim_end_text (str_lines s)"] by (fastforce simp: str_lines_def)
  with s scalars_newline(1) show ?thesis
    by (auto simp: strip_trailing_whitespace_def scalars_iff)
qed

lemma scalars_edit_text:
  assumes "edit_text md content old new ra = Inr s" "scalars content" "scalars new"
  shows "scalars s"
proof -
  from assms(1) obtain target r where p: "plan_edit md content old new = Some (target, r)"
    by (auto simp: edit_text_def split: option.splits)
  then obtain a eo en where f: "find_target content old new = Some (a, eo, en)" by (auto simp: plan_edit_def)
  note d = find_target_SomeD [OF f]
  have "scalars a" using d(1) assms(2) set_mono_sublist by (fastforce simp: scalars_iff)
  moreover have "scalars en" using d(3) assms(3) scalars_expand by auto
  ultimately have r: "scalars r"
    using p f by (auto simp: plan_edit_def Let_def scalars_preserve scalars_strip scalars_def [of "[]"] split: if_splits)
  have "s = replace_matches target r content \<or> (\<exists>u v. content = u @ target @ v \<and> s = u @ r @ v)"
    using assms(1) p by (auto simp: edit_text_def Let_def split: if_splits option.splits dest!: split_first_Some)
  then show ?thesis
  proof (elim disjE exE conjE)
    assume "s = replace_matches target r content"
    with r assms(2) show ?thesis by (simp add: scalars_replace)
  next
    fix u v
    assume "content = u @ target @ v" "s = u @ r @ v"
    with r assms(2) show ?thesis by (auto simp: scalars_iff)
  qed
qed

lemma scalars_restore: "scalars s \<Longrightarrow> scalars (restore_crlf c s)"
  by (simp add: restore_crlf_def lf_to_crlf_def scalars_replace)

lemma scalars_decode: "bytes bs \<Longrightarrow> scalars (decode_content bs)"
proof -
  assume "bytes bs"
  then have "bytes (drop 2 bs)" by (auto simp: bytes_def list_all_iff dest: in_set_dropD)
  then show ?thesis by (simp add: decode_content_def utf8_lossy_scalars utf16_scalars le_units_bound)
qed

lemma scalars_edit_writes: "edit_writes md raw old new ra s \<Longrightarrow> scalars raw \<Longrightarrow> scalars new \<Longrightarrow> scalars s"
proof (induction rule: edit_writes.induct)
  case (whole md raw old new ra crlf)
  then show ?case by (simp add: scalars_restore)
next
  case (part content raw md old new ra lf crlf)
  then have "scalars content" by (auto simp: crlf_to_lf_def scalars_replace)
  with part scalars_edit_text show ?case by (blast intro: scalars_restore)
qed

definition valid_world :: "file_world \<Rightarrow> bool" where
  "valid_world w \<longleftrightarrow> (\<forall>p bs t. fw_disk w p = Some (File_Node bs, t) \<longrightarrow> bytes bs) \<and>
     (\<forall>p e. fw_snapshots w p = Some e \<longrightarrow> scalars (sn_content e))"

definition valid_env :: "file_env \<Rightarrow> bool" where
  "valid_env env \<longleftrightarrow> (\<forall>bs s. fx_notebook env bs = Inr s \<longrightarrow> scalars s)"

fun valid_call :: "file_call \<Rightarrow> bool" where
  "valid_call (Call_Read i) = True"
| "valid_call (Call_Edit i) = (\<forall>s. ei_new_string i = Some s \<longrightarrow> scalars s)"
| "valid_call (Call_Write i) = (\<forall>s. wi_content i = Some s \<longrightarrow> scalars s)"

lemma bytes_take: "bytes bs \<Longrightarrow> bytes (take k bs)"
  by (auto simp: bytes_def list_all_iff dest: in_set_takeD)

lemma valid_disk: "valid_world w \<Longrightarrow> fw_disk w p = Some (File_Node bs, t) \<Longrightarrow> bytes bs"
  by (auto simp: valid_world_def)

lemma valid_snapshots: "valid_world w \<Longrightarrow> fw_snapshots w p = Some e \<Longrightarrow> scalars (sn_content e)"
  by (auto simp: valid_world_def)

lemma valid_worldI:
  "(\<And>p bs t. fw_disk w p = Some (File_Node bs, t) \<Longrightarrow> bytes bs) \<Longrightarrow>
   (\<And>p e. fw_snapshots w p = Some e \<Longrightarrow> scalars (sn_content e)) \<Longrightarrow> valid_world w"
  unfolding valid_world_def by blast

lemma valid_put:
  assumes "valid_world w" "bytes bs"
  shows "valid_world (w\<lparr> fw_disk := (fw_disk w)(p \<mapsto> (File_Node bs, t)) \<rparr>)"
proof (rule valid_worldI)
  fix q bs' t'
  assume "fw_disk (w\<lparr> fw_disk := (fw_disk w)(p \<mapsto> (File_Node bs, t)) \<rparr>) q = Some (File_Node bs', t')"
  with assms valid_disk [OF assms(1), of q] show "bytes bs'" by (cases "q = p") auto
qed (use valid_snapshots [OF assms(1)] in simp)

lemma valid_record:
  assumes "valid_world w" "scalars (sn_content e)"
  shows "valid_world (record_snapshot p e w)"
proof (rule valid_worldI)
  fix q e'
  assume "fw_snapshots (record_snapshot p e w) q = Some e'"
  with assms valid_snapshots [OF assms(1), of q] show "scalars (sn_content e')"
    by (cases "q = p") (auto simp: record_snapshot_def)
qed (use valid_disk [OF assms(1)] in \<open>simp add: record_snapshot_def\<close>)

lemma valid_write_and_record:
  "write_and_record env p s msg w = (w', r) \<Longrightarrow> valid_world w \<Longrightarrow> scalars s \<Longrightarrow> valid_world w'"
  by (auto simp: write_and_record_def fs_write_def encode_bytes bytes_take valid_put
      split: option.splits prod.splits fs_node.splits intro!: valid_record)

lemma call_writes_scalars:
  assumes "run_call env c w = (w', r)" "valid_world w" "valid_call c"
  shows "w' = w \<or>
    (\<exists>p e bs t. call_path env c = Some p \<and> fw_disk w p = Some (File_Node bs, t) \<and> w' = record_snapshot p e w \<and>
       read_snapshot env p bs t e) \<or>
    (\<exists>p s msg. call_path env c = Some p \<and> scalars s \<and> (w', r) = write_and_record env p s msg w)"
proof (cases c)
  case (Call_Read i)
  with assms read_tool_cases [of env i w w' r] show ?thesis by auto
next
  case (Call_Edit i)
  with assms have "edit_tool env i w = (w', r)" by simp
  from edit_tool_cases [OF this] show ?thesis
  proof (elim disjE exE conjE)
    fix p s msg new bs t old ra
    assume s: "call_path env (Call_Edit i) = Some p" "ei_new_string i = Some new"
      "(w', r) = write_and_record env p s msg w" "fw_disk w p = Some (File_Node bs, t)"
      "edit_writes (is_markdown p) (decode_content bs) old new ra s"
    then have "scalars new" using assms(3) Call_Edit by simp
    with s have "scalars s"
      using scalars_edit_writes scalars_decode [OF valid_disk [OF assms(2) s(4)]] by blast
    with s Call_Edit show ?thesis by blast
  next
    fix p s msg new
    assume s: "call_path env (Call_Edit i) = Some p" "ei_new_string i = Some new"
      "(w', r) = write_and_record env p s msg w" "s = new"
    then have "scalars s" using assms(3) Call_Edit by simp
    with s Call_Edit show ?thesis by blast
  qed simp
next
  case (Call_Write i)
  with assms have "write_tool env i w = (w', r)" by simp
  from write_tool_cases [OF this] show ?thesis
  proof (elim disjE exE conjE)
    fix p content msg
    assume s: "call_path env (Call_Write i) = Some p" "wi_content i = Some content"
      "(w', r) = write_and_record env p content msg w"
    then have "scalars content" using assms(3) Call_Write by simp
    with s Call_Write show ?thesis by blast
  qed simp
qed

lemma read_snapshot_scalars:
  "read_snapshot env p bs t e \<Longrightarrow> valid_env env \<Longrightarrow> scalars (sn_content e)"
  by (auto simp: read_snapshot_def valid_env_def utf8_lossy_scalars scalars_def [of "[]"])

lemma valid_run_call:
  assumes "valid_world w" "valid_env env" "valid_call c"
  shows "valid_world (fst (run_call env c w))"
proof -
  obtain w' r where c: "run_call env c w = (w', r)" by force
  from call_writes_scalars [OF c assms(1,3)] have "valid_world w'"
  proof (elim disjE exE conjE)
    fix p e bs t
    assume "w' = record_snapshot p e w" "read_snapshot env p bs t e"
    with assms read_snapshot_scalars valid_record show ?thesis by simp
  next
    fix p s msg
    assume "scalars s" "(w', r) = write_and_record env p s msg w"
    with assms valid_write_and_record show ?thesis by metis
  qed (use assms in simp)
  with c show ?thesis by simp
qed

section \<open>Runs\<close>

text \<open>A file whose snapshot is not older than it: its time of modification does not say that it changed.\<close>

definition looks_unchanged :: "file_world \<Rightarrow> path \<Rightarrow> bool" where
  "looks_unchanged w p \<longleftrightarrow>
     (\<exists>n t e. fw_disk w p = Some (n, t) \<and> fw_snapshots w p = Some e \<and> t \<le> sn_mtime e)"

text \<open>
  The files that changed unnoticed: \<open>S\<close> before a step from \<open>w\<close> to \<open>w'\<close>. One joins when the step changes it, not as a
  completed write of a tool (\<open>blind\<close>), and it still looks unchanged; one leaves when it changes again or gets a new
  snapshot.
\<close>

definition unnoticed :: "(path \<Rightarrow> bool) \<Rightarrow> file_world \<Rightarrow> file_world \<Rightarrow> path set \<Rightarrow> path set" where
  "unnoticed blind w w' S =
     {p. if fw_disk w' p \<noteq> fw_disk w p then blind p \<and> looks_unchanged w' p
         else p \<in> S \<and> fw_snapshots w' p = fw_snapshots w p}"

text \<open>
  The steps of a run: a call, whose write may fail half-way, and a change of a file from outside, which may
  remove it, give it any content and any time of modification, and set the clock.
\<close>

inductive file_run :: "file_world \<Rightarrow> path set \<Rightarrow> bool" where
  start: "valid_world w \<Longrightarrow> fw_snapshots w = Map.empty \<Longrightarrow> file_run w {}"
| call: "file_run w S \<Longrightarrow> valid_env env \<Longrightarrow> valid_call c \<Longrightarrow> run_call env c w = (w', r) \<Longrightarrow>
    file_run w' (unnoticed (\<lambda>p. fx_write_error env p \<noteq> None) w w' S)"
| outside: "file_run w S \<Longrightarrow> (\<forall>bs t. d = Some (File_Node bs, t) \<longrightarrow> bytes bs) \<Longrightarrow>
    w' = w\<lparr> fw_disk := (fw_disk w)(p := d), fw_now := now \<rparr> \<Longrightarrow>
    file_run w' (unnoticed (\<lambda>_. True) w w' S)"

text \<open>What a full snapshot no older than its text file says: the whole text, or what a read without
  limits showed, its first lines.\<close>

definition true_snapshot :: "read_entry \<Rightarrow> nat list \<Rightarrow> bool" where
  "true_snapshot e bs \<longleftrightarrow>
     (if sn_surfaced_by_read e then sn_content e = utf8_lossy (first_lines default_limit bs)
      else bs = utf8_encode (sn_content e))"

definition snapshots_true :: "file_world \<Rightarrow> path set \<Rightarrow> bool" where
  "snapshots_true w S \<longleftrightarrow>
     (\<forall>p e bs t. p \<notin> S \<longrightarrow> text_path p \<longrightarrow> fw_snapshots w p = Some e \<longrightarrow> is_full_read e \<longrightarrow>
        fw_disk w p = Some (File_Node bs, t) \<longrightarrow> t \<le> sn_mtime e \<longrightarrow> true_snapshot e bs)"

lemma snapshots_trueD:
  "snapshots_true w S \<Longrightarrow> p \<notin> S \<Longrightarrow> text_path p \<Longrightarrow> fw_snapshots w p = Some e \<Longrightarrow> is_full_read e \<Longrightarrow>
    fw_disk w p = Some (File_Node bs, t) \<Longrightarrow> t \<le> sn_mtime e \<Longrightarrow> true_snapshot e bs"
  unfolding snapshots_true_def by blast

text \<open>A path the step neither changes nor records keeps what is known of it.\<close>

lemma snapshots_true_step:
  assumes w: "snapshots_true w S"
    and p: "\<And>p e bs t. \<lbrakk>p \<notin> unnoticed blind w w' S; text_path p; fw_snapshots w' p = Some e; is_full_read e;
      fw_disk w' p = Some (File_Node bs, t); t \<le> sn_mtime e;
      fw_disk w' p \<noteq> fw_disk w p \<or> fw_snapshots w' p \<noteq> fw_snapshots w p\<rbrakk> \<Longrightarrow> true_snapshot e bs"
  shows "snapshots_true w' (unnoticed blind w w' S)"
  unfolding snapshots_true_def
proof (intro allI impI)
  fix p e bs t
  assume a: "p \<notin> unnoticed blind w w' S" "text_path p" "fw_snapshots w' p = Some e" "is_full_read e"
    "fw_disk w' p = Some (File_Node bs, t)" "t \<le> sn_mtime e"
  show "true_snapshot e bs"
  proof (cases "fw_disk w' p \<noteq> fw_disk w p \<or> fw_snapshots w' p \<noteq> fw_snapshots w p")
    case True
    with p a show ?thesis by blast
  next
    case False
    with a have "p \<notin> S" by (auto simp: unnoticed_def)
    with False a show ?thesis using snapshots_trueD [OF w, of p e bs t] by simp
  qed
qed

lemma read_snapshot_true:
  assumes "read_snapshot env p bs t e" "is_full_read e" "text_path p"
  shows "true_snapshot e bs"
  using assms by (auto simp: read_snapshot_def true_snapshot_def first_lines_def)

lemma record_true:
  assumes "snapshots_true w S" "fw_disk w p = Some (File_Node bs, t)" "read_snapshot env p bs t e"
  shows "snapshots_true (record_snapshot p e w) (unnoticed blind w (record_snapshot p e w) S)"
proof (rule snapshots_true_step [OF assms(1)])
  fix q e' bs' t'
  assume q: "text_path q" "fw_snapshots (record_snapshot p e w) q = Some e'" "is_full_read e'"
    "fw_disk (record_snapshot p e w) q = Some (File_Node bs', t')"
    "fw_disk (record_snapshot p e w) q \<noteq> fw_disk w q \<or>
       fw_snapshots (record_snapshot p e w) q \<noteq> fw_snapshots w q"
  then have "q = p" by (auto simp: record_snapshot_def split: if_splits)
  with q assms(2) have "e' = e" "bs' = bs" by (auto simp: record_snapshot_def)
  with q assms(3) \<open>q = p\<close> read_snapshot_true show "true_snapshot e' bs'" by blast
qed

lemma write_true:
  assumes w: "snapshots_true w S" and r: "(w', r) = write_and_record env p s msg w"
  shows "snapshots_true w' (unnoticed (\<lambda>q. fx_write_error env q \<noteq> None) w w' S)"
proof (rule snapshots_true_step [OF w])
  fix q e bs t
  assume q: "q \<notin> unnoticed (\<lambda>q. fx_write_error env q \<noteq> None) w w' S" "fw_snapshots w' q = Some e"
    "fw_disk w' q = Some (File_Node bs, t)" "t \<le> sn_mtime e"
    "fw_disk w' q \<noteq> fw_disk w q \<or> fw_snapshots w' q \<noteq> fw_snapshots w q"
  from write_and_record_world [OF r [symmetric]] q(5) have p: "q = p" by blast
  from q(2-4) have look: "looks_unchanged w' q" by (auto simp: looks_unchanged_def)
  show "true_snapshot e bs"
  proof (cases "fx_write_error env p")
    case None
    with r q(2,3,5) p show ?thesis
      by (auto simp: write_and_record_def fs_write_def record_snapshot_def true_snapshot_def
          split: option.splits prod.splits fs_node.splits if_splits)
  next
    case (Some f)
    with r have "fw_snapshots w' = fw_snapshots w"
      by (auto simp: write_and_record_def fs_write_def split: option.splits prod.splits fs_node.splits)
    with q(5) have "fw_disk w' q \<noteq> fw_disk w q" by simp
    with q(1) look Some p show ?thesis by (simp add: unnoticed_def)
  qed
qed

lemma outside_true:
  assumes "snapshots_true w S" "w' = w\<lparr> fw_disk := (fw_disk w)(p := d), fw_now := now \<rparr>"
  shows "snapshots_true w' (unnoticed (\<lambda>_. True) w w' S)"
proof (rule snapshots_true_step [OF assms(1)])
  fix q e bs t
  assume q: "q \<notin> unnoticed (\<lambda>_. True) w w' S" "fw_snapshots w' q = Some e"
    "fw_disk w' q = Some (File_Node bs, t)" "t \<le> sn_mtime e"
    "fw_disk w' q \<noteq> fw_disk w q \<or> fw_snapshots w' q \<noteq> fw_snapshots w q"
  then have "looks_unchanged w' q" by (auto simp: looks_unchanged_def)
  with q(1,5) show "true_snapshot e bs" by (auto simp: unnoticed_def assms(2))
qed

lemma call_true:
  assumes "snapshots_true w S" "run_call env c w = (w', r)"
  shows "snapshots_true w' (unnoticed (\<lambda>q. fx_write_error env q \<noteq> None) w w' S)"
  using call_cases [OF assms(2)]
proof (elim disjE exE conjE)
  assume "w' = w"
  then show ?thesis by (auto intro: snapshots_true_step [OF assms(1)])
next
  fix p e bs t
  assume "fw_disk w p = Some (File_Node bs, t)" "w' = record_snapshot p e w" "read_snapshot env p bs t e"
  with record_true [OF assms(1)] show ?thesis by blast
next
  fix p s msg
  assume "(w', r) = write_and_record env p s msg w"
  then show ?thesis by (rule write_true [OF assms(1)])
next
  fix p s msg
  assume "(w', r) = write_and_record env p s msg w"
  then show ?thesis by (rule write_true [OF assms(1)])
qed

lemma run_invariant: "file_run w S \<Longrightarrow> valid_world w \<and> snapshots_true w S"
proof (induction rule: file_run.induct)
  case (start w)
  then show ?case by (simp add: snapshots_true_def)
next
  case (call w S env c w' r)
  with valid_run_call [of w env c] call_true show ?case by simp
next
  case (outside w S d w' now p)
  then have v: "valid_world w" by simp
  have "valid_world w'"
  proof (rule valid_worldI)
    fix q bs t
    assume "fw_disk w' q = Some (File_Node bs, t)"
    with outside valid_disk [OF v, of q] show "bytes bs" by (cases "q = p") auto
  qed (use outside valid_snapshots [OF v] in simp)
  with outside outside_true show ?case by blast
qed

lemma first_lines_all: "length (split_inclusive bs) \<le> n \<Longrightarrow> first_lines n bs = bs"
  by (simp add: first_lines_def concat_split_inclusive)

text \<open>C14: In every run of the tools, with files changing between their calls in any way, a call that changes an existing
  text file finds a full snapshot of it that is the file's current text, or, after a read without limits of a longer
  file, its first 2000 lines; or the file changed since under a time of modification not past the snapshot's (an older
  file moved over it, a tool's own write that failed half-way in the same instant), which the tools do not notice.\<close>

theorem no_unseen_overwrite:
  assumes "file_run w S" "run_call env c w = (w', r)" "text_path p"
    and "fw_disk w p = Some (File_Node bs, t)" "fw_disk w' p \<noteq> fw_disk w p"
  shows "\<exists>e. fw_snapshots w p = Some e \<and> is_full_read e \<and>
    (sn_content e = utf8_lossy bs \<or> sn_content e = decode_content bs \<or>
     2000 < length (split_inclusive bs) \<and> sn_surfaced_by_read e \<and> sn_content e = utf8_lossy (first_lines 2000 bs) \<or>
     p \<in> S \<and> t \<le> sn_mtime e)"
proof -
  note i = run_invariant [OF assms(1)]
  from call_cases [OF assms(2)] assms(5)
  obtain q s msg where q: "may_write utf8_lossy q w \<or> may_write decode_content q w"
    "(w', r) = write_and_record env q s msg w"
    by (auto simp: record_snapshot_def)
  with write_and_record_world [OF q(2) [symmetric]] assms(5) have "q = p" by auto
  with q assms(4) obtain e where e: "fw_snapshots w p = Some e" "is_full_read e"
    "t \<le> sn_mtime e \<or> sn_content e = utf8_lossy bs \<or> sn_content e = decode_content bs"
    by (auto simp: may_write_def)
  show ?thesis
  proof (cases "sn_content e = utf8_lossy bs \<or> sn_content e = decode_content bs \<or> p \<in> S")
    case True
    with e show ?thesis by blast
  next
    case False
    with e have "t \<le> sn_mtime e" by simp
    with i e False assms(3,4) snapshots_trueD have ts: "true_snapshot e bs" by blast
    have "scalars (sn_content e)" using i e(1) valid_snapshots by blast
    then have "sn_surfaced_by_read e"
      using ts False utf8_lossy_encode by (auto simp: true_snapshot_def split: if_splits)
    with ts False first_lines_all [of bs default_limit] show ?thesis
      using e by (force simp: true_snapshot_def default_limit_def)
  qed
qed

theorem no_unseen_overwrite_witness:
  "\<exists>w e. file_run w {} \<and> fw_disk w [''w'', ''a''] = Some (File_Node [97], 0) \<and>
     fw_snapshots w [''w'', ''a''] = Some e \<and> is_full_read e \<and>
     (sn_content e = utf8_lossy [97] \<or> sn_content e = decode_content [97] \<or> 2000 < length (split_inclusive [97::nat]))"
proof -
  let ?c = "\<lambda>s. Call_Write \<lparr> wi_file_path = Some ''/w/a'', wi_content = Some s \<rparr>"
  define w where "w = fst (run_call sample_file_env (?c [97]) empty_world)"
  have enc: "utf8_encode [97] = [97]" "utf8_encode [98] = [98]" by (simp_all add: utf8_encode_def encode_scalar_def)
  have w: "w = \<lparr> fw_disk = [[''w'', ''a''] \<mapsto> (File_Node [97], 0)],
        fw_snapshots = [[''w'', ''a''] \<mapsto> \<lparr> sn_content = [97], sn_mtime = 0, sn_offset = None, sn_limit = None,
          sn_surfaced_by_read = False \<rparr>], fw_now = 0 \<rparr>"
    by (simp add: w_def write_new_file enc)
  have "file_run w (unnoticed (\<lambda>p. fx_write_error sample_file_env p \<noteq> None) empty_world w {})"
    by (rule file_run.call [where c = "?c [97]"], rule file_run.start, unfold w_def, rule_tac [5] prod.collapse [symmetric])
       (simp_all add: valid_world_def empty_world_def valid_env_def sample_file_env_def scalars_def scalar_def)
  moreover have "unnoticed (\<lambda>p. fx_write_error sample_file_env p \<noteq> None) empty_world w {} = {}"
    by (auto simp: unnoticed_def sample_file_env_def)
  ultimately have run: "file_run w {}" by simp
  obtain w' r where c: "run_call sample_file_env (?c [98]) w = (w', r)" by force
  have p: "path_of ''/w/a'' = [''w'', ''a'']" and x: "\<not> ext_is ''ipynb'' [''w'', ''a'']"
    and tp: "text_path [''w'', ''a'']" by code_simp+
  have "fw_disk w' [''w'', ''a''] = Some (File_Node [98], 0)"
    using c by (auto simp: write_tool_def sample_file_env_def is_absolute_def expand_path_def Let_def p x stat_path_def
        write_existing_def max_edit_file_size_def is_partial_view_def is_full_read_def w write_and_record_def fs_write_def
        record_snapshot_def enc)
  then have "fw_disk w' [''w'', ''a''] \<noteq> fw_disk w [''w'', ''a'']" by (simp add: w)
  moreover have d: "fw_disk w [''w'', ''a''] = Some (File_Node [97], 0)" by (simp add: w)
  ultimately obtain e where "fw_snapshots w [''w'', ''a''] = Some e" "is_full_read e"
    "sn_content e = utf8_lossy [97] \<or> sn_content e = decode_content [97] \<or> 2000 < length (split_inclusive [97::nat])"
    using no_unseen_overwrite [OF run c tp] by blast
  with run d show ?thesis by blast
qed

end
