(* ===== verification/File_Long.thy ===== *)
theory File_Long
  imports File_Runs
begin

text \<open>
  A file longer than a read without limits shows: the snapshot it leaves passes for a full one.
\<close>

lemma read_lines_total:
  "start = 0 \<Longrightarrow> \<exists>out' raw'. read_lines (\<lambda>_. False) start lim lines idx emitted out raw = Some (out', raw')"
  by (induction lines arbitrary: idx emitted out raw) (auto simp: read_lines.simps [of _ _ _ "[]"] read_lines.simps [of _ _ _ "_ # _"])

lemma read_lines_out_length:
  assumes "read_lines (\<lambda>_. False) 0 lim lines idx emitted out raw = Some (out', raw')"
    and "\<forall>l\<in>set lines. \<forall>k\<le>n. length (show_line k l) \<le> b" "idx + length lines \<le> n"
  shows "length out' \<le> length out + length lines * Suc b"
  using assms
proof (induction lines arbitrary: idx emitted out raw)
  case Nil
  then show ?case by (simp add: read_lines.simps [of _ _ _ "[]"])
next
  case (Cons l ls)
  show ?case
  proof (cases "lim \<le> emitted")
    case True
    with Cons.prems show ?thesis by (simp add: read_lines.simps [of _ _ _ "_ # _"])
  next
    case False
    let ?o = "out @ (if 0 < emitted then [newline] else []) @ show_line (Suc idx) l"
    from False Cons.prems(1) have "read_lines (\<lambda>_. False) 0 lim ls (Suc idx) (Suc emitted) ?o (raw @ l) = Some (out', raw')"
      by (simp add: read_lines.simps [of _ _ _ "_ # _"])
    with Cons.IH [OF this] Cons.prems(2,3) have "length out' \<le> length ?o + length ls * Suc b" by simp
    moreover have "length (show_line (Suc idx) l) \<le> b" using Cons.prems(2,3) by simp
    moreover have "length (if 0 < emitted then [newline] else []) \<le> 1" by simp
    ultimately show ?thesis by simp
  qed
qed

lemma length_decimal: "n < 10 ^ Suc k \<Longrightarrow> length (decimal n) \<le> Suc k"
proof (induction n arbitrary: k rule: decimal.induct)
  case (1 n)
  show ?case
  proof (cases "n < 10")
    case True
    then show ?thesis by (simp add: decimal.simps [of n])
  next
    case False
    with 1(2) obtain j where j: "k = Suc j" by (cases k) auto
    with 1(2) have "n div 10 < 10 ^ Suc j" by (simp add: less_mult_imp_div_less)
    with 1(1) [OF False] False j show ?thesis by (simp add: decimal.simps [of n])
  qed
qed

text \<open>A read without offset and limit of a file of more than 2000 lines shows and records its first
  2000 lines but counts as a full read, so that a \<open>Write\<close> right after it replaces the whole file.\<close>

theorem long_read_counts_as_full:
  assumes f: "is_absolute f" "trim f = f" "path_of f = p" and tp: "text_path p"
    and d: "fw_disk w p = Some (File_Node bs, t)" "2000 < length (split_inclusive bs)"
    and r: "run_call env (Call_Read \<lparr> ri_file_path = Some f, ri_offset = Arg_Missing, ri_limit = Arg_Missing \<rparr>) w =
      (w1, Inr (FO_Content out))"
    and env: "fx_cancelled env 0 = False" "fx_stat_error env p = None" "fx_write_error env p = None"
  shows "\<exists>e. fw_snapshots w1 p = Some e \<and> is_full_read e \<and> sn_content e = utf8_lossy (first_lines 2000 bs) \<and>
    fw_disk (fst (run_call env (Call_Write \<lparr> wi_file_path = Some f, wi_content = Some s \<rparr>) w1)) p =
      Some (File_Node (utf8_encode s), fw_now w)"
proof -
  have tilde: "expand_tilde (fx_home env) f = f"
    using f(1) by (auto simp: is_absolute_def expand_tilde_def split: list.splits)
  have expand: "expand_path (fx_home env) (fx_cwd env) f = f"
    using f(1) by (cases f) (auto simp: is_absolute_def expand_path_def split: option.splits)
  from r d(1) env(2) have node: "read_node env f p (File_Node bs) t None None w = (w1, Inr (FO_Content out))"
    by (auto simp: read_tool_def refuse_def f tilde stat_path_def Let_def split: if_splits)
  then have small: "length bs \<le> max_file_size_bytes"
    and rt: "read_text env f p (File_Node bs) t None None w = (w1, Inr (FO_Content out))"
    using tp d(2) by (auto simp: read_node_def text_path_def refuse_def Let_def split: if_splits option.splits)
  from rt tp obtain raw where
    lines: "read_lines (fx_cancelled env) 0 default_limit (split_inclusive bs) 0 0 [] [] = Some (out, raw)"
    and w1: "w1 = record_snapshot p (snapshot_read (utf8_lossy raw) t None None) w"
    by (auto simp: read_text_def text_path_def refuse_def fs_read_def split: if_splits option.splits)
  have raw: "raw = first_lines 2000 bs"
    using read_lines_raw [OF lines] by (simp add: first_lines_def default_limit_def)
  let ?e = "snapshot_read (utf8_lossy raw) t None None"
  have e: "fw_snapshots w1 p = Some ?e" "is_full_read ?e" "sn_content ?e = utf8_lossy (first_lines 2000 bs)"
    by (simp_all add: w1 record_snapshot_def is_full_read_def snapshot_read_def raw)
  have d1: "fw_disk w1 p = Some (File_Node bs, t)" "fw_now w1 = fw_now w"
    using d by (simp_all add: w1 record_snapshot_def)
  have "\<not> ext_is ''ipynb'' p" using tp by (simp add: text_path_def)
  then have "write_tool env \<lparr> wi_file_path = Some f, wi_content = Some s \<rparr> w1 =
      write_and_record env p s (''The file '' @ f @ '' has been updated successfully.'') w1"
    using f env d1 e small
    by (simp add: write_tool_def expand Let_def stat_path_def write_existing_def is_partial_view_def
        max_file_size_bytes_def max_edit_file_size_def snapshot_read_def)
  then have "fw_disk (fst (run_call env (Call_Write \<lparr> wi_file_path = Some f, wi_content = Some s \<rparr>) w1)) p =
      Some (File_Node (utf8_encode s), fw_now w)"
    using d1 env(3) by (simp add: write_and_record_def fs_write_def record_snapshot_def)
  with e show ?thesis by blast
qed

definition long_world :: file_world where
  "long_world = \<lparr> fw_disk = [[''w'', ''a''] \<mapsto> (File_Node (replicate 2001 10), 0)], fw_snapshots = Map.empty, fw_now = 5 \<rparr>"

lemma split_newlines: "split_inclusive (replicate n newline) = replicate n [newline]"
  by (induction n) auto

theorem long_read_counts_as_full_witness:
  "\<exists>w1 out. run_call sample_file_env (Call_Read \<lparr> ri_file_path = Some ''/w/a'', ri_offset = Arg_Missing, ri_limit = Arg_Missing \<rparr>)
      long_world = (w1, Inr (FO_Content out)) \<and>
    fw_disk (fst (run_call sample_file_env (Call_Write \<lparr> wi_file_path = Some ''/w/a'', wi_content = Some [] \<rparr>) w1)) [''w'', ''a''] =
      Some (File_Node [], 5)"
proof -
  let ?bs = "replicate 2001 (10::nat)" and ?p = "[''w'', ''a'']"
  have p: "path_of ''/w/a'' = ?p" and tp: "text_path ?p" and tr: "trim ''/w/a'' = ''/w/a''" by code_simp+
  have parts: "split_inclusive ?bs = replicate 2001 [10]" using split_newlines [of 2001] by (simp add: newline_def)
  obtain out raw where o: "read_lines (\<lambda>_. False) 0 default_limit (split_inclusive ?bs) 0 0 [] [] = Some (out, raw)"
    using read_lines_total by blast
  have "length (show_line k [10]) \<le> 6" if "k \<le> 2001" for k
    using length_decimal [of k 3] that
    by (simp add: show_line_def strip_line_end_def newline_def carriage_return_def suffix_def Let_def text_of_def)
  then have "length out \<le> 0 + 2001 * Suc 6"
    using read_lines_out_length [OF o, of 2001 6] by (simp add: parts)
  then have tokens: "\<not> max_tokens < length out div 4" by (simp add: max_tokens_def)
  have bin: "\<not> is_binary ?bs" by (auto simp: is_binary_def dest: in_set_takeD)
  have small: "\<not> max_file_size_bytes < 2001" by (simp add: max_file_size_bytes_def)
  have txt_ext: "image_media_type (case extension ?p of Some e \<Rightarrow> e | None \<Rightarrow> []) = None" "\<not> ext_is ''pdf'' ?p"
    "\<not> ext_is ''ipynb'' ?p"
    using tp by (simp_all add: text_path_def)
  have blocked: "''/w/a'' \<notin> set blocked_device_paths" "strip_prefix ''/dev/fd/'' ''/w/a'' = None" by code_simp+
  let ?c = "Call_Read \<lparr> ri_file_path = Some ''/w/a'', ri_offset = Arg_Missing, ri_limit = Arg_Missing \<rparr>"
  have "read_text sample_file_env ''/w/a'' ?p (File_Node ?bs) 0 None None long_world =
      (record_snapshot ?p (snapshot_read (utf8_lossy raw) 0 None None) long_world, Inr (FO_Content out))"
    unfolding read_text_def fs_read_def using bin txt_ext(3) o tokens
    by (simp add: sample_file_env_def)
  then have "read_node sample_file_env ''/w/a'' ?p (File_Node ?bs) 0 None None long_world =
      (record_snapshot ?p (snapshot_read (utf8_lossy raw) 0 None None) long_world, Inr (FO_Content out))"
    unfolding read_node_def using txt_ext small by (simp add: long_world_def Let_def)
  then have r: "run_call sample_file_env ?c long_world =
      (record_snapshot ?p (snapshot_read (utf8_lossy raw) 0 None None) long_world, Inr (FO_Content out))"
    using blocked
    by (simp add: read_tool_def sample_file_env_def tr expand_tilde_def p is_absolute_def stat_path_def Let_def long_world_def)
  have "is_absolute ''/w/a''" by (simp add: is_absolute_def)
  moreover have "fw_disk long_world ?p = Some (File_Node ?bs, 0)" by (simp add: long_world_def)
  moreover have "2000 < length (split_inclusive ?bs)" by (simp add: parts)
  moreover have "fx_cancelled sample_file_env 0 = False" "fx_stat_error sample_file_env ?p = None"
    "fx_write_error sample_file_env ?p = None" by (simp_all add: sample_file_env_def)
  ultimately obtain e where "fw_disk (fst (run_call sample_file_env (Call_Write \<lparr> wi_file_path = Some ''/w/a'', wi_content = Some [] \<rparr>)
      (record_snapshot ?p (snapshot_read (utf8_lossy raw) 0 None None) long_world))) ?p = Some (File_Node (utf8_encode []), fw_now long_world)"
    using long_read_counts_as_full [OF _ tr p tp _ _ r] by blast
  moreover have "utf8_encode [] = []" by (simp add: utf8_encode_def)
  ultimately show ?thesis using r by (auto simp: long_world_def)
qed

end
