(* ===== verification/Spec2Isabelle.thy ===== *)
theory Spec2Isabelle
  imports Store_Recoveries Tasklist_Wake Queue_Hazards Predicate_Properties Schedule_Samples Permission_Safety Message_Properties Relay_Properties Lease_Properties
    Bridge_Properties Conversation_Properties Scanner_Properties
    Loop_Properties Registry_Properties File_Long
begin

text \<open>
  A model of the engine of Launchpad Studio (Rust, \<open>src/crates/\<close>): its tasklists, the loop that lets a model
  call tools with the gate, registry and file tools behind it, the chat channels, and the schedule with its
  watches, with the theorems that make them correct.

  THE PROGRAM.

  Tasklists. A tasklist is a plan: groups of tasks, each group sequential or parallel, owned by a team
  or by one agent. \<open>ao-protocol/src/tasklist.rs\<close> defines the data. The tasklist store
  (\<open>ao-persistence/src/tasklist_store.rs\<close>) keeps one file per tasklist and is the only arbiter between
  concurrent callers: every change is a read-modify-write under a per-tasklist lock. The task feeder
  (\<open>ao-engine/src/task_feeder/\<close>) drives a tasklist: \<open>advance\<close> hands pending tasks to agents, agents
  report back through \<open>validate_and_complete\<close>, \<open>on_task_terminal\<close> and \<open>on_run_ended\<close>, a watchdog recovers
  tasks whose run died, an operator pauses, continues, skips, discards and replays. The feeder shares
  the store with every other caller, keeps an in-memory registry (one slot per tasklist and agent), and
  acts outwards through a dispatcher, an event bus, notification dispatchers and waiting callers.
  \<open>ao-engine/src/tasklist_lifecycle.rs\<close> decides when a tasklist counts as awake.

  Tool calls. An agent's run is \<open>run_query_loop\<close> (\<open>ao-engine-tools-runner/src/query_loop\<close>): it asks the provider
  for a turn, partitions the calls of the turn into batches (\<open>partition.rs\<close>), runs each batch under a bound
  on the calls at work (\<open>executor\<close>) and sends the results back. Each call goes through
  \<open>run_one_invocation\<close>: lookup, the pre-hooks of the settings, the tool's own check and \<open>evaluate_permission\<close>
  (\<open>permissions/mod.rs\<close>), which weighs mode, rules, hooks and the operator's answer. Which tools there are is
  the registry's matter (\<open>ao-engine-tools-core\<close>), which of them the model sees the admission gate's and
  \<open>ToolSearch\<close>'s; the MCP bridge (\<open>ao-mcp-bridge\<close>) offers the same registry over JSON-RPC, without the gate
  of permissions. The Bash tool lets read-only command lines pass without a prompt; \<open>Read\<close>, \<open>Edit\<close> and
  \<open>Write\<close> (\<open>ao-engine-tools-io\<close>) share snapshots of the files they have seen.

  Channels. A supervisor (\<open>telegram/bridge.rs\<close>) starts and stops the listeners of the channel bindings, each
  under a lease of a store shared between processes (\<open>channel_lease_store.rs\<close>). The relay
  (\<open>channels/relay/\<close>) listens to the event bus and sends the text of a finished run to the chat its thread
  is bound to, cut into messages by the chunker, when the process holds the lease. The conversation
  registry bounds the conversations of a binding. Before text reaches a reader the tag scanner
  (\<open>tag_stream_scanner.rs\<close>) takes the action tags out of it.

  Schedules. Once a second the schedule runner (\<open>schedule_runner.rs\<close>) goes over the enabled assignments: it fires
  the due cron assignments, polls the due connectors and the due watches. A watch (\<open>agent_watch.rs\<close>) lets a
  model observe a source, judges each observed item under its contract (\<open>ao-protocol/src/watch_contract\<close>:
  what an item is, when it has changed, which predicate it must satisfy) against what its scratchpad
  (\<open>assignment_scratchpad.rs\<close>) remembers, and fires the assignment for the items that count as new. A ledger
  in the scratchpad says which actions were dispatched, and a reconciliation at the start of the next poll
  which of them arrived.

  THE MODEL. A Rust method is a value of \<open>('s, 'e, 'a) sm\<close> (LS\_Prelude): a function from the state to a
  result - \<open>Inl\<close> the error, \<open>Inr\<close> the value - and the state it leaves, so the state changes made before an
  early return stay. \<open>bindE\<close> is the question mark operator, \<open>thenE\<close> sequencing, \<open>attempt\<close> a result that is
  matched or dropped, \<open>zoom\<close> a method of a part of the state. Integers have the code's width: an
  attempt count is a 32-bit word that saturates, a dispatch token a 64-bit word that wraps. Times are
  integers (milliseconds). No definition has fuel: a loop runs over a list, or, where it may not end
  (\<open>chunk_text\<close> with limit 0, the loop of turns), it is a \<open>partial_function\<close> whose \<open>None\<close> is a run that
  does not return, and a theorem says when it returns.

  Prelude. Rust\_Text: \<open>str\<close> on UTF-8 bytes (trimming, splitting, numbers). LS\_Prelude: the monad and its
  laws, saturation, association lists, first-match list updates. Simulation: the contract of a component with
  an abstract specification. Samples: concrete tasklists and surroundings for the witnesses.

  Tasklists.

  \<^item> Tasklist: \<open>tasklist.rs\<close> and \<open>error.rs\<close>. Records \<open>task\<close>, \<open>task_group\<close>, \<open>tasklist\<close>, the enums,
    \<open>find_task\<close>/\<open>modify_task\<close> (the first task with an id, as \<open>find_task_mut\<close> finds it), output prefixes.
  \<^item> Tasklist\_Lifecycle: the pure predicates of \<open>tasklist_lifecycle.rs\<close>; Tasklist\_Wake has its emitting
    functions, which need the store.
  \<^item> Tasklist\_Store: \<open>TasklistStore\<close>. \<open>store\<close> is the map from (owner, id) to parsed files, with the
    directories. All reads, both transition tables, every mutator.
  \<^item> Feeder\_State: \<open>TaskFeeder\<close> as the record \<open>feeder\<close>; its outward calls as \<open>effect\<close> values on
    \<open>fs_trace\<close>; \<open>mod.rs\<close> helpers, reports, watchers, \<open>events.rs\<close>.
  \<^item> Feeder\_Dispatch, Feeder\_Terminal, Feeder\_Watchdog, Feeder\_Lifecycle: \<open>dispatch.rs\<close>,
    \<open>terminal.rs\<close>, \<open>watchdog.rs\<close>, \<open>lifecycle.rs\<close>, one definition per method, composed as the code does.
  \<^item> Tasklist\_Service: the closures with which \<open>tasklist_service/mod.rs\<close> rewrites plans in the store.
  \<^item> Queue\_Manager: \<open>tasklist_queue_manager.rs\<close> and \<open>sleep_guard.rs\<close>. The manager of a tasklist stands between the
    feeder's dispatcher and the runs: \<open>tqm\<close> holds its channel, queue, runs in flight and sleep guard; a turn of
    its loop that waits for ever is the error \<open>Loop_Blocked\<close>, and \<open>tq_run\<close> is any order of its turns and of
    what happens around it.

  Tool calls.

  \<^item> Bash\_Gate: \<open>split_leading_cd\<close> (\<open>bash/execute.rs\<close>), \<open>auto_approve.rs\<close>, \<open>command_classifier.rs\<close>.
  \<^item> Permissions: \<open>permissions/rule.rs\<close>, \<open>hooks/config.rs\<close> (merging the settings files),
    \<open>run_pre_hooks\<close>, \<open>InMemoryDenialTracker\<close>, \<open>evaluate_permission\<close>, the permission stage of
    \<open>run_one_invocation\<close>, \<open>check_permissions\<close> of Bash and of a tool that keeps the defaults. The state is
    \<open>gate\<close>: the denial tracker and the questions put to the operator, with the answers.
  \<^item> Tool\_Executor: the partition and the executor. A batch is a list of slots that a schedule - any list of
    polls, with the moment of cancellation - moves; the futures are a parameter, the record \<open>runner\<close>.
  \<^item> Query\_Loop: messages, the provider's events, \<open>run_one_invocation\<close> as a future with its polls, a turn, a
    session. Its configuration \<open>session_config\<close> holds the registry, the provider, hooks and the operator.
  \<^item> Edit\_Distance, Tool\_Registry, Tool\_Search, Mcp\_Bridge: the two Levenshtein routines; \<open>registry.rs\<close> and
    \<open>policy.rs\<close>; the admission gate, the scope of an MCP server, \<open>ToolSearch\<close>; \<open>handler.rs\<close> and \<open>protocol.rs\<close>.
  \<^item> File\_Text, File\_Edit, File\_Tools: bytes and scalar values with the decoders and encoders of UTF-8 and
    UTF-16; the text of one edit (\<open>quote.rs\<close>, \<open>sanitize.rs\<close>, line endings); the handlers of the three tools
    over a disk whose calls may fail, with their snapshots (\<open>read_file_state.rs\<close>).

  Channels.

  \<^item> Message\_Chunks: the chunker, the replies of Telegram, Discord and Slack, \<open>visible_text\<close>.
  \<^item> Channel\_Gate, Channel\_Relay: the correlation map, the lease gate and its index, the observer of the bus
    with the recovery after a lag.
  \<^item> Channel\_Lease, Lease\_Race: the lease store's calls one at a time, and as the file-system actions of
    several processes (a scheduler's action advances, crashes or fails one of them, or lets time pass).
  \<^item> Channel\_Bridge: one \<open>reconcile\<close> tick of the supervisor. Conversation\_Registry: the registry and its
    eviction. Tag\_Scanner: the scanner and the pump of \<open>live_stream_consumer.rs\<close> in front of it.

  Schedules.

  \<^item> Predicates, Legacy\_Expr: JSON values with the two path languages, predicates with their evaluation and
    their printer (\<open>predicate/mod.rs\<close>); the parser of the string grammar (\<open>legacy_expr.rs\<close>), a recursive descent
    whose return is the value \<open>Some\<close>.
  \<^item> Watch\_Contract, Watch\_Ledger: the contract with its keys and canonical texts; the record \<open>scratchpad\<close> with
    every operation on it.
  \<^item> Watch\_Tick, Watch\_Poll: reconciliation, the contract-bound tick and the legacy tick; the whole poll,
    \<open>run_agent_watch_tick\<close>. What an observation finds and how the storage answers is the argument \<open>poll_input\<close>;
    \<open>watch_world\<close> is what the poll leaves on disk and on the event bus. A panic is \<open>None\<close>.
  \<^item> Schedule\_Runner: the tick over the assignments with the marks of \<open>assignment_store.rs\<close>; after a panic
    \<open>sc_running\<close> is false.

  INTERFACES. Keyed\_Store declares what the feeder relies on. \<open>keyed_store\<close>: what a lookup returns after a
  write. \<open>keyed_op\<close>: an operation that works on the record at one key by a given step relation, and
  leaves the store unchanged when the key is missing; its lemmas give the frame, well-formedness and the
  evolution of every record. Tasklist\_Store interprets both on the code's store and its mutators;
  \<open>tasklist_closure\<close> is the contract of a closure given to \<open>mutate\<close>, with a sublocale to \<open>keyed_op\<close>;
  \<open>plan_writer\<close> (Store\_Recoveries) extends it with what a rewriting of a plan keeps of a task's token and attempt
  count, and is interpreted on the closures of the operator's methods and of the tasklist service.
  \<open>evolution\<close> (Feeder\_Moves) takes a reflexive and transitive relation on tasklists and derives the
  rules by which a whole feeder method respects it; it is interpreted on \<open>feeder_move\<close> (what the feeder
  may do on its own) and on \<open>same_status\<close>. \<open>denial_fence\<close> (Permission\_Safety) is what the gate needs of a
  denial tracker; it is interpreted on the in-memory one. \<open>simulation\<close> and \<open>total_simulation\<close> relate a
  component to a specification through an abstraction function; they are interpreted on the lease gate
  (a map from threads to bindings) and on the lease store (a table of leases). \<open>call_runner\<close>
  (Executor\_Properties) is what the executor asks of the futures it polls - the result carries the call's id,
  and a pending poll makes progress; it is interpreted on the calls of the query loop.
  \<open>turns\<close> (Schedule\_Properties) is what the runner's loops ask of a turn: it changes what its own assignment
  sees and nothing else; it is interpreted on the turns of the three kinds of assignment.

  THE THEOREMS.

  \<^item> Store\_Properties: every branch of the status and task transitions, creation and the one slot per
    owner, the queries, the transition tables; the revival path that the slot check misses.
  \<^item> Store\_Concurrency: \<open>shared_run\<close> is an arbitrary interleaving of locked store steps. At most one claim
    of a task succeeds. \<open>reached\<close> is any sequence of store methods from the empty store. The races of the
    unlocked \<open>bind_copilot_agent_id\<close>.
  \<^item> Store\_Recoveries: \<open>plan_run\<close> interleaves those steps with status changes and the locked rewritings of a plan;
    recoveries use distinct tokens, and between two resets of the failed tasks they are fewer than the limit.
  \<^item> Feeder\_Calls: \<open>emits\<close> bounds what a method hands to the dispatcher; which tasks \<open>advance\<close> may hand
    out, and the exact effect of dispatching one.
  \<^item> Feeder\_Progress, Feeder\_Stall: halting on a failure, completion at the end of the plan, the
    tasklist that stays active for ever after its last executor's profile is gone.
  \<^item> Feeder\_Recovery: the watchdog, one recovery, a run without a report, a completion without its
    outputs, the forced completion; all autonomous methods keep to \<open>feeder_move\<close>.
  \<^item> Feeder\_Control, Tasklist\_Wake: the operator's transitions, reports, wake and sleep.
  \<^item> Queue\_Properties, Queue\_Hazards: every message starts its run once and in order, the sleep guard follows
    the runs, a start that fails halts the tasklist; what a cancel and a stale report do, and when the loop
    blocks itself.
  \<^item> Bash\_Safety: what a split-off leading \<open>cd\<close> is, exactly which command lines are auto-approved, and the
    \<open>cd\<close> target the gate does not look at.
  \<^item> Permission\_Safety: when a shell command runs unasked; that refusals of the operator are bounded, where calls
    of a batch may be before the operator together (\<open>desk_run\<close>: arrivals and answers in any order); the rule grammar, the precedence of the settings files; where plan mode and the session reset do not do
    what they promise.
  \<^item> Executor\_Properties, Loop\_Properties: under every schedule the bound and the order of results hold; the
    transcript stays paired; a session with a turn cap returns when each of its batches is scheduled in at
    least \<open>N * (P + 6)\<close> rounds that poll every slot, for streams of at most \<open>N\<close> items and tools of at most
    \<open>P\<close> pending polls (a call waits for its permit, its hooks, its permission and its tool).
  \<^item> Registry\_Properties: the surfaces of the registry agree, the gate hides but does not refuse, the MCP
    bridge refuses what it hides, what \<open>ToolSearch\<close> brings into view and what it cannot.
  \<^item> File\_Properties, File\_Safety, File\_Runs, File\_Long: one edit's text, round trips of texts and line
    endings; in every run, with the disk changing from outside between the calls in any way and writes that fail
    half-way (\<open>file_run\<close>, which keeps the set of files that changed unnoticed), what may be overwritten and what a
    snapshot says; the read that passes for a full one.
  \<^item> Message\_Properties, Relay\_Properties, Lease\_Properties, Bridge\_Properties, Conversation\_Properties,
    Scanner\_Properties: the pieces of a message; one answer per run and none without the lease; the
    refinements of gate and lease store, what exclusion the lease's lock gives and where it is lost; what a
    tick runs and whom it silences; the registry's bound; the scanner's text and events.
  \<^item> Predicate\_Properties: what is printed is parsed back, and the parser returns on every text.
  \<^item> Watch\_Reconcile, Watch\_Properties: what a reconciliation does to the ledger, and when it panics; no
    second dispatch without a reported retry, in every run of polls. Watch\_Bounds: the bounds of the
    scratchpad and of the amendments. Watch\_Hazards, Watch\_Reports: one item through single polls, and the two
    cases in which a report is lost. Watch\_Samples: a concrete watch.
  \<^item> Schedule\_Properties, Schedule\_Samples: a turn's effect on the other assignments; the stuck delivery that
    stops the scheduler, the cron assignment that is queued every second, the connector's change that is lost.

  ABSTRACTIONS. A method that holds a tasklist's lock is one atomic step. A feeder method reads the store
  at the points the code reads it; interleavings inside one feeder method are covered where a theorem
  says so (a stale snapshot is an argument of \<open>advance\<close> and \<open>dispatch_one\<close>). In the tasklist part input/output
  errors, unparsable files and logging are not modelled; the file tools and the lease store have them. The text
  of an error is kept where the code
  interpolates only identifiers and is a constructor with its arguments otherwise; a reprompt is a
  constructor with what its template interpolates. The dispatcher, the clock, uuids, agent profiles,
  workspace files, changelog files and running instances are the fields of \<open>feeder_env\<close>: the theorems
  hold for all of them. A JSON value is of an arbitrary type; the field access, globs and regular
  expressions of the crates behind it are the fields of \<open>call_env\<close>. A hook process is a function from
  its request to its outcome. A tool other than the modelled ones is its future: how many polls it is pending
  for and what it then returns. What the operating system answers besides the disk's contents is
  \<open>file_env\<close>.

  NOT MODELLED. The personal queues of the agents (\<open>queue_manager.rs\<close>), the
  classifier that assigns owners, what the tasklist service does around its writes, the CLI runners and the normalizers of their streams, providers, running
  commands, Glob, Grep and NotebookEdit, the agent-facing tools, memory, skills, workflows and webhooks, the
  observations of a watch (prompts, extraction plans, the authoring of a contract), the threads of an assignment, the
  inbound side of the channels, the HTTP server and the front end: separate subsystems, which meet the
  parts above at the store's, the feeder's, the loop's and the relay's methods.
\<close>

end
